(* ===== verification/Prelude.thy ===== *)
theory Prelude
  imports Main "HOL-Library.List_Lexorder" "HOL-Library.Word"
begin

text \<open>
  What every other theory of the development shares: the types the model uses for the
  program's strings and machine integers, the collections of simplification rules, and
  small facts on lists and options.

  A Rust \<open>String\<close> is a sequence of Unicode scalar values; it is modelled as the list of
  its scalar values (\<open>str\<close>), so \<open>chars()\<close> is the list itself, the byte length
  \<open>len()\<close> is \<open>utf8_len\<close>, and the byte order of strings is the lexicographic order of
  \<open>List_Lexorder\<close> (UTF-8 keeps the order of scalar values). A literal \<open>"abc"\<close> of the
  source is \<open>tx ''abc''\<close>. Unsigned machine integers are naturals with the bound written
  out where the code saturates.
\<close>

section \<open>Strings\<close>

type_synonym str = "nat list"

definition tx :: "string \<Rightarrow> str" where
  "tx s = map of_char s"

definition utf8_width :: "nat \<Rightarrow> nat" where
  "utf8_width c = (if c < 128 then 1 else if c < 2048 then 2 else if c < 65536 then 3 else 4)"

definition utf8_len :: "str \<Rightarrow> nat" where
  "utf8_len t = sum_list (map utf8_width t)"

definition ascii_lower :: "nat \<Rightarrow> nat" where
  "ascii_lower c = (if 65 \<le> c \<and> c \<le> 90 then c + 32 else c)"

definition to_ascii_lowercase :: "str \<Rightarrow> str" where
  "to_ascii_lowercase t = map ascii_lower t"

definition is_ascii_hexdigit :: "nat \<Rightarrow> bool" where
  "is_ascii_hexdigit c \<longleftrightarrow> 48 \<le> c \<and> c \<le> 57 \<or> 65 \<le> c \<and> c \<le> 70 \<or> 97 \<le> c \<and> c \<le> 102"

definition is_ascii_digit :: "nat \<Rightarrow> bool" where
  "is_ascii_digit c \<longleftrightarrow> 48 \<le> c \<and> c \<le> 57"

definition is_ascii_alphanumeric :: "nat \<Rightarrow> bool" where
  "is_ascii_alphanumeric c \<longleftrightarrow> is_ascii_digit c \<or> 65 \<le> c \<and> c \<le> 90 \<or> 97 \<le> c \<and> c \<le> 122"

text \<open>
  \<open>char::is_whitespace\<close> of the standard library: Unicode's \<open>White_Space\<close> property.
  \<open>char::is_control\<close>: the general category \<open>Cc\<close>.
\<close>

definition is_whitespace :: "nat \<Rightarrow> bool" where
  "is_whitespace c \<longleftrightarrow> 9 \<le> c \<and> c \<le> 13 \<or> c = 32 \<or> c = 133 \<or> c = 160 \<or> c = 5760
     \<or> 8192 \<le> c \<and> c \<le> 8202 \<or> c = 8232 \<or> c = 8233 \<or> c = 8239 \<or> c = 8287 \<or> c = 12288"

definition is_control :: "nat \<Rightarrow> bool" where
  "is_control c \<longleftrightarrow> c < 32 \<or> 127 \<le> c \<and> c \<le> 159"

definition trim_start_by :: "(nat \<Rightarrow> bool) \<Rightarrow> str \<Rightarrow> str" where
  "trim_start_by p t = dropWhile p t"

definition trim_end_by :: "(nat \<Rightarrow> bool) \<Rightarrow> str \<Rightarrow> str" where
  "trim_end_by p t = rev (dropWhile p (rev t))"

definition trim_by :: "(nat \<Rightarrow> bool) \<Rightarrow> str \<Rightarrow> str" where
  "trim_by p t = trim_end_by p (trim_start_by p t)"

definition trim :: "str \<Rightarrow> str" where
  "trim = trim_by is_whitespace"

definition starts_with :: "str \<Rightarrow> str \<Rightarrow> bool" where
  "starts_with p t \<longleftrightarrow> take (length p) t = p"

definition ends_with :: "str \<Rightarrow> str \<Rightarrow> bool" where
  "ends_with s t \<longleftrightarrow> length s \<le> length t \<and> drop (length t - length s) t = s"

text \<open>\<open>str::contains\<close> of a text.\<close>

fun contains_text :: "str \<Rightarrow> str \<Rightarrow> bool" where
  "contains_text p [] = (p = [])"
| "contains_text p (c # cs) = (starts_with p (c # cs) \<or> contains_text p cs)"

text \<open>\<open>str::split\<close> on a separator character: the pieces between separators, never none.\<close>

fun split_on :: "(nat \<Rightarrow> bool) \<Rightarrow> str \<Rightarrow> str list" where
  "split_on p [] = [[]]"
| "split_on p (c # cs) =
     (if p c then [] # split_on p cs
      else (case split_on p cs of [] \<Rightarrow> [[c]] | w # ws \<Rightarrow> (c # w) # ws))"

text \<open>\<open>str::split_whitespace\<close>: the non-empty pieces between runs of whitespace.\<close>

definition split_whitespace :: "str \<Rightarrow> str list" where
  "split_whitespace t = filter (\<lambda>w. w \<noteq> []) (split_on is_whitespace t)"

fun join :: "str \<Rightarrow> str list \<Rightarrow> str" where
  "join sep [] = []"
| "join sep [w] = w"
| "join sep (w # ws) = w @ sep @ join sep ws"

definition strip_prefix :: "str \<Rightarrow> str \<Rightarrow> str option" where
  "strip_prefix p t = (if starts_with p t then Some (drop (length p) t) else None)"

lemma strip_prefix_Some [simp]: "strip_prefix p t = Some u \<longleftrightarrow> t = p @ u"
  by (auto simp: strip_prefix_def starts_with_def) (metis append_take_drop_id)

lemma tx_Nil [simp]: "tx [] = []"
  by (simp add: tx_def)

lemma tx_eq_Nil [simp]: "tx s = [] \<longleftrightarrow> s = []"
  by (simp add: tx_def)

lemma tx_inject [simp]: "tx s = tx t \<longleftrightarrow> s = t"
proof
  assume "tx s = tx t"
  then show "s = t" unfolding tx_def
    by (rule list.inj_map_strong [rotated]) (simp add: of_char_eq_iff)
qed simp

lemma ascii_lower_idem [simp]: "ascii_lower (ascii_lower c) = ascii_lower c"
  by (simp add: ascii_lower_def)

lemma to_ascii_lowercase_idem [simp]:
  "to_ascii_lowercase (to_ascii_lowercase t) = to_ascii_lowercase t"
  by (simp add: to_ascii_lowercase_def)

lemma split_on_not_Nil [simp]: "split_on p t \<noteq> []"
  by (induction t) (auto split: list.splits)

lemma trim_end_by_Nil [simp]: "trim_end_by p [] = []"
  by (simp add: trim_end_by_def)

lemma set_trim_end_by: "set (trim_end_by p t) \<subseteq> set t"
  by (auto simp: trim_end_by_def dest: set_dropWhileD)

lemma set_trim_by: "set (trim_by p t) \<subseteq> set t"
  using set_trim_end_by by (fastforce simp: trim_by_def trim_start_by_def dest: set_dropWhileD)

lemma last_trim_end_by: "trim_end_by p t \<noteq> [] \<Longrightarrow> \<not> p (last (trim_end_by p t))"
  unfolding trim_end_by_def by (simp add: last_rev hd_dropWhile)

section \<open>Machine integers\<close>

definition u64_max :: nat where
  "u64_max = 2 ^ 64 - 1"

definition u32_max :: nat where
  "u32_max = 2 ^ 32 - 1"

definition i64_max :: int where
  "i64_max = 2 ^ 63 - 1"

definition sat_add64 :: "nat \<Rightarrow> nat \<Rightarrow> nat" where
  "sat_add64 a b = min u64_max (a + b)"

definition sat_mul64 :: "nat \<Rightarrow> nat \<Rightarrow> nat" where
  "sat_mul64 a b = min u64_max (a * b)"

definition sat_add32 :: "nat \<Rightarrow> nat \<Rightarrow> nat" where
  "sat_add32 a b = min u32_max (a + b)"

lemma sat_add64_le [simp]: "sat_add64 a b \<le> u64_max"
  by (simp add: sat_add64_def)

lemma sat_mul64_le [simp]: "sat_mul64 a b \<le> u64_max"
  by (simp add: sat_mul64_def)

lemma sat_add64_exact: "a + b \<le> u64_max \<Longrightarrow> sat_add64 a b = a + b"
  by (simp add: sat_add64_def)

lemma sat_add64_sum:
  "fold (\<lambda>x acc. sat_add64 acc x) xs (min u64_max a) = min u64_max (a + sum_list xs)"
proof (induction xs arbitrary: a)
  case Nil
  then show ?case by simp
next
  case (Cons x xs)
  have "sat_add64 (min u64_max a) x = min u64_max (a + x)"
    by (auto simp: sat_add64_def min_def)
  with Cons.IH [of "a + x"] show ?case by (simp add: add.assoc)
qed

text \<open>
  Decimal text: \<open>to_string\<close> of an unsigned integer, and \<open>str::parse\<close> of one up to a maximum
  (digits with an optional plus sign).
\<close>

fun show_nat :: "nat \<Rightarrow> str" where
  "show_nat n = (if n < 10 then [48 + n] else show_nat (n div 10) @ [48 + n mod 10])"

declare show_nat.simps [simp del]

definition digits_value :: "str \<Rightarrow> nat" where
  "digits_value ds = fold (\<lambda>d n. 10 * n + (d - 48)) ds 0"

definition parse_unsigned :: "nat \<Rightarrow> str \<Rightarrow> nat option" where
  "parse_unsigned m t =
     (let ds = (if starts_with (tx ''+'') t then tl t else t)
      in if ds \<noteq> [] \<and> list_all is_ascii_digit ds \<and> digits_value ds \<le> m
         then Some (digits_value ds) else None)"

text \<open>\<open>to_string\<close> of a signed integer.\<close>

definition show_int :: "int \<Rightarrow> str" where
  "show_int n = (if n < 0 then tx ''-'' @ show_nat (nat (- n)) else show_nat (nat n))"

lemma digits_value_snoc: "digits_value (ds @ [d]) = 10 * digits_value ds + (d - 48)"
  by (simp add: digits_value_def)

lemma show_nat_props:
  "digits_value (show_nat n) = n \<and> list_all is_ascii_digit (show_nat n) \<and> show_nat n \<noteq> []"
proof (induction n rule: show_nat.induct)
  case (1 n)
  show ?case
  proof (cases "n < 10")
    case True
    then show ?thesis
      by (simp add: show_nat.simps [of n] digits_value_def is_ascii_digit_def)
  next
    case False
    then have "show_nat n = show_nat (n div 10) @ [48 + n mod 10]"
      by (simp add: show_nat.simps [of n])
    moreover have "n mod 10 < 10" by simp
    then have "is_ascii_digit (48 + n mod 10)" by (simp add: is_ascii_digit_def)
    ultimately show ?thesis
      using 1 [OF False] by (simp add: digits_value_snoc)
  qed
qed

lemma parse_show_nat: "n \<le> m \<Longrightarrow> parse_unsigned m (show_nat n) = Some n"
proof -
  assume n: "n \<le> m"
  have "\<not> starts_with (tx ''+'') (show_nat n)"
    using show_nat_props [of n]
    by (cases "show_nat n") (auto simp: starts_with_def tx_def is_ascii_digit_def)
  with n show_nat_props [of n] show ?thesis by (simp add: parse_unsigned_def Let_def)
qed

lemma parse_unsigned_le: "parse_unsigned m t = Some n \<Longrightarrow> n \<le> m"
  by (auto simp: parse_unsigned_def Let_def split: if_splits)

section \<open>Options and lists\<close>

definition opt_filter :: "('a \<Rightarrow> bool) \<Rightarrow> 'a option \<Rightarrow> 'a option" where
  "opt_filter p v = (case v of None \<Rightarrow> None | Some x \<Rightarrow> if p x then Some x else None)"

definition opt_or :: "'a option \<Rightarrow> 'a option \<Rightarrow> 'a option" where
  "opt_or a b = (case a of None \<Rightarrow> b | Some _ \<Rightarrow> a)"

definition unwrap_or :: "'a \<Rightarrow> 'a option \<Rightarrow> 'a" where
  "unwrap_or d v = (case v of None \<Rightarrow> d | Some x \<Rightarrow> x)"

definition get_at :: "'a list \<Rightarrow> nat \<Rightarrow> 'a option" where
  "get_at xs i = (if i < length xs then Some (xs ! i) else None)"

fun somes :: "'a option list \<Rightarrow> 'a list" where
  "somes [] = []"
| "somes (None # xs) = somes xs"
| "somes (Some x # xs) = x # somes xs"

lemma unwrap_or_simps [simp]: "unwrap_or d None = d" "unwrap_or d (Some x) = x"
  by (simp_all add: unwrap_or_def)

lemma opt_or_simps [simp]: "opt_or None b = b" "opt_or (Some x) b = Some x"
  by (simp_all add: opt_or_def)

lemma opt_filter_Some_iff [simp]: "opt_filter p v = Some x \<longleftrightarrow> v = Some x \<and> p x"
  by (auto simp: opt_filter_def split: option.splits)

lemma get_at_Some_iff: "get_at xs i = Some x \<longleftrightarrow> i < length xs \<and> xs ! i = x"
  by (simp add: get_at_def)

lemma get_at_None_iff: "get_at xs i = None \<longleftrightarrow> length xs \<le> i"
  by (auto simp: get_at_def)

lemma set_somes: "set (somes xs) = {x. Some x \<in> set xs}"
  by (induction xs rule: somes.induct) auto

lemma somes_append [simp]: "somes (xs @ ys) = somes xs @ somes ys"
  by (induction xs rule: somes.induct) auto

lemma list_all_update: "list_all P xs \<Longrightarrow> P x \<Longrightarrow> list_all P (xs[i := x])"
  by (auto simp: list_all_iff dest: set_update_subset_insert [THEN subsetD])

section \<open>Errors\<close>

lemma map_sum_Inr_iff: "map_sum id f r = Inr y \<longleftrightarrow> (\<exists>x. r = Inr x \<and> f x = y)"
  by (cases r) auto

text \<open>Rust's \<open>?\<close>: the first error ends the call.\<close>

definition try_then :: "'e + 'a \<Rightarrow> ('a \<Rightarrow> 'e + 'b) \<Rightarrow> 'e + 'b" where
  "try_then r f = (case r of Inl e \<Rightarrow> Inl e | Inr x \<Rightarrow> f x)"

lemma try_then_simps [simp]: "try_then (Inl e) f = Inl e" "try_then (Inr x) f = f x"
  by (simp_all add: try_then_def)

lemma try_then_Inr_iff: "try_then r f = Inr y \<longleftrightarrow> (\<exists>x. r = Inr x \<and> f x = Inr y)"
  by (cases r) simp_all

section \<open>Pieces\<close>

text \<open>The slice method \<open>chunks\<close>: pieces of \<open>n\<close> elements, the last one shorter.\<close>

function chunks :: "nat \<Rightarrow> 'a list \<Rightarrow> 'a list list" where
  "chunks n xs = (if xs = [] \<or> n = 0 then [] else take n xs # chunks n (drop n xs))"
  by auto

termination by (relation "measure (\<lambda>(n, xs). length xs)") auto

declare chunks.simps [simp del]

lemma concat_chunks: "0 < n \<Longrightarrow> concat (chunks n xs) = xs"
  by (induction n xs rule: chunks.induct) (subst chunks.simps, auto)

end
