(* ===== verification/QueueTables.thy ===== *)
theory QueueTables
  imports Prelude
begin

text \<open>
  The tables of the background processing queue
  (\<open>apps/desktop/src-tauri/src/processing/repository.rs\<close>, tables of migration
  \<open>0032_batch_processing\<close> and its successors) and what a SQL statement does to them.

  A table is the list of its rows in the order of their row identifiers. An \<open>UPDATE\<close> of tasks
  determines its rows first and then changes them one by one; after each row whose state changed
  to an ending state the trigger \<open>processing_tasks_settle_dependents\<close> runs. SQLite does not fire
  a trigger from within itself unless \<open>PRAGMA recursive_triggers\<close> is set, and no connection of
  the program sets it, so the updates of the trigger fire nothing.

  The columns \<open>updated_at\<close>, \<open>started_at\<close>, \<open>finished_at\<close> are written from the wall clock and read
  for display only; they are left out.
\<close>

section \<open>Rows\<close>

datatype task_kind =
    KOcr | KEmbedding | KNer | KTriples | KSchemaExtract | KOcrCorrection | KSummary
  | KBibliographySync | KBibliographyProfile | KBibliographyExtract

datatype domain = Corpus | Bibliography

datatype subject_kind = SAsset | SLibrary | SItem | SAttachment

datatype task_state =
    TPending | TBlocked | TRunning | TRetryWait | TInterrupted
  | TSucceeded | TFailed | TSkipped | TCancelled

datatype batch_state =
    BPreparing | BReady | BRunning | BPausing | BPaused | BCancelling | BCancelled
  | BInterrupted | BCompleted | BCompletedWithErrors

datatype desired_state = DRun | DPause | DCancel

datatype origin = OUser | OManual | ORepair | OBibliography

datatype request_state = RActive | RPaused | RCancelled

datatype attempt_outcome = AOpen | ASucceeded | AFailed | AInterrupted | ACancelled

record task =
  tk_id :: str
  tk_kind :: task_kind
  tk_asset :: str
  tk_domain :: domain
  tk_subject_kind :: subject_kind
  tk_subject :: str
  tk_revision :: int
  tk_fingerprint :: str
  tk_contract :: str
  tk_state :: task_state
  tk_stage :: str
  tk_progress_done :: int
  tk_progress_total :: int
  tk_outcome :: str
  tk_attempts :: int
  tk_retry_cycle :: int
  tk_retries :: int
  tk_next_retry :: "int option"
  tk_owner :: "str option"
  tk_epoch :: int
  tk_heartbeat :: "int option"
  tk_expires :: "int option"
  tk_error_code :: "str option"
  tk_error_message :: "str option"
  tk_receipt :: "str option"
  tk_invalidations :: int
  tk_created :: int

record batch =
  bt_id :: str
  bt_request :: str
  bt_origin :: origin
  bt_state :: batch_state
  bt_desired :: desired_state
  bt_operations :: "str list"
  bt_cursor :: int
  bt_planning_done :: bool
  bt_revision :: int
  bt_priority :: int
  bt_created :: int

record batch_link =
  ln_batch :: str
  ln_task :: str
  ln_kind :: task_kind
  ln_asset :: str
  ln_domain :: domain
  ln_subject_kind :: subject_kind
  ln_subject :: str
  ln_request :: request_state
  ln_dependency :: "str option"

record attempt =
  at_task :: str
  at_number :: int
  at_epoch :: int
  at_outcome :: attempt_outcome
  at_retryable :: bool
  at_code :: "str option"
  at_message :: "str option"
  at_provider :: "str option"

record checkpoint =
  cp_task :: str
  cp_unit :: str
  cp_fingerprint :: str
  cp_contract :: str
  cp_payload :: str
  cp_checksum :: str

record member =
  mb_batch :: str
  mb_ordinal :: int
  mb_asset :: str
  mb_item :: str
  mb_collection :: str
  mb_title :: str
  mb_classification :: str
  mb_reason :: "str option"

record request =
  rq_id :: str
  rq_action :: str
  rq_batch :: "str option"
  rq_payload :: str
  rq_response :: nat

record asset_revision =
  rv_asset :: str
  rv_source :: int
  rv_completed :: "int option"
  rv_reason :: "str option"
  rv_suppressed :: "int option"

record queue =
  q_batches :: "batch list"
  q_members :: "member list"
  q_links :: "batch_link list"
  q_tasks :: "task list"
  q_attempts :: "attempt list"
  q_checkpoints :: "checkpoint list"
  q_revisions :: "asset_revision list"
  q_requests :: "request list"

section \<open>States\<close>

definition is_terminal_task :: "task_state \<Rightarrow> bool" where
  "is_terminal_task s \<longleftrightarrow> s \<in> {TSucceeded, TFailed, TSkipped, TCancelled}"

text \<open>The states the code calls open: everything but the terminal ones.\<close>

definition is_open_task :: "task_state \<Rightarrow> bool" where
  "is_open_task s \<longleftrightarrow> s \<in> {TPending, TBlocked, TRunning, TRetryWait, TInterrupted}"

lemma open_is_not_terminal: "is_open_task s \<longleftrightarrow> \<not> is_terminal_task s"
  by (cases s) (simp_all add: is_open_task_def is_terminal_task_def)

definition is_terminal_batch :: "batch_state \<Rightarrow> bool" where
  "is_terminal_batch s \<longleftrightarrow> s \<in> {BCompleted, BCompletedWithErrors, BCancelled}"

section \<open>Statements\<close>

definition update_where :: "('a \<Rightarrow> bool) \<Rightarrow> ('a \<Rightarrow> 'a) \<Rightarrow> 'a list \<Rightarrow> 'a list" where
  "update_where p f = map (\<lambda>x. if p x then f x else x)"

definition find_task :: "str \<Rightarrow> queue \<Rightarrow> task option" where
  "find_task tid q = find (\<lambda>t. tk_id t = tid) (q_tasks q)"

definition find_batch :: "str \<Rightarrow> queue \<Rightarrow> batch option" where
  "find_batch bid q = find (\<lambda>b. bt_id b = bid) (q_batches q)"

definition links_of_task :: "str \<Rightarrow> queue \<Rightarrow> batch_link list" where
  "links_of_task tid q = filter (\<lambda>l. ln_task l = tid) (q_links q)"

definition links_of_batch :: "str \<Rightarrow> queue \<Rightarrow> batch_link list" where
  "links_of_batch bid q = filter (\<lambda>l. ln_batch l = bid) (q_links q)"

definition map_batches :: "(batch \<Rightarrow> bool) \<Rightarrow> (batch \<Rightarrow> batch) \<Rightarrow> queue \<Rightarrow> queue" where
  "map_batches p f q = q\<lparr>q_batches := update_where p f (q_batches q)\<rparr>"

definition map_links :: "(batch_link \<Rightarrow> bool) \<Rightarrow> (batch_link \<Rightarrow> batch_link) \<Rightarrow> queue \<Rightarrow> queue" where
  "map_links p f q = q\<lparr>q_links := update_where p f (q_links q)\<rparr>"

definition map_attempts :: "(attempt \<Rightarrow> bool) \<Rightarrow> (attempt \<Rightarrow> attempt) \<Rightarrow> queue \<Rightarrow> queue" where
  "map_attempts p f q = q\<lparr>q_attempts := update_where p f (q_attempts q)\<rparr>"

definition map_tasks :: "(task \<Rightarrow> bool) \<Rightarrow> (task \<Rightarrow> task) \<Rightarrow> queue \<Rightarrow> queue" where
  "map_tasks p f q = q\<lparr>q_tasks := update_where p f (q_tasks q)\<rparr>"

section \<open>The trigger\<close>

definition dependents :: "str \<Rightarrow> queue \<Rightarrow> str list" where
  "dependents tid q = map ln_task (filter (\<lambda>l. ln_dependency l = Some tid) (q_links q))"

definition is_blocked_dependent :: "str \<Rightarrow> queue \<Rightarrow> task \<Rightarrow> bool" where
  "is_blocked_dependent tid q t \<longleftrightarrow> tk_state t = TBlocked \<and> tk_id t \<in> set (dependents tid q)"

definition ended_as :: "task_state \<Rightarrow> str" where
  "ended_as s = (if s = TFailed then tx ''failed'' else tx ''cancelled'')"

definition fail_dependency :: "str \<Rightarrow> task_state \<Rightarrow> task \<Rightarrow> task" where
  "fail_dependency dep ended t = t\<lparr>tk_state := TFailed, tk_outcome := tx ''dependency_failed'',
     tk_error_code := Some (tx ''dependency_failed''),
     tk_error_message := Some (tx ''dependency '' @ dep @ tx '' ended as '' @ ended_as ended)\<rparr>"

definition release_dependent :: "task \<Rightarrow> task" where
  "release_dependent t = t\<lparr>tk_state := TPending, tk_stage := []\<rparr>"

text \<open>\<open>processing_tasks_settle_dependents\<close> for a row that moved to \<open>new\<close>.\<close>

definition settle_dependents :: "str \<Rightarrow> task_state \<Rightarrow> queue \<Rightarrow> queue" where
  "settle_dependents tid new q =
     (if new = TSucceeded
      then map_tasks (is_blocked_dependent tid q) release_dependent q
      else if new = TFailed \<or> new = TCancelled
      then
        map_tasks (is_blocked_dependent tid q) (fail_dependency tid new)
          (map_attempts (\<lambda>a. at_outcome a = AOpen
              \<and> (\<exists>t \<in> set (q_tasks q). tk_id t = at_task a \<and> is_blocked_dependent tid q t))
            (\<lambda>a. a\<lparr>at_outcome := AFailed\<rparr>) q)
      else q)"

text \<open>One row of an \<open>UPDATE\<close> of tasks, with the trigger when the statement sets the state.\<close>

definition update_row :: "(task \<Rightarrow> task) \<Rightarrow> str \<Rightarrow> queue \<Rightarrow> queue" where
  "update_row f tid q =
     (case find_task tid q of
        None \<Rightarrow> q
      | Some old \<Rightarrow>
          (let q1 = map_tasks (\<lambda>t. tk_id t = tid) f q
           in if tk_state (f old) = tk_state old then q1
              else settle_dependents tid (tk_state (f old)) q1))"

definition matching_ids :: "(task \<Rightarrow> bool) \<Rightarrow> queue \<Rightarrow> str list" where
  "matching_ids p q = map tk_id (filter p (q_tasks q))"

definition update_tasks :: "(task \<Rightarrow> bool) \<Rightarrow> (task \<Rightarrow> task) \<Rightarrow> queue \<Rightarrow> queue" where
  "update_tasks p f q = fold (update_row f) (matching_ids p q) q"

definition close_open_attempt :: "str \<Rightarrow> attempt_outcome \<Rightarrow> queue \<Rightarrow> queue" where
  "close_open_attempt tid outcome =
     map_attempts (\<lambda>a. at_task a = tid \<and> at_outcome a = AOpen) (\<lambda>a. a\<lparr>at_outcome := outcome\<rparr>)"

definition delete_task_checkpoints :: "str \<Rightarrow> queue \<Rightarrow> queue" where
  "delete_task_checkpoints tid q =
     q\<lparr>q_checkpoints := filter (\<lambda>c. cp_task c \<noteq> tid) (q_checkpoints q)\<rparr>"

text \<open>The paid pages of a cancelled extraction are kept.\<close>

definition delete_checkpoints_unless_paid_extraction :: "str \<Rightarrow> task_kind \<Rightarrow> queue \<Rightarrow> queue" where
  "delete_checkpoints_unless_paid_extraction tid kind q =
     (if kind = KBibliographyExtract then q else delete_task_checkpoints tid q)"

end
