(* ===== verification/QueueTasks.thy ===== *)
theory QueueTasks
  imports QueueTables "HOL-Library.Signed_Division"
begin

text \<open>
  The operations of a worker on the unit it leased, and the delays between attempts
  (\<open>processing/repository.rs\<close>). Every write of a worker is fenced: it names the epoch of its lease
  and finds no row when the lease has moved on.
\<close>

section \<open>Errors\<close>

text \<open>The strings of the code by the prefix it dispatches on.\<close>

datatype queue_error =
    LeaseLost
  | DemandLost
  | SourceChanged
  | SourceDeleted
  | ConfigurationChanged
  | UnsupportedSubject
  | InvalidSelection
  | InvalidTransition
  | RevisionConflict
  | UnknownSubject
  | ConstraintFailed
  | TerminalExists
  | SettingsError
  | RowMissing
  | AssetMissing
  | PublishError str

section \<open>Delays\<close>

definition lease_ttl_ms :: int where
  "lease_ttl_ms = 60000"

definition max_attempts_per_cycle :: int where
  "max_attempts_per_cycle = 3"

definition rate_limited_code :: str where
  "rate_limited_code = tx ''provider_rate_limited''"

definition retry_delay_ms :: "int \<Rightarrow> int" where
  "retry_delay_ms retries = (if retries = 0 then 5000 else if retries = 1 then 30000 else 30000)"

definition rate_limited_delay_ms :: "int \<Rightarrow> int" where
  "rate_limited_delay_ms retries = min (15000 * 2 ^ nat (max 0 (min 6 retries))) 600000"

text \<open>FNV-1a over the bytes of the identifier and the eight bytes of the attempt number.\<close>

definition fnv_step :: "64 word \<Rightarrow> nat \<Rightarrow> 64 word" where
  "fnv_step hash b = (xor hash (of_nat b)) * 0x100000001b3"

definition to_le_bytes :: "int \<Rightarrow> nat list" where
  "to_le_bytes n = map (\<lambda>i. unat (take_bit 8 (drop_bit (8 * i) (word_of_int n :: 64 word)))) [0..<8]"

definition jitter_hash :: "nat list \<Rightarrow> int \<Rightarrow> 64 word" where
  "jitter_hash id_bytes attempt_number =
     fold (\<lambda>b hash. fnv_step hash b) (id_bytes @ to_le_bytes attempt_number) 0xcbf29ce484222325"

text \<open>Rust's division truncates towards zero.\<close>

definition jitter_ms :: "nat list \<Rightarrow> int \<Rightarrow> int \<Rightarrow> int" where
  "jitter_ms id_bytes attempt_number base =
     (let permille = int (unat (jitter_hash id_bytes attempt_number mod 401)) - 200
      in base + (base * permille) sdiv 1000)"

definition retry_delay_with_jitter_ms :: "nat list \<Rightarrow> int \<Rightarrow> int \<Rightarrow> int" where
  "retry_delay_with_jitter_ms id_bytes attempt_number retries =
     jitter_ms id_bytes attempt_number (retry_delay_ms retries)"

definition rate_limited_delay_with_jitter_ms :: "nat list \<Rightarrow> int \<Rightarrow> int \<Rightarrow> int" where
  "rate_limited_delay_with_jitter_ms id_bytes attempt_number retries =
     jitter_ms id_bytes attempt_number (rate_limited_delay_ms retries)"

text \<open>The text after the first occurrence of a separator, and the text before one.\<close>

fun split_once :: "str \<Rightarrow> str \<Rightarrow> (str \<times> str) option" where
  "split_once sep t =
     (if starts_with sep t then Some ([], drop (length sep) t)
      else (case t of [] \<Rightarrow> None
            | c # cs \<Rightarrow> map_option (\<lambda>(a, b). (c # a, b)) (split_once sep cs)))"

declare split_once.simps [simp del]

text \<open>\<open>str::parse::<i64>\<close>: an optional sign and digits within the range.\<close>

definition parse_i64 :: "str \<Rightarrow> int option" where
  "parse_i64 t =
     (case t of
        [] \<Rightarrow> None
      | c # cs \<Rightarrow>
          let digits = (if c = 43 \<or> c = 45 then cs else t) in
          if digits = [] \<or> \<not> list_all is_ascii_digit digits then None
          else let n = (if c = 45 then - int (digits_value digits) else int (digits_value digits))
               in if - (2 ^ 63) \<le> n \<and> n < 2 ^ 63 then Some n else None)"

definition provider_retry_after_ms :: "str \<Rightarrow> int option" where
  "provider_retry_after_ms message =
     Option.bind (split_once (tx ''[retry_after_ms='') message) (\<lambda>(_, suffix).
     Option.bind (split_once (tx '']'') suffix) (\<lambda>(raw, _).
       opt_filter (\<lambda>delay. 0 \<le> delay) (parse_i64 raw)))"

definition sat_add_i64 :: "int \<Rightarrow> int \<Rightarrow> int" where
  "sat_add_i64 a b = max (- (2 ^ 63)) (min (2 ^ 63 - 1) (a + b))"

section \<open>Fenced writes\<close>

definition is_held :: "str \<Rightarrow> int \<Rightarrow> task \<Rightarrow> bool" where
  "is_held tid epoch t \<longleftrightarrow> tk_id t = tid \<and> tk_state t = TRunning \<and> tk_epoch t = epoch"

text \<open>An \<open>UPDATE\<close> of the leased row; no row means the lease is lost.\<close>

definition fenced ::
  "str \<Rightarrow> int \<Rightarrow> (task \<Rightarrow> task) \<Rightarrow> queue \<Rightarrow> queue_error + queue" where
  "fenced tid epoch f q =
     (if matching_ids (is_held tid epoch) q = [] then Inl LeaseLost
      else Inr (update_tasks (is_held tid epoch) f q))"

definition interrupt_task :: "str \<Rightarrow> int \<Rightarrow> queue \<Rightarrow> queue_error + queue" where
  "interrupt_task tid epoch q =
     map_sum id (close_open_attempt tid AInterrupted)
       (fenced tid epoch (\<lambda>t. t\<lparr>tk_state := TInterrupted, tk_owner := None\<rparr>) q)"

definition cancel_running_task :: "str \<Rightarrow> int \<Rightarrow> queue \<Rightarrow> queue_error + queue" where
  "cancel_running_task tid epoch q =
     (case fenced tid epoch (\<lambda>t. t\<lparr>tk_state := TCancelled, tk_owner := None\<rparr>) q of
        Inl e \<Rightarrow> Inl e
      | Inr q1 \<Rightarrow>
          (case find_task tid q1 of
             None \<Rightarrow> Inl LeaseLost
           | Some t \<Rightarrow> Inr (close_open_attempt tid ACancelled
               (delete_checkpoints_unless_paid_extraction tid (tk_kind t) q1))))"

definition requeue_task :: "str \<Rightarrow> int \<Rightarrow> queue \<Rightarrow> queue_error + queue" where
  "requeue_task tid epoch q =
     map_sum id (close_open_attempt tid AInterrupted)
       (fenced tid epoch (\<lambda>t. t\<lparr>tk_state := TPending, tk_owner := None, tk_next_retry := None\<rparr>) q)"

definition block_running_task :: "str \<Rightarrow> int \<Rightarrow> str \<Rightarrow> str \<Rightarrow> queue \<Rightarrow> queue_error + queue" where
  "block_running_task tid epoch outcome message q =
     map_sum id (close_open_attempt tid AInterrupted)
       (fenced tid epoch (\<lambda>t. t\<lparr>tk_state := TBlocked, tk_outcome := outcome,
          tk_error_code := Some outcome, tk_error_message := Some message, tk_owner := None\<rparr>) q)"

definition defer_task :: "str \<Rightarrow> int \<Rightarrow> int \<Rightarrow> str \<Rightarrow> str \<Rightarrow> queue \<Rightarrow> queue_error + queue" where
  "defer_task tid epoch next_retry code reason q =
     map_sum id
       (map_attempts (\<lambda>a. at_task a = tid \<and> at_outcome a = AOpen)
          (\<lambda>a. a\<lparr>at_outcome := AInterrupted, at_code := Some code\<rparr>))
       (fenced tid epoch (\<lambda>t. t\<lparr>tk_state := TRetryWait, tk_next_retry := Some next_retry,
          tk_error_code := Some code, tk_error_message := Some reason, tk_owner := None\<rparr>) q)"

definition set_progress_total :: "str \<Rightarrow> int \<Rightarrow> int \<Rightarrow> queue \<Rightarrow> queue_error + queue" where
  "set_progress_total tid epoch units = fenced tid epoch (\<lambda>t. t\<lparr>tk_progress_total := units\<rparr>)"

definition set_progress_done :: "str \<Rightarrow> int \<Rightarrow> int \<Rightarrow> queue \<Rightarrow> queue_error + queue" where
  "set_progress_done tid epoch units = fenced tid epoch (\<lambda>t. t\<lparr>tk_progress_done := units\<rparr>)"

definition heartbeat_owned :: "str \<Rightarrow> int \<Rightarrow> queue \<Rightarrow> queue" where
  "heartbeat_owned session now =
     update_tasks (\<lambda>t. tk_owner t = Some session \<and> tk_state t = TRunning)
       (\<lambda>t. t\<lparr>tk_heartbeat := Some now, tk_expires := Some (now + lease_ttl_ms)\<rparr>)"

datatype source_change = ChangeRequeued | ChangeBlocked

definition record_source_change ::
  "str \<Rightarrow> int \<Rightarrow> str \<Rightarrow> queue \<Rightarrow> queue_error + source_change \<times> queue" where
  "record_source_change tid epoch message q =
     (case find (is_held tid epoch) (q_tasks q) of
        None \<Rightarrow> Inl LeaseLost
      | Some held \<Rightarrow>
          (let next_count = tk_invalidations held + 1;
               blocked = (3 \<le> next_count);
               outcome = (if blocked then tx ''source_unstable'' else tx ''source_changed'');
               q1 = update_tasks (is_held tid epoch) (\<lambda>t. t\<lparr>
                      tk_state := (if blocked then TBlocked else TPending), tk_outcome := outcome,
                      tk_invalidations := next_count, tk_error_code := Some outcome,
                      tk_error_message := Some message, tk_owner := None, tk_next_retry := None\<rparr>) q;
               q2 = map_attempts (\<lambda>a. at_task a = tid \<and> at_outcome a = AOpen)
                      (\<lambda>a. a\<lparr>at_outcome := AInterrupted, at_code := Some (tx ''source_changed''),
                         at_message := Some message\<rparr>) q1
           in Inr (if blocked then ChangeBlocked else ChangeRequeued, q2)))"

section \<open>Demand\<close>

definition is_live_link :: "batch_state set \<Rightarrow> queue \<Rightarrow> str \<Rightarrow> batch_link \<Rightarrow> bool" where
  "is_live_link states q tid l \<longleftrightarrow> ln_task l = tid \<and> ln_request l = RActive
     \<and> (\<exists>b \<in> set (q_batches q). bt_id b = ln_batch l \<and> bt_state b \<in> states \<and> bt_desired b = DRun)"

text \<open>Some batch still wants the unit executed.\<close>

definition execution_wanted :: "str \<Rightarrow> queue \<Rightarrow> bool" where
  "execution_wanted tid q \<longleftrightarrow> list_ex (is_live_link {BRunning, BReady} q tid) (q_links q)"

section \<open>Checkpoints\<close>

definition upsert_checkpoint :: "checkpoint \<Rightarrow> checkpoint list \<Rightarrow> checkpoint list" where
  "upsert_checkpoint c cs =
     (let same = (\<lambda>d. cp_task d = cp_task c \<and> cp_unit d = cp_unit c) in
      if list_ex same cs then update_where same (\<lambda>_. c) cs else cs @ [c])"

definition counted_checkpoints :: "queue \<Rightarrow> task \<Rightarrow> int" where
  "counted_checkpoints q t = int (length (filter (\<lambda>c. cp_task c = tk_id t
     \<and> cp_fingerprint c = tk_fingerprint t \<and> cp_contract c = tk_contract t) (q_checkpoints q)))"

text \<open>Any error rolls the savepoint back, so nothing of a failed call stays.\<close>

definition save_checkpoint ::
  "str \<Rightarrow> int \<Rightarrow> checkpoint \<Rightarrow> int \<Rightarrow> queue \<Rightarrow> queue_error + queue" where
  "save_checkpoint tid epoch c now q =
     (case fenced tid epoch
          (\<lambda>t. t\<lparr>tk_heartbeat := Some now, tk_expires := Some (now + lease_ttl_ms)\<rparr>) q of
        Inl e \<Rightarrow> Inl e
      | Inr q1 \<Rightarrow>
          if \<not> execution_wanted tid q1 then Inl DemandLost
          else
            (let q2 = q1\<lparr>q_checkpoints := upsert_checkpoint (c\<lparr>cp_task := tid\<rparr>) (q_checkpoints q1)\<rparr>
             in Inr (update_tasks (\<lambda>t. tk_id t = tid)
                  (\<lambda>t. t\<lparr>tk_progress_done := counted_checkpoints q2 t\<rparr>) q2)))"

section \<open>The end of an attempt\<close>

datatype fail_outcome = FailRetryWait int | FailFailed

definition fail_attempt ::
  "(str \<Rightarrow> nat list) \<Rightarrow> str \<Rightarrow> int \<Rightarrow> int \<Rightarrow> str \<Rightarrow> str \<Rightarrow> bool \<Rightarrow> str option \<Rightarrow> int \<Rightarrow> queue \<Rightarrow>
   queue_error + fail_outcome \<times> queue" where
  "fail_attempt bytes tid epoch number code message retryable provider now q =
     (case find_task tid q of
        None \<Rightarrow> Inl LeaseLost
      | Some t \<Rightarrow>
          if tk_state t \<noteq> TRunning \<or> tk_epoch t \<noteq> epoch then Inl LeaseLost
          else
            (let q1 = map_attempts (\<lambda>a. at_task a = tid \<and> at_number a = number)
                   (\<lambda>a. a\<lparr>at_outcome := AFailed, at_retryable := retryable, at_code := Some code,
                      at_message := Some message, at_provider := provider\<rparr>) q;
                 rate_limited = (code = rate_limited_code)
             in if retryable \<and> (rate_limited \<or> tk_retries t + 1 < max_attempts_per_cycle)
                then
                  (let local_delay = (if rate_limited
                         then rate_limited_delay_with_jitter_ms (bytes tid) number (tk_retries t)
                         else retry_delay_with_jitter_ms (bytes tid) number (tk_retries t));
                       delay = (case provider_retry_after_ms message of
                           Some d \<Rightarrow> max d local_delay | None \<Rightarrow> local_delay);
                       wake = sat_add_i64 now delay
                   in Inr (FailRetryWait wake,
                        update_tasks (\<lambda>r. tk_id r = tid)
                          (\<lambda>r. r\<lparr>tk_state := TRetryWait, tk_retries := tk_retries r + 1,
                             tk_next_retry := Some wake, tk_error_code := Some code,
                             tk_error_message := Some message, tk_owner := None\<rparr>) q1))
                else
                  Inr (FailFailed,
                    delete_checkpoints_unless_paid_extraction tid (tk_kind t)
                      (update_tasks (\<lambda>r. tk_id r = tid)
                        (\<lambda>r. r\<lparr>tk_state := TFailed, tk_error_code := Some code,
                           tk_error_message := Some message, tk_owner := None, tk_next_retry := None\<rparr>) q1))))"

section \<open>Units that need no engine\<close>

definition mark_skipped :: "str \<Rightarrow> str \<Rightarrow> queue \<Rightarrow> queue" where
  "mark_skipped tid outcome q =
     (let q1 = delete_task_checkpoints tid
            (update_tasks (\<lambda>t. tk_id t = tid)
              (\<lambda>t. t\<lparr>tk_state := TSkipped, tk_outcome := outcome, tk_owner := None, tk_next_retry := None\<rparr>) q)
      in update_tasks (is_blocked_dependent tid q1) release_dependent q1)"

definition mark_blocked :: "str \<Rightarrow> str \<Rightarrow> str \<Rightarrow> queue \<Rightarrow> queue" where
  "mark_blocked tid outcome message =
     update_tasks (\<lambda>t. tk_id t = tid)
       (\<lambda>t. t\<lparr>tk_state := TBlocked, tk_outcome := outcome, tk_error_code := Some outcome,
          tk_error_message := Some message, tk_owner := None, tk_next_retry := None\<rparr>)"

end
