(* ===== verification/QueueArchive.thy ===== *)
theory QueueArchive
  imports Prelude
begin

text \<open>
  The tables of an archive that the processing queue reads, and the rules that decide whether an
  asset needs work (\<open>apps/desktop/src-tauri/src/processing/eligibility.rs\<close>).

  A table is the list of its rows. What is not a row of the archive is an \<open>environment\<close>: the
  digest of the \<open>sha2\<close> crate, the page count the PDF crate finds in the file of an asset, and what
  the catalogue of the bibliography answers. A text column counts as empty the way SQLite's
  \<open>LENGTH(TRIM(x))\<close> does: \<open>TRIM\<close> removes spaces only and \<open>LENGTH\<close> stops at the first NUL.
\<close>

section \<open>Rows\<close>

record asset_row =
  as_id :: str
  as_item :: str
  as_path :: str
  as_type :: str
  as_parent :: "str option"
  as_page :: "int option"
  as_bytes :: "int option"
  as_created :: int

record item_row =
  im_id :: str
  im_collection :: str
  im_title :: str

record text_row =
  tr_id :: str
  tr_asset :: str
  tr_text :: str
  tr_method :: str
  tr_created :: int

record vector_row =
  vc_asset :: str
  vc_model :: str
  vc_contract :: str
  vc_dimensions :: nat

record chunk_row =
  ck_asset :: str
  ck_kind :: str
  ck_source :: str
  ck_hash :: str
  ck_model :: str
  ck_contract :: str
  ck_dimensions :: nat
  ck_chunking :: str

record result_row =
  rs_target :: str
  rs_target_type :: str
  rs_job :: str
  rs_result :: str
  rs_created :: int

record entity_row =
  en_asset :: "str option"
  en_item :: str
  en_source :: "str option"

record record_row =
  rc_asset :: str
  rc_schema :: str

record archive =
  ar_assets :: "asset_row list"
  ar_items :: "item_row list"
  ar_extractions :: "text_row list"
  ar_transcriptions :: "text_row list"
  ar_vectors :: "vector_row list"
  ar_chunks :: "chunk_row list"
  ar_results :: "result_row list"
  ar_entities :: "entity_row list"
  ar_triples :: "entity_row list"
  ar_records :: "record_row list"
  ar_repairs :: "str list"
  ar_settings :: "(str \<times> str) list"

record attachment_ref =
  ac_id :: str
  ac_mtime :: "int option"
  ac_version :: "int option"

text \<open>
  \<open>ev_sha256 x\<close>: the hexadecimal digest of the UTF-8 text of \<open>x\<close>.
  \<open>ev_pdf_pages p\<close>: the pages of the PDF stored at \<open>p\<close>, if it can be read.
  \<open>ev_library l\<close>: \<open>library_sync_pin\<close>, the version of the row of the library, if there is a row.
  \<open>ev_attachment a\<close>: \<open>attachment_ref_for\<close>.
  \<open>ev_profile i\<close>: the item version and the profile hash of a catalogue item, if it exists.
\<close>

record environment =
  ev_sha256 :: "str \<Rightarrow> str"
  ev_pdf_pages :: "str \<Rightarrow> nat option"
  ev_library :: "str \<Rightarrow> int option option"
  ev_attachment :: "str \<Rightarrow> attachment_ref option"
  ev_profile :: "str \<Rightarrow> (int \<times> str) option"

section \<open>The embedding contract\<close>

definition canonical_model :: str where
  "canonical_model = tx ''baai/bge-m3''"

definition canonical_contract :: str where
  "canonical_contract = tx ''bge-m3-6000-char-weighted-mean-l2-v1''"

definition canonical_dimensions :: nat where
  "canonical_dimensions = 1024"

definition chunking_contract :: str where
  "chunking_contract = tx ''rag-chunk-800-100-char-v1''"

definition get_setting :: "str \<Rightarrow> archive \<Rightarrow> str option" where
  "get_setting key a = map_option snd (find (\<lambda>(k, _). k = key) (ar_settings a))"

definition current_embedding_contract_hash :: "environment \<Rightarrow> str" where
  "current_embedding_contract_hash e = ev_sha256 e (join (tx ''|'')
     [canonical_model, canonical_contract, show_nat canonical_dimensions, chunking_contract])"

record embedding_contract =
  ec_provider :: str
  ec_model :: str
  ec_contract :: str
  ec_dimensions :: nat
  ec_hash :: str

text \<open>An unknown provider is an error, here \<open>None\<close>.\<close>

definition embedding_provider :: "archive \<Rightarrow> str option" where
  "embedding_provider a =
     (case opt_filter (\<lambda>v. v \<noteq> [])
         (map_option (\<lambda>v. to_ascii_lowercase (trim v)) (get_setting (tx ''embedding_provider'') a)) of
        None \<Rightarrow> Some (tx ''api'')
      | Some p \<Rightarrow>
          if p \<in> {tx ''api'', tx ''openrouter''} then Some (tx ''api'')
          else if p \<in> {tx ''local'', tx ''offline'', tx ''onnx''} then Some (tx ''local'')
          else None)"

definition embedding_model :: "archive \<Rightarrow> str" where
  "embedding_model a = unwrap_or canonical_model (opt_filter (\<lambda>v. v \<noteq> [])
     (map_option trim (get_setting (tx ''openrouter_embedding_model'') a)))"

definition effective_contract :: "environment \<Rightarrow> archive \<Rightarrow> embedding_contract option" where
  "effective_contract e a =
     map_option (\<lambda>provider.
       let model = embedding_model a;
           canonical = (provider = tx ''api'' \<and> model = canonical_model);
           hash = (if canonical then current_embedding_contract_hash e
             else ev_sha256 e (join (tx ''|'')
               [provider, model, show_nat canonical_dimensions, chunking_contract]))
       in \<lparr>ec_provider = provider, ec_model = model,
           ec_contract = (if canonical then canonical_contract else hash),
           ec_dimensions = canonical_dimensions, ec_hash = hash\<rparr>)
       (embedding_provider a)"

section \<open>The OCR rule\<close>

datatype ocr_decision =
    OcrEligible
  | OcrAlreadyDone str
  | OcrUnsupportedType str
  | OcrParentHasPages nat

definition find_asset :: "str \<Rightarrow> archive \<Rightarrow> asset_row option" where
  "find_asset aid a = find (\<lambda>r. as_id r = aid) (ar_assets a)"

definition pages_of :: "str \<Rightarrow> archive \<Rightarrow> asset_row list" where
  "pages_of aid a = filter (\<lambda>r. as_parent r = Some aid) (ar_assets a)"

text \<open>The distinct page numbers between one and the pages of the document.\<close>

definition covered_pages :: "str \<Rightarrow> nat \<Rightarrow> archive \<Rightarrow> nat" where
  "covered_pages aid n a =
     length (remdups (filter (\<lambda>p. 1 \<le> p \<and> p \<le> int n) (somes (map as_page (pages_of aid a)))))"

text \<open>A missing asset is an error, here \<open>None\<close>.\<close>

definition decide_ocr :: "environment \<Rightarrow> archive \<Rightarrow> str \<Rightarrow> ocr_decision option" where
  "decide_ocr e a aid =
     map_option (\<lambda>row.
       if as_type row \<notin> {tx ''image'', tx ''pdf''} then OcrUnsupportedType (as_type row)
       else
         let pages = pages_of aid a in
         if pages \<noteq> [] then
           (case ev_pdf_pages e (as_path row) of
              Some expected \<Rightarrow>
                if covered_pages aid expected a = expected then OcrParentHasPages (length pages)
                else OcrEligible
            | None \<Rightarrow> OcrEligible)
         else
           (case find (\<lambda>x. tr_asset x = aid) (ar_extractions a) of
              Some x \<Rightarrow> OcrAlreadyDone (tr_method x)
            | None \<Rightarrow> OcrEligible))
       (find_asset aid a)"

section \<open>Text sources\<close>

record text_source =
  ts_kind :: str
  ts_id :: str
  ts_text :: str

definition sql_trim :: "str \<Rightarrow> str" where
  "sql_trim = trim_by (\<lambda>c. c = 32)"

definition sql_length :: "str \<Rightarrow> nat" where
  "sql_length t = length (takeWhile (\<lambda>c. c \<noteq> 0) t)"

definition sources_in :: "str \<Rightarrow> str \<Rightarrow> text_row list \<Rightarrow> text_source list" where
  "sources_in kind aid rows =
     map (\<lambda>r. \<lparr>ts_kind = kind, ts_id = tr_id r, ts_text = tr_text r\<rparr>)
       (filter (\<lambda>r. tr_asset r = aid \<and> 0 < sql_length (sql_trim (tr_text r))) rows)"

definition text_sources :: "archive \<Rightarrow> str \<Rightarrow> text_source list" where
  "text_sources a aid =
     sort_key ts_id (sources_in (tx ''extraction'') aid (ar_extractions a))
     @ sort_key ts_id (sources_in (tx ''transcription'') aid (ar_transcriptions a))"

definition embedding_input_fingerprint :: "environment \<Rightarrow> archive \<Rightarrow> str \<Rightarrow> str option" where
  "embedding_input_fingerprint e a aid =
     map_option (\<lambda>c. ev_sha256 e (join [10]
       (map (\<lambda>s. join (tx ''|'') [ts_kind s, ts_id s, ev_sha256 e (ts_text s)]) (text_sources a aid)
         @ [ec_hash c])))
       (effective_contract e a)"

section \<open>The chunk counter\<close>

definition chunk_max :: nat where
  "chunk_max = 800"

definition chunk_overlap :: nat where
  "chunk_overlap = 100"

text \<open>The loop of \<open>expected_chunk_count\<close> from a start position.\<close>

function chunks_from :: "nat \<Rightarrow> nat \<Rightarrow> nat" where
  "chunks_from start chars =
     (if chars \<le> start + chunk_max then 1
      else 1 + chunks_from (start + chunk_max - chunk_overlap) chars)"
  by auto

termination
  by (relation "measure (\<lambda>(start, chars). chars - start)")
     (auto simp: chunk_max_def chunk_overlap_def)

declare chunks_from.simps [simp del]

definition expected_chunk_count :: "nat \<Rightarrow> nat" where
  "expected_chunk_count chars = (if chars = 0 then 0 else chunks_from 0 chars)"

lemma chunks_from_closed: "chunks_from start chars =
    (if chars \<le> start + 800 then 1 else 1 + (chars - start - 800 + 699) div 700)"
proof (induction start chars rule: chunks_from.induct)
  case (1 start chars)
  show ?case
  proof (cases "chars \<le> start + chunk_max")
    case True
    then show ?thesis by (simp add: chunks_from.simps [of start] chunk_max_def)
  next
    case False
    with 1 show ?thesis
      by (subst chunks_from.simps) (auto simp: chunk_max_def chunk_overlap_def)
  qed
qed

section \<open>The embedding rule\<close>

datatype stale_reason =
    MissingVector | ContractMismatch | StaleSource | IncompleteChunks | RepairMarked

datatype embedding_decision =
    EmbeddingEligible stale_reason
  | EmbeddingFresh
  | EmbeddingNoText

text \<open>The revision row of the asset: its source revision and the last embedded one.\<close>

definition matching_chunks ::
  "environment \<Rightarrow> archive \<Rightarrow> str \<Rightarrow> embedding_contract \<Rightarrow> text_source \<Rightarrow> nat" where
  "matching_chunks e a aid c s = length (filter (\<lambda>k. ck_asset k = aid \<and> ck_kind k = ts_kind s
      \<and> ck_source k = ts_id s \<and> ck_hash k = ev_sha256 e (ts_text s) \<and> ck_model k = ec_model c
      \<and> ck_contract k = ec_contract c \<and> ck_dimensions k = ec_dimensions c
      \<and> ck_chunking k = chunking_contract) (ar_chunks a))"

definition decide_embedding ::
  "environment \<Rightarrow> archive \<Rightarrow> (int \<times> int option) option \<Rightarrow> str \<Rightarrow> embedding_decision option" where
  "decide_embedding e a revision aid =
     (let sources = text_sources a aid in
      if sources = [] then Some EmbeddingNoText
      else if (case revision of Some (source, Some completed) \<Rightarrow> completed \<noteq> source | _ \<Rightarrow> False)
        then Some (EmbeddingEligible StaleSource)
      else
        map_option (\<lambda>c.
          if \<not> list_ex (\<lambda>v. vc_asset v = aid \<and> vc_model v = ec_model c \<and> vc_contract v = ec_contract c
                \<and> vc_dimensions v = ec_dimensions c) (ar_vectors a)
          then EmbeddingEligible
            (if list_ex (\<lambda>v. vc_asset v = aid) (ar_vectors a) then ContractMismatch else MissingVector)
          else if \<not> list_all (\<lambda>s. matching_chunks e a aid c s = expected_chunk_count (length (ts_text s)))
                sources
          then EmbeddingEligible IncompleteChunks
          else if aid \<in> set (ar_repairs a) then EmbeddingEligible RepairMarked
          else EmbeddingFresh)
        (effective_contract e a))"

section \<open>The rules of corrections and extractions\<close>

datatype correction_decision = CorrectionEligible | CorrectionDone | CorrectionNoText

text \<open>\<open>ORDER BY created_at DESC LIMIT 1\<close>; of equal times the row found first.\<close>

fun latest :: "('a \<Rightarrow> int) \<Rightarrow> 'a list \<Rightarrow> 'a option" where
  "latest f [] = None"
| "latest f (x # xs) =
     (case latest f xs of None \<Rightarrow> Some x | Some y \<Rightarrow> Some (if f x < f y then y else x))"

definition decide_correction :: "archive \<Rightarrow> str \<Rightarrow> correction_decision" where
  "decide_correction a aid =
     (case opt_filter (\<lambda>t. trim t \<noteq> [])
         (map_option tr_text (latest tr_created (filter (\<lambda>x. tr_asset x = aid) (ar_extractions a)))) of
        None \<Rightarrow> CorrectionNoText
      | Some extraction \<Rightarrow>
          if map_option rs_result (latest rs_created (filter (\<lambda>r. rs_target r = aid
               \<and> rs_target_type r \<in> {tx ''asset'', tx ''unknown''} \<and> rs_job r = tx ''correct_ocr'')
               (ar_results a))) = Some extraction
          then CorrectionDone else CorrectionEligible)"

datatype extraction_decision = ExtractionEligible | ExtractionDone | ExtractionNoText

definition decide_extraction :: "archive \<Rightarrow> str \<Rightarrow> bool \<Rightarrow> extraction_decision" where
  "decide_extraction a aid finished =
     (if text_sources a aid = [] then ExtractionNoText
      else if finished then ExtractionDone else ExtractionEligible)"

definition decide_summary :: "archive \<Rightarrow> str \<Rightarrow> extraction_decision" where
  "decide_summary a aid = decide_extraction a aid (list_ex (\<lambda>r. rs_target r = aid
     \<and> rs_target_type r \<in> {tx ''asset'', tx ''unknown''} \<and> rs_job r = tx ''summarize'') (ar_results a))"

text \<open>A row of the asset, or one of its item that names no asset.\<close>

definition covers_asset :: "archive \<Rightarrow> str \<Rightarrow> entity_row \<Rightarrow> bool" where
  "covers_asset a aid r \<longleftrightarrow> en_asset r = Some aid
     \<or> en_asset r = None \<and> Some (en_item r) = map_option as_item (find_asset aid a)"

definition decide_ner :: "archive \<Rightarrow> str \<Rightarrow> extraction_decision" where
  "decide_ner a aid = decide_extraction a aid (list_ex (\<lambda>r. covers_asset a aid r
     \<and> unwrap_or [] (en_source r) \<notin> {tx ''manual'', tx ''manual_deleted''}) (ar_entities a))"

definition decide_triples :: "archive \<Rightarrow> str \<Rightarrow> extraction_decision" where
  "decide_triples a aid = decide_extraction a aid (list_ex (covers_asset a aid) (ar_triples a))"

definition decide_schema :: "archive \<Rightarrow> str \<Rightarrow> str \<Rightarrow> extraction_decision" where
  "decide_schema a aid schema = decide_extraction a aid
     (list_ex (\<lambda>r. rc_asset r = aid \<and> rc_schema r = schema) (ar_records a))"

section \<open>Identity of the OCR input\<close>

definition ocr_fingerprint :: "archive \<Rightarrow> str \<Rightarrow> str option" where
  "ocr_fingerprint a aid = map_option (\<lambda>r. join (tx ''|'')
     [as_id r, as_path r, show_int (unwrap_or (-1) (as_bytes r))]) (find_asset aid a)"

end
