(* ===== verification/QueueAdmit.thy ===== *)
theory QueueAdmit
  imports QueueTasks QueueArchive
begin

text \<open>
  Admission of work: one unit for one batch, or the live unit another batch already owns
  (\<open>processing/repository.rs\<close>, \<open>admit_subject_or_attach\<close> and its arms).

  The identifier of a new unit is a fresh UUID in the code and an argument here, as is the time of
  its creation. A call that fails leaves its writes to the transaction of its caller, which rolls
  them back, so an error carries no tables.
\<close>

section \<open>Contracts\<close>

datatype extract_mode = Automatic | Reprocess str

definition extract_contract :: str where
  "extract_contract = tx ''bibliography-extract-v1''"

definition reprocess_prefix :: str where
  "reprocess_prefix = tx ''bibliography-extract-reprocess-v1|''"

definition sync_contract :: str where
  "sync_contract = tx ''bibliography_sync/v1''"

definition reprocess_contract_hash :: "str \<Rightarrow> str" where
  "reprocess_contract_hash plan_hash = reprocess_prefix @ plan_hash"

definition is_lower_hex :: "nat \<Rightarrow> bool" where
  "is_lower_hex c \<longleftrightarrow> is_ascii_digit c \<or> 97 \<le> c \<and> c \<le> 102"

definition parse_extract_contract :: "str \<Rightarrow> extract_mode option" where
  "parse_extract_contract contract =
     (if contract = extract_contract then Some Automatic
      else Option.bind (strip_prefix reprocess_prefix contract) (\<lambda>plan.
        if utf8_len plan = 64 \<and> list_all is_lower_hex plan then Some (Reprocess plan) else None))"

definition is_reprocess :: "str \<Rightarrow> bool" where
  "is_reprocess contract \<longleftrightarrow>
     (case parse_extract_contract contract of Some (Reprocess _) \<Rightarrow> True | _ \<Rightarrow> False)"

section \<open>Identity of attachments and libraries\<close>

definition show_opt_int :: "int option \<Rightarrow> str" where
  "show_opt_int v = (case v of None \<Rightarrow> [] | Some n \<Rightarrow> show_int n)"

definition identity_prefix :: "str \<Rightarrow> int option \<Rightarrow> str" where
  "identity_prefix aid mtime = tx ''attachment|'' @ aid @ tx ''|mtime:'' @ show_opt_int mtime @ tx ''|''"

definition attachment_fingerprint :: "attachment_ref \<Rightarrow> str" where
  "attachment_fingerprint r = tx ''attachment|'' @ ac_id r @ tx ''|mtime:'' @ show_opt_int (ac_mtime r)
     @ tx ''|version:'' @ show_opt_int (ac_version r)"

definition reprocess_fingerprint :: "attachment_ref \<Rightarrow> str" where
  "reprocess_fingerprint r = identity_prefix (ac_id r) (ac_mtime r) @ tx ''reprocess''"

definition fingerprint_for_mode :: "extract_mode \<Rightarrow> attachment_ref \<Rightarrow> str" where
  "fingerprint_for_mode mode r =
     (case mode of Automatic \<Rightarrow> attachment_fingerprint r | Reprocess _ \<Rightarrow> reprocess_fingerprint r)"

definition library_fingerprint :: "str \<Rightarrow> int \<Rightarrow> str" where
  "library_fingerprint lid version = tx ''library|'' @ lid @ tx ''|'' @ show_int version"

text \<open>A terminal attempt that already spent the OCR budget of its file.\<close>

definition terminal_ocr_attempt_codes :: "str list" where
  "terminal_ocr_attempt_codes = [tx ''provider_transient'', rate_limited_code, tx ''ocr_failed'',
     tx ''configuration_required_ocr'', tx ''source_changed'', tx ''publish_failed'']"

definition is_terminal_ocr_attempt :: "task_state \<Rightarrow> str option \<Rightarrow> bool" where
  "is_terminal_ocr_attempt s code \<longleftrightarrow> s = TCancelled
     \<or> s = TFailed \<and> (case code of None \<Rightarrow> False | Some c \<Rightarrow> c \<in> set terminal_ocr_attempt_codes)"

definition terminal_extraction_attempt_for :: "queue \<Rightarrow> attachment_ref \<Rightarrow> bool" where
  "terminal_extraction_attempt_for q r \<longleftrightarrow> list_ex (\<lambda>t. tk_kind t = KBibliographyExtract
     \<and> tk_domain t = Bibliography \<and> tk_subject_kind t = SAttachment \<and> tk_subject t = ac_id r
     \<and> tk_state t \<in> {TFailed, TCancelled}
     \<and> starts_with (identity_prefix (ac_id r) (ac_mtime r)) (tk_fingerprint t)
     \<and> is_terminal_ocr_attempt (tk_state t) (tk_error_code t)) (q_tasks q)"

section \<open>Links\<close>

record subject =
  sb_domain :: domain
  sb_kind :: subject_kind
  sb_id :: str

definition corpus_asset :: "str \<Rightarrow> subject" where
  "corpus_asset aid = \<lparr>sb_domain = Corpus, sb_kind = SAsset, sb_id = aid\<rparr>"

definition concerns :: "subject \<Rightarrow> task_kind \<Rightarrow> task \<Rightarrow> bool" where
  "concerns s kind t \<longleftrightarrow> tk_domain t = sb_domain s \<and> tk_subject_kind t = sb_kind s
     \<and> tk_subject t = sb_id s \<and> tk_kind t = kind"

definition live_task :: "subject \<Rightarrow> task_kind \<Rightarrow> queue \<Rightarrow> str option" where
  "live_task s kind q =
     map_option tk_id (find (\<lambda>t. concerns s kind t \<and> \<not> is_terminal_task (tk_state t)) (q_tasks q))"

text \<open>
  \<open>INSERT OR IGNORE\<close>: an existing link of the batch to the unit stays as it is. The row references
  its batch, its unit and its dependency.
\<close>

definition link_batch_task ::
  "str \<Rightarrow> str \<Rightarrow> task_kind \<Rightarrow> subject \<Rightarrow> str option \<Rightarrow> queue \<Rightarrow> queue_error + queue" where
  "link_batch_task bid tid kind s dependency q =
     (if list_ex (\<lambda>l. ln_batch l = bid \<and> ln_task l = tid) (q_links q) then Inr q
      else if find_batch bid q = None \<or> find_task tid q = None
        \<or> (case dependency of None \<Rightarrow> False | Some d \<Rightarrow> find_task d q = None)
      then Inl ConstraintFailed
      else Inr (q\<lparr>q_links := q_links q @ [\<lparr>ln_batch = bid, ln_task = tid, ln_kind = kind,
        ln_asset = sb_id s, ln_domain = sb_domain s, ln_subject_kind = sb_kind s, ln_subject = sb_id s,
        ln_request = RActive, ln_dependency = dependency\<rparr>]\<rparr>))"

text \<open>Interrupted units that some system batch and no user batch still links go back to pending.\<close>

definition wanted_by_system_only :: "queue \<Rightarrow> task \<Rightarrow> bool" where
  "wanted_by_system_only q t \<longleftrightarrow>
     (let ls = filter (\<lambda>l. ln_request l \<noteq> RCancelled) (links_of_task (tk_id t) q)
      in ls \<noteq> [] \<and> \<not> list_ex (\<lambda>l. list_ex (\<lambda>b. bt_id b = ln_batch l \<and> bt_origin b = OUser) (q_batches q)) ls)"

definition requeue_interrupted_system_tasks :: "str option \<Rightarrow> queue \<Rightarrow> queue" where
  "requeue_interrupted_system_tasks only q =
     update_tasks (\<lambda>t. tk_state t = TInterrupted \<and> (only = None \<or> only = Some (tk_id t))
         \<and> wanted_by_system_only q t)
       (\<lambda>t. t\<lparr>tk_state := TPending, tk_owner := None, tk_next_retry := None\<rparr>) q"

section \<open>New units\<close>

record admit_outcome =
  ao_task :: str
  ao_created :: bool

definition new_task ::
  "str \<Rightarrow> task_kind \<Rightarrow> subject \<Rightarrow> int \<Rightarrow> str \<Rightarrow> str \<Rightarrow> bool \<Rightarrow> int \<Rightarrow> task" where
  "new_task tid kind s revision fingerprint contract blocked now =
     \<lparr>tk_id = tid, tk_kind = kind, tk_asset = sb_id s, tk_domain = sb_domain s,
      tk_subject_kind = sb_kind s, tk_subject = sb_id s, tk_revision = revision,
      tk_fingerprint = fingerprint, tk_contract = contract,
      tk_state = (if blocked then TBlocked else TPending), tk_stage = [], tk_progress_done = 0,
      tk_progress_total = 0, tk_outcome = [], tk_attempts = 0, tk_retry_cycle = 0, tk_retries = 0,
      tk_next_retry = None, tk_owner = None, tk_epoch = 0, tk_heartbeat = None, tk_expires = None,
      tk_error_code = None, tk_error_message = None, tk_receipt = None, tk_invalidations = 0,
      tk_created = now\<rparr>"

text \<open>
  \<open>INSERT OR IGNORE\<close> of a unit: no row when its identifier exists, or when the partial unique index
  over the subject finds another live unit.
\<close>

definition insert_task :: "task \<Rightarrow> queue \<Rightarrow> queue option" where
  "insert_task t q =
     (if find_task (tk_id t) q \<noteq> None
        \<or> live_task \<lparr>sb_domain = tk_domain t, sb_kind = tk_subject_kind t, sb_id = tk_subject t\<rparr>
            (tk_kind t) q \<noteq> None
      then None else Some (q\<lparr>q_tasks := q_tasks q @ [t]\<rparr>))"

text \<open>The common part of every arm, from the look-up of a live unit on.\<close>

definition attach_live ::
  "str \<Rightarrow> task_kind \<Rightarrow> subject \<Rightarrow> str option \<Rightarrow> str \<Rightarrow> queue \<Rightarrow> queue_error + admit_outcome \<times> queue" where
  "attach_live bid kind s dependency live q =
     map_sum id (\<lambda>q1. (\<lparr>ao_task = live, ao_created = False\<rparr>,
         requeue_interrupted_system_tasks (Some live) q1))
       (link_batch_task bid live kind s dependency q)"

definition admit_new ::
  "str \<Rightarrow> task_kind \<Rightarrow> subject \<Rightarrow> int \<Rightarrow> str \<Rightarrow> str \<Rightarrow> str option \<Rightarrow> str \<Rightarrow> int \<Rightarrow> queue \<Rightarrow>
   queue_error + admit_outcome \<times> queue" where
  "admit_new bid kind s revision fingerprint contract dependency new_id now q =
     (case insert_task (new_task new_id kind s revision fingerprint contract (dependency \<noteq> None) now) q of
        None \<Rightarrow> (case live_task s kind q of
            Some existing \<Rightarrow> attach_live bid kind s dependency existing q
          | None \<Rightarrow> Inl TerminalExists)
      | Some q1 \<Rightarrow> map_sum id (\<lambda>q2. (\<lparr>ao_task = new_id, ao_created = True\<rparr>, q2))
          (link_batch_task bid new_id kind s dependency q1))"

definition admit_or_attach_with ::
  "str \<Rightarrow> task_kind \<Rightarrow> subject \<Rightarrow> int \<Rightarrow> str \<Rightarrow> str \<Rightarrow> str option \<Rightarrow> str \<Rightarrow> int \<Rightarrow> queue \<Rightarrow>
   queue_error + admit_outcome \<times> queue" where
  "admit_or_attach_with bid kind s revision fingerprint contract dependency new_id now q =
     (case live_task s kind q of
        Some live \<Rightarrow> attach_live bid kind s dependency live q
      | None \<Rightarrow> admit_new bid kind s revision fingerprint contract dependency new_id now q)"

section \<open>The arms\<close>

definition is_corpus_kind :: "task_kind \<Rightarrow> bool" where
  "is_corpus_kind k \<longleftrightarrow> k \<in> {KOcr, KEmbedding, KNer, KTriples, KSchemaExtract, KOcrCorrection, KSummary}"

text \<open>A demand for the embedding by anyone but the automatic repair lifts the suppression.\<close>

definition clear_suppression :: "str \<Rightarrow> int \<Rightarrow> queue \<Rightarrow> queue" where
  "clear_suppression aid revision q = q\<lparr>q_revisions := update_where
     (\<lambda>r. rv_asset r = aid \<and> rv_suppressed r = Some revision) (\<lambda>r. r\<lparr>rv_suppressed := None\<rparr>) (q_revisions q)\<rparr>"

definition admit_corpus ::
  "str \<Rightarrow> task_kind \<Rightarrow> subject \<Rightarrow> int \<Rightarrow> str \<Rightarrow> str \<Rightarrow> str option \<Rightarrow> str \<Rightarrow> int \<Rightarrow> queue \<Rightarrow>
   queue_error + admit_outcome \<times> queue" where
  "admit_corpus bid kind s revision fingerprint contract dependency new_id now q =
     (if sb_domain s \<noteq> Corpus \<or> sb_kind s \<noteq> SAsset \<or> sb_id s = [] \<or> \<not> is_corpus_kind kind
      then Inl UnsupportedSubject
      else if kind = KEmbedding then
        (case find_batch bid q of
           None \<Rightarrow> Inl InvalidSelection
         | Some b \<Rightarrow> admit_or_attach_with bid kind s revision fingerprint contract dependency new_id now
             (if bt_origin b = ORepair then q else clear_suppression (sb_id s) revision q))
      else admit_or_attach_with bid kind s revision fingerprint contract dependency new_id now q)"

definition admit_library ::
  "environment \<Rightarrow> str \<Rightarrow> task_kind \<Rightarrow> subject \<Rightarrow> str option \<Rightarrow> str \<Rightarrow> int \<Rightarrow> queue \<Rightarrow>
   queue_error + admit_outcome \<times> queue" where
  "admit_library e bid kind s dependency new_id now q =
     (if sb_kind s \<noteq> SLibrary \<or> sb_id s = [] \<or> kind \<noteq> KBibliographySync then Inl UnsupportedSubject
      else (case ev_library e (sb_id s) of
          None \<Rightarrow> Inl UnknownSubject
        | Some nullable \<Rightarrow>
            let version = unwrap_or 0 nullable in
            admit_or_attach_with bid kind s version (library_fingerprint (sb_id s) version) sync_contract
              dependency new_id now q))"

text \<open>\<open>None\<close>: an approved reprocess owns the attachment and nothing may join it.\<close>

definition admit_attachment ::
  "environment \<Rightarrow> str \<Rightarrow> task_kind \<Rightarrow> subject \<Rightarrow> str option \<Rightarrow> str \<Rightarrow> int \<Rightarrow> queue \<Rightarrow>
   queue_error + admit_outcome option \<times> queue" where
  "admit_attachment e bid kind s dependency new_id now q =
     (if kind \<noteq> KBibliographyExtract \<or> sb_id s = [] then Inl UnsupportedSubject
      else (case ev_attachment e (sb_id s) of
          None \<Rightarrow> Inl UnknownSubject
        | Some r \<Rightarrow>
            if (case Option.bind (live_task s kind q) (\<lambda>live. find_task live q) of
                  Some t \<Rightarrow> is_reprocess (tk_contract t) | None \<Rightarrow> False)
            then Inr (None, q)
            else map_sum id (\<lambda>(out, q1). (Some out, q1))
              (admit_or_attach_with bid kind s 0 (attachment_fingerprint r) extract_contract
                 dependency new_id now q)))"

definition admit_item ::
  "environment \<Rightarrow> archive \<Rightarrow> str \<Rightarrow> task_kind \<Rightarrow> subject \<Rightarrow> str option \<Rightarrow> str \<Rightarrow> int \<Rightarrow> queue \<Rightarrow>
   queue_error + admit_outcome \<times> queue" where
  "admit_item e a bid kind s dependency new_id now q =
     (if kind \<noteq> KBibliographyProfile \<or> sb_id s = [] then Inl UnsupportedSubject
      else (case ev_profile e (sb_id s) of
          None \<Rightarrow> Inl UnknownSubject
        | Some (revision, fingerprint) \<Rightarrow>
            (case effective_contract e a of
               None \<Rightarrow> Inl SettingsError
             | Some c \<Rightarrow> admit_or_attach_with bid kind s revision fingerprint (ec_hash c)
                 dependency new_id now q)))"

definition admit_subject_or_attach ::
  "environment \<Rightarrow> archive \<Rightarrow> str \<Rightarrow> task_kind \<Rightarrow> subject \<Rightarrow> int \<Rightarrow> str \<Rightarrow> str \<Rightarrow> str option \<Rightarrow> str \<Rightarrow>
   int \<Rightarrow> queue \<Rightarrow> queue_error + admit_outcome option \<times> queue" where
  "admit_subject_or_attach e a bid kind s revision fingerprint contract dependency new_id now q =
     (if sb_domain s = Bibliography then
        (if sb_kind s = SAttachment then admit_attachment e bid kind s dependency new_id now q
         else map_sum id (\<lambda>(out, q1). (Some out, q1))
           (if sb_kind s = SItem then admit_item e a bid kind s dependency new_id now q
            else admit_library e bid kind s dependency new_id now q))
      else map_sum id (\<lambda>(out, q1). (Some out, q1))
        (admit_corpus bid kind s revision fingerprint contract dependency new_id now q))"

text \<open>Automatic repair: nothing when the unit is live or this revision was cancelled.\<close>

definition suppressed_revision :: "str \<Rightarrow> queue \<Rightarrow> int option" where
  "suppressed_revision aid q =
     Option.bind (find (\<lambda>r. rv_asset r = aid) (q_revisions q)) rv_suppressed"

definition admit_repair_or_attach ::
  "environment \<Rightarrow> archive \<Rightarrow> str \<Rightarrow> subject \<Rightarrow> int \<Rightarrow> str \<Rightarrow> str \<Rightarrow> str \<Rightarrow> int \<Rightarrow> queue \<Rightarrow>
   queue_error + admit_outcome option \<times> queue" where
  "admit_repair_or_attach e a bid s revision fingerprint contract new_id now q =
     (if sb_domain s \<noteq> Corpus \<or> sb_kind s \<noteq> SAsset \<or> sb_id s = [] then Inl UnsupportedSubject
      else (case find_batch bid q of
          None \<Rightarrow> Inl InvalidSelection
        | Some b \<Rightarrow>
            if bt_origin b \<noteq> ORepair then Inl InvalidSelection
            else if live_task s KEmbedding q \<noteq> None \<or> suppressed_revision (sb_id s) q = Some revision
            then Inr (None, q)
            else admit_subject_or_attach e a bid KEmbedding s revision fingerprint contract None
              new_id now q))"

section \<open>Paid pages\<close>

text \<open>
  The checkpoints of failed or cancelled extractions of the same file under the same plan are
  copied to a reprocess; a row it already owns wins, and of several rows with one key the first.
\<close>

definition is_adoptable :: "queue \<Rightarrow> task \<Rightarrow> checkpoint \<Rightarrow> bool" where
  "is_adoptable q task c \<longleftrightarrow> cp_contract c = tk_contract task \<and> cp_fingerprint c = tk_fingerprint task
     \<and> list_ex (\<lambda>t. tk_id t = cp_task c \<and> tk_kind t = KBibliographyExtract \<and> tk_domain t = Bibliography
          \<and> tk_subject_kind t = SAttachment \<and> tk_subject t = tk_subject task \<and> tk_id t \<noteq> tk_id task
          \<and> tk_state t \<in> {TFailed, TCancelled}) (q_tasks q)"

definition insert_checkpoint :: "checkpoint \<Rightarrow> checkpoint list \<Rightarrow> checkpoint list" where
  "insert_checkpoint c cs =
     (if list_ex (\<lambda>d. cp_task d = cp_task c \<and> cp_unit d = cp_unit c) cs then cs else cs @ [c])"

definition adopt_reprocess_checkpoints :: "task \<Rightarrow> queue \<Rightarrow> queue_error + queue" where
  "adopt_reprocess_checkpoints task q =
     (if \<not> is_reprocess (tk_contract task) then Inl UnsupportedSubject
      else Inr (q\<lparr>q_checkpoints := fold (\<lambda>c. insert_checkpoint (c\<lparr>cp_task := tk_id task\<rparr>))
        (filter (is_adoptable q task) (q_checkpoints q)) (q_checkpoints q)\<rparr>))"

text \<open>
  One pass of the purge of finished units over the rows it found, in pages of at most \<open>limit\<close>
  units; the pages together delete every checkpoint of a dead unit.
\<close>

definition is_dead_checkpoint :: "queue \<Rightarrow> checkpoint \<Rightarrow> bool" where
  "is_dead_checkpoint q c \<longleftrightarrow>
     (case find_task (cp_task c) q of
        None \<Rightarrow> True
      | Some t \<Rightarrow> is_terminal_task (tk_state t)
          \<and> \<not> (tk_kind t = KBibliographyExtract \<and> tk_state t \<in> {TFailed, TCancelled}))"

definition purge_page :: "nat \<Rightarrow> queue \<Rightarrow> queue" where
  "purge_page limit q =
     fold delete_task_checkpoints
       (take limit (remdups (map cp_task (filter (is_dead_checkpoint q) (q_checkpoints q))))) q"

lemma delete_checkpoints_of: "q_checkpoints (fold delete_task_checkpoints ids q)
    = filter (\<lambda>c. cp_task c \<notin> set ids) (q_checkpoints q)"
  by (induction ids arbitrary: q) (auto simp: delete_task_checkpoints_def intro: filter_cong)

lemma purge_page_shrinks:
  assumes "list_ex (is_dead_checkpoint q) (q_checkpoints q)" and "0 < n"
  shows "length (q_checkpoints (purge_page n q)) < length (q_checkpoints q)"
proof -
  let ?ids = "remdups (map cp_task (filter (is_dead_checkpoint q) (q_checkpoints q)))"
  from assms(1) have "?ids \<noteq> []" by (auto simp: list_ex_iff filter_empty_conv)
  then obtain i rest where ids: "?ids = i # rest" by (cases ?ids) auto
  then have "i \<in> set ?ids" by simp
  then obtain c where c: "c \<in> set (q_checkpoints q)" "cp_task c = i" by auto
  from assms(2) ids have "i \<in> set (take n ?ids)" by (cases n) auto
  with c show ?thesis
    unfolding purge_page_def delete_checkpoints_of by (intro length_filter_less [of c]) auto
qed

function purge_terminal_checkpoints :: "nat \<Rightarrow> queue \<Rightarrow> queue" where
  "purge_terminal_checkpoints tasks_per_batch q =
     (if list_ex (is_dead_checkpoint q) (q_checkpoints q)
      then purge_terminal_checkpoints tasks_per_batch (purge_page (max 1 tasks_per_batch) q) else q)"
  by auto

termination
  by (relation "measure (\<lambda>(_, q). length (q_checkpoints q))") (auto simp: purge_page_shrinks)

declare purge_terminal_checkpoints.simps [simp del]

end
