(* ===== verification/QueueBatches.thy ===== *)
theory QueueBatches
  imports QueueAdmit
begin

text \<open>
  Batches: control, priorities, the system batches, idempotent requests, retries and the end of a
  batch (\<open>processing/repository.rs\<close>).

  A batch asks for units through its links. Its observed state moves with the units; the desired
  state is what the user asked for and is written first.
\<close>

section \<open>Lists of batches\<close>

text \<open>\<open>ORDER BY created_at, id LIMIT n\<close>.\<close>

definition oldest_first :: "batch list \<Rightarrow> batch list" where
  "oldest_first bs = sort_key bt_created (sort_key bt_id bs)"

definition planning_batches :: "queue \<Rightarrow> str list" where
  "planning_batches q = take 4 (map bt_id (oldest_first (filter (\<lambda>b.
     bt_state b \<in> {BPreparing, BReady} \<and> \<not> bt_planning_done b \<and> bt_desired b \<noteq> DCancel) (q_batches q))))"

definition open_batches :: "queue \<Rightarrow> str list" where
  "open_batches q = take 32 (map bt_id (oldest_first (filter (\<lambda>b.
     bt_state b \<in> {BRunning, BPausing, BReady, BCancelling} \<and> bt_planning_done b) (q_batches q))))"

definition item_has_live_queue_work :: "archive \<Rightarrow> str \<Rightarrow> queue \<Rightarrow> bool" where
  "item_has_live_queue_work a item q \<longleftrightarrow> list_ex (\<lambda>t. is_open_task (tk_state t)
     \<and> list_ex (\<lambda>r. as_id r = tk_asset t \<and> as_item r = item) (ar_assets a)) (q_tasks q)"

section \<open>Units nobody wants\<close>

definition is_orphan :: "queue \<Rightarrow> task \<Rightarrow> bool" where
  "is_orphan q t \<longleftrightarrow> tk_state t \<in> {TPending, TBlocked, TRetryWait, TInterrupted}
     \<and> \<not> list_ex (\<lambda>l. ln_request l \<in> {RActive, RPaused}) (links_of_task (tk_id t) q)"

definition cancel_orphaned_tasks :: "queue \<Rightarrow> queue" where
  "cancel_orphaned_tasks q =
     (let orphans = map (\<lambda>t. (tk_id t, tk_kind t)) (filter (is_orphan q) (q_tasks q));
          q1 = update_tasks (is_orphan q)
                 (\<lambda>t. t\<lparr>tk_state := TCancelled, tk_owner := None, tk_next_retry := None\<rparr>) q;
          q2 = fold (\<lambda>(tid, kind). delete_checkpoints_unless_paid_extraction tid kind) orphans q1
      in map_attempts (\<lambda>x. at_outcome x = AOpen
           \<and> (\<exists>t \<in> set (q_tasks q2). tk_id t = at_task x \<and> tk_state t = TCancelled))
           (\<lambda>x. x\<lparr>at_outcome := ACancelled\<rparr>) q2)"

section \<open>The end of a batch\<close>

definition unit_states :: "(batch_link \<Rightarrow> bool) \<Rightarrow> str \<Rightarrow> queue \<Rightarrow> task_state list" where
  "unit_states p bid q =
     somes (map (\<lambda>l. map_option tk_state (find_task (ln_task l) q)) (filter p (links_of_batch bid q)))"

definition is_open_link :: "batch_link \<Rightarrow> bool" where
  "is_open_link l \<longleftrightarrow> ln_request l \<noteq> RCancelled"

definition open_units :: "str \<Rightarrow> queue \<Rightarrow> nat" where
  "open_units bid q = length (filter is_open_task (unit_states is_open_link bid q))"

definition failed_units :: "str \<Rightarrow> queue \<Rightarrow> nat" where
  "failed_units bid q = length (filter (\<lambda>s. s = TFailed) (unit_states is_open_link bid q))"

definition observe_paused_batches :: "queue \<Rightarrow> queue" where
  "observe_paused_batches q =
     map_batches (\<lambda>b. bt_state b = BPausing \<and> bt_desired b = DPause
         \<and> TRunning \<notin> set (unit_states (\<lambda>_. True) (bt_id b) q))
       (\<lambda>b. b\<lparr>bt_state := BPaused\<rparr>) q"

definition final_state :: "batch \<Rightarrow> queue \<Rightarrow> batch_state" where
  "final_state b q =
     (if bt_desired b = DCancel \<or> bt_state b = BCancelling then BCancelled
      else if 0 < failed_units (bt_id b) q then BCompletedWithErrors else BCompleted)"

definition set_batch_state :: "str \<Rightarrow> batch_state \<Rightarrow> queue \<Rightarrow> queue" where
  "set_batch_state bid s = map_batches (\<lambda>b. bt_id b = bid) (\<lambda>b. b\<lparr>bt_state := s\<rparr>)"

definition maybe_finalize_batch :: "str \<Rightarrow> queue \<Rightarrow> queue_error + bool \<times> queue" where
  "maybe_finalize_batch bid q =
     (case find_batch bid q of
        None \<Rightarrow> Inl InvalidSelection
      | Some b \<Rightarrow>
          if bt_origin b \<noteq> OUser then Inr (False, q)
          else if bt_desired b = DPause then Inr (False, observe_paused_batches q)
          else
            (let needs_planning = (bt_desired b \<noteq> DCancel \<and> bt_state b \<noteq> BCancelling) in
             if bt_state b \<notin> {BRunning, BPausing, BCancelling, BReady}
               \<or> needs_planning \<and> \<not> bt_planning_done b
             then Inr (False, q)
             else if 0 < open_units bid q then Inr (False, q)
             else Inr (True, set_batch_state bid (final_state b q) q)))"

section \<open>Control\<close>

datatype batch_action = APause | AResume | ACancel

definition linked_to :: "str \<Rightarrow> queue \<Rightarrow> task \<Rightarrow> bool" where
  "linked_to bid q t \<longleftrightarrow> tk_id t \<in> set (map ln_task (links_of_batch bid q))"

definition desired_of :: "batch_action \<Rightarrow> desired_state" where
  "desired_of action = (case action of APause \<Rightarrow> DPause | AResume \<Rightarrow> DRun | ACancel \<Rightarrow> DCancel)"

definition pause_links :: "str \<Rightarrow> queue \<Rightarrow> queue" where
  "pause_links bid q =
     map_links (\<lambda>l. ln_batch l = bid) (\<lambda>l. l\<lparr>ln_request := RPaused\<rparr>)
       (map_batches (\<lambda>b. bt_id b = bid \<and> bt_state b = BRunning) (\<lambda>b. b\<lparr>bt_state := BPausing\<rparr>) q)"

definition resume_units :: "str \<Rightarrow> queue \<Rightarrow> queue" where
  "resume_units bid q =
     (let q1 = map_batches (\<lambda>b. bt_id b = bid \<and> bt_state b \<in> {BPaused, BPausing, BInterrupted})
            (\<lambda>b. b\<lparr>bt_state := (if bt_planning_done b then BReady else BPreparing)\<rparr>) q;
          q2 = map_links (\<lambda>l. ln_batch l = bid \<and> ln_request l = RPaused)
            (\<lambda>l. l\<lparr>ln_request := RActive\<rparr>) q1;
          q3 = update_tasks (\<lambda>t. tk_state t = TInterrupted \<and> linked_to bid q2 t)
            (\<lambda>t. t\<lparr>tk_state := TPending, tk_owner := None, tk_next_retry := None\<rparr>) q2
      in update_tasks (\<lambda>t. tk_state t = TBlocked
             \<and> tk_outcome t \<in> {tx ''configuration_changed'', tx ''source_unstable''} \<and> linked_to bid q3 t)
           (\<lambda>t. t\<lparr>tk_state := TPending, tk_outcome := [], tk_invalidations := 0,
              tk_error_code := None, tk_error_message := None\<rparr>) q3)"

text \<open>
  The revisions of the cancelled embeddings are suppressed for the automatic repair: for every
  asset of an embedding of the batch, its revision row is written or updated.
\<close>

definition suppress_asset :: "str \<times> int \<Rightarrow> asset_revision list \<Rightarrow> asset_revision list" where
  "suppress_asset entry rows =
     (let (aid, revision) = entry in
      if list_ex (\<lambda>r. rv_asset r = aid) rows
      then update_where (\<lambda>r. rv_asset r = aid)
        (\<lambda>r. r\<lparr>rv_reason := Some (tx ''cancelled''), rv_suppressed := Some revision\<rparr>) rows
      else rows @ [\<lparr>rv_asset = aid, rv_source = revision, rv_completed = None,
        rv_reason = Some (tx ''cancelled''), rv_suppressed = Some revision\<rparr>])"

definition current_revision :: "asset_revision list \<Rightarrow> task \<Rightarrow> int" where
  "current_revision rows t =
     (case find (\<lambda>r. rv_asset r = tk_asset t) rows of Some r \<Rightarrow> rv_source r | None \<Rightarrow> tk_revision t)"

definition cancelled_embeddings :: "str \<Rightarrow> queue \<Rightarrow> (str \<times> int) list" where
  "cancelled_embeddings bid q = remdups (map (\<lambda>t. (tk_asset t, current_revision (q_revisions q) t))
     (filter (\<lambda>t. tk_kind t = KEmbedding)
       (somes (map (\<lambda>l. find_task (ln_task l) q) (links_of_batch bid q)))))"

definition cancel_batch :: "str \<Rightarrow> queue \<Rightarrow> queue_error + queue" where
  "cancel_batch bid q =
     (let q1 = q\<lparr>q_revisions := fold suppress_asset (cancelled_embeddings bid q) (q_revisions q)\<rparr>;
          q2 = map_batches (\<lambda>b. bt_id b = bid) (\<lambda>b. b\<lparr>bt_state := BCancelling\<rparr>) q1;
          q3 = map_links (\<lambda>l. ln_batch l = bid) (\<lambda>l. l\<lparr>ln_request := RCancelled\<rparr>) q2;
          q4 = map_batches (\<lambda>b. bt_id b = bid) (\<lambda>b. b\<lparr>bt_priority := 0\<rparr>) q3
      in map_sum id snd (maybe_finalize_batch bid (cancel_orphaned_tasks q4)))"

definition check_revision :: "batch \<Rightarrow> int option \<Rightarrow> bool" where
  "check_revision b expected \<longleftrightarrow> (case expected of None \<Rightarrow> True | Some n \<Rightarrow> n = bt_revision b)"

definition control_batch ::
  "str \<Rightarrow> batch_action \<Rightarrow> int option \<Rightarrow> queue \<Rightarrow> queue_error + queue" where
  "control_batch bid action expected q =
     (case find_batch bid q of
        None \<Rightarrow> Inl InvalidSelection
      | Some b \<Rightarrow>
          if \<not> check_revision b expected then Inl RevisionConflict
          else if is_terminal_batch (bt_state b) then Inl InvalidTransition
          else if bt_state b = BCancelling \<and> action \<noteq> ACancel then Inl InvalidTransition
          else
            (let q1 = map_batches (\<lambda>b. bt_id b = bid)
                   (\<lambda>b. b\<lparr>bt_desired := desired_of action, bt_revision := bt_revision b + 1\<rparr>) q
             in (case action of
                   APause \<Rightarrow> Inr (pause_links bid q1)
                 | AResume \<Rightarrow> Inr (resume_units bid q1)
                 | ACancel \<Rightarrow> cancel_batch bid q1)))"

section \<open>Priorities\<close>

definition set_batch_priority ::
  "str \<Rightarrow> int \<Rightarrow> int option \<Rightarrow> queue \<Rightarrow> queue_error + queue" where
  "set_batch_priority bid priority expected q =
     (if \<not> (0 \<le> priority \<and> priority \<le> 2) then Inl InvalidSelection
      else (case find_batch bid q of
          None \<Rightarrow> Inl InvalidSelection
        | Some b \<Rightarrow>
            if \<not> check_revision b expected then Inl RevisionConflict
            else if is_terminal_batch (bt_state b) then Inl InvalidTransition
            else Inr (map_batches (\<lambda>b. bt_id b = bid)
              (\<lambda>b. b\<lparr>bt_priority := priority, bt_revision := bt_revision b + 1\<rparr>) q)))"

definition priority_aging_starve_ms :: int where
  "priority_aging_starve_ms = 30 * 60 * 1000"

definition is_starving :: "int \<Rightarrow> queue \<Rightarrow> batch \<Rightarrow> bool" where
  "is_starving now q b \<longleftrightarrow> bt_priority b = 0 \<and> bt_state b \<in> {BRunning, BReady} \<and> bt_desired b = DRun
     \<and> list_ex (\<lambda>l. ln_request l = RActive \<and> list_ex (\<lambda>t. tk_id t = ln_task l
          \<and> tk_state t \<in> {TPending, TRetryWait} \<and> tk_created t \<le> now - priority_aging_starve_ms)
          (q_tasks q)) (links_of_batch (bt_id b) q)"

definition apply_priority_aging :: "int \<Rightarrow> queue \<Rightarrow> queue" where
  "apply_priority_aging now q =
     map_batches (is_starving now q) (\<lambda>b. b\<lparr>bt_priority := 1, bt_revision := bt_revision b + 1\<rparr>) q"

section \<open>System batches\<close>

definition system_request :: "origin \<Rightarrow> str" where
  "system_request origin = (case origin of
       OManual \<Rightarrow> tx ''system-manual'' | ORepair \<Rightarrow> tx ''system-repair''
     | OBibliography \<Rightarrow> tx ''system-bibliography'' | OUser \<Rightarrow> tx ''system-user'')"

definition ensure_system_batch_row ::
  "origin \<Rightarrow> str \<Rightarrow> str \<Rightarrow> int option \<Rightarrow> int \<Rightarrow> queue \<Rightarrow> str \<times> queue" where
  "ensure_system_batch_row origin request new_id priority now q =
     (case find (\<lambda>b. bt_request b = request) (q_batches q) of
        Some found \<Rightarrow>
          (let q1 = map_batches (\<lambda>b. bt_id b = bt_id found
                   \<and> bt_state b \<in> {BCompleted, BCompletedWithErrors, BCancelling, BCancelled})
                 (\<lambda>b. b\<lparr>bt_state := BRunning, bt_desired := DRun\<rparr>) q
           in (bt_id found, (case priority of
                 None \<Rightarrow> q1
               | Some p \<Rightarrow> map_batches (\<lambda>b. bt_id b = bt_id found \<and> bt_priority b \<noteq> p)
                   (\<lambda>b. b\<lparr>bt_priority := p\<rparr>) q1)))
      | None \<Rightarrow>
          (new_id, q\<lparr>q_batches := q_batches q @ [\<lparr>bt_id = new_id, bt_request = request,
             bt_origin = origin, bt_state = BRunning, bt_desired = DRun,
             bt_operations = [tx ''ocr'', tx ''embeddings''], bt_cursor = 0, bt_planning_done = True,
             bt_revision = 0, bt_priority = unwrap_or 0 priority, bt_created = now\<rparr>]\<rparr>))"

text \<open>A user batch is not a system origin.\<close>

definition ensure_system_batch :: "origin \<Rightarrow> int \<Rightarrow> queue \<Rightarrow> queue_error + str \<times> queue" where
  "ensure_system_batch origin now q =
     (if origin = OUser then Inl InvalidSelection
      else Inr (ensure_system_batch_row origin (system_request origin)
        (tx ''batch-'' @ system_request origin) (if origin = OManual then Some 2 else None) now q))"

definition ensure_bibliography_sync_lane :: "int \<Rightarrow> queue \<Rightarrow> str \<times> queue" where
  "ensure_bibliography_sync_lane =
     ensure_system_batch_row OBibliography (tx ''system-bibliography-sync'')
       (tx ''batch-system-bibliography-sync'') (Some 2)"

definition raise_manual_system_batch :: "queue \<Rightarrow> queue" where
  "raise_manual_system_batch =
     map_batches (\<lambda>b. bt_request b = tx ''system-manual'' \<and> bt_priority b \<noteq> 2
         \<and> bt_state b \<in> {BRunning, BReady} \<and> bt_desired b = DRun)
       (\<lambda>b. b\<lparr>bt_priority := 2\<rparr>)"

section \<open>Requests\<close>

definition find_request :: "str \<Rightarrow> queue \<Rightarrow> request option" where
  "find_request rid q = find (\<lambda>r. rq_id r = rid) (q_requests q)"

text \<open>The primary key rejects a second row, the batch must exist.\<close>

definition record_request :: "request \<Rightarrow> queue \<Rightarrow> queue_error + queue" where
  "record_request r q =
     (if find_request (rq_id r) q \<noteq> None
        \<or> (case rq_batch r of None \<Rightarrow> False | Some bid \<Rightarrow> find_batch bid q = None)
      then Inl ConstraintFailed else Inr (q\<lparr>q_requests := q_requests q @ [r]\<rparr>))"

section \<open>Retries\<close>

text \<open>
  Reopening a failed unit makes it live again; the unique index over the subject refuses that when
  another live unit exists, and the statement fails.
\<close>

definition reopen_task :: "task \<Rightarrow> task" where
  "reopen_task t = t\<lparr>tk_state := TPending, tk_outcome := [], tk_retry_cycle := tk_retry_cycle t + 1,
     tk_retries := 0, tk_invalidations := 0, tk_next_retry := None, tk_error_code := None,
     tk_error_message := None, tk_owner := None\<rparr>"

definition subject_of :: "task \<Rightarrow> subject" where
  "subject_of t = \<lparr>sb_domain = tk_domain t, sb_kind = tk_subject_kind t, sb_id = tk_subject t\<rparr>"

definition reopen_one :: "str \<Rightarrow> nat \<times> queue \<Rightarrow> queue_error + nat \<times> queue" where
  "reopen_one tid r =
     (let (n, q) = r in
      case find (\<lambda>t. tk_id t = tid \<and> tk_state t = TFailed) (q_tasks q) of
        None \<Rightarrow> Inr (n, q)
      | Some t \<Rightarrow>
          if live_task (subject_of t) (tk_kind t) q \<noteq> None then Inl ConstraintFailed
          else Inr (n + 1, update_tasks (\<lambda>t. tk_id t = tid \<and> tk_state t = TFailed) reopen_task q))"

text \<open>The loop stops at the first error and keeps what it reopened before.\<close>

fun reopen_all :: "str list \<Rightarrow> nat \<times> queue \<Rightarrow> (queue_error + nat) \<times> queue" where
  "reopen_all [] (n, q) = (Inr n, q)"
| "reopen_all (tid # rest) (n, q) =
     (case reopen_one tid (n, q) of Inl e \<Rightarrow> (Inl e, q) | Inr r \<Rightarrow> reopen_all rest r)"

definition retry_targets :: "str \<Rightarrow> str option \<Rightarrow> queue \<Rightarrow> queue_error + (str \<times> str option) list" where
  "retry_targets bid single q =
     (case single of
        Some tid \<Rightarrow>
          (case find (\<lambda>l. ln_task l = tid) (links_of_batch bid q) of
             None \<Rightarrow> Inl InvalidSelection
           | Some l \<Rightarrow>
               (case find_task tid q of
                  None \<Rightarrow> Inl InvalidSelection
                | Some t \<Rightarrow> if tk_state t = TFailed then Inr [(tid, ln_dependency l)]
                    else Inl InvalidTransition))
      | None \<Rightarrow> Inr (map (\<lambda>l. (ln_task l, ln_dependency l))
          (filter (\<lambda>l. map_option tk_state (find_task (ln_task l) q) = Some TFailed)
            (links_of_batch bid q))))"

definition failed_dependencies :: "(str \<times> str option) list \<Rightarrow> queue \<Rightarrow> str list" where
  "failed_dependencies targets q =
     filter (\<lambda>d. map_option tk_state (find_task d q) = Some TFailed) (somes (map snd targets))"

definition revive_batch :: "batch \<Rightarrow> batch" where
  "revive_batch b = b\<lparr>bt_revision := bt_revision b + 1,
     bt_state := (if bt_state b = BCompletedWithErrors then BReady else bt_state b),
     bt_desired := (if bt_state b = BCompletedWithErrors then DRun else bt_desired b)\<rparr>"

definition retry_failed :: "str \<Rightarrow> str option \<Rightarrow> queue \<Rightarrow> (queue_error + nat) \<times> queue" where
  "retry_failed bid single q =
     (case find_batch bid q of
        None \<Rightarrow> (Inl InvalidSelection, q)
      | Some b \<Rightarrow>
          if bt_state b \<in> {BCancelling, BCancelled} then (Inl InvalidTransition, q)
          else (case retry_targets bid single q of
              Inl e \<Rightarrow> (Inl e, q)
            | Inr targets \<Rightarrow>
                (let ids = map fst targets @ failed_dependencies targets q;
                     q1 = map_links (\<lambda>l. ln_batch l = bid \<and> ln_task l \<in> set ids)
                            (\<lambda>l. l\<lparr>ln_request := RActive\<rparr>) q
                 in (case reopen_all ids (0, q1) of
                       (Inl e, q2) \<Rightarrow> (Inl e, q2)
                     | (Inr n, q2) \<Rightarrow> (Inr n, map_batches (\<lambda>b. bt_id b = bid) revive_batch q2)))))"

section \<open>Configuration\<close>

definition force_prefix :: str where
  "force_prefix = tx ''force:''"

definition reconcile_contracts :: "environment \<Rightarrow> archive \<Rightarrow> queue \<Rightarrow> queue_error + queue" where
  "reconcile_contracts e a q =
     (case effective_contract e a of
        None \<Rightarrow> Inl SettingsError
      | Some c \<Rightarrow> Inr (update_tasks (\<lambda>t. tk_kind t = KEmbedding \<and> tk_state t \<in> {TPending, TRetryWait}
            \<and> tk_contract t \<noteq> ec_hash c \<and> tk_contract t \<noteq> force_prefix @ ec_hash c)
          (\<lambda>t. t\<lparr>tk_state := TBlocked, tk_outcome := tx ''configuration_changed'',
             tk_error_code := Some (tx ''configuration_changed''),
             tk_error_message := Some (tx ''the effective embedding contract changed while this task waited; resume with the current configuration to re-evaluate'')\<rparr>) q))"

definition resume_blocked :: "(task \<Rightarrow> bool) \<Rightarrow> queue \<Rightarrow> queue" where
  "resume_blocked p =
     update_tasks (\<lambda>t. tk_state t = TBlocked \<and> p t)
       (\<lambda>t. t\<lparr>tk_state := TPending, tk_outcome := [], tk_owner := None, tk_next_retry := None,
          tk_error_code := None, tk_error_message := None\<rparr>)"

text \<open>Whether the engine can start from the settings is the argument \<open>ready\<close>.\<close>

definition resume_embedding_configuration_blocked :: "bool \<Rightarrow> queue \<Rightarrow> queue" where
  "resume_embedding_configuration_blocked ready q =
     (if \<not> ready then q
      else resume_blocked (\<lambda>t. tk_error_code t \<in> {Some (tx ''configuration_required''),
             Some (tx ''configuration_required_embedding''),
             Some (tx ''configuration_required_embedding_contract'')}
           \<and> tk_kind t \<in> {KEmbedding, KBibliographyProfile}) q)"

text \<open>\<open>LIKE 'configuration:%'\<close> compares ASCII letters without case.\<close>

definition resume_ocr_configuration_blocked :: "bool \<Rightarrow> queue \<Rightarrow> queue" where
  "resume_ocr_configuration_blocked ready q =
     (if \<not> ready then q
      else resume_blocked (\<lambda>t. tk_error_code t = Some (tx ''configuration_required_ocr'')
          \<or> tk_error_code t = Some (tx ''configuration_required'')
            \<and> tk_kind t \<in> {KOcr, KBibliographyExtract}
            \<and> (case tk_error_message t of None \<Rightarrow> False
               | Some m \<Rightarrow> starts_with (tx ''configuration:'') (to_ascii_lowercase m))) q)"

definition resume_ner_configuration_blocked :: "bool \<Rightarrow> queue \<Rightarrow> queue" where
  "resume_ner_configuration_blocked ready q =
     (if \<not> ready then q
      else resume_blocked (\<lambda>t. tk_error_code t = Some (tx ''configuration_required'') \<and> tk_kind t = KNer) q)"

section \<open>Repair of blocked units\<close>

text \<open>The scan reads all its rows first and then settles them one by one.\<close>

definition blocked_rows :: "queue \<Rightarrow> (str \<times> str \<times> task_state) list" where
  "blocked_rows q = somes (map (\<lambda>l.
     (case (find_task (ln_task l) q, ln_dependency l) of
        (Some t, Some d) \<Rightarrow>
          (if tk_state t = TBlocked then map_option (\<lambda>dep. (ln_task l, d, tk_state dep)) (find_task d q)
           else None)
      | _ \<Rightarrow> None)) (q_links q))"

definition settle_row :: "str \<times> str \<times> task_state \<Rightarrow> queue \<Rightarrow> queue" where
  "settle_row row q =
     (let (tid, dep, state) = row in
      if state \<in> {TSucceeded, TSkipped}
      then update_tasks (\<lambda>t. tk_id t = tid \<and> tk_state t = TBlocked) release_dependent q
      else if state \<in> {TFailed, TCancelled}
      then close_open_attempt tid AFailed
        (update_tasks (\<lambda>t. tk_id t = tid \<and> tk_state t = TBlocked) (fail_dependency dep state) q)
      else q)"

definition settle_blocked_dependents :: "queue \<Rightarrow> queue" where
  "settle_blocked_dependents q = fold settle_row (blocked_rows q) q"

section \<open>A demand for a library\<close>

record demand_outcome =
  dm_batch :: str
  dm_task :: str
  dm_created :: bool
  dm_requeued :: bool

text \<open>\<open>ORDER BY rowid DESC LIMIT 1\<close>.\<close>

definition latest_task :: "subject \<Rightarrow> task_kind \<Rightarrow> queue \<Rightarrow> task option" where
  "latest_task s kind q = find (concerns s kind) (rev (q_tasks q))"

definition demand_of_library ::
  "environment \<Rightarrow> archive \<Rightarrow> str \<Rightarrow> str \<Rightarrow> int \<Rightarrow> queue \<Rightarrow> queue_error + demand_outcome \<times> queue" where
  "demand_of_library e a lid new_id now q0 =
     try_then (ensure_system_batch OBibliography now q0) (\<lambda>(bid, q).
     let s = \<lparr>sb_domain = Bibliography, sb_kind = SLibrary, sb_id = lid\<rparr>;
         live = live_task s KBibliographySync q
     in case (if live = None then opt_filter (\<lambda>t. tk_state t = TFailed) (latest_task s KBibliographySync q)
              else None) of
          Some t \<Rightarrow>
            try_then (link_batch_task bid (tk_id t) KBibliographySync s None q) (\<lambda>q1.
            case retry_failed bid (Some (tk_id t)) q1 of
              (Inl err, _) \<Rightarrow> Inl err
            | (Inr n, q2) \<Rightarrow>
                if n \<noteq> 1 then Inl InvalidTransition
                else Inr (\<lparr>dm_batch = bid, dm_task = tk_id t, dm_created = False, dm_requeued = True\<rparr>, q2))
        | None \<Rightarrow>
            (let was_interrupted = (case Option.bind live (\<lambda>i. find_task i q) of
                   None \<Rightarrow> False | Some t \<Rightarrow> tk_state t = TInterrupted)
             in try_then (admit_subject_or_attach e a bid KBibliographySync s 0 [] [] None new_id now q)
              (\<lambda>(admitted, q1).
              case admitted of
                None \<Rightarrow> Inl UnsupportedSubject
              | Some out \<Rightarrow>
                  if ao_created out \<or> was_interrupted
                  then Inr (\<lparr>dm_batch = bid, dm_task = ao_task out, dm_created = ao_created out,
                    dm_requeued = (\<not> ao_created out \<and> was_interrupted)\<rparr>, q1)
                  else
                    (let p = (\<lambda>t. tk_id t = ao_task out \<and> tk_state t \<in> {TInterrupted, TBlocked}) in
                     Inr (\<lparr>dm_batch = bid, dm_task = ao_task out, dm_created = False,
                        dm_requeued = (length (matching_ids p q1) = 1)\<rparr>,
                      update_tasks p (\<lambda>t. t\<lparr>tk_state := TPending, tk_outcome := [], tk_owner := None,
                        tk_next_retry := None, tk_error_code := None, tk_error_message := None\<rparr>) q1)))))"

text \<open>
  The rows of \<open>zotero_libraries\<close> that own the namespace are the argument \<open>rows\<close>. Any error rolls
  the savepoint back.
\<close>

definition admit_bibliography_sync_demand ::
  "environment \<Rightarrow> archive \<Rightarrow> str \<Rightarrow> str \<Rightarrow> str list \<Rightarrow> str \<Rightarrow> int \<Rightarrow> queue \<Rightarrow>
   queue_error + demand_outcome \<times> queue" where
  "admit_bibliography_sync_demand e a library_type library_id rows new_id now q =
     (if library_type \<noteq> tx ''user'' \<and> library_type \<noteq> tx ''group'' \<or> trim library_id = []
      then Inl InvalidSelection
      else (case rows of
          [lid] \<Rightarrow>
            try_then (demand_of_library e a lid new_id now q) (\<lambda>(outcome, q1).
            let (lane, q2) = ensure_bibliography_sync_lane now q1 in
            map_sum id (\<lambda>q3. (outcome,
                map_links (\<lambda>l. ln_batch l = lane \<and> ln_task l = dm_task outcome \<and> ln_request l \<noteq> RActive)
                  (\<lambda>l. l\<lparr>ln_request := RActive\<rparr>) q3))
              (link_batch_task lane (dm_task outcome) KBibliographySync
                \<lparr>sb_domain = Bibliography, sb_kind = SLibrary, sb_id = lid\<rparr> None q2))
        | _ \<Rightarrow> Inl UnknownSubject))"

end
