(* ===== verification/QueuePlan.thy ===== *)
theory QueuePlan
  imports QueueBatches
begin

text \<open>
  Planning of a batch: the snapshot of its scope, the classification of its members page by page
  and the promotion of planned batches (\<open>processing/repository.rs\<close>).

  The fresh identifiers of a page are a function from a counter; every admission takes the next.
\<close>

section \<open>The operations of a batch\<close>

record operations =
  op_ocr :: bool
  op_include_native :: bool
  op_embeddings :: bool
  op_ner :: bool
  op_triples :: bool
  op_correction :: bool
  op_summary :: bool
  op_schema :: "str option"

definition ocr_include_native :: str where
  "ocr_include_native = tx ''ocr_include_native''"

text \<open>The last schema of the list wins.\<close>

definition operations_of :: "str list \<Rightarrow> operations" where
  "operations_of entries =
     \<lparr>op_ocr = (tx ''ocr'' \<in> set entries),
      op_include_native = (ocr_include_native \<in> set entries),
      op_embeddings = (tx ''embeddings'' \<in> set entries),
      op_ner = (tx ''ner'' \<in> set entries),
      op_triples = (tx ''triples'' \<in> set entries),
      op_correction = (tx ''ocr_correction'' \<in> set entries),
      op_summary = (tx ''summary'' \<in> set entries),
      op_schema = (case rev (somes (map (strip_prefix (tx ''schema:'')) entries)) of
         [] \<Rightarrow> None | s # _ \<Rightarrow> Some s)\<rparr>"

definition batch_operations :: "str \<Rightarrow> queue \<Rightarrow> queue_error + operations" where
  "batch_operations bid q =
     (case find_batch bid q of
        None \<Rightarrow> Inl RowMissing | Some b \<Rightarrow> Inr (operations_of (bt_operations b)))"

section \<open>The scope\<close>

text \<open>The assets of the scope in the order of their creation, numbered from zero.\<close>

definition in_scope :: "archive \<Rightarrow> str list \<Rightarrow> str list \<Rightarrow> asset_row \<Rightarrow> item_row option" where
  "in_scope a collections items r =
     find (\<lambda>i. im_id i = as_item r \<and> (im_collection i \<in> set collections \<or> im_id i \<in> set items)) (ar_items a)"

definition scope_members :: "archive \<Rightarrow> str \<Rightarrow> str list \<Rightarrow> str list \<Rightarrow> member list" where
  "scope_members a bid collections items =
     (let rows = somes (map (\<lambda>r. map_option (\<lambda>i. (r, i)) (in_scope a collections items r))
            (sort_key as_created (sort_key as_id (ar_assets a))))
      in map (\<lambda>(n, r, i). \<lparr>mb_batch = bid, mb_ordinal = int n, mb_asset = as_id r, mb_item = as_item r,
             mb_collection = im_collection i, mb_title = im_title i,
             mb_classification = tx ''unclassified'', mb_reason = None\<rparr>)
           (enumerate 0 rows))"

text \<open>\<open>INSERT OR IGNORE\<close> under the primary key and the uniqueness of the asset.\<close>

definition insert_member :: "member \<Rightarrow> member list \<Rightarrow> member list" where
  "insert_member m ms =
     (if list_ex (\<lambda>x. mb_batch x = mb_batch m
           \<and> (mb_ordinal x = mb_ordinal m \<or> mb_asset x = mb_asset m)) ms
      then ms else ms @ [m])"

definition prepare_scope_membership ::
  "archive \<Rightarrow> str \<Rightarrow> str list \<Rightarrow> str list \<Rightarrow> queue \<Rightarrow> queue_error + nat \<times> queue" where
  "prepare_scope_membership a bid collections items q =
     (if collections = [] \<and> items = [] then Inr (0, q)
      else
        let scope = scope_members a bid collections items;
            ms = fold insert_member scope (q_members q)
        in if scope \<noteq> [] \<and> find_batch bid q = None then Inl ConstraintFailed
           else Inr (length ms - length (q_members q), q\<lparr>q_members := ms\<rparr>))"

section \<open>One member\<close>

datatype text_dependency = AfterOcr | AfterCorrection

record member_work =
  mw_ordinal :: int
  mw_asset :: str
  mw_classification :: str
  mw_reason :: str
  mw_ocr :: "(str \<times> str) option"
  mw_correction :: "text_dependency option option"
  mw_embedding :: "(str \<times> text_dependency option) option"
  mw_extracts :: "(task_kind \<times> str \<times> text_dependency option) list"
  mw_summary :: "text_dependency option option"

definition correction_contract :: str where
  "correction_contract = tx ''ocr_correction:v1''"

definition summary_contract :: str where
  "summary_contract = tx ''summary:v1''"

definition ner_contract :: str where
  "ner_contract = tx ''ner:v1''"

definition triples_contract :: str where
  "triples_contract = tx ''triples:v1''"

definition schema_prefix :: str where
  "schema_prefix = tx ''schema_extract:v1:''"

text \<open>The OCR mode of a page, from the saved setting; \<open>to_lowercase\<close> on the five ASCII names it compares with.\<close>

definition resolve_batch_ocr_mode :: "archive \<Rightarrow> str" where
  "resolve_batch_ocr_mode a =
     (if to_ascii_lowercase (unwrap_or (tx ''local'') (get_setting (tx ''ocrh_mode'') a))
           \<in> {tx ''glm_ocr'', tx ''high'', tx ''auto''}
      then tx ''high'' else tx ''light'')"

definition ocr_task_contract :: "str \<Rightarrow> str" where
  "ocr_task_contract mode = tx ''ocr:'' @ mode"

text \<open>The OCR unit of a member with its note; a missing asset is an error.\<close>

definition plan_ocr ::
  "environment \<Rightarrow> archive \<Rightarrow> operations \<Rightarrow> str \<Rightarrow> str \<Rightarrow> queue_error + (str \<times> str) option \<times> str list" where
  "plan_ocr e a ops mode aid =
     (if \<not> op_ocr ops then Inr (None, [])
      else case decide_ocr e a aid of
          None \<Rightarrow> Inl AssetMissing
        | Some decision \<Rightarrow>
            (case (if decision = OcrAlreadyDone (tx ''native'') \<and> op_include_native ops
                   then OcrEligible else decision) of
               OcrEligible \<Rightarrow>
                 (case ocr_fingerprint a aid of
                    Some fingerprint \<Rightarrow> Inr (Some (fingerprint, ocr_task_contract mode), [tx ''ocr:admit''])
                  | None \<Rightarrow> Inr (None, [tx ''ocr:source_missing'']))
             | OcrAlreadyDone found \<Rightarrow> Inr (None, [tx ''ocr:already_done('' @ found @ tx '')''])
             | OcrUnsupportedType found \<Rightarrow> Inr (None, [tx ''ocr:unsupported('' @ found @ tx '')''])
             | OcrParentHasPages n \<Rightarrow> Inr (None, [tx ''ocr:parent_has_pages('' @ show_nat n @ tx '')''])))"

definition plan_correction ::
  "archive \<Rightarrow> operations \<Rightarrow> bool \<Rightarrow> str \<Rightarrow> text_dependency option option \<times> str list" where
  "plan_correction a ops ocr_open aid =
     (if \<not> op_correction ops then (None, [])
      else case decide_correction a aid of
          CorrectionEligible \<Rightarrow> (Some (if ocr_open then Some AfterOcr else None), [tx ''ocr_correction:admit''])
        | CorrectionDone \<Rightarrow> (None, [tx ''ocr_correction:already_done''])
        | CorrectionNoText \<Rightarrow>
            if ocr_open then (Some (Some AfterOcr), [tx ''ocr_correction:wait_for_ocr''])
            else (None, [tx ''ocr_correction:no_source_text'']))"

definition plan_embedding ::
  "environment \<Rightarrow> archive \<Rightarrow> operations \<Rightarrow> (int \<times> int option) option \<Rightarrow> text_dependency option \<Rightarrow>
   text_dependency option \<Rightarrow> str \<Rightarrow> queue_error + (str \<times> text_dependency option) option \<times> str list" where
  "plan_embedding e a ops revision text_wait text_rewrite aid =
     (if \<not> op_embeddings ops then Inr (None, [])
      else case decide_embedding e a revision aid of
          None \<Rightarrow> Inl SettingsError
        | Some (EmbeddingEligible _) \<Rightarrow>
            (case embedding_input_fingerprint e a aid of
               None \<Rightarrow> Inl SettingsError
             | Some fingerprint \<Rightarrow> Inr (Some (fingerprint, text_rewrite), [tx ''embeddings:admit'']))
        | Some EmbeddingFresh \<Rightarrow> Inr (None, [tx ''embeddings:fresh''])
        | Some EmbeddingNoText \<Rightarrow>
            if text_wait \<noteq> None then Inr (Some ([], text_wait), [tx ''embeddings:wait_for_ocr''])
            else Inr (None, [tx ''embeddings:no_source_text'']))"

text \<open>A text-derived unit by its verdict: whether it is admitted, behind what, and the note.\<close>

definition plan_derived ::
  "str \<Rightarrow> text_dependency option \<Rightarrow> text_dependency option \<Rightarrow> extraction_decision \<Rightarrow>
   text_dependency option option \<times> str" where
  "plan_derived name text_wait text_rewrite verdict =
     (case verdict of
        ExtractionEligible \<Rightarrow> (Some text_rewrite, name @ tx '':admit'')
      | ExtractionDone \<Rightarrow> (None, name @ tx '':already_done'')
      | ExtractionNoText \<Rightarrow>
          if text_wait \<noteq> None then (Some text_wait, name @ tx '':wait_for_ocr'')
          else (None, name @ tx '':no_source_text''))"

definition derived_verdicts ::
  "archive \<Rightarrow> operations \<Rightarrow> str \<Rightarrow> (task_kind \<times> str \<times> str \<times> extraction_decision) list" where
  "derived_verdicts a ops aid =
     (if op_ner ops then [(KNer, tx ''ner'', ner_contract, decide_ner a aid)] else [])
     @ (if op_triples ops then [(KTriples, tx ''triples'', triples_contract, decide_triples a aid)] else [])
     @ (case op_schema ops of None \<Rightarrow> []
        | Some schema \<Rightarrow> [(KSchemaExtract, tx ''schema_extract'', schema_prefix @ schema,
            decide_schema a aid schema)])"

definition classify_notes :: "bool \<Rightarrow> str list \<Rightarrow> str" where
  "classify_notes admitted notes =
     (if admitted then tx ''admitted''
      else if list_ex (starts_with (tx ''ocr:unsupported'')) notes then tx ''unsupported_type''
      else if list_ex (starts_with (tx ''ocr:parent_has_pages'')) notes then tx ''parent_has_pages''
      else if list_ex (ends_with (tx '':no_source_text'')) notes then tx ''no_source_text''
      else tx ''already_done'')"

definition revision_row :: "str \<Rightarrow> queue \<Rightarrow> (int \<times> int option) option" where
  "revision_row aid q =
     map_option (\<lambda>r. (rv_source r, rv_completed r)) (find (\<lambda>r. rv_asset r = aid) (q_revisions q))"

definition source_revision :: "str \<Rightarrow> queue \<Rightarrow> int" where
  "source_revision aid q = (case revision_row aid q of None \<Rightarrow> 0 | Some (n, _) \<Rightarrow> n)"

definition plan_member ::
  "environment \<Rightarrow> archive \<Rightarrow> queue \<Rightarrow> operations \<Rightarrow> str \<Rightarrow> int \<Rightarrow> str \<Rightarrow> queue_error + member_work" where
  "plan_member e a q ops mode ordinal aid =
     try_then (plan_ocr e a ops mode aid) (\<lambda>(ocr, notes1).
     let (correction, notes2) = plan_correction a ops (ocr \<noteq> None) aid;
         text_wait = (if correction \<noteq> None then Some AfterCorrection
                      else if ocr \<noteq> None then Some AfterOcr else None);
         text_rewrite = (if correction \<noteq> None then Some AfterCorrection else None)
     in try_then (plan_embedding e a ops (revision_row aid q) text_wait text_rewrite aid) (\<lambda>(embedding, notes3).
     let derived = map (\<lambda>(kind, name, contract, verdict).
              (kind, contract, plan_derived name text_wait text_rewrite verdict)) (derived_verdicts a ops aid);
         extracts = somes (map (\<lambda>(kind, contract, unit, _). map_option (\<lambda>d. (kind, contract, d)) unit) derived);
         notes4 = map (\<lambda>(_, _, _, note). note) derived;
         summary = (if op_summary ops
            then Some (plan_derived (tx ''summary'') text_wait text_rewrite (decide_summary a aid)) else None);
         notes = notes1 @ notes2 @ notes3 @ notes4 @ (case summary of None \<Rightarrow> [] | Some (_, note) \<Rightarrow> [note]);
         unit = Option.bind summary fst
     in Inr \<lparr>mw_ordinal = ordinal, mw_asset = aid,
          mw_classification = classify_notes (ocr \<noteq> None \<or> correction \<noteq> None \<or> embedding \<noteq> None
            \<or> unit \<noteq> None \<or> extracts \<noteq> []) notes,
          mw_reason = join (tx ''; '') notes, mw_ocr = ocr, mw_correction = correction,
          mw_embedding = embedding, mw_extracts = extracts, mw_summary = unit\<rparr>))"

section \<open>Admission of a page\<close>

record page_state =
  pg_queue :: queue
  pg_next :: nat
  pg_admitted :: nat

definition admit_unit ::
  "environment \<Rightarrow> archive \<Rightarrow> (nat \<Rightarrow> str) \<Rightarrow> int \<Rightarrow> str \<Rightarrow> str \<Rightarrow> task_kind \<Rightarrow> str \<Rightarrow> str \<Rightarrow> str option \<Rightarrow>
   page_state \<Rightarrow> queue_error + str \<times> page_state" where
  "admit_unit e a fresh now bid aid kind fingerprint contract dependency st =
     try_then (admit_subject_or_attach e a bid kind (corpus_asset aid)
         (source_revision aid (pg_queue st)) fingerprint contract dependency
         (fresh (pg_next st)) now (pg_queue st)) (\<lambda>(admitted, q).
     case admitted of
       None \<Rightarrow> Inl UnsupportedSubject
     | Some out \<Rightarrow> Inr (ao_task out, st\<lparr>pg_queue := q, pg_next := pg_next st + 1,
         pg_admitted := pg_admitted st + (if ao_created out then 1 else 0)\<rparr>))"

definition resolve_dependency :: "str option \<Rightarrow> str option \<Rightarrow> text_dependency option \<Rightarrow> str option" where
  "resolve_dependency ocr_id correction_id dependency =
     (case dependency of None \<Rightarrow> None | Some AfterOcr \<Rightarrow> ocr_id | Some AfterCorrection \<Rightarrow> correction_id)"

text \<open>A unit that may be absent.\<close>

definition admit_optional ::
  "('u \<Rightarrow> page_state \<Rightarrow> queue_error + str \<times> page_state) \<Rightarrow> 'u option \<Rightarrow> page_state \<Rightarrow>
   queue_error + str option \<times> page_state" where
  "admit_optional f unit st =
     (case unit of None \<Rightarrow> Inr (None, st)
      | Some u \<Rightarrow> map_sum id (\<lambda>(i, st1). (Some i, st1)) (f u st))"

fun admit_extracts ::
  "(task_kind \<times> str \<times> text_dependency option \<Rightarrow> page_state \<Rightarrow> queue_error + str \<times> page_state) \<Rightarrow>
   (task_kind \<times> str \<times> text_dependency option) list \<Rightarrow> page_state \<Rightarrow> queue_error + page_state" where
  "admit_extracts f [] st = Inr st"
| "admit_extracts f (u # us) st = try_then (f u st) (\<lambda>(_, st1). admit_extracts f us st1)"

definition classify_member :: "str \<Rightarrow> member_work \<Rightarrow> queue \<Rightarrow> queue" where
  "classify_member bid w q = q\<lparr>q_members := update_where
     (\<lambda>m. mb_batch m = bid \<and> mb_ordinal m = mw_ordinal w)
     (\<lambda>m. m\<lparr>mb_classification := mw_classification w, mb_reason := Some (mw_reason w)\<rparr>) (q_members q)\<rparr>"

text \<open>OCR first, then the correction, then the units that read the text they leave.\<close>

definition admit_member ::
  "environment \<Rightarrow> archive \<Rightarrow> (nat \<Rightarrow> str) \<Rightarrow> int \<Rightarrow> str \<Rightarrow> str \<Rightarrow> member_work \<Rightarrow> page_state \<Rightarrow>
   queue_error + page_state" where
  "admit_member e a fresh now bid embedding_hash w st0 =
     (let admit = admit_unit e a fresh now bid (mw_asset w) in
      try_then (admit_optional (\<lambda>(fingerprint, contract). admit KOcr fingerprint contract None) (mw_ocr w) st0)
        (\<lambda>(ocr_id, st1).
      try_then (admit_optional (\<lambda>dependency. admit KOcrCorrection [] correction_contract
           (case dependency of Some AfterOcr \<Rightarrow> ocr_id | _ \<Rightarrow> None)) (mw_correction w) st1)
        (\<lambda>(correction_id, st2).
      let resolve = resolve_dependency ocr_id correction_id in
      try_then (admit_optional (\<lambda>(fingerprint, dependency).
           admit KEmbedding fingerprint embedding_hash (resolve dependency)) (mw_embedding w) st2)
        (\<lambda>(_, st3).
      try_then (admit_extracts (\<lambda>(kind, contract, dependency). admit kind [] contract (resolve dependency))
           (mw_extracts w) st3) (\<lambda>st4.
      try_then (admit_optional (\<lambda>dependency. admit KSummary [] summary_contract (resolve dependency))
           (mw_summary w) st4) (\<lambda>(_, st5).
      Inr (st5\<lparr>pg_queue := classify_member bid w (pg_queue st5)\<rparr>)))))))"

fun admit_members ::
  "(member_work \<Rightarrow> page_state \<Rightarrow> queue_error + page_state) \<Rightarrow> member_work list \<Rightarrow> page_state \<Rightarrow>
   queue_error + page_state" where
  "admit_members f [] st = Inr st"
| "admit_members f (w # ws) st = try_then (f w st) (admit_members f ws)"

fun plan_members ::
  "(int \<Rightarrow> str \<Rightarrow> queue_error + member_work) \<Rightarrow> member list \<Rightarrow> queue_error + member_work list" where
  "plan_members f [] = Inr []"
| "plan_members f (m # ms) =
     try_then (f (mb_ordinal m) (mb_asset m)) (\<lambda>w. map_sum id ((#) w) (plan_members f ms))"

record page_outcome =
  po_processed :: nat
  po_admitted :: nat
  po_done :: bool

definition next_page :: "batch \<Rightarrow> nat \<Rightarrow> queue \<Rightarrow> member list" where
  "next_page b page_size q = take page_size (sort_key mb_ordinal
     (filter (\<lambda>m. mb_batch m = bt_id b \<and> bt_cursor b \<le> mb_ordinal m) (q_members q)))"

definition advance_cursor :: "str \<Rightarrow> int \<Rightarrow> queue \<Rightarrow> queue" where
  "advance_cursor bid n = map_batches (\<lambda>b. bt_id b = bid) (\<lambda>b. b\<lparr>bt_cursor := n\<rparr>)"

definition close_planning :: "str \<Rightarrow> queue \<Rightarrow> queue" where
  "close_planning bid = map_batches (\<lambda>b. bt_id b = bid) (\<lambda>b. b\<lparr>bt_planning_done := True\<rparr>)"

text \<open>The decisions are read first; the page then commits as a whole.\<close>

definition classify_page ::
  "environment \<Rightarrow> archive \<Rightarrow> (nat \<Rightarrow> str) \<Rightarrow> int \<Rightarrow> str \<Rightarrow> operations \<Rightarrow> member list \<Rightarrow> queue \<Rightarrow>
   queue_error + page_outcome \<times> queue" where
  "classify_page e a fresh now bid ops page q =
     try_then (plan_members (plan_member e a q ops (resolve_batch_ocr_mode a)) page) (\<lambda>works.
     case effective_contract e a of
       None \<Rightarrow> Inl SettingsError
     | Some c \<Rightarrow>
         try_then (admit_members (admit_member e a fresh now bid (ec_hash c)) works
             \<lparr>pg_queue = q, pg_next = 0, pg_admitted = 0\<rparr>) (\<lambda>st.
         Inr (\<lparr>po_processed = length works, po_admitted = pg_admitted st, po_done = False\<rparr>,
           advance_cursor bid (mw_ordinal (last works) + 1) (pg_queue st))))"

definition classify_batch_page ::
  "environment \<Rightarrow> archive \<Rightarrow> (nat \<Rightarrow> str) \<Rightarrow> int \<Rightarrow> str \<Rightarrow> nat \<Rightarrow> queue \<Rightarrow>
   queue_error + page_outcome \<times> queue" where
  "classify_batch_page e a fresh now bid page_size q =
     (case find_batch bid q of
        None \<Rightarrow> Inl RowMissing
      | Some b \<Rightarrow>
          if bt_planning_done b then Inr (\<lparr>po_processed = 0, po_admitted = 0, po_done = True\<rparr>, q)
          else if next_page b page_size q = []
          then Inr (\<lparr>po_processed = 0, po_admitted = 0, po_done = True\<rparr>, close_planning bid q)
          else classify_page e a fresh now bid (operations_of (bt_operations b))
            (next_page b page_size q) q)"

section \<open>Promotion\<close>

definition promote_prepared_batches :: "queue \<Rightarrow> queue" where
  "promote_prepared_batches =
     map_batches (\<lambda>b. bt_state b = BPreparing \<and> bt_planning_done b \<and> bt_desired b \<noteq> DCancel)
       (\<lambda>b. b\<lparr>bt_state := BReady\<rparr>)"

definition promote_ready_batches :: "queue \<Rightarrow> queue" where
  "promote_ready_batches =
     map_batches (\<lambda>b. bt_state b = BReady \<and> bt_planning_done b \<and> bt_desired b = DRun)
       (\<lambda>b. b\<lparr>bt_state := BRunning\<rparr>)"

definition promote_batches :: "queue \<Rightarrow> queue" where
  "promote_batches q = observe_paused_batches (promote_ready_batches (promote_prepared_batches q))"

text \<open>At most \<open>pages\<close> pages (at least one), until one reports that nothing is left.\<close>

fun classify_pages ::
  "(nat \<Rightarrow> queue \<Rightarrow> queue_error + page_outcome \<times> queue) \<Rightarrow> nat \<Rightarrow> queue \<Rightarrow> queue_error + queue" where
  "classify_pages f 0 q = Inr q"
| "classify_pages f (Suc n) q =
     try_then (f n q) (\<lambda>(out, q1). if po_done out then Inr q1 else classify_pages f n q1)"

definition advance_planning ::
  "environment \<Rightarrow> archive \<Rightarrow> (nat \<Rightarrow> nat \<Rightarrow> str) \<Rightarrow> int \<Rightarrow> str \<Rightarrow> nat \<Rightarrow> nat \<Rightarrow> queue \<Rightarrow>
   queue_error + bool \<times> queue" where
  "advance_planning e a fresh now bid max_pages page_size q =
     try_then (classify_pages (\<lambda>n. classify_batch_page e a (fresh n) now bid page_size) (max 1 max_pages) q)
       (\<lambda>q1.
     let q2 = promote_batches q1 in
     case find_batch bid q2 of
       None \<Rightarrow> Inl RowMissing | Some b \<Rightarrow> Inr (bt_planning_done b, q2))"

end
