(* ===== verification/QueueCommands.thy ===== *)
theory QueueCommands
  imports QueuePlan
begin

text \<open>
  The batch services behind the user's commands (\<open>processing/commands.rs\<close>): preparing a draft,
  starting it, controlling batches, retrying.

  The digest of a payload is the argument \<open>digest\<close>; the identifiers of the existing collections and
  schemas are arguments. Of the JSON response of a request the number it reports is kept.
\<close>

section \<open>Drafts\<close>

definition is_selectable_operation :: "str \<Rightarrow> bool" where
  "is_selectable_operation op \<longleftrightarrow>
     op \<in> {tx ''ocr'', tx ''embeddings'', tx ''ner'', tx ''triples'', tx ''ocr_correction'', tx ''summary''}
     \<or> (case strip_prefix (tx ''schema:'') op of None \<Rightarrow> False | Some i \<Rightarrow> i \<noteq> [])"

text \<open>\<open>sort\<close> and \<open>dedup\<close>.\<close>

definition sorted_dedup :: "str list \<Rightarrow> str list" where
  "sorted_dedup xs = remdups_adj (sort xs)"

definition selected_operations :: "str list \<Rightarrow> str list" where
  "selected_operations operations =
     (let ops = filter is_selectable_operation operations in
      sorted_dedup (if tx ''ocr'' \<in> set ops \<and> ocr_include_native \<in> set operations
        then ops @ [ocr_include_native] else ops))"

definition prepare_payload :: "str list \<Rightarrow> str list \<Rightarrow> str list \<Rightarrow> str list" where
  "prepare_payload scope items ops =
     [join (tx '','') scope, join (tx '','') ops]
     @ (if items = [] then [] else [tx ''items:'' @ join (tx '','') items])"

record prepare_response =
  pr_batch :: str
  pr_created :: bool
  pr_members :: nat

definition draft_batch :: "str \<Rightarrow> str \<Rightarrow> str list \<Rightarrow> int \<Rightarrow> batch" where
  "draft_batch bid request ops now =
     \<lparr>bt_id = bid, bt_request = request, bt_origin = OUser, bt_state = BPreparing,
      bt_desired = DPause, bt_operations = ops, bt_cursor = 0, bt_planning_done = False,
      bt_revision = 0, bt_priority = 0, bt_created = now\<rparr>"

text \<open>The identifier and the request of a batch are unique.\<close>

definition insert_batch :: "batch \<Rightarrow> queue \<Rightarrow> queue_error + queue" where
  "insert_batch b q =
     (if list_ex (\<lambda>x. bt_id x = bt_id b \<or> bt_request x = bt_request b) (q_batches q)
      then Inl ConstraintFailed else Inr (q\<lparr>q_batches := q_batches q @ [b]\<rparr>))"

definition replay_prepare :: "request \<Rightarrow> str \<Rightarrow> queue_error + prepare_response" where
  "replay_prepare previous payload =
     (if rq_payload previous \<noteq> payload then Inl InvalidSelection
      else (case rq_batch previous of
          None \<Rightarrow> Inl InvalidSelection
        | Some bid \<Rightarrow> Inr \<lparr>pr_batch = bid, pr_created = False, pr_members = rq_response previous\<rparr>))"

definition prepare_batch ::
  "archive \<Rightarrow> (str list \<Rightarrow> str) \<Rightarrow> str list \<Rightarrow> str list \<Rightarrow> str \<Rightarrow> int \<Rightarrow> str \<Rightarrow> str list \<Rightarrow> str list \<Rightarrow>
   str list \<Rightarrow> queue \<Rightarrow> queue_error + prepare_response \<times> queue" where
  "prepare_batch a digest collections schemas new_id now request collection_ids item_ids operations q =
     (let ops = selected_operations operations;
          scope = sorted_dedup collection_ids;
          items = sorted_dedup item_ids;
          payload = digest (prepare_payload scope items ops)
      in if trim request = [] \<or> collection_ids = [] \<and> item_ids = [] \<or> ops = [] then Inl InvalidSelection
         else (case find_request request q of
             Some previous \<Rightarrow> map_sum id (\<lambda>r. (r, q)) (replay_prepare previous payload)
           | None \<Rightarrow>
               if \<not> set scope \<subseteq> set collections \<or> \<not> set items \<subseteq> set (map im_id (ar_items a))
                 \<or> \<not> set (somes (map (strip_prefix (tx ''schema:'')) ops)) \<subseteq> set schemas
               then Inl InvalidSelection
               else
                 try_then (insert_batch (draft_batch new_id request ops now) q) (\<lambda>q1.
                 try_then (prepare_scope_membership a new_id scope items q1) (\<lambda>(members, q2).
                 let q3 = (if members = 0 then close_planning new_id q2 else q2) in
                 map_sum id (\<lambda>q4. (\<lparr>pr_batch = new_id, pr_created = True, pr_members = members\<rparr>, q4))
                   (record_request \<lparr>rq_id = request, rq_action = tx ''prepare'', rq_batch = Some new_id,
                      rq_payload = payload, rq_response = members\<rparr> q3)))))"

definition start_batch :: "str \<Rightarrow> int option \<Rightarrow> queue \<Rightarrow> queue_error + queue" where
  "start_batch bid expected q =
     (case find_batch bid q of
        None \<Rightarrow> Inl InvalidSelection
      | Some b \<Rightarrow>
          if \<not> check_revision b expected then Inl RevisionConflict
          else if bt_state b \<noteq> BReady then Inl InvalidTransition
          else Inr (map_batches (\<lambda>x. bt_id x = bid \<and> bt_state x = BReady \<and> bt_revision x = bt_revision b)
            (\<lambda>x. x\<lparr>bt_desired := DRun, bt_revision := bt_revision x + 1\<rparr>) q))"

section \<open>Control of one or of all batches\<close>

text \<open>Cancelling everything and a revision for everything are refused.\<close>

definition control_targets :: "str option \<Rightarrow> batch_action \<Rightarrow> int option \<Rightarrow> queue \<Rightarrow> queue_error + str list" where
  "control_targets target action expected q =
     (case target of
        Some bid \<Rightarrow> Inr [bid]
      | None \<Rightarrow>
          if action = ACancel \<or> expected \<noteq> None then Inl InvalidSelection
          else Inr (map bt_id (filter (\<lambda>b. \<not> is_terminal_batch (bt_state b)) (q_batches q))))"

fun control_all :: "batch_action \<Rightarrow> int option \<Rightarrow> str list \<Rightarrow> queue \<Rightarrow> queue_error option \<times> queue" where
  "control_all action expected [] q = (None, q)"
| "control_all action expected (bid # rest) q =
     (case control_batch bid action expected q of
        Inl err \<Rightarrow> (Some err, q) | Inr q1 \<Rightarrow> control_all action expected rest q1)"

definition control_batches ::
  "str option \<Rightarrow> batch_action \<Rightarrow> int option \<Rightarrow> queue \<Rightarrow> queue_error option \<times> queue" where
  "control_batches target action expected q =
     (case control_targets target action expected q of
        Inl err \<Rightarrow> (Some err, q) | Inr targets \<Rightarrow> control_all action expected targets q)"

section \<open>Retry\<close>

definition retry_batch ::
  "(str list \<Rightarrow> str) \<Rightarrow> str \<Rightarrow> str \<Rightarrow> str option \<Rightarrow> bool \<Rightarrow> queue \<Rightarrow> (queue_error + nat) \<times> queue" where
  "retry_batch digest request bid single failed_only q =
     (let payload = digest [bid, unwrap_or [] single,
            (if failed_only then tx ''failed'' else tx ''single'')]
      in if trim request = [] \<or> single = None \<and> \<not> failed_only then (Inl InvalidSelection, q)
         else (case find_request request q of
             Some previous \<Rightarrow>
               (if rq_payload previous \<noteq> payload then Inl InvalidSelection else Inr (rq_response previous), q)
           | None \<Rightarrow>
               (case retry_failed bid single q of
                  (Inl err, q1) \<Rightarrow> (Inl err, q1)
                | (Inr n, q1) \<Rightarrow>
                    (case record_request \<lparr>rq_id = request, rq_action = tx ''retry'', rq_batch = Some bid,
                        rq_payload = payload, rq_response = n\<rparr> q1 of
                       Inl err \<Rightarrow> (Inl err, q1) | Inr q2 \<Rightarrow> (Inr n, q2)))))"

end
