(* ===== verification/Json.thy ===== *)
theory Json
  imports Prelude Complex_Main
begin

text \<open>
  JSON values as \<open>serde_json::Value\<close> holds them. \<open>Map<String, Value>\<close> is a \<open>BTreeMap\<close>
  in this build (the \<open>preserve_order\<close> feature is off in \<open>Cargo.lock\<close>), so an object is an
  association list kept in ascending key order: lookup, insertion and removal are the map
  operations, and iteration visits the keys in order. A number is an unsigned integer, a
  negative integer or a finite double; a finite double is a rational, and the equality of
  finite doubles is the equality of those rationals.

  The interface the rest of the development relies on is the locale \<open>object_map\<close>: what a
  lookup returns after an insertion and a removal. The lemmas on folds of insertions and
  removals are proved once against it and reach the model through the interpretation
  \<open>obj\<close>.
\<close>

section \<open>Values\<close>

datatype jnum = PosInt nat | NegInt int | Float rat

datatype json =
    JNull
  | JBool bool
  | JNumber jnum
  | JString str
  | JArray "json list"
  | JObject "(str \<times> json) list"

type_synonym jmap = "(str \<times> json) list"

fun as_str :: "json \<Rightarrow> str option" where
  "as_str (JString s) = Some s"
| "as_str _ = None"

fun as_object :: "json \<Rightarrow> jmap option" where
  "as_object (JObject m) = Some m"
| "as_object _ = None"

fun as_array :: "json \<Rightarrow> json list option" where
  "as_array (JArray xs) = Some xs"
| "as_array _ = None"

text \<open>\<open>Number::as_i64\<close>, \<open>as_u64\<close> and \<open>as_f64\<close>.\<close>

fun num_as_i64 :: "jnum \<Rightarrow> int option" where
  "num_as_i64 (PosInt n) = (if int n \<le> i64_max then Some (int n) else None)"
| "num_as_i64 (NegInt i) = Some i"
| "num_as_i64 (Float _) = None"

fun num_as_u64 :: "jnum \<Rightarrow> nat option" where
  "num_as_u64 (PosInt n) = Some n"
| "num_as_u64 (NegInt _) = None"
| "num_as_u64 (Float _) = None"

definition json_of_int :: "int \<Rightarrow> json" where
  "json_of_int i = JNumber (if 0 \<le> i then PosInt (nat i) else NegInt i)"

section \<open>Objects\<close>

text \<open>
  The operations are polymorphic in the values: the same ordered map keeps the rows of a table
  by their key.
\<close>

definition jget :: "(str \<times> 'v) list \<Rightarrow> str \<Rightarrow> 'v option" where
  "jget m k = map_of m k"

fun jinsert :: "str \<Rightarrow> 'v \<Rightarrow> (str \<times> 'v) list \<Rightarrow> (str \<times> 'v) list" where
  "jinsert k v [] = [(k, v)]"
| "jinsert k v ((a, b) # m) =
     (if k < a then (k, v) # (a, b) # m
      else if k = a then (k, v) # m
      else (a, b) # jinsert k v m)"

definition jremove :: "str \<Rightarrow> (str \<times> 'v) list \<Rightarrow> (str \<times> 'v) list" where
  "jremove k m = filter (\<lambda>p. fst p \<noteq> k) m"

definition jkeys :: "(str \<times> 'v) list \<Rightarrow> str list" where
  "jkeys m = map fst m"

definition jcontains :: "(str \<times> 'v) list \<Rightarrow> str \<Rightarrow> bool" where
  "jcontains m k \<longleftrightarrow> jget m k \<noteq> None"

text \<open>The order a \<open>BTreeMap\<close> keeps: strictly ascending keys.\<close>

definition ordered :: "(str \<times> 'v) list \<Rightarrow> bool" where
  "ordered m \<longleftrightarrow> sorted_wrt (<) (map fst m)"

section \<open>The interface of an object map\<close>

lemma map_of_rev_distinct: "distinct (map fst xs) \<Longrightarrow> map_of (rev xs) = map_of xs"
proof (induction xs)
  case Nil
  then show ?case by simp
next
  case (Cons p xs)
  obtain a b where p: "p = (a, b)" by (cases p)
  with Cons.prems have "map_of xs a = None" by (simp add: map_of_eq_None_iff)
  with Cons p show ?case by (auto simp: map_add_def fun_eq_iff split: option.splits)
qed

locale object_map =
  fixes lookup :: "'m \<Rightarrow> 'k \<Rightarrow> 'v option"
    and insert_at :: "'k \<Rightarrow> 'v \<Rightarrow> 'm \<Rightarrow> 'm"
    and remove_at :: "'k \<Rightarrow> 'm \<Rightarrow> 'm"
    and key_list :: "'m \<Rightarrow> 'k list"
  assumes lookup_insert: "lookup (insert_at k v m) = (lookup m)(k \<mapsto> v)"
    and lookup_remove: "lookup (remove_at k m) = (lookup m)(k := None)"
    and key_list_dom: "set (key_list m) = dom (lookup m)"
begin

lemma lookup_insert_same [simp]: "lookup (insert_at k v m) k = Some v"
  by (simp add: lookup_insert)

lemma lookup_insert_other: "j \<noteq> k \<Longrightarrow> lookup (insert_at k v m) j = lookup m j"
  by (simp add: lookup_insert)

lemma mem_key_list: "k \<in> set (key_list m) \<longleftrightarrow> lookup m k \<noteq> None"
  by (auto simp: key_list_dom)

lemma lookup_fold_insert:
  "lookup (fold (\<lambda>(k, v) m. insert_at k v m) kvs m) =
     lookup m ++ map_of (rev kvs)"
proof (induction kvs arbitrary: m)
  case Nil
  then show ?case by simp
next
  case (Cons kv kvs)
  then show ?case
    by (cases kv) (auto simp: lookup_insert map_add_def fun_eq_iff split: option.splits)
qed

lemma lookup_fold_insert_distinct:
  assumes "distinct (map fst kvs)"
  shows "lookup (fold (\<lambda>(k, v) m. insert_at k v m) kvs m) k =
     (case map_of kvs k of Some v \<Rightarrow> Some v | None \<Rightarrow> lookup m k)"
proof -
  have "map_of (rev kvs) = map_of kvs"
    using assms by (rule map_of_rev_distinct)
  then show ?thesis
    by (simp add: lookup_fold_insert map_add_def)
qed

lemma lookup_fold_remove:
  "lookup (fold remove_at ks m) k = (if k \<in> set ks then None else lookup m k)"
  by (induction ks arbitrary: m) (auto simp: lookup_remove)

end

lemma jget_jinsert: "jget (jinsert k v m) = (jget m)(k \<mapsto> v)"
  unfolding jget_def by (induction m) auto

lemma jget_jremove: "jget (jremove k m) = (jget m)(k := None)"
  unfolding jget_def jremove_def by (induction m) auto

lemma jkeys_dom: "set (jkeys m) = dom (jget m)"
  by (force simp: jkeys_def jget_def dom_def map_of_eq_None_iff)

interpretation obj: object_map jget jinsert jremove jkeys
  by unfold_locales (simp_all add: jget_jinsert jget_jremove jkeys_dom)

lemma jget_jinsert_iff: "jget (jinsert k v m) j = (if j = k then Some v else jget m j)"
  by (simp add: jget_jinsert)

lemma jget_jremove_iff: "jget (jremove k m) j = (if j = k then None else jget m j)"
  by (simp add: jget_jremove)

lemma jget_Nil [simp]: "jget [] k = None"
  by (simp add: jget_def)

lemma set_jinsert_keys: "set (map fst (jinsert k v m)) = insert k (set (map fst m))"
  by (induction k v m rule: jinsert.induct) auto

lemma ordered_jinsert: "ordered m \<Longrightarrow> ordered (jinsert k v m)"
  unfolding ordered_def
proof (induction m)
  case Nil
  then show ?case by simp
next
  case (Cons p m)
  obtain a b where p: "p = (a, b)" by (cases p)
  have "sorted_wrt (<) (map fst (jinsert k v m))" using Cons by simp
  moreover have "x \<in> set (map fst (jinsert k v m)) \<Longrightarrow> a < k \<Longrightarrow> a < x" for x
    unfolding set_jinsert_keys using Cons.prems p by auto
  ultimately show ?case
    using Cons.prems p by (auto dest: order.strict_trans)
qed

lemma ordered_jremove: "ordered m \<Longrightarrow> ordered (jremove k m)"
  unfolding ordered_def jremove_def by (induction m) auto

lemma ordered_distinct: "ordered m \<Longrightarrow> distinct (map fst m)"
  unfolding ordered_def by (simp add: strict_sorted_iff)

end
