(* ===== verification/CorpusItems.thy ===== *)
theory CorpusItems
  imports Json QueueArchive
begin

text \<open>
  The corpus services (\<open>apps/desktop/src-tauri/src/corpus/commands.rs\<close>): collections and items, their
  revisions, the reserved metadata of an item, and the replacement of the text of a page.

  A table is the list of its rows. The clock, fresh identifiers, the digest \<open>sha\<close>, the JSON parser and
  printer and the success of the refresh of the search index are arguments. A service that reads,
  decides and then writes in a transaction takes the argument \<open>others\<close>: what other connections
  commit between its read and its transaction. A statement or a COMMIT that fails is \<open>indexed = False\<close>
  and is taken to leave the tables as they were; the code omits the ROLLBACK after a failed COMMIT,
  which only ends with the connection.
\<close>

section \<open>Tables\<close>

record collection_row =
  cc_id :: str
  cc_name :: str
  cc_description :: "str option"
  cc_created :: int
  cc_updated :: int

record citem =
  ci_id :: str
  ci_title :: str
  ci_collection :: str
  ci_metadata :: "str option"
  ci_created :: int
  ci_updated :: int

record note_row =
  nt_id :: str
  nt_item :: str

record mark_row =
  mk_id :: str
  mk_asset :: str

record backup_row =
  bk_asset :: str
  bk_text :: str
  bk_created :: int

record corpus =
  ks_collections :: "collection_row list"
  ks_items :: "citem list"
  ks_assets :: "asset_row list"
  ks_extractions :: "text_row list"
  ks_transcriptions :: "text_row list"
  ks_layouts :: "mark_row list"
  ks_annotations :: "mark_row list"
  ks_chunks :: "chunk_row list"
  ks_notes :: "note_row list"
  ks_results :: "result_row list"
  ks_entities :: "entity_row list"
  ks_triples :: "entity_row list"
  ks_vectors :: "(str \<times> vector_row) list"
  ks_backups :: "backup_row list"

text \<open>The archive the processing queue reads is these tables and the others of \<open>base\<close>.\<close>

definition archive_item :: "citem \<Rightarrow> item_row" where
  "archive_item i = \<lparr>im_id = ci_id i, im_collection = ci_collection i, im_title = ci_title i\<rparr>"

definition archive_of :: "archive \<Rightarrow> corpus \<Rightarrow> archive" where
  "archive_of base c = base\<lparr>ar_assets := ks_assets c, ar_items := map archive_item (ks_items c),
     ar_extractions := ks_extractions c, ar_transcriptions := ks_transcriptions c,
     ar_vectors := map snd (ks_vectors c), ar_chunks := ks_chunks c, ar_results := ks_results c,
     ar_entities := ks_entities c, ar_triples := ks_triples c\<rparr>"

datatype corpus_error = CeInvalid | CeNotFound | CeConflict | CeUnavailable

definition find_collection :: "str \<Rightarrow> corpus \<Rightarrow> collection_row option" where
  "find_collection cid c = find (\<lambda>x. cc_id x = cid) (ks_collections c)"

definition find_item :: "str \<Rightarrow> corpus \<Rightarrow> citem option" where
  "find_item iid c = find (\<lambda>x. ci_id x = iid) (ks_items c)"

section \<open>Checks\<close>

definition collection_name_max_chars :: nat where
  "collection_name_max_chars = 200"

definition collection_description_max_chars :: nat where
  "collection_description_max_chars = 2000"

definition item_title_max_chars :: nat where
  "item_title_max_chars = 500"

definition item_metadata_max_fields :: nat where
  "item_metadata_max_fields = 100"

definition max_page_text_chars :: nat where
  "max_page_text_chars = 200000"

definition reserved_metadata_prefix :: str where
  "reserved_metadata_prefix = tx ''__entropia_''"

definition next_revision :: "int \<Rightarrow> int \<Rightarrow> int" where
  "next_revision now current = max now (current + 1)"

definition clean_text :: "str \<Rightarrow> nat \<Rightarrow> bool \<Rightarrow> corpus_error + str" where
  "clean_text raw max_chars allow_newlines =
     (let t = trim raw in
      if t = [] \<or> length t > max_chars then Inl CeInvalid
      else if list_ex (\<lambda>ch. is_control ch \<and> \<not> (allow_newlines \<and> (ch = 10 \<or> ch = 9))) t then Inl CeInvalid
      else Inr t)"

definition clean_description :: "str option \<Rightarrow> corpus_error + str option" where
  "clean_description raw =
     (case map_option trim raw of
        None \<Rightarrow> Inr None
      | Some t \<Rightarrow> if t = [] then Inr None
          else map_sum id Some (clean_text t collection_description_max_chars True))"

definition check_revision_at :: "int \<Rightarrow> int option \<Rightarrow> bool" where
  "check_revision_at current expected \<longleftrightarrow> (case expected of None \<Rightarrow> True | Some n \<Rightarrow> n = current)"

text \<open>\<open>transpose\<close> of an optional check.\<close>

definition opt_check :: "('a \<Rightarrow> 'e + 'b) \<Rightarrow> 'a option \<Rightarrow> 'e + 'b option" where
  "opt_check f v = (case v of None \<Rightarrow> Inr None | Some x \<Rightarrow> map_sum id Some (f x))"

section \<open>Collections\<close>

definition insert_collection :: "collection_row \<Rightarrow> corpus \<Rightarrow> corpus_error + corpus" where
  "insert_collection x c =
     (if find_collection (cc_id x) c \<noteq> None then Inl CeUnavailable
      else Inr (c\<lparr>ks_collections := ks_collections c @ [x]\<rparr>))"

definition create_collection ::
  "int \<Rightarrow> str \<Rightarrow> str \<Rightarrow> str option \<Rightarrow> str option \<Rightarrow> corpus \<Rightarrow> corpus_error + collection_row \<times> corpus" where
  "create_collection now minted name description wanted c =
     try_then (clean_text name collection_name_max_chars False) (\<lambda>name1.
     try_then (clean_description description) (\<lambda>description1.
     try_then (case map_option trim wanted of
         None \<Rightarrow> Inr minted
       | Some cid \<Rightarrow> if cid = [] \<or> find_collection cid c \<noteq> None then Inl CeInvalid else Inr cid) (\<lambda>cid.
     let x = \<lparr>cc_id = cid, cc_name = name1, cc_description = description1, cc_created = now, cc_updated = now\<rparr>
     in map_sum id (Pair x) (insert_collection x c))))"

record collection_patch =
  cq_name :: "str option"
  cq_description :: "str option option"

definition update_collection ::
  "int \<Rightarrow> (corpus \<Rightarrow> corpus) \<Rightarrow> str \<Rightarrow> collection_patch \<Rightarrow> int option \<Rightarrow> corpus \<Rightarrow>
   (corpus_error + collection_row) \<times> corpus" where
  "update_collection now others cid p expected c =
     (case (if cq_name p = None \<and> cq_description p = None then Inl CeInvalid
            else try_then (opt_check (\<lambda>n. clean_text n collection_name_max_chars False) (cq_name p)) (\<lambda>name.
                 try_then (opt_check clean_description (cq_description p)) (\<lambda>description.
                 (case find_collection cid c of
                    None \<Rightarrow> Inl CeNotFound
                  | Some cur \<Rightarrow>
                      if \<not> check_revision_at (cc_updated cur) expected then Inl CeConflict
                      else Inr (cc_updated cur, cur\<lparr>cc_name := unwrap_or (cc_name cur) name,
                        cc_description := unwrap_or (cc_description cur) description,
                        cc_updated := next_revision now (cc_updated cur)\<rparr>))))) of
        Inl err \<Rightarrow> (Inl err, c)
      | Inr (seen, x) \<Rightarrow>
          (let c1 = others c; hit = (\<lambda>y. cc_id y = cid \<and> cc_updated y = seen) in
           if list_ex hit (ks_collections c1)
           then (Inr x, c1\<lparr>ks_collections := map (\<lambda>y. if hit y then y\<lparr>cc_name := cc_name x,
                    cc_description := cc_description x, cc_updated := cc_updated x\<rparr> else y) (ks_collections c1)\<rparr>)
           else (Inl CeConflict, c1)))"

section \<open>Items\<close>

record codec =
  cx_parse :: "str \<Rightarrow> json option"
  cx_show :: "jmap \<Rightarrow> str"

definition is_reserved :: "str \<Rightarrow> bool" where
  "is_reserved k \<longleftrightarrow> starts_with reserved_metadata_prefix k"

text \<open>The object a stored metadata text holds, or the empty object.\<close>

definition stored_object :: "codec \<Rightarrow> str option \<Rightarrow> jmap" where
  "stored_object cx current =
     unwrap_or [] (Option.bind (Option.bind current (cx_parse cx)) as_object)"

fun merge_fields :: "(str \<times> str) list \<Rightarrow> jmap \<Rightarrow> corpus_error + jmap" where
  "merge_fields [] merged = Inr merged"
| "merge_fields ((k, v) # kvs) merged =
     (let key = trim k in
      if key = [] \<or> list_ex is_control key \<or> is_reserved key then Inl CeInvalid
      else merge_fields kvs (jinsert key (JString v) merged))"

definition keep_reserved :: "jmap \<Rightarrow> jmap \<Rightarrow> jmap" where
  "keep_reserved stored merged =
     fold (\<lambda>(k, v) m. jinsert k v m) (filter (\<lambda>(k, v). is_reserved k \<and> as_object v \<noteq> None) stored) merged"

definition merged_metadata :: "codec \<Rightarrow> str option \<Rightarrow> (str \<times> str) list \<Rightarrow> corpus_error + str" where
  "merged_metadata cx current given =
     (if length given > item_metadata_max_fields then Inl CeInvalid
      else map_sum id (\<lambda>m. cx_show cx (keep_reserved (stored_object cx current) m)) (merge_fields given []))"

record item_patch =
  iq_title :: "str option"
  iq_metadata :: "(str \<times> str) list option"
  iq_json :: "str option"

definition is_json_object :: "codec \<Rightarrow> str \<Rightarrow> bool" where
  "is_json_object cx t \<longleftrightarrow> Option.bind (cx_parse cx t) as_object \<noteq> None"

definition next_metadata :: "codec \<Rightarrow> item_patch \<Rightarrow> citem \<Rightarrow> corpus_error + str option" where
  "next_metadata cx p cur =
     (case (iq_metadata p, iq_json p) of
        (Some given, _) \<Rightarrow> map_sum id Some (merged_metadata cx (ci_metadata cur) given)
      | (None, Some t) \<Rightarrow> Inr (Some t)
      | (None, None) \<Rightarrow> Inr (ci_metadata cur))"

text \<open>What \<open>update_item\<close> decides before its transaction: the revision it saw and the new row.\<close>

definition plan_item_update ::
  "codec \<Rightarrow> int \<Rightarrow> str \<Rightarrow> item_patch \<Rightarrow> int option \<Rightarrow> corpus \<Rightarrow> corpus_error + int \<times> citem" where
  "plan_item_update cx now iid p expected c =
     (if iq_title p = None \<and> iq_metadata p = None \<and> iq_json p = None then Inl CeInvalid
      else if iq_metadata p \<noteq> None \<and> iq_json p \<noteq> None then Inl CeInvalid
      else if \<not> (case iq_json p of None \<Rightarrow> True | Some t \<Rightarrow> is_json_object cx t) then Inl CeInvalid
      else try_then (opt_check (\<lambda>t. clean_text t item_title_max_chars False) (iq_title p)) (\<lambda>title.
        (case find_item iid c of
           None \<Rightarrow> Inl CeNotFound
         | Some cur \<Rightarrow>
             if \<not> check_revision_at (ci_updated cur) expected then Inl CeConflict
             else try_then (next_metadata cx p cur) (\<lambda>metadata.
               Inr (ci_updated cur, cur\<lparr>ci_title := unwrap_or (ci_title cur) title, ci_metadata := metadata,
                 ci_updated := next_revision now (ci_updated cur)\<rparr>)))))"

definition write_item :: "str \<Rightarrow> int \<Rightarrow> citem \<Rightarrow> corpus \<Rightarrow> corpus" where
  "write_item iid seen x c = c\<lparr>ks_items := map (\<lambda>y. if ci_id y = iid \<and> ci_updated y = seen
     then y\<lparr>ci_title := ci_title x, ci_metadata := ci_metadata x, ci_updated := ci_updated x\<rparr> else y) (ks_items c)\<rparr>"

definition update_item ::
  "codec \<Rightarrow> int \<Rightarrow> bool \<Rightarrow> (corpus \<Rightarrow> corpus) \<Rightarrow> str \<Rightarrow> item_patch \<Rightarrow> int option \<Rightarrow> corpus \<Rightarrow>
   (corpus_error + citem) \<times> corpus" where
  "update_item cx now indexed others iid p expected c =
     (case plan_item_update cx now iid p expected c of
        Inl err \<Rightarrow> (Inl err, c)
      | Inr (seen, x) \<Rightarrow>
          (let c1 = others c in
           if \<not> list_ex (\<lambda>y. ci_id y = iid \<and> ci_updated y = seen) (ks_items c1) then (Inl CeConflict, c1)
           else if \<not> indexed then (Inl CeUnavailable, c1)
           else (Inr x, write_item iid seen x c1)))"

section \<open>The text of a page\<close>

record replaced_text =
  rt_item :: str
  rt_collection :: str
  rt_asset :: str
  rt_hash :: str

text \<open>\<open>ORDER BY created_at DESC, id DESC LIMIT 1\<close> over the extractions of an asset.\<close>

definition later_text :: "text_row \<Rightarrow> text_row \<Rightarrow> bool" where
  "later_text x y \<longleftrightarrow> tr_created x > tr_created y \<or> tr_created x = tr_created y \<and> tr_id x > tr_id y"

fun latest_text :: "text_row list \<Rightarrow> text_row option" where
  "latest_text [] = None"
| "latest_text (x # xs) = (case latest_text xs of None \<Rightarrow> Some x | Some y \<Rightarrow> Some (if later_text y x then y else x))"

definition page_text :: "str \<Rightarrow> corpus \<Rightarrow> text_row option" where
  "page_text aid c = latest_text (filter (\<lambda>t. tr_asset t = aid) (ks_extractions c))"

text \<open>The join of an asset with its item.\<close>

definition page_owner :: "str \<Rightarrow> corpus \<Rightarrow> (str \<times> str) option" where
  "page_owner aid c =
     Option.bind (find (\<lambda>a. as_id a = aid) (ks_assets c)) (\<lambda>a.
       map_option (\<lambda>i. (as_item a, ci_collection i)) (find_item (as_item a) c))"

definition keep_original :: "str \<Rightarrow> str \<Rightarrow> int \<Rightarrow> corpus \<Rightarrow> corpus" where
  "keep_original aid text now c =
     (if list_ex (\<lambda>b. bk_asset b = aid) (ks_backups c) then c
      else c\<lparr>ks_backups := ks_backups c @ [\<lparr>bk_asset = aid, bk_text = text, bk_created = now\<rparr>]\<rparr>)"

definition write_text :: "str \<Rightarrow> str \<Rightarrow> corpus \<Rightarrow> corpus" where
  "write_text eid text c =
     c\<lparr>ks_extractions := map (\<lambda>t. if tr_id t = eid then t\<lparr>tr_text := text\<rparr> else t) (ks_extractions c)\<rparr>"

definition replace_page_text ::
  "(str \<Rightarrow> str) \<Rightarrow> int \<Rightarrow> bool \<Rightarrow> (corpus \<Rightarrow> corpus) \<Rightarrow> str \<Rightarrow> str \<Rightarrow> str \<Rightarrow> corpus \<Rightarrow>
   (corpus_error + replaced_text) \<times> corpus" where
  "replace_page_text sha now indexed others aid expected text c =
     (if trim text = [] \<or> length text > max_page_text_chars then (Inl CeInvalid, c)
      else (case page_owner aid c of
          None \<Rightarrow> (Inl CeNotFound, c)
        | Some (item, collection) \<Rightarrow>
            (let c1 = others c in
             case opt_filter (\<lambda>t. trim (tr_text t) \<noteq> []) (page_text aid c1) of
               None \<Rightarrow> (Inl CeInvalid, c1)
             | Some t \<Rightarrow>
                 if sha (tr_text t) \<noteq> expected then (Inl CeConflict, c1)
                 else if tr_text t = text then (Inl CeInvalid, c1)
                 else if \<not> indexed then (Inl CeUnavailable, c1)
                 else (Inr \<lparr>rt_item = item, rt_collection = collection, rt_asset = aid, rt_hash = sha text\<rparr>,
                   write_text (tr_id t) text (keep_original aid (tr_text t) now c1)))))"

text \<open>\<open>reindex_item\<close>; only its answer is modelled.\<close>

definition reindex_item :: "bool \<Rightarrow> str \<Rightarrow> corpus \<Rightarrow> corpus_error option" where
  "reindex_item indexed iid c =
     (if find_item iid c = None then Some CeNotFound else if indexed then None else Some CeUnavailable)"

end
