(* ===== verification/CorpusDelete.thy ===== *)
theory CorpusDelete
  imports CorpusItems
begin

text \<open>
  Deleting items and collections (\<open>apps/desktop/src-tauri/src/corpus/delete.rs\<close>): the checks, the
  impact a dialog shows, the fence of an approved delete, and the rows that go.

  The digest is the argument \<open>sha\<close>; whether the commit succeeds is the argument \<open>committed\<close>. Foreign keys
  are enforced on every connection, so deleting an asset takes its child pages and the rows that
  name it. Tables that only follow by a cascade and that no other part of the model reads are left
  out, and so is the search index.
\<close>

datatype delete_scope = DsItems "str list" | DsCollection str

record delete_impact =
  di_documents :: nat
  di_pages :: nat
  di_notes :: nat
  di_annotations :: nat
  di_with_text :: nat

record asset_file =
  af_id :: str
  af_path :: str
  af_kind :: str
  af_parent :: "str option"

record delete_outcome =
  do_folders :: "(str \<times> str) list"
  do_collections :: "str list"
  do_files :: "asset_file list"
  do_remaining :: "str list"

section \<open>Reading the scope\<close>

definition normalized_item_ids :: "str list \<Rightarrow> corpus_error + str list" where
  "normalized_item_ids ids =
     (if ids = [] \<or> list_ex (\<lambda>i. trim i = []) ids then Inl CeInvalid else Inr (rev (remdups (rev ids))))"

definition read_item_owners :: "str list \<Rightarrow> corpus \<Rightarrow> corpus_error + (str \<times> str) list" where
  "read_item_owners ids c =
     (let rows = filter (\<lambda>i. ci_id i \<in> set ids) (ks_items c) in
      if list_all (\<lambda>i. i \<in> ci_id ` set rows) ids
      then Inr (map (\<lambda>i. (ci_id i, ci_collection i)) rows) else Inl CeNotFound)"

definition collection_item_ids :: "str \<Rightarrow> corpus \<Rightarrow> str list" where
  "collection_item_ids cid c = sort (map ci_id (filter (\<lambda>i. ci_collection i = cid) (ks_items c)))"

definition read_collection_item_ids :: "str \<Rightarrow> corpus \<Rightarrow> corpus_error + str list" where
  "read_collection_item_ids cid c =
     (if find_collection cid c = None then Inl CeNotFound else Inr (collection_item_ids cid c))"

definition assets_of_items :: "str list \<Rightarrow> corpus \<Rightarrow> asset_row list" where
  "assets_of_items ids c = filter (\<lambda>a. as_item a \<in> set ids) (ks_assets c)"

definition read_asset_files :: "str list \<Rightarrow> corpus \<Rightarrow> asset_file list" where
  "read_asset_files ids c =
     map (\<lambda>a. \<lparr>af_id = as_id a, af_path = as_path a, af_kind = as_type a, af_parent = as_parent a\<rparr>)
       (sort_key as_id (assets_of_items ids c))"

definition read_scope_item_ids :: "delete_scope \<Rightarrow> corpus \<Rightarrow> corpus_error + str list" where
  "read_scope_item_ids scope c =
     (case scope of
        DsItems ids \<Rightarrow> try_then (normalized_item_ids ids) (\<lambda>unique.
          map_sum id (\<lambda>_. unique) (read_item_owners unique c))
      | DsCollection cid \<Rightarrow> read_collection_item_ids cid c)"

definition asset_ids_of :: "str list \<Rightarrow> corpus \<Rightarrow> str set" where
  "asset_ids_of ids c = as_id ` set (assets_of_items ids c)"

definition delete_impact :: "delete_scope \<Rightarrow> corpus \<Rightarrow> corpus_error + delete_impact" where
  "delete_impact scope c =
     map_sum id (\<lambda>ids.
       \<lparr>di_documents = length ids,
        di_pages = length (assets_of_items ids c),
        di_notes = length (filter (\<lambda>n. nt_item n \<in> set ids) (ks_notes c)),
        di_annotations = length (filter (\<lambda>m. mk_asset m \<in> asset_ids_of ids c) (ks_annotations c)),
        di_with_text = length (filter (\<lambda>i. ci_id i \<in> set ids
          \<and> list_ex (\<lambda>t. tr_asset t \<in> asset_ids_of [ci_id i] c \<and> sql_trim (tr_text t) \<noteq> []) (ks_extractions c))
          (ks_items c))\<rparr>)
       (read_scope_item_ids scope c)"

section \<open>The fence\<close>

text \<open>The revision of an item and its counts of assets, notes, annotations and extractions.\<close>

definition item_counts :: "str \<Rightarrow> corpus \<Rightarrow> int list" where
  "item_counts iid c =
     (let own = asset_ids_of [iid] c in
      [(case find_item iid c of None \<Rightarrow> 0 | Some i \<Rightarrow> ci_updated i),
       int (length (assets_of_items [iid] c)),
       int (length (filter (\<lambda>n. nt_item n = iid) (ks_notes c))),
       int (length (filter (\<lambda>m. mk_asset m \<in> own) (ks_annotations c))),
       int (length (filter (\<lambda>t. tr_asset t \<in> own) (ks_extractions c)))])"

definition fence_head :: "delete_scope \<Rightarrow> str list" where
  "fence_head scope = (case scope of DsItems _ \<Rightarrow> [tx ''items''] | DsCollection cid \<Rightarrow> [tx ''collection'', cid])"

definition fence_fields :: "delete_scope \<Rightarrow> str list \<Rightarrow> corpus \<Rightarrow> str list" where
  "fence_fields scope ids c =
     fence_head scope @ concat (map (\<lambda>i. i # map show_int (item_counts i c)) (sort ids))"

definition delete_fence :: "(str \<Rightarrow> str) \<Rightarrow> delete_scope \<Rightarrow> corpus \<Rightarrow> corpus_error + str" where
  "delete_fence sha scope c =
     map_sum id (\<lambda>ids. sha (join [0] (fence_fields scope ids c))) (read_scope_item_ids scope c)"

definition check_fence :: "(str \<Rightarrow> str) \<Rightarrow> delete_scope \<Rightarrow> str \<Rightarrow> corpus \<Rightarrow> corpus_error option" where
  "check_fence sha scope expected c =
     (case delete_fence sha scope c of
        Inl err \<Rightarrow> Some err | Inr current \<Rightarrow> if current = expected then None else Some CeConflict)"

section \<open>The rows that go\<close>

text \<open>\<open>ON DELETE CASCADE\<close> from an asset to its child pages, one generation per round.\<close>

fun with_children :: "nat \<Rightarrow> str set \<Rightarrow> asset_row list \<Rightarrow> str set" where
  "with_children 0 ids rows = ids"
| "with_children (Suc n) ids rows =
     with_children n (ids \<union> as_id ` set (filter (\<lambda>a. case as_parent a of None \<Rightarrow> False | Some p \<Rightarrow> p \<in> ids) rows)) rows"

definition remove_assets :: "str set \<Rightarrow> corpus \<Rightarrow> corpus" where
  "remove_assets ids c =
     (let gone = with_children (length (ks_assets c)) ids (ks_assets c) in
      c\<lparr>ks_assets := filter (\<lambda>a. as_id a \<notin> gone) (ks_assets c),
        ks_extractions := filter (\<lambda>t. tr_asset t \<notin> gone) (ks_extractions c),
        ks_transcriptions := filter (\<lambda>t. tr_asset t \<notin> gone) (ks_transcriptions c),
        ks_layouts := filter (\<lambda>m. mk_asset m \<notin> gone) (ks_layouts c),
        ks_annotations := filter (\<lambda>m. mk_asset m \<notin> gone) (ks_annotations c),
        ks_chunks := filter (\<lambda>k. ck_asset k \<notin> gone) (ks_chunks c)\<rparr>)"

definition is_result_of :: "str set \<Rightarrow> string \<Rightarrow> result_row \<Rightarrow> bool" where
  "is_result_of ids kind r \<longleftrightarrow> rs_target r \<in> ids \<and> rs_target_type r \<in> {tx kind, tx ''unknown''}"

text \<open>What both deletes do to the rows of items.\<close>

definition remove_items :: "str list \<Rightarrow> corpus \<Rightarrow> corpus" where
  "remove_items ids c =
     (let own = asset_ids_of ids c;
          c1 = remove_assets own (c\<lparr>ks_extractions := filter (\<lambda>t. tr_asset t \<notin> own) (ks_extractions c),
            ks_layouts := filter (\<lambda>m. mk_asset m \<notin> own) (ks_layouts c),
            ks_results := filter (\<lambda>r. \<not> is_result_of own ''asset'' r \<and> \<not> is_result_of (set ids) ''item'' r)
              (ks_results c)\<rparr>)
      in c1\<lparr>ks_entities := filter (\<lambda>e. en_item e \<notin> set ids) (ks_entities c1),
           ks_triples := filter (\<lambda>e. en_item e \<notin> set ids) (ks_triples c1),
           ks_notes := filter (\<lambda>n. nt_item n \<notin> set ids) (ks_notes c1),
           ks_items := filter (\<lambda>i. ci_id i \<notin> set ids) (ks_items c1),
           ks_vectors := filter (\<lambda>(i, v). i \<notin> set ids) (ks_vectors c1)\<rparr>)"

definition delete_items_rows :: "str list \<Rightarrow> corpus \<Rightarrow> corpus_error + delete_outcome \<times> corpus" where
  "delete_items_rows ids c =
     map_sum id (\<lambda>owners. let c1 = remove_items ids c in
       (\<lparr>do_folders = map (\<lambda>(i, col). (col, i)) owners, do_collections = [],
         do_files = read_asset_files ids c, do_remaining = map as_path (ks_assets c1)\<rparr>, c1))
       (read_item_owners ids c)"

definition remove_collection :: "str \<Rightarrow> corpus \<Rightarrow> corpus" where
  "remove_collection cid c =
     c\<lparr>ks_results := filter (\<lambda>r. \<not> is_result_of {cid} ''collection'' r) (ks_results c),
       ks_collections := filter (\<lambda>x. cc_id x \<noteq> cid) (ks_collections c)\<rparr>"

definition delete_collection_rows :: "str \<Rightarrow> corpus \<Rightarrow> corpus_error + delete_outcome \<times> corpus" where
  "delete_collection_rows cid c =
     map_sum id (\<lambda>ids. let c1 = remove_collection cid (remove_items ids c) in
       (\<lparr>do_folders = map (\<lambda>i. (cid, i)) ids, do_collections = [cid],
         do_files = read_asset_files ids c, do_remaining = map as_path (ks_assets c1)\<rparr>, c1))
       (read_collection_item_ids cid c)"

section \<open>The services\<close>

definition run_in_transaction :: "bool \<Rightarrow> (corpus_error + 'a \<times> corpus) \<Rightarrow> corpus \<Rightarrow> (corpus_error + 'a) \<times> corpus" where
  "run_in_transaction committed work c =
     (case work of Inl err \<Rightarrow> (Inl err, c)
      | Inr (x, c1) \<Rightarrow> if committed then (Inr x, c1) else (Inl CeUnavailable, c))"

definition delete_items :: "bool \<Rightarrow> str list \<Rightarrow> corpus \<Rightarrow> (corpus_error + delete_outcome) \<times> corpus" where
  "delete_items committed ids c =
     (case normalized_item_ids ids of Inl err \<Rightarrow> (Inl err, c)
      | Inr unique \<Rightarrow> run_in_transaction committed (delete_items_rows unique c) c)"

definition guarded :: "corpus_error option \<Rightarrow> (corpus_error + 'a) \<Rightarrow> corpus_error + 'a" where
  "guarded refused work = (case refused of Some err \<Rightarrow> Inl err | None \<Rightarrow> work)"

definition delete_items_if_unchanged ::
  "(str \<Rightarrow> str) \<Rightarrow> bool \<Rightarrow> str list \<Rightarrow> str \<Rightarrow> corpus \<Rightarrow> (corpus_error + delete_outcome) \<times> corpus" where
  "delete_items_if_unchanged sha committed ids expected c =
     (case normalized_item_ids ids of Inl err \<Rightarrow> (Inl err, c)
      | Inr unique \<Rightarrow> run_in_transaction committed
          (guarded (check_fence sha (DsItems unique) expected c) (delete_items_rows unique c)) c)"

definition delete_collection :: "bool \<Rightarrow> str \<Rightarrow> corpus \<Rightarrow> (corpus_error + delete_outcome) \<times> corpus" where
  "delete_collection committed cid c = run_in_transaction committed (delete_collection_rows cid c) c"

definition delete_collection_if_unchanged ::
  "(str \<Rightarrow> str) \<Rightarrow> bool \<Rightarrow> str \<Rightarrow> str \<Rightarrow> corpus \<Rightarrow> (corpus_error + delete_outcome) \<times> corpus" where
  "delete_collection_if_unchanged sha committed cid expected c =
     run_in_transaction committed
       (guarded (check_fence sha (DsCollection cid) expected c) (delete_collection_rows cid c)) c"

end
