(* ===== verification/CorpusKept.thy ===== *)
theory CorpusKept
  imports CorpusDelete
begin

text \<open>
  What the corpus services keep: every row names rows that exist, and a delete removes exactly the
  rows of what it names. The fence of a delete determines the set it was computed from.
\<close>

section \<open>The invariant\<close>

definition asset_item_ok :: "str list \<Rightarrow> asset_row list \<Rightarrow> asset_row \<Rightarrow> bool" where
  "asset_item_ok items rows a \<longleftrightarrow> as_item a \<in> set items \<and>
     (case as_parent a of None \<Rightarrow> True
      | Some p \<Rightarrow> list_ex (\<lambda>b. as_id b = p \<and> as_item b = as_item a) rows)"

definition corpus_ok :: "corpus \<Rightarrow> bool" where
  "corpus_ok c \<longleftrightarrow>
     (let collections = map cc_id (ks_collections c); items = map ci_id (ks_items c); assets = map as_id (ks_assets c) in
      distinct collections \<and> distinct items \<and> distinct assets
      \<and> set (map ci_collection (ks_items c)) \<subseteq> set collections
      \<and> list_all (asset_item_ok items (ks_assets c)) (ks_assets c)
      \<and> set (map tr_asset (ks_extractions c @ ks_transcriptions c)) \<subseteq> set assets
      \<and> set (map mk_asset (ks_layouts c @ ks_annotations c)) \<subseteq> set assets
      \<and> set (map ck_asset (ks_chunks c)) \<subseteq> set assets
      \<and> set (map nt_item (ks_notes c)) \<subseteq> set items
      \<and> set (map en_item (ks_entities c @ ks_triples c)) \<subseteq> set items)"

lemma corpus_ok_known:
  assumes "corpus_ok c"
  shows "distinct (map cc_id (ks_collections c))" "distinct (map ci_id (ks_items c))" "distinct (map as_id (ks_assets c))"
    and "set (map ci_collection (ks_items c)) \<subseteq> set (map cc_id (ks_collections c))"
    and "set (map tr_asset (ks_extractions c)) \<subseteq> set (map as_id (ks_assets c))"
    and "set (map tr_asset (ks_transcriptions c)) \<subseteq> set (map as_id (ks_assets c))"
    and "set (map mk_asset (ks_layouts c)) \<subseteq> set (map as_id (ks_assets c))"
    and "set (map mk_asset (ks_annotations c)) \<subseteq> set (map as_id (ks_assets c))"
    and "set (map ck_asset (ks_chunks c)) \<subseteq> set (map as_id (ks_assets c))"
    and "set (map nt_item (ks_notes c)) \<subseteq> set (map ci_id (ks_items c))"
    and "set (map en_item (ks_entities c)) \<subseteq> set (map ci_id (ks_items c))"
    and "set (map en_item (ks_triples c)) \<subseteq> set (map ci_id (ks_items c))"
    and "a \<in> set (ks_assets c) \<Longrightarrow> asset_item_ok (map ci_id (ks_items c)) (ks_assets c) a"
  using assms unfolding corpus_ok_def Let_def by (simp_all add: list_all_iff)

lemma asset_unique:
  assumes "corpus_ok c" and "a \<in> set (ks_assets c)" and "b \<in> set (ks_assets c)" and "as_id a = as_id b"
  shows "a = b"
  using corpus_ok_known(3) [OF assms(1)] assms(2-4) by (auto simp: distinct_map dest: inj_onD)

lemma asset_parent:
  assumes "corpus_ok c" and "a \<in> set (ks_assets c)" and "as_parent a = Some p"
  obtains b where "b \<in> set (ks_assets c)" and "as_id b = p" and "as_item b = as_item a"
  using corpus_ok_known(13) [OF assms(1,2)] assms(3) by (auto simp: asset_item_ok_def list_ex_iff)

text \<open>The invariant reads of a row only the identifiers it holds.\<close>

lemma corpus_ok_cong:
  assumes "map cc_id (ks_collections d) = map cc_id (ks_collections c)" "map ci_id (ks_items d) = map ci_id (ks_items c)"
    and "map ci_collection (ks_items d) = map ci_collection (ks_items c)" "ks_assets d = ks_assets c"
    and "map tr_asset (ks_extractions d) = map tr_asset (ks_extractions c)" "ks_transcriptions d = ks_transcriptions c"
    and "ks_layouts d = ks_layouts c" "ks_annotations d = ks_annotations c" "ks_chunks d = ks_chunks c"
    and "ks_notes d = ks_notes c" "ks_entities d = ks_entities c" "ks_triples d = ks_triples c"
  shows "corpus_ok d = corpus_ok c"
  unfolding corpus_ok_def Let_def map_append assms by (rule refl)

lemma find_item_Some: "find_item iid c = Some i \<Longrightarrow> i \<in> set (ks_items c) \<and> ci_id i = iid"
  by (auto simp: find_item_def find_Some_iff)

lemma find_collection_id: "find_collection cid c \<noteq> None \<longleftrightarrow> cid \<in> set (map cc_id (ks_collections c))"
  by (auto simp: find_collection_def find_None_iff image_iff)

lemma find_item_None: "find_item iid c = None \<longleftrightarrow> iid \<notin> ci_id ` set (ks_items c)"
  by (auto simp: find_item_def find_None_iff)

section \<open>Updates\<close>

lemma write_item_ok: "corpus_ok (write_item iid seen x c) = corpus_ok c"
  by (rule corpus_ok_cong) (simp_all add: write_item_def)

lemma update_item_ok:
  assumes "corpus_ok c" and "\<And>d. corpus_ok d \<Longrightarrow> corpus_ok (others d)"
  shows "corpus_ok (snd (update_item cx now indexed others iid p expected c))"
  using assms by (auto simp: update_item_def Let_def write_item_ok split: sum.split prod.split)

lemma write_text_ok: "corpus_ok (write_text eid text c) = corpus_ok c"
  by (rule corpus_ok_cong) (simp_all add: write_text_def)

lemma keep_original_ok: "corpus_ok (keep_original aid text now c) = corpus_ok c"
  by (rule corpus_ok_cong) (simp_all add: keep_original_def)

lemma replace_page_text_ok:
  assumes "corpus_ok c" and "\<And>d. corpus_ok d \<Longrightarrow> corpus_ok (others d)"
  shows "corpus_ok (snd (replace_page_text sha now indexed others aid expected text c))"
  using assms by (auto simp: replace_page_text_def Let_def write_text_ok keep_original_ok split: option.split)

section \<open>Deletes\<close>

lemma with_children_closed:
  assumes "\<And>a p. a \<in> set rows \<Longrightarrow> as_parent a = Some p \<Longrightarrow> p \<in> ids \<Longrightarrow> as_id a \<in> ids"
  shows "with_children n ids rows = ids"
proof -
  have "ids \<union> as_id ` set (filter (\<lambda>a. case as_parent a of None \<Rightarrow> False | Some p \<Rightarrow> p \<in> ids) rows) = ids"
    using assms by (auto split: option.splits)
  then show ?thesis by (induction n) simp_all
qed

lemma own_asset_iff:
  assumes "corpus_ok c" and "a \<in> set (ks_assets c)"
  shows "as_id a \<in> asset_ids_of ids c \<longleftrightarrow> as_item a \<in> set ids"
proof
  assume "as_id a \<in> asset_ids_of ids c"
  then obtain b where "b \<in> set (ks_assets c)" "as_item b \<in> set ids" "as_id b = as_id a"
    by (auto simp: asset_ids_of_def assets_of_items_def)
  with asset_unique [OF assms(1)] assms(2) show "as_item a \<in> set ids" by blast
qed (use assms(2) in \<open>simp add: asset_ids_of_def assets_of_items_def\<close>)

lemma own_assets_closed:
  assumes "corpus_ok c" and "a \<in> set (ks_assets c)" and "as_parent a = Some p" and "p \<in> asset_ids_of ids c"
  shows "as_id a \<in> asset_ids_of ids c"
proof -
  obtain b where "b \<in> set (ks_assets c)" "as_id b = p" "as_item b = as_item a"
    using assms(1-3) by (rule asset_parent)
  with assms show ?thesis using own_asset_iff [OF assms(1)] by metis
qed

lemma remove_assets_own:
  assumes "corpus_ok c"
  shows "remove_assets (asset_ids_of ids c) (c\<lparr>ks_extractions := es, ks_layouts := ls, ks_results := rs\<rparr>) =
    (let own = asset_ids_of ids c in
      c\<lparr>ks_assets := filter (\<lambda>a. as_item a \<notin> set ids) (ks_assets c),
        ks_extractions := filter (\<lambda>t. tr_asset t \<notin> own) es,
        ks_transcriptions := filter (\<lambda>t. tr_asset t \<notin> own) (ks_transcriptions c),
        ks_layouts := filter (\<lambda>m. mk_asset m \<notin> own) ls, ks_results := rs,
        ks_annotations := filter (\<lambda>m. mk_asset m \<notin> own) (ks_annotations c),
        ks_chunks := filter (\<lambda>k. ck_asset k \<notin> own) (ks_chunks c)\<rparr>)"
proof -
  have "with_children n (asset_ids_of ids c) (ks_assets c) = asset_ids_of ids c" for n
    using own_assets_closed [OF assms] by (rule with_children_closed)
  moreover have "filter (\<lambda>a. as_id a \<notin> asset_ids_of ids c) (ks_assets c) = filter (\<lambda>a. as_item a \<notin> set ids) (ks_assets c)"
    using own_asset_iff [OF assms] by (intro filter_cong) simp_all
  ultimately show ?thesis by (simp add: remove_assets_def Let_def)
qed

text \<open>The tables after a delete of items, one by one.\<close>

lemma remove_items_rows:
  assumes "corpus_ok c"
  shows "ks_collections (remove_items ids c) = ks_collections c"
    and "ks_items (remove_items ids c) = filter (\<lambda>i. ci_id i \<notin> set ids) (ks_items c)"
    and "ks_assets (remove_items ids c) = filter (\<lambda>a. as_item a \<notin> set ids) (ks_assets c)"
    and "ks_extractions (remove_items ids c) = filter (\<lambda>t. tr_asset t \<notin> asset_ids_of ids c) (ks_extractions c)"
    and "ks_transcriptions (remove_items ids c) = filter (\<lambda>t. tr_asset t \<notin> asset_ids_of ids c) (ks_transcriptions c)"
    and "ks_layouts (remove_items ids c) = filter (\<lambda>m. mk_asset m \<notin> asset_ids_of ids c) (ks_layouts c)"
    and "ks_annotations (remove_items ids c) = filter (\<lambda>m. mk_asset m \<notin> asset_ids_of ids c) (ks_annotations c)"
    and "ks_chunks (remove_items ids c) = filter (\<lambda>k. ck_asset k \<notin> asset_ids_of ids c) (ks_chunks c)"
    and "ks_notes (remove_items ids c) = filter (\<lambda>n. nt_item n \<notin> set ids) (ks_notes c)"
    and "ks_entities (remove_items ids c) = filter (\<lambda>e. en_item e \<notin> set ids) (ks_entities c)"
    and "ks_triples (remove_items ids c) = filter (\<lambda>e. en_item e \<notin> set ids) (ks_triples c)"
    and "ks_backups (remove_items ids c) = ks_backups c"
  by (simp_all add: remove_items_def Let_def remove_assets_own [OF assms])

lemma surviving_asset:
  assumes "corpus_ok c" and "x \<in> as_id ` set (ks_assets c)" and "x \<notin> asset_ids_of ids c"
  shows "x \<in> as_id ` set (filter (\<lambda>a. as_item a \<notin> set ids) (ks_assets c))"
  using assms own_asset_iff [OF assms(1)] by auto

lemma remove_items_ok:
  assumes ok: "corpus_ok c"
  shows "corpus_ok (remove_items ids c)"
proof -
  let ?items = "filter (\<lambda>i. ci_id i \<notin> set ids) (ks_items c)"
  let ?assets = "filter (\<lambda>a. as_item a \<notin> set ids) (ks_assets c)"
  have assets: "set (map g (filter (\<lambda>x. g x \<notin> asset_ids_of ids c) xs)) \<subseteq> set (map as_id ?assets)"
    if "set (map g xs) \<subseteq> set (map as_id (ks_assets c))" for g :: "'x \<Rightarrow> str" and xs
  proof
    fix y assume "y \<in> set (map g (filter (\<lambda>x. g x \<notin> asset_ids_of ids c) xs))"
    then obtain x where x: "x \<in> set xs" "y = g x" "g x \<notin> asset_ids_of ids c" by auto
    with that have "g x \<in> as_id ` set (ks_assets c)" by auto
    from surviving_asset [OF ok this x(3)] x(2) show "y \<in> set (map as_id ?assets)" by simp
  qed
  have items: "set (map g (filter (\<lambda>x. g x \<notin> set ids) xs)) \<subseteq> set (map ci_id ?items)"
    if "set (map g xs) \<subseteq> set (map ci_id (ks_items c))" for g :: "'x \<Rightarrow> str" and xs
  proof
    fix y assume "y \<in> set (map g (filter (\<lambda>x. g x \<notin> set ids) xs))"
    then obtain x where "x \<in> set xs" "y = g x" "g x \<notin> set ids" by auto
    with that show "y \<in> set (map ci_id ?items)" by auto
  qed
  have "asset_item_ok (map ci_id ?items) ?assets a" if a: "a \<in> set ?assets" for a
  proof -
    have "as_item a \<in> set (map ci_id ?items)"
      using a corpus_ok_known(13) [OF ok, of a] by (auto simp: asset_item_ok_def)
    moreover have "list_ex (\<lambda>b. as_id b = p \<and> as_item b = as_item a) ?assets" if p: "as_parent a = Some p" for p
    proof -
      have "a \<in> set (ks_assets c)" using a by simp
      from asset_parent [OF ok this p] obtain b where "b \<in> set (ks_assets c)" "as_id b = p" "as_item b = as_item a" .
      with a show ?thesis by (auto simp: list_ex_iff)
    qed
    ultimately show ?thesis by (simp add: asset_item_ok_def split: option.split)
  qed
  then have parents: "list_all (asset_item_ok (map ci_id ?items) ?assets) ?assets" by (simp add: list_all_iff)
  have collections: "set (map ci_collection ?items) \<subseteq> set (map cc_id (ks_collections c))"
    using corpus_ok_known(4) [OF ok] by auto
  note known = corpus_ok_known [OF ok]
  show ?thesis
    unfolding corpus_ok_def Let_def remove_items_rows [OF ok] map_append set_append
    by (intro conjI Un_least parents collections assets items known distinct_map_filter)
qed

lemma remove_collection_ok:
  assumes ok: "corpus_ok c" and gone: "cid \<notin> ci_collection ` set (ks_items c)"
  shows "corpus_ok (remove_collection cid c)"
proof -
  have "set (map ci_collection (ks_items c)) \<subseteq> set (map cc_id (filter (\<lambda>x. cc_id x \<noteq> cid) (ks_collections c)))"
  proof
    fix y assume "y \<in> set (map ci_collection (ks_items c))"
    moreover from this have "y \<noteq> cid" using gone by auto
    moreover from calculation(1) have "y \<in> set (map cc_id (ks_collections c))" using corpus_ok_known(4) [OF ok] by auto
    ultimately show "y \<in> set (map cc_id (filter (\<lambda>x. cc_id x \<noteq> cid) (ks_collections c)))" by auto
  qed
  with ok show ?thesis by (simp add: remove_collection_def corpus_ok_def Let_def distinct_map_filter)
qed

lemma collection_items_gone:
  assumes "corpus_ok c"
  shows "cid \<notin> ci_collection ` set (ks_items (remove_items (collection_item_ids cid c) c))"
  by (auto simp: remove_items_rows [OF assms] collection_item_ids_def)

section \<open>The fence\<close>

text \<open>Fields without the separator are read back from their joined text.\<close>

lemma split_on_plain: "0 \<notin> set w \<Longrightarrow> split_on (\<lambda>c. c = 0) w = [w]"
  by (induction w) auto

lemma split_on_sep: "0 \<notin> set w \<Longrightarrow> split_on (\<lambda>c. c = 0) (w @ 0 # t) = w # split_on (\<lambda>c. c = 0) t"
  by (induction w) auto

lemma split_join:
  assumes "ws \<noteq> []" and "\<And>w. w \<in> set ws \<Longrightarrow> 0 \<notin> set w"
  shows "split_on (\<lambda>c. c = 0) (join [0] ws) = ws"
  using assms
proof (induction "[0] :: str" ws rule: join.induct)
  case (3 w v ws)
  then show ?case by (simp add: split_on_sep)
qed (simp_all add: split_on_plain)

lemma join_inject:
  assumes "join [0] ws = join [0] vs" and "ws \<noteq> []" and "vs \<noteq> []"
    and "\<And>w. w \<in> set ws \<Longrightarrow> 0 \<notin> set w" and "\<And>w. w \<in> set vs \<Longrightarrow> 0 \<notin> set w"
  shows "ws = vs"
proof -
  have "ws = split_on (\<lambda>c. c = 0) (join [0] ws)" using assms(2,4) by (rule split_join [symmetric])
  also have "\<dots> = split_on (\<lambda>c. c = 0) (join [0] vs)" by (simp only: assms(1))
  also have "\<dots> = vs" using assms(3,5) by (rule split_join)
  finally show ?thesis .
qed

lemma show_nat_plain: "0 \<notin> set (show_nat n)"
  using show_nat_props [of n] by (force simp: list_all_iff is_ascii_digit_def)

lemma show_int_plain: "0 \<notin> set (show_int n)"
  by (auto simp: show_int_def show_nat_plain tx_def)

lemma show_nat_inject: "show_nat m = show_nat n \<Longrightarrow> m = n"
  using show_nat_props by metis

lemma show_nat_not_minus: "show_nat n \<noteq> tx ''-'' @ t"
  using show_nat_props [of n] by (auto simp: tx_def is_ascii_digit_def)

lemma show_int_inject: "show_int m = show_int n \<longleftrightarrow> m = n"
proof
  assume eq: "show_int m = show_int n"
  show "m = n"
  proof (cases "m < 0")
    case True
    with eq have n: "n < 0"
      using show_nat_not_minus [of "nat n" "show_nat (nat (- m))"] by (simp add: show_int_def split: if_splits)
    with True eq have "show_nat (nat (- m)) = show_nat (nat (- n))" by (simp add: show_int_def)
    with True n show ?thesis by (auto dest: show_nat_inject)
  next
    case False
    with eq have n: "\<not> n < 0"
      using show_nat_not_minus [of "nat m" "show_nat (nat (- n))"] by (simp add: show_int_def split: if_splits)
    with False eq have "show_nat (nat m) = show_nat (nat n)" by (simp add: show_int_def)
    with False n show ?thesis by (auto dest: show_nat_inject)
  qed
qed simp

lemma map_show_int_inject: "map show_int xs = map show_int ys \<Longrightarrow> xs = ys"
  by (rule list.inj_map_strong) (simp_all add: show_int_inject)

lemma length_item_counts [simp]: "length (item_counts i c) = 5"
  by (simp add: item_counts_def Let_def)

lemma append_five: "length xs = 5 \<Longrightarrow> length ys = 5 \<Longrightarrow> xs @ us = ys @ vs \<longleftrightarrow> xs = ys \<and> us = vs"
  by simp

lemma fence_items_inject:
  assumes "concat (map (\<lambda>i. i # map show_int (item_counts i c)) ids)
    = concat (map (\<lambda>i. i # map show_int (item_counts i d)) js)"
  shows "ids = js \<and> map (\<lambda>i. item_counts i c) ids = map (\<lambda>i. item_counts i d) ids"
  using assms
proof (induction ids arbitrary: js)
  case Nil
  then show ?case by (cases js) simp_all
next
  case (Cons i ids)
  then obtain j rest where js: "js = j # rest" by (cases js) simp_all
  with Cons.prems have head: "i = j" "map show_int (item_counts i c) = map show_int (item_counts j d)"
    and tail: "concat (map (\<lambda>i. i # map show_int (item_counts i c)) ids) = concat (map (\<lambda>i. i # map show_int (item_counts i d)) rest)"
    by (auto simp: append_five)
  from head have "i = j" "item_counts i c = item_counts i d" by (auto dest: map_show_int_inject)
  with Cons.IH [OF tail] js show ?case by simp
qed

lemma fence_plain:
  assumes "list_all (\<lambda>i. 0 \<notin> set i) ids" and "case scope of DsItems _ \<Rightarrow> True | DsCollection cid \<Rightarrow> 0 \<notin> set cid"
    and "w \<in> set (fence_fields scope ids c)"
  shows "0 \<notin> set w"
  using assms by (auto simp: fence_fields_def fence_head_def list_all_iff show_int_plain tx_def split: delete_scope.splits)

text \<open>
  Equal fences of one scope at two times: the same items, revisions and counts, when the digest does
  not confuse the two texts.
\<close>

lemma fence_determines:
  assumes "inj_on sha {join [0] (fence_fields scope ids c), join [0] (fence_fields scope js d)}"
    and "delete_fence sha scope c = Inr f" and "delete_fence sha scope d = Inr f"
    and "read_scope_item_ids scope c = Inr ids" and "read_scope_item_ids scope d = Inr js"
    and "list_all (\<lambda>i. 0 \<notin> set i) ids" and "list_all (\<lambda>i. 0 \<notin> set i) js"
    and "case scope of DsItems _ \<Rightarrow> True | DsCollection cid \<Rightarrow> 0 \<notin> set cid"
  shows "sort ids = sort js \<and> list_all (\<lambda>i. item_counts i c = item_counts i d) ids"
proof -
  have head: "fence_fields scope xs e \<noteq> []" for xs e
    by (cases scope) (simp_all add: fence_fields_def fence_head_def)
  have "join [0] (fence_fields scope ids c) = join [0] (fence_fields scope js d)"
  proof -
    have "sha (join [0] (fence_fields scope ids c)) = sha (join [0] (fence_fields scope js d))"
      using assms(2-5) by (simp add: delete_fence_def)
    from inj_onD [OF assms(1) this] show ?thesis by simp
  qed
  then have "fence_fields scope ids c = fence_fields scope js d"
    by (rule join_inject [OF _ head head fence_plain [OF assms(6,8)] fence_plain [OF assms(7,8)]])
  then have "concat (map (\<lambda>i. i # map show_int (item_counts i c)) (sort ids))
      = concat (map (\<lambda>i. i # map show_int (item_counts i d)) (sort js))"
    by (simp add: fence_fields_def)
  from fence_items_inject [OF this] show ?thesis by (auto simp: list_all_iff)
qed

end
