(* ===== verification/CorpusImport.thy ===== *)
theory CorpusImport
  imports CorpusKept
begin

text \<open>
  Importing files into a collection (\<open>apps/desktop/src-tauri/src/corpus/ingest.rs\<close>): which sources are
  accepted, how a copy and its item are named, the duplicate rule, and the two transactions of an
  import around its copy.

  An absolute path is the list of its components; the root is the empty list. The file system is a
  \<open>disk\<close>: what a path text really is once links and \<open>..\<close> are resolved, what is there, and what
  a folder lists. Fresh identifiers, the clock, the copy with its split into pages and what SQLite's
  \<open>json_extract\<close> reads of a metadata text are arguments. The history of a file and the search index
  are left out, and so are the failure of the first COMMIT and the deletes of \<open>discard\<close> being lost
  in a transaction that a failed second COMMIT left open. Extensions are compared without case; the only non-ASCII letters whose lower case is
  ASCII occur in no known extension, so ASCII case is enough.
\<close>

section \<open>Files\<close>

type_synonym path = "str list"

record file_meta =
  mt_is_file :: bool
  mt_is_dir :: bool
  mt_len :: nat
  mt_modified :: "int option"
  mt_created :: "int option"
  mt_accessed :: "int option"
  mt_readonly :: bool

record disk =
  dk_real :: "str \<Rightarrow> path option"
  dk_real_path :: "path \<Rightarrow> path option"
  dk_meta :: "path \<Rightarrow> file_meta option"
  dk_entries :: "path \<Rightarrow> path list option"
  dk_plain :: "path \<Rightarrow> path"
  dk_text :: "path \<Rightarrow> str"

datatype file_kind = FkImage | FkPdf | FkAudio

definition kind_text :: "file_kind \<Rightarrow> str" where
  "kind_text k = (case k of FkImage \<Rightarrow> tx ''image'' | FkPdf \<Rightarrow> tx ''pdf'' | FkAudio \<Rightarrow> tx ''audio'')"

text \<open>The position of the last dot of a name.\<close>

fun last_dot :: "nat \<Rightarrow> str \<Rightarrow> nat option" where
  "last_dot i [] = None"
| "last_dot i (c # cs) = (case last_dot (i + 1) cs of Some j \<Rightarrow> Some j | None \<Rightarrow> if c = 46 then Some i else None)"

definition extension_of :: "str \<Rightarrow> str option" where
  "extension_of name =
     (if name = tx ''..'' then None
      else (case last_dot 0 name of None \<Rightarrow> None
        | Some d \<Rightarrow> if d = 0 then None else Some (drop (d + 1) name)))"

definition classify :: "path \<Rightarrow> file_kind option" where
  "classify p =
     (if p = [] then None
      else (case map_option to_ascii_lowercase (extension_of (last p)) of
          None \<Rightarrow> None
        | Some e \<Rightarrow>
            if e \<in> set (map tx [''png'', ''jpg'', ''jpeg'', ''webp'', ''tiff'', ''tif'']) then Some FkImage
            else if e = tx ''pdf'' then Some FkPdf
            else if e \<in> set (map tx [''wav'', ''mp3'', ''flac'', ''m4a'', ''aac'', ''ogg'']) then Some FkAudio
            else None))"

definition max_source_bytes :: nat where
  "max_source_bytes = 1024 * 1024 * 1024"

record source_file =
  sf_path :: path
  sf_name :: str
  sf_kind :: file_kind
  sf_size :: nat
  sf_modified :: "int option"
  sf_created :: "int option"
  sf_accessed :: "int option"
  sf_readonly :: bool

datatype source_error = SeMissing | SeInArchive | SeNotAFile | SeNotInFolder | SeUnsupported | SeTooLarge

definition describe :: "path \<Rightarrow> file_meta \<Rightarrow> source_error + source_file" where
  "describe rp m =
     (case classify rp of None \<Rightarrow> Inl SeUnsupported
      | Some k \<Rightarrow>
          if mt_len m > max_source_bytes then Inl SeTooLarge
          else Inr \<lparr>sf_path = rp, sf_name = (if rp = [] then [] else last rp), sf_kind = k, sf_size = mt_len m,
            sf_modified = mt_modified m, sf_created = mt_created m, sf_accessed = mt_accessed m,
            sf_readonly = mt_readonly m\<rparr>)"

definition is_under :: "path \<Rightarrow> path \<Rightarrow> bool" where
  "is_under dir p \<longleftrightarrow> take (length dir) p = dir"

definition same_folder :: "disk \<Rightarrow> path \<Rightarrow> path \<Rightarrow> bool" where
  "same_folder dk enabled plain \<longleftrightarrow> dk_plain dk enabled = plain"

definition real_or_self :: "disk \<Rightarrow> path \<Rightarrow> path" where
  "real_or_self dk p = unwrap_or p (dk_real_path dk p)"

definition check_source :: "disk \<Rightarrow> str \<Rightarrow> path list \<Rightarrow> path \<Rightarrow> source_error + source_file" where
  "check_source dk text folders data_dir =
     (case dk_real dk text of
        None \<Rightarrow> Inl SeMissing
      | Some rp \<Rightarrow>
          if is_under (real_or_self dk data_dir) rp then Inl SeInArchive
          else (case dk_meta dk rp of
              None \<Rightarrow> Inl SeMissing
            | Some m \<Rightarrow>
                if \<not> mt_is_file m then Inl SeNotAFile
                else if rp = [] \<or> \<not> list_ex (\<lambda>f. same_folder dk f (dk_plain dk (butlast rp))) folders
                then Inl SeNotInFolder
                else describe rp m))"

definition check_app_source :: "disk \<Rightarrow> str \<Rightarrow> path \<Rightarrow> source_error + source_file" where
  "check_app_source dk text data_dir =
     (case dk_real dk text of
        None \<Rightarrow> Inl SeMissing
      | Some rp \<Rightarrow>
          if is_under (real_or_self dk data_dir @ [tx ''assets'']) rp then Inl SeInArchive
          else (case dk_meta dk rp of
              None \<Rightarrow> Inl SeMissing
            | Some m \<Rightarrow> if \<not> mt_is_file m then Inl SeNotAFile else describe rp m))"

text \<open>\<open>list_folder\<close>: the listed files and whether there were more.\<close>

fun take_files :: "nat \<Rightarrow> source_file list \<Rightarrow> (source_error + source_file) list \<Rightarrow> source_file list \<times> bool" where
  "take_files limit acc [] = (acc, False)"
| "take_files limit acc (Inl e # rest) = take_files limit acc rest"
| "take_files limit acc (Inr f # rest) =
     (if length acc = limit then (acc, True) else take_files limit (acc @ [f]) rest)"

definition list_folder :: "disk \<Rightarrow> path \<Rightarrow> path list \<Rightarrow> path \<Rightarrow> nat \<Rightarrow> (source_file list \<times> bool) option" where
  "list_folder dk folder folders data_dir limit =
     Option.bind (dk_real_path dk folder) (\<lambda>rp.
       if \<not> list_ex (\<lambda>f. same_folder dk f (dk_plain dk rp)) folders then None
       else map_option (\<lambda>entries. take_files limit [] (map (\<lambda>p. check_source dk (dk_text dk p) folders data_dir)
         (sort (filter (\<lambda>p. classify p \<noteq> None) entries)))) (dk_entries dk rp))"

section \<open>Names\<close>

record import_overrides =
  ov_title :: "str option"
  ov_file_name :: "str option"
  ov_extra :: "jmap option"
  ov_allow_duplicate :: bool

definition no_overrides :: import_overrides where
  "no_overrides = \<lparr>ov_title = None, ov_file_name = None, ov_extra = None, ov_allow_duplicate = False\<rparr>"

definition stored_name_max_chars :: nat where
  "stored_name_max_chars = 255"

definition title_for :: "str \<Rightarrow> str" where
  "title_for name =
     (let stem = (case last_dot 0 name of Some d \<Rightarrow> if d > 0 then take d name else name | None \<Rightarrow> name);
          title = take item_title_max_chars (trim stem)
      in if title = [] then tx ''Documento'' else title)"

definition stored_copy_name :: "source_file \<Rightarrow> import_overrides \<Rightarrow> str option" where
  "stored_copy_name f ov =
     (let name = trim (unwrap_or (sf_name f) (ov_file_name ov)) in
      if name \<noteq> [] \<and> length name \<le> stored_name_max_chars \<and> set name \<inter> {47, 92, 58, 0} = {}
         \<and> name \<noteq> tx ''.'' \<and> name \<noteq> tx ''..'' then Some name else None)"

definition title_with_override :: "source_file \<Rightarrow> import_overrides \<Rightarrow> str" where
  "title_with_override f ov =
     (case opt_filter (\<lambda>t. t \<noteq> []) (map_option trim (ov_title ov)) of
        Some t \<Rightarrow> take item_title_max_chars t
      | None \<Rightarrow> title_for (sf_name f))"

section \<open>One import\<close>

text \<open>
  \<open>im_source\<close>: the path, size and modification time \<open>json_extract\<close> reads of a metadata text.
  \<open>im_copied\<close>: the outcome of the copy and the split: the key of the copy, and page numbers, sizes
  and keys; \<open>None\<close> is any failure. \<open>im_recorded\<close>: whether the second transaction succeeds.
\<close>

record import_world =
  im_now :: int
  im_item :: str
  im_source :: "str \<Rightarrow> str option \<times> int option \<times> int option"
  im_query_ok :: bool
  im_metadata :: "source_file \<Rightarrow> str \<Rightarrow> import_overrides \<Rightarrow> str"
  im_original :: "path \<Rightarrow> str"
  im_copied :: "(str \<times> (int \<times> nat \<times> str) list) option"
  im_asset_ids :: "str list"
  im_recorded :: bool
  im_others :: "corpus \<Rightarrow> corpus"

definition is_same_source :: "import_world \<Rightarrow> str \<Rightarrow> source_file \<Rightarrow> citem \<Rightarrow> bool" where
  "is_same_source w collection f i \<longleftrightarrow> ci_collection i = collection \<and>
     (case ci_metadata i of None \<Rightarrow> False
      | Some m \<Rightarrow> (case im_source w m of (p, bytes, modified) \<Rightarrow>
          map_option to_ascii_lowercase p = Some (to_ascii_lowercase (im_original w (sf_path f)))
          \<and> bytes = Some (int (sf_size f)) \<and> modified = sf_modified f))"

definition find_duplicate :: "import_world \<Rightarrow> str \<Rightarrow> source_file \<Rightarrow> corpus \<Rightarrow> corpus_error + str option" where
  "find_duplicate w collection f c =
     (if im_query_ok w then Inr (map_option ci_id (find (is_same_source w collection f) (ks_items c)))
      else Inl CeUnavailable)"

datatype import_outcome = Imported str str nat | Duplicate str

definition imported_item :: "import_world \<Rightarrow> str \<Rightarrow> source_file \<Rightarrow> str \<Rightarrow> import_overrides \<Rightarrow> citem" where
  "imported_item w collection f stored ov =
     \<lparr>ci_id = im_item w, ci_title = title_with_override f ov, ci_collection = collection,
      ci_metadata = Some (im_metadata w f stored ov), ci_created = im_now w, ci_updated = im_now w\<rparr>"

definition new_asset :: "import_world \<Rightarrow> str \<Rightarrow> str \<Rightarrow> file_kind \<Rightarrow> nat \<Rightarrow> str option \<Rightarrow> int option \<Rightarrow> asset_row" where
  "new_asset w aid key k bytes parent page =
     \<lparr>as_id = aid, as_item = im_item w, as_path = key, as_type = kind_text k, as_parent = parent,
      as_page = page, as_bytes = Some (int bytes), as_created = im_now w\<rparr>"

text \<open>The rows of the second transaction: the original, and one asset for each page of a PDF.\<close>

definition new_assets :: "import_world \<Rightarrow> source_file \<Rightarrow> str \<Rightarrow> (int \<times> nat \<times> str) list \<Rightarrow> asset_row list" where
  "new_assets w f key pages =
     (case im_asset_ids w of
        [] \<Rightarrow> []
      | parent # ids \<Rightarrow> new_asset w parent key (sf_kind f) (sf_size f) None None
          # map (\<lambda>(aid, n, bytes, page_key). new_asset w aid page_key FkPdf bytes (Some parent) (Some n)) (zip ids pages))"

definition discard :: "str \<Rightarrow> corpus \<Rightarrow> corpus" where
  "discard iid c =
     (let c1 = remove_assets (asset_ids_of [iid] c) c in
      if list_ex (\<lambda>n. nt_item n = iid) (ks_notes c1) then c1
      else c1\<lparr>ks_items := filter (\<lambda>i. ci_id i \<noteq> iid) (ks_items c1),
        ks_entities := filter (\<lambda>e. en_item e \<noteq> iid) (ks_entities c1),
        ks_triples := filter (\<lambda>e. en_item e \<noteq> iid) (ks_triples c1)\<rparr>)"

datatype import_error = IeArgument | IeCorpus corpus_error | IeFile

definition admit_item ::
  "import_world \<Rightarrow> str \<Rightarrow> source_file \<Rightarrow> str \<Rightarrow> import_overrides \<Rightarrow> corpus \<Rightarrow> import_error + str option \<times> corpus" where
  "admit_item w collection f stored ov c =
     (case (if ov_allow_duplicate ov then Inr None else find_duplicate w collection f c) of
        Inl err \<Rightarrow> Inl (IeCorpus err)
      | Inr (Some existing) \<Rightarrow> Inr (Some existing, c)
      | Inr None \<Rightarrow>
          if find_collection collection c = None \<or> find_item (im_item w) c \<noteq> None then Inl (IeCorpus CeUnavailable)
          else Inr (None, c\<lparr>ks_items := ks_items c @ [imported_item w collection f stored ov]\<rparr>))"

definition record_files ::
  "import_world \<Rightarrow> source_file \<Rightarrow> str \<Rightarrow> (int \<times> nat \<times> str) list \<Rightarrow> corpus \<Rightarrow> (nat \<times> corpus) option" where
  "record_files w f key pages c =
     (let rows = new_assets w f key pages in
      if im_recorded w \<and> find_item (im_item w) c \<noteq> None \<and> length (im_asset_ids w) = 1 + length pages
         \<and> distinct (im_asset_ids w) \<and> set (im_asset_ids w) \<inter> as_id ` set (ks_assets c) = {}
      then Some (1 + length pages, c\<lparr>ks_assets := ks_assets c @ rows\<rparr>) else None)"

definition import_file ::
  "import_world \<Rightarrow> str \<Rightarrow> source_file \<Rightarrow> import_overrides \<Rightarrow> corpus \<Rightarrow> (import_error + import_outcome) \<times> corpus" where
  "import_file w collection f ov c =
     (case stored_copy_name f ov of
        None \<Rightarrow> (Inl IeArgument, c)
      | Some stored \<Rightarrow>
          if find_collection collection c = None then (Inl (IeCorpus CeNotFound), c)
          else (case admit_item w collection f stored ov c of
              Inl err \<Rightarrow> (Inl err, c)
            | Inr (Some existing, c1) \<Rightarrow> (Inr (Duplicate existing), c1)
            | Inr (None, c1) \<Rightarrow>
                (let c2 = im_others w c1 in
                 case im_copied w of
                   None \<Rightarrow> (Inl IeFile, discard (im_item w) c2)
                 | Some (key, pages) \<Rightarrow>
                     if sf_kind f = FkPdf \<and> pages = [] then (Inl IeFile, discard (im_item w) c2)
                     else (case record_files w f key (if sf_kind f = FkPdf then pages else []) c2 of
                         None \<Rightarrow> (Inl (IeCorpus CeUnavailable), discard (im_item w) c2)
                       | Some (n, c3) \<Rightarrow> (Inr (Imported (im_item w) (title_with_override f ov) n), c3)))))"

section \<open>What an accepted source is\<close>

lemma describe_Inr:
  "describe rp m = Inr f \<Longrightarrow> sf_path f = rp \<and> sf_size f = mt_len m \<and> sf_modified f = mt_modified m
     \<and> sf_size f \<le> max_source_bytes \<and> classify rp = Some (sf_kind f)"
  by (auto simp: describe_def split: option.splits if_splits)

lemma check_source_Inr:
  assumes "check_source dk text folders data_dir = Inr f"
  shows "dk_real dk text = Some (sf_path f)" and "\<not> is_under (real_or_self dk data_dir) (sf_path f)"
    and "sf_path f \<noteq> []" and "list_ex (\<lambda>d. same_folder dk d (dk_plain dk (butlast (sf_path f)))) folders"
    and "sf_size f \<le> max_source_bytes"
  using assms by (auto simp: check_source_def split: option.splits if_splits dest!: describe_Inr)

section \<open>An import keeps the tables\<close>

lemma remove_own_assets:
  assumes "corpus_ok c"
  shows "remove_assets (asset_ids_of ids c) c =
    (let own = asset_ids_of ids c in
      c\<lparr>ks_assets := filter (\<lambda>a. as_item a \<notin> set ids) (ks_assets c),
        ks_extractions := filter (\<lambda>t. tr_asset t \<notin> own) (ks_extractions c),
        ks_transcriptions := filter (\<lambda>t. tr_asset t \<notin> own) (ks_transcriptions c),
        ks_layouts := filter (\<lambda>m. mk_asset m \<notin> own) (ks_layouts c),
        ks_annotations := filter (\<lambda>m. mk_asset m \<notin> own) (ks_annotations c),
        ks_chunks := filter (\<lambda>k. ck_asset k \<notin> own) (ks_chunks c)\<rparr>)"
  using remove_assets_own [OF assms, where es = "ks_extractions c" and ls = "ks_layouts c" and rs = "ks_results c"]
  by (simp add: Let_def)

text \<open>Removing an item is removing its assets, then its row and what else names it.\<close>

lemma remove_own_assets_ok:
  assumes ok: "corpus_ok c"
  shows "corpus_ok (remove_assets (asset_ids_of ids c) c)"
proof -
  let ?d = "remove_assets (asset_ids_of ids c) c"
  note rows = remove_items_rows [OF ok, of ids]
  have same: "ks_assets ?d = ks_assets (remove_items ids c)" "ks_extractions ?d = ks_extractions (remove_items ids c)"
      "ks_transcriptions ?d = ks_transcriptions (remove_items ids c)" "ks_layouts ?d = ks_layouts (remove_items ids c)"
      "ks_annotations ?d = ks_annotations (remove_items ids c)" "ks_chunks ?d = ks_chunks (remove_items ids c)"
    by (simp_all add: remove_own_assets [OF ok] rows Let_def)
  have rest: "ks_collections ?d = ks_collections c" "ks_items ?d = ks_items c" "ks_notes ?d = ks_notes c"
      "ks_entities ?d = ks_entities c" "ks_triples ?d = ks_triples c"
    by (simp_all add: remove_own_assets [OF ok] Let_def)
  have removed: "corpus_ok (remove_items ids c)" using ok by (rule remove_items_ok)
  note known = corpus_ok_known [OF ok]
  note known' = corpus_ok_known [OF removed]
  have "asset_item_ok (map ci_id (ks_items c)) (ks_assets (remove_items ids c)) a"
    if "a \<in> set (ks_assets (remove_items ids c))" for a
    using known'(13) [OF that] by (auto simp: asset_item_ok_def rows)
  then have "list_all (asset_item_ok (map ci_id (ks_items c)) (ks_assets (remove_items ids c))) (ks_assets (remove_items ids c))"
    by (simp add: list_all_iff)
  then show ?thesis
    unfolding corpus_ok_def Let_def same rest map_append set_append
    by (intro conjI Un_least known known')
qed

lemma drop_item_ok:
  assumes ok: "corpus_ok c" and assets: "iid \<notin> as_item ` set (ks_assets c)" and unnoted: "iid \<notin> nt_item ` set (ks_notes c)"
  shows "corpus_ok (c\<lparr>ks_items := filter (\<lambda>i. ci_id i \<noteq> iid) (ks_items c),
    ks_entities := filter (\<lambda>e. en_item e \<noteq> iid) (ks_entities c), ks_triples := filter (\<lambda>e. en_item e \<noteq> iid) (ks_triples c)\<rparr>)"
proof -
  note known = corpus_ok_known [OF ok]
  let ?items = "map ci_id (filter (\<lambda>i. ci_id i \<noteq> iid) (ks_items c))"
  have mem: "x \<in> set ?items \<longleftrightarrow> x \<in> set (map ci_id (ks_items c)) \<and> x \<noteq> iid" for x by auto
  have "asset_item_ok ?items (ks_assets c) a" if "a \<in> set (ks_assets c)" for a
  proof -
    have "as_item a \<in> set (map ci_id (ks_items c))" using known(13) [OF that] by (simp only: asset_item_ok_def)
    moreover have "as_item a \<noteq> iid" using assets that by auto
    ultimately have "as_item a \<in> set ?items" unfolding mem by (rule conjI)
    with known(13) [OF that] show ?thesis by (simp only: asset_item_ok_def)
  qed
  then have "list_all (asset_item_ok ?items (ks_assets c)) (ks_assets c)" by (simp add: list_all_iff)
  moreover have "set (map nt_item (ks_notes c)) \<subseteq> set ?items"
  proof
    fix x assume "x \<in> set (map nt_item (ks_notes c))"
    with known(10) unnoted have "x \<in> set (map ci_id (ks_items c)) \<and> x \<noteq> iid" by auto
    then show "x \<in> set ?items" unfolding mem .
  qed
  moreover have "set (map en_item (filter (\<lambda>e. en_item e \<noteq> iid) (ks_entities c @ ks_triples c))) \<subseteq> set ?items"
    using known(11,12) by auto
  moreover have "set (map ci_collection (filter (\<lambda>i. ci_id i \<noteq> iid) (ks_items c))) \<subseteq> set (map cc_id (ks_collections c))"
    using known(4) by auto
  ultimately show ?thesis
    unfolding corpus_ok_def Let_def
    using known by (simp add: distinct_map_filter)
qed

lemma discard_ok:
  assumes "corpus_ok c"
  shows "corpus_ok (discard iid c)"
proof -
  let ?d = "remove_assets (asset_ids_of [iid] c) c"
  have "corpus_ok ?d" using assms by (rule remove_own_assets_ok)
  moreover have "iid \<notin> as_item ` set (ks_assets ?d)" by (auto simp: remove_own_assets [OF assms] Let_def)
  ultimately show ?thesis by (auto simp: discard_def Let_def list_ex_iff intro!: drop_item_ok)
qed

lemma insert_item_ok:
  assumes "corpus_ok c" and "find_collection (ci_collection i) c \<noteq> None" and "find_item (ci_id i) c = None"
  shows "corpus_ok (c\<lparr>ks_items := ks_items c @ [i]\<rparr>)"
proof -
  note known = corpus_ok_known [OF assms(1)]
  have "asset_item_ok (map ci_id (ks_items c @ [i])) (ks_assets c) a" if "a \<in> set (ks_assets c)" for a
    using known(13) [OF that] by (auto simp: asset_item_ok_def)
  then have "list_all (asset_item_ok (map ci_id (ks_items c @ [i])) (ks_assets c)) (ks_assets c)"
    by (simp add: list_all_iff)
  moreover have "ci_collection i \<in> set (map cc_id (ks_collections c))"
    using assms(2) by (simp only: find_collection_id)
  moreover have "ci_id i \<notin> set (map ci_id (ks_items c))"
    using assms(3) by (auto simp: find_item_None)
  ultimately show ?thesis unfolding corpus_ok_def Let_def using known by auto
qed

lemma record_files_ok:
  assumes ok: "corpus_ok c" and "record_files w f key pages c = Some (n, d)"
  shows "corpus_ok d"
proof -
  note known = corpus_ok_known [OF ok]
  let ?rows = "new_assets w f key pages"
  from assms(2) have d: "d = c\<lparr>ks_assets := ks_assets c @ ?rows\<rparr>" and item: "find_item (im_item w) c \<noteq> None"
    and len: "length (im_asset_ids w) = 1 + length pages" and ids: "distinct (im_asset_ids w)"
      "set (im_asset_ids w) \<inter> as_id ` set (ks_assets c) = {}"
    by (auto simp: record_files_def Let_def split: if_splits)
  obtain parent rest where im: "im_asset_ids w = parent # rest" "length rest = length pages"
    using len by (cases "im_asset_ids w") auto
  have "map as_id (map (\<lambda>(aid, n, bytes, page_key). new_asset w aid page_key FkPdf bytes (Some parent) (Some n))
      (zip rest pages)) = rest"
    using im(2) by (induction rest pages rule: list_induct2) (auto simp: new_asset_def)
  then have rows_ids: "map as_id ?rows = im_asset_ids w" by (simp add: new_assets_def im new_asset_def)
  have rows_item: "as_item a = im_item w" if "a \<in> set ?rows" for a
    using that by (auto simp: new_assets_def im new_asset_def)
  have rows_parent: "as_parent a = None \<or> as_parent a = Some parent" if "a \<in> set ?rows" for a
    using that by (auto simp: new_assets_def im new_asset_def)
  have head: "new_asset w parent key (sf_kind f) (sf_size f) None None \<in> set ?rows" by (simp add: new_assets_def im)
  have "asset_item_ok (map ci_id (ks_items c)) (ks_assets c @ ?rows) a" if a: "a \<in> set (ks_assets c @ ?rows)" for a
  proof (cases "a \<in> set (ks_assets c)")
    case True
    with known(13) [OF True] show ?thesis by (auto simp: asset_item_ok_def split: option.splits)
  next
    case False
    with a have r: "a \<in> set ?rows" by simp
    have "im_item w \<in> set (map ci_id (ks_items c))" using item by (auto simp: find_item_None)
    moreover have "list_ex (\<lambda>b. as_id b = parent \<and> as_item b = im_item w) ?rows"
      using head rows_item [OF head] unfolding list_ex_iff by (intro bexI [OF _ head]) (simp add: new_asset_def)
    ultimately show ?thesis
      using rows_item [OF r] rows_parent [OF r] by (auto simp: asset_item_ok_def)
  qed
  then have "list_all (asset_item_ok (map ci_id (ks_items c)) (ks_assets c @ ?rows)) (ks_assets c @ ?rows)"
    by (simp add: list_all_iff)
  moreover have "map as_id (ks_assets c @ ?rows) = map as_id (ks_assets c) @ im_asset_ids w"
    by (simp only: map_append rows_ids)
  then have "distinct (map as_id (ks_assets c @ ?rows))" using known(3) ids by (auto simp: Int_commute)
  ultimately show ?thesis unfolding corpus_ok_def Let_def d using known by auto
qed

lemma admit_item_ok:
  assumes "corpus_ok c" and "admit_item w collection f stored ov c = Inr (r, d)"
  shows "corpus_ok d"
  using assms by (auto simp: admit_item_def imported_item_def split: sum.splits option.splits if_splits intro!: insert_item_ok)

lemma import_file_ok:
  assumes "corpus_ok c" and others: "\<And>d. corpus_ok d \<Longrightarrow> corpus_ok (im_others w d)"
  shows "corpus_ok (snd (import_file w collection f ov c))"
proof -
  have "corpus_ok (snd (let c2 = im_others w c1 in
      case im_copied w of None \<Rightarrow> (Inl IeFile, discard (im_item w) c2)
      | Some (key, pages) \<Rightarrow> if sf_kind f = FkPdf \<and> pages = [] then (Inl IeFile, discard (im_item w) c2)
         else (case record_files w f key (if sf_kind f = FkPdf then pages else []) c2 of
             None \<Rightarrow> (Inl (IeCorpus CeUnavailable), discard (im_item w) c2)
           | Some (n, c3) \<Rightarrow> (Inr (Imported (im_item w) (title_with_override f ov) n), c3))))"
    if "corpus_ok c1" for c1
    using others [OF that] discard_ok record_files_ok by (auto simp: Let_def split: option.split prod.split)
  with assms(1) show ?thesis
    using admit_item_ok by (auto simp: import_file_def split: option.split sum.split prod.split)
qed

end
