(* ===== verification/AgentApprovals.thy ===== *)
theory AgentApprovals
  imports QueueCommands CorpusImport
begin

text \<open>
  What an assistant asked for and the person has to answer
  (\<open>apps/desktop/src-tauri/src/automation/approvals.rs\<close>): the store of requests, and what an
  approved request runs over the tables of the queue and of the archive.

  The store is a list; the program keeps a hash map by identifier. The clock and fresh identifiers
  are arguments, notifications are left out. Of an error its stable prefix is kept, which decides
  the sentence shown.
\<close>

section \<open>Requests\<close>

datatype approval_action =
    ActStart
  | ActResume
  | ActRetry "str option" bool
  | ActReplaceText str str str str
  | ActImportFiles str nat str
  | ActDeleteItems "str list" str
  | ActDeleteCollection str str

datatype approval_status = ApPending | ApApproved | ApFailed | ApRejected | ApExpired

record import_view =
  iv_name :: str
  iv_kind :: file_kind
  iv_size :: nat

record delete_plan =
  dp_impact :: delete_impact
  dp_titles :: "str list"
  dp_targets :: "(str \<times> str) list"

datatype skip_reason = SkSource source_error | SkChanged | SkDuplicate str | SkFailed import_error

record import_result =
  ir_collection :: str
  ir_imported :: "(str \<times> str \<times> str) list"
  ir_skipped :: "(str \<times> skip_reason) list"

datatype exec_error = XDeleteChanged | XDeleteMissing | XRevisionConflict | XInvalidTransition | XOther

record approval =
  ap_id :: str
  ap_client :: str
  ap_client_name :: str
  ap_action :: approval_action
  ap_job :: str
  ap_revision :: int
  ap_operations :: "str list"
  ap_collections :: "str list"
  ap_files :: int
  ap_status :: approval_status
  ap_created :: int
  ap_expires :: int
  ap_decided :: "int option"
  ap_failure :: "exec_error option"
  ap_preview :: "str option"
  ap_text :: "str option"
  ap_import_files :: "import_view list option"
  ap_impact :: "delete_impact option"
  ap_titles :: "str list option"
  ap_targets :: "(str \<times> str) list option"
  ap_plan :: "source_file list option"
  ap_result :: "import_result option"

record approval_request =
  qr_client :: str
  qr_client_name :: str
  qr_action :: approval_action
  qr_job :: str
  qr_revision :: int
  qr_operations :: "str list"
  qr_collections :: "str list"
  qr_files :: int
  qr_preview :: "str option"
  qr_text :: "str option"
  qr_plan :: "source_file list option"
  qr_delete :: "delete_plan option"

definition approval_ttl_ms :: int where
  "approval_ttl_ms = 10 * 60 * 1000"

definition import_view_of :: "source_file \<Rightarrow> import_view" where
  "import_view_of f = \<lparr>iv_name = sf_name f, iv_kind = sf_kind f, iv_size = sf_size f\<rparr>"

definition new_approval :: "str \<Rightarrow> int \<Rightarrow> approval_request \<Rightarrow> approval" where
  "new_approval aid now r =
     \<lparr>ap_id = aid, ap_client = qr_client r, ap_client_name = qr_client_name r, ap_action = qr_action r,
      ap_job = qr_job r, ap_revision = qr_revision r, ap_operations = qr_operations r,
      ap_collections = qr_collections r, ap_files = qr_files r, ap_status = ApPending,
      ap_created = now, ap_expires = now + approval_ttl_ms, ap_decided = None, ap_failure = None,
      ap_preview = qr_preview r, ap_text = qr_text r,
      ap_import_files = map_option (map import_view_of) (qr_plan r),
      ap_impact = map_option dp_impact (qr_delete r), ap_titles = map_option dp_titles (qr_delete r),
      ap_targets = map_option dp_targets (qr_delete r), ap_plan = qr_plan r, ap_result = None\<rparr>"

section \<open>The store\<close>

definition expire_one :: "int \<Rightarrow> approval \<Rightarrow> approval" where
  "expire_one now a =
     (if ap_status a = ApPending \<and> now \<ge> ap_expires a then a\<lparr>ap_status := ApExpired\<rparr> else a)"

definition expire :: "int \<Rightarrow> approval list \<Rightarrow> approval list" where
  "expire now st = map (expire_one now) st"

definition find_approval :: "str \<Rightarrow> approval list \<Rightarrow> approval option" where
  "find_approval aid st = find (\<lambda>a. ap_id a = aid) st"

definition update_approval :: "str \<Rightarrow> (approval \<Rightarrow> approval) \<Rightarrow> approval list \<Rightarrow> approval list" where
  "update_approval aid f st = map (\<lambda>a. if ap_id a = aid then f a else a) st"

definition is_same_request :: "approval_request \<Rightarrow> approval \<Rightarrow> bool" where
  "is_same_request r a \<longleftrightarrow> ap_status a = ApPending \<and> ap_client a = qr_client r \<and> ap_job a = qr_job r
     \<and> ap_revision a = qr_revision r \<and> ap_action a = qr_action r"

definition request_approval ::
  "str \<Rightarrow> int \<Rightarrow> approval_request \<Rightarrow> approval list \<Rightarrow> approval \<times> approval list" where
  "request_approval aid now r st =
     (let st1 = expire now st in
      case find (is_same_request r) st1 of
        Some a \<Rightarrow> (a, st1)
      | None \<Rightarrow> (new_approval aid now r, st1 @ [new_approval aid now r]))"

definition get_for_client :: "int \<Rightarrow> str \<Rightarrow> str \<Rightarrow> approval list \<Rightarrow> approval option \<times> approval list" where
  "get_for_client now client aid st =
     (let st1 = expire now st in (opt_filter (\<lambda>a. ap_client a = client) (find_approval aid st1), st1))"

definition pending_approvals :: "int \<Rightarrow> approval list \<Rightarrow> approval list \<times> approval list" where
  "pending_approvals now st =
     (let st1 = expire now st in
      (sort_key ap_created (sort_key ap_id (filter (\<lambda>a. ap_status a = ApPending) st1)), st1))"

section \<open>Running an approved request\<close>

record agent_world =
  wd_queue :: queue
  wd_corpus :: corpus

text \<open>
  What a run meets: the digests of a retry and of a text, the clock, whether the index and the commit
  accept, what other threads do before the transaction of a text, and for each file of an import
  the disk and the world of its import.
\<close>

record exec_env =
  xe_digest :: "str list \<Rightarrow> str"
  xe_sha :: "str \<Rightarrow> str"
  xe_now :: int
  xe_indexed :: bool
  xe_committed :: bool
  xe_others :: "corpus \<Rightarrow> corpus"
  xe_disk :: "nat \<Rightarrow> disk"
  xe_import :: "nat \<Rightarrow> import_world"

record exec_context =
  xc_data_dir :: "path option"
  xc_cache_dir :: "path option"
  xc_folders :: "path list"

definition no_context :: exec_context where
  "no_context = \<lparr>xc_data_dir = None, xc_cache_dir = None, xc_folders = []\<rparr>"

definition queue_failure :: "queue_error \<Rightarrow> exec_error" where
  "queue_failure err =
     (case err of RevisionConflict \<Rightarrow> XRevisionConflict | InvalidTransition \<Rightarrow> XInvalidTransition | _ \<Rightarrow> XOther)"

definition fence_revision :: "str \<Rightarrow> int \<Rightarrow> queue \<Rightarrow> queue_error option" where
  "fence_revision job revision q =
     (case find_batch job q of
        None \<Rightarrow> Some InvalidSelection
      | Some b \<Rightarrow> if bt_revision b \<noteq> revision then Some RevisionConflict else None)"

definition retry_request :: "approval \<Rightarrow> str" where
  "retry_request a = tx ''agent:'' @ ap_client a @ tx '':'' @ ap_id a"

definition with_queue :: "agent_world \<Rightarrow> queue_error option \<times> queue \<Rightarrow> exec_error option \<times> agent_world" where
  "with_queue w r = (map_option queue_failure (fst r), w\<lparr>wd_queue := snd r\<rparr>)"

definition execute :: "exec_env \<Rightarrow> approval \<Rightarrow> agent_world \<Rightarrow> exec_error option \<times> agent_world" where
  "execute e a w =
     (let q = wd_queue w in
      case ap_action a of
        ActStart \<Rightarrow> with_queue w
          (case start_batch (ap_job a) (Some (ap_revision a)) q of Inl err \<Rightarrow> (Some err, q) | Inr q1 \<Rightarrow> (None, q1))
      | ActResume \<Rightarrow> with_queue w (control_batches (Some (ap_job a)) AResume (Some (ap_revision a)) q)
      | ActRetry single failed_only \<Rightarrow>
          (case fence_revision (ap_job a) (ap_revision a) q of
             Some err \<Rightarrow> with_queue w (Some err, q)
           | None \<Rightarrow> with_queue w
               (case retry_batch (xe_digest e) (retry_request a) (ap_job a) single failed_only q of
                  (Inl err, q1) \<Rightarrow> (Some err, q1) | (Inr n, q1) \<Rightarrow> (None, q1)))
      | ActReplaceText item asset hash new_hash \<Rightarrow>
          (case ap_text a of
             None \<Rightarrow> (Some XInvalidTransition, w)
           | Some text \<Rightarrow>
               (case replace_page_text (xe_sha e) (xe_now e) (xe_indexed e) (xe_others e) asset hash text (wd_corpus w) of
                  (Inl err, c) \<Rightarrow>
                    (Some (if err = CeConflict then XRevisionConflict else XOther), w\<lparr>wd_corpus := c\<rparr>)
                | (Inr r, c) \<Rightarrow> (None, w\<lparr>wd_corpus := c\<rparr>)))
      | _ \<Rightarrow> (Some XInvalidTransition, w))"

definition delete_error :: "corpus_error \<Rightarrow> exec_error" where
  "delete_error err =
     (case err of CeConflict \<Rightarrow> XDeleteChanged | CeNotFound \<Rightarrow> XDeleteMissing | _ \<Rightarrow> XOther)"

definition with_delete ::
  "agent_world \<Rightarrow> (corpus_error + delete_outcome) \<times> corpus \<Rightarrow> exec_error option \<times> agent_world" where
  "with_delete w r = (case fst r of Inl err \<Rightarrow> Some (delete_error err) | Inr out \<Rightarrow> None, w\<lparr>wd_corpus := snd r\<rparr>)"

definition run_delete ::
  "exec_env \<Rightarrow> exec_context \<Rightarrow> approval \<Rightarrow> agent_world \<Rightarrow> exec_error option \<times> agent_world" where
  "run_delete e x a w =
     (if xc_data_dir x = None \<or> xc_cache_dir x = None then (Some XInvalidTransition, w)
      else (case ap_action a of
          ActDeleteItems ids hash \<Rightarrow>
            with_delete w (delete_items_if_unchanged (xe_sha e) (xe_committed e) ids hash (wd_corpus w))
        | ActDeleteCollection cid hash \<Rightarrow>
            with_delete w (delete_collection_if_unchanged (xe_sha e) (xe_committed e) cid hash (wd_corpus w))
        | _ \<Rightarrow> (None, w)))"

text \<open>One planned file: checked again, then imported.\<close>

definition import_planned ::
  "exec_env \<Rightarrow> path list \<Rightarrow> path \<Rightarrow> str \<Rightarrow> nat \<Rightarrow> source_file \<Rightarrow> corpus \<Rightarrow>
   (skip_reason + str \<times> str) \<times> corpus" where
  "import_planned e folders data_dir collection i planned c =
     (let dk = xe_disk e i in
      case check_source dk (dk_text dk (sf_path planned)) folders data_dir of
        Inl err \<Rightarrow> (Inl (SkSource err), c)
      | Inr current \<Rightarrow>
          if sf_size current \<noteq> sf_size planned \<or> sf_modified current \<noteq> sf_modified planned
          then (Inl SkChanged, c)
          else (case import_file (xe_import e i) collection current no_overrides c of
              (Inr (Imported iid title n), c1) \<Rightarrow> (Inr (iid, title), c1)
            | (Inr (Duplicate iid), c1) \<Rightarrow> (Inl (SkDuplicate iid), c1)
            | (Inl err, c1) \<Rightarrow> (Inl (SkFailed err), c1)))"

fun import_plan ::
  "exec_env \<Rightarrow> path list \<Rightarrow> path \<Rightarrow> str \<Rightarrow> nat \<Rightarrow> source_file list \<Rightarrow> import_result \<times> corpus \<Rightarrow>
   import_result \<times> corpus" where
  "import_plan e folders data_dir collection i [] (r, c) = (r, c)"
| "import_plan e folders data_dir collection i (f # fs) (r, c) =
     (case import_planned e folders data_dir collection i f c of
        (Inl why, c1) \<Rightarrow> import_plan e folders data_dir collection (i + 1) fs
          (r\<lparr>ir_skipped := ir_skipped r @ [(sf_name f, why)]\<rparr>, c1)
      | (Inr (iid, title), c1) \<Rightarrow> import_plan e folders data_dir collection (i + 1) fs
          (r\<lparr>ir_imported := ir_imported r @ [(sf_name f, iid, title)]\<rparr>, c1))"

definition run_import ::
  "exec_env \<Rightarrow> exec_context \<Rightarrow> approval \<Rightarrow> str \<Rightarrow> agent_world \<Rightarrow> (exec_error + import_result) \<times> agent_world" where
  "run_import e x a collection w =
     (case (xc_data_dir x, ap_plan a) of
        (Some data_dir, Some plan) \<Rightarrow>
          (case import_plan e (xc_folders x) data_dir collection 0 plan
             (\<lparr>ir_collection = collection, ir_imported = [], ir_skipped = []\<rparr>, wd_corpus w) of
             (r, c) \<Rightarrow> (Inr r, w\<lparr>wd_corpus := c\<rparr>))
      | _ \<Rightarrow> (Inl XInvalidTransition, w))"

section \<open>The answer\<close>

datatype decide_error = UnknownApproval | ApprovalExpired | ApprovalUsed

definition answered :: "int \<Rightarrow> bool \<Rightarrow> approval \<Rightarrow> approval" where
  "answered now approve a =
     a\<lparr>ap_decided := Some now, ap_status := (if approve then ApApproved else ApRejected)\<rparr>"

text \<open>The part under the lock: who answers first claims the request.\<close>

definition claim_approval ::
  "int \<Rightarrow> str \<Rightarrow> bool \<Rightarrow> approval list \<Rightarrow> (decide_error + approval option) \<times> approval list" where
  "claim_approval now aid approve st =
     (let st1 = expire now st in
      case find_approval aid st1 of
        None \<Rightarrow> (Inl UnknownApproval, st1)
      | Some a \<Rightarrow>
          (case ap_status a of
             ApPending \<Rightarrow>
               (Inr (if approve then Some (answered now approve a) else None),
                update_approval aid (answered now approve) st1)
           | ApExpired \<Rightarrow> (Inl ApprovalExpired, st1)
           | _ \<Rightarrow> (Inl ApprovalUsed, st1)))"

definition run_approved ::
  "exec_env \<Rightarrow> exec_context \<Rightarrow> approval \<Rightarrow> agent_world \<Rightarrow>
   (exec_error + import_result option) \<times> agent_world" where
  "run_approved e x a w =
     (let outcome = (\<lambda>r. (case fst r of Some err \<Rightarrow> Inl err | None \<Rightarrow> Inr None, snd r)) in
      case ap_action a of
        ActImportFiles collection n hash \<Rightarrow>
          (case run_import e x a collection w of (r, w1) \<Rightarrow> (map_sum id Some r, w1))
      | ActDeleteItems ids hash \<Rightarrow> outcome (run_delete e x a w)
      | ActDeleteCollection cid hash \<Rightarrow> outcome (run_delete e x a w)
      | _ \<Rightarrow> outcome (execute e a w))"

definition settled :: "exec_error + import_result option \<Rightarrow> approval \<Rightarrow> approval" where
  "settled r a =
     (let b = a\<lparr>ap_text := None, ap_plan := None\<rparr> in
      case r of
        Inr result \<Rightarrow> b\<lparr>ap_result := result\<rparr>
      | Inl err \<Rightarrow> b\<lparr>ap_status := ApFailed, ap_failure := Some err\<rparr>)"

definition settle_approval :: "str \<Rightarrow> exec_error + import_result option \<Rightarrow> approval list \<Rightarrow> approval list" where
  "settle_approval aid r st = update_approval aid (settled r) st"

text \<open>\<open>others\<close>: what other threads do to the store while the action runs and before the last look.\<close>

definition decide_with ::
  "exec_env \<Rightarrow> exec_context \<Rightarrow> (approval list \<Rightarrow> approval list) \<times> (approval list \<Rightarrow> approval list) \<Rightarrow>
   int \<Rightarrow> str \<Rightarrow> bool \<Rightarrow> approval list \<times> agent_world \<Rightarrow>
   (decide_error + approval) \<times> approval list \<times> agent_world" where
  "decide_with e x others now aid approve s =
     (case claim_approval now aid approve (fst s) of
        (Inl err, st) \<Rightarrow> (Inl err, st, snd s)
      | (Inr claimed, st) \<Rightarrow>
          (case (case claimed of
                   None \<Rightarrow> (st, snd s)
                 | Some a \<Rightarrow>
                     (case run_approved e x a (snd s) of
                        (r, w1) \<Rightarrow> (settle_approval aid r (fst others st), w1))) of
             (st1, w1) \<Rightarrow>
               (let st2 = snd others st1 in
                (case find_approval aid st2 of None \<Rightarrow> Inl UnknownApproval | Some a \<Rightarrow> Inr a, st2, w1))))"

definition decide ::
  "exec_env \<Rightarrow> (approval list \<Rightarrow> approval list) \<times> (approval list \<Rightarrow> approval list) \<Rightarrow>
   int \<Rightarrow> str \<Rightarrow> bool \<Rightarrow> approval list \<times> agent_world \<Rightarrow>
   (decide_error + approval) \<times> approval list \<times> agent_world" where
  "decide e others now aid approve s = decide_with e no_context others now aid approve s"

end
