(* ===== verification/AgentAccess.thy ===== *)
theory AgentAccess
  imports Prelude
begin

text \<open>
  Who may talk to the agent endpoint (\<open>apps/desktop/src-tauri/src/automation/access.rs\<close>): the paired
  clients, their scopes, their tokens, and the folders imports may read.

  The state is what the program holds in memory beside what it has stored: the access file, the
  entries of the keyring and the token files, both by client. What the machine answers during one
  operation (the clock, the keyring, whether a write succeeds) is an \<open>access_env\<close>. The digest of the
  \<open>sha2\<close> crate is the argument \<open>sha\<close>, fresh identifiers and tokens are arguments. A file is what its
  text is read back as; \<open>write_atomic\<close> replaces it whole or leaves it. The texts of errors are
  dropped, and so is a poisoned lock.
\<close>

section \<open>Types\<close>

datatype scope = ScRead | ScLocalWrite | ScRemoteSpend | ScExternalWrite | ScAdmin | ScWeb

datatype token_store = TsKeyring | TsFile

record client_record =
  cl_id :: str
  cl_name :: str
  cl_scopes :: "scope list"
  cl_hash :: str
  cl_store :: token_store
  cl_created :: int
  cl_used :: "int option"

record access_state =
  gs_version :: nat
  gs_enabled :: bool
  gs_clients :: "client_record list"
  gs_folders :: "str list"

definition access_file_version :: nat where
  "access_file_version = 1"

definition default_access :: access_state where
  "default_access = \<lparr>gs_version = access_file_version, gs_enabled = False, gs_clients = [], gs_folders = []\<rparr>"

record client_view =
  vw_id :: str
  vw_name :: str
  vw_scopes :: "scope list"
  vw_store :: token_store
  vw_created :: int
  vw_used :: "int option"

record access_view =
  av_enabled :: bool
  av_clients :: "client_view list"
  av_folders :: "str list"

record grants =
  gr_local_write :: bool
  gr_remote_spend :: bool

record principal =
  pc_client :: str
  pc_name :: str
  pc_scopes :: "scope list"

definition has_scope :: "principal \<Rightarrow> scope \<Rightarrow> bool" where
  "has_scope p s \<longleftrightarrow> s \<in> set (pc_scopes p)"

definition scope_order :: "scope list" where
  "scope_order = [ScRead, ScLocalWrite, ScRemoteSpend, ScExternalWrite, ScAdmin, ScWeb]"

definition client_view_of :: "client_record \<Rightarrow> client_view" where
  "client_view_of c = \<lparr>vw_id = cl_id c, vw_name = cl_name c, vw_scopes = cl_scopes c, vw_store = cl_store c,
     vw_created = cl_created c, vw_used = cl_used c\<rparr>"

text \<open>\<open>NoFile\<close>: missing or not readable. \<open>BadFile\<close>: not an access state.\<close>

datatype access_file = NoFile | BadFile | GoodFile access_state

record agent_access =
  aa_state :: access_state
  aa_file :: access_file
  aa_keyring :: "str \<rightharpoonup> str"
  aa_tokens :: "str \<rightharpoonup> str"

datatype keyring_answer = KStored | KUnavailable | KRefused

record access_env =
  ae_now :: int
  ae_write :: bool
  ae_keyring :: keyring_answer
  ae_keyring_delete :: bool
  ae_token_write :: bool
  ae_token_delete :: bool
  ae_rename :: bool

datatype access_error =
    InvalidName | UnknownClient | InvalidFolder | KeyringRefused | TokenFileFailed | PersistFailed
  | TokenLeft

section \<open>Start and storage\<close>

definition load_access :: "access_env \<Rightarrow> agent_access \<Rightarrow> agent_access" where
  "load_access e a =
     (case aa_file a of
        NoFile \<Rightarrow> a\<lparr>aa_state := default_access\<rparr>
      | BadFile \<Rightarrow> a\<lparr>aa_state := default_access, aa_file := (if ae_rename e then NoFile else BadFile)\<rparr>
      | GoodFile s \<Rightarrow>
          if gs_version s = access_file_version then a\<lparr>aa_state := s\<rparr>
          else a\<lparr>aa_state := default_access, aa_file := (if ae_rename e then NoFile else GoodFile s)\<rparr>)"

text \<open>The change of every operation that persists first: the file, then the memory.\<close>

definition store_state :: "access_env \<Rightarrow> access_state \<Rightarrow> agent_access \<Rightarrow> access_error + agent_access" where
  "store_state e s a =
     (if ae_write e then Inr (a\<lparr>aa_file := GoodFile s, aa_state := s\<rparr>) else Inl PersistFailed)"

definition view_access :: "agent_access \<Rightarrow> access_view" where
  "view_access a = \<lparr>av_enabled = gs_enabled (aa_state a), av_clients = map client_view_of (gs_clients (aa_state a)),
     av_folders = gs_folders (aa_state a)\<rparr>"

definition store_token ::
  "access_env \<Rightarrow> str \<Rightarrow> str \<Rightarrow> agent_access \<Rightarrow> (access_error + token_store) \<times> agent_access" where
  "store_token e cid token a =
     (case ae_keyring e of
        KStored \<Rightarrow> (Inr TsKeyring, a\<lparr>aa_keyring := (aa_keyring a)(cid \<mapsto> token)\<rparr>)
      | KUnavailable \<Rightarrow>
          if ae_token_write e then (Inr TsFile, a\<lparr>aa_tokens := (aa_tokens a)(cid \<mapsto> token)\<rparr>)
          else (Inl TokenFileFailed, a)
      | KRefused \<Rightarrow> (Inl KeyringRefused, a))"

definition delete_token :: "access_env \<Rightarrow> str \<Rightarrow> token_store \<Rightarrow> agent_access \<Rightarrow> bool \<times> agent_access" where
  "delete_token e cid store a =
     (let gone = (store = TsKeyring \<longrightarrow> ae_keyring_delete e);
          a1 = (if store = TsKeyring \<and> ae_keyring_delete e
            then a\<lparr>aa_keyring := (aa_keyring a)(cid := None)\<rparr> else a);
          a2 = (if ae_token_delete e then a1\<lparr>aa_tokens := (aa_tokens a1)(cid := None)\<rparr> else a1)
      in (gone \<and> ae_token_delete e, a2))"

definition is_enabled :: "agent_access \<Rightarrow> bool" where
  "is_enabled a = gs_enabled (aa_state a)"

definition set_enabled :: "access_env \<Rightarrow> bool \<Rightarrow> agent_access \<Rightarrow> access_error + agent_access" where
  "set_enabled e on a = store_state e ((aa_state a)\<lparr>gs_enabled := on\<rparr>) a"

section \<open>Clients\<close>

definition name_max_chars :: nat where
  "name_max_chars = 64"

definition token_prefix :: str where
  "token_prefix = tx ''eat_''"

definition mint_token :: "str \<Rightarrow> str \<Rightarrow> str" where
  "mint_token first second = token_prefix @ first @ second"

definition new_client :: "str \<Rightarrow> str \<Rightarrow> str \<Rightarrow> token_store \<Rightarrow> int \<Rightarrow> client_record" where
  "new_client cid name hash store now =
     \<lparr>cl_id = cid, cl_name = name, cl_scopes = [ScRead], cl_hash = hash, cl_store = store,
      cl_created = now, cl_used = None\<rparr>"

definition create_client ::
  "(str \<Rightarrow> str) \<Rightarrow> access_env \<Rightarrow> str \<Rightarrow> str \<Rightarrow> str \<Rightarrow> agent_access \<Rightarrow>
   (access_error + client_view) \<times> agent_access" where
  "create_client sha e cid token raw a =
     (let name = trim raw in
      if name = [] \<or> length name > name_max_chars \<or> list_ex is_control name then (Inl InvalidName, a)
      else (case store_token e cid token a of
          (Inl err, a1) \<Rightarrow> (Inl err, a1)
        | (Inr store, a1) \<Rightarrow>
            (let c = new_client cid name (sha token) store (ae_now e);
                 s = (aa_state a1)\<lparr>gs_clients := gs_clients (aa_state a1) @ [c]\<rparr>
             in (case store_state e s a1 of
                   Inl err \<Rightarrow> (Inl err, snd (delete_token e cid store a1))
                 | Inr a2 \<Rightarrow> (Inr (client_view_of c), a2)))))"

definition find_client :: "str \<Rightarrow> access_state \<Rightarrow> client_record option" where
  "find_client cid s = find (\<lambda>c. cl_id c = cid) (gs_clients s)"

definition revoke_client ::
  "access_env \<Rightarrow> str \<Rightarrow> agent_access \<Rightarrow> (access_error + bool) \<times> agent_access" where
  "revoke_client e cid a =
     (case find_client cid (aa_state a) of
        None \<Rightarrow> (Inr False, a)
      | Some c \<Rightarrow>
          (case store_state e ((aa_state a)\<lparr>gs_clients :=
              filter (\<lambda>x. cl_id x \<noteq> cid) (gs_clients (aa_state a))\<rparr>) a of
             Inl err \<Rightarrow> (Inl err, a)
           | Inr a1 \<Rightarrow>
               (case delete_token e (cl_id c) (cl_store c) a1 of
                  (gone, a2) \<Rightarrow> (if gone then Inr True else Inl TokenLeft, a2))))"

fun update_first :: "('a \<Rightarrow> bool) \<Rightarrow> ('a \<Rightarrow> 'a) \<Rightarrow> 'a list \<Rightarrow> 'a list" where
  "update_first p f [] = []"
| "update_first p f (x # xs) = (if p x then f x # xs else x # update_first p f xs)"

definition granted_scopes :: "grants \<Rightarrow> scope list \<Rightarrow> scope list" where
  "granted_scopes g scopes =
     filter (\<lambda>s. case s of ScLocalWrite \<Rightarrow> gr_local_write g | ScRemoteSpend \<Rightarrow> gr_remote_spend g
       | _ \<Rightarrow> s \<in> set scopes) scope_order"

definition set_grants ::
  "access_env \<Rightarrow> str \<Rightarrow> grants \<Rightarrow> agent_access \<Rightarrow> access_error + client_view \<times> agent_access" where
  "set_grants e cid g a =
     (case find_client cid (aa_state a) of
        None \<Rightarrow> Inl UnknownClient
      | Some c \<Rightarrow>
          (let d = c\<lparr>cl_scopes := granted_scopes g (cl_scopes c)\<rparr>;
               s = (aa_state a)\<lparr>gs_clients :=
                 update_first (\<lambda>x. cl_id x = cid) (\<lambda>_. d) (gs_clients (aa_state a))\<rparr>
           in map_sum id (Pair (client_view_of d)) (store_state e s a)))"

section \<open>Import folders\<close>

text \<open>What the path of a folder is on this machine: the plain form of its canonical path.\<close>

datatype folder_answer = FMissing | FNotDirectory | FRoot | FFolder str

definition add_import_folder ::
  "access_env \<Rightarrow> (str \<Rightarrow> folder_answer) \<Rightarrow> str \<Rightarrow> agent_access \<Rightarrow> (access_error + str list) \<times> agent_access" where
  "add_import_folder e fs path a =
     (if trim path = [] then (Inl InvalidFolder, a)
      else (case fs path of
          FFolder folder \<Rightarrow>
            (let s = aa_state a in
             if folder \<in> set (gs_folders s) then (Inr (gs_folders s), a)
             else (case store_state e (s\<lparr>gs_folders := sort (gs_folders s @ [folder])\<rparr>) a of
                 Inl err \<Rightarrow> (Inl err, a)
               | Inr a1 \<Rightarrow> (Inr (gs_folders (aa_state a1)), a1)))
        | _ \<Rightarrow> (Inl InvalidFolder, a)))"

definition remove_import_folder ::
  "access_env \<Rightarrow> str \<Rightarrow> agent_access \<Rightarrow> (access_error + str list) \<times> agent_access" where
  "remove_import_folder e path a =
     (let s = aa_state a in
      if path \<notin> set (gs_folders s) then (Inr (gs_folders s), a)
      else (case store_state e (s\<lparr>gs_folders := filter (\<lambda>f. f \<noteq> path) (gs_folders s)\<rparr>) a of
          Inl err \<Rightarrow> (Inl err, a)
        | Inr a1 \<Rightarrow> (Inr (gs_folders (aa_state a1)), a1)))"

section \<open>Authentication\<close>

definition last_used_persist_secs :: int where
  "last_used_persist_secs = 60"

definition principal_of :: "client_record \<Rightarrow> principal" where
  "principal_of c = \<lparr>pc_client = cl_id c, pc_name = cl_name c, pc_scopes = cl_scopes c\<rparr>"

text \<open>The use of a client is noted in memory, and in the file when that write succeeds.\<close>

definition note_use :: "access_env \<Rightarrow> str \<Rightarrow> agent_access \<Rightarrow> agent_access" where
  "note_use e hash a =
     (let s = (aa_state a)\<lparr>gs_clients := update_first (\<lambda>c. cl_hash c = hash)
            (\<lambda>c. c\<lparr>cl_used := Some (ae_now e)\<rparr>) (gs_clients (aa_state a))\<rparr>
      in a\<lparr>aa_state := s, aa_file := (if ae_write e then GoodFile s else aa_file a)\<rparr>)"

definition authenticate ::
  "(str \<Rightarrow> str) \<Rightarrow> access_env \<Rightarrow> str \<Rightarrow> agent_access \<Rightarrow> principal option \<times> agent_access" where
  "authenticate sha e token a =
     (if \<not> starts_with token_prefix token \<or> \<not> gs_enabled (aa_state a) then (None, a)
      else (case find (\<lambda>c. cl_hash c = sha token) (gs_clients (aa_state a)) of
          None \<Rightarrow> (None, a)
        | Some c \<Rightarrow>
            (Some (principal_of c),
             case cl_used c of
               None \<Rightarrow> note_use e (sha token) a
             | Some t \<Rightarrow> if ae_now e - t \<ge> last_used_persist_secs then note_use e (sha token) a else a)))"

end
