(* ===== verification/AgentTools.thy ===== *)
theory AgentTools
  imports AgentApprovals AgentAccess
begin

text \<open>
  The tools of an assistant that may change something: the processing tools
  (\<open>automation/jobs.rs\<close>), the corpus tools (\<open>automation/corpus_tools.rs\<close>) and the checks of scope
  in front of them (\<open>automation/mcp.rs\<close>).

  A call is what its arguments parse to. Tools that only read, the audit log, the
  announcements to the views and the sentences of refusals are left out. The response stored with
  the request of a created collection is the table \<open>ed_created\<close>.
\<close>

section \<open>State and environment\<close>

record created_collection =
  kc_id :: str
  kc_name :: str
  kc_description :: "str option"
  kc_created_at :: int
  kc_updated_at :: int

record endpoint =
  ed_approvals :: "approval list"
  ed_world :: agent_world
  ed_created :: "(str \<times> created_collection) list"

datatype jobs_error =
    JeNotFound | JeInvalidArgument | JeRevisionConflict | JeInvalidState | JeProvider | JeForbidden
  | JeUnavailable

text \<open>
  What one call meets: whether the archive opens with its queue ready, the clock, fresh identifiers, the
  compiled variant, the stored OpenRouter setting, the names of the collections of a job, the rest
  of the archive, the identifiers of schemas, the digests, the codec and the index of the corpus services,
  what other connections commit meanwhile, whether the commit succeeds, the disk, the enabled folders and
  the data directory.
\<close>

record tool_env =
  te_open :: bool
  te_now :: int
  te_approval :: str
  te_batch :: str
  te_collection :: str
  te_local_ml :: bool
  te_openrouter :: "str option"
  te_scope :: "str \<Rightarrow> str list"
  te_base :: archive
  te_schemas :: "str list"
  te_digest :: "str list \<Rightarrow> str"
  te_sha :: "str \<Rightarrow> str"
  te_codec :: codec
  te_indexed :: bool
  te_others :: "corpus \<Rightarrow> corpus"
  te_committed :: bool
  te_disk :: disk
  te_folders :: "path list"
  te_data_dir :: "path option"

definition service_code :: "bool \<Rightarrow> queue_error \<Rightarrow> jobs_error" where
  "service_code known err =
     (case err of
        InvalidSelection \<Rightarrow> if known then JeInvalidArgument else JeNotFound
      | RevisionConflict \<Rightarrow> JeRevisionConflict
      | InvalidTransition \<Rightarrow> JeInvalidState
      | _ \<Rightarrow> JeUnavailable)"

definition corpus_code :: "corpus_error \<Rightarrow> jobs_error" where
  "corpus_code err =
     (case err of CeInvalid \<Rightarrow> JeInvalidArgument | CeNotFound \<Rightarrow> JeNotFound
      | CeConflict \<Rightarrow> JeRevisionConflict | CeUnavailable \<Rightarrow> JeUnavailable)"

definition request_id_max_chars :: nat where
  "request_id_max_chars = 128"

definition is_request_id :: "str \<Rightarrow> bool" where
  "is_request_id r \<longleftrightarrow> trim r \<noteq> [] \<and> length r \<le> request_id_max_chars \<and> \<not> list_ex is_control r"

definition agent_request :: "str \<Rightarrow> str \<Rightarrow> str" where
  "agent_request client r = tx ''agent:'' @ client @ tx '':'' @ r"

section \<open>Processing\<close>

definition is_always_remote :: "str \<Rightarrow> bool" where
  "is_always_remote op \<longleftrightarrow> op = tx ''ocr_correction''"

definition runs_on_openrouter_in_lite :: "str \<Rightarrow> bool" where
  "runs_on_openrouter_in_lite op \<longleftrightarrow>
     op \<in> {tx ''embeddings'', tx ''ner'', tx ''triples'', tx ''summary''} \<or> starts_with (tx ''schema:'') op"

definition needs_openrouter_key :: "str list \<Rightarrow> bool \<Rightarrow> bool" where
  "needs_openrouter_key operations local_ml \<longleftrightarrow>
     list_ex (\<lambda>op. is_always_remote op \<or> \<not> local_ml \<and> runs_on_openrouter_in_lite op) operations"

definition openrouter_configured :: "str option \<Rightarrow> bool" where
  "openrouter_configured v \<longleftrightarrow> (case v of None \<Rightarrow> False | Some t \<Rightarrow> trim t \<noteq> [])"

text \<open>The operations an assistant may name are those the services keep.\<close>

definition is_known_operation :: "str \<Rightarrow> bool" where
  "is_known_operation op \<longleftrightarrow>
     op \<in> {tx ''ocr'', tx ''embeddings'', tx ''ner'', tx ''triples'', tx ''ocr_correction'', tx ''summary''}
     \<or> (case strip_prefix (tx ''schema:'') op of None \<Rightarrow> False | Some i \<Rightarrow> i \<noteq> [])"

record prepare_report =
  pp_job :: str
  pp_created :: bool
  pp_files :: nat
  pp_operations :: "str list"
  pp_state :: batch_state
  pp_revision :: int

definition report_of :: "prepare_response \<Rightarrow> batch \<Rightarrow> prepare_report" where
  "report_of r b = \<lparr>pp_job = bt_id b, pp_created = pr_created r, pp_files = pr_members r,
     pp_operations = bt_operations b, pp_state = bt_state b, pp_revision = bt_revision b\<rparr>"

definition prepare_job ::
  "tool_env \<Rightarrow> str \<Rightarrow> str \<Rightarrow> str list \<Rightarrow> str list \<Rightarrow> str list \<Rightarrow> agent_world \<Rightarrow>
   (jobs_error + prepare_report) \<times> agent_world" where
  "prepare_job e client request collections items operations w =
     (if \<not> is_request_id request \<or> \<not> list_all is_known_operation operations \<or> collections = [] \<and> items = []
      then (Inl JeInvalidArgument, w)
      else if \<not> te_open e then (Inl JeUnavailable, w)
      else if needs_openrouter_key operations (te_local_ml e) \<and> \<not> openrouter_configured (te_openrouter e)
      then (Inl JeProvider, w)
      else (case prepare_batch (archive_of (te_base e) (wd_corpus w)) (te_digest e)
              (map cc_id (ks_collections (wd_corpus w))) (te_schemas e) (te_batch e) (te_now e)
              (agent_request client request) collections items operations (wd_queue w) of
          Inl err \<Rightarrow> (Inl (service_code True err), w)
        | Inr (r, q) \<Rightarrow>
            (case find_batch (pr_batch r) q of
               None \<Rightarrow> (Inl JeNotFound, w\<lparr>wd_queue := q\<rparr>)
             | Some b \<Rightarrow> (Inr (report_of r b), w\<lparr>wd_queue := q\<rparr>))))"

definition admits :: "approval_action \<Rightarrow> batch \<Rightarrow> bool" where
  "admits action b =
     (case action of
        ActStart \<Rightarrow> bt_state b = BReady
      | ActResume \<Rightarrow> bt_desired b = DPause
          \<and> bt_state b \<notin> {BCompleted, BCompletedWithErrors, BCancelled, BCancelling, BPreparing, BReady}
      | ActRetry single failed_only \<Rightarrow> bt_state b \<notin> {BCancelled, BCancelling}
      | _ \<Rightarrow> False)"

definition job_request :: "tool_env \<Rightarrow> principal \<Rightarrow> approval_action \<Rightarrow> batch \<Rightarrow> queue \<Rightarrow> approval_request" where
  "job_request e p action b q =
     \<lparr>qr_client = pc_client p, qr_client_name = pc_name p, qr_action = action, qr_job = bt_id b,
      qr_revision = bt_revision b, qr_operations = bt_operations b, qr_collections = te_scope e (bt_id b),
      qr_files = int (length (filter (\<lambda>m. mb_batch m = bt_id b) (q_members q))), qr_preview = None,
      qr_text = None, qr_plan = None, qr_delete = None\<rparr>"

text \<open>A request that passed its checks: what the store answers.\<close>

definition ask_owner :: "tool_env \<Rightarrow> approval_request \<Rightarrow> approval list \<Rightarrow> (jobs_error + approval) \<times> approval list" where
  "ask_owner e r st = (case request_approval (te_approval e) (te_now e) r st of (a, st1) \<Rightarrow> (Inr a, st1))"

definition request_job_approval ::
  "tool_env \<Rightarrow> principal \<Rightarrow> approval_action \<Rightarrow> str \<Rightarrow> int \<Rightarrow> queue \<Rightarrow> approval list \<Rightarrow>
   (jobs_error + approval) \<times> approval list" where
  "request_job_approval e p action job revision q st =
     (if \<not> te_open e then (Inl JeUnavailable, st)
      else (case find_batch job q of
          None \<Rightarrow> (Inl JeNotFound, st)
        | Some b \<Rightarrow>
            if bt_revision b \<noteq> revision then (Inl JeRevisionConflict, st)
            else if \<not> admits action b then (Inl JeInvalidState, st)
            else ask_owner e (job_request e p action b q) st))"

definition control_now ::
  "tool_env \<Rightarrow> str \<Rightarrow> batch_action \<Rightarrow> int option \<Rightarrow> agent_world \<Rightarrow> (jobs_error + batch) \<times> agent_world" where
  "control_now e job action revision w =
     (if \<not> te_open e then (Inl JeUnavailable, w)
      else (case control_batches (Some job) action revision (wd_queue w) of
          (Some err, q) \<Rightarrow> (Inl (service_code (find_batch job (wd_queue w) \<noteq> None) err), w\<lparr>wd_queue := q\<rparr>)
        | (None, q) \<Rightarrow>
            (case find_batch job q of
               None \<Rightarrow> (Inl JeUnavailable, w\<lparr>wd_queue := q\<rparr>)
             | Some b \<Rightarrow> (Inr b, w\<lparr>wd_queue := q\<rparr>))))"

section \<open>Corpus edits\<close>

definition created_of :: "collection_row \<Rightarrow> created_collection" where
  "created_of x = \<lparr>kc_id = cc_id x, kc_name = cc_name x, kc_description = cc_description x,
     kc_created_at = cc_created x, kc_updated_at = cc_updated x\<rparr>"

text \<open>\<open>create_collection\<close>: the answer and whether this call created it.\<close>

definition create_collection_once ::
  "tool_env \<Rightarrow> str \<Rightarrow> str \<Rightarrow> str \<Rightarrow> str option \<Rightarrow> endpoint \<Rightarrow>
   (jobs_error + created_collection \<times> bool) \<times> endpoint" where
  "create_collection_once e client request name description s =
     (let w = ed_world s; key = agent_request client request;
          hash = te_sha e (join [0] [tx ''collection_create'', name, unwrap_or [] description])
      in if \<not> is_request_id request then (Inl JeInvalidArgument, s)
         else if \<not> te_open e then (Inl JeUnavailable, s)
         else (case find_request key (wd_queue w) of
             Some previous \<Rightarrow>
               (if rq_payload previous \<noteq> hash then Inl JeInvalidArgument
                else (case map_of (ed_created s) key of
                    None \<Rightarrow> Inl JeUnavailable
                  | Some x \<Rightarrow> if te_committed e then Inr (x, False) else Inl JeUnavailable), s)
           | None \<Rightarrow>
               (case create_collection (te_now e) (te_collection e) name description None (wd_corpus w) of
                  Inl err \<Rightarrow> (Inl (corpus_code err), s)
                | Inr (x, c) \<Rightarrow>
                    (case record_request \<lparr>rq_id = key, rq_action = tx ''collection_create'', rq_batch = None,
                        rq_payload = hash, rq_response = 0\<rparr> (wd_queue w) of
                       Inl err \<Rightarrow> (Inl JeUnavailable, s)
                     | Inr q \<Rightarrow>
                         if te_committed e
                         then (Inr (created_of x, True), s\<lparr>ed_world := w\<lparr>wd_queue := q, wd_corpus := c\<rparr>,
                           ed_created := (key, created_of x) # ed_created s\<rparr>)
                         else (Inl JeUnavailable, s)))))"

definition update_collection_at ::
  "tool_env \<Rightarrow> str \<Rightarrow> int \<Rightarrow> collection_patch \<Rightarrow> agent_world \<Rightarrow> (jobs_error + collection_row) \<times> agent_world" where
  "update_collection_at e cid revision p w =
     (if \<not> te_open e then (Inl JeUnavailable, w)
      else (case update_collection (te_now e) (te_others e) cid p (Some revision) (wd_corpus w) of
          (r, c) \<Rightarrow> (map_sum corpus_code id r, w\<lparr>wd_corpus := c\<rparr>)))"

text \<open>What an assistant sees of the metadata of an item.\<close>

definition visible_metadata :: "json \<Rightarrow> json" where
  "visible_metadata v = (case as_object v of
     Some m \<Rightarrow> JObject (filter (\<lambda>(k, x). \<not> is_reserved k) m) | None \<Rightarrow> v)"

record updated_item =
  ui_id :: str
  ui_title :: str
  ui_collection :: str
  ui_metadata :: json
  ui_created :: int
  ui_updated :: int

definition updated_view :: "codec \<Rightarrow> citem \<Rightarrow> updated_item" where
  "updated_view cx i = \<lparr>ui_id = ci_id i, ui_title = ci_title i, ui_collection = ci_collection i,
     ui_metadata = visible_metadata (unwrap_or JNull (Option.bind (ci_metadata i) (cx_parse cx))),
     ui_created = ci_created i, ui_updated = ci_updated i\<rparr>"

definition update_item_at ::
  "tool_env \<Rightarrow> str \<Rightarrow> int \<Rightarrow> str option \<Rightarrow> (str \<times> str) list option \<Rightarrow> agent_world \<Rightarrow>
   (jobs_error + updated_item) \<times> agent_world" where
  "update_item_at e iid revision title metadata w =
     (if \<not> te_open e then (Inl JeUnavailable, w)
      else (case update_item (te_codec e) (te_now e) (te_indexed e) (te_others e) iid
              \<lparr>iq_title = title, iq_metadata = metadata, iq_json = None\<rparr> (Some revision) (wd_corpus w) of
          (r, c) \<Rightarrow> (map_sum corpus_code (updated_view (te_codec e)) r, w\<lparr>wd_corpus := c\<rparr>)))"

definition reindex :: "tool_env \<Rightarrow> str \<Rightarrow> agent_world \<Rightarrow> jobs_error + str" where
  "reindex e iid w =
     (if \<not> te_open e then Inl JeUnavailable
      else (case reindex_item (te_indexed e) iid (wd_corpus w) of
          Some err \<Rightarrow> Inl (corpus_code err) | None \<Rightarrow> Inr iid))"

end
