(* ===== verification/AgentCalls.thy ===== *)
theory AgentCalls
  imports AgentTools
begin

text \<open>
  The corpus tools that ask the person (\<open>automation/corpus_tools.rs\<close>), and the dispatch of a call
  with its check of scope (\<open>automation/mcp.rs\<close>).
\<close>

section \<open>Asking to replace a text\<close>

definition preview_chars :: nat where
  "preview_chars = 400"

definition asset_collection_name :: "str \<Rightarrow> str \<Rightarrow> corpus \<Rightarrow> str option" where
  "asset_collection_name iid aid c =
     (case find (\<lambda>a. as_id a = aid \<and> as_item a = iid) (ks_assets c) of
        None \<Rightarrow> None
      | Some a \<Rightarrow> Option.bind (find_item iid c) (\<lambda>i. map_option cc_name (find_collection (ci_collection i) c)))"

definition corpus_request ::
  "principal \<Rightarrow> approval_action \<Rightarrow> string \<Rightarrow> str list \<Rightarrow> int \<Rightarrow> approval_request" where
  "corpus_request p action op names files =
     \<lparr>qr_client = pc_client p, qr_client_name = pc_name p, qr_action = action, qr_job = [], qr_revision = 0,
      qr_operations = [tx op], qr_collections = names, qr_files = files, qr_preview = None, qr_text = None,
      qr_plan = None, qr_delete = None\<rparr>"

definition request_text_replacement ::
  "tool_env \<Rightarrow> principal \<Rightarrow> str \<Rightarrow> str \<Rightarrow> str \<Rightarrow> str \<Rightarrow> corpus \<Rightarrow> approval list \<Rightarrow>
   (jobs_error + approval) \<times> approval list" where
  "request_text_replacement e p iid aid hash text c st =
     (if trim text = [] \<or> length text > max_page_text_chars then (Inl JeInvalidArgument, st)
      else if \<not> te_open e then (Inl JeUnavailable, st)
      else (case asset_collection_name iid aid c of
          None \<Rightarrow> (Inl JeNotFound, st)
        | Some name \<Rightarrow>
            (case opt_filter (\<lambda>t. trim (tr_text t) \<noteq> []) (page_text aid c) of
               None \<Rightarrow> (Inl JeInvalidArgument, st)
             | Some t \<Rightarrow>
                 if te_sha e (tr_text t) \<noteq> hash then (Inl JeRevisionConflict, st)
                 else if tr_text t = text then (Inl JeInvalidArgument, st)
                 else ask_owner e ((corpus_request p (ActReplaceText iid aid hash (te_sha e text)) ''replace_text'' [name] 1)
                   \<lparr>qr_preview := Some (take preview_chars text), qr_text := Some text\<rparr>) st)))"

section \<open>Asking to import\<close>

definition max_import_files :: nat where
  "max_import_files = 200"

definition is_plain_name :: "str \<Rightarrow> bool" where
  "is_plain_name n \<longleftrightarrow> n \<noteq> [] \<and> n \<noteq> tx ''.'' \<and> n \<noteq> tx ''..'' \<and> 47 \<notin> set n \<and> 92 \<notin> set n"

text \<open>The named files in order, checked; the first refusal refuses the request.\<close>

fun plan_files :: "disk \<Rightarrow> path list \<Rightarrow> path \<Rightarrow> path \<Rightarrow> str list \<Rightarrow> source_file list option" where
  "plan_files dk folders data_dir folder [] = Some []"
| "plan_files dk folders data_dir folder (n # ns) =
     (if \<not> is_plain_name n then None
      else (case check_source dk (dk_text dk (folder @ [n])) folders data_dir of
          Inl err \<Rightarrow> None
        | Inr f \<Rightarrow> map_option ((#) f) (plan_files dk folders data_dir folder ns)))"

definition debug_time :: "int option \<Rightarrow> str" where
  "debug_time t = (case t of None \<Rightarrow> tx ''None'' | Some n \<Rightarrow> tx ''Some('' @ show_int n @ tx '')'')"

definition plan_digest :: "tool_env \<Rightarrow> str \<Rightarrow> source_file list \<Rightarrow> str" where
  "plan_digest e cid plan = te_sha e (cid @ concat (map (\<lambda>f.
     [0] @ dk_text (te_disk e) (sf_path f) @ tx ''|'' @ show_nat (sf_size f) @ tx ''|'' @ debug_time (sf_modified f)) plan))"

definition enabled_folder :: "tool_env \<Rightarrow> str \<Rightarrow> path option" where
  "enabled_folder e text =
     opt_filter (\<lambda>f. list_ex (\<lambda>d. same_folder (te_disk e) d f) (te_folders e))
       (map_option (dk_plain (te_disk e)) (dk_real (te_disk e) text))"

definition request_import ::
  "tool_env \<Rightarrow> principal \<Rightarrow> str \<Rightarrow> str \<Rightarrow> str list \<Rightarrow> corpus \<Rightarrow> approval list \<Rightarrow>
   (jobs_error + approval) \<times> approval list" where
  "request_import e p cid folder files c st =
     (if files = [] \<or> length files > max_import_files then (Inl JeInvalidArgument, st)
      else if \<not> te_open e then (Inl JeUnavailable, st)
      else (case find_collection cid c of
          None \<Rightarrow> (Inl JeNotFound, st)
        | Some x \<Rightarrow>
            (case enabled_folder e folder of
               None \<Rightarrow> (Inl JeInvalidArgument, st)
             | Some dir \<Rightarrow>
                 (case te_data_dir e of
                    None \<Rightarrow> (Inl JeUnavailable, st)
                  | Some data_dir \<Rightarrow>
                      (case plan_files (te_disk e) (te_folders e) data_dir dir (sorted_dedup files) of
                         None \<Rightarrow> (Inl JeInvalidArgument, st)
                       | Some plan \<Rightarrow>
                           ask_owner e ((corpus_request p (ActImportFiles cid (length plan) (plan_digest e cid plan))
                             ''import_files'' [cc_name x] (int (length plan)))\<lparr>qr_plan := Some plan\<rparr>) st)))))"

section \<open>Asking to delete\<close>

definition max_delete_items :: nat where
  "max_delete_items = 200"

definition max_delete_titles :: nat where
  "max_delete_titles = 20"

text \<open>\<open>ORDER BY title COLLATE NOCASE, id LIMIT\<close>.\<close>

definition first_titles :: "citem list \<Rightarrow> str list" where
  "first_titles items =
     take max_delete_titles (map ci_title (sort_key (\<lambda>i. to_ascii_lowercase (ci_title i)) (sort_key ci_id items)))"

text \<open>The collections of the items, by name, each with its least item: \<open>GROUP BY\<close> with \<open>MIN\<close>.\<close>

definition delete_targets :: "str list \<Rightarrow> corpus \<Rightarrow> (str list \<times> (str \<times> str) list)" where
  "delete_targets ids c =
     (let own = (\<lambda>x. map ci_id (filter (\<lambda>i. ci_id i \<in> set ids \<and> ci_collection i = cc_id x) (ks_items c)));
          rows = filter (\<lambda>x. own x \<noteq> [])
            (sort_key (\<lambda>x. to_ascii_lowercase (cc_name x)) (sort_key cc_id (ks_collections c)))
      in (map cc_name rows, map (\<lambda>x. (cc_id x, hd (sort (own x)))) rows))"

text \<open>
  The impact and the fence are read one after the other: \<open>te_others\<close> may commit between the two. What it
  commits is a step of the other connection, not of this call.
\<close>

definition request_items_deletion ::
  "tool_env \<Rightarrow> principal \<Rightarrow> str list \<Rightarrow> corpus \<Rightarrow> approval list \<Rightarrow> (jobs_error + approval) \<times> approval list" where
  "request_items_deletion e p ids c st =
     (if ids = [] \<or> length ids > max_delete_items then (Inl JeInvalidArgument, st)
      else if \<not> te_open e then (Inl JeUnavailable, st)
      else (case normalized_item_ids ids of
          Inl err \<Rightarrow> (Inl (corpus_code err), st)
        | Inr unique \<Rightarrow>
            (let named = sort unique; c1 = te_others e c in
             case delete_impact (DsItems named) c of
               Inl err \<Rightarrow> (Inl (corpus_code err), st)
             | Inr impact \<Rightarrow>
                 (case delete_fence (te_sha e) (DsItems named) c1 of
                    Inl err \<Rightarrow> (Inl (corpus_code err), st)
                  | Inr hash \<Rightarrow>
                      (case delete_targets named c1 of
                         (names, targets) \<Rightarrow>
                           ask_owner e ((corpus_request p (ActDeleteItems named hash) ''delete_items'' names
                             (int (di_documents impact)))\<lparr>qr_delete := Some \<lparr>dp_impact = impact,
                               dp_titles = first_titles (filter (\<lambda>i. ci_id i \<in> set named) (ks_items c1)),
                               dp_targets = targets\<rparr>\<rparr>) st)))))"

definition request_collection_deletion ::
  "tool_env \<Rightarrow> principal \<Rightarrow> str \<Rightarrow> corpus \<Rightarrow> approval list \<Rightarrow> (jobs_error + approval) \<times> approval list" where
  "request_collection_deletion e p cid c st =
     (if \<not> te_open e then (Inl JeUnavailable, st)
      else (case delete_impact (DsCollection cid) c of
          Inl err \<Rightarrow> (Inl (corpus_code err), st)
        | Inr impact \<Rightarrow>
            (let c1 = te_others e c in
             case delete_fence (te_sha e) (DsCollection cid) c1 of
               Inl err \<Rightarrow> (Inl (corpus_code err), st)
             | Inr hash \<Rightarrow>
                 (case find_collection cid c1 of
                    None \<Rightarrow> (Inl JeUnavailable, st)
                  | Some x \<Rightarrow>
                      (let items = filter (\<lambda>i. ci_collection i = cid) (ks_items c1) in
                       ask_owner e ((corpus_request p (ActDeleteCollection cid hash) ''delete_collection'' [cc_name x]
                         (int (di_documents impact)))\<lparr>qr_delete := Some \<lparr>dp_impact = impact,
                           dp_titles = first_titles items,
                           dp_targets = [(cid, if items = [] then [] else hd (sort (map ci_id items)))]\<rparr>\<rparr>) st)))))"

section \<open>Calls\<close>

datatype tool_call =
    CallPrepare str "str list option" "str list option" "str list"
  | CallCollectionCreate str str "str option"
  | CallCollectionUpdate str int collection_patch
  | CallCollectionDelete str
  | CallItemUpdate str int "str option" "(str \<times> str) list option"
  | CallTextUpdate str str str str
  | CallImport str str "str list"
  | CallItemsDelete "str list"
  | CallIndex str
  | CallStart str int
  | CallControl str str "int option" "str option" "bool option"
  | CallApprovalStatus str

datatype tool_answer =
    AnPrepared prepare_report
  | AnCreated created_collection bool
  | AnCollection collection_row
  | AnItem updated_item
  | AnApproval approval
  | AnJob batch
  | AnIndexed str

text \<open>How an answer that changes the store of requests, or the tables, becomes the answer of a call.\<close>

definition asking :: "endpoint \<Rightarrow> (jobs_error + approval) \<times> approval list \<Rightarrow> (jobs_error + tool_answer) \<times> endpoint" where
  "asking s r = (map_sum id AnApproval (fst r), s\<lparr>ed_approvals := snd r\<rparr>)"

definition changing ::
  "endpoint \<Rightarrow> ('a \<Rightarrow> tool_answer) \<Rightarrow> (jobs_error + 'a) \<times> agent_world \<Rightarrow> (jobs_error + tool_answer) \<times> endpoint" where
  "changing s f r = (map_sum id f (fst r), s\<lparr>ed_world := snd r\<rparr>)"

definition processing_control ::
  "tool_env \<Rightarrow> principal \<Rightarrow> str \<Rightarrow> str \<Rightarrow> int option \<Rightarrow> str option \<Rightarrow> bool option \<Rightarrow> endpoint \<Rightarrow>
   (jobs_error + tool_answer) \<times> endpoint" where
  "processing_control e p job action revision single failed_only s =
     (if action \<in> {tx ''pause'', tx ''cancel''} then
        if \<not> has_scope p ScLocalWrite then (Inl JeForbidden, s)
        else changing s AnJob (control_now e job (if action = tx ''pause'' then APause else ACancel) revision (ed_world s))
      else if action \<in> {tx ''resume'', tx ''retry''} then
        if \<not> has_scope p ScRemoteSpend then (Inl JeForbidden, s)
        else (case revision of
            None \<Rightarrow> (Inl JeInvalidArgument, s)
          | Some n \<Rightarrow>
              if action = tx ''resume''
              then asking s (request_job_approval e p ActResume job n (wd_queue (ed_world s)) (ed_approvals s))
              else if single = None \<and> \<not> unwrap_or False failed_only then (Inl JeInvalidArgument, s)
              else asking s (request_job_approval e p (ActRetry single (unwrap_or False failed_only)) job n
                (wd_queue (ed_world s)) (ed_approvals s)))
      else (Inl JeInvalidArgument, s))"

definition approvals_status ::
  "tool_env \<Rightarrow> principal \<Rightarrow> str \<Rightarrow> endpoint \<Rightarrow> (jobs_error + tool_answer) \<times> endpoint" where
  "approvals_status e p aid s =
     asking s (case get_for_client (te_now e) (pc_client p) aid (ed_approvals s) of
       (None, st) \<Rightarrow> (Inl JeNotFound, st) | (Some a, st) \<Rightarrow> (Inr a, st))"

definition scope_of :: "tool_call \<Rightarrow> scope option" where
  "scope_of call = (case call of CallStart job n \<Rightarrow> Some ScRemoteSpend | CallControl a b c d f \<Rightarrow> None
     | CallApprovalStatus aid \<Rightarrow> Some ScRead | _ \<Rightarrow> Some ScLocalWrite)"

fun run_call :: "tool_env \<Rightarrow> principal \<Rightarrow> tool_call \<Rightarrow> endpoint \<Rightarrow> (jobs_error + tool_answer) \<times> endpoint" where
  "run_call e p (CallPrepare request collections items operations) s =
     changing s AnPrepared (prepare_job e (pc_client p) request (unwrap_or [] collections) (unwrap_or [] items)
       operations (ed_world s))"
| "run_call e p (CallCollectionCreate request name description) s =
     (case create_collection_once e (pc_client p) request name description s of
        (r, s1) \<Rightarrow> (map_sum id (\<lambda>(x, fresh). AnCreated x fresh) r, s1))"
| "run_call e p (CallCollectionUpdate cid revision patch) s =
     changing s AnCollection (update_collection_at e cid revision patch (ed_world s))"
| "run_call e p (CallCollectionDelete cid) s =
     asking s (request_collection_deletion e p cid (wd_corpus (ed_world s)) (ed_approvals s))"
| "run_call e p (CallItemUpdate iid revision title metadata) s =
     changing s AnItem (update_item_at e iid revision title metadata (ed_world s))"
| "run_call e p (CallTextUpdate iid aid hash text) s =
     asking s (request_text_replacement e p iid aid hash text (wd_corpus (ed_world s)) (ed_approvals s))"
| "run_call e p (CallImport cid folder files) s =
     asking s (request_import e p cid folder files (wd_corpus (ed_world s)) (ed_approvals s))"
| "run_call e p (CallItemsDelete ids) s =
     asking s (request_items_deletion e p ids (wd_corpus (ed_world s)) (ed_approvals s))"
| "run_call e p (CallIndex iid) s = (map_sum id AnIndexed (reindex e iid (ed_world s)), s)"
| "run_call e p (CallStart job revision) s =
     asking s (request_job_approval e p ActStart job revision (wd_queue (ed_world s)) (ed_approvals s))"
| "run_call e p (CallControl job action revision single failed_only) s =
     processing_control e p job action revision single failed_only s"
| "run_call e p (CallApprovalStatus aid) s = approvals_status e p aid s"

definition handle_call ::
  "tool_env \<Rightarrow> principal \<Rightarrow> tool_call \<Rightarrow> endpoint \<Rightarrow> (jobs_error + tool_answer) \<times> endpoint" where
  "handle_call e p call s =
     (if (case scope_of call of None \<Rightarrow> True | Some sc \<Rightarrow> has_scope p sc) then run_call e p call s
      else (Inl JeForbidden, s))"

section \<open>The person's answer\<close>

text \<open>\<open>decide_approval\<close>: a fresh connection, the folders enabled now, then the store decides.\<close>

definition decide_approval ::
  "exec_env \<Rightarrow> (approval list \<Rightarrow> approval list) \<times> (approval list \<Rightarrow> approval list) \<Rightarrow> bool \<Rightarrow> int \<Rightarrow>
   path option \<Rightarrow> path \<Rightarrow> path list \<Rightarrow> str \<Rightarrow> bool \<Rightarrow> endpoint \<Rightarrow> (decide_error + approval) option \<times> endpoint" where
  "decide_approval x others ready now data_dir cache_dir folders aid approve s =
     (if \<not> ready then (None, s)
      else (case decide_with x \<lparr>xc_data_dir = data_dir, xc_cache_dir = Some cache_dir, xc_folders = folders\<rparr>
              others now aid approve (ed_approvals s, ed_world s) of
          (r, st, w) \<Rightarrow> (Some r, s\<lparr>ed_approvals := st, ed_world := w\<rparr>)))"

end
