(* ===== verification/AgentDesk.thy ===== *)
theory AgentDesk
  imports AgentCalls
begin

text \<open>
  The requests of assistants over time: calls of any client, answers of the person, the approved
  actions they start, and everything else the program does to the tables, in any order.

  An approved action runs between the claim of its request and its settlement; the list
  \<open>sk_claimed\<close> holds those that are out, \<open>sk_runs\<close> those that ran, both as they were claimed.
  \<open>sk_asked\<close> records which client's call created which request.
\<close>

section \<open>The store under each operation\<close>

lemma expire_one_keeps [simp]:
  "ap_id (expire_one now a) = ap_id a" "ap_client (expire_one now a) = ap_client a"
  "ap_action (expire_one now a) = ap_action a" "ap_job (expire_one now a) = ap_job a"
  "ap_revision (expire_one now a) = ap_revision a" "ap_created (expire_one now a) = ap_created a"
  "ap_expires (expire_one now a) = ap_expires a" "ap_decided (expire_one now a) = ap_decided a"
  by (simp_all add: expire_one_def)

lemma expire_one_status:
  "ap_status (expire_one now a) =
     (if ap_status a = ApPending \<and> now \<ge> ap_expires a then ApExpired else ap_status a)"
  by (simp add: expire_one_def)

lemma expire_ids [simp]: "map ap_id (expire now st) = map ap_id st"
  by (simp add: expire_def)

lemma update_approval_ids:
  "(\<And>a. ap_id (f a) = ap_id a) \<Longrightarrow> map ap_id (update_approval aid f st) = map ap_id st"
  by (simp add: update_approval_def)

lemma find_approval_Some: "find_approval aid st = Some a \<Longrightarrow> a \<in> set st \<and> ap_id a = aid"
  by (auto simp: find_approval_def find_Some_iff)

lemma answered_keeps [simp]:
  "ap_id (answered now b a) = ap_id a" "ap_client (answered now b a) = ap_client a"
  "ap_action (answered now b a) = ap_action a" "ap_job (answered now b a) = ap_job a"
  "ap_revision (answered now b a) = ap_revision a" "ap_created (answered now b a) = ap_created a"
  "ap_expires (answered now b a) = ap_expires a" "ap_decided (answered now b a) = Some now"
  "ap_status (answered now b a) = (if b then ApApproved else ApRejected)"
  by (simp_all add: answered_def)

lemma settled_keeps [simp]:
  "ap_id (settled r a) = ap_id a" "ap_client (settled r a) = ap_client a"
  "ap_action (settled r a) = ap_action a" "ap_job (settled r a) = ap_job a"
  "ap_revision (settled r a) = ap_revision a" "ap_created (settled r a) = ap_created a"
  "ap_expires (settled r a) = ap_expires a" "ap_decided (settled r a) = ap_decided a"
  "ap_status (settled r a) = (case r of Inl err \<Rightarrow> ApFailed | Inr x \<Rightarrow> ap_status a)"
  by (simp_all add: settled_def Let_def split: sum.split)

lemma new_approval_fields [simp]:
  "ap_id (new_approval aid now r) = aid" "ap_client (new_approval aid now r) = qr_client r"
  "ap_status (new_approval aid now r) = ApPending" "ap_decided (new_approval aid now r) = None"
  "ap_created (new_approval aid now r) = now" "ap_expires (new_approval aid now r) = now + approval_ttl_ms"
  by (simp_all add: new_approval_def)

text \<open>A claim finds a request that waits and is in time, and answers it.\<close>

lemma claim_approval_Inr:
  assumes "claim_approval now aid approve st = (Inr r, st')"
  obtains a where "a \<in> set st" and "ap_id a = aid" and "ap_status a = ApPending" and "now < ap_expires a"
    and "r = (if approve then Some (answered now True a) else None)"
    and "st' = update_approval aid (answered now approve) (expire now st)"
proof -
  have "find_approval aid (expire now st) \<noteq> None"
    using assms by (cases "find_approval aid (expire now st)") (simp_all add: claim_approval_def Let_def)
  then obtain b where b: "find_approval aid (expire now st) = Some b" by blast
  have pending: "ap_status b = ApPending"
    using assms b by (cases "ap_status b") (simp_all add: claim_approval_def Let_def)
  have "claim_approval now aid approve st = (Inr (if approve then Some (answered now approve b) else None),
      update_approval aid (answered now approve) (expire now st))"
    by (simp add: claim_approval_def Let_def b pending)
  then have r: "r = (if approve then Some (answered now approve b) else None)"
    and st': "st' = update_approval aid (answered now approve) (expire now st)"
    unfolding assms by simp_all
  have "b \<in> expire_one now ` set st" and aid: "ap_id b = aid"
    using find_approval_Some [OF b] by (simp_all add: expire_def)
  then obtain a where a': "a \<in> set st" "b = expire_one now a" by (blast elim: imageE)
  with aid have a: "a \<in> set st" "b = expire_one now a" "ap_id a = aid" by simp_all
  with pending have w: "ap_status a = ApPending \<and> now < ap_expires a"
    by (simp add: expire_one_status split: if_splits)
  then have "b = a" using a(2) by (simp add: expire_one_def)
  show thesis
  proof (rule that)
    show "a \<in> set st" "ap_id a = aid" using a by blast+
    show "ap_status a = ApPending" "now < ap_expires a" using w by blast+
    show "r = (if approve then Some (answered now True a) else None)" unfolding r \<open>b = a\<close> by simp
    show "st' = update_approval aid (answered now approve) (expire now st)" by (rule st')
  qed
qed

lemma claim_approval_Inl:
  "claim_approval now aid approve st = (Inl err, st') \<Longrightarrow> st' = expire now st"
  by (auto simp: claim_approval_def Let_def split: option.splits approval_status.splits)

section \<open>What a call does to the store\<close>

text \<open>A call leaves the store, lets requests expire, or asks in the name of its client.\<close>

definition asks :: "tool_env \<Rightarrow> principal \<Rightarrow> approval list \<Rightarrow> approval list \<Rightarrow> bool" where
  "asks e p st st' \<longleftrightarrow> st' = st \<or> st' = expire (te_now e) st
     \<or> (\<exists>r. qr_client r = pc_client p \<and> st' = snd (request_approval (te_approval e) (te_now e) r st))"

lemma asks_owner: "qr_client r = pc_client p \<Longrightarrow> asks e p st (snd (ask_owner e r st))"
  by (auto simp: asks_def ask_owner_def split: prod.split)

lemma asks_same [simp, intro]: "asks e p st st"
  by (simp add: asks_def)

lemma corpus_request_client [simp]: "qr_client (corpus_request p action op names files) = pc_client p"
  by (simp add: corpus_request_def)

lemma asks_job: "asks e p st (snd (request_job_approval e p action job n q st))"
  by (auto simp: request_job_approval_def job_request_def intro!: asks_owner split: option.split)

lemma asks_text: "asks e p st (snd (request_text_replacement e p iid aid hash text c st))"
  by (auto simp: request_text_replacement_def intro!: asks_owner split: option.split)

lemma asks_import: "asks e p st (snd (request_import e p cid folder files c st))"
  by (auto simp: request_import_def intro!: asks_owner split: option.split)

lemma asks_items: "asks e p st (snd (request_items_deletion e p ids c st))"
  by (auto simp: request_items_deletion_def Let_def intro!: asks_owner split: sum.split prod.split)

lemma asks_collection: "asks e p st (snd (request_collection_deletion e p cid c st))"
  by (auto simp: request_collection_deletion_def Let_def intro!: asks_owner split: sum.split option.split)

lemma asking_store [simp]: "ed_approvals (snd (asking s r)) = snd r" "ed_world (snd (asking s r)) = ed_world s"
  by (simp_all add: asking_def)

lemma changing_store [simp]: "ed_approvals (snd (changing s f r)) = ed_approvals s" "ed_world (snd (changing s f r)) = snd r"
  by (simp_all add: changing_def)

lemma create_collection_once_store [simp]:
  "ed_approvals (snd (create_collection_once e client r name d s)) = ed_approvals s"
  by (auto simp: create_collection_once_def Let_def split: option.split sum.split)

lemma processing_control_asks:
  "asks e p (ed_approvals s) (ed_approvals (snd (processing_control e p job action n single f s)))"
  by (auto simp: processing_control_def intro: asks_job split: option.split)

lemma approvals_status_asks: "asks e p (ed_approvals s) (ed_approvals (snd (approvals_status e p aid s)))"
  by (auto simp: approvals_status_def get_for_client_def Let_def asks_def split: option.split)

lemma snd_case_pair: "snd (case z of (r, x) \<Rightarrow> (f r, x)) = snd z"
  by (cases z) simp

lemma run_call_asks: "asks e p (ed_approvals s) (ed_approvals (snd (run_call e p call s)))"
  by (cases call) (auto simp: snd_case_pair intro: asks_job asks_text asks_import asks_items asks_collection processing_control_asks
      approvals_status_asks)

lemma handle_call_asks: "asks e p (ed_approvals s) (ed_approvals (snd (handle_call e p call s)))"
  by (auto simp: handle_call_def intro: run_call_asks)

section \<open>Runs of the program\<close>

record desk =
  sk_endpoint :: endpoint
  sk_asked :: "(str \<times> str) list"
  sk_claimed :: "approval list"
  sk_runs :: "approval list"

definition store_ids :: "endpoint \<Rightarrow> str list" where
  "store_ids s = map ap_id (ed_approvals s)"

definition note_asked :: "tool_env \<Rightarrow> principal \<Rightarrow> endpoint \<Rightarrow> (str \<times> str) list \<Rightarrow> (str \<times> str) list" where
  "note_asked e p s asked =
     (if te_approval e \<in> set (store_ids s) then asked @ [(te_approval e, pc_client p)] else asked)"

text \<open>
  A call draws an identifier no request has. Any operation of the program may change the tables.
\<close>

inductive desk_step :: "desk \<Rightarrow> desk \<Rightarrow> bool" where
  called: "te_approval e \<notin> set (store_ids (sk_endpoint d)) \<Longrightarrow>
    s = snd (handle_call e p call (sk_endpoint d)) \<Longrightarrow>
    desk_step d (d\<lparr>sk_endpoint := s, sk_asked := note_asked e p s (sk_asked d)\<rparr>)"
| looked: "desk_step d (d\<lparr>sk_endpoint := (sk_endpoint d)\<lparr>ed_approvals :=
    snd (pending_approvals now (ed_approvals (sk_endpoint d)))\<rparr>\<rparr>)"
| answered_late: "claim_approval now aid approve (ed_approvals (sk_endpoint d)) = (Inl err, st) \<Longrightarrow>
    desk_step d (d\<lparr>sk_endpoint := (sk_endpoint d)\<lparr>ed_approvals := st\<rparr>\<rparr>)"
| rejected: "claim_approval now aid approve (ed_approvals (sk_endpoint d)) = (Inr None, st) \<Longrightarrow>
    desk_step d (d\<lparr>sk_endpoint := (sk_endpoint d)\<lparr>ed_approvals := st\<rparr>\<rparr>)"
| claimed: "claim_approval now aid approve (ed_approvals (sk_endpoint d)) = (Inr (Some a), st) \<Longrightarrow>
    desk_step d (d\<lparr>sk_endpoint := (sk_endpoint d)\<lparr>ed_approvals := st\<rparr>, sk_claimed := a # sk_claimed d\<rparr>)"
| ran: "a \<in> set (sk_claimed d) \<Longrightarrow> run_approved e x a (ed_world (sk_endpoint d)) = (r, w) \<Longrightarrow>
    desk_step d (d\<lparr>sk_endpoint := (sk_endpoint d)\<lparr>ed_world := w,
        ed_approvals := settle_approval (ap_id a) r (ed_approvals (sk_endpoint d))\<rparr>,
      sk_claimed := filter (\<lambda>b. ap_id b \<noteq> ap_id a) (sk_claimed d), sk_runs := a # sk_runs d\<rparr>)"
| elsewhere: "desk_step d (d\<lparr>sk_endpoint := (sk_endpoint d)\<lparr>ed_world := w\<rparr>\<rparr>)"

definition empty_desk :: "agent_world \<Rightarrow> desk" where
  "empty_desk w = \<lparr>sk_endpoint = \<lparr>ed_approvals = [], ed_world = w, ed_created = []\<rparr>, sk_asked = [],
     sk_claimed = [], sk_runs = []\<rparr>"

text \<open>The same request: what \<open>is_same_request\<close> compares.\<close>

definition request_key :: "approval \<Rightarrow> str \<times> str \<times> int \<times> approval_action" where
  "request_key a = (ap_client a, ap_job a, ap_revision a, ap_action a)"

definition pending_of :: "approval list \<Rightarrow> approval list" where
  "pending_of st = filter (\<lambda>a. ap_status a = ApPending) st"

definition store_ok :: "approval list \<Rightarrow> bool" where
  "store_ok st \<longleftrightarrow> distinct (map ap_id st) \<and> distinct (map request_key (pending_of st))
     \<and> list_all (\<lambda>a. ap_expires a = ap_created a + approval_ttl_ms) st"

text \<open>A request that was approved: what is kept of it, and what the store says of it.\<close>

definition is_answer_of :: "approval \<Rightarrow> approval \<Rightarrow> bool" where
  "is_answer_of a b \<longleftrightarrow> ap_id b = ap_id a \<and> request_key b = request_key a \<and> ap_created b = ap_created a
     \<and> ap_decided b = ap_decided a \<and> ap_status b \<in> {ApApproved, ApFailed}"

definition claim_ok :: "(str \<times> str) list \<Rightarrow> approval list \<Rightarrow> approval \<Rightarrow> bool" where
  "claim_ok asked st a \<longleftrightarrow> list_ex (is_answer_of a) st \<and> (ap_id a, ap_client a) \<in> set asked
     \<and> (case ap_decided a of None \<Rightarrow> False | Some t \<Rightarrow> t < ap_created a + approval_ttl_ms)"

definition desk_ok :: "desk \<Rightarrow> bool" where
  "desk_ok d \<longleftrightarrow> store_ok (ed_approvals (sk_endpoint d))
     \<and> list_all (\<lambda>a. (ap_id a, ap_client a) \<in> set (sk_asked d)) (ed_approvals (sk_endpoint d))
     \<and> distinct (map ap_id (sk_claimed d @ sk_runs d))
     \<and> list_all (claim_ok (sk_asked d) (ed_approvals (sk_endpoint d))) (sk_claimed d @ sk_runs d)"

section \<open>The invariant of the store\<close>

lemma request_key_keeps [simp]:
  "request_key (expire_one now a) = request_key a" "request_key (settled r a) = request_key a"
  "request_key (answered now b a) = request_key a"
  by (simp_all add: request_key_def)

lemma pending_subset:
  assumes "\<And>a. request_key (f a) = request_key a" and "\<And>a. ap_status (f a) = ApPending \<Longrightarrow> ap_status a = ApPending"
    and "distinct (map request_key (pending_of st))"
  shows "distinct (map request_key (pending_of (map f st)))"
  using assms(3)
proof (induction st)
  case (Cons a st)
  have "request_key ` {x \<in> f ` set st. ap_status x = ApPending} \<subseteq> request_key ` {x \<in> set st. ap_status x = ApPending}"
    using assms(1,2) by fastforce
  with Cons assms(1,2) [of a] show ?case by (auto simp: pending_of_def split: if_splits)
qed (simp add: pending_of_def)

lemma store_ok_map:
  assumes "store_ok st" and "\<And>a. ap_id (f a) = ap_id a" and "\<And>a. request_key (f a) = request_key a"
    and "\<And>a. ap_created (f a) = ap_created a \<and> ap_expires (f a) = ap_expires a"
    and "\<And>a. ap_status (f a) = ApPending \<Longrightarrow> ap_status a = ApPending"
  shows "store_ok (map f st)"
proof -
  have "map ap_id (map f st) = map ap_id st" using assms(2) by simp
  moreover have "distinct (map request_key (pending_of (map f st)))"
    using assms(1,3,5) by (intro pending_subset) (simp_all add: store_ok_def)
  moreover have "list_all (\<lambda>a. ap_expires a = ap_created a + approval_ttl_ms) (map f st)"
    using assms(1,4) by (simp add: store_ok_def list_all_iff)
  ultimately show ?thesis using assms(1) by (simp only: store_ok_def)
qed

lemma expire_ok: "store_ok st \<Longrightarrow> store_ok (expire now st)"
  unfolding expire_def by (rule store_ok_map) (simp_all add: expire_one_status split: if_splits)

lemma update_ok:
  assumes "store_ok st" and "\<And>a. ap_id (f a) = ap_id a" and "\<And>a. request_key (f a) = request_key a"
    and "\<And>a. ap_created (f a) = ap_created a \<and> ap_expires (f a) = ap_expires a"
    and "\<And>a. ap_status (f a) = ApPending \<Longrightarrow> ap_status a = ApPending"
  shows "store_ok (update_approval aid f st)"
  unfolding update_approval_def using assms by (intro store_ok_map) (auto split: if_splits)

lemma request_approval_ok:
  assumes "store_ok st" and "aid \<notin> set (map ap_id st)"
  shows "store_ok (snd (request_approval aid now r st))"
proof (cases "find (is_same_request r) (expire now st)")
  case None
  let ?st = "expire now st"
  have ok: "store_ok ?st" using assms(1) by (rule expire_ok)
  have "request_key (new_approval aid now r) \<notin> set (map request_key (pending_of ?st))"
    using None by (auto simp: find_None_iff is_same_request_def request_key_def pending_of_def new_approval_def)
  moreover have "aid \<notin> set (map ap_id ?st)" using assms(2) by (simp only: expire_ids) simp
  ultimately show ?thesis using ok None by (auto simp: request_approval_def Let_def store_ok_def pending_of_def)
next
  case (Some a)
  then show ?thesis using expire_ok [OF assms(1)] by (simp add: request_approval_def Let_def)
qed

lemma claim_store_ok:
  assumes "store_ok st" and "claim_approval now aid approve st = (r, st')"
  shows "store_ok st'"
proof (cases r)
  case (Inl err)
  with assms(2) have "st' = expire now st" by (simp add: claim_approval_Inl)
  with assms(1) show ?thesis by (simp add: expire_ok)
next
  case (Inr x)
  with assms(2) obtain a where st': "st' = update_approval aid (answered now approve) (expire now st)"
    by (auto elim: claim_approval_Inr)
  show ?thesis unfolding st' using expire_ok [OF assms(1)]
    by (rule update_ok) (auto split: if_splits)
qed

lemma settle_store_ok: "store_ok st \<Longrightarrow> store_ok (settle_approval aid r st)"
  unfolding settle_approval_def by (rule update_ok) (auto split: sum.splits)

section \<open>Claims under the operations\<close>

lemma is_answer_of_keeps:
  "is_answer_of a b \<Longrightarrow> expire_one now b = b" "is_answer_of a b \<Longrightarrow> is_answer_of a (settled r b)"
  by (auto simp: is_answer_of_def expire_one_def split: sum.split)

lemma claim_ok_map:
  assumes "claim_ok asked st a" and "\<And>b. b \<in> set st \<Longrightarrow> is_answer_of a b \<Longrightarrow> is_answer_of a (f b)"
  shows "claim_ok asked (map f st) a"
  using assms by (auto simp: claim_ok_def list_ex_iff)

lemma claim_ok_expire: "claim_ok asked st a \<Longrightarrow> claim_ok asked (expire now st) a"
  unfolding expire_def by (rule claim_ok_map) (simp_all add: is_answer_of_keeps(1))

lemma claim_ok_settle: "claim_ok asked st a \<Longrightarrow> claim_ok asked (settle_approval aid r st) a"
  unfolding settle_approval_def update_approval_def by (rule claim_ok_map) (simp_all add: is_answer_of_keeps(2))

lemma claim_ok_append: "claim_ok asked st a \<Longrightarrow> claim_ok (asked @ extra) (st @ rest) a"
  by (auto simp: claim_ok_def)

lemma claim_ok_asks:
  assumes "claim_ok asked st a" and "asks e p st st'"
  shows "claim_ok (asked @ extra) st' a"
proof -
  note later = claim_ok_append [OF claim_ok_expire [OF assms(1)], where rest = "[]", simplified]
  have "claim_ok (asked @ extra) (snd (request_approval aid now r st)) a" for aid now r
    using later claim_ok_append [OF claim_ok_expire [OF assms(1)]]
    by (auto simp: request_approval_def Let_def split: option.split)
  with later claim_ok_append [OF assms(1), where rest = "[]"] assms(2) show ?thesis
    by (auto simp: asks_def)
qed

lemma claim_ok_id: "claim_ok asked st a \<Longrightarrow> \<exists>b\<in>set st. ap_id b = ap_id a \<and> ap_status b \<in> {ApApproved, ApFailed}"
  by (auto simp: claim_ok_def list_ex_iff is_answer_of_def)

lemma distinct_ids_eq: "distinct (map ap_id st) \<Longrightarrow> a \<in> set st \<Longrightarrow> b \<in> set st \<Longrightarrow> ap_id a = ap_id b \<Longrightarrow> a = b"
  by (auto simp: distinct_map dest: inj_onD)

text \<open>Only requests that wait are claimed, so no claim touches a request that was approved.\<close>

lemma claim_ok_claim:
  assumes ok: "store_ok st" and c: "claim_ok asked st a" and claim: "claim_approval now aid approve st = (r, st')"
  shows "claim_ok asked st' a"
proof (cases r)
  case (Inl err)
  with claim claim_approval_Inl [of now aid approve st err st'] show ?thesis
    using claim_ok_expire [OF c] by simp
next
  case (Inr x)
  with claim obtain b where b: "b \<in> set st" "ap_id b = aid" "ap_status b = ApPending"
      and st': "st' = update_approval aid (answered now approve) (expire now st)"
    by (auto elim: claim_approval_Inr)
  have "ap_id a \<noteq> aid"
  proof
    assume "ap_id a = aid"
    with claim_ok_id [OF c] obtain z where "z \<in> set st" "ap_id z = aid" "ap_status z \<noteq> ApPending" by auto
    with b ok distinct_ids_eq [of st z b] show False by (simp add: store_ok_def)
  qed
  with claim_ok_expire [OF c] show ?thesis
    unfolding st' update_approval_def by (rule_tac claim_ok_map) (auto simp: is_answer_of_def)
qed

section \<open>The invariant holds in every run\<close>

lemma store_ok_asks:
  assumes "store_ok st" and "te_approval e \<notin> set (map ap_id st)" and "asks e p st st'"
  shows "store_ok st'"
  using assms expire_ok request_approval_ok by (auto simp: asks_def)

text \<open>A request that was not there before was created for this client under the drawn identifier.\<close>

lemma asks_new:
  assumes "asks e p st st'" and "a \<in> set st'"
  shows "(\<exists>b\<in>set st. a = b \<or> a = expire_one (te_now e) b) \<or> ap_id a = te_approval e \<and> ap_client a = pc_client p
    \<and> ap_status a = ApPending"
proof -
  have "(\<exists>b\<in>set st. a = expire_one (te_now e) b) \<or> ap_id a = te_approval e \<and> ap_client a = pc_client p \<and> ap_status a = ApPending"
    if "qr_client r = pc_client p" "a \<in> set (snd (request_approval (te_approval e) (te_now e) r st))" for r
    using that by (auto simp: request_approval_def Let_def expire_def split: option.splits)
  with assms show ?thesis by (auto simp: asks_def expire_def)
qed

lemma known_after_call:
  assumes "list_all (\<lambda>a. (ap_id a, ap_client a) \<in> set asked) (ed_approvals s)" and "asks e p (ed_approvals s) (ed_approvals s')"
  shows "list_all (\<lambda>a. (ap_id a, ap_client a) \<in> set (note_asked e p s' asked)) (ed_approvals s')"
proof -
  have "(ap_id a, ap_client a) \<in> set (note_asked e p s' asked)" if a: "a \<in> set (ed_approvals s')" for a
  proof (cases "\<exists>b\<in>set (ed_approvals s). a = b \<or> a = expire_one (te_now e) b")
    case True
    then have "(ap_id a, ap_client a) \<in> set asked" using assms(1) by (auto simp: list_all_iff)
    then show ?thesis by (simp add: note_asked_def)
  next
    case False
    with asks_new [OF assms(2) a] have new: "ap_id a = te_approval e" "ap_client a = pc_client p" by blast+
    with a have "te_approval e \<in> set (store_ids s')" unfolding store_ids_def by (metis image_eqI list.set_map)
    with new show ?thesis by (simp add: note_asked_def)
  qed
  then show ?thesis by (simp add: list_all_iff)
qed

lemma known_after_map:
  assumes "list_all (\<lambda>a. (ap_id a, ap_client a) \<in> set asked) st"
    and "\<And>a. ap_id (f a) = ap_id a \<and> ap_client (f a) = ap_client a"
  shows "list_all (\<lambda>a. (ap_id a, ap_client a) \<in> set asked) (map f st)"
  using assms by (simp add: list_all_iff)

lemma known_after_claim:
  assumes "list_all (\<lambda>a. (ap_id a, ap_client a) \<in> set asked) st" and "claim_approval now aid approve st = (r, st')"
  shows "list_all (\<lambda>a. (ap_id a, ap_client a) \<in> set asked) st'"
proof -
  have late: "list_all (\<lambda>a. (ap_id a, ap_client a) \<in> set asked) (expire now st)"
    unfolding expire_def using assms(1) by (rule known_after_map) simp
  show ?thesis
  proof (cases r)
    case (Inl err)
    with assms(2) have "st' = expire now st" by (simp add: claim_approval_Inl)
    with late show ?thesis by simp
  next
    case (Inr x)
    with assms(2) have st': "st' = update_approval aid (answered now approve) (expire now st)"
      by (auto elim: claim_approval_Inr)
    show ?thesis unfolding st' update_approval_def using late by (rule known_after_map) simp
  qed
qed

text \<open>A claimed request is new among those that were claimed before.\<close>

lemma claimed_is_new:
  assumes ok: "store_ok st" and known: "list_all (\<lambda>a. (ap_id a, ap_client a) \<in> set asked) st"
    and claim: "claim_approval now aid True st = (Inr (Some a), st')" and c: "list_all (claim_ok asked st) xs"
  shows "claim_ok asked st' a" and "ap_id a \<notin> set (map ap_id xs)"
proof -
  from claim obtain b where b: "b \<in> set st" "ap_id b = aid" "ap_status b = ApPending" "now < ap_expires b"
      and a: "a = answered now True b" and st': "st' = update_approval aid (answered now True) (expire now st)"
    by (auto elim: claim_approval_Inr)
  have late: "expire_one now b = b" using b by (simp add: expire_one_def)
  with b(1) have "b \<in> set (expire now st)" by (force simp: expire_def)
  with b(2) a have "a \<in> set st'" unfolding st' update_approval_def by force
  moreover have "is_answer_of a a" by (simp add: a is_answer_of_def)
  moreover have "now < ap_created b + approval_ttl_ms" using ok b(1,4) by (auto simp: store_ok_def list_all_iff)
  ultimately show "claim_ok asked st' a"
    using known b(1) by (auto simp: claim_ok_def list_ex_iff list_all_iff a)
  show "ap_id a \<notin> set (map ap_id xs)"
  proof
    assume "ap_id a \<in> set (map ap_id xs)"
    then obtain x where "x \<in> set xs" "ap_id x = aid" using a b(2) by auto
    with c claim_ok_id [of asked st x] obtain z where "z \<in> set st" "ap_id z = aid" "ap_status z \<noteq> ApPending"
      by (auto simp: list_all_iff)
    with b ok distinct_ids_eq [of st z b] show False by (simp add: store_ok_def)
  qed
qed

lemma list_all_mono: "list_all P xs \<Longrightarrow> (\<And>x. P x \<Longrightarrow> Q x) \<Longrightarrow> list_all Q xs"
  by (simp add: list_all_iff)

lemma move_distinct:
  assumes "a \<in> set xs" and "distinct (map f (xs @ ys))"
  shows "distinct (map f (filter (\<lambda>b. f b \<noteq> f a) xs @ a # ys))"
  using assms by (auto simp: distinct_map_filter)

lemma desk_step_ok:
  assumes "desk_step d d'" and ok: "desk_ok d"
  shows "desk_ok d'"
proof -
  let ?st = "ed_approvals (sk_endpoint d)" and ?out = "sk_claimed d @ sk_runs d"
  have store: "store_ok ?st" and known: "list_all (\<lambda>a. (ap_id a, ap_client a) \<in> set (sk_asked d)) ?st"
    and once: "distinct (map ap_id ?out)" and claims: "list_all (claim_ok (sk_asked d) ?st) ?out"
    using ok by (auto simp: desk_ok_def)
  have claim_keeps: "desk_ok (d\<lparr>sk_endpoint := (sk_endpoint d)\<lparr>ed_approvals := st\<rparr>\<rparr>)"
    if "claim_approval now aid approve ?st = (r, st)" for now aid approve r st
    using claim_store_ok [OF store that] known_after_claim [OF known that] once
      list_all_mono [OF claims claim_ok_claim [OF store _ that]] by (simp add: desk_ok_def)
  from assms(1) show ?thesis
  proof cases
    case (called e s p call)
    have asks: "asks e p ?st (ed_approvals s)" unfolding called(3) by (rule handle_call_asks)
    have "\<exists>extra. note_asked e p s (sk_asked d) = sk_asked d @ extra" by (simp add: note_asked_def)
    then obtain extra where extra: "note_asked e p s (sk_asked d) = sk_asked d @ extra" by blast
    have "list_all (claim_ok (sk_asked d @ extra) (ed_approvals s)) ?out"
      using claims by (rule list_all_mono) (rule claim_ok_asks [OF _ asks])
    moreover have "store_ok (ed_approvals s)"
      using store_ok_asks [OF store _ asks] called(2) by (simp add: store_ids_def)
    ultimately show ?thesis
      using known_after_call [OF known asks] once unfolding called(1) by (simp add: desk_ok_def extra)
  next
    case (looked now)
    have "list_all (claim_ok (sk_asked d) (expire now ?st)) ?out"
      using claims by (rule list_all_mono) (rule claim_ok_expire)
    moreover have "list_all (\<lambda>a. (ap_id a, ap_client a) \<in> set (sk_asked d)) (expire now ?st)"
      unfolding expire_def using known by (rule known_after_map) simp
    ultimately show ?thesis
      using expire_ok [OF store] once unfolding looked by (simp add: desk_ok_def pending_approvals_def Let_def)
  next
    case (answered_late now aid approve err st)
    with claim_keeps show ?thesis by blast
  next
    case (rejected now aid approve st)
    with claim_keeps show ?thesis by blast
  next
    case (claimed now aid approve a st)
    then have approve: "approve = True" by (auto elim!: claim_approval_Inr split: if_splits)
    note claim = claimed(2) [unfolded approve]
    note fresh = claimed_is_new [OF store known claim claims]
    have "list_all (claim_ok (sk_asked d) st) ?out"
      using claims by (rule list_all_mono) (rule claim_ok_claim [OF store _ claim])
    then show ?thesis
      using claim_store_ok [OF store claim] known_after_claim [OF known claim] once fresh
      unfolding claimed(1) by (simp add: desk_ok_def)
  next
    case (ran a e x r w)
    let ?new = "settle_approval (ap_id a) r ?st"
    have kept: "list_all (claim_ok (sk_asked d) ?new) ?out"
      using claims by (rule list_all_mono) (rule claim_ok_settle)
    have "list_all (\<lambda>a. (ap_id a, ap_client a) \<in> set (sk_asked d)) ?new"
      unfolding settle_approval_def update_approval_def using known by (rule known_after_map) simp
    moreover have "list_all (claim_ok (sk_asked d) ?new) (filter (\<lambda>b. ap_id b \<noteq> ap_id a) (sk_claimed d) @ a # sk_runs d)"
      using kept ran(2) by (auto simp: list_all_iff)
    moreover have "distinct (map ap_id (filter (\<lambda>b. ap_id b \<noteq> ap_id a) (sk_claimed d) @ a # sk_runs d))"
      using ran(2) once by (rule move_distinct)
    ultimately show ?thesis
      using settle_store_ok [OF store] unfolding ran(1) by (simp add: desk_ok_def)
  next
    case (elsewhere w)
    with ok show ?thesis by (simp add: desk_ok_def)
  qed
qed

inductive desk_steps :: "desk \<Rightarrow> desk \<Rightarrow> bool" where
  still: "desk_steps d d"
| further: "desk_steps d d1 \<Longrightarrow> desk_step d1 d2 \<Longrightarrow> desk_steps d d2"

lemma desk_steps_ok: "desk_steps d d' \<Longrightarrow> desk_ok d \<Longrightarrow> desk_ok d'"
  by (induction rule: desk_steps.induct) (auto intro: desk_step_ok)

lemma empty_desk_ok: "desk_ok (empty_desk w)"
  by (simp add: desk_ok_def empty_desk_def store_ok_def pending_of_def)

end
