(* ===== verification/QueueClaim.thy ===== *)
theory QueueClaim
  imports QueuePlan
begin

text \<open>
  The claim of the next runnable unit (\<open>processing/repository.rs\<close>, \<open>claim_next\<close>): the scan by
  priority level, the revalidation of the input and the lease.

  A call is one immediate transaction, so it runs alone: the compare-and-set on the epoch always
  finds the row it read.
\<close>

section \<open>Runnable units\<close>

text \<open>The four arms a unit can be claimed and published by.\<close>

definition is_claimable_subject :: "task \<Rightarrow> bool" where
  "is_claimable_subject t \<longleftrightarrow>
       tk_domain t = Corpus \<and> tk_subject_kind t = SAsset
     \<or> tk_domain t = Bibliography \<and> tk_subject_kind t = SLibrary \<and> tk_kind t = KBibliographySync
     \<or> tk_domain t = Bibliography \<and> tk_subject_kind t = SItem \<and> tk_kind t = KBibliographyProfile
     \<or> tk_domain t = Bibliography \<and> tk_subject_kind t = SAttachment \<and> tk_kind t = KBibliographyExtract"

definition has_unmet_dependency :: "queue \<Rightarrow> task \<Rightarrow> bool" where
  "has_unmet_dependency q t \<longleftrightarrow> list_ex (\<lambda>l.
     (case Option.bind (ln_dependency l) (\<lambda>d. find_task d q) of
        None \<Rightarrow> False | Some d \<Rightarrow> tk_state d \<notin> {TSucceeded, TSkipped})) (links_of_task (tk_id t) q)"

definition is_runnable :: "task_kind list \<Rightarrow> queue \<Rightarrow> task \<Rightarrow> bool" where
  "is_runnable kinds q t \<longleftrightarrow> tk_kind t \<in> set kinds \<and> is_claimable_subject t
     \<and> list_ex (is_live_link {BRunning} q (tk_id t)) (q_links q) \<and> \<not> has_unmet_dependency q t"

definition is_due :: "int \<Rightarrow> task \<Rightarrow> bool" where
  "is_due now t \<longleftrightarrow> tk_state t = TPending
     \<or> tk_state t = TRetryWait \<and> (case tk_next_retry t of None \<Rightarrow> False | Some wake \<Rightarrow> wake \<le> now)"

text \<open>The rows of a query in the order of their identifiers; \<open>LIMIT 1\<close>.\<close>

definition first_by_id :: "task list \<Rightarrow> task option" where
  "first_by_id ts = (case sort_key tk_id ts of [] \<Rightarrow> None | t # _ \<Rightarrow> Some t)"

section \<open>The scan\<close>

definition claim_level_driver_links :: nat where
  "claim_level_driver_links = 5000"

definition is_level_batch :: "int \<Rightarrow> batch \<Rightarrow> bool" where
  "is_level_batch level b \<longleftrightarrow> bt_priority b = level \<and> bt_state b = BRunning \<and> bt_desired b = DRun"

definition is_at_level :: "int \<Rightarrow> queue \<Rightarrow> task \<Rightarrow> bool" where
  "is_at_level level q t \<longleftrightarrow> list_ex (\<lambda>l. ln_request l = RActive
     \<and> list_ex (\<lambda>b. bt_id b = ln_batch l \<and> is_level_batch level b) (q_batches q)) (links_of_task (tk_id t) q)"

text \<open>One branch per state, each its first unit, then the first of the two.\<close>

definition state_walk ::
  "task_kind list \<Rightarrow> (task \<Rightarrow> bool) \<Rightarrow> int \<Rightarrow> queue \<Rightarrow> task option" where
  "state_walk kinds p now q =
     (let branch = (\<lambda>s. case first_by_id (filter (\<lambda>t. tk_state t = s \<and> is_due now t
              \<and> is_runnable kinds q t \<and> p t) (q_tasks q)) of None \<Rightarrow> [] | Some t \<Rightarrow> [t])
      in first_by_id (branch TPending @ branch TRetryWait))"

text \<open>From the batches of the level over their links to the units; a unit may appear twice.\<close>

definition driven_rows :: "int \<Rightarrow> queue \<Rightarrow> task list" where
  "driven_rows level q = concat (map (\<lambda>b. concat (map (\<lambda>l.
       filter (\<lambda>t. tk_id t = ln_task l) (q_tasks q))
     (filter (\<lambda>l. ln_request l = RActive) (links_of_batch (bt_id b) q))))
     (filter (is_level_batch level) (q_batches q)))"

definition driven_walk ::
  "task_kind list \<Rightarrow> (task \<Rightarrow> bool) \<Rightarrow> int \<Rightarrow> int \<Rightarrow> queue \<Rightarrow> task option" where
  "driven_walk kinds p level now q =
     first_by_id (filter (\<lambda>t. is_due now t \<and> is_runnable kinds q t \<and> p t) (driven_rows level q))"

text \<open>An extraction waits behind a runnable profile of the same level.\<close>

definition prefer_profile :: "((task \<Rightarrow> bool) \<Rightarrow> task option) \<Rightarrow> task option" where
  "prefer_profile walk =
     (let general = walk (\<lambda>_. True) in
      case general of
        Some t \<Rightarrow> if tk_kind t = KBibliographyExtract
          then opt_or (walk (\<lambda>t. tk_kind t = KBibliographyProfile)) general else general
      | None \<Rightarrow> None)"

definition level_links :: "int \<Rightarrow> queue \<Rightarrow> nat" where
  "level_links level q = min claim_level_driver_links (length (concat (map (\<lambda>b.
     filter (\<lambda>l. ln_request l = RActive) (links_of_batch (bt_id b) q))
     (filter (is_level_batch level) (q_batches q)))))"

definition scan_level :: "task_kind list \<Rightarrow> int \<Rightarrow> queue \<Rightarrow> int \<Rightarrow> task option" where
  "scan_level kinds now q level =
     (if level_links level q < claim_level_driver_links
      then prefer_profile (\<lambda>p. driven_walk kinds p level now q)
      else prefer_profile (\<lambda>p. state_walk kinds (\<lambda>t. is_at_level level q t \<and> p t) now q))"

definition raised_levels :: "queue \<Rightarrow> int list" where
  "raised_levels q = rev (sort (remdups (map bt_priority (filter (\<lambda>b. 0 < bt_priority b
     \<and> bt_state b = BRunning \<and> bt_desired b = DRun) (q_batches q)))))"

fun first_level :: "(int \<Rightarrow> task option) \<Rightarrow> int list \<Rightarrow> task option" where
  "first_level f [] = None"
| "first_level f (level # rest) = opt_or (f level) (first_level f rest)"

definition claim_candidate :: "task_kind list \<Rightarrow> int \<Rightarrow> queue \<Rightarrow> task option" where
  "claim_candidate kinds now q =
     opt_or (first_level (scan_level kinds now q) (raised_levels q))
       (prefer_profile (\<lambda>p. state_walk kinds p now q))"

section \<open>Revalidation of the input\<close>

text \<open>
  The revision and fingerprint to pin, or the unit settled without an engine, or an error.
\<close>

datatype validation = Pinned int str | Settled queue | Refused queue_error

definition configuration_changed :: str where
  "configuration_changed = tx ''configuration_changed''"

definition contract_message :: str where
  "contract_message = tx ''the effective embedding contract changed while this task waited; resume with the current configuration to re-evaluate''"

definition sync_message :: str where
  "sync_message = tx ''the pinned bibliography sync contract differs from the one this build runs; resume with the current configuration to re-evaluate''"

definition extract_message :: str where
  "extract_message = tx ''the bibliography extraction contract changed while this task waited; resume with the current configuration to re-evaluate''"

definition skip :: "str \<Rightarrow> str \<Rightarrow> queue \<Rightarrow> validation" where
  "skip tid outcome q = Settled (mark_skipped tid outcome q)"

definition has_manual_link :: "str \<Rightarrow> queue \<Rightarrow> bool" where
  "has_manual_link tid q \<longleftrightarrow> list_ex (\<lambda>l. ln_request l = RActive
     \<and> list_ex (\<lambda>b. bt_id b = ln_batch l \<and> bt_origin b = OManual) (q_batches q)) (links_of_task tid q)"

definition wants_native_pages :: "str \<Rightarrow> queue \<Rightarrow> bool" where
  "wants_native_pages tid q \<longleftrightarrow> list_ex (\<lambda>l. ln_request l = RActive
     \<and> list_ex (\<lambda>b. bt_id b = ln_batch l \<and> ocr_include_native \<in> set (bt_operations b)) (q_batches q))
     (links_of_task tid q)"

definition validate_ocr :: "environment \<Rightarrow> archive \<Rightarrow> task \<Rightarrow> queue \<Rightarrow> validation" where
  "validate_ocr e a t q =
     (case decide_ocr e a (tk_asset t) of
        None \<Rightarrow> Refused AssetMissing
      | Some decision \<Rightarrow>
          if (case decision of OcrAlreadyDone found \<Rightarrow> \<not> has_manual_link (tk_id t) q
                \<and> (found \<noteq> tx ''native'' \<or> \<not> wants_native_pages (tk_id t) q) | _ \<Rightarrow> False)
          then skip (tk_id t) (tx ''already_satisfied'') q
          else (case ocr_fingerprint a (tk_asset t) of
              None \<Rightarrow> Refused AssetMissing
            | Some fingerprint \<Rightarrow> Pinned (source_revision (tk_asset t) q) fingerprint))"

definition validate_correction :: "archive \<Rightarrow> task \<Rightarrow> queue \<Rightarrow> validation" where
  "validate_correction a t q =
     (case decide_correction a (tk_asset t) of
        CorrectionEligible \<Rightarrow> Pinned (source_revision (tk_asset t) q) []
      | CorrectionDone \<Rightarrow> skip (tk_id t) (tx ''already_satisfied'') q
      | CorrectionNoText \<Rightarrow> skip (tk_id t) (tx ''no_source_text'') q)"

definition validate_extraction :: "extraction_decision \<Rightarrow> task \<Rightarrow> queue \<Rightarrow> validation" where
  "validate_extraction decision t q =
     (case decision of
        ExtractionEligible \<Rightarrow> Pinned (source_revision (tk_asset t) q) []
      | ExtractionDone \<Rightarrow> skip (tk_id t) (tx ''already_satisfied'') q
      | ExtractionNoText \<Rightarrow> skip (tk_id t) (tx ''no_source_text'') q)"

definition unforced :: "str \<Rightarrow> str" where
  "unforced contract = unwrap_or contract (strip_prefix force_prefix contract)"

definition validate_embedding :: "environment \<Rightarrow> archive \<Rightarrow> task \<Rightarrow> queue \<Rightarrow> validation" where
  "validate_embedding e a t q =
     (let force = starts_with force_prefix (tk_contract t);
          contract = unforced (tk_contract t)
      in case effective_contract e a of
           None \<Rightarrow> Refused SettingsError
         | Some c \<Rightarrow>
             (case (decide_embedding e a (revision_row (tk_asset t) q) (tk_asset t),
                    embedding_input_fingerprint e a (tk_asset t)) of
                (Some decision, Some fingerprint) \<Rightarrow>
                  (if force \<and> decision \<noteq> EmbeddingNoText \<and> contract = ec_hash c
                   then Pinned (source_revision (tk_asset t) q) fingerprint
                   else (case decision of
                       EmbeddingFresh \<Rightarrow> skip (tk_id t) (tx ''already_satisfied'') q
                     | EmbeddingNoText \<Rightarrow> skip (tk_id t) (tx ''no_source_text'') q
                     | EmbeddingEligible _ \<Rightarrow>
                         if contract \<noteq> ec_hash c
                         then Settled (mark_blocked (tk_id t) configuration_changed contract_message q)
                         else Pinned (source_revision (tk_asset t) q) fingerprint))
              | _ \<Rightarrow> Refused SettingsError))"

definition validate_corpus_claim_input ::
  "environment \<Rightarrow> archive \<Rightarrow> task \<Rightarrow> queue \<Rightarrow> validation" where
  "validate_corpus_claim_input e a t q =
     (if find_asset (tk_asset t) a = None then skip (tk_id t) (tx ''source_deleted'') q
      else (case tk_kind t of
          KOcr \<Rightarrow> validate_ocr e a t q
        | KOcrCorrection \<Rightarrow> validate_correction a t q
        | KNer \<Rightarrow> validate_extraction (decide_ner a (tk_asset t)) t q
        | KTriples \<Rightarrow> validate_extraction (decide_triples a (tk_asset t)) t q
        | KSummary \<Rightarrow> validate_extraction (decide_summary a (tk_asset t)) t q
        | KSchemaExtract \<Rightarrow>
            (case strip_prefix schema_prefix (tk_contract t) of
               Some schema \<Rightarrow> validate_extraction (decide_schema a (tk_asset t) schema) t q
             | None \<Rightarrow> skip (tk_id t) (tx ''schema_missing'') q)
        | _ \<Rightarrow> validate_embedding e a t q))"

definition validate_item_claim_input ::
  "environment \<Rightarrow> archive \<Rightarrow> task \<Rightarrow> queue \<Rightarrow> validation" where
  "validate_item_claim_input e a t q =
     (if tk_kind t \<noteq> KBibliographyProfile then Refused UnsupportedSubject
      else (case effective_contract e a of
          None \<Rightarrow> Refused SettingsError
        | Some c \<Rightarrow>
            if tk_contract t \<noteq> ec_hash c
            then Settled (mark_blocked (tk_id t) configuration_changed contract_message q)
            else (case ev_profile e (tk_subject t) of
                None \<Rightarrow> skip (tk_id t) (tx ''item_missing'') q
              | Some (revision, fingerprint) \<Rightarrow> Pinned revision fingerprint)))"

definition validate_attachment_claim_input :: "environment \<Rightarrow> task \<Rightarrow> queue \<Rightarrow> validation" where
  "validate_attachment_claim_input e t q =
     (if tk_kind t \<noteq> KBibliographyExtract then Refused UnsupportedSubject
      else (case parse_extract_contract (tk_contract t) of
          None \<Rightarrow> Settled (mark_blocked (tk_id t) configuration_changed extract_message q)
        | Some mode \<Rightarrow>
            (case ev_attachment e (tk_subject t) of
               None \<Rightarrow> skip (tk_id t) (tx ''attachment_missing'') q
             | Some r \<Rightarrow> Pinned 0 (fingerprint_for_mode mode r))))"

definition validate_library_claim_input :: "environment \<Rightarrow> task \<Rightarrow> queue \<Rightarrow> validation" where
  "validate_library_claim_input e t q =
     (if tk_kind t \<noteq> KBibliographySync then Refused UnsupportedSubject
      else if tk_contract t \<noteq> sync_contract
      then Settled (mark_blocked (tk_id t) configuration_changed sync_message q)
      else (case ev_library e (tk_subject t) of
          None \<Rightarrow> skip (tk_id t) (tx ''library_missing'') q
        | Some nullable \<Rightarrow>
            let version = unwrap_or 0 nullable in
            Pinned version (library_fingerprint (tk_subject t) version)))"

definition validate_claim_input ::
  "environment \<Rightarrow> archive \<Rightarrow> task \<Rightarrow> queue \<Rightarrow> validation" where
  "validate_claim_input e a t q =
     (case tk_domain t of
        Corpus \<Rightarrow> validate_corpus_claim_input e a t q
      | Bibliography \<Rightarrow>
          (case tk_subject_kind t of
             SItem \<Rightarrow> validate_item_claim_input e a t q
           | SAttachment \<Rightarrow> validate_attachment_claim_input e t q
           | _ \<Rightarrow> validate_library_claim_input e t q))"

section \<open>The lease\<close>

record claimed_task =
  cl_task :: str
  cl_kind :: task_kind
  cl_asset :: str
  cl_domain :: domain
  cl_subject_kind :: subject_kind
  cl_subject :: str
  cl_revision :: int
  cl_fingerprint :: str
  cl_contract :: str
  cl_epoch :: int
  cl_attempt :: int

definition pin_input :: "str \<Rightarrow> int \<Rightarrow> str \<Rightarrow> queue \<Rightarrow> queue" where
  "pin_input tid revision fingerprint =
     update_tasks (\<lambda>t. tk_id t = tid) (\<lambda>t. t\<lparr>tk_revision := revision, tk_fingerprint := fingerprint\<rparr>)"

definition lease_task :: "str \<Rightarrow> int \<Rightarrow> task \<Rightarrow> task" where
  "lease_task session now t = t\<lparr>tk_state := TRunning, tk_owner := Some session,
     tk_epoch := tk_epoch t + 1, tk_heartbeat := Some now, tk_expires := Some (now + lease_ttl_ms),
     tk_attempts := tk_attempts t + 1\<rparr>"

definition is_claimed_row :: "str \<Rightarrow> int \<Rightarrow> task \<Rightarrow> bool" where
  "is_claimed_row tid epoch t \<longleftrightarrow>
     tk_id t = tid \<and> tk_state t \<in> {TPending, TRetryWait} \<and> tk_epoch t = epoch"

definition open_attempt :: "str \<Rightarrow> int \<Rightarrow> int \<Rightarrow> attempt" where
  "open_attempt tid number epoch = \<lparr>at_task = tid, at_number = number, at_epoch = epoch,
     at_outcome = AOpen, at_retryable = False, at_code = None, at_message = None, at_provider = None\<rparr>"

text \<open>The primary key of an attempt is its unit and its number.\<close>

definition insert_attempt :: "attempt \<Rightarrow> queue \<Rightarrow> queue_error + queue" where
  "insert_attempt x q =
     (if list_ex (\<lambda>y. at_task y = at_task x \<and> at_number y = at_number x) (q_attempts q)
      then Inl ConstraintFailed else Inr (q\<lparr>q_attempts := q_attempts q @ [x]\<rparr>))"

definition take_lease ::
  "str \<Rightarrow> int \<Rightarrow> task \<Rightarrow> int \<Rightarrow> str \<Rightarrow> queue \<Rightarrow> queue_error + claimed_task option \<times> queue" where
  "take_lease session now t revision fingerprint q =
     (let q1 = pin_input (tk_id t) revision fingerprint q in
      if matching_ids (is_claimed_row (tk_id t) (tk_epoch t)) q1 = [] then Inr (None, q1)
      else
        let q2 = update_tasks (is_claimed_row (tk_id t) (tk_epoch t)) (lease_task session now) q1
        in case find_task (tk_id t) q2 of
             None \<Rightarrow> Inl RowMissing
           | Some leased \<Rightarrow>
               map_sum id (\<lambda>q3. (Some \<lparr>cl_task = tk_id t, cl_kind = tk_kind t, cl_asset = tk_asset t,
                   cl_domain = tk_domain t, cl_subject_kind = tk_subject_kind t,
                   cl_subject = tk_subject t, cl_revision = revision, cl_fingerprint = fingerprint,
                   cl_contract = tk_contract t, cl_epoch = tk_epoch t + 1,
                   cl_attempt = tk_attempts leased\<rparr>, q3))
                 (insert_attempt (open_attempt (tk_id t) (tk_attempts leased) (tk_epoch t + 1)) q2))"

definition claim_next ::
  "environment \<Rightarrow> archive \<Rightarrow> str \<Rightarrow> task_kind list \<Rightarrow> int \<Rightarrow> queue \<Rightarrow>
   queue_error + claimed_task option \<times> queue" where
  "claim_next e a session kinds now q =
     (if kinds = [] then Inr (None, q)
      else (case claim_candidate kinds now q of
          None \<Rightarrow> Inr (None, q)
        | Some t \<Rightarrow>
            if \<not> is_claimable_subject t then Inl UnsupportedSubject
            else (case validate_claim_input e a t q of
                Refused err \<Rightarrow> Inl err
              | Settled q1 \<Rightarrow> Inr (None, q1)
              | Pinned revision fingerprint \<Rightarrow> take_lease session now t revision fingerprint q)))"

end
