(* ===== verification/QueueRun.thy ===== *)
theory QueueRun
  imports QueueClaim
begin

text \<open>
  The supervisor: publication of a result, one unit from claim to its end, one tick of the loop,
  and the recovery of a session (\<open>processing/repository.rs\<close>, \<open>scheduler.rs\<close>, \<open>recovery.rs\<close>).

  The state is the archive with the tables of the queue. The engine and the publishers of its
  results are arguments: \<open>publish\<close> writes the canonical rows of a result inside the transaction of
  the commit and may write any table. The engine runs without a transaction, so a unit is split
  where the engine runs: other connections may have changed every table in between. The wording
  of an error message is the argument \<open>wording\<close>.
\<close>

section \<open>Publication\<close>

type_synonym db = "archive \<times> queue"

text \<open>The output of an engine by the kind of its publisher.\<close>

record 'o engine_output =
  eo_kind :: task_kind
  eo_result :: 'o

definition is_publishable_route :: "task \<Rightarrow> bool" where
  "is_publishable_route t \<longleftrightarrow>
       tk_domain t = Corpus \<and> tk_subject_kind t = SAsset \<and> is_corpus_kind (tk_kind t)
     \<or> tk_domain t = Bibliography \<and> tk_subject_kind t = SLibrary \<and> tk_kind t = KBibliographySync
     \<or> tk_domain t = Bibliography \<and> tk_subject_kind t = SItem \<and> tk_kind t = KBibliographyProfile
     \<or> tk_domain t = Bibliography \<and> tk_subject_kind t = SAttachment \<and> tk_kind t = KBibliographyExtract"

text \<open>The source must not have moved since the claim pinned it.\<close>

definition check_extract_source :: "environment \<Rightarrow> task \<Rightarrow> queue_error option" where
  "check_extract_source e t =
     (case parse_extract_contract (tk_contract t) of
        None \<Rightarrow> Some ConfigurationChanged
      | Some mode \<Rightarrow>
          (case ev_attachment e (tk_subject t) of
             None \<Rightarrow> Some SourceChanged
           | Some r \<Rightarrow> if fingerprint_for_mode mode r \<noteq> tk_fingerprint t then Some SourceChanged else None))"

definition check_profile_source :: "environment \<Rightarrow> archive \<Rightarrow> task \<Rightarrow> queue_error option" where
  "check_profile_source e a t =
     (case effective_contract e a of
        None \<Rightarrow> Some SettingsError
      | Some c \<Rightarrow>
          if tk_contract t \<noteq> ec_hash c then Some ConfigurationChanged
          else (case ev_profile e (tk_subject t) of
              None \<Rightarrow> Some SourceChanged
            | Some (_, fingerprint) \<Rightarrow> if fingerprint \<noteq> tk_fingerprint t then Some SourceChanged else None))"

definition check_library_source :: "environment \<Rightarrow> task \<Rightarrow> queue_error option" where
  "check_library_source e t =
     (if tk_contract t \<noteq> sync_contract then Some ConfigurationChanged
      else (case ev_library e (tk_subject t) of
          None \<Rightarrow> Some SourceChanged
        | Some nullable \<Rightarrow>
            let current = unwrap_or 0 nullable in
            if current \<noteq> tk_revision t \<or> library_fingerprint (tk_subject t) current \<noteq> tk_fingerprint t
            then Some SourceChanged else None))"

definition check_corpus_source :: "environment \<Rightarrow> archive \<Rightarrow> queue \<Rightarrow> task \<Rightarrow> queue_error option" where
  "check_corpus_source e a q t =
     (if source_revision (tk_asset t) q \<noteq> tk_revision t then Some SourceChanged
      else if tk_kind t = KEmbedding then
        (case effective_contract e a of
           None \<Rightarrow> Some SettingsError
         | Some c \<Rightarrow>
             if unforced (tk_contract t) \<noteq> ec_hash c then Some ConfigurationChanged
             else (case embedding_input_fingerprint e a (tk_asset t) of
                 None \<Rightarrow> Some SettingsError
               | Some fingerprint \<Rightarrow> if fingerprint \<noteq> tk_fingerprint t then Some SourceChanged else None))
      else if tk_kind t = KOcr then
        (case ocr_fingerprint a (tk_asset t) of
           None \<Rightarrow> Some SourceDeleted
         | Some fingerprint \<Rightarrow> if fingerprint \<noteq> tk_fingerprint t then Some SourceChanged else None)
      else None)"

definition check_source :: "environment \<Rightarrow> db \<Rightarrow> task \<Rightarrow> queue_error option" where
  "check_source e db t =
     (if tk_domain t = Corpus then check_corpus_source e (fst db) (snd db) t
      else if tk_subject_kind t = SAttachment then check_extract_source e t
      else if tk_subject_kind t = SItem then check_profile_source e (fst db) t
      else check_library_source e t)"

definition stamp_completion :: "str \<Rightarrow> int \<Rightarrow> queue \<Rightarrow> queue" where
  "stamp_completion aid revision q = q\<lparr>q_revisions := update_where (\<lambda>r. rv_asset r = aid)
     (\<lambda>r. r\<lparr>rv_completed := Some revision\<rparr>) (q_revisions q)\<rparr>"

definition bump_revisions :: "str \<Rightarrow> queue \<Rightarrow> queue" where
  "bump_revisions tid q =
     map_batches (\<lambda>b. bt_id b \<in> set (map ln_batch (links_of_task tid q)))
       (\<lambda>b. b\<lparr>bt_revision := bt_revision b + 1\<rparr>) q"

definition settle_success :: "str \<Rightarrow> task_kind \<Rightarrow> str \<Rightarrow> int \<Rightarrow> str \<Rightarrow> str \<Rightarrow> queue \<Rightarrow> queue" where
  "settle_success tid kind aid revision outcome receipt q =
     (let q1 = delete_task_checkpoints tid
            (update_tasks (\<lambda>t. tk_id t = tid) (\<lambda>t. t\<lparr>tk_state := TSucceeded, tk_outcome := outcome,
               tk_receipt := Some receipt, tk_error_code := None, tk_error_message := None,
               tk_owner := None\<rparr>) q);
          q2 = (if kind = KEmbedding then stamp_completion aid revision q1 else q1)
      in bump_revisions tid (close_open_attempt tid ASucceeded q2))"

text \<open>
  One transaction: an error of a check or of the publisher leaves nothing behind. \<open>publish\<close> is
  applied to the tables as they are after the checks.
\<close>

definition commit_success_with ::
  "environment \<Rightarrow> str \<Rightarrow> int \<Rightarrow> task_kind \<Rightarrow> str \<Rightarrow> str \<Rightarrow> (db \<Rightarrow> queue_error + db) \<Rightarrow> db \<Rightarrow>
   queue_error + db" where
  "commit_success_with e tid epoch kind outcome receipt publish db =
     (case find (\<lambda>t. tk_id t = tid \<and> tk_epoch t = epoch) (q_tasks (snd db)) of
        None \<Rightarrow> Inl LeaseLost
      | Some t \<Rightarrow>
          if tk_kind t \<noteq> kind \<or> \<not> is_publishable_route t then Inl UnsupportedSubject
          else if tk_state t \<noteq> TRunning then Inl LeaseLost
          else if \<not> execution_wanted tid (snd db) then Inl DemandLost
          else (case check_source e db t of
              Some err \<Rightarrow> Inl err
            | None \<Rightarrow> try_then (publish db) (\<lambda>(a, q).
                Inr (a, settle_success tid kind (tk_asset t) (tk_revision t) outcome receipt q))))"

text \<open>The publisher of an output is chosen by the route of the unit; another output is refused.\<close>

definition publish_engine_output ::
  "(claimed_task \<Rightarrow> 'o \<Rightarrow> db \<Rightarrow> queue_error + db) \<Rightarrow> claimed_task \<Rightarrow> 'o engine_output \<Rightarrow> db \<Rightarrow>
   queue_error + db" where
  "publish_engine_output publish c output db =
     (if eo_kind output = cl_kind c
        \<and> (cl_domain c = Corpus \<and> cl_subject_kind c = SAsset \<and> is_corpus_kind (cl_kind c)
           \<or> cl_domain c = Bibliography \<and> cl_subject_kind c = SLibrary \<and> cl_kind c = KBibliographySync
           \<or> cl_domain c = Bibliography \<and> cl_subject_kind c = SItem \<and> cl_kind c = KBibliographyProfile
           \<or> cl_domain c = Bibliography \<and> cl_subject_kind c = SAttachment \<and> cl_kind c = KBibliographyExtract)
      then publish c (eo_result output) db
      else Inl UnsupportedSubject)"

section \<open>One unit\<close>

datatype exec_output =
    XSuccess str str
  | XRetryable str str
  | XFatal str str
  | XBlocked str str
  | XDeferred str str int
  | XStopped

record 'o exec_result =
  xr_checkpoints :: "checkpoint list"
  xr_progress :: "int option"
  xr_output :: "'o engine_output option"
  xr_verdict :: exec_output

datatype run_outcome =
    RunIdle
  | RunSucceeded str
  | RunFailed str
  | RunWaiting str
  | RunStopped str
  | RunRequeued str
  | RunBlocked str
  | RunDeferred str

text \<open>A call that may fail and leaves the tables as they were when it does.\<close>

definition run_step ::
  "queue_error + queue \<Rightarrow> db \<Rightarrow> (db \<Rightarrow> (queue_error + run_outcome) \<times> db) \<Rightarrow>
   (queue_error + run_outcome) \<times> db" where
  "run_step r db k = (case r of Inl err \<Rightarrow> (Inl err, db) | Inr q \<Rightarrow> k (fst db, q))"

fun finalize_batches :: "str list \<Rightarrow> queue \<Rightarrow> queue_error + queue" where
  "finalize_batches [] q = Inr q"
| "finalize_batches (bid # rest) q =
     try_then (maybe_finalize_batch bid q) (\<lambda>(_, q1). finalize_batches rest q1)"

definition finalize_links :: "str \<Rightarrow> queue \<Rightarrow> queue_error + queue" where
  "finalize_links tid q = finalize_batches (remdups (map ln_batch (links_of_task tid q))) q"

definition finish_with :: "str \<Rightarrow> run_outcome \<Rightarrow> db \<Rightarrow> (queue_error + run_outcome) \<times> db" where
  "finish_with tid outcome db =
     run_step (finalize_links tid (snd db)) db (\<lambda>db1. (Inr outcome, db1))"

text \<open>The attempt failed: park or fail the unit, then look at its batches.\<close>

definition settle_failure ::
  "(str \<Rightarrow> nat list) \<Rightarrow> claimed_task \<Rightarrow> str \<Rightarrow> str \<Rightarrow> bool \<Rightarrow> int \<Rightarrow> db \<Rightarrow>
   (queue_error + run_outcome) \<times> db" where
  "settle_failure bytes c code message retryable now db =
     (case fail_attempt bytes (cl_task c) (cl_epoch c) (cl_attempt c) code message retryable None now
          (snd db) of
        Inl err \<Rightarrow> (Inl err, db)
      | Inr (outcome, q) \<Rightarrow>
          finish_with (cl_task c)
            (case outcome of FailRetryWait _ \<Rightarrow> RunWaiting (cl_task c) | FailFailed \<Rightarrow> RunFailed (cl_task c))
            (fst db, q))"

text \<open>Checkpoints in order; the first that is refused ends the unit.\<close>

fun save_checkpoints :: "str \<Rightarrow> int \<Rightarrow> checkpoint list \<Rightarrow> int \<Rightarrow> queue \<Rightarrow> queue_error option \<times> queue" where
  "save_checkpoints tid epoch [] now q = (None, q)"
| "save_checkpoints tid epoch (c # cs) now q =
     (case save_checkpoint tid epoch c now q of
        Inl err \<Rightarrow> (Some err, q) | Inr q1 \<Rightarrow> save_checkpoints tid epoch cs now q1)"

definition publish_failed :: str where
  "publish_failed = tx ''publish_failed''"

definition settle_commit ::
  "(str \<Rightarrow> nat list) \<Rightarrow> (queue_error \<Rightarrow> str) \<Rightarrow> claimed_task \<Rightarrow> queue_error + db \<Rightarrow> int \<Rightarrow> db \<Rightarrow>
   (queue_error + run_outcome) \<times> db" where
  "settle_commit bytes wording c committed now db =
     (let tid = cl_task c; epoch = cl_epoch c in
      case committed of
        Inr db1 \<Rightarrow> finish_with tid (RunSucceeded tid) db1
      | Inl err \<Rightarrow>
          (case err of
             SourceChanged \<Rightarrow>
               (case record_source_change tid epoch (wording err) (snd db) of
                  Inl err1 \<Rightarrow> (Inl err1, db)
                | Inr (ChangeRequeued, q) \<Rightarrow> (Inr (RunRequeued tid), (fst db, q))
                | Inr (ChangeBlocked, q) \<Rightarrow> finish_with tid (RunBlocked tid) (fst db, q))
           | DemandLost \<Rightarrow> run_step (interrupt_task tid epoch (snd db)) db (\<lambda>db1. (Inr (RunStopped tid), db1))
           | ConfigurationChanged \<Rightarrow>
               run_step (block_running_task tid epoch configuration_changed (wording err) (snd db)) db
                 (\<lambda>db1. (Inr (RunBlocked tid), db1))
           | LeaseLost \<Rightarrow> (Inr (RunStopped tid), db)
           | _ \<Rightarrow> settle_failure bytes c publish_failed (wording err) True now db))"

definition settle_verdict ::
  "environment \<Rightarrow> (claimed_task \<Rightarrow> 'o \<Rightarrow> db \<Rightarrow> queue_error + db) \<Rightarrow> (str \<Rightarrow> nat list) \<Rightarrow>
   (queue_error \<Rightarrow> str) \<Rightarrow> claimed_task \<Rightarrow> 'o exec_result \<Rightarrow> int \<Rightarrow> db \<Rightarrow> (queue_error + run_outcome) \<times> db" where
  "settle_verdict e publish bytes wording c result now db =
     (let tid = cl_task c; epoch = cl_epoch c in
      case xr_verdict result of
        XSuccess outcome receipt \<Rightarrow>
          (case xr_output result of
             None \<Rightarrow> run_step (requeue_task tid epoch (snd db)) db (\<lambda>db1. (Inr (RunRequeued tid), db1))
           | Some output \<Rightarrow>
               settle_commit bytes wording c
                 (commit_success_with e tid epoch (cl_kind c) outcome receipt
                    (publish_engine_output publish c output) db) now db)
      | XRetryable code message \<Rightarrow> settle_failure bytes c code message True now db
      | XFatal code message \<Rightarrow> settle_failure bytes c code message False now db
      | XBlocked code message \<Rightarrow>
          run_step (block_running_task tid epoch code message (snd db)) db (finish_with tid (RunBlocked tid))
      | XDeferred code reason wake \<Rightarrow>
          run_step (defer_task tid epoch wake code reason (snd db)) db (finish_with tid (RunDeferred tid))
      | XStopped \<Rightarrow> run_step (interrupt_task tid epoch (snd db)) db (\<lambda>db1. (Inr (RunStopped tid), db1)))"

text \<open>What follows the engine, on the tables as they are then. A panic of the engine is \<open>None\<close>.\<close>

definition panicked :: "'o exec_result" where
  "panicked = \<lparr>xr_checkpoints = [], xr_progress = None, xr_output = None,
     xr_verdict = XFatal (tx ''executor_panicked'')
       (tx ''Processing engine panicked; confirmed units remain available for retry'')\<rparr>"

definition finish_unit ::
  "environment \<Rightarrow> (claimed_task \<Rightarrow> 'o \<Rightarrow> db \<Rightarrow> queue_error + db) \<Rightarrow> (str \<Rightarrow> nat list) \<Rightarrow>
   (queue_error \<Rightarrow> str) \<Rightarrow> claimed_task \<Rightarrow> 'o exec_result option \<Rightarrow> int \<Rightarrow> db \<Rightarrow>
   (queue_error + run_outcome) \<times> db" where
  "finish_unit e publish bytes wording c engine now db =
     (let tid = cl_task c; epoch = cl_epoch c; result = (case engine of Some r \<Rightarrow> r | None \<Rightarrow> panicked) in
      case (case xr_progress result of
              None \<Rightarrow> Inr (snd db) | Some units \<Rightarrow> set_progress_total tid epoch units (snd db)) of
        Inl _ \<Rightarrow> (Inr (RunStopped tid), db)
      | Inr q \<Rightarrow>
          (case save_checkpoints tid epoch (xr_checkpoints result) now q of
             (Some DemandLost, q1) \<Rightarrow>
               run_step (interrupt_task tid epoch q1) (fst db, q1) (\<lambda>db1. (Inr (RunStopped tid), db1))
           | (Some _, q1) \<Rightarrow> (Inr (RunStopped tid), (fst db, q1))
           | (None, q1) \<Rightarrow> settle_verdict e publish bytes wording c result now (fst db, q1)))"

text \<open>Before the engine: the claim, and a look whether the unit is still wanted.\<close>

definition begin_unit ::
  "environment \<Rightarrow> str \<Rightarrow> task_kind list \<Rightarrow> int \<Rightarrow> db \<Rightarrow>
   ((queue_error + run_outcome) + claimed_task) \<times> db" where
  "begin_unit e session kinds now db =
     (case claim_next e (fst db) session kinds now (snd db) of
        Inl err \<Rightarrow> (Inl (Inl err), db)
      | Inr (None, q) \<Rightarrow> (Inl (Inr RunIdle), (fst db, q))
      | Inr (Some c, q) \<Rightarrow>
          let stop = (\<lambda>r outcome. case r of
                Inl err \<Rightarrow> (Inl (Inl err), (fst db, q))
              | Inr q1 \<Rightarrow> (Inl (Inr outcome), (fst db, q1)))
          in if cl_kind c \<notin> set kinds
             then stop (requeue_task (cl_task c) (cl_epoch c) q) (RunRequeued (cl_task c))
             else if \<not> execution_wanted (cl_task c) q
             then stop (interrupt_task (cl_task c) (cl_epoch c) q) (RunStopped (cl_task c))
             else (Inr c, (fst db, q)))"

text \<open>\<open>meanwhile\<close> is what the other connections do to the archive while the engine runs.\<close>

definition run_one ::
  "environment \<Rightarrow> (claimed_task \<Rightarrow> 'o \<Rightarrow> db \<Rightarrow> queue_error + db) \<Rightarrow> (str \<Rightarrow> nat list) \<Rightarrow>
   (queue_error \<Rightarrow> str) \<Rightarrow> (claimed_task \<Rightarrow> 'o exec_result option) \<Rightarrow> (db \<Rightarrow> db) \<Rightarrow> str \<Rightarrow>
   task_kind list \<Rightarrow> int \<Rightarrow> db \<Rightarrow> (queue_error + run_outcome) \<times> db" where
  "run_one e publish bytes wording engine meanwhile session kinds now db =
     (case begin_unit e session kinds now db of
        (Inl outcome, db1) \<Rightarrow> (outcome, db1)
      | (Inr c, db1) \<Rightarrow> finish_unit e publish bytes wording c (engine c) now (meanwhile db1))"

section \<open>One tick\<close>

text \<open>One page per planning batch; the first error ends the tick and keeps the pages before it.\<close>

fun plan_batches :: "(str \<Rightarrow> queue \<Rightarrow> queue_error + bool \<times> queue) \<Rightarrow> str list \<Rightarrow> queue \<Rightarrow>
   queue_error option \<times> queue" where
  "plan_batches f [] q = (None, q)"
| "plan_batches f (bid # rest) q =
     (case f bid q of Inl err \<Rightarrow> (Some err, q) | Inr (_, q1) \<Rightarrow> plan_batches f rest q1)"

definition after_unit :: "db \<Rightarrow> run_outcome \<Rightarrow> (queue_error + run_outcome) \<times> db" where
  "after_unit db outcome =
     (let q = cancel_orphaned_tasks (snd db) in
      run_step (finalize_batches (open_batches q) q) (fst db, q) (\<lambda>db1. (Inr outcome, db1)))"

definition scheduler_tick ::
  "environment \<Rightarrow> (claimed_task \<Rightarrow> 'o \<Rightarrow> db \<Rightarrow> queue_error + db) \<Rightarrow> (str \<Rightarrow> nat list) \<Rightarrow>
   (queue_error \<Rightarrow> str) \<Rightarrow> (str \<Rightarrow> nat \<Rightarrow> nat \<Rightarrow> str) \<Rightarrow> (claimed_task \<Rightarrow> 'o exec_result option) \<Rightarrow>
   (db \<Rightarrow> db) \<Rightarrow> str \<Rightarrow> task_kind list \<Rightarrow> int \<Rightarrow> db \<Rightarrow> (queue_error + run_outcome) \<times> db" where
  "scheduler_tick e publish bytes wording fresh engine meanwhile session kinds now db =
     run_step (reconcile_contracts e (fst db) (snd db)) db (\<lambda>(a, q1).
       case plan_batches (\<lambda>bid. advance_planning e a (fresh bid) now bid 1 200) (planning_batches q1) q1 of
         (Some err, q2) \<Rightarrow> (Inl err, (a, q2))
       | (None, q2) \<Rightarrow>
           let q3 = heartbeat_owned session now (apply_priority_aging now (promote_ready_batches q2)) in
           (case run_one e publish bytes wording engine meanwhile session kinds now (a, q3) of
              (Inl err, db4) \<Rightarrow> (Inl err, db4)
            | (Inr outcome, db4) \<Rightarrow> after_unit db4 outcome))"

section \<open>Recovery\<close>

text \<open>Every running unit is interrupted under a new epoch; whoever ran it lost its lease.\<close>

definition interrupt_dead_units :: "queue \<Rightarrow> queue" where
  "interrupt_dead_units q =
     (let q1 = update_tasks (\<lambda>t. tk_state t = TRunning)
            (\<lambda>t. t\<lparr>tk_state := TInterrupted, tk_owner := None, tk_epoch := tk_epoch t + 1\<rparr>) q
      in map_attempts (\<lambda>x. at_outcome x = AOpen
             \<and> (\<exists>t \<in> set (q_tasks q1). tk_id t = at_task x \<and> tk_state t = TInterrupted))
           (\<lambda>x. x\<lparr>at_outcome := AInterrupted\<rparr>) q1)"

definition interrupt_user_batches :: "queue \<Rightarrow> queue" where
  "interrupt_user_batches =
     map_batches (\<lambda>b. bt_state b \<in> {BRunning, BReady, BPreparing} \<and> bt_origin b = OUser)
       (\<lambda>b. b\<lparr>bt_state := BInterrupted, bt_desired := DPause\<rparr>)"

definition heal_system_batches :: "queue \<Rightarrow> queue" where
  "heal_system_batches =
     map_batches (\<lambda>b. bt_origin b \<in> {OManual, ORepair, OBibliography} \<and> bt_state b \<noteq> BRunning)
       (\<lambda>b. b\<lparr>bt_state := BRunning, bt_desired := DRun\<rparr>)"

definition pause_user_batches :: "queue \<Rightarrow> queue" where
  "pause_user_batches =
     map_batches (\<lambda>b. bt_state b = BPausing \<and> bt_origin b = OUser) (\<lambda>b. b\<lparr>bt_state := BPaused\<rparr>)"

definition active_open_units :: "str \<Rightarrow> queue \<Rightarrow> nat" where
  "active_open_units bid q =
     length (filter is_open_task (unit_states (\<lambda>l. ln_request l = RActive) bid q))"

definition finish_cancellation :: "str \<Rightarrow> queue \<Rightarrow> queue" where
  "finish_cancellation bid q =
     (let q1 = cancel_orphaned_tasks
            (map_links (\<lambda>l. ln_batch l = bid) (\<lambda>l. l\<lparr>ln_request := RCancelled\<rparr>) q)
      in if active_open_units bid q1 = 0 then set_batch_state bid BCancelled q1 else q1)"

definition recover_session :: "bool \<Rightarrow> bool \<Rightarrow> queue \<Rightarrow> queue" where
  "recover_session embedding_ready ner_ready q =
     (let q1 = requeue_interrupted_system_tasks None
            (resume_ner_configuration_blocked ner_ready
              (resume_embedding_configuration_blocked embedding_ready
                (settle_blocked_dependents (interrupt_dead_units q))));
          q2 = pause_user_batches (heal_system_batches (interrupt_user_batches q1));
          cancelling = map bt_id (filter (\<lambda>b. bt_state b = BCancelling) (q_batches q2))
      in fold finish_cancellation cancelling q2)"

end
