(* ===== verification/QueueInv.thy ===== *)
theory QueueInv
  imports QueueTasks
begin

text \<open>
  The invariant of the tables of the queue and the lemmas that carry it through a statement.

  Every call is a sequence of statements. A statement on units changes rows so that \<open>keeps\<close> holds
  between the old and the new row; \<open>advances\<close> says that of all rows together with the frame of
  batches and links, and composes. What open attempts promise is broken between the statement that
  ends a unit and the one that closes its attempt, so it is stated up to a set of units.
\<close>

section \<open>Rows\<close>

definition task_key :: "task \<Rightarrow> domain \<times> subject_kind \<times> str \<times> task_kind" where
  "task_key t = (tk_domain t, tk_subject_kind t, tk_subject t, tk_kind t)"

definition is_live :: "task \<Rightarrow> bool" where
  "is_live t \<longleftrightarrow> \<not> is_terminal_task (tk_state t)"

text \<open>Only a running unit has an owner, and a unit that waits knows until when.\<close>

definition row_ok :: "task \<Rightarrow> bool" where
  "row_ok t \<longleftrightarrow> (tk_owner t \<noteq> None \<longrightarrow> tk_state t = TRunning)
     \<and> (tk_state t = TRetryWait \<longrightarrow> tk_next_retry t \<noteq> None)"

definition keeps :: "task \<Rightarrow> task \<Rightarrow> bool" where
  "keeps t u \<longleftrightarrow> tk_id u = tk_id t \<and> task_key u = task_key t \<and> (is_live u \<longrightarrow> is_live t)
     \<and> tk_epoch t \<le> tk_epoch u \<and> tk_attempts t \<le> tk_attempts u \<and> (row_ok t \<longrightarrow> row_ok u)"

lemma keeps_refl [simp]: "keeps t t"
  by (simp add: keeps_def)

lemma keeps_trans: "keeps t u \<Longrightarrow> keeps u v \<Longrightarrow> keeps t v"
  by (auto simp: keeps_def)

lemmas row_simps = keeps_def task_key_def is_live_def row_ok_def is_terminal_task_def

section \<open>The invariant\<close>

definition link_key :: "batch_link \<Rightarrow> str \<times> str \<times> str option" where
  "link_key l = (ln_batch l, ln_task l, ln_dependency l)"

definition batch_key :: "batch \<Rightarrow> str \<times> str \<times> origin" where
  "batch_key b = (bt_id b, bt_request b, bt_origin b)"

definition tasks_ok :: "queue \<Rightarrow> bool" where
  "tasks_ok q \<longleftrightarrow> distinct (map tk_id (q_tasks q)) \<and> distinct (map task_key (filter is_live (q_tasks q)))
     \<and> list_all row_ok (q_tasks q)"

definition batches_ok :: "queue \<Rightarrow> bool" where
  "batches_ok q \<longleftrightarrow> distinct (map bt_id (q_batches q)) \<and> distinct (map bt_request (q_batches q))"

definition link_ok :: "queue \<Rightarrow> batch_link \<Rightarrow> bool" where
  "link_ok q l \<longleftrightarrow> ln_batch l \<in> bt_id ` set (q_batches q) \<and> ln_task l \<in> tk_id ` set (q_tasks q)
     \<and> set_option (ln_dependency l) \<subseteq> tk_id ` set (q_tasks q)"

definition links_ok :: "queue \<Rightarrow> bool" where
  "links_ok q \<longleftrightarrow> distinct (map (\<lambda>l. (ln_batch l, ln_task l)) (q_links q)) \<and> list_all (link_ok q) (q_links q)"

text \<open>An open attempt is the last attempt of a running unit, under the epoch of its lease.\<close>

definition is_attempt_of :: "task \<Rightarrow> attempt \<Rightarrow> bool" where
  "is_attempt_of t x \<longleftrightarrow> tk_id t = at_task x \<and> tk_state t = TRunning
     \<and> at_epoch x = tk_epoch t \<and> at_number x = tk_attempts t"

definition attempt_ok :: "queue \<Rightarrow> attempt \<Rightarrow> bool" where
  "attempt_ok q x \<longleftrightarrow> (\<exists>t \<in> set (q_tasks q). tk_id t = at_task x
     \<and> at_number x \<le> tk_attempts t \<and> at_epoch x \<le> tk_epoch t)"

definition attempts_ok_but :: "str set \<Rightarrow> queue \<Rightarrow> bool" where
  "attempts_ok_but ids q \<longleftrightarrow> distinct (map (\<lambda>x. (at_task x, at_number x)) (q_attempts q))
     \<and> distinct (map (\<lambda>x. (at_task x, at_epoch x)) (q_attempts q))
     \<and> list_all (attempt_ok q) (q_attempts q)
     \<and> (\<forall>x \<in> set (q_attempts q). at_outcome x = AOpen \<longrightarrow> at_task x \<notin> ids \<longrightarrow>
          (\<exists>t \<in> set (q_tasks q). is_attempt_of t x))"

definition queue_ok :: "queue \<Rightarrow> bool" where
  "queue_ok q \<longleftrightarrow> tasks_ok q \<and> batches_ok q \<and> links_ok q \<and> attempts_ok_but {} q"

section \<open>Advancing\<close>

definition same_frame :: "queue \<Rightarrow> queue \<Rightarrow> bool" where
  "same_frame q r \<longleftrightarrow> map batch_key (q_batches r) = map batch_key (q_batches q)
     \<and> map link_key (q_links r) = map link_key (q_links q)"

definition advances :: "queue \<Rightarrow> queue \<Rightarrow> bool" where
  "advances q r \<longleftrightarrow> same_frame q r \<and> (tasks_ok q \<longrightarrow> list_all2 keeps (q_tasks q) (q_tasks r))"

lemma keeps_all_ids: "list_all2 keeps ts us \<Longrightarrow> map tk_id us = map tk_id ts"
  by (induction rule: list_all2_induct) (auto simp: keeps_def)

lemma keeps_all_keys:
  "list_all2 keeps ts us \<Longrightarrow>
   set (map task_key (filter is_live us)) \<subseteq> set (map task_key (filter is_live ts))
     \<and> (distinct (map task_key (filter is_live ts)) \<longrightarrow> distinct (map task_key (filter is_live us)))"
proof (induction rule: list_all2_induct)
  case (Cons t ts u us)
  then have "is_live u \<Longrightarrow> is_live t" "task_key u = task_key t" by (auto simp: keeps_def)
  with Cons show ?case by auto
qed simp

lemma keeps_all_rows: "list_all2 keeps ts us \<Longrightarrow> list_all row_ok ts \<Longrightarrow> list_all row_ok us"
  by (induction rule: list_all2_induct) (auto simp: keeps_def)

lemma tasks_ok_keeps:
  "tasks_ok q \<Longrightarrow> list_all2 keeps (q_tasks q) (q_tasks r) \<Longrightarrow> tasks_ok r"
  using keeps_all_ids keeps_all_keys keeps_all_rows by (fastforce simp: tasks_ok_def)

lemma same_frame_refl [simp]: "same_frame q q"
  by (simp add: same_frame_def)

lemma same_frame_trans: "same_frame q r \<Longrightarrow> same_frame r s \<Longrightarrow> same_frame q s"
  by (simp add: same_frame_def)

lemma keeps_all_refl [simp]: "list_all2 keeps ts ts"
  by (simp add: list_all2_refl)

lemma keeps_all_trans: "list_all2 keeps ts us \<Longrightarrow> list_all2 keeps us vs \<Longrightarrow> list_all2 keeps ts vs"
  using list_all2_trans [of keeps keeps keeps] keeps_trans by blast

lemma advances_refl [simp, intro]: "advances q q"
  by (simp add: advances_def)

lemma advances_trans: "advances q r \<Longrightarrow> advances r s \<Longrightarrow> advances q s"
  unfolding advances_def using same_frame_trans keeps_all_trans tasks_ok_keeps by blast

lemma advances_tasks_ok: "advances q r \<Longrightarrow> tasks_ok q \<Longrightarrow> tasks_ok r"
  unfolding advances_def using tasks_ok_keeps by blast

lemma advances_fold: "(\<And>x q. advances q (f x q)) \<Longrightarrow> advances q (fold f xs q)"
  by (induction xs arbitrary: q) (auto intro: advances_trans)

lemma advances_same_tables:
  "q_tasks r = q_tasks q \<Longrightarrow> q_batches r = q_batches q \<Longrightarrow> q_links r = q_links q \<Longrightarrow> advances q r"
  by (simp add: advances_def same_frame_def)

lemma frame_batch_ids: "same_frame q r \<Longrightarrow> map bt_id (q_batches r) = map bt_id (q_batches q)
    \<and> map bt_request (q_batches r) = map bt_request (q_batches q)"
proof -
  assume "same_frame q r"
  then have eq: "map batch_key (q_batches r) = map batch_key (q_batches q)" by (simp add: same_frame_def)
  from arg_cong [where f = "map fst", OF this] arg_cong [where f = "map (fst \<circ> snd)", OF this]
  show ?thesis by (simp add: batch_key_def comp_def)
qed

lemma frame_link_ids: "same_frame q r \<Longrightarrow>
    map (\<lambda>l. (ln_batch l, ln_task l)) (q_links r) = map (\<lambda>l. (ln_batch l, ln_task l)) (q_links q)"
proof -
  assume "same_frame q r"
  then have eq: "map link_key (q_links r) = map link_key (q_links q)" by (simp add: same_frame_def)
  from arg_cong [where f = "map (\<lambda>(b, t, d). (b, t))", OF this]
  show ?thesis by (simp add: link_key_def comp_def)
qed

lemma advances_batches_ok: "advances q r \<Longrightarrow> batches_ok q \<Longrightarrow> batches_ok r"
  using frame_batch_ids by (auto simp: advances_def batches_ok_def)

lemma advances_links_ok:
  assumes "advances q r" and "tasks_ok q" and "links_ok q"
  shows "links_ok r"
proof -
  from assms have frame: "same_frame q r" and ids: "map tk_id (q_tasks r) = map tk_id (q_tasks q)"
    by (auto simp: advances_def keeps_all_ids)
  from ids have tids: "tk_id ` set (q_tasks r) = tk_id ` set (q_tasks q)" by (metis set_map)
  from frame_batch_ids [OF frame] have bids: "bt_id ` set (q_batches r) = bt_id ` set (q_batches q)"
    by (metis set_map)
  have keys: "link_key ` set (q_links r) = link_key ` set (q_links q)"
    using frame by (metis same_frame_def set_map)
  have "link_ok r l" if "l \<in> set (q_links r)" for l
  proof -
    from that keys obtain k where k: "k \<in> set (q_links q)" "link_key k = link_key l"
      by (metis imageE imageI)
    with assms(3) have "link_ok q k" by (simp add: links_ok_def list_all_iff)
    with k(2) show ?thesis by (simp add: link_ok_def link_key_def tids bids)
  qed
  with frame_link_ids [OF frame] assms(3) show ?thesis by (simp add: links_ok_def list_all_iff)
qed

section \<open>Statements on other tables\<close>

lemma q_tasks_other [simp]:
  "q_tasks (map_batches p f q) = q_tasks q" "q_tasks (map_links pl fl q) = q_tasks q"
  "q_tasks (map_attempts pa fa q) = q_tasks q" "q_tasks (close_open_attempt tid o1 q) = q_tasks q"
  "q_tasks (delete_task_checkpoints tid q) = q_tasks q"
  "q_tasks (delete_checkpoints_unless_paid_extraction tid k q) = q_tasks q"
  by (simp_all add: map_batches_def map_links_def map_attempts_def close_open_attempt_def
      delete_task_checkpoints_def delete_checkpoints_unless_paid_extraction_def)

lemma q_attempts_other [simp]:
  "q_attempts (map_batches p f q) = q_attempts q" "q_attempts (map_links pl fl q) = q_attempts q"
  "q_attempts (map_tasks pt ft q) = q_attempts q"
  "q_attempts (delete_task_checkpoints tid q) = q_attempts q"
  "q_attempts (delete_checkpoints_unless_paid_extraction tid k q) = q_attempts q"
  by (simp_all add: map_batches_def map_links_def map_tasks_def
      delete_task_checkpoints_def delete_checkpoints_unless_paid_extraction_def)

lemma q_links_other [simp]:
  "q_links (map_batches p f q) = q_links q" "q_links (map_tasks pt ft q) = q_links q"
  "q_links (map_attempts pa fa q) = q_links q" "q_links (close_open_attempt tid o1 q) = q_links q"
  "q_links (delete_task_checkpoints tid q) = q_links q"
  "q_links (delete_checkpoints_unless_paid_extraction tid k q) = q_links q"
  by (simp_all add: map_batches_def map_tasks_def map_attempts_def close_open_attempt_def
      delete_task_checkpoints_def delete_checkpoints_unless_paid_extraction_def)

lemma q_batches_other [simp]:
  "q_batches (map_links pl fl q) = q_batches q" "q_batches (map_tasks pt ft q) = q_batches q"
  "q_batches (map_attempts pa fa q) = q_batches q" "q_batches (close_open_attempt tid o1 q) = q_batches q"
  "q_batches (delete_task_checkpoints tid q) = q_batches q"
  "q_batches (delete_checkpoints_unless_paid_extraction tid k q) = q_batches q"
  by (simp_all add: map_links_def map_tasks_def map_attempts_def close_open_attempt_def
      delete_task_checkpoints_def delete_checkpoints_unless_paid_extraction_def)

lemma map_update_where: "(\<And>x. p x \<Longrightarrow> g (f x) = g x) \<Longrightarrow> map g (update_where p f xs) = map g xs"
  by (induction xs) (auto simp: update_where_def)

lemma advances_map_batches [intro]:
  "(\<And>b. p b \<Longrightarrow> batch_key (f b) = batch_key b) \<Longrightarrow> advances q (map_batches p f q)"
  by (auto simp: advances_def same_frame_def map_batches_def map_update_where)

lemma advances_map_links [intro]:
  "(\<And>l. p l \<Longrightarrow> link_key (f l) = link_key l) \<Longrightarrow> advances q (map_links p f q)"
  by (auto simp: advances_def same_frame_def map_links_def map_update_where)

lemma advances_map_attempts [simp, intro]: "advances q (map_attempts p f q)"
  by (rule advances_same_tables) simp_all

lemma advances_close [simp, intro]: "advances q (close_open_attempt tid o1 q)"
  by (rule advances_same_tables) simp_all

lemma advances_delete [simp, intro]: "advances q (delete_task_checkpoints tid q)"
  by (rule advances_same_tables) simp_all

lemma advances_delete_unless [simp, intro]:
  "advances q (delete_checkpoints_unless_paid_extraction tid k q)"
  by (rule advances_same_tables) simp_all

section \<open>Statements on units\<close>

lemma keeps_all_update: "(\<And>t. p t \<Longrightarrow> keeps t (f t)) \<Longrightarrow> list_all2 keeps ts (update_where p f ts)"
  by (induction ts) (auto simp: update_where_def)

lemma advances_map_tasks: "(\<And>t. p t \<Longrightarrow> keeps t (f t)) \<Longrightarrow> advances q (map_tasks p f q)"
  by (auto simp: advances_def same_frame_def map_tasks_def keeps_all_update)

lemma keeps_release: "tk_state t = TBlocked \<Longrightarrow> keeps t (release_dependent t)"
  by (auto simp: row_simps release_dependent_def)

lemma keeps_fail_dependency: "tk_state t = TBlocked \<Longrightarrow> keeps t (fail_dependency d s t)"
  by (auto simp: row_simps fail_dependency_def)

lemma advances_release: "advances q (map_tasks (is_blocked_dependent tid r) release_dependent q)"
  by (rule advances_map_tasks) (simp add: keeps_release is_blocked_dependent_def)

lemma advances_fail_dependents:
  "advances q (map_tasks (is_blocked_dependent tid r) (fail_dependency tid s) q)"
  by (rule advances_map_tasks) (simp add: keeps_fail_dependency is_blocked_dependent_def)

lemma advances_settle_dependents [simp, intro]: "advances q (settle_dependents tid s q)"
proof (cases "s = TSucceeded")
  case True
  then show ?thesis by (simp add: settle_dependents_def advances_release)
next
  case False
  show ?thesis
  proof (cases "s = TFailed \<or> s = TCancelled")
    case True
    with False show ?thesis
      by (simp add: settle_dependents_def
          advances_trans [OF advances_map_attempts advances_fail_dependents])
  qed (use False in \<open>simp add: settle_dependents_def\<close>)
qed

lemma advances_update_row:
  "(\<And>t. find_task tid q = Some t \<Longrightarrow> keeps t (f t)) \<Longrightarrow> tasks_ok q \<longrightarrow> advances q (update_row f tid q)"
proof (rule impI)
  assume f: "\<And>t. find_task tid q = Some t \<Longrightarrow> keeps t (f t)" and ok: "tasks_ok q"
  show "advances q (update_row f tid q)"
  proof (cases "find_task tid q")
    case None
    then show ?thesis by (simp add: update_row_def)
  next
    case (Some old)
    have "keeps t (f t)" if "t \<in> set (q_tasks q)" "tk_id t = tid" for t
    proof -
      from Some have "old \<in> set (q_tasks q)" "tk_id old = tid"
        by (auto simp: find_task_def find_Some_iff)
      with that ok have "t = old"
        by (auto simp: tasks_ok_def distinct_map dest: inj_onD)
      with f Some show ?thesis by simp
    qed
    then have "list_all2 keeps (q_tasks q) (update_where (\<lambda>t. tk_id t = tid) f (q_tasks q))"
      by (auto simp: update_where_def list_all2_map2 list_all2_same)
    then have step: "advances q (map_tasks (\<lambda>t. tk_id t = tid) f q)"
      by (simp add: advances_def same_frame_def map_tasks_def)
    show ?thesis
      using advances_trans [OF step advances_settle_dependents] step
      by (simp add: update_row_def Some Let_def)
  qed
qed

text \<open>An update whose new row may be written over any old row.\<close>

lemma advances_update_tasks_any:
  assumes "\<And>t. keeps t (f t)"
  shows "advances q (update_tasks p f q)"
proof -
  have row: "advances r (update_row f tid r)" for tid r
  proof -
    have "tasks_ok r \<longrightarrow> advances r (update_row f tid r)" using assms by (rule advances_update_row)
    moreover have "same_frame r (update_row f tid r)"
      using advances_settle_dependents
      by (auto simp: update_row_def Let_def advances_def same_frame_def split: option.splits)
    ultimately show ?thesis by (auto simp: advances_def)
  qed
  show ?thesis unfolding update_tasks_def by (rule advances_fold) (rule row)
qed

text \<open>An update that fires no trigger is one change of the matching rows.\<close>

definition is_quiet :: "task_state \<Rightarrow> bool" where
  "is_quiet s \<longleftrightarrow> s \<notin> {TSucceeded, TFailed, TCancelled}"

lemma settle_quiet [simp]: "is_quiet s \<Longrightarrow> settle_dependents tid s q = q"
  by (auto simp: settle_dependents_def is_quiet_def)

lemma find_unique: "distinct (map g xs) \<Longrightarrow> x \<in> set xs \<Longrightarrow> find (\<lambda>y. g y = g x) xs = Some x"
  by (induction xs) auto

lemma update_row_quiet:
  assumes "distinct (map tk_id (q_tasks q))" and "t \<in> set (q_tasks q)"
    and "is_quiet (tk_state (f t)) \<or> tk_state (f t) = tk_state t"
  shows "update_row f (tk_id t) q = map_tasks (\<lambda>u. tk_id u = tk_id t) f q"
  using assms find_unique [of tk_id "q_tasks q" t]
  by (auto simp: update_row_def find_task_def Let_def)

lemma map_tasks_cong:
  "(\<And>t. t \<in> set (q_tasks q) \<Longrightarrow> p t = r t) \<Longrightarrow> map_tasks p f q = map_tasks r f q"
  by (simp add: map_tasks_def update_where_def)

lemma map_tasks_twice:
  assumes "\<And>t. t \<in> set (q_tasks q) \<Longrightarrow> p t \<Longrightarrow> \<not> r t \<and> \<not> r (f t)"
  shows "map_tasks r f (map_tasks p f q) = map_tasks (\<lambda>t. p t \<or> r t) f q"
  using assms by (auto simp: map_tasks_def update_where_def comp_def)

lemma fold_update_rows_quiet:
  assumes "distinct (map tk_id (q_tasks q))" and "distinct (map tk_id xs)"
    and "set xs \<subseteq> set (q_tasks q)"
    and "\<And>t. t \<in> set xs \<Longrightarrow> tk_id (f t) = tk_id t
           \<and> (is_quiet (tk_state (f t)) \<or> tk_state (f t) = tk_state t)"
  shows "fold (update_row f) (map tk_id xs) q = map_tasks (\<lambda>t. tk_id t \<in> tk_id ` set xs) f q"
  using assms(2-4)
proof (induction xs rule: rev_induct)
  case Nil
  show ?case by (simp add: map_tasks_def update_where_def)
next
  case (snoc x xs)
  let ?p = "\<lambda>t. tk_id t \<in> tk_id ` set xs"
  let ?q = "map_tasks ?p f q"
  have IH: "fold (update_row f) (map tk_id xs) q = ?q" using snoc by simp
  have x: "x \<in> set (q_tasks q)" "\<not> ?p x" using snoc.prems by auto
  have keep: "tk_id (f t) = tk_id t" if "t \<in> set (q_tasks q)" "?p t" for t
  proof -
    from that(2) obtain y where y: "y \<in> set xs" "tk_id y = tk_id t" by auto
    with snoc.prems(2) have "y \<in> set (q_tasks q)" by auto
    with that(1) y(2) assms(1) have "y = t" by (auto simp: distinct_map dest: inj_onD)
    with y snoc.prems(3) show ?thesis by auto
  qed
  then have "map tk_id (q_tasks ?q) = map tk_id (q_tasks q)"
    by (simp add: map_tasks_def update_where_def)
  moreover from x have "x \<in> set (q_tasks ?q)"
    by (force simp: map_tasks_def update_where_def)
  ultimately have "update_row f (tk_id x) ?q = map_tasks (\<lambda>u. tk_id u = tk_id x) f ?q"
    using assms(1) snoc.prems(3) [of x] by (intro update_row_quiet) auto
  also have "\<dots> = map_tasks (\<lambda>t. ?p t \<or> tk_id t = tk_id x) f q"
  proof (rule map_tasks_twice)
    fix t assume "t \<in> set (q_tasks q)" "?p t"
    with keep x(2) show "tk_id t \<noteq> tk_id x \<and> tk_id (f t) \<noteq> tk_id x" by metis
  qed
  finally show ?case
    using IH by (auto intro!: map_tasks_cong)
qed

lemma update_tasks_quiet:
  assumes "distinct (map tk_id (q_tasks q))"
    and "\<And>t. t \<in> set (q_tasks q) \<Longrightarrow> p t \<Longrightarrow> tk_id (f t) = tk_id t
           \<and> (is_quiet (tk_state (f t)) \<or> tk_state (f t) = tk_state t)"
  shows "update_tasks p f q = map_tasks p f q"
proof -
  have "update_tasks p f q = map_tasks (\<lambda>t. tk_id t \<in> tk_id ` set (filter p (q_tasks q))) f q"
    unfolding update_tasks_def matching_ids_def
  proof (rule fold_update_rows_quiet)
    show "distinct (map tk_id (filter p (q_tasks q)))" using assms(1) by (rule distinct_map_filter)
  qed (use assms in auto)
  also have "\<dots> = map_tasks p f q"
  proof (rule map_tasks_cong)
    fix t assume t: "t \<in> set (q_tasks q)"
    with assms(1) show "(tk_id t \<in> tk_id ` set (filter p (q_tasks q))) = p t"
      by (auto simp: distinct_map dest: inj_onD)
  qed
  finally show ?thesis .
qed

lemma same_frame_update_row [simp]: "same_frame q (update_row f tid q)"
proof -
  have "same_frame r (settle_dependents t s r)" for r t s
    using advances_settle_dependents by (simp add: advances_def)
  moreover have "same_frame r (map_tasks p f r)" for r p
    by (simp add: same_frame_def)
  ultimately have "same_frame q (settle_dependents tid s (map_tasks p f q))" for p s
    using same_frame_trans by blast
  with \<open>\<And>r p. same_frame r (map_tasks p f r)\<close> show ?thesis
    by (simp add: update_row_def Let_def split: option.splits)
qed

lemma same_frame_update_tasks [simp]: "same_frame q (update_tasks p f q)"
proof -
  have "same_frame q (fold (update_row f) xs q)" for xs
    by (induction xs arbitrary: q) (auto intro: same_frame_trans [OF same_frame_update_row])
  then show ?thesis by (simp add: update_tasks_def)
qed

text \<open>An update of units touches units and open attempts only.\<close>

lemma settle_dependents_other [simp]:
  "q_links (settle_dependents tid s q) = q_links q" "q_batches (settle_dependents tid s q) = q_batches q"
  "q_checkpoints (settle_dependents tid s q) = q_checkpoints q"
  "q_members (settle_dependents tid s q) = q_members q"
  by (simp_all add: settle_dependents_def map_tasks_def map_attempts_def)

lemma update_row_other [simp]:
  "q_links (update_row f tid q) = q_links q" "q_batches (update_row f tid q) = q_batches q"
  "q_checkpoints (update_row f tid q) = q_checkpoints q" "q_members (update_row f tid q) = q_members q"
  by (auto simp: update_row_def Let_def map_tasks_def split: option.split)

lemma fold_update_row_other [simp]:
  "q_links (fold (update_row f) ids q) = q_links q" "q_batches (fold (update_row f) ids q) = q_batches q"
  "q_checkpoints (fold (update_row f) ids q) = q_checkpoints q"
  "q_members (fold (update_row f) ids q) = q_members q"
  by (induction ids arbitrary: q) simp_all

lemma update_tasks_other [simp]:
  "q_links (update_tasks p f q) = q_links q" "q_batches (update_tasks p f q) = q_batches q"
  "q_checkpoints (update_tasks p f q) = q_checkpoints q" "q_members (update_tasks p f q) = q_members q"
  by (simp_all add: update_tasks_def)

lemma advances_update_tasks_quiet:
  assumes "\<And>t. p t \<Longrightarrow> keeps t (f t)"
    and "\<And>t. p t \<Longrightarrow> is_quiet (tk_state (f t)) \<or> tk_state (f t) = tk_state t"
  shows "advances q (update_tasks p f q)"
proof -
  have "list_all2 keeps (q_tasks q) (q_tasks (update_tasks p f q))" if "tasks_ok q"
  proof -
    from that have "update_tasks p f q = map_tasks p f q"
      using assms by (intro update_tasks_quiet) (auto simp: tasks_ok_def keeps_def)
    moreover from that have "advances q (map_tasks p f q)" using assms(1) by (intro advances_map_tasks)
    ultimately show ?thesis using that by (simp add: advances_def)
  qed
  then show ?thesis by (simp add: advances_def)
qed

section \<open>Attempts\<close>

text \<open>No unit starts to run, and outside \<open>ids\<close> every lease stays as it is.\<close>

definition calm :: "str set \<Rightarrow> task \<Rightarrow> task \<Rightarrow> bool" where
  "calm ids t u \<longleftrightarrow> tk_id u = tk_id t \<and> (tk_state u = TRunning \<longrightarrow> tk_state t = TRunning)
     \<and> (tk_state t = TRunning \<longrightarrow> tk_id t \<notin> ids \<longrightarrow>
          tk_state u = TRunning \<and> tk_epoch u = tk_epoch t \<and> tk_attempts u = tk_attempts t)"

definition closes :: "attempt \<Rightarrow> attempt \<Rightarrow> bool" where
  "closes x y \<longleftrightarrow> at_task y = at_task x \<and> at_number y = at_number x \<and> at_epoch y = at_epoch x
     \<and> (at_outcome y = AOpen \<longrightarrow> at_outcome x = AOpen)"

definition undisturbed :: "str set \<Rightarrow> queue \<Rightarrow> queue \<Rightarrow> bool" where
  "undisturbed ids q r \<longleftrightarrow>
     list_all2 (calm ids) (q_tasks q) (q_tasks r) \<and> list_all2 closes (q_attempts q) (q_attempts r)"

lemma calm_refl [simp]: "calm ids t t"
  by (simp add: calm_def)

lemma calm_trans: "calm ids t u \<Longrightarrow> calm ids u v \<Longrightarrow> calm ids t v"
  unfolding calm_def by metis

lemma closes_refl [simp]: "closes x x"
  by (simp add: closes_def)

lemma closes_trans: "closes x y \<Longrightarrow> closes y z \<Longrightarrow> closes x z"
  by (auto simp: closes_def)

lemma undisturbed_refl [simp, intro]: "undisturbed ids q q"
  by (simp add: undisturbed_def list_all2_refl)

lemma undisturbed_trans: "undisturbed ids q r \<Longrightarrow> undisturbed ids r s \<Longrightarrow> undisturbed ids q s"
proof -
  assume qr: "undisturbed ids q r" and rs: "undisturbed ids r s"
  have "list_all2 (calm ids) (q_tasks q) (q_tasks s)"
    by (rule list_all2_trans [of "calm ids" "calm ids" "calm ids", OF calm_trans])
      (use qr rs in \<open>auto simp: undisturbed_def\<close>)
  moreover have "list_all2 closes (q_attempts q) (q_attempts s)"
    by (rule list_all2_trans [of closes closes closes, OF closes_trans])
      (use qr rs in \<open>auto simp: undisturbed_def\<close>)
  ultimately show ?thesis by (simp add: undisturbed_def)
qed

lemma undisturbed_mono: "ids \<subseteq> jds \<Longrightarrow> undisturbed ids q r \<Longrightarrow> undisturbed jds q r"
  unfolding undisturbed_def by (auto elim!: list_all2_mono simp: calm_def)

lemma undisturbed_same: "q_tasks r = q_tasks q \<Longrightarrow> q_attempts r = q_attempts q \<Longrightarrow> undisturbed ids q r"
  by (simp add: undisturbed_def list_all2_refl)

lemma undisturbed_map_attempts:
  "(\<And>x. p x \<Longrightarrow> closes x (f x)) \<Longrightarrow> undisturbed ids q (map_attempts p f q)"
  by (simp add: undisturbed_def list_all2_refl map_attempts_def update_where_def list_all2_map2
      list_all2_same)

lemma undisturbed_map_tasks:
  "(\<And>t. t \<in> set (q_tasks q) \<Longrightarrow> p t \<Longrightarrow> calm ids t (f t)) \<Longrightarrow> undisturbed ids q (map_tasks p f q)"
  by (simp add: undisturbed_def list_all2_refl map_tasks_def update_where_def list_all2_map2
      list_all2_same)

definition grows :: "task \<Rightarrow> task \<Rightarrow> bool" where
  "grows t u \<longleftrightarrow> tk_id u = tk_id t \<and> tk_epoch t \<le> tk_epoch u \<and> tk_attempts t \<le> tk_attempts u"

lemma keeps_all_grow: "list_all2 keeps ts us \<Longrightarrow> list_all2 grows ts us"
  by (erule list_all2_mono) (simp add: keeps_def grows_def)

lemma attempts_ok_same:
  "q_tasks r = q_tasks q \<Longrightarrow> q_attempts r = q_attempts q \<Longrightarrow> attempts_ok_but ids r = attempts_ok_but ids q"
  by (simp add: attempts_ok_but_def attempt_ok_def [abs_def])

lemma attempts_ok_undisturbed:
  assumes ok: "attempts_ok_but ids q" and calm: "undisturbed ids q r"
    and keep: "list_all2 grows (q_tasks q) (q_tasks r)"
  shows "attempts_ok_but ids r"
proof -
  have atts: "list_all2 closes (q_attempts q) (q_attempts r)" using calm by (simp add: undisturbed_def)
  then have keys: "map (\<lambda>x. (at_task x, at_number x)) (q_attempts r)
        = map (\<lambda>x. (at_task x, at_number x)) (q_attempts q)"
      "map (\<lambda>x. (at_task x, at_epoch x)) (q_attempts r) = map (\<lambda>x. (at_task x, at_epoch x)) (q_attempts q)"
    by (induction rule: list_all2_induct) (auto simp: closes_def)
  have row: "\<exists>u \<in> set (q_tasks r). grows t u \<and> calm ids t u" if "t \<in> set (q_tasks q)" for t
  proof -
    from that obtain i where i: "i < length (q_tasks q)" "q_tasks q ! i = t"
      by (auto simp: in_set_conv_nth)
    with keep calm have "grows t (q_tasks r ! i)" "calm ids t (q_tasks r ! i)" "i < length (q_tasks r)"
      by (auto simp: undisturbed_def list_all2_conv_all_nth)
    then show ?thesis by auto
  qed
  have att: "\<exists>x \<in> set (q_attempts q). closes x y" if "y \<in> set (q_attempts r)" for y
  proof -
    from that obtain i where i: "i < length (q_attempts r)" "q_attempts r ! i = y"
      by (auto simp: in_set_conv_nth)
    with atts have "i < length (q_attempts q)" "closes (q_attempts q ! i) y"
      by (auto simp: list_all2_conv_all_nth)
    then show ?thesis by (metis nth_mem)
  qed
  have "attempt_ok r y \<and> (at_outcome y = AOpen \<longrightarrow> at_task y \<notin> ids \<longrightarrow>
      (\<exists>u \<in> set (q_tasks r). is_attempt_of u y))" if y: "y \<in> set (q_attempts r)" for y
  proof -
    from att [OF y] obtain x where x: "x \<in> set (q_attempts q)" "closes x y" by auto
    have 1: "attempt_ok r y"
    proof -
      from ok x(1) have "attempt_ok q x" by (simp add: attempts_ok_but_def list_all_iff)
      then obtain t where t: "t \<in> set (q_tasks q)" "tk_id t = at_task x" "at_number x \<le> tk_attempts t"
          "at_epoch x \<le> tk_epoch t" by (auto simp: attempt_ok_def)
      from row [OF t(1)] obtain u where "u \<in> set (q_tasks r)" "grows t u" by auto
      with t x(2) show ?thesis by (force simp: attempt_ok_def grows_def closes_def)
    qed
    moreover have "\<exists>u \<in> set (q_tasks r). is_attempt_of u y"
      if opn: "at_outcome y = AOpen" "at_task y \<notin> ids"
    proof -
      from opn x(2) have "at_outcome x = AOpen" "at_task x \<notin> ids" by (auto simp: closes_def)
      with ok x(1) obtain t where t: "t \<in> set (q_tasks q)" "is_attempt_of t x"
        by (auto simp: attempts_ok_but_def)
      from row [OF t(1)] obtain u where "u \<in> set (q_tasks r)" "calm ids t u" by auto
      with t opn x(2) show ?thesis
        by (force simp: calm_def is_attempt_of_def closes_def)
    qed
    ultimately show ?thesis by blast
  qed
  with ok show ?thesis by (simp add: attempts_ok_but_def list_all_iff keys)
qed

lemma attempts_ok_close:
  assumes "attempts_ok_but (insert tid ids) q"
    and "\<And>x. x \<in> set (q_attempts q) \<Longrightarrow> at_task x = tid \<Longrightarrow> at_outcome x = AOpen \<Longrightarrow>
           p x \<and> at_outcome (f x) \<noteq> AOpen"
    and "\<And>x. p x \<Longrightarrow> closes x (f x)"
  shows "attempts_ok_but ids (map_attempts p f q)"
proof -
  have c: "closes x (if p x then f x else x)" for x using assms(3) by simp
  have keys: "map (\<lambda>x. (at_task x, at_number x)) (q_attempts (map_attempts p f q))
        = map (\<lambda>x. (at_task x, at_number x)) (q_attempts q)"
      "map (\<lambda>x. (at_task x, at_epoch x)) (q_attempts (map_attempts p f q))
        = map (\<lambda>x. (at_task x, at_epoch x)) (q_attempts q)"
    using c by (auto simp: map_attempts_def update_where_def closes_def)
  have "attempt_ok (map_attempts p f q) y \<and> (at_outcome y = AOpen \<longrightarrow> at_task y \<notin> ids \<longrightarrow>
      (\<exists>u \<in> set (q_tasks (map_attempts p f q)). is_attempt_of u y))"
    if "y \<in> set (q_attempts (map_attempts p f q))" for y
  proof -
    from that obtain x where x: "x \<in> set (q_attempts q)" "y = (if p x then f x else x)"
      by (auto simp: map_attempts_def update_where_def)
    with c have cl: "closes x y" by simp
    from assms(1) x(1) have "attempt_ok q x" by (simp add: attempts_ok_but_def list_all_iff)
    with cl have "attempt_ok (map_attempts p f q) y" by (simp add: attempt_ok_def closes_def)
    moreover have "at_task x \<noteq> tid" if "at_outcome y = AOpen"
      using assms(2) [OF x(1)] that x(2) cl by (auto simp: closes_def split: if_splits)
    ultimately show ?thesis
      using assms(1) x(1) cl by (auto simp: attempts_ok_but_def closes_def is_attempt_of_def)
  qed
  with assms(1) show ?thesis by (simp add: attempts_ok_but_def list_all_iff keys)
qed

section \<open>Moves\<close>

text \<open>What a statement does to rows, frame and leases; outside \<open>ids\<close> every lease stays.\<close>

definition moves :: "str set \<Rightarrow> queue \<Rightarrow> queue \<Rightarrow> bool" where
  "moves ids q r \<longleftrightarrow> advances q r \<and> (tasks_ok q \<longrightarrow> undisturbed ids q r)"

lemma moves_refl [simp, intro]: "moves ids q q"
  by (simp add: moves_def)

lemma moves_trans [trans]: "moves ids q r \<Longrightarrow> moves ids r s \<Longrightarrow> moves ids q s"
  unfolding moves_def using advances_trans advances_tasks_ok undisturbed_trans by blast

lemma moves_mono: "moves ids q r \<Longrightarrow> ids \<subseteq> jds \<Longrightarrow> moves jds q r"
  unfolding moves_def using undisturbed_mono by blast

lemma moves_widen: "moves {} q r \<Longrightarrow> moves ids q r"
  using moves_mono [of "{}"] by blast

lemma moves_fold: "(\<And>x q. moves ids q (f x q)) \<Longrightarrow> moves ids q (fold f xs q)"
  by (induction xs arbitrary: q) (auto intro: moves_trans)

lemma moves_same:
  "q_tasks r = q_tasks q \<Longrightarrow> q_batches r = q_batches q \<Longrightarrow> q_links r = q_links q \<Longrightarrow>
   q_attempts r = q_attempts q \<Longrightarrow> moves ids q r"
  by (simp add: moves_def advances_same_tables undisturbed_same)

lemma moves_map_batches:
  "(\<And>b. p b \<Longrightarrow> batch_key (f b) = batch_key b) \<Longrightarrow> moves ids q (map_batches p f q)"
  by (simp add: moves_def advances_map_batches undisturbed_same)

lemma moves_map_links:
  "(\<And>l. p l \<Longrightarrow> link_key (f l) = link_key l) \<Longrightarrow> moves ids q (map_links p f q)"
  by (simp add: moves_def advances_map_links undisturbed_same)

lemma moves_map_attempts: "(\<And>x. p x \<Longrightarrow> closes x (f x)) \<Longrightarrow> moves ids q (map_attempts p f q)"
  by (simp add: moves_def undisturbed_map_attempts)

lemma moves_close [simp, intro]: "o1 \<noteq> AOpen \<Longrightarrow> moves ids q (close_open_attempt tid o1 q)"
  unfolding close_open_attempt_def by (rule moves_map_attempts) (simp add: closes_def)

lemma moves_delete [simp, intro]: "moves ids q (delete_task_checkpoints tid q)"
  by (rule moves_same) simp_all

lemma moves_delete_unless [simp, intro]:
  "moves ids q (delete_checkpoints_unless_paid_extraction tid k q)"
  by (rule moves_same) simp_all

lemma calm_idle: "tk_state t \<noteq> TRunning \<Longrightarrow> tk_id u = tk_id t \<Longrightarrow> tk_state u \<noteq> TRunning \<Longrightarrow> calm ids t u"
  by (simp add: calm_def)

lemma undisturbed_settle [simp, intro]: "undisturbed ids q (settle_dependents tid s q)"
proof -
  have release: "undisturbed ids r (map_tasks (is_blocked_dependent tid q) release_dependent r)" for r
    by (rule undisturbed_map_tasks)
      (auto intro!: calm_idle simp: is_blocked_dependent_def release_dependent_def)
  have fail: "undisturbed ids r (map_tasks (is_blocked_dependent tid q) (fail_dependency tid s) r)" for r
    by (rule undisturbed_map_tasks)
      (auto intro!: calm_idle simp: is_blocked_dependent_def fail_dependency_def)
  have close: "undisturbed ids q (map_attempts p (\<lambda>a. a\<lparr>at_outcome := AFailed\<rparr>) q)" for p
    by (rule undisturbed_map_attempts) (simp add: closes_def)
  show ?thesis
    unfolding settle_dependents_def
    by (simp add: release undisturbed_trans [OF close fail])
qed

lemma undisturbed_update_row:
  assumes "\<And>t. tk_id (f t) = tk_id t \<and> tk_state (f t) \<noteq> TRunning"
    and "\<And>t. t \<in> set (q_tasks q) \<Longrightarrow> tk_id t = tid \<Longrightarrow> tk_state t = TRunning \<Longrightarrow> tid \<in> ids"
  shows "undisturbed ids q (update_row f tid q)"
proof -
  have "undisturbed ids q (map_tasks (\<lambda>t. tk_id t = tid) f q)"
    by (rule undisturbed_map_tasks) (use assms in \<open>auto simp: calm_def\<close>)
  then show ?thesis
    using undisturbed_trans [OF _ undisturbed_settle]
    by (simp add: update_row_def Let_def split: option.splits)
qed

lemma undisturbed_was_running:
  assumes "undisturbed ids q r" and "u \<in> set (q_tasks r)" and "tk_state u = TRunning"
  obtains t where "t \<in> set (q_tasks q)" and "tk_id t = tk_id u" and "tk_state t = TRunning"
proof -
  from assms(2) obtain i where i: "i < length (q_tasks r)" "q_tasks r ! i = u"
    by (auto simp: in_set_conv_nth)
  with assms(1) have "i < length (q_tasks q)" "calm ids (q_tasks q ! i) u"
    by (auto simp: undisturbed_def list_all2_conv_all_nth)
  with assms(3) that [of "q_tasks q ! i"] show ?thesis by (auto simp: calm_def)
qed

lemma undisturbed_fold_rows:
  assumes "\<And>t. tk_id (f t) = tk_id t \<and> tk_state (f t) \<noteq> TRunning"
  shows "(\<And>t. t \<in> set (q_tasks q) \<Longrightarrow> tk_state t = TRunning \<Longrightarrow> tk_id t \<in> set xs \<Longrightarrow> tk_id t \<in> ids) \<Longrightarrow>
    undisturbed ids q (fold (update_row f) xs q)"
proof (induction xs arbitrary: q)
  case (Cons x xs)
  have row: "undisturbed ids q (update_row f x q)"
    using assms by (rule undisturbed_update_row) (use Cons.prems in auto)
  have "undisturbed ids (update_row f x q) (fold (update_row f) xs (update_row f x q))"
  proof (rule Cons.IH)
    fix u assume u: "u \<in> set (q_tasks (update_row f x q))" "tk_state u = TRunning" "tk_id u \<in> set xs"
    from row u(1,2) obtain t where "t \<in> set (q_tasks q)" "tk_id t = tk_id u" "tk_state t = TRunning"
      by (rule undisturbed_was_running)
    with Cons.prems [of t] u(3) show "tk_id u \<in> ids" by simp
  qed
  with row show ?case by (simp add: undisturbed_trans)
qed simp

text \<open>The two kinds of updates: to an ending state, and those that fire no trigger.\<close>

lemma moves_update_any:
  assumes "\<And>t. keeps t (f t) \<and> tk_state (f t) \<noteq> TRunning"
    and "\<And>t. p t \<Longrightarrow> tk_state t = TRunning \<Longrightarrow> tk_id t \<in> ids"
  shows "moves ids q (update_tasks p f q)"
proof -
  have "undisturbed ids q (update_tasks p f q)" if "tasks_ok q"
    unfolding update_tasks_def
  proof (rule undisturbed_fold_rows)
    fix t assume t: "t \<in> set (q_tasks q)" "tk_state t = TRunning" "tk_id t \<in> set (matching_ids p q)"
    then obtain u where "u \<in> set (q_tasks q)" "p u" "tk_id u = tk_id t" by (auto simp: matching_ids_def)
    with t that have "u = t" by (auto simp: tasks_ok_def distinct_map dest: inj_onD)
    with \<open>p u\<close> t assms(2) show "tk_id t \<in> ids" by simp
  qed (use assms(1) in \<open>auto simp: keeps_def\<close>)
  then show ?thesis using assms(1) by (simp add: moves_def advances_update_tasks_any)
qed

lemma moves_update_quiet:
  assumes "\<And>t. p t \<Longrightarrow> keeps t (f t)"
    and "\<And>t. p t \<Longrightarrow> is_quiet (tk_state (f t)) \<or> tk_state (f t) = tk_state t"
    and "\<And>t. p t \<Longrightarrow> calm ids t (f t)"
  shows "moves ids q (update_tasks p f q)"
proof -
  have "undisturbed ids q (update_tasks p f q)" if "tasks_ok q"
  proof -
    from that have "update_tasks p f q = map_tasks p f q"
      using assms by (intro update_tasks_quiet) (auto simp: tasks_ok_def keeps_def)
    with assms(3) show ?thesis by (simp add: undisturbed_map_tasks)
  qed
  then show ?thesis using assms(1,2) by (simp add: moves_def advances_update_tasks_quiet)
qed

section \<open>The invariant and moves\<close>

text \<open>While the attempts of \<open>ids\<close> are not closed yet.\<close>

definition queue_ok_but :: "str set \<Rightarrow> queue \<Rightarrow> bool" where
  "queue_ok_but ids q \<longleftrightarrow> tasks_ok q \<and> batches_ok q \<and> links_ok q \<and> attempts_ok_but ids q"

lemma queue_ok_but_none: "queue_ok_but {} q = queue_ok q"
  by (simp add: queue_ok_but_def queue_ok_def)

lemma attempts_ok_mono: "attempts_ok_but ids q \<Longrightarrow> ids \<subseteq> jds \<Longrightarrow> attempts_ok_but jds q"
  unfolding attempts_ok_but_def by blast

lemma queue_ok_moves:
  assumes "queue_ok_but ids q" and "moves ids q r"
  shows "queue_ok_but ids r"
proof -
  from assms have q: "tasks_ok q" "batches_ok q" "links_ok q" "attempts_ok_but ids q"
    and r: "advances q r" "undisturbed ids q r"
    by (simp_all add: queue_ok_but_def moves_def)
  from q(1) r(1) have "list_all2 grows (q_tasks q) (q_tasks r)" by (simp add: advances_def keeps_all_grow)
  with q r show ?thesis
    by (simp add: queue_ok_but_def attempts_ok_undisturbed [of ids q r] advances_tasks_ok [of q r]
        advances_links_ok [of q r] advances_batches_ok [of q r])
qed

lemma queue_ok_keeps: "queue_ok q \<Longrightarrow> moves {} q r \<Longrightarrow> queue_ok r"
  using queue_ok_moves [of "{}"] by (simp add: queue_ok_but_none)

lemma queue_ok_ends: "queue_ok q \<Longrightarrow> moves {tid} q r \<Longrightarrow> queue_ok_but {tid} r"
  by (rule queue_ok_moves) (auto simp: queue_ok_but_def queue_ok_def intro: attempts_ok_mono)

lemma queue_ok_map_attempts:
  assumes "queue_ok_but {tid} q"
    and "\<And>x. x \<in> set (q_attempts q) \<Longrightarrow> at_task x = tid \<Longrightarrow> at_outcome x = AOpen \<Longrightarrow>
           p x \<and> at_outcome (f x) \<noteq> AOpen"
    and "\<And>x. p x \<Longrightarrow> closes x (f x)"
  shows "queue_ok (map_attempts p f q)"
proof -
  from assms have "attempts_ok_but {} (map_attempts p f q)"
    by (intro attempts_ok_close [of tid]) (auto simp: queue_ok_but_def)
  with assms(1) show ?thesis
    by (simp add: queue_ok_def queue_ok_but_def advances_tasks_ok [of q] advances_links_ok [of q]
        advances_batches_ok [of q])
qed

lemma queue_ok_close:
  "queue_ok_but {tid} q \<Longrightarrow> o1 \<noteq> AOpen \<Longrightarrow> queue_ok (close_open_attempt tid o1 q)"
  unfolding close_open_attempt_def by (rule queue_ok_map_attempts) (auto simp: closes_def)

end
