(* ===== verification/QueueSteps.thy ===== *)
theory QueueSteps
  imports QueueRun QueueInv
begin

text \<open>
  Every operation of the queue keeps its invariant. The operations that only move rows are
  \<open>moves\<close>; the others (admission, the lease, a retry) are treated one by one.
\<close>

section \<open>Fenced writes\<close>

lemma fenced_moves:
  assumes "fenced tid epoch f q = Inr r"
    and "\<And>t. is_held tid epoch t \<Longrightarrow> keeps t (f t)
           \<and> (is_quiet (tk_state (f t)) \<or> tk_state (f t) = tk_state t) \<and> calm {tid} t (f t)"
  shows "moves {tid} q r"
  using assms by (auto simp: fenced_def split: if_splits intro!: moves_update_quiet)

lemma fenced_lease_moves:
  assumes "fenced tid epoch f q = Inr r"
    and "\<And>t. is_held tid epoch t \<Longrightarrow> keeps t (f t) \<and> tk_state (f t) = tk_state t \<and> calm {} t (f t)"
  shows "moves {} q r"
  using assms by (auto simp: fenced_def split: if_splits intro!: moves_update_quiet)

lemma fenced_closes:
  assumes "queue_ok q" and "map_sum id (close_open_attempt tid o1) (fenced tid epoch f q) = Inr r"
    and "o1 \<noteq> AOpen"
    and "\<And>t. is_held tid epoch t \<Longrightarrow> keeps t (f t)
           \<and> (is_quiet (tk_state (f t)) \<or> tk_state (f t) = tk_state t) \<and> calm {tid} t (f t)"
  shows "queue_ok r"
proof -
  from assms(2) obtain q1 where q1: "fenced tid epoch f q = Inr q1" "r = close_open_attempt tid o1 q1"
    by (cases "fenced tid epoch f q") auto
  from fenced_moves [OF q1(1) assms(4)] have "moves {tid} q q1" .
  with assms(1) have "queue_ok_but {tid} q1" by (rule queue_ok_ends)
  with assms(3) q1(2) show ?thesis by (simp add: queue_ok_close)
qed

lemma interrupt_task_ok: "queue_ok q \<Longrightarrow> interrupt_task tid epoch q = Inr r \<Longrightarrow> queue_ok r"
  unfolding interrupt_task_def
  by (erule fenced_closes) (auto simp: row_simps is_held_def is_quiet_def calm_def)

lemma requeue_task_ok: "queue_ok q \<Longrightarrow> requeue_task tid epoch q = Inr r \<Longrightarrow> queue_ok r"
  unfolding requeue_task_def
  by (erule fenced_closes) (auto simp: row_simps is_held_def is_quiet_def calm_def)

lemma block_running_task_ok:
  "queue_ok q \<Longrightarrow> block_running_task tid epoch outcome message q = Inr r \<Longrightarrow> queue_ok r"
  unfolding block_running_task_def
  by (erule fenced_closes) (auto simp: row_simps is_held_def is_quiet_def calm_def)

lemma defer_task_ok:
  assumes "queue_ok q" and "defer_task tid epoch wake code reason q = Inr r"
  shows "queue_ok r"
proof -
  from assms(2) obtain q1 where q1: "fenced tid epoch (\<lambda>t. t\<lparr>tk_state := TRetryWait,
        tk_next_retry := Some wake, tk_error_code := Some code, tk_error_message := Some reason,
        tk_owner := None\<rparr>) q = Inr q1"
      "r = map_attempts (\<lambda>a. at_task a = tid \<and> at_outcome a = AOpen)
          (\<lambda>a. a\<lparr>at_outcome := AInterrupted, at_code := Some code\<rparr>) q1"
    by (auto simp: defer_task_def map_sum_def split: sum.splits)
  from q1(1) have "moves {tid} q q1"
    by (rule fenced_moves) (auto simp: row_simps is_held_def is_quiet_def calm_def)
  with assms(1) have "queue_ok_but {tid} q1" by (rule queue_ok_ends)
  then show ?thesis unfolding q1(2) by (rule queue_ok_map_attempts) (auto simp: closes_def)
qed

lemma cancel_running_task_ok:
  assumes "queue_ok q" and "cancel_running_task tid epoch q = Inr r"
  shows "queue_ok r"
proof -
  let ?f = "\<lambda>t. t\<lparr>tk_state := TCancelled, tk_owner := None\<rparr>"
  let ?q1 = "update_tasks (is_held tid epoch) ?f q"
  from assms(2) obtain kind where r: "r = close_open_attempt tid ACancelled
      (delete_checkpoints_unless_paid_extraction tid kind ?q1)"
    by (auto simp: cancel_running_task_def fenced_def split: if_splits option.splits)
  have "moves {tid} q ?q1"
    by (rule moves_update_any) (auto simp: row_simps is_held_def)
  also have "moves {tid} ?q1 (delete_checkpoints_unless_paid_extraction tid kind ?q1)" by simp
  finally have "queue_ok_but {tid} (delete_checkpoints_unless_paid_extraction tid kind ?q1)"
    using assms(1) by (rule queue_ok_ends [rotated])
  then show ?thesis unfolding r by (rule queue_ok_close) simp
qed

lemma set_progress_total_moves: "set_progress_total tid epoch n q = Inr r \<Longrightarrow> moves {} q r"
  unfolding set_progress_total_def
  by (erule fenced_lease_moves) (auto simp: row_simps is_held_def calm_def)

lemma set_progress_done_moves: "set_progress_done tid epoch n q = Inr r \<Longrightarrow> moves {} q r"
  unfolding set_progress_done_def
  by (erule fenced_lease_moves) (auto simp: row_simps is_held_def calm_def)

lemma heartbeat_owned_moves: "moves {} q (heartbeat_owned session now q)"
  unfolding heartbeat_owned_def
  by (rule moves_update_quiet) (auto simp: row_simps calm_def)

lemma record_source_change_ok:
  assumes "queue_ok q" and "record_source_change tid epoch message q = Inr (out, r)"
  shows "queue_ok r"
proof -
  from assms(2) obtain f where f: "r = map_attempts (\<lambda>a. at_task a = tid \<and> at_outcome a = AOpen)
          (\<lambda>a. a\<lparr>at_outcome := AInterrupted, at_code := Some (tx ''source_changed''),
             at_message := Some message\<rparr>) (update_tasks (is_held tid epoch) f q)"
      and fs: "\<And>t. tk_id (f t) = tk_id t \<and> task_key (f t) = task_key t \<and> tk_epoch (f t) = tk_epoch t
          \<and> tk_attempts (f t) = tk_attempts t \<and> tk_owner (f t) = None
          \<and> tk_state (f t) \<in> {TBlocked, TPending}"
    by (auto simp: record_source_change_def Let_def task_key_def split: option.splits)
  have "moves {tid} q (update_tasks (is_held tid epoch) f q)"
  proof (rule moves_update_quiet)
    fix t assume t: "is_held tid epoch t"
    from fs [of t] t show "keeps t (f t)"
      by (auto simp: keeps_def row_ok_def is_live_def is_terminal_task_def is_held_def)
    from fs [of t] show "is_quiet (tk_state (f t)) \<or> tk_state (f t) = tk_state t"
      by (auto simp: is_quiet_def)
    from fs [of t] t show "calm {tid} t (f t)" by (auto simp: calm_def is_held_def)
  qed
  with assms(1) have "queue_ok_but {tid} (update_tasks (is_held tid epoch) f q)" by (rule queue_ok_ends)
  then show ?thesis unfolding f by (rule queue_ok_map_attempts) (auto simp: closes_def)
qed

lemma save_checkpoint_moves:
  assumes "save_checkpoint tid epoch c now q = Inr r"
  shows "moves {} q r"
proof -
  let ?f = "\<lambda>t. t\<lparr>tk_heartbeat := Some now, tk_expires := Some (now + lease_ttl_ms)\<rparr>"
  from assms obtain q1 where q1: "fenced tid epoch ?f q = Inr q1" and
      r: "r = (let q2 = q1\<lparr>q_checkpoints := upsert_checkpoint (c\<lparr>cp_task := tid\<rparr>) (q_checkpoints q1)\<rparr>
             in update_tasks (\<lambda>t. tk_id t = tid)
                  (\<lambda>t. t\<lparr>tk_progress_done := counted_checkpoints q2 t\<rparr>) q2)"
    by (auto simp: save_checkpoint_def Let_def split: sum.splits if_splits)
  let ?q2 = "q1\<lparr>q_checkpoints := upsert_checkpoint (c\<lparr>cp_task := tid\<rparr>) (q_checkpoints q1)\<rparr>"
  from q1 have "moves {} q q1"
    by (rule fenced_lease_moves) (auto simp: row_simps calm_def)
  also have "moves {} q1 ?q2" by (rule moves_same) simp_all
  also have "moves {} ?q2 (update_tasks (\<lambda>t. tk_id t = tid)
      (\<lambda>t. t\<lparr>tk_progress_done := counted_checkpoints ?q2 t\<rparr>) ?q2)"
    by (rule moves_update_quiet) (auto simp: row_simps calm_def)
  finally show ?thesis by (simp add: r Let_def)
qed

section \<open>The end of an attempt\<close>

text \<open>The attempt a worker was handed at its claim.\<close>

definition has_attempt :: "str \<Rightarrow> int \<Rightarrow> int \<Rightarrow> queue \<Rightarrow> bool" where
  "has_attempt tid epoch number q \<longleftrightarrow>
     list_ex (\<lambda>x. at_task x = tid \<and> at_epoch x = epoch \<and> at_number x = number) (q_attempts q)"

lemma find_task_SomeD: "find_task tid q = Some t \<Longrightarrow> t \<in> set (q_tasks q) \<and> tk_id t = tid"
  by (auto simp: find_task_def find_Some_iff)

lemma find_task_unique: "tasks_ok q \<Longrightarrow> t \<in> set (q_tasks q) \<Longrightarrow> find_task (tk_id t) q = Some t"
  using find_unique [of tk_id "q_tasks q" t] by (simp add: find_task_def tasks_ok_def)

lemma task_unique:
  "tasks_ok q \<Longrightarrow> t \<in> set (q_tasks q) \<Longrightarrow> u \<in> set (q_tasks q) \<Longrightarrow> tk_id t = tk_id u \<Longrightarrow> t = u"
  by (auto simp: tasks_ok_def distinct_map dest: inj_onD)

text \<open>Under the lease, the open attempt of a unit is the one the worker was handed.\<close>

lemma open_attempt_number:
  assumes "queue_ok q" and "find_task tid q = Some t" and "tk_epoch t = epoch"
    and "has_attempt tid epoch number q"
    and "x \<in> set (q_attempts q)" and "at_task x = tid" and "at_outcome x = AOpen"
  shows "at_number x = number"
proof -
  from assms(1,5-7) obtain u where u: "u \<in> set (q_tasks q)" "is_attempt_of u x"
    by (auto simp: queue_ok_def attempts_ok_but_def)
  with assms find_task_SomeD [OF assms(2)] have "u = t"
    by (auto simp: queue_ok_def is_attempt_of_def intro: task_unique)
  with u assms(3) have "at_epoch x = epoch" by (simp add: is_attempt_of_def)
  from assms(4) obtain y where y: "y \<in> set (q_attempts q)" "at_task y = tid" "at_epoch y = epoch"
      "at_number y = number" by (auto simp: has_attempt_def list_ex_iff)
  from assms(1) have "distinct (map (\<lambda>x. (at_task x, at_epoch x)) (q_attempts q))"
    by (simp add: queue_ok_def attempts_ok_but_def)
  with y assms(5,6) \<open>at_epoch x = epoch\<close> have "x = y"
    by (auto simp: distinct_map dest: inj_onD)
  with y show ?thesis by simp
qed

lemma moves_from_running:
  assumes "\<And>t. tk_id t = tid \<Longrightarrow> keeps t (f t) \<and> tk_state (f t) \<noteq> TRunning"
    and "\<And>t. tk_id t = tid \<Longrightarrow> is_quiet (tk_state (f t))"
  shows "moves {tid} q (update_tasks (\<lambda>t. tk_id t = tid) f q)"
  by (rule moves_update_quiet) (use assms in \<open>auto simp: calm_def keeps_def\<close>)

lemma queue_ok_no_open:
  "queue_ok_but {tid} q \<Longrightarrow>
   (\<And>x. x \<in> set (q_attempts q) \<Longrightarrow> at_task x = tid \<Longrightarrow> at_outcome x \<noteq> AOpen) \<Longrightarrow> queue_ok q"
  by (auto simp: queue_ok_but_def queue_ok_def attempts_ok_but_def)

lemma closes_all_no_open:
  assumes "list_all2 closes xs ys" and "\<And>x. x \<in> set xs \<Longrightarrow> at_task x = tid \<Longrightarrow> at_outcome x \<noteq> AOpen"
    and "y \<in> set ys" and "at_task y = tid"
  shows "at_outcome y \<noteq> AOpen"
proof -
  from assms(1,3) obtain x where "x \<in> set xs" "closes x y"
    by (metis in_set_conv_nth list_all2_conv_all_nth)
  with assms(2) [of x] assms(4) show ?thesis by (auto simp: closes_def)
qed

lemma fail_attempt_ok:
  assumes "queue_ok q" and "has_attempt tid epoch number q"
    and "fail_attempt bytes tid epoch number code message retryable provider now q = Inr (out, r)"
  shows "queue_ok r"
proof -
  from assms(3) obtain t where t: "find_task tid q = Some t" "tk_state t = TRunning" "tk_epoch t = epoch"
    by (auto simp: fail_attempt_def split: option.splits if_splits)
  define q1 where "q1 = map_attempts (\<lambda>a. at_task a = tid \<and> at_number a = number)
     (\<lambda>a. a\<lparr>at_outcome := AFailed, at_retryable := retryable, at_code := Some code,
        at_message := Some message, at_provider := provider\<rparr>) q"
  have m1: "moves {tid} q q1" unfolding q1_def by (rule moves_map_attempts) (simp add: closes_def)
  have closed: "at_outcome x \<noteq> AOpen" if x: "x \<in> set (q_attempts q1)" "at_task x = tid" for x
  proof -
    from x(1) obtain y where y: "y \<in> set (q_attempts q)"
      and xy: "x = (if at_task y = tid \<and> at_number y = number
        then y\<lparr>at_outcome := AFailed, at_retryable := retryable, at_code := Some code,
        at_message := Some message, at_provider := provider\<rparr> else y)"
      by (auto simp: q1_def map_attempts_def update_where_def)
    from open_attempt_number [OF assms(1) t(1,3) assms(2) y] x(2) xy show ?thesis
      by (auto split: if_splits)
  qed
  have m2: "moves {tid} q1 r"
  proof (cases "\<exists>wake. out = FailRetryWait wake")
    case True
    then obtain wake where "r = update_tasks (\<lambda>r. tk_id r = tid)
        (\<lambda>r. r\<lparr>tk_state := TRetryWait, tk_retries := tk_retries r + 1,
           tk_next_retry := Some wake, tk_error_code := Some code,
           tk_error_message := Some message, tk_owner := None\<rparr>) q1"
      using assms(3) t unfolding q1_def by (auto simp: fail_attempt_def Let_def split: if_splits)
    moreover have "q_tasks q1 = q_tasks q" by (simp add: q1_def)
    moreover have "moves {tid} q1 (update_tasks (\<lambda>r. tk_id r = tid \<and> is_live r)
        (\<lambda>r. r\<lparr>tk_state := TRetryWait, tk_retries := tk_retries r + 1,
           tk_next_retry := Some wake, tk_error_code := Some code,
           tk_error_message := Some message, tk_owner := None\<rparr>) q1)"
      by (rule moves_update_quiet) (auto simp: row_simps is_quiet_def calm_def)
    moreover have "matching_ids (\<lambda>r. tk_id r = tid \<and> is_live r) q1 = matching_ids (\<lambda>r. tk_id r = tid) q1"
    proof -
      have "is_live u" if "u \<in> set (q_tasks q1)" "tk_id u = tid" for u
      proof -
        from that find_task_SomeD [OF t(1)] assms(1) have "u = t"
          by (auto simp: queue_ok_def q1_def intro: task_unique)
        with t(2) show ?thesis by (simp add: row_simps)
      qed
      then show ?thesis unfolding matching_ids_def by (metis (mono_tags, lifting) filter_cong)
    qed
    ultimately show ?thesis by (simp add: update_tasks_def)
  next
    case False
    then have r: "r = delete_checkpoints_unless_paid_extraction tid (tk_kind t)
        (update_tasks (\<lambda>r. tk_id r = tid)
          (\<lambda>r. r\<lparr>tk_state := TFailed, tk_error_code := Some code,
             tk_error_message := Some message, tk_owner := None, tk_next_retry := None\<rparr>) q1)"
      using assms(3) t unfolding q1_def by (auto simp: fail_attempt_def Let_def split: if_splits)
    have "moves {tid} q1 (update_tasks (\<lambda>r. tk_id r = tid)
          (\<lambda>r. r\<lparr>tk_state := TFailed, tk_error_code := Some code,
             tk_error_message := Some message, tk_owner := None, tk_next_retry := None\<rparr>) q1)"
      by (rule moves_update_any) (auto simp: row_simps)
    from moves_trans [OF this moves_delete_unless] show ?thesis unfolding r .
  qed
  from m1 m2 have "moves {tid} q r" by (rule moves_trans)
  with assms(1) have ok: "queue_ok_but {tid} r" by (rule queue_ok_ends)
  from m2 have "tasks_ok q1 \<longrightarrow> list_all2 closes (q_attempts q1) (q_attempts r)"
    by (simp add: moves_def undisturbed_def)
  moreover have "tasks_ok q1" using assms(1) by (simp add: q1_def queue_ok_def tasks_ok_def)
  ultimately have "list_all2 closes (q_attempts q1) (q_attempts r)" by blast
  from ok show ?thesis by (rule queue_ok_no_open) (rule closes_all_no_open [OF \<open>list_all2 closes _ _\<close> closed])
qed

section \<open>Publication\<close>

lemma settle_success_ok:
  assumes "queue_ok q"
  shows "queue_ok (settle_success tid kind aid revision outcome receipt q)"
proof -
  let ?f = "\<lambda>t. t\<lparr>tk_state := TSucceeded, tk_outcome := outcome, tk_receipt := Some receipt,
    tk_error_code := None, tk_error_message := None, tk_owner := None\<rparr>"
  let ?u = "update_tasks (\<lambda>t. tk_id t = tid) ?f q"
  let ?q1 = "delete_task_checkpoints tid ?u"
  let ?q2 = "if kind = KEmbedding then stamp_completion aid revision ?q1 else ?q1"
  have "moves {tid} q ?u" by (rule moves_update_any) (auto simp: row_simps)
  also have "moves {tid} ?u ?q1" by simp
  also have "moves {tid} ?q1 ?q2" by (auto simp: stamp_completion_def intro!: moves_same)
  finally have "queue_ok_but {tid} ?q2" using assms by (rule queue_ok_ends [rotated])
  then have "queue_ok (close_open_attempt tid ASucceeded ?q2)" by (rule queue_ok_close) simp
  then have "queue_ok (bump_revisions tid (close_open_attempt tid ASucceeded ?q2))"
    unfolding bump_revisions_def
    by (rule queue_ok_keeps) (rule moves_map_batches, simp add: batch_key_def)
  then show ?thesis by (simp add: settle_success_def Let_def)
qed

section \<open>Batches\<close>

lemma update_tasks_cong:
  "(\<And>t. t \<in> set (q_tasks q) \<Longrightarrow> p t = r t) \<Longrightarrow> update_tasks p f q = update_tasks r f q"
  unfolding update_tasks_def matching_ids_def by (metis (mono_tags, lifting) filter_cong)

lemma mark_skipped_moves:
  assumes "\<And>t. t \<in> set (q_tasks q) \<Longrightarrow> tk_id t = tid \<Longrightarrow> tk_state t \<noteq> TRunning"
  shows "moves {} q (mark_skipped tid outcome q)"
proof -
  let ?f = "\<lambda>t. t\<lparr>tk_state := TSkipped, tk_outcome := outcome, tk_owner := None, tk_next_retry := None\<rparr>"
  let ?u = "update_tasks (\<lambda>t. tk_id t = tid \<and> tk_state t \<noteq> TRunning) ?f q"
  have "moves {} q ?u"
    by (rule moves_update_quiet) (auto simp: row_simps is_quiet_def calm_def)
  also have "?u = update_tasks (\<lambda>t. tk_id t = tid) ?f q"
    by (rule update_tasks_cong) (use assms in auto)
  also have "moves {} \<dots> (delete_task_checkpoints tid \<dots>)" by simp
  also have "moves {} \<dots> (update_tasks (is_blocked_dependent tid \<dots>) release_dependent \<dots>)"
    by (rule moves_update_quiet)
      (auto simp: row_simps is_quiet_def calm_def is_blocked_dependent_def release_dependent_def)
  finally show ?thesis by (simp add: mark_skipped_def Let_def)
qed

lemma mark_blocked_moves:
  assumes "\<And>t. t \<in> set (q_tasks q) \<Longrightarrow> tk_id t = tid \<Longrightarrow> tk_state t \<noteq> TRunning \<and> is_live t"
  shows "moves {} q (mark_blocked tid outcome message q)"
proof -
  let ?f = "\<lambda>t. t\<lparr>tk_state := TBlocked, tk_outcome := outcome, tk_error_code := Some outcome,
    tk_error_message := Some message, tk_owner := None, tk_next_retry := None\<rparr>"
  have "moves {} q (update_tasks (\<lambda>t. tk_id t = tid \<and> tk_state t \<noteq> TRunning \<and> is_live t) ?f q)"
    by (rule moves_update_quiet) (auto simp: row_simps is_quiet_def calm_def)
  also have "\<dots> = update_tasks (\<lambda>t. tk_id t = tid) ?f q"
    by (rule update_tasks_cong) (use assms in auto)
  finally show ?thesis by (simp add: mark_blocked_def)
qed

lemma cancel_orphaned_moves: "moves {} q (cancel_orphaned_tasks q)"
proof -
  let ?f = "\<lambda>t. t\<lparr>tk_state := TCancelled, tk_owner := None, tk_next_retry := None\<rparr>"
  let ?q1 = "update_tasks (is_orphan q) ?f q"
  let ?ids = "map (\<lambda>t. (tk_id t, tk_kind t)) (filter (is_orphan q) (q_tasks q))"
  let ?q2 = "fold (\<lambda>(tid, kind). delete_checkpoints_unless_paid_extraction tid kind) ?ids ?q1"
  have "moves {} q ?q1" by (rule moves_update_any) (auto simp: row_simps is_orphan_def)
  also have "moves {} ?q1 ?q2" by (rule moves_fold) (auto split: prod.split)
  finally have "moves {} q ?q2" .
  from moves_trans [OF this moves_map_attempts] show ?thesis
    by (auto simp: cancel_orphaned_tasks_def Let_def closes_def)
qed

lemma observe_paused_moves: "moves {} q (observe_paused_batches q)"
  unfolding observe_paused_batches_def by (rule moves_map_batches) (simp add: batch_key_def)

lemma set_batch_state_moves: "moves {} q (set_batch_state bid s q)"
  unfolding set_batch_state_def by (rule moves_map_batches) (simp add: batch_key_def)

lemma maybe_finalize_moves: "maybe_finalize_batch bid q = Inr (b, r) \<Longrightarrow> moves {} q r"
  by (auto simp: maybe_finalize_batch_def Let_def observe_paused_moves set_batch_state_moves
      split: option.splits if_splits)

lemma requeue_interrupted_moves:
  "moves {} q (update_tasks (\<lambda>t. tk_state t = TInterrupted \<and> p t)
     (\<lambda>t. t\<lparr>tk_state := TPending, tk_owner := None, tk_next_retry := None\<rparr>) q)"
  by (rule moves_update_quiet) (auto simp: row_simps is_quiet_def calm_def)

lemma resume_units_moves: "moves {} q (resume_units bid q)"
proof -
  let ?q1 = "map_batches (\<lambda>b. bt_id b = bid \<and> bt_state b \<in> {BPaused, BPausing, BInterrupted})
            (\<lambda>b. b\<lparr>bt_state := (if bt_planning_done b then BReady else BPreparing)\<rparr>) q"
  let ?q2 = "map_links (\<lambda>l. ln_batch l = bid \<and> ln_request l = RPaused)
            (\<lambda>l. l\<lparr>ln_request := RActive\<rparr>) ?q1"
  let ?q3 = "update_tasks (\<lambda>t. tk_state t = TInterrupted \<and> linked_to bid ?q2 t)
            (\<lambda>t. t\<lparr>tk_state := TPending, tk_owner := None, tk_next_retry := None\<rparr>) ?q2"
  have "moves {} q ?q1" by (rule moves_map_batches) (simp add: batch_key_def)
  also have "moves {} ?q1 ?q2" by (rule moves_map_links) (simp add: link_key_def)
  also have "moves {} ?q2 ?q3" by (rule requeue_interrupted_moves)
  also have "moves {} ?q3 (update_tasks (\<lambda>t. tk_state t = TBlocked
             \<and> tk_outcome t \<in> {tx ''configuration_changed'', tx ''source_unstable''} \<and> linked_to bid ?q3 t)
           (\<lambda>t. t\<lparr>tk_state := TPending, tk_outcome := [], tk_invalidations := 0,
              tk_error_code := None, tk_error_message := None\<rparr>) ?q3)"
    by (rule moves_update_quiet) (auto simp: row_simps is_quiet_def calm_def)
  finally show ?thesis by (simp add: resume_units_def Let_def)
qed

lemma pause_links_moves: "moves {} q (pause_links bid q)"
  unfolding pause_links_def
  by (intro moves_trans [OF moves_map_batches moves_map_links]) (auto simp: batch_key_def link_key_def)

lemma cancel_batch_moves:
  assumes "cancel_batch bid q = Inr r"
  shows "moves {} q r"
proof -
  let ?q1 = "q\<lparr>q_revisions := fold suppress_asset (cancelled_embeddings bid q) (q_revisions q)\<rparr>"
  let ?q2 = "map_batches (\<lambda>b. bt_id b = bid) (\<lambda>b. b\<lparr>bt_state := BCancelling\<rparr>) ?q1"
  let ?q3 = "map_links (\<lambda>l. ln_batch l = bid) (\<lambda>l. l\<lparr>ln_request := RCancelled\<rparr>) ?q2"
  let ?q4 = "map_batches (\<lambda>b. bt_id b = bid) (\<lambda>b. b\<lparr>bt_priority := 0\<rparr>) ?q3"
  from assms obtain x where "maybe_finalize_batch bid (cancel_orphaned_tasks ?q4) = Inr x" "snd x = r"
    unfolding cancel_batch_def Let_def map_sum_Inr_iff by blast
  then have last: "maybe_finalize_batch bid (cancel_orphaned_tasks ?q4) = Inr (fst x, r)" by auto
  have "moves {} q ?q1" by (rule moves_same) simp_all
  also have "moves {} ?q1 ?q2" by (rule moves_map_batches) (simp add: batch_key_def)
  also have "moves {} ?q2 ?q3" by (rule moves_map_links) (simp add: link_key_def)
  also have "moves {} ?q3 ?q4" by (rule moves_map_batches) (simp add: batch_key_def)
  also have "moves {} ?q4 (cancel_orphaned_tasks ?q4)" by (rule cancel_orphaned_moves)
  also have "moves {} (cancel_orphaned_tasks ?q4) r" using last by (rule maybe_finalize_moves)
  finally show ?thesis .
qed

lemma control_batch_moves:
  assumes "control_batch bid action expected q = Inr r"
  shows "moves {} q r"
proof -
  let ?q1 = "map_batches (\<lambda>b. bt_id b = bid)
      (\<lambda>b. b\<lparr>bt_desired := desired_of action, bt_revision := bt_revision b + 1\<rparr>) q"
  have "moves {} q ?q1" by (rule moves_map_batches) (simp add: batch_key_def)
  moreover from assms have "moves {} ?q1 r"
    by (cases action) (auto simp: control_batch_def Let_def pause_links_moves resume_units_moves
        intro: cancel_batch_moves split: option.splits if_splits)
  ultimately show ?thesis by (rule moves_trans)
qed

lemma set_batch_priority_moves: "set_batch_priority bid p expected q = Inr r \<Longrightarrow> moves {} q r"
  by (auto simp: set_batch_priority_def batch_key_def intro!: moves_map_batches
      split: option.splits if_splits)

lemma apply_priority_aging_moves: "moves {} q (apply_priority_aging now q)"
  unfolding apply_priority_aging_def by (rule moves_map_batches) (simp add: batch_key_def)

lemma raise_manual_moves: "moves {} q (raise_manual_system_batch q)"
  unfolding raise_manual_system_batch_def by (rule moves_map_batches) (simp add: batch_key_def)

lemma requeue_system_moves: "moves {} q (requeue_interrupted_system_tasks only q)"
  unfolding requeue_interrupted_system_tasks_def
  by (rule moves_update_quiet) (auto simp: row_simps is_quiet_def calm_def)

lemma reconcile_contracts_moves: "reconcile_contracts e a q = Inr r \<Longrightarrow> moves {} q r"
  by (auto simp: reconcile_contracts_def row_simps is_quiet_def calm_def
      intro!: moves_update_quiet split: option.splits)

lemma resume_blocked_moves: "moves {} q (resume_blocked p q)"
  unfolding resume_blocked_def
  by (rule moves_update_quiet) (auto simp: row_simps is_quiet_def calm_def)

lemma resume_configuration_moves:
  "moves {} q (resume_embedding_configuration_blocked ready q)"
  "moves {} q (resume_ocr_configuration_blocked ready q)"
  "moves {} q (resume_ner_configuration_blocked ready q)"
  by (simp_all add: resume_embedding_configuration_blocked_def resume_ocr_configuration_blocked_def
      resume_ner_configuration_blocked_def resume_blocked_moves)

lemma filter_single: "distinct xs \<Longrightarrow> t \<in> set xs \<Longrightarrow> filter (\<lambda>u. u = t) xs = [t]"
  by (induction xs) (auto simp: filter_empty_conv)

lemma fail_blocked_moves:
  "moves {} q (update_tasks (\<lambda>t. tk_id t = tid \<and> tk_state t = TBlocked) (fail_dependency dep s) q)"
proof -
  let ?p = "\<lambda>t. tk_id t = tid \<and> tk_state t = TBlocked" and ?f = "fail_dependency dep s"
  have "advances q (update_tasks ?p ?f q) \<and> undisturbed {} q (update_tasks ?p ?f q)" if ok: "tasks_ok q"
  proof (cases "\<exists>t \<in> set (q_tasks q). ?p t")
    case True
    then obtain t where t: "t \<in> set (q_tasks q)" "?p t" by auto
    then have "?p u \<longleftrightarrow> u = t" if "u \<in> set (q_tasks q)" for u
      using ok that by (auto intro: task_unique)
    then have "filter ?p (q_tasks q) = filter (\<lambda>u. u = t) (q_tasks q)" by (intro filter_cong) auto
    also have "\<dots> = [t]"
      using ok t(1) by (intro filter_single) (auto simp: tasks_ok_def distinct_map)
    finally have eq: "update_tasks ?p ?f q = update_row ?f tid q"
      using t(2) by (simp add: update_tasks_def matching_ids_def)
    have "keeps u (?f u)" if "find_task tid q = Some u" for u
    proof -
      from that t ok find_task_SomeD [OF that] have "u = t" by (auto intro: task_unique)
      with t(2) show ?thesis by (simp add: keeps_fail_dependency)
    qed
    with ok have "advances q (update_row ?f tid q)" using advances_update_row by blast
    moreover have "undisturbed {} q (update_row ?f tid q)"
    proof (rule undisturbed_update_row)
      fix u assume "u \<in> set (q_tasks q)" "tk_id u = tid" "tk_state u = TRunning"
      with t ok have "u = t" by (auto intro: task_unique)
      with t(2) \<open>tk_state u = TRunning\<close> show "tid \<in> {}" by simp
    qed (simp add: fail_dependency_def)
    ultimately show ?thesis by (simp add: eq)
  next
    case False
    then have "update_tasks ?p ?f q = q" by (simp add: update_tasks_def matching_ids_def filter_False)
    then show ?thesis by simp
  qed
  then show ?thesis by (auto simp: moves_def advances_def)
qed

lemma settle_row_moves: "moves {} q (settle_row row q)"
proof -
  obtain tid dep s where row: "row = (tid, dep, s)" by (cases row)
  have "moves {} q (update_tasks (\<lambda>t. tk_id t = tid \<and> tk_state t = TBlocked) release_dependent q)"
    by (rule moves_update_quiet) (auto simp: row_simps is_quiet_def calm_def release_dependent_def)
  moreover have "moves {} q (close_open_attempt tid AFailed
      (update_tasks (\<lambda>t. tk_id t = tid \<and> tk_state t = TBlocked) (fail_dependency dep s) q))"
    by (rule moves_trans [OF fail_blocked_moves moves_close]) simp
  ultimately show ?thesis by (simp add: settle_row_def row)
qed

lemma settle_blocked_moves: "moves {} q (settle_blocked_dependents q)"
  unfolding settle_blocked_dependents_def by (rule moves_fold) (rule settle_row_moves)

end
