(* ===== verification/QueueReach.thy ===== *)
theory QueueReach
  imports QueueSteps QueueCommands
begin

text \<open>
  The operations that add rows or start units keep the invariant: links, admission, planning and
  the retry of units.
\<close>

section \<open>Links\<close>

lemma link_batch_task_ok:
  assumes "queue_ok q" and "link_batch_task bid tid kind s dependency q = Inr r"
  shows "queue_ok r"
proof (cases "list_ex (\<lambda>l. ln_batch l = bid \<and> ln_task l = tid) (q_links q)")
  case True
  with assms show ?thesis by (simp add: link_batch_task_def)
next
  case False
  obtain l where r: "r = q\<lparr>q_links := q_links q @ [l]\<rparr>" and l: "ln_batch l = bid" "ln_task l = tid"
      "ln_dependency l = dependency" "find_batch bid q \<noteq> None" "find_task tid q \<noteq> None"
      "\<forall>d. dependency = Some d \<longrightarrow> find_task d q \<noteq> None"
    using assms(2) False by (auto simp: link_batch_task_def split: if_splits option.splits)
  have "bid \<in> bt_id ` set (q_batches q)" using l(4) by (auto simp: find_batch_def find_None_iff)
  moreover have ids: "d \<in> tk_id ` set (q_tasks q)" if "find_task d q \<noteq> None" for d
    using that by (auto simp: find_task_def find_None_iff)
  ultimately have "link_ok q l" using l by (auto simp: link_ok_def)
  moreover have "link_ok r = link_ok q" by (auto simp: r link_ok_def fun_eq_iff)
  ultimately have "links_ok r"
    using assms(1) False l(1,2) by (auto simp: r queue_ok_def links_ok_def list_ex_iff)
  moreover have "attempts_ok_but {} r"
    using assms(1) attempts_ok_same [of r q "{}"] by (simp add: r queue_ok_def)
  ultimately show ?thesis
    using assms(1) by (simp add: r queue_ok_def tasks_ok_def batches_ok_def)
qed

section \<open>New units\<close>

lemma live_task_None: "live_task s kind q = None \<longleftrightarrow>
    (\<forall>t \<in> set (q_tasks q). is_live t \<longrightarrow> \<not> concerns s kind t)"
  by (auto simp: live_task_def find_None_iff is_live_def)

lemma concerns_key: "concerns \<lparr>sb_domain = tk_domain t, sb_kind = tk_subject_kind t, sb_id = tk_subject t\<rparr>
    (tk_kind t) u \<longleftrightarrow> task_key u = task_key t"
  by (auto simp: concerns_def task_key_def)

lemma links_ok_more_tasks:
  "links_ok q \<Longrightarrow> links_ok (q\<lparr>q_tasks := q_tasks q @ ts\<rparr>)"
  by (auto simp: links_ok_def link_ok_def list_all_iff)

lemma attempts_ok_more_tasks:
  "attempts_ok_but ids q \<Longrightarrow> attempts_ok_but ids (q\<lparr>q_tasks := q_tasks q @ ts\<rparr>)"
  by (auto simp: attempts_ok_but_def attempt_ok_def list_all_iff)

lemma insert_task_ok:
  assumes "queue_ok q" and "insert_task t q = Some r" and "row_ok t"
  shows "queue_ok r"
proof -
  from assms(2) have r: "r = q\<lparr>q_tasks := q_tasks q @ [t]\<rparr>" and new: "find_task (tk_id t) q = None"
    and live: "\<forall>u \<in> set (q_tasks q). is_live u \<longrightarrow> task_key u \<noteq> task_key t"
    by (auto simp: insert_task_def live_task_None concerns_key split: if_splits)
  from new have "tk_id t \<notin> tk_id ` set (q_tasks q)" by (auto simp: find_task_def find_None_iff)
  with assms(1,3) live have "tasks_ok r" by (auto simp: r queue_ok_def tasks_ok_def)
  with assms(1) show ?thesis
    by (auto simp: r queue_ok_def batches_ok_def intro: links_ok_more_tasks attempts_ok_more_tasks)
qed

lemma new_task_row_ok [simp]: "row_ok (new_task tid kind s revision fingerprint contract blocked now)"
  by (simp add: row_ok_def new_task_def)

lemma attach_live_ok:
  assumes "queue_ok q" and "attach_live bid kind s dependency live q = Inr (out, r)"
  shows "queue_ok r"
proof -
  from assms(2) obtain q1 where "link_batch_task bid live kind s dependency q = Inr q1"
      "r = requeue_interrupted_system_tasks (Some live) q1"
    by (auto simp: attach_live_def map_sum_Inr_iff)
  with assms(1) link_batch_task_ok requeue_system_moves queue_ok_keeps show ?thesis by blast
qed

lemma admit_or_attach_with_ok:
  assumes "queue_ok q"
    and "admit_or_attach_with bid kind s revision fingerprint contract dependency new_id now q = Inr (out, r)"
  shows "queue_ok r"
  using assms
  by (auto simp: admit_or_attach_with_def admit_new_def map_sum_Inr_iff split: option.splits
      intro: attach_live_ok link_batch_task_ok [OF insert_task_ok [OF _ _ new_task_row_ok]])

lemma clear_suppression_moves: "moves {} q (clear_suppression aid revision q)"
  unfolding clear_suppression_def by (rule moves_same) simp_all

lemma admit_subject_ok:
  assumes "queue_ok q"
    and "admit_subject_or_attach e a bid kind s revision fingerprint contract dependency new_id now q
          = Inr (out, r)"
  shows "queue_ok r"
  using assms queue_ok_keeps [OF assms(1) clear_suppression_moves]
  by (auto simp: admit_subject_or_attach_def admit_corpus_def admit_library_def admit_item_def
      admit_attachment_def map_sum_Inr_iff Let_def split: if_splits option.splits
      dest!: admit_or_attach_with_ok [rotated])

lemma admit_repair_ok:
  assumes "queue_ok q"
    and "admit_repair_or_attach e a bid s revision fingerprint contract new_id now q = Inr (out, r)"
  shows "queue_ok r"
  using assms by (auto simp: admit_repair_or_attach_def split: if_splits option.splits
      dest: admit_subject_ok [rotated])

section \<open>System batches and requests\<close>

lemma queue_ok_more_batches:
  assumes "queue_ok q" and "bt_id b \<notin> bt_id ` set (q_batches q)"
    and "bt_request b \<notin> bt_request ` set (q_batches q)"
  shows "queue_ok (q\<lparr>q_batches := q_batches q @ [b]\<rparr>)"
  using assms by (auto simp: queue_ok_def tasks_ok_def batches_ok_def links_ok_def link_ok_def
      attempts_ok_but_def attempt_ok_def list_all_iff)

text \<open>The identifier of a system batch belongs to its request.\<close>

definition named_for :: "str \<Rightarrow> str \<Rightarrow> queue \<Rightarrow> bool" where
  "named_for bid request q \<longleftrightarrow>
     list_all (\<lambda>b. bt_id b = bid \<longrightarrow> bt_request b = request) (q_batches q)"

lemma ensure_system_batch_row_ok:
  assumes "queue_ok q" and "named_for new_id request q"
    and "ensure_system_batch_row origin request new_id priority now q = (bid, r)"
  shows "queue_ok r"
proof (cases "find (\<lambda>b. bt_request b = request) (q_batches q)")
  case None
  then have "request \<notin> bt_request ` set (q_batches q)" by (auto simp: find_None_iff)
  moreover from this assms(2) have "new_id \<notin> bt_id ` set (q_batches q)"
    by (auto simp: named_for_def list_all_iff)
  ultimately show ?thesis
    using assms(1,3) None by (auto simp: ensure_system_batch_row_def intro!: queue_ok_more_batches)
next
  case (Some found)
  have 1: "moves {} q' (map_batches p (\<lambda>b. b\<lparr>bt_state := BRunning, bt_desired := DRun\<rparr>) q')" for p q'
    by (rule moves_map_batches) (simp add: batch_key_def)
  have 2: "moves {} q' (map_batches p (\<lambda>b. b\<lparr>bt_priority := n\<rparr>) q')" for p n q'
    by (rule moves_map_batches) (simp add: batch_key_def)
  from assms(3) Some have "moves {} q r"
    by (cases priority) (auto simp: ensure_system_batch_row_def Let_def intro: 1 moves_trans [OF 1 2])
  with assms(1) show ?thesis by (rule queue_ok_keeps)
qed

lemma record_request_moves: "record_request x q = Inr r \<Longrightarrow> moves {} q r"
  by (auto simp: record_request_def intro: moves_same split: if_splits)

section \<open>Retries\<close>

lemma reopen_one_ok:
  assumes "queue_ok q" and "reopen_one tid (n, q) = Inr (m, r)"
  shows "queue_ok r"
proof (cases "find (\<lambda>t. tk_id t = tid \<and> tk_state t = TFailed) (q_tasks q)")
  case None
  with assms show ?thesis by (simp add: reopen_one_def)
next
  case (Some t)
  let ?p = "\<lambda>t. tk_id t = tid \<and> tk_state t = TFailed"
  from Some have t: "t \<in> set (q_tasks q)" "?p t" by (auto simp: find_Some_iff)
  from assms(2) Some have none: "live_task (subject_of t) (tk_kind t) q = None"
    and r: "r = update_tasks ?p reopen_task q"
    by (auto simp: reopen_one_def split: if_splits)
  have ok: "tasks_ok q" using assms(1) by (simp add: queue_ok_def)
  have only: "?p u \<longleftrightarrow> u = t" if "u \<in> set (q_tasks q)" for u
    using task_unique [OF ok that t(1)] t(2) by auto
  have "r = map_tasks ?p reopen_task q"
    unfolding r using ok by (intro update_tasks_quiet) (auto simp: tasks_ok_def reopen_task_def is_quiet_def)
  also have "\<dots> = map_tasks (\<lambda>u. u = t) reopen_task q" by (rule map_tasks_cong) (rule only)
  finally have ts: "r = q\<lparr>q_tasks := map (\<lambda>u. if u = t then reopen_task t else u) (q_tasks q)\<rparr>"
    by (auto simp: map_tasks_def update_where_def)
  have key: "task_key (reopen_task u) = task_key u" "tk_id (reopen_task u) = tk_id u"
      "row_ok (reopen_task u)" "is_live (reopen_task u)" for u
    by (auto simp: task_key_def reopen_task_def row_ok_def is_live_def is_terminal_task_def)
  have dead: "\<not> is_live t" using t(2) by (simp add: row_simps)
  have other: "task_key u \<noteq> task_key t" if "u \<in> set (q_tasks q)" "is_live u" for u
    using none that concerns_key [of t u] by (auto simp: live_task_None subject_of_def)
  have ids: "map tk_id (q_tasks r) = map tk_id (q_tasks q)" by (auto simp: ts key)
  have "distinct (map task_key (filter is_live (q_tasks r)))"
  proof -
    have d: "distinct (q_tasks q)" using ok by (simp add: tasks_ok_def distinct_map)
    obtain xs ys where split: "q_tasks q = xs @ t # ys" using t(1) by (auto simp: in_set_conv_decomp)
    with d have "t \<notin> set xs" "t \<notin> set ys" by auto
    then have "q_tasks r = xs @ reopen_task t # ys"
      using split by (simp add: ts) (auto intro: map_idI)
    moreover have "distinct (map task_key (filter is_live (xs @ ys)))"
      using ok split dead by (simp add: tasks_ok_def)
    ultimately show ?thesis using key other split by fastforce
  qed
  moreover have "list_all row_ok (q_tasks r)" using ok key by (auto simp: ts tasks_ok_def list_all_iff)
  ultimately have "tasks_ok r" using ok by (simp add: tasks_ok_def ids)
  moreover have "links_ok r"
  proof -
    from ids have "tk_id ` set (q_tasks r) = tk_id ` set (q_tasks q)" by (metis set_map)
    then have "link_ok r = link_ok q" by (simp add: fun_eq_iff link_ok_def) (simp add: ts)
    with assms(1) show ?thesis by (simp add: queue_ok_def links_ok_def ts)
  qed
  moreover have "attempts_ok_but {} r"
  proof (rule attempts_ok_undisturbed)
    show "undisturbed {} q r"
      using dead by (auto simp: undisturbed_def ts list_all2_map2 list_all2_same list_all2_refl calm_def
          reopen_task_def is_live_def is_terminal_task_def)
    show "list_all2 grows (q_tasks q) (q_tasks r)"
      by (auto simp: ts list_all2_map2 list_all2_same grows_def reopen_task_def)
  qed (use assms(1) in \<open>simp add: queue_ok_def\<close>)
  ultimately show ?thesis using assms(1) by (simp add: queue_ok_def batches_ok_def ts)
qed

lemma reopen_all_ok:
  "queue_ok q \<Longrightarrow> reopen_all ids (n, q) = (res, r) \<Longrightarrow> queue_ok r"
proof (induction ids arbitrary: n q)
  case (Cons tid rest)
  then show ?case by (auto split: sum.splits intro: Cons.IH [OF reopen_one_ok])
qed simp

lemma reactivate_links_moves:
  "moves {} q (map_links p (\<lambda>l. l\<lparr>ln_request := RActive\<rparr>) q)"
  by (rule moves_map_links) (simp add: link_key_def)

lemma retry_failed_ok:
  assumes "queue_ok q" and "retry_failed bid single q = (res, r)"
  shows "queue_ok r"
proof -
  have revive: "moves {} q' (map_batches (\<lambda>b. bt_id b = bid) revive_batch q')" for q'
    by (rule moves_map_batches) (simp add: batch_key_def revive_batch_def)
  have links: "queue_ok (map_links p (\<lambda>l. l\<lparr>ln_request := RActive\<rparr>) q)" for p
    using assms(1) reactivate_links_moves by (rule queue_ok_keeps)
  show ?thesis
    using assms(2) assms(1) reopen_all_ok [OF links]
    by (auto simp: retry_failed_def Let_def split: option.splits if_splits sum.splits prod.splits
        intro: queue_ok_keeps [OF _ revive])
qed

section \<open>Planning\<close>

text \<open>What holds of the value of a call, if it has one.\<close>

definition yields :: "('a \<Rightarrow> bool) \<Rightarrow> 'e + 'a \<Rightarrow> bool" where
  "yields P r \<longleftrightarrow> (\<forall>x. r = Inr x \<longrightarrow> P x)"

lemma yields_simps [simp]: "yields P (Inr x) = P x" "yields P (Inl e)"
  by (simp_all add: yields_def)

lemma yields_try: "yields P r \<Longrightarrow> (\<And>x. P x \<Longrightarrow> yields Q (f x)) \<Longrightarrow> yields Q (try_then r f)"
  by (cases r) simp_all

definition unit_ok :: "'i \<times> page_state \<Rightarrow> bool" where
  "unit_ok r \<longleftrightarrow> queue_ok (pg_queue (snd r))"

lemma admit_unit_ok:
  assumes "queue_ok (pg_queue st)"
  shows "yields unit_ok (admit_unit e a fresh now bid aid kind fingerprint contract dependency st)"
  unfolding admit_unit_def
proof (rule yields_try [where P = "\<lambda>r. queue_ok (snd r)"])
  show "yields (\<lambda>r. queue_ok (snd r)) (admit_subject_or_attach e a bid kind (corpus_asset aid)
      (source_revision aid (pg_queue st)) fingerprint contract dependency (fresh (pg_next st)) now (pg_queue st))"
    unfolding yields_def using admit_subject_ok [OF assms] by auto
qed (auto simp: unit_ok_def split: prod.splits option.splits)

lemma admit_optional_ok:
  assumes "queue_ok (pg_queue st)" and "\<And>x st. queue_ok (pg_queue st) \<Longrightarrow> yields unit_ok (f x st)"
  shows "yields unit_ok (admit_optional f u st)"
  using assms by (auto simp: admit_optional_def unit_ok_def yields_def map_sum_Inr_iff split: option.splits)

lemma admit_extracts_ok:
  assumes "\<And>x st. queue_ok (pg_queue st) \<Longrightarrow> yields unit_ok (f x st)"
  shows "queue_ok (pg_queue st) \<Longrightarrow> yields (\<lambda>st. queue_ok (pg_queue st)) (admit_extracts f us st)"
proof (induction us arbitrary: st)
  case (Cons x us)
  from Cons.prems have "yields unit_ok (f x st)" by (rule assms)
  then show ?case unfolding admit_extracts.simps
    by (rule yields_try) (simp add: split_beta unit_ok_def Cons.IH)
qed simp

lemma classify_member_moves: "moves {} q (classify_member bid w q)"
  unfolding classify_member_def by (rule moves_same) simp_all

lemma admit_member_ok:
  assumes "queue_ok (pg_queue st)"
  shows "yields (\<lambda>st. queue_ok (pg_queue st)) (admit_member e a fresh now bid h w st)"
proof -
  have "queue_ok (classify_member bid w q)" if "queue_ok q" for q
    using that classify_member_moves by (rule queue_ok_keeps)
  note classified = this
  show ?thesis
    unfolding admit_member_def Let_def
    apply (rule yields_try [where P = unit_ok])
     apply (rule admit_optional_ok [OF assms], simp add: split_beta admit_unit_ok)
    apply (simp add: split_beta unit_ok_def)
    apply (rule yields_try [where P = unit_ok])
     apply (erule admit_optional_ok, simp add: admit_unit_ok)
    apply (simp add: split_beta unit_ok_def)
    apply (rule yields_try [where P = unit_ok])
     apply (erule admit_optional_ok, simp add: split_beta admit_unit_ok)
    apply (simp add: split_beta unit_ok_def)
    apply (rule yields_try [where P = "\<lambda>st. queue_ok (pg_queue st)"])
     apply (rule admit_extracts_ok, simp add: split_beta admit_unit_ok, assumption)
    apply (rule yields_try [where P = unit_ok])
     apply (erule admit_optional_ok, simp add: admit_unit_ok)
    apply (simp add: split_beta unit_ok_def classified)
    done
qed

lemma admit_members_ok:
  assumes "\<And>w st. queue_ok (pg_queue st) \<Longrightarrow> yields (\<lambda>st. queue_ok (pg_queue st)) (f w st)"
  shows "queue_ok (pg_queue st) \<Longrightarrow> yields (\<lambda>st. queue_ok (pg_queue st)) (admit_members f ws st)"
  by (induction ws arbitrary: st) (auto intro!: yields_try assms)

lemma advance_cursor_moves: "moves {} q (advance_cursor bid n q)"
  unfolding advance_cursor_def by (rule moves_map_batches) (simp add: batch_key_def)

lemma close_planning_moves: "moves {} q (close_planning bid q)"
  unfolding close_planning_def by (rule moves_map_batches) (simp add: batch_key_def)

lemma classify_page_ok:
  assumes "queue_ok q"
  shows "yields (\<lambda>r. queue_ok (snd r)) (classify_page e a fresh now bid ops page q)"
  unfolding classify_page_def
proof (rule yields_try [where P = "\<lambda>_. True"])
  fix works
  have "yields (\<lambda>r. queue_ok (snd r)) (try_then (admit_members (admit_member e a fresh now bid h) works
      \<lparr>pg_queue = q, pg_next = 0, pg_admitted = 0\<rparr>) (\<lambda>st.
      Inr (\<lparr>po_processed = length works, po_admitted = pg_admitted st, po_done = False\<rparr>,
           advance_cursor bid (mw_ordinal (last works) + 1) (pg_queue st))))" for h
    by (rule yields_try, rule admit_members_ok, rule admit_member_ok)
      (use assms queue_ok_keeps [OF _ advance_cursor_moves] in auto)
  then show "yields (\<lambda>r. queue_ok (snd r)) (case effective_contract e a of None \<Rightarrow> Inl SettingsError
     | Some c \<Rightarrow> try_then (admit_members (admit_member e a fresh now bid (ec_hash c)) works
             \<lparr>pg_queue = q, pg_next = 0, pg_admitted = 0\<rparr>) (\<lambda>st.
         Inr (\<lparr>po_processed = length works, po_admitted = pg_admitted st, po_done = False\<rparr>,
           advance_cursor bid (mw_ordinal (last works) + 1) (pg_queue st))))"
    by (simp split: option.split)
qed (simp add: yields_def)

lemma classify_batch_page_ok:
  assumes "queue_ok q" and "classify_batch_page e a fresh now bid n q = Inr (out, r)"
  shows "queue_ok r"
proof -
  have "queue_ok (close_planning bid q)" using assms(1) close_planning_moves by (rule queue_ok_keeps)
  with assms classify_page_ok [OF assms(1)] show ?thesis
    by (auto simp: classify_batch_page_def yields_def split: option.splits if_splits)
qed

lemma promote_moves:
  "moves {} q (promote_prepared_batches q)" "moves {} q (promote_ready_batches q)"
  unfolding promote_prepared_batches_def promote_ready_batches_def
  by (rule moves_map_batches, simp add: batch_key_def)+

lemma promote_batches_moves: "moves {} q (promote_batches q)"
  unfolding promote_batches_def using promote_moves observe_paused_moves moves_trans by blast

lemma classify_pages_ok:
  assumes "\<And>n q out r. queue_ok q \<Longrightarrow> f n q = Inr (out, r) \<Longrightarrow> queue_ok r"
  shows "queue_ok q \<Longrightarrow> classify_pages f n q = Inr r \<Longrightarrow> queue_ok r"
proof (induction n arbitrary: q)
  case (Suc n)
  from Suc.prems(2) obtain out q1 where q1: "f n q = Inr (out, q1)"
      "(if po_done out then Inr q1 else classify_pages f n q1) = Inr r"
    by (auto simp: try_then_Inr_iff)
  from assms [OF Suc.prems(1) q1(1)] have "queue_ok q1" .
  with q1(2) Suc.IH [of q1] show ?case by (auto split: if_splits)
qed simp

lemma advance_planning_ok:
  assumes "queue_ok q" and "advance_planning e a fresh now bid pages n q = Inr (b, r)"
  shows "queue_ok r"
proof -
  let ?f = "\<lambda>i. classify_batch_page e a (fresh i) now bid n"
  from assms(2) obtain q1 where q1: "classify_pages ?f (max 1 pages) q = Inr q1" "r = promote_batches q1"
    by (auto simp: advance_planning_def try_then_Inr_iff Let_def split: option.splits)
  have "queue_ok q1"
    by (rule classify_pages_ok [where f = ?f, OF _ assms(1) q1(1)]) (rule classify_batch_page_ok)
  then show ?thesis unfolding q1(2) using promote_batches_moves by (rule queue_ok_keeps)
qed

section \<open>The claim\<close>

lemma pin_input_moves: "moves {} q (pin_input tid revision fingerprint q)"
  unfolding pin_input_def
  by (rule moves_update_quiet) (auto simp: row_simps calm_def)

lemma lease_step:
  assumes "queue_ok q" and "t \<in> set (q_tasks q)" and "tk_state t \<in> {TPending, TRetryWait}"
  shows "update_tasks (is_claimed_row (tk_id t) (tk_epoch t)) (lease_task session now) q
    = q\<lparr>q_tasks := map (\<lambda>u. if u = t then lease_task session now u else u) (q_tasks q)\<rparr>"
proof -
  let ?p = "is_claimed_row (tk_id t) (tk_epoch t)"
  have ok: "tasks_ok q" using assms(1) by (simp add: queue_ok_def)
  then have "update_tasks ?p (lease_task session now) q = map_tasks ?p (lease_task session now) q"
    by (intro update_tasks_quiet) (auto simp: tasks_ok_def lease_task_def is_quiet_def)
  also have "\<dots> = map_tasks (\<lambda>u. u = t) (lease_task session now) q"
    by (rule map_tasks_cong) (use assms task_unique [OF ok _ assms(2)] in \<open>auto simp: is_claimed_row_def\<close>)
  finally show ?thesis by (simp add: map_tasks_def update_where_def)
qed

lemma lease_ok:
  assumes "queue_ok q" and t: "t \<in> set (q_tasks q)" "tk_state t \<in> {TPending, TRetryWait}"
    and r: "r = q\<lparr>q_tasks := map (\<lambda>u. if u = t then lease_task session now u else u) (q_tasks q)\<rparr>"
  shows "queue_ok (r\<lparr>q_attempts := q_attempts q
           @ [open_attempt (tk_id t) (tk_attempts t + 1) (tk_epoch t + 1)]\<rparr>)" (is "queue_ok ?s")
proof -
  let ?u = "lease_task session now t"
  let ?x = "open_attempt (tk_id t) (tk_attempts t + 1) (tk_epoch t + 1)"
  have u: "tk_id ?u = tk_id t" "tk_state ?u = TRunning" "tk_epoch ?u = tk_epoch t + 1"
      "tk_attempts ?u = tk_attempts t + 1" by (simp_all add: lease_task_def)
  have keep: "keeps v (if v = t then lease_task session now v else v)" for v
    using t(2) by (auto simp: row_simps lease_task_def)
  have all: "list_all2 keeps (q_tasks q) (q_tasks r)" using keep by (simp add: r list_all2_map2 list_all2_same)
  have adv: "advances q r" using all by (simp add: advances_def same_frame_def r)
  have ok: "tasks_ok q" "attempts_ok_but {} q" using assms(1) by (simp_all add: queue_ok_def)
  have member: "?u \<in> set (q_tasks r)" using t(1) by (force simp: r)
  have row: "\<exists>w \<in> set (q_tasks r). grows v w \<and> (v \<noteq> t \<longrightarrow> w = v)" if "v \<in> set (q_tasks q)" for v
  proof (cases "v = t")
    case True
    have "grows t ?u" by (simp add: grows_def lease_task_def)
    with member True show ?thesis by blast
  next
    case False
    with that have "v \<in> set (q_tasks r)" by (force simp: r)
    then show ?thesis by (auto simp: grows_def)
  qed
  have olds: "attempt_ok r x" if "x \<in> set (q_attempts q)" for x
  proof -
    from ok(2) that obtain v where v: "v \<in> set (q_tasks q)" "tk_id v = at_task x"
        "at_number x \<le> tk_attempts v" "at_epoch x \<le> tk_epoch v"
      by (auto simp: attempts_ok_but_def list_all_iff attempt_ok_def)
    from row [OF v(1)] v show ?thesis by (force simp: attempt_ok_def grows_def)
  qed
  have bound: "at_number x \<le> tk_attempts t \<and> at_epoch x \<le> tk_epoch t"
    if "x \<in> set (q_attempts q)" "at_task x = tk_id t" for x
  proof -
    from ok(2) that obtain v where "v \<in> set (q_tasks q)" "tk_id v = tk_id t"
        "at_number x \<le> tk_attempts v" "at_epoch x \<le> tk_epoch v"
      by (auto simp: attempts_ok_but_def list_all_iff attempt_ok_def)
    with task_unique [OF ok(1) _ t(1)] show ?thesis by blast
  qed
  have opens: "\<exists>w \<in> set (q_tasks r). is_attempt_of w x"
    if "x \<in> set (q_attempts q)" "at_outcome x = AOpen" for x
  proof -
    from ok(2) that obtain v where "v \<in> set (q_tasks q)" "is_attempt_of v x"
      by (auto simp: attempts_ok_but_def)
    moreover from this t(2) have "v \<noteq> t" by (auto simp: is_attempt_of_def)
    ultimately show ?thesis using row [of v] by auto
  qed
  have same: "attempt_ok ?s = attempt_ok r" by (simp add: fun_eq_iff attempt_ok_def)
  have new: "attempt_ok r ?x" "is_attempt_of ?u ?x"
    using member u by (auto simp: attempt_ok_def is_attempt_of_def open_attempt_def)
  have x: "at_task ?x = tk_id t" "at_number ?x = tk_attempts t + 1" "at_epoch ?x = tk_epoch t + 1"
    by (simp_all add: open_attempt_def)
  have "attempts_ok_but {} ?s"
    unfolding attempts_ok_but_def same
  proof (intro conjI ballI impI)
    show "distinct (map (\<lambda>x. (at_task x, at_number x)) (q_attempts ?s))"
      using ok(2) bound x by (fastforce simp: attempts_ok_but_def)
    show "distinct (map (\<lambda>x. (at_task x, at_epoch x)) (q_attempts ?s))"
      using ok(2) bound x by (fastforce simp: attempts_ok_but_def)
    show "list_all (attempt_ok r) (q_attempts ?s)"
      using olds new(1) by (simp add: list_all_iff)
    fix y assume "y \<in> set (q_attempts ?s)" "at_outcome y = AOpen"
    with opens new(2) member show "\<exists>w \<in> set (q_tasks ?s). is_attempt_of w y" by auto
  qed
  moreover have "tasks_ok r" "batches_ok r" "links_ok r"
    using adv ok(1) assms(1) advances_tasks_ok advances_batches_ok advances_links_ok
    by (auto simp: queue_ok_def)
  moreover have "link_ok ?s = link_ok r" by (simp add: fun_eq_iff link_ok_def)
  ultimately show ?thesis by (simp add: queue_ok_def tasks_ok_def batches_ok_def links_ok_def)
qed

end
