(* ===== verification/QueueOrder.thy ===== *)
theory QueueOrder
  imports QueueClaim QueueInv
begin

text \<open>
  What \<open>claim_next\<close> promises: of the units that are due and runnable, those of the highest level;
  of these the one with the smallest identifier, except that an extraction lets a profile of its
  level pass. The scan by levels and by two access paths is shown equal to that reference.
\<close>

section \<open>The first row of a query\<close>

lemma first_by_id_None [simp]: "first_by_id xs = None \<longleftrightarrow> xs = []"
proof -
  have "sort_key tk_id xs = [] \<longleftrightarrow> xs = []" by (metis set_empty set_sort)
  then show ?thesis by (auto simp: first_by_id_def split: list.split)
qed

lemma first_by_id_SomeD:
  assumes "first_by_id xs = Some t"
  shows "t \<in> set xs \<and> (\<forall>u \<in> set xs. tk_id t \<le> tk_id u)"
proof -
  from assms obtain rest where rest: "sort_key tk_id xs = t # rest"
    by (auto simp: first_by_id_def split: list.splits)
  then have set: "set xs = insert t (set rest)" by (metis list.simps(15) set_sort)
  have "sorted (map tk_id (t # rest))" using rest by (metis sorted_sort_key)
  with set show ?thesis by auto
qed

lemma first_by_id_Some:
  assumes "inj_on tk_id (set xs)"
  shows "first_by_id xs = Some t \<longleftrightarrow> t \<in> set xs \<and> (\<forall>u \<in> set xs. tk_id t \<le> tk_id u)"
proof
  assume t: "t \<in> set xs \<and> (\<forall>u \<in> set xs. tk_id t \<le> tk_id u)"
  then have "first_by_id xs \<noteq> None" by auto
  then obtain s where s: "first_by_id xs = Some s" by blast
  from first_by_id_SomeD [OF s] t have "tk_id s = tk_id t" "s \<in> set xs" by (auto intro: antisym)
  with t assms have "s = t" by (auto dest: inj_onD)
  with s show "first_by_id xs = Some t" by simp
qed (rule first_by_id_SomeD)

lemma first_by_id_cong:
  assumes "set xs = set ys" and "inj_on tk_id (set xs)"
  shows "first_by_id xs = first_by_id ys"
proof (cases "first_by_id xs")
  case None
  with assms(1) show ?thesis by simp
next
  case (Some t)
  with assms show ?thesis using first_by_id_Some [of xs t] first_by_id_Some [of ys t] by simp
qed

section \<open>The two access paths\<close>

definition due_units :: "task_kind list \<Rightarrow> int \<Rightarrow> queue \<Rightarrow> task list" where
  "due_units kinds now q = filter (\<lambda>t. is_due now t \<and> is_runnable kinds q t) (q_tasks q)"

lemma ids_inj: "tasks_ok q \<Longrightarrow> set xs \<subseteq> set (q_tasks q) \<Longrightarrow> inj_on tk_id (set xs)"
  by (auto simp: tasks_ok_def distinct_map intro: inj_on_subset)

lemma first_of_firsts:
  assumes "inj_on tk_id (set xs \<union> set ys)"
  shows "first_by_id ((case first_by_id xs of None \<Rightarrow> [] | Some t \<Rightarrow> [t])
    @ (case first_by_id ys of None \<Rightarrow> [] | Some t \<Rightarrow> [t])) = first_by_id (xs @ ys)" (is "?l = ?r")
proof (cases "xs = [] \<or> ys = []")
  case True
  have "first_by_id [t] = Some t" for t by (simp add: first_by_id_def)
  with True show ?thesis by (auto split: option.split) (auto simp: first_by_id_def)
next
  case False
  then have "first_by_id xs \<noteq> None" "first_by_id ys \<noteq> None" by auto
  then obtain s t where st: "first_by_id xs = Some s" "first_by_id ys = Some t" by blast
  note s = first_by_id_SomeD [OF st(1)] and t = first_by_id_SomeD [OF st(2)]
  have inj: "inj_on tk_id (set [s, t])" by (rule inj_on_subset [OF assms]) (use s t in auto)
  have all: "inj_on tk_id (set (xs @ ys))" using assms by simp
  have least: "tk_id s \<le> tk_id t \<Longrightarrow> ?r = Some s" "\<not> tk_id s \<le> tk_id t \<Longrightarrow> ?r = Some t"
    unfolding first_by_id_Some [OF all] using s t by (auto intro: order_trans)
  have "?l = first_by_id [s, t]" by (simp add: st)
  also have "\<dots> = ?r"
  proof (cases "tk_id s \<le> tk_id t")
    case True
    then have "first_by_id [s, t] = Some s" by (simp add: first_by_id_Some [OF inj])
    with least(1) [OF True] show ?thesis by simp
  next
    case False
    then have "first_by_id [s, t] = Some t" by (simp add: first_by_id_Some [OF inj])
    with least(2) [OF False] show ?thesis by simp
  qed
  finally show ?thesis .
qed

lemma state_walk_eq:
  assumes "tasks_ok q"
  shows "state_walk kinds p now q = first_by_id (filter p (due_units kinds now q))"
proof -
  let ?branch = "\<lambda>s. filter (\<lambda>t. tk_state t = s \<and> is_due now t \<and> is_runnable kinds q t \<and> p t) (q_tasks q)"
  have inj: "inj_on tk_id (set (?branch TPending) \<union> set (?branch TRetryWait))"
    using ids_inj [OF assms, of "?branch TPending @ ?branch TRetryWait"] by auto
  have "state_walk kinds p now q = first_by_id (?branch TPending @ ?branch TRetryWait)"
    unfolding state_walk_def Let_def by (rule first_of_firsts [OF inj])
  also have "\<dots> = first_by_id (filter p (due_units kinds now q))"
    using inj by (intro first_by_id_cong) (auto simp: due_units_def is_due_def)
  finally show ?thesis .
qed

lemma set_driven_rows: "set (driven_rows level q) = {t \<in> set (q_tasks q). is_at_level level q t}"
  unfolding driven_rows_def is_at_level_def links_of_batch_def links_of_task_def list_ex_iff
  by (simp add: set_eq_iff) metis

lemma driven_walk_eq:
  assumes "tasks_ok q"
  shows "driven_walk kinds p level now q
    = first_by_id (filter (\<lambda>t. is_at_level level q t \<and> p t) (due_units kinds now q))"
proof -
  have "set (filter (\<lambda>t. is_due now t \<and> is_runnable kinds q t \<and> p t) (driven_rows level q)) \<subseteq> set (q_tasks q)"
    by (auto simp: set_driven_rows)
  from ids_inj [OF assms this] show ?thesis
    unfolding driven_walk_def by (intro first_by_id_cong) (auto simp: set_driven_rows due_units_def)
qed

text \<open>Both paths find the same unit at a level.\<close>

lemma scan_level_eq:
  assumes "tasks_ok q"
  shows "scan_level kinds now q level = prefer_profile (\<lambda>p.
     first_by_id (filter (\<lambda>t. is_at_level level q t \<and> p t) (due_units kinds now q)))"
  by (simp add: scan_level_def state_walk_eq [OF assms] driven_walk_eq [OF assms])

section \<open>Levels\<close>

text \<open>The level of a unit: the highest priority of a running batch that wants it, at least zero.\<close>

definition unit_level :: "queue \<Rightarrow> task \<Rightarrow> int" where
  "unit_level q t = Max (set (0 # map bt_priority (filter (\<lambda>b. bt_state b = BRunning \<and> bt_desired b = DRun
     \<and> list_ex (\<lambda>l. ln_request l = RActive \<and> ln_batch l = bt_id b) (links_of_task (tk_id t) q)) (q_batches q))))"

lemma level_at: "0 < level \<Longrightarrow> is_at_level level q t \<longleftrightarrow> level \<in> set (map bt_priority (filter (\<lambda>b.
     bt_state b = BRunning \<and> bt_desired b = DRun
     \<and> list_ex (\<lambda>l. ln_request l = RActive \<and> ln_batch l = bt_id b) (links_of_task (tk_id t) q)) (q_batches q)))"
  unfolding is_at_level_def is_level_batch_def list_ex_iff set_map set_filter by force

lemma at_level_le: "0 < level \<Longrightarrow> is_at_level level q t \<Longrightarrow> level \<le> unit_level q t"
  unfolding unit_level_def by (rule Max_ge) (simp_all add: level_at)

lemma unit_level_nonneg: "0 \<le> unit_level q t"
  unfolding unit_level_def by (rule Max_ge) simp_all

lemma at_unit_level: "0 < unit_level q t \<Longrightarrow> is_at_level (unit_level q t) q t"
proof -
  assume pos: "0 < unit_level q t"
  have "unit_level q t \<in> set (0 # map bt_priority (filter (\<lambda>b. bt_state b = BRunning \<and> bt_desired b = DRun
     \<and> list_ex (\<lambda>l. ln_request l = RActive \<and> ln_batch l = bt_id b) (links_of_task (tk_id t) q)) (q_batches q)))"
    unfolding unit_level_def by (rule Max_in) simp_all
  with pos show ?thesis by (subst level_at) auto
qed

lemma set_raised_levels: "set (raised_levels q) = {level. 0 < level \<and> list_ex (is_level_batch level) (q_batches q)}"
  by (auto simp: raised_levels_def list_ex_iff is_level_batch_def)

lemma unit_level_raised: "0 < unit_level q t \<Longrightarrow> unit_level q t \<in> set (raised_levels q)"
  using at_unit_level [of q t] by (auto simp: set_raised_levels is_at_level_def list_ex_iff)

lemma raised_levels_sorted: "sorted_wrt (>) (raised_levels q)"
proof -
  let ?xs = "sort (remdups (map bt_priority (filter (\<lambda>b. 0 < bt_priority b
     \<and> bt_state b = BRunning \<and> bt_desired b = DRun) (q_batches q))))"
  have "sorted_wrt (<) ?xs" by (simp add: strict_sorted_iff)
  then show ?thesis by (simp add: raised_levels_def sorted_wrt_rev)
qed

section \<open>The reference\<close>

definition top_level :: "task_kind list \<Rightarrow> int \<Rightarrow> queue \<Rightarrow> int" where
  "top_level kinds now q = Max (set (0 # map (unit_level q) (due_units kinds now q)))"

definition claim_reference :: "task_kind list \<Rightarrow> int \<Rightarrow> queue \<Rightarrow> task option" where
  "claim_reference kinds now q = prefer_profile (\<lambda>p. first_by_id
     (filter (\<lambda>t. unit_level q t = top_level kinds now q \<and> p t) (due_units kinds now q)))"

lemma top_level_ge: "t \<in> set (due_units kinds now q) \<Longrightarrow> unit_level q t \<le> top_level kinds now q"
  unfolding top_level_def by (rule Max_ge) auto

lemma top_level_nonneg: "0 \<le> top_level kinds now q"
  unfolding top_level_def by (rule Max_ge) simp_all

lemma top_level_in:
  "0 < top_level kinds now q \<Longrightarrow> \<exists>t \<in> set (due_units kinds now q). unit_level q t = top_level kinds now q"
proof -
  assume pos: "0 < top_level kinds now q"
  have "top_level kinds now q \<in> set (0 # map (unit_level q) (due_units kinds now q))"
    unfolding top_level_def by (rule Max_in) simp_all
  with pos show ?thesis by auto
qed

lemma prefer_profile_cong: "(\<And>p. f p = g p) \<Longrightarrow> prefer_profile f = prefer_profile g"
proof -
  assume "\<And>p. f p = g p"
  then have "f = g" by (rule ext)
  then show ?thesis by simp
qed

lemma prefer_profile_None: "f (\<lambda>_. True) = None \<Longrightarrow> prefer_profile f = None"
  by (simp add: prefer_profile_def)

lemma prefer_profile_from: "prefer_profile f = Some t \<Longrightarrow> \<exists>p. f p = Some t"
  by (auto simp: prefer_profile_def Let_def opt_or_def split: option.splits if_splits)

lemma first_level_find:
  assumes "sorted_wrt (>) levels" and "best \<in> set levels" and "f best = Some t"
    and "\<And>level. best < level \<Longrightarrow> f level = None"
  shows "first_level f levels = Some t"
  using assms by (induction levels) (auto split: option.split)

lemma first_level_None: "(\<And>level. level \<in> set levels \<Longrightarrow> f level = None) \<Longrightarrow> first_level f levels = None"
  by (induction levels) auto

lemma filter_level_empty:
  assumes "top_level kinds now q < level"
  shows "filter (\<lambda>t. is_at_level level q t \<and> p t) (due_units kinds now q) = []"
proof -
  have "\<not> is_at_level level q t" if "t \<in> set (due_units kinds now q)" for t
    using at_level_le [of level q t] top_level_ge [OF that] top_level_nonneg [of kinds now q] assms by force
  then show ?thesis by (simp add: filter_empty_conv)
qed

lemma filter_top:
  assumes "0 < top_level kinds now q"
  shows "filter (\<lambda>t. is_at_level (top_level kinds now q) q t \<and> p t) (due_units kinds now q)
    = filter (\<lambda>t. unit_level q t = top_level kinds now q \<and> p t) (due_units kinds now q)"
proof (rule filter_cong [OF refl])
  fix t assume t: "t \<in> set (due_units kinds now q)"
  have "is_at_level (top_level kinds now q) q t \<longleftrightarrow> unit_level q t = top_level kinds now q"
  proof
    assume "is_at_level (top_level kinds now q) q t"
    with at_level_le [OF assms] top_level_ge [OF t] show "unit_level q t = top_level kinds now q"
      by (blast intro: antisym)
  next
    assume "unit_level q t = top_level kinds now q"
    with at_unit_level [of q t] assms show "is_at_level (top_level kinds now q) q t" by simp
  qed
  then show "(is_at_level (top_level kinds now q) q t \<and> p t) = (unit_level q t = top_level kinds now q \<and> p t)"
    by simp
qed

lemma prefer_profile_Some: "f (\<lambda>_. True) \<noteq> None \<Longrightarrow> prefer_profile f \<noteq> None"
  by (cases "f (\<lambda>t. tk_kind t = KBibliographyProfile)")
    (auto simp: prefer_profile_def Let_def split: option.split)

lemma claim_candidate_reference:
  assumes "tasks_ok q"
  shows "claim_candidate kinds now q = claim_reference kinds now q"
proof -
  let ?top = "top_level kinds now q"
  have none: "scan_level kinds now q level = None" if "?top < level" for level
    unfolding scan_level_eq [OF assms] filter_level_empty [OF that]
    by (rule prefer_profile_None) simp
  show ?thesis
  proof (cases "0 < ?top")
    case True
    then obtain t where t: "t \<in> set (due_units kinds now q)" "unit_level q t = ?top"
      using top_level_in by blast
    have top: "scan_level kinds now q ?top = claim_reference kinds now q"
      unfolding scan_level_eq [OF assms] filter_top [OF True] claim_reference_def ..
    have "claim_reference kinds now q \<noteq> None"
      unfolding claim_reference_def by (rule prefer_profile_Some) (use t in \<open>auto simp: filter_empty_conv\<close>)
    then obtain u where u: "claim_reference kinds now q = Some u" by auto
    have "first_level (scan_level kinds now q) (raised_levels q) = Some u"
    proof (rule first_level_find)
      show "?top \<in> set (raised_levels q)" using unit_level_raised [of q t] t(2) True by simp
      show "scan_level kinds now q ?top = Some u" by (simp add: top u)
    qed (use raised_levels_sorted none in auto)
    with u show ?thesis by (simp add: claim_candidate_def)
  next
    case False
    then have zero: "?top = 0" using top_level_nonneg [of kinds now q] by simp
    have "first_level (scan_level kinds now q) (raised_levels q) = None"
      by (rule first_level_None) (simp add: none zero set_raised_levels)
    moreover have "unit_level q t = 0" if "t \<in> set (due_units kinds now q)" for t
      using top_level_ge [OF that] unit_level_nonneg [of q t] zero by simp
    then have "filter p (due_units kinds now q)
        = filter (\<lambda>t. unit_level q t = ?top \<and> p t) (due_units kinds now q)" for p
      by (intro filter_cong) (auto simp: zero)
    then have "prefer_profile (\<lambda>p. state_walk kinds p now q) = claim_reference kinds now q"
      unfolding state_walk_eq [OF assms] claim_reference_def by (intro prefer_profile_cong) simp
    ultimately show ?thesis by (simp add: claim_candidate_def)
  qed
qed

lemma claim_reference_due:
  assumes "claim_reference kinds now q = Some t"
  shows "t \<in> set (due_units kinds now q) \<and> unit_level q t = top_level kinds now q"
proof -
  have pick: "t \<in> set (filter (\<lambda>t. unit_level q t = top_level kinds now q \<and> p t) (due_units kinds now q))"
    if "first_by_id (filter (\<lambda>t. unit_level q t = top_level kinds now q \<and> p t) (due_units kinds now q)) = Some t"
    for p using first_by_id_SomeD [OF that] by blast
  from assms obtain p where
    "first_by_id (filter (\<lambda>t. unit_level q t = top_level kinds now q \<and> p t) (due_units kinds now q)) = Some t"
    unfolding claim_reference_def using prefer_profile_from by blast
  from pick [OF this] show ?thesis by simp
qed

lemma claim_candidate_due:
  assumes "tasks_ok q" and "claim_candidate kinds now q = Some t"
  shows "t \<in> set (q_tasks q) \<and> is_due now t \<and> is_runnable kinds q t"
  using assms claim_reference_due [of kinds now q t] claim_candidate_reference [OF assms(1)]
  by (auto simp: due_units_def)

end
