(* ===== verification/QueueMachine.thy ===== *)
theory QueueMachine
  imports QueueReach QueueOrder QueueRun
begin

text \<open>
  The queue as a machine: the claim with its lease, the end of a unit, the pass of the scheduler and
  the recovery of a session keep the invariant.

  A worker holds its claim while other operations run, so the end of a unit is a step of its own. It
  takes any claim whose attempt row is in the tables; no operation deletes one.
\<close>

section \<open>The lease\<close>

lemma pin_input_row:
  assumes "tasks_ok q" and "t \<in> set (q_tasks q)"
  shows "t\<lparr>tk_revision := revision, tk_fingerprint := fingerprint\<rparr>
    \<in> set (q_tasks (pin_input (tk_id t) revision fingerprint q))"
proof -
  let ?f = "\<lambda>u. u\<lparr>tk_revision := revision, tk_fingerprint := fingerprint\<rparr>"
  have "pin_input (tk_id t) revision fingerprint q = map_tasks (\<lambda>u. tk_id u = tk_id t) ?f q"
    unfolding pin_input_def using assms(1) by (intro update_tasks_quiet) (auto simp: tasks_ok_def)
  with assms(2) show ?thesis by (force simp: map_tasks_def update_where_def)
qed

text \<open>What a lease of a waiting unit writes, up to the key of its attempt row.\<close>

definition claim_of :: "task \<Rightarrow> int \<Rightarrow> str \<Rightarrow> claimed_task" where
  "claim_of t revision fingerprint = \<lparr>cl_task = tk_id t, cl_kind = tk_kind t, cl_asset = tk_asset t,
     cl_domain = tk_domain t, cl_subject_kind = tk_subject_kind t, cl_subject = tk_subject t,
     cl_revision = revision, cl_fingerprint = fingerprint, cl_contract = tk_contract t,
     cl_epoch = tk_epoch t + 1, cl_attempt = tk_attempts t + 1\<rparr>"

lemma take_lease_step:
  assumes "queue_ok q" and t: "t \<in> set (q_tasks q)" "tk_state t \<in> {TPending, TRetryWait}"
  obtains t1 q1 where "t1 = t\<lparr>tk_revision := revision, tk_fingerprint := fingerprint\<rparr>"
    and "q1 = pin_input (tk_id t) revision fingerprint q" and "t1 \<in> set (q_tasks q1)" and "queue_ok q1"
    and "take_lease session now t revision fingerprint q
      = map_sum id (\<lambda>q3. (Some (claim_of t revision fingerprint), q3))
          (insert_attempt (open_attempt (tk_id t) (tk_attempts t + 1) (tk_epoch t + 1))
            (q1\<lparr>q_tasks := map (\<lambda>u. if u = t1 then lease_task session now u else u) (q_tasks q1)\<rparr>))"
proof -
  define t1 where "t1 = t\<lparr>tk_revision := revision, tk_fingerprint := fingerprint\<rparr>"
  define q1 where "q1 = pin_input (tk_id t) revision fingerprint q"
  let ?row = "is_claimed_row (tk_id t) (tk_epoch t)"
  define q2 where "q2 = update_tasks ?row (lease_task session now) q1"
  have ok1: "queue_ok q1" unfolding q1_def using assms(1) pin_input_moves by (rule queue_ok_keeps)
  have mem: "t1 \<in> set (q_tasks q1)"
    unfolding t1_def q1_def using assms(1) t(1) by (intro pin_input_row) (simp add: queue_ok_def)
  have t1: "tk_id t1 = tk_id t" "tk_epoch t1 = tk_epoch t" "tk_state t1 = tk_state t"
      "tk_attempts t1 = tk_attempts t" by (simp_all add: t1_def)
  have q2: "q2 = q1\<lparr>q_tasks := map (\<lambda>u. if u = t1 then lease_task session now u else u) (q_tasks q1)\<rparr>"
    using lease_step [OF ok1 mem] t(2) by (simp add: q2_def t1)
  have ok2: "tasks_ok q2"
    using lease_ok [OF ok1 mem _ q2] t(2) by (simp add: t1 queue_ok_def tasks_ok_def)
  have "lease_task session now t1 \<in> set (q_tasks q2)" using mem by (force simp: q2)
  from find_task_unique [OF ok2 this] have found: "find_task (tk_id t) q2 = Some (lease_task session now t1)"
    by (simp add: lease_task_def t1)
  have some: "matching_ids ?row q1 \<noteq> []"
    using t(2) by (auto simp: matching_ids_def filter_empty_conv is_claimed_row_def t1 intro: bexI [OF _ mem])
  have n: "tk_attempts (lease_task session now t1) = tk_attempts t + 1" by (simp add: lease_task_def t1)
  have "take_lease session now t revision fingerprint q
      = map_sum id (\<lambda>q3. (Some (claim_of t revision fingerprint), q3))
          (insert_attempt (open_attempt (tk_id t) (tk_attempts t + 1) (tk_epoch t + 1)) q2)"
    unfolding take_lease_def Let_def q1_def [symmetric] q2_def [symmetric]
    using some found n by (simp add: claim_of_def)
  then show thesis unfolding q2 by (rule that [OF t1_def q1_def mem ok1])
qed

lemma take_lease_value:
  assumes "queue_ok q" and t: "t \<in> set (q_tasks q)" "tk_state t \<in> {TPending, TRetryWait}"
    and "take_lease session now t revision fingerprint q = Inr (c, r)"
  obtains t1 q1 where "t1 = t\<lparr>tk_revision := revision, tk_fingerprint := fingerprint\<rparr>"
    and "q1 = pin_input (tk_id t) revision fingerprint q" and "t1 \<in> set (q_tasks q1)" and "queue_ok q1"
    and "r = q1\<lparr>q_tasks := map (\<lambda>u. if u = t1 then lease_task session now u else u) (q_tasks q1),
           q_attempts := q_attempts q1 @ [open_attempt (tk_id t) (tk_attempts t + 1) (tk_epoch t + 1)]\<rparr>"
    and "c = Some (claim_of t revision fingerprint)"
proof (rule take_lease_step [OF assms(1) t])
  fix t1 q1
  assume step: "t1 = t\<lparr>tk_revision := revision, tk_fingerprint := fingerprint\<rparr>"
      "q1 = pin_input (tk_id t) revision fingerprint q" "t1 \<in> set (q_tasks q1)" "queue_ok q1"
    and lease: "take_lease session now t revision fingerprint q
      = map_sum id (\<lambda>q3. (Some (claim_of t revision fingerprint), q3))
          (insert_attempt (open_attempt (tk_id t) (tk_attempts t + 1) (tk_epoch t + 1))
            (q1\<lparr>q_tasks := map (\<lambda>u. if u = t1 then lease_task session now u else u) (q_tasks q1)\<rparr>))"
  from assms(4) show thesis
    unfolding lease by (intro that [OF step]) (auto simp: map_sum_Inr_iff insert_attempt_def split: if_splits)
qed

text \<open>The number of the new attempt is not taken, so a waiting unit is always leased.\<close>

lemma take_lease_succeeds:
  assumes "queue_ok q" and t: "t \<in> set (q_tasks q)" "tk_state t \<in> {TPending, TRetryWait}"
  shows "\<exists>c r. take_lease session now t revision fingerprint q = Inr (Some c, r)"
proof (rule take_lease_step [OF assms, where revision = revision and fingerprint = fingerprint and session = session and now = now])
  fix t1 q1
  assume t1: "t1 = t\<lparr>tk_revision := revision, tk_fingerprint := fingerprint\<rparr>" "t1 \<in> set (q_tasks q1)"
    and ok: "queue_ok q1"
    and lease: "take_lease session now t revision fingerprint q
      = map_sum id (\<lambda>q3. (Some (claim_of t revision fingerprint), q3))
          (insert_attempt (open_attempt (tk_id t) (tk_attempts t + 1) (tk_epoch t + 1))
            (q1\<lparr>q_tasks := map (\<lambda>u. if u = t1 then lease_task session now u else u) (q_tasks q1)\<rparr>))"
  have "at_number x \<le> tk_attempts t" if "x \<in> set (q_attempts q1)" "at_task x = tk_id t" for x
  proof -
    from ok that(1) obtain u where u: "u \<in> set (q_tasks q1)" "tk_id u = at_task x" "at_number x \<le> tk_attempts u"
      by (auto simp: queue_ok_def attempts_ok_but_def list_all_iff attempt_ok_def)
    have "u = t1" using task_unique [of q1 u t1] ok u(1,2) t1 that(2) by (simp add: queue_ok_def)
    with u(3) t1(1) show ?thesis by simp
  qed
  then have "\<not> list_ex (\<lambda>y. at_task y = tk_id t \<and> at_number y = tk_attempts t + 1) (q_attempts q1)"
    by (fastforce simp: list_ex_iff)
  then show ?thesis by (simp add: lease insert_attempt_def open_attempt_def)
qed

lemma take_lease_ok:
  assumes "queue_ok q" and t: "t \<in> set (q_tasks q)" "tk_state t \<in> {TPending, TRetryWait}"
    and "take_lease session now t revision fingerprint q = Inr (c, r)"
  shows "queue_ok r"
proof (rule take_lease_value [OF assms])
  fix t1 q1
  assume t1: "t1 = t\<lparr>tk_revision := revision, tk_fingerprint := fingerprint\<rparr>" "t1 \<in> set (q_tasks q1)"
    and ok: "queue_ok q1"
    and r: "r = q1\<lparr>q_tasks := map (\<lambda>u. if u = t1 then lease_task session now u else u) (q_tasks q1),
           q_attempts := q_attempts q1 @ [open_attempt (tk_id t) (tk_attempts t + 1) (tk_epoch t + 1)]\<rparr>"
  have t1': "tk_id t1 = tk_id t" "tk_epoch t1 = tk_epoch t" "tk_state t1 = tk_state t"
      "tk_attempts t1 = tk_attempts t" by (simp_all add: t1(1))
  with t(2) have "tk_state t1 \<in> {TPending, TRetryWait}" by simp
  from lease_ok [OF ok t1(2) this refl, of session now] show ?thesis unfolding r t1' by simp
qed

section \<open>The claim\<close>

lemma validate_settled_moves:
  assumes "tasks_ok q" and t: "t \<in> set (q_tasks q)" "tk_state t \<in> {TPending, TRetryWait}"
    and "validate_claim_input e a t q = Settled r"
  shows "moves {} q r"
proof -
  have "tk_state u \<noteq> TRunning \<and> is_live u" if "u \<in> set (q_tasks q)" "tk_id u = tk_id t" for u
    using task_unique [OF assms(1) that(1) t(1) that(2)] t(2) by (auto simp: row_simps)
  then have "moves {} q (mark_skipped (tk_id t) outcome q)"
      "moves {} q (mark_blocked (tk_id t) outcome message q)" for outcome message
    by (auto intro: mark_skipped_moves mark_blocked_moves)
  with assms(4) show ?thesis
    by (auto simp: validate_claim_input_def validate_corpus_claim_input_def validate_item_claim_input_def
        validate_attachment_claim_input_def validate_library_claim_input_def validate_ocr_def
        validate_correction_def validate_extraction_def validate_embedding_def skip_def Let_def
        split: domain.splits subject_kind.splits task_kind.splits if_splits option.splits
          ocr_decision.splits correction_decision.splits extraction_decision.splits
          embedding_decision.splits prod.splits)
qed

lemma due_waits: "is_due now t \<Longrightarrow> tk_state t \<in> {TPending, TRetryWait}"
  by (auto simp: is_due_def)

lemma claim_next_cases:
  assumes "queue_ok q" and "claim_next e a session kinds now q = Inr (c, r)"
  obtains "c = None" and "moves {} q r"
  | t revision fingerprint where "claim_candidate kinds now q = Some t" and "t \<in> set (q_tasks q)"
      and "tk_state t \<in> {TPending, TRetryWait}" and "is_due now t" and "is_runnable kinds q t"
      and "take_lease session now t revision fingerprint q = Inr (c, r)"
proof (cases "kinds = [] \<or> claim_candidate kinds now q = None")
  case True
  with assms(2) have "c = None" "r = q" by (auto simp: claim_next_def split: if_splits)
  then show thesis using that(1) by simp
next
  case False
  then obtain t where t: "claim_candidate kinds now q = Some t" by blast
  have ok: "tasks_ok q" using assms(1) by (simp add: queue_ok_def)
  from claim_candidate_due [OF ok t] have due: "t \<in> set (q_tasks q)" "is_due now t" "is_runnable kinds q t"
    by blast+
  note waits = due_waits [OF due(2)]
  show thesis
  proof (cases "validate_claim_input e a t q")
    case (Pinned revision fingerprint)
    with assms(2) False t have "take_lease session now t revision fingerprint q = Inr (c, r)"
      by (auto simp: claim_next_def split: if_splits)
    with t due waits show thesis using that(2) by blast
  next
    case (Settled q1)
    with assms(2) False t have "c = None" "r = q1" by (auto simp: claim_next_def split: if_splits)
    with validate_settled_moves [OF ok due(1) waits Settled] show thesis using that(1) by simp
  qed (use assms(2) False t in \<open>auto simp: claim_next_def split: if_splits\<close>)
qed

lemma claim_next_ok:
  assumes "queue_ok q" and "claim_next e a session kinds now q = Inr (c, r)"
  shows "queue_ok r"
  using assms(1) by (rule claim_next_cases [OF _ assms(2)])
    (use assms(1) queue_ok_keeps take_lease_ok in blast)+

lemma claim_has_attempt:
  assumes "queue_ok q" and "claim_next e a session kinds now q = Inr (Some c, r)"
  shows "has_attempt (cl_task c) (cl_epoch c) (cl_attempt c) r"
  using assms(1)
proof (rule claim_next_cases [OF _ assms(2)])
  fix t revision fingerprint
  assume t: "t \<in> set (q_tasks q)" "tk_state t \<in> {TPending, TRetryWait}"
    and lease: "take_lease session now t revision fingerprint q = Inr (Some c, r)"
  from assms(1) t lease show ?thesis
    by (rule take_lease_value) (auto simp: has_attempt_def open_attempt_def claim_of_def)
qed simp

section \<open>One unit\<close>

lemma finalize_batches_moves: "finalize_batches bids q = Inr r \<Longrightarrow> moves {} q r"
proof (induction bids arbitrary: q)
  case (Cons bid rest)
  then obtain b q1 where q1: "maybe_finalize_batch bid q = Inr (b, q1)" "finalize_batches rest q1 = Inr r"
    by (auto simp: try_then_Inr_iff)
  from maybe_finalize_moves [OF q1(1)] Cons.IH [OF q1(2)] show ?case by (rule moves_trans)
qed simp

definition db_ok :: "db \<Rightarrow> bool" where
  "db_ok db \<longleftrightarrow> queue_ok (snd db)"

lemma run_step_ok:
  assumes "db_ok db" and "\<And>q. r = Inr q \<Longrightarrow> queue_ok q" and "\<And>db1. db_ok db1 \<Longrightarrow> db_ok (snd (k db1))"
  shows "db_ok (snd (run_step r db k))"
  using assms by (auto simp: run_step_def db_ok_def split: sum.split)

lemma finish_with_ok:
  assumes "db_ok db"
  shows "db_ok (snd (finish_with tid outcome db))"
  unfolding finish_with_def finalize_links_def
  using assms by (rule run_step_ok)
    (use assms in \<open>auto simp: db_ok_def intro: queue_ok_keeps [OF _ finalize_batches_moves]\<close>)

text \<open>The publishers keep the invariant: they write canonical rows.\<close>

definition publishes_ok :: "(claimed_task \<Rightarrow> 'o \<Rightarrow> db \<Rightarrow> queue_error + db) \<Rightarrow> bool" where
  "publishes_ok publish \<longleftrightarrow> (\<forall>c x db db1. db_ok db \<longrightarrow> publish c x db = Inr db1 \<longrightarrow> db_ok db1)"

lemma commit_success_ok:
  assumes "db_ok db" and "\<And>db1. publish db = Inr db1 \<Longrightarrow> db_ok db1"
    and "commit_success_with e tid epoch kind outcome receipt publish db = Inr db2"
  shows "db_ok db2"
  using assms(2,3) by (auto simp: commit_success_with_def try_then_Inr_iff db_ok_def settle_success_ok
      split: option.splits if_splits)

lemma publishes_okD: "publishes_ok publish \<Longrightarrow> db_ok db \<Longrightarrow> publish c x db = Inr db1 \<Longrightarrow> db_ok db1"
  unfolding publishes_ok_def by blast

lemma publish_output_ok:
  "publishes_ok publish \<Longrightarrow> db_ok db \<Longrightarrow> publish_engine_output publish c output db = Inr db1 \<Longrightarrow> db_ok db1"
  by (auto simp: publish_engine_output_def intro: publishes_okD split: if_splits)

lemma settle_failure_ok:
  assumes "db_ok db" and "has_attempt (cl_task c) (cl_epoch c) (cl_attempt c) (snd db)"
  shows "db_ok (snd (settle_failure bytes c code message retryable now db))"
proof (cases "fail_attempt bytes (cl_task c) (cl_epoch c) (cl_attempt c) code message retryable None now (snd db)")
  case (Inr r)
  obtain out q where r: "r = (out, q)" by (cases r)
  from assms have "queue_ok q"
    unfolding db_ok_def by (rule fail_attempt_ok) (use Inr r in simp)
  then have "db_ok (fst db, q)" by (simp add: db_ok_def)
  from finish_with_ok [OF this] show ?thesis by (simp add: settle_failure_def Inr r)
qed (use assms in \<open>simp add: settle_failure_def\<close>)

lemma settle_commit_ok:
  assumes "db_ok db" and "has_attempt (cl_task c) (cl_epoch c) (cl_attempt c) (snd db)"
    and "\<And>db1. committed = Inr db1 \<Longrightarrow> db_ok db1"
  shows "db_ok (snd (settle_commit bytes wording c committed now db))"
proof (cases committed)
  case (Inl err)
  have q: "queue_ok (snd db)" using assms(1) by (simp add: db_ok_def)
  have fail: "db_ok (snd (settle_failure bytes c publish_failed (wording err) True now db))"
    using assms(1,2) by (rule settle_failure_ok)
  have interrupted: "db_ok (snd (run_step (interrupt_task (cl_task c) (cl_epoch c) (snd db)) db (\<lambda>db1. (x, db1))))"
    for x :: "queue_error + run_outcome"
    using assms(1) by (rule run_step_ok) (use q interrupt_task_ok in auto)
  have blocked: "db_ok (snd (run_step (block_running_task (cl_task c) (cl_epoch c) outcome m (snd db)) db (\<lambda>db1. (x, db1))))"
    for x :: "queue_error + run_outcome" and outcome m
    using assms(1) by (rule run_step_ok) (use q block_running_task_ok in auto)
  have changed: "queue_ok q1"
    if "record_source_change (cl_task c) (cl_epoch c) m (snd db) = Inr (out, q1)" for m out q1
    using q that by (rule record_source_change_ok)
  have "db_ok (snd (settle_commit bytes wording c (Inl SourceChanged) now db))"
    using assms(1) changed
    by (auto simp: settle_commit_def Let_def db_ok_def split: sum.split source_change.split
        intro!: finish_with_ok [unfolded db_ok_def])
  with Inl fail interrupted blocked assms(1) show ?thesis
    by (cases err) (simp_all add: settle_commit_def Let_def)
qed (use assms(3) in \<open>simp add: settle_commit_def Let_def finish_with_ok\<close>)

lemma settle_verdict_ok:
  assumes "publishes_ok publish" and "db_ok db"
    and "has_attempt (cl_task c) (cl_epoch c) (cl_attempt c) (snd db)"
  shows "db_ok (snd (settle_verdict e publish bytes wording c result now db))"
proof -
  have q: "queue_ok (snd db)" using assms(2) by (simp add: db_ok_def)
  have commit: "db_ok (snd (settle_commit bytes wording c (commit_success_with e (cl_task c) (cl_epoch c)
      (cl_kind c) outcome receipt (publish_engine_output publish c out) db) now db))" for outcome receipt out
    using assms(2,3) by (rule settle_commit_ok)
      (erule commit_success_ok [OF assms(2), rotated], rule publish_output_ok [OF assms(1,2)])
  show ?thesis
    unfolding settle_verdict_def Let_def
    by (cases "xr_verdict result")
      (auto simp: commit settle_failure_ok [OF assms(2,3)] split: option.split
        intro!: run_step_ok [OF assms(2)] finish_with_ok
        intro: requeue_task_ok [OF q] block_running_task_ok [OF q] defer_task_ok [OF q] interrupt_task_ok [OF q])
qed

text \<open>Rows of attempts stay.\<close>

lemma closes_has_attempt:
  assumes "list_all2 closes xs ys"
    and "list_ex (\<lambda>x. at_task x = tid \<and> at_epoch x = epoch \<and> at_number x = number) xs"
  shows "list_ex (\<lambda>x. at_task x = tid \<and> at_epoch x = epoch \<and> at_number x = number) ys"
  using assms by (induction rule: list_all2_induct) (auto simp: closes_def)

lemma moves_has_attempt:
  "moves ids q r \<Longrightarrow> tasks_ok q \<Longrightarrow> has_attempt tid epoch number q \<Longrightarrow> has_attempt tid epoch number r"
  unfolding has_attempt_def by (rule closes_has_attempt) (auto simp: moves_def undisturbed_def)

lemma save_checkpoints_moves: "save_checkpoints tid epoch cs now q = (res, r) \<Longrightarrow> moves {} q r"
proof (induction cs arbitrary: q)
  case (Cons c cs)
  then show ?case
    by (auto split: sum.splits intro: moves_trans [OF save_checkpoint_moves])
qed simp

lemma finish_unit_ok:
  assumes "publishes_ok publish" and "db_ok db"
    and "has_attempt (cl_task c) (cl_epoch c) (cl_attempt c) (snd db)"
  shows "db_ok (snd (finish_unit e publish bytes wording c engine now db))"
proof -
  define result where "result = (case engine of Some r \<Rightarrow> r | None \<Rightarrow> panicked)"
  define total where "total = (case xr_progress result of
      None \<Rightarrow> Inr (snd db) | Some units \<Rightarrow> set_progress_total (cl_task c) (cl_epoch c) units (snd db))"
  have q: "queue_ok (snd db)" using assms(2) by (simp add: db_ok_def)
  show ?thesis
  proof (cases total)
    case (Inr q1)
    then have "moves {} (snd db) q1"
      by (auto simp: total_def set_progress_total_moves split: option.splits)
    moreover obtain res q2 where saved: "save_checkpoints (cl_task c) (cl_epoch c) (xr_checkpoints result) now q1 = (res, q2)"
      by fastforce
    ultimately have m: "moves {} (snd db) q2" using save_checkpoints_moves moves_trans by blast
    have q2: "queue_ok q2" using q m by (rule queue_ok_keeps)
    have held: "has_attempt (cl_task c) (cl_epoch c) (cl_attempt c) q2"
      using moves_has_attempt [OF m _ assms(3)] q by (simp add: queue_ok_def)
    have db2: "db_ok (fst db, q2)" using q2 by (simp add: db_ok_def)
    have stop: "db_ok (snd (run_step (interrupt_task (cl_task c) (cl_epoch c) q2) (fst db, q2) (\<lambda>db1. (x, db1))))"
      for x :: "queue_error + run_outcome"
      using db2 by (rule run_step_ok) (use q2 interrupt_task_ok in auto)
    have verdict: "db_ok (snd (settle_verdict e publish bytes wording c result now (fst db, q2)))"
      using assms(1) db2 by (rule settle_verdict_ok) (simp add: held)
    show ?thesis
      unfolding finish_unit_def Let_def result_def [symmetric] total_def [symmetric]
      by (auto simp: Inr saved db2 stop verdict split: option.split queue_error.split)
  qed (use assms(2) in \<open>simp add: finish_unit_def Let_def result_def [symmetric] total_def [symmetric]\<close>)
qed

lemma begin_unit_ok:
  assumes "db_ok db" and "begin_unit e session kinds now db = (out, db1)"
  shows "db_ok db1 \<and> (\<forall>c. out = Inr c \<longrightarrow> has_attempt (cl_task c) (cl_epoch c) (cl_attempt c) (snd db1))"
proof (cases "claim_next e (fst db) session kinds now (snd db)")
  case (Inl err)
  with assms show ?thesis by (auto simp: begin_unit_def)
next
  case (Inr r)
  obtain claim q where r: "r = (claim, q)" by (cases r)
  have ok: "queue_ok (snd db)" using assms(1) by (simp add: db_ok_def)
  from claim_next_ok [OF ok] Inr r have q: "queue_ok q" by blast
  show ?thesis
  proof (cases claim)
    case None
    with assms(2) Inr r q show ?thesis by (auto simp: begin_unit_def db_ok_def)
  next
    case (Some c)
    from claim_has_attempt [OF ok] Inr r Some
    have "has_attempt (cl_task c) (cl_epoch c) (cl_attempt c) q" by blast
    with assms(2) Inr r Some q show ?thesis
      by (auto simp: begin_unit_def db_ok_def Let_def split: if_splits sum.splits
          intro: requeue_task_ok interrupt_task_ok)
  qed
qed

text \<open>What runs beside the engine keeps the invariant and the attempt of the unit.\<close>

definition undisturbing :: "(db \<Rightarrow> db) \<Rightarrow> bool" where
  "undisturbing meanwhile \<longleftrightarrow> (\<forall>db tid epoch number. db_ok db \<longrightarrow> has_attempt tid epoch number (snd db) \<longrightarrow>
     db_ok (meanwhile db) \<and> has_attempt tid epoch number (snd (meanwhile db)))"

lemma run_one_ok:
  assumes "publishes_ok publish" and "undisturbing meanwhile" and "db_ok db"
  shows "db_ok (snd (run_one e publish bytes wording engine meanwhile session kinds now db))"
proof -
  obtain out db1 where db1: "begin_unit e session kinds now db = (out, db1)"
    by (cases "begin_unit e session kinds now db")
  note start = begin_unit_ok [OF assms(3) db1]
  show ?thesis
  proof (cases out)
    case (Inl outcome)
    with start show ?thesis by (simp add: run_one_def db1)
  next
    case (Inr c)
    with start assms(2) have "db_ok (meanwhile db1)"
        "has_attempt (cl_task c) (cl_epoch c) (cl_attempt c) (snd (meanwhile db1))"
      unfolding undisturbing_def by blast+
    from finish_unit_ok [OF assms(1) this] show ?thesis by (simp add: run_one_def db1 Inr)
  qed
qed

section \<open>One tick\<close>

lemma plan_batches_ok:
  assumes "\<And>bid q b r. queue_ok q \<Longrightarrow> f bid q = Inr (b, r) \<Longrightarrow> queue_ok r"
  shows "queue_ok q \<Longrightarrow> plan_batches f bids q = (res, r) \<Longrightarrow> queue_ok r"
proof (induction bids arbitrary: q)
  case (Cons bid rest)
  then show ?case using assms [OF Cons.prems(1)] by (auto split: sum.splits)
qed simp

lemma after_unit_ok:
  assumes "db_ok db"
  shows "db_ok (snd (after_unit db outcome))"
proof -
  have q: "queue_ok (cancel_orphaned_tasks (snd db))"
    using assms cancel_orphaned_moves unfolding db_ok_def by (rule queue_ok_keeps)
  show ?thesis
    unfolding after_unit_def Let_def
    by (rule run_step_ok) (use q queue_ok_keeps [OF q finalize_batches_moves] in \<open>auto simp: db_ok_def\<close>)
qed

lemma scheduler_tick_ok:
  assumes "publishes_ok publish" and "undisturbing meanwhile" and "db_ok db"
  shows "db_ok (snd (scheduler_tick e publish bytes wording fresh engine meanwhile session kinds now db))"
proof -
  have planned: "queue_ok r" if "queue_ok q"
    "plan_batches (\<lambda>bid. advance_planning e a (fresh bid) now bid 1 200) bids q = (res, r)" for a bids q res r
    using that by (rule plan_batches_ok [rotated]) (rule advance_planning_ok)
  have quiet: "queue_ok (heartbeat_owned session now (apply_priority_aging now (promote_ready_batches q)))"
    if "queue_ok q" for q
    by (rule queue_ok_keeps [OF queue_ok_keeps [OF queue_ok_keeps [OF that]]])
      (rule promote_moves apply_priority_aging_moves heartbeat_owned_moves)+
  have ran: "db_ok db4" if "db_ok db3"
    "run_one e publish bytes wording engine meanwhile session kinds now db3 = (out, db4)" for db3 db4 out
    using run_one_ok [OF assms(1,2) that(1), of e bytes wording engine session kinds now] that(2) by simp
  show ?thesis
    unfolding scheduler_tick_def
  proof (rule run_step_ok [OF assms(3)])
    fix q assume "reconcile_contracts e (fst db) (snd db) = Inr q"
    from assms(3) reconcile_contracts_moves [OF this] show "queue_ok q"
      unfolding db_ok_def by (rule queue_ok_keeps)
  next
    fix db1 assume db1: "db_ok db1"
    obtain a q1 where aq: "db1 = (a, q1)" by (cases db1)
    obtain res q2 where plan: "plan_batches (\<lambda>bid. advance_planning e a (fresh bid) now bid 1 200)
        (planning_batches q1) q1 = (res, q2)"
      by (rule prod.exhaust)
    let ?q3 = "heartbeat_owned session now (apply_priority_aging now (promote_ready_batches q2))"
    obtain out db4 where run:
        "run_one e publish bytes wording engine meanwhile session kinds now (a, ?q3) = (out, db4)"
      by (rule prod.exhaust)
    have q1: "queue_ok q1" using db1 by (simp add: aq db_ok_def)
    note q2 = planned [OF q1 plan]
    have "db_ok (a, ?q3)" using quiet [OF q2] by (simp add: db_ok_def)
    from ran [OF this run] have "db_ok db4" .
    moreover have "db_ok (a, q2)" using q2 by (simp add: db_ok_def)
    ultimately show "db_ok (snd (case db1 of (a, q1) \<Rightarrow>
       case plan_batches (\<lambda>bid. advance_planning e a (fresh bid) now bid 1 200) (planning_batches q1) q1 of
         (None, q2) \<Rightarrow>
           let q3 = heartbeat_owned session now (apply_priority_aging now (promote_ready_batches q2)) in
           (case run_one e publish bytes wording engine meanwhile session kinds now (a, q3) of
              (Inl err, db4) \<Rightarrow> (Inl err, db4)
            | (Inr outcome, db4) \<Rightarrow> after_unit db4 outcome)
       | (Some err, q2) \<Rightarrow> (Inl err, (a, q2))))"
      unfolding aq prod.case plan
      by (simp add: run after_unit_ok Let_def split: option.split sum.split)
  qed
qed

section \<open>Recovery\<close>

lemma queue_ok_close_all:
  assumes "queue_ok_but UNIV q" and "\<And>x. p x \<Longrightarrow> closes x (f x) \<and> at_outcome (f x) \<noteq> AOpen"
    and "\<And>x. x \<in> set (q_attempts q) \<Longrightarrow> at_outcome x = AOpen \<Longrightarrow> p x"
  shows "queue_ok (map_attempts p f q)"
proof -
  let ?r = "map_attempts p f q"
  have "moves UNIV q ?r" by (rule moves_map_attempts) (simp add: assms(2))
  with assms(1) have r: "queue_ok_but UNIV ?r" by (rule queue_ok_moves)
  have "at_outcome y \<noteq> AOpen" if "y \<in> set (q_attempts ?r)" for y
    using that assms(2,3) by (auto simp: map_attempts_def update_where_def)
  with r show ?thesis by (auto simp: queue_ok_but_def queue_ok_def attempts_ok_but_def)
qed

lemma interrupt_dead_units_rows:
  assumes "tasks_ok q"
  shows "q_tasks (interrupt_dead_units q) = update_where (\<lambda>t. tk_state t = TRunning)
    (\<lambda>t. t\<lparr>tk_state := TInterrupted, tk_owner := None, tk_epoch := tk_epoch t + 1\<rparr>) (q_tasks q)"
  using update_tasks_quiet [of q "\<lambda>t. tk_state t = TRunning"
      "\<lambda>t. t\<lparr>tk_state := TInterrupted, tk_owner := None, tk_epoch := tk_epoch t + 1\<rparr>"] assms
  by (simp add: interrupt_dead_units_def Let_def tasks_ok_def is_quiet_def map_tasks_def)

lemma interrupt_dead_units_ok:
  assumes "queue_ok q"
  shows "queue_ok (interrupt_dead_units q)"
proof -
  let ?p = "\<lambda>t. tk_state t = TRunning"
  let ?f = "\<lambda>t. t\<lparr>tk_state := TInterrupted, tk_owner := None, tk_epoch := tk_epoch t + 1\<rparr>"
  let ?q1 = "update_tasks ?p ?f q"
  have ok: "distinct (map tk_id (q_tasks q))" using assms by (simp add: queue_ok_def tasks_ok_def)
  have q1: "?q1 = map_tasks ?p ?f q" using ok by (intro update_tasks_quiet) (simp_all add: is_quiet_def)
  have "moves UNIV q ?q1" by (rule moves_update_quiet) (auto simp: row_simps is_quiet_def calm_def)
  moreover have "queue_ok_but UNIV q"
    using assms by (auto simp: queue_ok_but_def queue_ok_def intro: attempts_ok_mono)
  ultimately have but: "queue_ok_but UNIV ?q1" using queue_ok_moves by blast
  have opens: "\<exists>t \<in> set (q_tasks ?q1). tk_id t = at_task x \<and> tk_state t = TInterrupted"
    if "x \<in> set (q_attempts ?q1)" "at_outcome x = AOpen" for x
  proof -
    have "x \<in> set (q_attempts q)" using that(1) by (simp add: q1)
    with that(2) assms obtain t where "t \<in> set (q_tasks q)" "is_attempt_of t x"
      by (auto simp: queue_ok_def attempts_ok_but_def)
    then have "?f t \<in> set (q_tasks ?q1)" "tk_id t = at_task x"
      by (force simp: q1 map_tasks_def update_where_def is_attempt_of_def)+
    then show ?thesis by (auto intro: bexI [of _ "?f t"])
  qed
  show ?thesis
    unfolding interrupt_dead_units_def Let_def
    by (rule queue_ok_close_all [OF but]) (use opens in \<open>auto simp: closes_def\<close>)
qed

lemma recovery_batches_moves:
  "moves {} q (interrupt_user_batches q)" "moves {} q (heal_system_batches q)" "moves {} q (pause_user_batches q)"
  unfolding interrupt_user_batches_def heal_system_batches_def pause_user_batches_def
  by (rule moves_map_batches, simp add: batch_key_def)+

lemma finish_cancellation_moves: "moves {} q (finish_cancellation bid q)"
proof -
  have "moves {} q (map_links (\<lambda>l. ln_batch l = bid) (\<lambda>l. l\<lparr>ln_request := RCancelled\<rparr>) q)"
    by (rule moves_map_links) (simp add: link_key_def)
  from moves_trans [OF this cancel_orphaned_moves] show ?thesis
    by (simp add: finish_cancellation_def Let_def set_batch_state_moves moves_trans)
qed

text \<open>Everything the recovery does after the interruption.\<close>

lemma recover_session_moves: "moves {} (interrupt_dead_units q) (recover_session emb ner q)"
proof -
  let ?i = "interrupt_dead_units q"
  let ?s = "settle_blocked_dependents ?i"
  let ?e = "resume_embedding_configuration_blocked emb ?s"
  let ?n = "resume_ner_configuration_blocked ner ?e"
  let ?r = "requeue_interrupted_system_tasks None ?n"
  let ?b = "pause_user_batches (heal_system_batches (interrupt_user_batches ?r))"
  have "moves {} ?i ?s" by (rule settle_blocked_moves)
  also have "moves {} ?s ?e" by (rule resume_configuration_moves)
  also have "moves {} ?e ?n" by (rule resume_configuration_moves)
  also have "moves {} ?n ?r" by (rule requeue_system_moves)
  also have "moves {} ?r (interrupt_user_batches ?r)" by (rule recovery_batches_moves)
  also have "moves {} (interrupt_user_batches ?r) (heal_system_batches (interrupt_user_batches ?r))"
    by (rule recovery_batches_moves)
  also have "moves {} (heal_system_batches (interrupt_user_batches ?r)) ?b" by (rule recovery_batches_moves)
  also have "moves {} ?b (recover_session emb ner q)"
    unfolding recover_session_def Let_def by (rule moves_fold) (rule finish_cancellation_moves)
  finally show ?thesis .
qed

lemma recover_session_ok: "queue_ok q \<Longrightarrow> queue_ok (recover_session emb ner q)"
  by (rule queue_ok_keeps [OF interrupt_dead_units_ok recover_session_moves])

end
