(* ===== verification/QueueReachable.thy ===== *)
theory QueueReachable
  imports QueueMachine
begin

text \<open>
  The user's commands and the demands of other parts keep the invariant; the step relation over
  every operation, and what holds of the states it reaches.
\<close>

section \<open>Commands\<close>

lemma insert_batch_ok: "queue_ok q \<Longrightarrow> insert_batch b q = Inr r \<Longrightarrow> queue_ok r"
  by (auto simp: insert_batch_def list_ex_iff image_iff split: if_splits intro!: queue_ok_more_batches)

lemma membership_moves: "prepare_scope_membership a bid scope items q = Inr (n, r) \<Longrightarrow> moves {} q r"
  by (auto simp: prepare_scope_membership_def Let_def intro!: moves_same split: if_splits)

lemma prepare_batch_ok:
  assumes "queue_ok q"
    and "prepare_batch a digest collections schemas new_id now request collection_ids item_ids operations q
      = Inr (res, r)"
  shows "queue_ok r"
proof (cases "find_request request q")
  case (Some previous)
  with assms show ?thesis by (auto simp: prepare_batch_def Let_def map_sum_Inr_iff split: if_splits)
next
  case None
  let ?scope = "sorted_dedup collection_ids" and ?items = "sorted_dedup item_ids"
  from assms(2) obtain b q1 where q1: "insert_batch b q = Inr q1"
      "b = draft_batch new_id request (selected_operations operations) now"
    by (auto simp: prepare_batch_def Let_def None try_then_Inr_iff split: if_splits)
  with assms(2) obtain members q2 where
      q2: "prepare_scope_membership a new_id ?scope ?items q1 = Inr (members, q2)"
    by (auto simp: prepare_batch_def Let_def None try_then_Inr_iff split: if_splits)
  from assms(2) q1 q2 obtain x where
      q3: "record_request x (if members = 0 then close_planning new_id q2 else q2) = Inr r"
    by (auto simp: prepare_batch_def Let_def None map_sum_Inr_iff split: if_splits)
  have "moves {} q1 q2" using q2 by (rule membership_moves)
  also have "moves {} q2 (if members = 0 then close_planning new_id q2 else q2)"
    by (simp add: close_planning_moves)
  also have "moves {} \<dots> r" using q3 by (rule record_request_moves)
  finally show ?thesis using insert_batch_ok [OF assms(1) q1(1)] queue_ok_keeps by blast
qed

lemma start_batch_moves: "start_batch bid expected q = Inr r \<Longrightarrow> moves {} q r"
  by (auto simp: start_batch_def batch_key_def intro!: moves_map_batches split: option.splits if_splits)

lemma control_all_moves: "control_all action expected bids q = (res, r) \<Longrightarrow> moves {} q r"
proof (induction bids arbitrary: q)
  case (Cons bid rest)
  then show ?case by (auto split: sum.splits intro: moves_trans [OF control_batch_moves])
qed simp

lemma control_batches_moves: "control_batches target action expected q = (res, r) \<Longrightarrow> moves {} q r"
  by (auto simp: control_batches_def control_all_moves split: sum.splits)

lemma retry_batch_ok:
  assumes "queue_ok q" and "retry_batch digest request bid single failed_only q = (res, r)"
  shows "queue_ok r"
proof -
  have tried: "queue_ok q1" if "retry_failed bid single q = (n, q1)" for single n q1
    using assms(1) that by (rule retry_failed_ok)
  have recorded: "queue_ok q2" if "retry_failed bid single q = (n, q1)" "record_request x q1 = Inr q2"
    for single n q1 x q2
    using tried [OF that(1)] record_request_moves [OF that(2)] by (rule queue_ok_keeps)
  show ?thesis
    using assms by (auto simp: retry_batch_def Let_def dest: tried recorded
        split: if_splits option.splits sum.splits prod.splits)
qed

section \<open>Demands\<close>

lemma ensure_system_batch_ok:
  assumes "queue_ok q" and "named_for (tx ''batch-'' @ system_request origin) (system_request origin) q"
    and "ensure_system_batch origin now q = Inr (bid, r)"
  shows "queue_ok r"
  using assms by (auto simp: ensure_system_batch_def intro: ensure_system_batch_row_ok split: if_splits)

lemma resume_unit_moves: "moves {} q (update_tasks (\<lambda>t. tk_id t = tid \<and> tk_state t \<in> {TInterrupted, TBlocked})
    (\<lambda>t. t\<lparr>tk_state := TPending, tk_outcome := [], tk_owner := None,
       tk_next_retry := None, tk_error_code := None, tk_error_message := None\<rparr>) q)"
  by (rule moves_update_quiet) (auto simp: row_simps is_quiet_def calm_def)

lemma demand_of_library_ok:
  assumes "queue_ok q"
    and "named_for (tx ''batch-'' @ system_request OBibliography) (system_request OBibliography) q"
    and "demand_of_library e a lid new_id now q = Inr (out, r)"
  shows "queue_ok r"
proof -
  from assms(3) obtain bid q1 where q1: "ensure_system_batch OBibliography now q = Inr (bid, q1)"
    by (auto simp: demand_of_library_def try_then_Inr_iff)
  note ok = ensure_system_batch_ok [OF assms(1,2) q1]
  have retried: "queue_ok q3" if "link_batch_task bid tid KBibliographySync s None q1 = Inr q2"
    "retry_failed bid (Some tid) q2 = (n, q3)" for tid s q2 n q3
    using link_batch_task_ok [OF ok that(1)] that(2) by (rule retry_failed_ok)
  have admitted: "queue_ok q2"
    if "admit_subject_or_attach e a bid KBibliographySync s 0 [] [] None new_id now q1 = Inr (x, q2)" for s x q2
    using ok that by (rule admit_subject_ok)
  show ?thesis
    using assms(3)
    by (auto simp: demand_of_library_def q1 Let_def try_then_Inr_iff
        dest: retried admitted queue_ok_keeps [OF admitted resume_unit_moves]
        split: option.splits sum.splits if_splits prod.splits)
qed

lemma reactivate_lane_moves:
  "moves {} q (map_links p (\<lambda>l. l\<lparr>ln_request := RActive\<rparr>) q)"
  by (rule moves_map_links) (simp add: link_key_def)

lemma sync_demand_ok:
  assumes "queue_ok q"
    and "named_for (tx ''batch-'' @ system_request OBibliography) (system_request OBibliography) q"
    and "\<And>lid out q1. demand_of_library e a lid new_id now q = Inr (out, q1) \<Longrightarrow>
      named_for (tx ''batch-system-bibliography-sync'') (tx ''system-bibliography-sync'') q1"
    and "admit_bibliography_sync_demand e a library_type library_id rows new_id now q = Inr (out, r)"
  shows "queue_ok r"
proof -
  from assms(4) obtain lid where rows: "rows = [lid]"
    by (auto simp: admit_bibliography_sync_demand_def split: if_splits list.splits)
  with assms(4) obtain out1 q1 where q1: "demand_of_library e a lid new_id now q = Inr (out1, q1)"
    by (auto simp: admit_bibliography_sync_demand_def try_then_Inr_iff split: if_splits)
  obtain lane q2 where q2: "ensure_bibliography_sync_lane now q1 = (lane, q2)" by (rule prod.exhaust)
  from assms(4) obtain q3 s p where q3: "link_batch_task lane (dm_task out1) KBibliographySync s None q2 = Inr q3"
      and r: "r = map_links p (\<lambda>l. l\<lparr>ln_request := RActive\<rparr>) q3"
    by (auto simp: admit_bibliography_sync_demand_def rows q1 q2 map_sum_Inr_iff split: if_splits)
  have "queue_ok q2"
    by (rule ensure_system_batch_row_ok [OF demand_of_library_ok [OF assms(1,2) q1] assms(3) [OF q1]])
      (rule q2 [unfolded ensure_bibliography_sync_lane_def])
  with q3 have "queue_ok q3" by (metis link_batch_task_ok)
  then show ?thesis unfolding r using reactivate_lane_moves by (rule queue_ok_keeps)
qed

section \<open>Checkpoints\<close>

lemma adopt_moves: "adopt_reprocess_checkpoints t q = Inr r \<Longrightarrow> moves {} q r"
  by (auto simp: adopt_reprocess_checkpoints_def intro!: moves_same split: if_splits)

lemma purge_page_moves: "moves {} q (purge_page n q)"
  unfolding purge_page_def by (rule moves_fold) simp

lemma purge_moves: "moves {} q (purge_terminal_checkpoints n q)"
proof (induction n q rule: purge_terminal_checkpoints.induct)
  case (1 n q)
  then show ?case
    by (subst purge_terminal_checkpoints.simps) (auto intro: moves_trans [OF purge_page_moves])
qed

section \<open>The step relation\<close>

text \<open>
  One step is one call of an operation. The archive and the source revisions are written by the
  rest of the application at any time. A new identifier is arbitrary; only the fixed identifiers of
  the system batches must belong to their requests.
\<close>

inductive queue_step :: "(claimed_task \<Rightarrow> 'o \<Rightarrow> db \<Rightarrow> queue_error + db) \<Rightarrow> db \<Rightarrow> db \<Rightarrow> bool"
  for publish :: "claimed_task \<Rightarrow> 'o \<Rightarrow> db \<Rightarrow> queue_error + db" where
  archive: "queue_step publish (a, q) (a1, q\<lparr>q_revisions := revisions\<rparr>)"
| prepare: "prepare_batch a digest collections schemas new_id now request cids iids operations q = Inr (res, r)
    \<Longrightarrow> queue_step publish (a, q) (a, r)"
| start: "start_batch bid expected q = Inr r \<Longrightarrow> queue_step publish (a, q) (a, r)"
| control: "control_batches target action expected q = (err, r) \<Longrightarrow> queue_step publish (a, q) (a, r)"
| retry: "retry_batch digest request bid single failed_only q = (res1, r) \<Longrightarrow> queue_step publish (a, q) (a, r)"
| priority: "set_batch_priority bid priority expected q = Inr r \<Longrightarrow> queue_step publish (a, q) (a, r)"
| raise: "queue_step publish (a, q) (a, raise_manual_system_batch q)"
| system: "named_for (tx ''batch-'' @ system_request origin) (system_request origin) q \<Longrightarrow>
    ensure_system_batch origin now q = Inr (bid, r) \<Longrightarrow> queue_step publish (a, q) (a, r)"
| admit: "admit_subject_or_attach e a bid kind s revision fingerprint contract dependency new_id now q = Inr (out, r)
    \<Longrightarrow> queue_step publish (a, q) (a, r)"
| repair: "admit_repair_or_attach e a bid s revision fingerprint contract new_id now q = Inr (out, r)
    \<Longrightarrow> queue_step publish (a, q) (a, r)"
| demand: "named_for (tx ''batch-'' @ system_request OBibliography) (system_request OBibliography) q \<Longrightarrow>
    \<forall>lid out1 q1. demand_of_library e a lid new_id now q = Inr (out1, q1) \<longrightarrow>
      named_for (tx ''batch-system-bibliography-sync'') (tx ''system-bibliography-sync'') q1 \<Longrightarrow>
    admit_bibliography_sync_demand e a library_type library_id rows new_id now q = Inr (out, r) \<Longrightarrow>
    queue_step publish (a, q) (a, r)"
| adopt: "adopt_reprocess_checkpoints t q = Inr r \<Longrightarrow> queue_step publish (a, q) (a, r)"
| purge: "queue_step publish (a, q) (a, purge_terminal_checkpoints n q)"
| plan: "advance_planning e a fresh now bid pages n q = Inr (b, r) \<Longrightarrow> queue_step publish (a, q) (a, r)"
| reconcile: "reconcile_contracts e a q = Inr r \<Longrightarrow> queue_step publish (a, q) (a, r)"
| resume_embedding: "queue_step publish (a, q) (a, resume_embedding_configuration_blocked ready q)"
| resume_ocr: "queue_step publish (a, q) (a, resume_ocr_configuration_blocked ready q)"
| resume_ner: "queue_step publish (a, q) (a, resume_ner_configuration_blocked ready q)"
| promote: "queue_step publish (a, q) (a, promote_ready_batches q)"
| aging: "queue_step publish (a, q) (a, apply_priority_aging now q)"
| heartbeat: "queue_step publish (a, q) (a, heartbeat_owned session now q)"
| claim: "begin_unit e session kinds now (a, q) = (started, db1) \<Longrightarrow> queue_step publish (a, q) db1"
| checkpoint: "save_checkpoint tid epoch c now q = Inr r \<Longrightarrow> queue_step publish (a, q) (a, r)"
| progress: "set_progress_done tid epoch units q = Inr r \<Longrightarrow> queue_step publish (a, q) (a, r)"
| finish: "has_attempt (cl_task c) (cl_epoch c) (cl_attempt c) q \<Longrightarrow>
    finish_unit e publish bytes wording c engine now (a, q) = (ended, db1) \<Longrightarrow> queue_step publish (a, q) db1"
| after: "after_unit (a, q) outcome = (ended, db1) \<Longrightarrow> queue_step publish (a, q) db1"
| cancel: "cancel_running_task tid epoch q = Inr r \<Longrightarrow> queue_step publish (a, q) (a, r)"
| tick: "undisturbing meanwhile \<Longrightarrow>
    scheduler_tick e publish bytes wording fresh run meanwhile session kinds now (a, q) = (ended, db1) \<Longrightarrow>
    queue_step publish (a, q) db1"
| recover: "queue_step publish (a, q) (a, recover_session emb ner q)"

definition empty_queue :: queue where
  "empty_queue = \<lparr>q_batches = [], q_members = [], q_links = [], q_tasks = [], q_attempts = [],
     q_checkpoints = [], q_revisions = [], q_requests = []\<rparr>"

definition reachable :: "(claimed_task \<Rightarrow> 'o \<Rightarrow> db \<Rightarrow> queue_error + db) \<Rightarrow> db \<Rightarrow> bool" where
  "reachable publish db \<longleftrightarrow> (\<exists>a. (queue_step publish)\<^sup>*\<^sup>* (a, empty_queue) db)"

inductive_cases queue_stepE: "queue_step publish db db1"

lemma step_moves_ok: "db_ok (a, q) \<Longrightarrow> moves {} q r \<Longrightarrow> db_ok (a1, r)"
  by (auto simp: db_ok_def intro: queue_ok_keeps)

lemmas quiet_steps = raise_manual_moves purge_moves resume_configuration_moves promote_moves(2)
  apply_priority_aging_moves heartbeat_owned_moves

lemmas quiet_ok = quiet_steps [THEN queue_ok_keeps [rotated]]

lemmas checked_steps = start_batch_moves control_batches_moves set_batch_priority_moves adopt_moves
  reconcile_contracts_moves save_checkpoint_moves set_progress_done_moves

lemmas checked_ok = checked_steps [THEN queue_ok_keeps [rotated]]

lemmas row_steps = prepare_batch_ok retry_batch_ok ensure_system_batch_ok admit_subject_ok
  admit_repair_ok advance_planning_ok cancel_running_task_ok

lemma queue_step_ok:
  assumes "publishes_ok publish"
  shows "queue_step publish db db1 \<Longrightarrow> db_ok db \<Longrightarrow> db_ok db1"
proof (induction rule: queue_step.induct)
  case archive
  then show ?case by (rule step_moves_ok) (rule moves_same, simp_all)
next
  case claim
  then show ?case using begin_unit_ok by blast
next
  case (finish c q e bytes wording engine now a ended db1)
  with finish_unit_ok [OF assms, of "(a, q)" c e bytes wording engine now] show ?case by simp
next
  case (after a q outcome ended db1)
  with after_unit_ok [of "(a, q)" outcome] show ?case by simp
next
  case (tick meanwhile e bytes wording fresh run session kinds now a q ended db1)
  with scheduler_tick_ok [OF assms, of meanwhile "(a, q)" e bytes wording fresh run session kinds now]
  show ?case by simp
next
  case (demand q e a new_id now library_type library_id rows out r)
  then show ?case using sync_demand_ok [of q e a new_id now library_type library_id rows out r]
    by (auto simp: db_ok_def)
next
  case (recover a q)
  then show ?case by (simp add: db_ok_def recover_session_ok)
qed (auto simp: db_ok_def intro: quiet_ok dest: row_steps checked_ok)

lemma empty_queue_ok: "queue_ok empty_queue"
  by (simp add: queue_ok_def tasks_ok_def batches_ok_def links_ok_def attempts_ok_but_def empty_queue_def)

lemma reachable_queue_ok:
  assumes "publishes_ok publish" and "reachable publish db"
  shows "queue_ok (snd db)"
proof -
  from assms(2) obtain a where "(queue_step publish)\<^sup>*\<^sup>* (a, empty_queue) db" by (auto simp: reachable_def)
  then have "db_ok db"
    by (induction rule: rtranclp_induct) (auto simp: db_ok_def empty_queue_ok queue_step_ok [OF assms(1), unfolded db_ok_def])
  then show ?thesis by (simp add: db_ok_def)
qed

end
