(* ===== verification/QueueFence.thy ===== *)
theory QueueFence
  imports QueueReachable
begin

text \<open>
  The contract of a worker's writes: a write names the unit and the epoch of the lease, and is
  refused unless that lease is the current one. A write that ends the unit makes every later write
  under the same lease fail. Both contracts are locales; every write of
  \<open>processing/repository.rs\<close> is an interpretation.
\<close>

section \<open>Held leases\<close>

definition held :: "str \<Rightarrow> int \<Rightarrow> queue \<Rightarrow> bool" where
  "held tid epoch q \<longleftrightarrow> list_ex (is_held tid epoch) (q_tasks q)"

lemma held_iff: "held tid epoch q \<longleftrightarrow>
    (\<exists>t \<in> set (q_tasks q). tk_id t = tid \<and> tk_state t = TRunning \<and> tk_epoch t = epoch)"
  by (auto simp: held_def list_ex_iff is_held_def)

lemma not_held: "\<not> held tid epoch q \<longleftrightarrow> matching_ids (is_held tid epoch) q = []"
  by (auto simp: held_def matching_ids_def filter_empty_conv list_ex_iff)

lemma held_row:
  assumes "tasks_ok q" and "t \<in> set (q_tasks q)"
  shows "held (tk_id t) epoch q \<longleftrightarrow> tk_state t = TRunning \<and> tk_epoch t = epoch"
  using task_unique [OF assms(1) _ assms(2)] assms(2) by (auto simp: held_iff)

lemma keeps_all_row:
  assumes "list_all2 keeps ts us" and "u \<in> set us"
  obtains t where "t \<in> set ts" and "keeps t u"
  using assms by (metis in_set_conv_nth list_all2_conv_all_nth)

text \<open>An interruption of the session ends every lease, and what follows does not bring one back.\<close>

lemma epoch_after_recovery:
  assumes "queue_ok q" and "held tid epoch q" and "moves {} (interrupt_dead_units q) r"
    and "u \<in> set (q_tasks r)" and "tk_id u = tid"
  shows "tk_state u \<noteq> TRunning \<and> epoch < tk_epoch u"
proof -
  have ok: "tasks_ok q" using assms(1) by (simp add: queue_ok_def)
  have ok1: "tasks_ok (interrupt_dead_units q)"
    using interrupt_dead_units_ok [OF assms(1)] by (simp add: queue_ok_def)
  from assms(2) obtain t where t: "t \<in> set (q_tasks q)" "tk_id t = tid" "tk_state t = TRunning" "tk_epoch t = epoch"
    by (auto simp: held_iff)
  from assms(3) ok1 have keep: "list_all2 keeps (q_tasks (interrupt_dead_units q)) (q_tasks r)"
      and calm: "undisturbed {} (interrupt_dead_units q) r"
    by (simp_all add: moves_def advances_def)
  from keeps_all_row [OF keep assms(4)] obtain t1
    where t1: "t1 \<in> set (q_tasks (interrupt_dead_units q))" "keeps t1 u" .
  from t1(1) obtain t2 where t2: "t2 \<in> set (q_tasks q)" "t1 = (if tk_state t2 = TRunning
        then t2\<lparr>tk_state := TInterrupted, tk_owner := None, tk_epoch := tk_epoch t2 + 1\<rparr> else t2)"
    by (auto simp: interrupt_dead_units_rows [OF ok] update_where_def)
  then have "tk_id t2 = tid" using t1(2) assms(5) by (auto simp: keeps_def split: if_splits)
  with task_unique [OF ok t2(1) t(1)] t(2) have "t2 = t" by simp
  with t2 t t1(2) have "epoch < tk_epoch u" by (auto simp: keeps_def)
  moreover have "tk_state u \<noteq> TRunning"
  proof
    assume "tk_state u = TRunning"
    from undisturbed_was_running [OF calm assms(4) this] obtain v
      where "v \<in> set (q_tasks (interrupt_dead_units q))" "tk_state v = TRunning" by blast
    then show False by (auto simp: interrupt_dead_units_rows [OF ok] update_where_def split: if_splits)
  qed
  ultimately show ?thesis by simp
qed

lemma not_held_after_recovery:
  assumes "queue_ok q" and "held tid epoch q"
  shows "\<not> held tid old (recover_session emb ner q)"
  using epoch_after_recovery [OF assms recover_session_moves] by (auto simp: held_iff)

text \<open>A claim starts a lease under an epoch no lease of the unit had.\<close>

lemma claim_keeps_epochs:
  assumes "queue_ok q" and "claim_next e a session kinds now q = Inr (c, r)"
    and "u \<in> set (q_tasks r)"
  obtains t where "t \<in> set (q_tasks q)" and "keeps t u \<or> tk_id u = tk_id t \<and> tk_epoch u = tk_epoch t + 1"
    and "tk_state u = TRunning \<longrightarrow> tk_state t \<noteq> TRunning \<longrightarrow> tk_epoch u = tk_epoch t + 1"
  using assms(1)
proof (rule claim_next_cases [OF _ assms(2)])
  assume m: "moves {} q r"
  have ok: "tasks_ok q" using assms(1) by (simp add: queue_ok_def)
  from m ok have keep: "list_all2 (\<lambda>t u. keeps t u \<and> calm {} t u) (q_tasks q) (q_tasks r)"
    by (auto simp: moves_def advances_def undisturbed_def list_all2_conv_all_nth)
  with assms(3) obtain t where "t \<in> set (q_tasks q)" "keeps t u" "calm {} t u"
    by (metis (no_types, lifting) in_set_conv_nth list_all2_conv_all_nth)
  then show thesis using that by (auto simp: calm_def)
next
  fix t revision fingerprint
  assume t: "t \<in> set (q_tasks q)" "tk_state t \<in> {TPending, TRetryWait}"
    and lease: "take_lease session now t revision fingerprint q = Inr (c, r)"
  from assms(1) t lease show thesis
  proof (rule take_lease_value)
    fix t1 q1
    assume t1: "t1 = t\<lparr>tk_revision := revision, tk_fingerprint := fingerprint\<rparr>"
      and q1: "q1 = pin_input (tk_id t) revision fingerprint q"
      and r: "r = q1\<lparr>q_tasks := map (\<lambda>u. if u = t1 then lease_task session now u else u) (q_tasks q1),
           q_attempts := q_attempts q1 @ [open_attempt (tk_id t) (tk_attempts t + 1) (tk_epoch t + 1)]\<rparr>"
    have ok: "tasks_ok q" using assms(1) by (simp add: queue_ok_def)
    have m: "moves {} q q1" unfolding q1 by (rule pin_input_moves)
    from m ok have keep: "list_all2 (\<lambda>t u. keeps t u \<and> calm {} t u) (q_tasks q) (q_tasks q1)"
      by (auto simp: moves_def advances_def undisturbed_def list_all2_conv_all_nth)
    from assms(3) r obtain v where v: "v \<in> set (q_tasks q1)" "u = (if v = t1 then lease_task session now v else v)"
      by auto
    with keep obtain w where w: "w \<in> set (q_tasks q)" "keeps w v" "calm {} w v"
      by (metis (no_types, lifting) in_set_conv_nth list_all2_conv_all_nth)
    show thesis
    proof (cases "v = t1")
      case True
      with v(2) t1 have "tk_id u = tk_id t" "tk_epoch u = tk_epoch t + 1" by (simp_all add: lease_task_def)
      with t(1) show thesis using that by blast
    next
      case False
      with v(2) w show thesis using that by (auto simp: calm_def)
    qed
  qed
qed

lemma recovered_epochs:
  assumes "queue_ok q" and "held tid epoch q"
    and "r = recover_session emb ner q
       \<or> claim_next e a session kinds now (recover_session emb ner q) = Inr (c, r)"
    and "u \<in> set (q_tasks r)" and "tk_id u = tid"
  shows "epoch < tk_epoch u"
  using assms(3)
proof
  assume "r = recover_session emb ner q"
  with epoch_after_recovery [OF assms(1,2) recover_session_moves] assms(4,5) show ?thesis by blast
next
  assume claim: "claim_next e a session kinds now (recover_session emb ner q) = Inr (c, r)"
  have ok: "queue_ok (recover_session emb ner q)" using assms(1) by (rule recover_session_ok)
  from ok claim assms(4) obtain t where t: "t \<in> set (q_tasks (recover_session emb ner q))"
      "keeps t u \<or> tk_id u = tk_id t \<and> tk_epoch u = tk_epoch t + 1"
    by (rule claim_keeps_epochs)
  then have id: "tk_id t = tid" and "tk_epoch t \<le> tk_epoch u" using assms(5) by (auto simp: keeps_def)
  with epoch_after_recovery [OF assms(1,2) recover_session_moves t(1) id] show ?thesis by simp
qed

lemma not_held_after_claim:
  assumes "queue_ok q" and "held tid epoch q"
    and "claim_next e a session kinds now (recover_session emb ner q) = Inr (c, r)"
  shows "\<not> held tid epoch r"
  using recovered_epochs [OF assms(1,2) disjI2 [OF assms(3)]] by (fastforce simp: held_iff)

section \<open>Writes under a lease\<close>

locale leased_write =
  fixes act :: "str \<Rightarrow> int \<Rightarrow> queue \<Rightarrow> queue_error + 'r"
  assumes refused: "\<not> held tid epoch q \<Longrightarrow> act tid epoch q = Inl LeaseLost"
begin

lemma other_epoch:
  "tasks_ok q \<Longrightarrow> t \<in> set (q_tasks q) \<Longrightarrow> tk_epoch t \<noteq> epoch \<Longrightarrow> act (tk_id t) epoch q = Inl LeaseLost"
  by (rule refused) (simp add: held_row)

lemma after_recovery:
  "queue_ok q \<Longrightarrow> held tid epoch q \<Longrightarrow> act tid epoch (recover_session emb ner q) = Inl LeaseLost"
  by (rule refused) (simp add: not_held_after_recovery)

lemma after_new_claim:
  "queue_ok q \<Longrightarrow> held tid epoch q \<Longrightarrow>
   claim_next e a session kinds now (recover_session emb ner q) = Inr (c, r) \<Longrightarrow>
   act tid epoch r = Inl LeaseLost"
  by (rule refused) (simp add: not_held_after_claim)

end

locale leased_end = leased_write +
  fixes outcome :: "'r \<Rightarrow> queue"
  assumes ends: "tasks_ok q \<Longrightarrow> act tid epoch q = Inr r \<Longrightarrow> \<not> held tid epoch (outcome r)"
begin

lemma only_once:
  "tasks_ok q \<Longrightarrow> act tid epoch q = Inr r \<Longrightarrow> act tid epoch (outcome r) = Inl LeaseLost"
  by (rule refused) (rule ends)

end

section \<open>The writes\<close>

lemma fenced_refused: "\<not> held tid epoch q \<Longrightarrow> fenced tid epoch f q = Inl LeaseLost"
  by (simp add: fenced_def not_held)

lemma update_ends:
  assumes "tasks_ok q" and "\<And>t. tk_id (f t) = tk_id t \<and> tk_state (f t) \<noteq> TRunning"
    and "\<And>t. p t \<Longrightarrow> is_quiet (tk_state (f t))"
    and "\<And>t. is_held tid epoch t \<Longrightarrow> p t"
  shows "\<not> held tid epoch (update_tasks p f q)"
proof -
  have "update_tasks p f q = map_tasks p f q"
    using assms by (intro update_tasks_quiet) (auto simp: tasks_ok_def)
  with assms(2,4) show ?thesis
    by (auto simp: held_iff map_tasks_def update_where_def is_held_def split: if_splits)
qed

lemma held_other [simp]:
  "held tid epoch (close_open_attempt i o1 q) = held tid epoch q"
  "held tid epoch (map_attempts p f q) = held tid epoch q"
  "held tid epoch (delete_checkpoints_unless_paid_extraction i k q) = held tid epoch q"
  by (simp_all add: held_def)

lemma fenced_ends:
  assumes "tasks_ok q" and "fenced tid epoch f q = Inr r"
    and "\<And>t. tk_id (f t) = tk_id t \<and> tk_state (f t) \<noteq> TRunning \<and> is_quiet (tk_state (f t))"
  shows "\<not> held tid epoch r"
proof -
  from assms(2) have "r = update_tasks (is_held tid epoch) f q" by (simp add: fenced_def split: if_splits)
  then show ?thesis using update_ends [OF assms(1), of f "is_held tid epoch"] assms(3) by simp
qed

interpretation interrupts: leased_end interrupt_task id
proof unfold_locales
  show "interrupt_task tid epoch q = Inl LeaseLost" if "\<not> held tid epoch q" for tid epoch q
    using that by (simp add: interrupt_task_def fenced_refused)
  show "\<not> held tid epoch (id r)" if "tasks_ok q" "interrupt_task tid epoch q = Inr r" for q tid epoch r
    using that fenced_ends [OF that(1)] by (auto simp: interrupt_task_def map_sum_Inr_iff is_quiet_def)
qed

interpretation requeues: leased_end requeue_task id
proof unfold_locales
  show "requeue_task tid epoch q = Inl LeaseLost" if "\<not> held tid epoch q" for tid epoch q
    using that by (simp add: requeue_task_def fenced_refused)
  show "\<not> held tid epoch (id r)" if "tasks_ok q" "requeue_task tid epoch q = Inr r" for q tid epoch r
    using that fenced_ends [OF that(1)] by (auto simp: requeue_task_def map_sum_Inr_iff is_quiet_def)
qed

interpretation blocks: leased_end "\<lambda>tid epoch. block_running_task tid epoch outcome message" id
  for outcome message
proof unfold_locales
  show "block_running_task tid epoch outcome message q = Inl LeaseLost" if "\<not> held tid epoch q" for tid epoch q
    using that by (simp add: block_running_task_def fenced_refused)
  show "\<not> held tid epoch (id r)"
    if "tasks_ok q" "block_running_task tid epoch outcome message q = Inr r" for q tid epoch r
    using that fenced_ends [OF that(1)] by (auto simp: block_running_task_def map_sum_Inr_iff is_quiet_def)
qed

interpretation defers: leased_end "\<lambda>tid epoch. defer_task tid epoch wake code reason" id
  for wake code reason
proof unfold_locales
  show "defer_task tid epoch wake code reason q = Inl LeaseLost" if "\<not> held tid epoch q" for tid epoch q
    using that by (simp add: defer_task_def fenced_refused)
  show "\<not> held tid epoch (id r)"
    if "tasks_ok q" "defer_task tid epoch wake code reason q = Inr r" for q tid epoch r
    using that fenced_ends [OF that(1)] by (auto simp: defer_task_def map_sum_Inr_iff is_quiet_def)
qed

interpretation changes: leased_end "\<lambda>tid epoch. record_source_change tid epoch message" snd
  for message
proof unfold_locales
  show "record_source_change tid epoch message q = Inl LeaseLost" if "\<not> held tid epoch q" for tid epoch q
    using that by (auto simp: record_source_change_def held_def list_ex_iff find_Some_iff split: option.split)
  show "\<not> held tid epoch (snd r)"
    if "tasks_ok q" "record_source_change tid epoch message q = Inr r" for q tid epoch r
  proof -
    let ?f = "\<lambda>n blocked outcome t. t\<lparr>tk_state := (if blocked then TBlocked else TPending),
        tk_outcome := outcome, tk_invalidations := n, tk_error_code := Some outcome,
        tk_error_message := Some message, tk_owner := None, tk_next_retry := None\<rparr>"
    from that(2) obtain n blocked outcome p g
      where "snd r = map_attempts p g (update_tasks (is_held tid epoch) (?f n blocked outcome) q)"
      by (auto simp: record_source_change_def Let_def split: option.splits)
    moreover have "\<not> held tid epoch (update_tasks (is_held tid epoch) (?f n blocked outcome) q)"
      by (rule update_ends [OF that(1)]) (simp_all add: is_quiet_def)
    ultimately show ?thesis by simp
  qed
qed

interpretation totals: leased_write "\<lambda>tid epoch. set_progress_total tid epoch units" for units
  by unfold_locales (simp add: set_progress_total_def fenced_refused)

interpretation dones: leased_write "\<lambda>tid epoch. set_progress_done tid epoch units" for units
  by unfold_locales (simp add: set_progress_done_def fenced_refused)

interpretation checkpoints: leased_write "\<lambda>tid epoch. save_checkpoint tid epoch c now" for c now
  by unfold_locales (simp add: save_checkpoint_def fenced_refused)

interpretation cancels: leased_write cancel_running_task
  by unfold_locales (simp add: cancel_running_task_def fenced_refused)

interpretation fails: leased_write "\<lambda>tid epoch.
    fail_attempt bytes tid epoch number code message retryable provider now"
  for bytes number code message retryable provider now
proof unfold_locales
  show "fail_attempt bytes tid epoch number code message retryable provider now q = Inl LeaseLost"
    if "\<not> held tid epoch q" for tid epoch q
    using that by (auto simp: fail_attempt_def held_iff dest: find_task_SomeD split: option.split)
qed

end
