(* ===== verification/QueueSamples.thy ===== *)
theory QueueSamples
  imports QueueFence
begin

text \<open>
  A small queue on which the properties are instantiated: one image, a batch of the user that runs,
  and the OCR unit it asks for, waiting and leased; and a chain of an OCR unit, the correction
  blocked on it and the embedding blocked on the correction.
\<close>

definition sample_env :: environment where
  "sample_env = \<lparr>ev_sha256 = (\<lambda>x. x), ev_pdf_pages = (\<lambda>_. None), ev_library = (\<lambda>_. None),
     ev_attachment = (\<lambda>_. None), ev_profile = (\<lambda>_. None)\<rparr>"

definition sample_asset :: asset_row where
  "sample_asset = \<lparr>as_id = tx ''a'', as_item = tx ''i'', as_path = tx ''a.png'', as_type = tx ''image'',
     as_parent = None, as_page = None, as_bytes = Some 7, as_created = 1\<rparr>"

definition sample_archive :: archive where
  "sample_archive = \<lparr>ar_assets = [sample_asset], ar_items = [], ar_extractions = [],
     ar_transcriptions = [], ar_vectors = [], ar_chunks = [], ar_results = [], ar_entities = [],
     ar_triples = [], ar_records = [], ar_repairs = [], ar_settings = []\<rparr>"

definition sample_batch :: batch where
  "sample_batch = \<lparr>bt_id = tx ''b'', bt_request = tx ''r'', bt_origin = OUser, bt_state = BRunning,
     bt_desired = DRun, bt_operations = [tx ''ocr''], bt_cursor = 0, bt_planning_done = True,
     bt_revision = 0, bt_priority = 0, bt_created = 1\<rparr>"

definition sample_unit :: "string \<Rightarrow> task_kind \<Rightarrow> task" where
  "sample_unit name kind = new_task (tx name) kind (corpus_asset (tx ''a'')) 0 [] (tx ''ocr:light'') False 1"

definition sample_link :: "string \<Rightarrow> task_kind \<Rightarrow> str option \<Rightarrow> batch_link" where
  "sample_link name kind dependency = \<lparr>ln_batch = tx ''b'', ln_task = tx name, ln_kind = kind,
     ln_asset = tx ''a'', ln_domain = Corpus, ln_subject_kind = SAsset, ln_subject = tx ''a'',
     ln_request = RActive, ln_dependency = dependency\<rparr>"

definition waiting_queue :: queue where
  "waiting_queue = empty_queue\<lparr>q_batches := [sample_batch], q_links := [sample_link ''o'' KOcr None],
     q_tasks := [sample_unit ''o'' KOcr]\<rparr>"

definition running_unit :: "string \<Rightarrow> task_kind \<Rightarrow> task" where
  "running_unit name kind = lease_task (tx ''s'') 9 (sample_unit name kind)"

definition running_queue :: queue where
  "running_queue = waiting_queue\<lparr>q_tasks := [running_unit ''o'' KOcr],
     q_attempts := [open_attempt (tx ''o'') 1 1]\<rparr>"

definition blocked_unit :: "string \<Rightarrow> task_kind \<Rightarrow> task" where
  "blocked_unit name kind = (sample_unit name kind)\<lparr>tk_state := TBlocked\<rparr>"

definition chain_queue :: queue where
  "chain_queue = running_queue\<lparr>q_tasks := [running_unit ''o'' KOcr, blocked_unit ''c'' KOcrCorrection,
       blocked_unit ''d'' KEmbedding],
     q_links := [sample_link ''o'' KOcr None, sample_link ''c'' KOcrCorrection (Some (tx ''o'')),
       sample_link ''d'' KEmbedding (Some (tx ''c''))]\<rparr>"

definition sample_checkpoint :: checkpoint where
  "sample_checkpoint = \<lparr>cp_task = tx ''o'', cp_unit = tx ''page-1'', cp_fingerprint = [],
     cp_contract = tx ''ocr:light'', cp_payload = tx ''text'', cp_checksum = tx ''sum''\<rparr>"

lemmas sample_simps = sample_checkpoint_def sample_env_def sample_asset_def sample_archive_def sample_batch_def
  sample_unit_def sample_link_def waiting_queue_def running_unit_def running_queue_def
  blocked_unit_def chain_queue_def empty_queue_def new_task_def corpus_asset_def lease_task_def
  open_attempt_def

lemma sample_queues_ok: "queue_ok waiting_queue" "queue_ok running_queue" "queue_ok chain_queue"
  by (simp_all add: sample_simps queue_ok_def tasks_ok_def batches_ok_def links_ok_def link_ok_def
      attempts_ok_but_def attempt_ok_def is_attempt_of_def task_key_def is_live_def row_ok_def
      is_terminal_task_def)

lemma running_held: "held (tx ''o'') 1 running_queue"
  by (simp add: sample_simps held_def is_held_def)

definition keep_tables :: "claimed_task \<Rightarrow> unit \<Rightarrow> db \<Rightarrow> queue_error + db" where
  "keep_tables c x db = Inr db"

lemma keep_tables_ok: "publishes_ok keep_tables"
  by (simp add: publishes_ok_def keep_tables_def)

end
