(* ===== verification/QueueProps.thy ===== *)
theory QueueProps
  imports QueueSamples
begin

text \<open>
  The properties of the tables of the queue: what holds of every reachable state, of leases and
  their epochs, and of the recovery of a session.
\<close>

section \<open>Reachable states\<close>

text \<open>
  C2: In every state reached from the empty tables by the operations of the queue, in any order and
  with a worker's end of a unit at any later time, the tables are sound: unit identifiers are unique
  and no two live units have the same subject and kind; only a running unit has an owner and a unit
  in retry wait has its wake time; batches are unique in identifier and request; links name existing
  batches and units; attempts are unique in number and in epoch per unit, and an open attempt is the
  last one of a running unit, under the epoch of its lease.
\<close>

theorem reachable_tables_are_sound:
  assumes "publishes_ok publish" and "reachable publish db"
  shows "queue_ok (snd db)"
  using assms by (rule reachable_queue_ok)

lemma reachable_tables_are_sound_witness:
  "queue_ok (snd (ensure_system_batch_row OManual (system_request OManual)
     (tx ''batch-'' @ system_request OManual) (Some 2) 5 empty_queue))" (is "queue_ok ?q")
proof -
  have "queue_step keep_tables (sample_archive, empty_queue) (sample_archive, ?q)"
    by (rule queue_step.system [where origin = OManual and now = 5])
      (simp_all add: named_for_def empty_queue_def ensure_system_batch_def ensure_system_batch_row_def)
  then have "reachable keep_tables (sample_archive, ?q)" by (auto simp: reachable_def)
  from reachable_tables_are_sound [OF keep_tables_ok this] show ?thesis by simp
qed

section \<open>Leases\<close>

text \<open>
  C4: A worker whose session was recovered can no longer write: after the recovery, and after any
  later claim by the new session, every fenced write of the old lease is refused with LeaseLost and
  leaves the tables alone, and so is the commit of its result.
\<close>

theorem recovered_worker_is_fenced:
  assumes "queue_ok q" and "held tid epoch q"
    and "r = recover_session emb ner q
       \<or> claim_next e a session kinds now (recover_session emb ner q) = Inr (c, r)"
  shows "interrupt_task tid epoch r = Inl LeaseLost \<and> requeue_task tid epoch r = Inl LeaseLost
    \<and> block_running_task tid epoch outcome message r = Inl LeaseLost
    \<and> defer_task tid epoch wake code message r = Inl LeaseLost
    \<and> record_source_change tid epoch message r = Inl LeaseLost
    \<and> set_progress_total tid epoch units r = Inl LeaseLost
    \<and> set_progress_done tid epoch units r = Inl LeaseLost
    \<and> save_checkpoint tid epoch checkpoint now r = Inl LeaseLost
    \<and> cancel_running_task tid epoch r = Inl LeaseLost
    \<and> fail_attempt bytes tid epoch number code message retryable provider now r = Inl LeaseLost
    \<and> commit_success_with e tid epoch kind outcome receipt publish (b, r) = Inl LeaseLost"
proof -
  have lost: "act tid epoch r = Inl LeaseLost" if "leased_write act"
    for act :: "str \<Rightarrow> int \<Rightarrow> queue \<Rightarrow> queue_error + 'x"
    using assms leased_write.after_recovery [OF that] leased_write.after_new_claim [OF that] by blast
  have "tk_epoch u \<noteq> epoch" if "u \<in> set (q_tasks r)" "tk_id u = tid" for u
    using recovered_epochs [OF assms] that by blast
  then have "find (\<lambda>t. tk_id t = tid \<and> tk_epoch t = epoch) (q_tasks r) = None"
    by (auto simp: find_None_iff)
  then have commit: "commit_success_with e tid epoch kind outcome receipt publish (b, r) = Inl LeaseLost"
    by (simp add: commit_success_with_def)
  show ?thesis
    by (intro conjI commit lost interrupts.leased_write_axioms requeues.leased_write_axioms
        blocks.leased_write_axioms defers.leased_write_axioms changes.leased_write_axioms
        totals.leased_write_axioms dones.leased_write_axioms checkpoints.leased_write_axioms
        cancels.leased_write_axioms fails.leased_write_axioms)
qed

lemma recovered_worker_is_fenced_witness:
  "save_checkpoint (tx ''o'') 1 sample_checkpoint 9 (recover_session True True running_queue) = Inl LeaseLost"
  using recovered_worker_is_fenced [OF sample_queues_ok(2) running_held disjI1 [OF refl]] by blast

text \<open>The batches of the user after the recovery.\<close>

lemma cancel_orphaned_batches [simp]: "q_batches (cancel_orphaned_tasks q) = q_batches q"
proof -
  have "q_batches (fold (\<lambda>(tid, kind). delete_checkpoints_unless_paid_extraction tid kind) xs q1) = q_batches q1"
    for xs q1 by (induction xs arbitrary: q1) (simp_all add: split_beta)
  then show ?thesis by (simp add: cancel_orphaned_tasks_def Let_def)
qed

lemma finish_cancellations_batches:
  "b \<in> set (q_batches (fold finish_cancellation bids q)) \<Longrightarrow>
   \<exists>b0 \<in> set (q_batches q). bt_origin b0 = bt_origin b \<and> (bt_state b = bt_state b0 \<or> bt_state b = BCancelled)"
proof (induction bids arbitrary: q)
  case (Cons bid bids)
  from Cons.IH [of "finish_cancellation bid q"] Cons.prems obtain b1
    where "b1 \<in> set (q_batches (finish_cancellation bid q))" "bt_origin b1 = bt_origin b"
      "bt_state b = bt_state b1 \<or> bt_state b = BCancelled" by auto
  then show ?case
    by (auto simp: finish_cancellation_def Let_def set_batch_state_def map_batches_def map_links_def
        update_where_def split: if_splits)
qed auto

lemma set_map_batches:
  "set (q_batches (map_batches p f q)) = (\<lambda>b. if p b then f b else b) ` set (q_batches q)"
  by (simp add: map_batches_def update_where_def)

lemma user_batches_after:
  assumes "b \<in> set (q_batches (fold finish_cancellation bids
      (pause_user_batches (heal_system_batches (interrupt_user_batches q1)))))"
    and "bt_origin b = OUser"
  shows "bt_state b \<notin> {BRunning, BReady, BPreparing, BPausing}"
proof -
  from finish_cancellations_batches [OF assms(1)] assms(2) obtain b0 where b0:
      "b0 \<in> set (q_batches (pause_user_batches (heal_system_batches (interrupt_user_batches q1))))"
      "bt_origin b0 = OUser" "bt_state b = bt_state b0 \<or> bt_state b = BCancelled"
    by auto
  from b0(1,2) obtain b1 where b1: "b1 \<in> set (q_batches (heal_system_batches (interrupt_user_batches q1)))"
      "bt_origin b1 = OUser" "bt_state b0 = (if bt_state b1 = BPausing then BPaused else bt_state b1)"
    by (auto simp: pause_user_batches_def set_map_batches split: if_splits)
  then have "b1 \<in> set (q_batches (interrupt_user_batches q1))"
    by (auto simp: heal_system_batches_def set_map_batches split: if_splits)
  then have "bt_state b1 \<notin> {BRunning, BReady, BPreparing}"
    using b1(2) by (auto simp: interrupt_user_batches_def set_map_batches split: if_splits)
  with b0 b1(3) show ?thesis by (auto split: if_splits)
qed

lemma recovered_user_batches:
  "b \<in> set (q_batches (recover_session emb ner q)) \<Longrightarrow> bt_origin b = OUser \<Longrightarrow>
   bt_state b \<notin> {BRunning, BReady, BPreparing, BPausing}"
  unfolding recover_session_def Let_def by (rule user_batches_after)

text \<open>
  C32: After the recovery of a session no unit runs or has an owner, no attempt is open, and no batch
  of the user runs on its own: it is interrupted, paused, being cancelled or finished.
\<close>

theorem recovery_leaves_nothing_running:
  assumes "queue_ok q"
  shows "(\<forall>t \<in> set (q_tasks (recover_session emb ner q)). tk_state t \<noteq> TRunning \<and> tk_owner t = None)
    \<and> (\<forall>x \<in> set (q_attempts (recover_session emb ner q)). at_outcome x \<noteq> AOpen)
    \<and> (\<forall>b \<in> set (q_batches (recover_session emb ner q)).
         bt_origin b = OUser \<longrightarrow> bt_state b \<notin> {BRunning, BReady, BPreparing, BPausing})"
proof -
  let ?r = "recover_session emb ner q" and ?i = "interrupt_dead_units q"
  have ok: "tasks_ok ?i" using interrupt_dead_units_ok [OF assms] by (simp add: queue_ok_def)
  have calm: "undisturbed {} ?i ?r" using recover_session_moves ok by (auto simp: moves_def)
  have idle: "tk_state t \<noteq> TRunning" if "t \<in> set (q_tasks ?r)" for t
  proof
    assume "tk_state t = TRunning"
    from undisturbed_was_running [OF calm that this] obtain v where "v \<in> set (q_tasks ?i)" "tk_state v = TRunning"
      by blast
    with assms show False
      by (auto simp: interrupt_dead_units_rows queue_ok_def update_where_def split: if_splits)
  qed
  have sound: "queue_ok ?r" using assms by (rule recover_session_ok)
  have "tk_owner t = None" if "t \<in> set (q_tasks ?r)" for t
    using sound idle that by (auto simp: queue_ok_def tasks_ok_def list_all_iff row_ok_def)
  moreover have "at_outcome x \<noteq> AOpen" if "x \<in> set (q_attempts ?r)" for x
    using sound idle that by (auto simp: queue_ok_def attempts_ok_but_def is_attempt_of_def)
  ultimately show ?thesis using idle recovered_user_batches by blast
qed

lemma recovery_leaves_nothing_running_witness:
  "map at_outcome (q_attempts (recover_session True True running_queue)) = [AInterrupted]
   \<and> list_all (\<lambda>t. tk_state t \<noteq> TRunning \<and> tk_owner t = None)
        (q_tasks (recover_session True True running_queue))"
proof (intro conjI)
  show "map at_outcome (q_attempts (recover_session True True running_queue)) = [AInterrupted]"
    by code_simp
qed (use recovery_leaves_nothing_running [OF sample_queues_ok(2)] in \<open>simp add: list_all_iff\<close>)

end
