(* ===== verification/AgentEffects.thy ===== *)
theory AgentEffects
  imports AgentDesk QueueProps
begin

text \<open>
  What calls and approved actions do to the tables of the queue and of the archive: a call starts
  nothing, an approved action runs on what was shown.
\<close>

section \<open>Demand\<close>

text \<open>The batches meant to run, and the units a running batch wants.\<close>

definition running_wishes :: "queue \<Rightarrow> str list" where
  "running_wishes q = map bt_id (filter (\<lambda>b. bt_desired b = DRun) (q_batches q))"

definition live_demand :: "queue \<Rightarrow> (str \<times> str) list" where
  "live_demand q = map (\<lambda>l. (ln_batch l, ln_task l))
     (filter (\<lambda>l. is_live_link {BRunning} q (ln_task l) l) (q_links q))"

text \<open>A queue that wants no more than another.\<close>

definition calmer :: "queue \<Rightarrow> queue \<Rightarrow> bool" where
  "calmer q r \<longleftrightarrow>
     (\<forall>b\<in>set (q_batches r). bt_desired b = DRun \<longrightarrow>
       (\<exists>a\<in>set (q_batches q). bt_id a = bt_id b \<and> bt_desired a = DRun \<and> (bt_state b = BRunning \<longrightarrow> bt_state a = BRunning)))
     \<and> (\<forall>l\<in>set (q_links r). ln_request l = RActive \<longrightarrow>
       (\<exists>k\<in>set (q_links q). ln_batch k = ln_batch l \<and> ln_task k = ln_task l \<and> ln_request k = RActive))"

lemma calmer_refl [simp]: "calmer q q"
  by (auto simp: calmer_def)

lemma calmer_trans:
  assumes "calmer q r" and "calmer r s"
  shows "calmer q s"
  unfolding calmer_def
proof (intro conjI ballI impI)
  fix b assume "b \<in> set (q_batches s)" "bt_desired b = DRun"
  with assms(2) obtain a where "a \<in> set (q_batches r)" "bt_id a = bt_id b" "bt_desired a = DRun"
      "bt_state b = BRunning \<longrightarrow> bt_state a = BRunning" unfolding calmer_def by meson
  moreover from this(1,3) assms(1) obtain c where "c \<in> set (q_batches q)" "bt_id c = bt_id a" "bt_desired c = DRun"
      "bt_state a = BRunning \<longrightarrow> bt_state c = BRunning" unfolding calmer_def by meson
  ultimately show "\<exists>c\<in>set (q_batches q). bt_id c = bt_id b \<and> bt_desired c = DRun \<and> (bt_state b = BRunning \<longrightarrow> bt_state c = BRunning)"
    by (intro bexI [of _ c]) simp_all
next
  fix l assume "l \<in> set (q_links s)" "ln_request l = RActive"
  with assms(2) obtain k where "k \<in> set (q_links r)" "ln_batch k = ln_batch l" "ln_task k = ln_task l" "ln_request k = RActive"
    unfolding calmer_def by meson
  moreover from this(1,4) assms(1) obtain j where "j \<in> set (q_links q)" "ln_batch j = ln_batch k" "ln_task j = ln_task k"
      "ln_request j = RActive" unfolding calmer_def by meson
  ultimately show "\<exists>j\<in>set (q_links q). ln_batch j = ln_batch l \<and> ln_task j = ln_task l \<and> ln_request j = RActive"
    by (intro bexI [of _ j]) simp_all
qed

lemma calmer_same: "q_batches r = q_batches q \<Longrightarrow> q_links r = q_links q \<Longrightarrow> calmer q r"
  by (auto simp: calmer_def)

lemma calmer_wishes:
  assumes "calmer q r"
  shows "set (running_wishes r) \<subseteq> set (running_wishes q)"
proof
  fix x assume "x \<in> set (running_wishes r)"
  then obtain b where "b \<in> set (q_batches r)" "bt_desired b = DRun" "x = bt_id b" by (auto simp: running_wishes_def)
  with assms obtain a where "a \<in> set (q_batches q)" "x = bt_id a" "bt_desired a = DRun" unfolding calmer_def by metis
  then show "x \<in> set (running_wishes q)" by (auto simp: running_wishes_def)
qed

lemma calmer_demand:
  assumes "calmer q r"
  shows "set (live_demand r) \<subseteq> set (live_demand q)"
proof
  fix x assume "x \<in> set (live_demand r)"
  then obtain l b where l: "l \<in> set (q_links r)" "x = (ln_batch l, ln_task l)" "ln_request l = RActive"
      and b: "b \<in> set (q_batches r)" "bt_id b = ln_batch l" "bt_state b = BRunning" "bt_desired b = DRun"
    by (auto simp: live_demand_def is_live_link_def list_ex_iff)
  from assms l(1,3) obtain k where k: "k \<in> set (q_links q)" "ln_batch k = ln_batch l" "ln_task k = ln_task l" "ln_request k = RActive"
    unfolding calmer_def by meson
  from assms b(1,4) obtain a where "a \<in> set (q_batches q)" "bt_id a = bt_id b" "bt_desired a = DRun"
      "bt_state b = BRunning \<longrightarrow> bt_state a = BRunning" unfolding calmer_def by meson
  with k b have "is_live_link {BRunning} q (ln_task k) k" by (auto simp: is_live_link_def list_ex_iff)
  with k(1) have "(ln_batch k, ln_task k) \<in> set (live_demand q)" by (simp add: live_demand_def)
  with k l(2) show "x \<in> set (live_demand q)" by simp
qed

section \<open>Calls want no more\<close>

lemma calmer_batches:
  assumes "\<And>b. p b \<Longrightarrow> bt_id (f b) = bt_id b \<and> (bt_desired (f b) = DRun \<longrightarrow>
     bt_desired b = DRun \<and> (bt_state (f b) = BRunning \<longrightarrow> bt_state b = BRunning))"
  shows "calmer q (map_batches p f q)"
proof -
  have "\<exists>a\<in>set (q_batches q). bt_id a = bt_id b \<and> bt_desired a = DRun \<and> (bt_state b = BRunning \<longrightarrow> bt_state a = BRunning)"
    if b: "b \<in> set (q_batches (map_batches p f q))" "bt_desired b = DRun" for b
  proof -
    from b(1) obtain a where "a \<in> set (q_batches q)" "b = (if p a then f a else a)"
      by (auto simp: map_batches_def update_where_def)
    with b(2) assms [of a] show ?thesis by (intro bexI [of _ a]) (auto split: if_splits)
  qed
  then show ?thesis by (auto simp: calmer_def map_batches_def)
qed

lemma calmer_links:
  assumes "\<And>l. ln_request (f l) \<noteq> RActive"
  shows "calmer q (map_links p f q)"
  using assms by (auto simp: calmer_def map_links_def update_where_def split: if_splits)

lemma calmer_pause: "calmer q (pause_links bid q)"
  unfolding pause_links_def by (rule calmer_trans [OF calmer_batches calmer_links]) simp_all

lemma calmer_finalize:
  assumes "maybe_finalize_batch bid q = Inr (done_now, r)"
  shows "calmer q r"
proof -
  have "calmer q (observe_paused_batches q)" unfolding observe_paused_batches_def by (rule calmer_batches) simp
  moreover have "calmer q (set_batch_state bid (final_state b q) q)" for b
    unfolding set_batch_state_def by (rule calmer_batches) (simp add: final_state_def)
  ultimately show ?thesis
    using assms by (auto simp: maybe_finalize_batch_def Let_def split: option.splits if_splits)
qed

lemma cancel_orphaned_links: "q_links (cancel_orphaned_tasks q) = q_links q"
proof -
  have "q_links (fold (\<lambda>(tid, kind). delete_checkpoints_unless_paid_extraction tid kind) xs r) = q_links r" for xs r
    by (induction xs arbitrary: r) (simp_all add: split_beta)
  then show ?thesis by (simp add: cancel_orphaned_tasks_def Let_def)
qed

lemma calmer_cancel:
  assumes "cancel_batch bid q = Inr r"
  shows "calmer q r"
proof -
  define q1 where "q1 = q\<lparr>q_revisions := fold suppress_asset (cancelled_embeddings bid q) (q_revisions q)\<rparr>"
  define q2 where "q2 = map_batches (\<lambda>b. bt_id b = bid) (\<lambda>b. b\<lparr>bt_state := BCancelling\<rparr>) q1"
  define q3 where "q3 = map_links (\<lambda>l. ln_batch l = bid) (\<lambda>l. l\<lparr>ln_request := RCancelled\<rparr>) q2"
  define q4 where "q4 = map_batches (\<lambda>b. bt_id b = bid) (\<lambda>b. b\<lparr>bt_priority := 0\<rparr>) q3"
  from assms obtain x where x: "maybe_finalize_batch bid (cancel_orphaned_tasks q4) = Inr (x, r)"
    unfolding cancel_batch_def Let_def q1_def [symmetric] q2_def [symmetric] q3_def [symmetric] q4_def [symmetric]
    by (auto simp: map_sum_Inr_iff)
  have "calmer q q1" unfolding q1_def by (rule calmer_same) simp_all
  moreover have "calmer q1 q2" unfolding q2_def by (rule calmer_batches) simp
  moreover have "calmer q2 q3" unfolding q3_def by (rule calmer_links) simp
  moreover have "calmer q3 q4" unfolding q4_def by (rule calmer_batches) simp
  moreover have "calmer q4 (cancel_orphaned_tasks q4)" by (rule calmer_same) (simp_all add: cancel_orphaned_links)
  ultimately show ?thesis using calmer_finalize [OF x] by (meson calmer_trans)
qed

lemma calmer_control:
  assumes "control_batch bid action expected q = Inr r" and "action \<noteq> AResume"
  shows "calmer q r"
proof -
  let ?q1 = "map_batches (\<lambda>b. bt_id b = bid) (\<lambda>b. b\<lparr>bt_desired := desired_of action, bt_revision := bt_revision b + 1\<rparr>) q"
  have first: "calmer q ?q1" by (rule calmer_batches) (use assms(2) in \<open>cases action; simp add: desired_of_def\<close>)
  have "calmer ?q1 r"
    using assms calmer_pause calmer_cancel
    by (cases action) (auto simp: control_batch_def Let_def split: option.splits if_splits)
  with first show ?thesis by (rule calmer_trans)
qed

lemma calmer_control_now:
  assumes "action \<noteq> AResume"
  shows "calmer (wd_queue w) (wd_queue (snd (control_now e job action n w)))"
  using calmer_control [OF _ assms]
  by (auto simp: control_now_def control_batches_def control_targets_def split: sum.split option.split)

lemma record_request_tables: "record_request x q = Inr r \<Longrightarrow> q_batches r = q_batches q \<and> q_links r = q_links q"
  by (auto simp: record_request_def split: if_splits)

lemma calmer_record: "record_request x q = Inr r \<Longrightarrow> calmer q r"
  by (rule calmer_same) (simp_all add: record_request_tables)

lemma calmer_insert: "insert_batch b q = Inr r \<Longrightarrow> bt_desired b \<noteq> DRun \<Longrightarrow> calmer q r"
  by (auto simp: insert_batch_def calmer_def split: if_splits)

lemma calmer_members: "prepare_scope_membership a bid cs items q = Inr (n, r) \<Longrightarrow> calmer q r"
  by (rule calmer_same) (auto simp: prepare_scope_membership_def Let_def split: if_splits)

lemma calmer_close: "calmer q (close_planning bid q)"
  unfolding close_planning_def by (rule calmer_batches) simp

lemma calmer_prepare:
  assumes "prepare_batch a digest cols schemas bid now request cs items ops q = Inr (x, r)"
  shows "calmer q r"
proof (cases "find_request request q")
  case (Some previous)
  with assms show ?thesis by (auto simp: prepare_batch_def Let_def map_sum_Inr_iff split: if_splits)
next
  case None
  let ?insert = "insert_batch (draft_batch bid request (selected_operations ops) now) q"
  from None assms have "\<exists>q1. ?insert = Inr q1"
    by (cases ?insert) (auto simp: prepare_batch_def Let_def split: if_splits)
  then obtain q1 where q1: "?insert = Inr q1" by blast
  let ?scope = "prepare_scope_membership a bid (sorted_dedup cs) (sorted_dedup items) q1"
  from None assms q1 have "\<exists>m. ?scope = Inr m"
    by (cases ?scope) (auto simp: prepare_batch_def Let_def split: if_splits)
  then obtain n q2 where q2: "?scope = Inr (n, q2)" by auto
  from None assms have "\<exists>y. record_request y (if n = 0 then close_planning bid q2 else q2) = Inr r"
    by (auto simp: prepare_batch_def Let_def q1 q2 map_sum_Inr_iff split: if_splits)
  then obtain y where "record_request y (if n = 0 then close_planning bid q2 else q2) = Inr r" by blast
  note q1 q2 this
  then have "calmer q q1" "calmer q1 q2" "calmer (if n = 0 then close_planning bid q2 else q2) r"
    by (simp_all add: calmer_insert draft_batch_def calmer_members calmer_record)
  moreover have "calmer q2 (if n = 0 then close_planning bid q2 else q2)" by (simp add: calmer_close)
  ultimately show ?thesis by (meson calmer_trans)
qed

lemma calmer_prepare_job: "calmer (wd_queue w) (wd_queue (snd (prepare_job e client request cs items ops w)))"
  using calmer_prepare by (auto simp: prepare_job_def split: sum.split option.split prod.split)

lemma calmer_create: "calmer (wd_queue (ed_world s)) (wd_queue (ed_world (snd (create_collection_once e client r name d s))))"
  using calmer_record by (auto simp: create_collection_once_def Let_def split: option.split sum.split)

lemma corpus_edit_queue [simp]:
  "wd_queue (snd (update_collection_at e cid n patch w)) = wd_queue w"
  "wd_queue (snd (update_item_at e iid n title metadata w)) = wd_queue w"
  by (simp_all add: update_collection_at_def update_item_at_def split: prod.split)

lemma calmer_processing:
  "calmer (wd_queue (ed_world s)) (wd_queue (ed_world (snd (processing_control e p job action n single f s))))"
  by (auto simp: processing_control_def intro!: calmer_control_now split: option.split)

lemma calmer_run_call: "calmer (wd_queue (ed_world s)) (wd_queue (ed_world (snd (run_call e p call s))))"
  by (cases call) (auto simp: snd_case_pair approvals_status_def intro: calmer_prepare_job calmer_create calmer_processing)

lemma calmer_call: "calmer (wd_queue (ed_world s)) (wd_queue (ed_world (snd (handle_call e p call s))))"
  by (simp add: handle_call_def calmer_run_call)

section \<open>An approved action runs on what was asked\<close>

text \<open>The actions on jobs.\<close>

definition is_job_action :: "approval_action \<Rightarrow> bool" where
  "is_job_action act \<longleftrightarrow> (case act of ActStart \<Rightarrow> True | ActResume \<Rightarrow> True | ActRetry a b \<Rightarrow> True | _ \<Rightarrow> False)"

definition job_at :: "str \<Rightarrow> int \<Rightarrow> queue \<Rightarrow> bool" where
  "job_at job revision q \<longleftrightarrow> (case find_batch job q of None \<Rightarrow> False | Some b \<Rightarrow> bt_revision b = revision)"

lemma control_one_fenced:
  "control_batches (Some job) action (Some n) q = (err, r) \<Longrightarrow> err = None \<or> r \<noteq> q \<Longrightarrow> job_at job n q"
  by (auto simp: control_batches_def control_targets_def control_batch_def job_at_def check_revision_def
      split: option.splits if_splits)

lemma start_fenced: "start_batch job (Some n) q = Inr r \<Longrightarrow> job_at job n q"
  by (auto simp: start_batch_def job_at_def check_revision_def split: option.splits if_splits)

lemma execute_fenced:
  assumes "execute e a w = (err, w1)" and "is_job_action (ap_action a)" and "err = None \<or> wd_queue w1 \<noteq> wd_queue w"
  shows "job_at (ap_job a) (ap_revision a) (wd_queue w)"
proof (cases "ap_action a")
  case ActStart
  with assms show ?thesis
    by (auto simp: execute_def Let_def with_queue_def dest: start_fenced split: sum.splits)
next
  case ActResume
  obtain x r where c: "control_batches (Some (ap_job a)) AResume (Some (ap_revision a)) (wd_queue w) = (x, r)" by fastforce
  with ActResume assms(1) have "err = map_option queue_failure x" "wd_queue w1 = r"
    by (auto simp: execute_def Let_def with_queue_def)
  with assms(3) control_one_fenced [OF c] show ?thesis by auto
next
  case (ActRetry single failed_only)
  with assms show ?thesis
    by (auto simp: execute_def Let_def with_queue_def fence_revision_def job_at_def split: option.splits if_splits)
qed (use assms(2) in \<open>simp_all add: is_job_action_def\<close>)

end
