(* ===== verification/AgentTables.thy ===== *)
theory AgentTables
  imports AgentEffects "HOL-Library.Multiset"
begin

text \<open>
  What calls and approved actions do to the tables of the archive: they stay sound, an approved delete
  takes exactly the items it named as they were, an approved import takes the files it listed as
  they were.
\<close>

section \<open>The tables stay sound\<close>

lemma corpus_ok_snd: "corpus_ok (snd z) \<Longrightarrow> z = (r, d) \<Longrightarrow> corpus_ok d"
  by simp

lemma insert_collection_ok: "corpus_ok c \<Longrightarrow> insert_collection x c = Inr d \<Longrightarrow> corpus_ok d"
proof -
  assume ok: "corpus_ok c" and "insert_collection x c = Inr d"
  then have d: "d = c\<lparr>ks_collections := ks_collections c @ [x]\<rparr>" and "cc_id x \<notin> set (map cc_id (ks_collections c))"
    using find_collection_id [of "cc_id x" c] by (auto simp: insert_collection_def split: if_splits)
  then show ?thesis using corpus_ok_known [OF ok] unfolding d corpus_ok_def Let_def
    by (auto simp: list_all_iff)
qed

lemma create_collection_ok:
  "corpus_ok c \<Longrightarrow> create_collection now minted name description wanted c = Inr (x, d) \<Longrightarrow> corpus_ok d"
  by (auto simp: create_collection_def try_then_Inr_iff map_sum_Inr_iff Let_def intro: insert_collection_ok)

lemma update_collection_ok:
  assumes "corpus_ok c" and "\<And>d. corpus_ok d \<Longrightarrow> corpus_ok (others d)"
  shows "corpus_ok (snd (update_collection now others cid p expected c))"
proof -
  have "corpus_ok (d\<lparr>ks_collections := map (\<lambda>y. if h y then y\<lparr>cc_name := n, cc_description := t, cc_updated := u\<rparr> else y)
      (ks_collections d)\<rparr>) = corpus_ok d" for d h n t u
    by (rule corpus_ok_cong) (simp_all add: comp_def)
  with assms show ?thesis unfolding update_collection_def by (auto simp: Let_def split: sum.split prod.split)
qed

lemma delete_items_ok:
  assumes "corpus_ok c"
  shows "corpus_ok (snd (delete_items_if_unchanged sha committed ids expected c))"
  using remove_items_ok [OF assms] assms
  by (auto simp: delete_items_if_unchanged_def run_in_transaction_def guarded_def delete_items_rows_def map_sum_def Let_def
      split: sum.splits option.splits prod.splits)

lemma delete_collection_ok:
  assumes "corpus_ok c"
  shows "corpus_ok (snd (delete_collection_if_unchanged sha committed cid expected c))"
proof -
  have "corpus_ok (remove_collection cid (remove_items (collection_item_ids cid c) c))"
    by (rule remove_collection_ok [OF remove_items_ok [OF assms] collection_items_gone [OF assms]])
  then show ?thesis using assms
    by (auto simp: delete_collection_if_unchanged_def run_in_transaction_def guarded_def delete_collection_rows_def
        read_collection_item_ids_def Let_def split: sum.splits option.splits prod.splits if_splits)
qed

lemma import_plan_ok:
  assumes "corpus_ok c" and "\<And>i d. corpus_ok d \<Longrightarrow> corpus_ok (im_others (xe_import e i) d)"
  shows "corpus_ok (snd (import_plan e folders data_dir col i plan (r, c)))"
  using assms(1)
proof (induction plan arbitrary: i r c)
  case (Cons f plan)
  have "corpus_ok (snd (import_planned e folders data_dir col i f c))"
    using Cons.prems import_file_ok [OF Cons.prems assms(2), of i col _ no_overrides]
    by (auto simp: import_planned_def Let_def dest: corpus_ok_snd split: sum.split import_outcome.split prod.split)
  then show ?case using Cons.IH
    by (cases "import_planned e folders data_dir col i f c") (auto split: sum.split)
qed simp

text \<open>Other connections keep the tables sound too.\<close>

definition others_sound :: "exec_env \<Rightarrow> bool" where
  "others_sound x \<longleftrightarrow> (\<forall>d. corpus_ok d \<longrightarrow> corpus_ok (xe_others x d))
     \<and> (\<forall>i d. corpus_ok d \<longrightarrow> corpus_ok (im_others (xe_import x i) d))"

lemma run_approved_ok:
  assumes "corpus_ok (wd_corpus w)" and "others_sound x"
  shows "corpus_ok (wd_corpus (snd (run_approved x ctx a w)))"
proof -
  have replace: "corpus_ok (snd (replace_page_text (xe_sha x) (xe_now x) (xe_indexed x) (xe_others x) aid h t (wd_corpus w)))"
    for aid h t using assms by (intro replace_page_text_ok) (auto simp: others_sound_def)
  have planned: "corpus_ok (snd (import_plan x folders d col 0 plan (r, wd_corpus w)))" for folders d col plan r
    using assms by (intro import_plan_ok) (auto simp: others_sound_def)
  have "corpus_ok (wd_corpus (snd (execute x a w)))"
    using assms(1) replace [THEN corpus_ok_snd] by (auto simp: execute_def Let_def with_queue_def
        split: approval_action.split option.split sum.split prod.split)
  moreover have "corpus_ok (wd_corpus (snd (run_delete x ctx a w)))"
    using assms(1) delete_items_ok delete_collection_ok
    by (auto simp: run_delete_def with_delete_def split: approval_action.split)
  moreover have "corpus_ok (wd_corpus (snd (run_import x ctx a col w)))" for col
    using assms(1) planned [THEN corpus_ok_snd] by (auto simp: run_import_def split: option.split prod.split)
  ultimately show ?thesis
    by (simp add: run_approved_def Let_def split_beta split: approval_action.split)
qed

lemma run_call_ok:
  assumes "corpus_ok (wd_corpus (ed_world s))" and "\<And>d. corpus_ok d \<Longrightarrow> corpus_ok (te_others e d)"
  shows "corpus_ok (wd_corpus (ed_world (snd (run_call e p call s))))"
proof -
  let ?w = "ed_world s"
  have "wd_corpus (snd (prepare_job e client request cs items ops ?w)) = wd_corpus ?w" for client request cs items ops
    by (auto simp: prepare_job_def split: sum.split option.split prod.split)
  moreover have "wd_corpus (snd (control_now e job action n ?w)) = wd_corpus ?w" for job action n
    by (auto simp: control_now_def split: option.split prod.split)
  moreover have "corpus_ok (wd_corpus (ed_world (snd (create_collection_once e client request name d s))))" for client request name d
    using assms(1) create_collection_ok
    by (auto simp: create_collection_once_def Let_def split: option.split sum.split prod.split)
  moreover have "corpus_ok (wd_corpus (snd (update_collection_at e cid n patch ?w)))" for cid n patch
    using assms(1) update_collection_ok [OF assms] by (simp add: update_collection_at_def split_beta)
  moreover have "corpus_ok (wd_corpus (snd (update_item_at e iid n title metadata ?w)))" for iid n title metadata
    using assms(1) update_item_ok [OF assms] by (simp add: update_item_at_def split_beta)
  ultimately show ?thesis using assms(1)
    by (cases call) (auto simp: snd_case_pair processing_control_def approvals_status_def split: option.split)
qed

lemma handle_call_ok:
  assumes "corpus_ok (wd_corpus (ed_world s))" and "\<And>d. corpus_ok d \<Longrightarrow> corpus_ok (te_others e d)"
  shows "corpus_ok (wd_corpus (ed_world (snd (handle_call e p call s))))"
  using assms(1) run_call_ok [OF assms] by (simp add: handle_call_def)

section \<open>An approved delete\<close>

lemma ask_owner_action: "ask_owner e r st = (Inr a, st') \<Longrightarrow> ap_action a = qr_action r"
proof -
  assume "ask_owner e r st = (Inr a, st')"
  then have a: "a = fst (request_approval (te_approval e) (te_now e) r st)"
    by (auto simp: ask_owner_def split: prod.splits)
  show ?thesis
  proof (cases "find (is_same_request r) (expire (te_now e) st)")
    case None
    with a show ?thesis by (simp add: request_approval_def Let_def new_approval_def)
  next
    case (Some b)
    then have "is_same_request r b" by (auto simp: find_Some_iff)
    with a Some show ?thesis by (simp add: request_approval_def Let_def is_same_request_def)
  qed
qed

lemma corpus_request_action [simp]: "qr_action (corpus_request p action op names files) = action"
  by (simp add: corpus_request_def)

text \<open>The items a delete request names: each once, in order.\<close>

definition named_items :: "str list \<Rightarrow> str list" where
  "named_items ids = sort (rev (remdups (rev ids)))"

lemma set_named_items [simp]: "set (named_items ids) = set ids" "distinct (named_items ids)" "sort (named_items ids) = named_items ids"
  by (simp_all add: named_items_def sorted_sort_id)

text \<open>The text the fence of a delete of items is the digest of.\<close>

definition fence_text :: "str list \<Rightarrow> corpus \<Rightarrow> str" where
  "fence_text ids c = join [0] (fence_fields (DsItems ids) ids c)"

lemma request_items_Inr:
  assumes "request_items_deletion e p ids c st = (Inr a, st')"
  obtains hash where "ap_action a = ActDeleteItems (named_items ids) hash"
    and "delete_fence (te_sha e) (DsItems (named_items ids)) (te_others e c) = Inr hash"
proof -
  have unique: "normalized_item_ids ids = Inr (rev (remdups (rev ids)))"
    using assms by (auto simp: request_items_deletion_def normalized_item_ids_def split: if_splits sum.splits)
  let ?named = "named_items ids"
  obtain impact where impact: "delete_impact (DsItems ?named) c = Inr impact"
    using assms by (cases "delete_impact (DsItems ?named) c")
      (auto simp: request_items_deletion_def unique Let_def named_items_def split: if_splits)
  obtain hash where hash: "delete_fence (te_sha e) (DsItems ?named) (te_others e c) = Inr hash"
    using assms impact by (cases "delete_fence (te_sha e) (DsItems ?named) (te_others e c)")
      (auto simp: request_items_deletion_def unique Let_def named_items_def split: if_splits)
  have "ap_action a = ActDeleteItems ?named hash"
    using assms impact hash by (auto simp: request_items_deletion_def unique Let_def named_items_def
        split: if_splits prod.splits dest!: ask_owner_action)
  with hash that show thesis by blast
qed

lemma fence_scope:
  assumes "distinct ids" and "delete_fence sha (DsItems ids) c = Inr hash"
  shows "read_scope_item_ids (DsItems ids) c = Inr ids"
proof -
  have "normalized_item_ids ids = Inr ids" if "normalized_item_ids ids = Inr js" for js
    using that assms(1) by (auto simp: normalized_item_ids_def distinct_remdups_id split: if_splits)
  with assms(2) show ?thesis
    by (cases "normalized_item_ids ids")
      (auto simp: delete_fence_def read_scope_item_ids_def map_sum_Inr_iff try_then_Inr_iff)
qed

lemma run_delete_items:
  assumes "run_approved x ctx a w = (r, w')" and "ap_action a = ActDeleteItems ids hash" and "distinct ids"
    and "wd_corpus w' \<noteq> wd_corpus w \<or> r = Inr y"
  shows "delete_fence (xe_sha x) (DsItems ids) (wd_corpus w) = Inr hash \<and> wd_corpus w' = remove_items ids (wd_corpus w)
    \<and> wd_queue w' = wd_queue w"
proof -
  obtain r1 where d: "run_delete x ctx a w = (r1, w')" and r: "r = (case r1 of Some err \<Rightarrow> Inl err | None \<Rightarrow> Inr None)"
    using assms(1,2) by (cases "run_delete x ctx a w") (auto simp: run_approved_def Let_def)
  have none: "wd_corpus w' \<noteq> wd_corpus w \<or> r1 = None" using assms(4) r by (auto split: option.splits)
  obtain z where z: "delete_items_if_unchanged (xe_sha x) (xe_committed x) ids hash (wd_corpus w) = z" by simp
  have w': "(r1, w') = with_delete w z"
    using d assms(2) none z by (auto simp: run_delete_def split: if_splits)
  have n: "normalized_item_ids ids = Inr ids" if "normalized_item_ids ids = Inr js" for js
    using that assms(3) by (auto simp: normalized_item_ids_def distinct_remdups_id split: if_splits)
  have "fst z = Inl err \<Longrightarrow> snd z = wd_corpus w" for err
    using z by (auto simp: delete_items_if_unchanged_def run_in_transaction_def split: sum.splits prod.splits if_splits)
  with none w' obtain out where out: "fst z = Inr out" by (cases "fst z") (auto simp: with_delete_def)
  with z n have *: "guarded (check_fence (xe_sha x) (DsItems ids) hash (wd_corpus w)) (delete_items_rows ids (wd_corpus w))
      = Inr (out, snd z)"
    by (cases "normalized_item_ids ids") (auto simp: delete_items_if_unchanged_def run_in_transaction_def
        split: sum.splits prod.splits if_splits)
  then have "check_fence (xe_sha x) (DsItems ids) hash (wd_corpus w) = None" "snd z = remove_items ids (wd_corpus w)"
    by (auto simp: guarded_def delete_items_rows_def map_sum_Inr_iff Let_def split: option.splits)
  with w' show ?thesis by (auto simp: with_delete_def check_fence_def split: sum.splits if_splits)
qed

section \<open>An approved import\<close>

text \<open>A planned file is still what the request listed: in an enabled folder, of the same size and time.\<close>

definition is_as_planned :: "exec_env \<Rightarrow> path list \<Rightarrow> path \<Rightarrow> nat \<Rightarrow> source_file \<Rightarrow> bool" where
  "is_as_planned e folders data_dir i f \<longleftrightarrow>
     (case CorpusImport.check_source (xe_disk e i) (dk_text (xe_disk e i) (sf_path f)) folders data_dir of
        Inl err \<Rightarrow> False
      | Inr current \<Rightarrow> sf_size current = sf_size f \<and> sf_modified current = sf_modified f)"

text \<open>The entry of an import stands for a planned file that is as planned.\<close>

definition imports_planned :: "exec_env \<Rightarrow> path list \<Rightarrow> path \<Rightarrow> nat \<Rightarrow> source_file list \<Rightarrow> str \<times> str \<times> str \<Rightarrow> bool" where
  "imports_planned e folders data_dir i plan entry \<longleftrightarrow>
     list_ex (\<lambda>(n, f). sf_name f = fst entry \<and> is_as_planned e folders data_dir n f) (enumerate i plan)"

lemma import_planned_Inr:
  "import_planned e folders data_dir col i f c = (Inr y, d) \<Longrightarrow> is_as_planned e folders data_dir i f"
  by (auto simp: import_planned_def is_as_planned_def Let_def split: sum.splits if_splits)

lemma import_planned_skipped:
  "\<not> is_as_planned e folders data_dir i f \<Longrightarrow> snd (import_planned e folders data_dir col i f c) = c"
  by (auto simp: import_planned_def is_as_planned_def Let_def split: sum.split)

lemma import_plan_reports:
  "mset (map fst (ir_imported (fst (import_plan e folders data_dir col i plan (r, c))))
     @ map fst (ir_skipped (fst (import_plan e folders data_dir col i plan (r, c)))))
   = mset (map fst (ir_imported r)) + mset (map fst (ir_skipped r)) + mset (map sf_name plan)"
proof (induction plan arbitrary: i r c)
  case (Cons f plan)
  then show ?case
    by (cases "import_planned e folders data_dir col i f c") (auto split: sum.split)
qed simp

lemma import_plan_imported:
  "y \<in> set (ir_imported (fst (import_plan e folders data_dir col i plan (r, c)))) \<Longrightarrow>
    y \<in> set (ir_imported r) \<or> imports_planned e folders data_dir i plan y"
proof (induction plan arbitrary: i r c)
  case (Cons f plan)
  obtain z d where z: "import_planned e folders data_dir col i f c = (z, d)" by fastforce
  show ?case
  proof (cases z)
    case (Inl why)
    with Cons z show ?thesis by (fastforce simp: imports_planned_def)
  next
    case (Inr y1)
    then have "is_as_planned e folders data_dir i f" using z by (blast intro: import_planned_Inr)
    with Cons z Inr show ?thesis by (cases y1) (fastforce simp: imports_planned_def)
  qed
qed simp

lemma import_plan_nothing:
  assumes "list_all (\<lambda>(n, f). \<not> is_as_planned e folders data_dir n f) (enumerate i plan)"
  shows "snd (import_plan e folders data_dir col i plan (r, c)) = c"
  using assms
proof (induction plan arbitrary: i r)
  case (Cons f plan)
  have no: "\<not> is_as_planned e folders data_dir i f" using Cons.prems by simp
  obtain z d where z: "import_planned e folders data_dir col i f c = (z, d)" by fastforce
  have "d = c" using import_planned_skipped [OF no, of col c] z by simp
  with z Cons show ?case by (auto split: sum.split)
qed simp

end
