(* ===== verification/AgentWho.thy ===== *)
theory AgentWho
  imports AgentAccess
begin

text \<open>
  What the access state guarantees: the file and the memory agree on who may connect after every
  operation, whatever fails, and a token stands for the client it was minted for.

  The step relation \<open>access_step\<close> carries the pairings ever attempted beside the state; a new pairing
  uses an identifier and a token not used before, which is what the generator promises.
\<close>

section \<open>The state up to the last use\<close>

definition unused :: "client_record \<Rightarrow> client_record" where
  "unused c = c\<lparr>cl_used := None\<rparr>"

definition idle :: "access_state \<Rightarrow> access_state" where
  "idle s = s\<lparr>gs_clients := map unused (gs_clients s)\<rparr>"

lemma unused_simps [simp]:
  "cl_id (unused c) = cl_id c" "cl_name (unused c) = cl_name c" "cl_scopes (unused c) = cl_scopes c"
  "cl_hash (unused c) = cl_hash c" "cl_store (unused c) = cl_store c" "unused (unused c) = unused c"
  "unused (c\<lparr>cl_used := t\<rparr>) = unused c"
  by (simp_all add: unused_def)

lemma principal_of_unused [simp]: "principal_of (unused c) = principal_of c"
  by (simp add: principal_of_def)

lemma idle_simps [simp]:
  "gs_version (idle s) = gs_version s" "gs_enabled (idle s) = gs_enabled s"
  "gs_folders (idle s) = gs_folders s" "gs_clients (idle s) = map unused (gs_clients s)"
  by (simp_all add: idle_def)

lemma idle_eq_iff:
  "idle s = idle t \<longleftrightarrow> gs_version s = gs_version t \<and> gs_enabled s = gs_enabled t
     \<and> gs_folders s = gs_folders t \<and> map unused (gs_clients s) = map unused (gs_clients t)"
  by (cases s, cases t) (auto simp: idle_def)

lemma idle_version: "idle s = idle t \<Longrightarrow> gs_version s = gs_version t"
  by (simp add: idle_eq_iff)

text \<open>Who a token stands for: the answer of \<open>authenticate\<close> without its note of the use.\<close>

definition who :: "(str \<Rightarrow> str) \<Rightarrow> str \<Rightarrow> access_state \<Rightarrow> principal option" where
  "who sha token s =
     (if starts_with token_prefix token \<and> gs_enabled s
      then map_option principal_of (find (\<lambda>c. cl_hash c = sha token) (gs_clients s)) else None)"

lemma authenticate_who: "fst (authenticate sha e token a) = who sha token (aa_state a)"
  by (simp add: authenticate_def who_def split: option.split)

lemma find_map_cong: "(\<And>x. p (f x) = p x) \<Longrightarrow> find p (map f xs) = map_option f (find p xs)"
  by (induction xs) auto

lemma who_idle: "who sha token (idle s) = who sha token s"
  by (simp add: who_def find_map_cong option.map_comp comp_def)

lemma who_cong: "idle s = idle t \<Longrightarrow> who sha token s = who sha token t"
  by (metis who_idle)

lemma map_unused_note [simp]:
  "map unused (update_first p (\<lambda>c. c\<lparr>cl_used := u\<rparr>) cs) = map unused cs"
  by (induction cs) auto

lemma idle_note_use [simp]: "idle (aa_state (note_use e h a)) = idle (aa_state a)"
  by (simp add: note_use_def Let_def idle_eq_iff)

section \<open>The invariant\<close>

type_synonym pairings = "(str \<times> str) list"

definition file_agrees :: "agent_access \<Rightarrow> bool" where
  "file_agrees a \<longleftrightarrow> gs_version (aa_state a) = access_file_version \<and>
     (case aa_file a of GoodFile s \<Rightarrow> idle s = idle (aa_state a) | _ \<Rightarrow> idle (aa_state a) = default_access)"

definition client_ok :: "(str \<Rightarrow> str) \<Rightarrow> pairings \<Rightarrow> client_record \<Rightarrow> bool" where
  "client_ok sha ps c \<longleftrightarrow> (\<exists>token. (cl_id c, token) \<in> set ps \<and> cl_hash c = sha token)"

definition clients_ok :: "(str \<Rightarrow> str) \<Rightarrow> pairings \<Rightarrow> client_record list \<Rightarrow> bool" where
  "clients_ok sha ps cs \<longleftrightarrow> distinct (map cl_id cs) \<and> list_all (client_ok sha ps) cs"

definition access_ok :: "(str \<Rightarrow> str) \<Rightarrow> pairings \<times> agent_access \<Rightarrow> bool" where
  "access_ok sha = (\<lambda>(ps, a). distinct (map fst ps) \<and> distinct (map snd ps) \<and> file_agrees a
     \<and> clients_ok sha ps (gs_clients (aa_state a)))"

lemma client_ok_unused [simp]: "client_ok sha ps (unused c) = client_ok sha ps c"
  by (simp add: client_ok_def)

lemma clients_ok_unused: "clients_ok sha ps (map unused cs) = clients_ok sha ps cs"
  by (simp add: clients_ok_def comp_def list.pred_map)

lemma clients_ok_cong: "map unused cs = map unused ds \<Longrightarrow> clients_ok sha ps cs = clients_ok sha ps ds"
  by (metis clients_ok_unused)

lemma clients_ok_sub: "clients_ok sha ps cs \<Longrightarrow> set ps \<subseteq> set qs \<Longrightarrow> clients_ok sha qs cs"
  by (fastforce simp: clients_ok_def list_all_iff client_ok_def)

lemma clients_ok_filter: "clients_ok sha ps cs \<Longrightarrow> clients_ok sha ps (filter p cs)"
  by (auto simp: clients_ok_def list_all_iff distinct_map_filter)

lemma update_first_const:
  "find p cs = Some c \<Longrightarrow> g d = g c \<Longrightarrow> map g (update_first p (\<lambda>_. d) cs) = map g cs"
  by (induction cs) (auto split: if_splits)

lemma set_update_first: "set (update_first p f cs) \<subseteq> set cs \<union> f ` set cs"
  by (induction cs) auto

lemma clients_ok_update_first:
  assumes "clients_ok sha ps cs" and "find p cs = Some c" and "cl_id d = cl_id c" and "cl_hash d = cl_hash c"
  shows "clients_ok sha ps (update_first p (\<lambda>_. d) cs)"
proof -
  have "c \<in> set cs" using assms(2) by (auto simp: find_Some_iff)
  with assms have "client_ok sha ps d" by (simp add: clients_ok_def list_all_iff client_ok_def)
  with assms show ?thesis
    using set_update_first [of p "\<lambda>_. d" cs] by (fastforce simp: clients_ok_def list_all_iff update_first_const)
qed

lemma store_state_Inr:
  "store_state e s a = Inr b \<Longrightarrow> b = a\<lparr>aa_file := GoodFile s, aa_state := s\<rparr>"
  by (simp add: store_state_def split: if_splits)

lemma store_state_ok:
  assumes "access_ok sha (ps, a)" and "store_state e s a = Inr b" and "gs_version s = gs_version (aa_state a)"
    and "clients_ok sha ps (gs_clients s)"
  shows "access_ok sha (ps, b)"
  using assms by (auto simp: access_ok_def file_agrees_def dest!: store_state_Inr split: access_file.splits)

lemma tokens_only:
  "aa_state b = aa_state a \<Longrightarrow> aa_file b = aa_file a \<Longrightarrow> access_ok sha (ps, b) = access_ok sha (ps, a)"
  by (simp add: access_ok_def file_agrees_def split: access_file.split)

lemma delete_token_keeps [simp]:
  "aa_state (snd (delete_token e cid st a)) = aa_state a"
  "aa_file (snd (delete_token e cid st a)) = aa_file a"
  by (simp_all add: delete_token_def Let_def)

lemma store_token_keeps:
  assumes "store_token e cid token a = (r, b)"
  shows "aa_state b = aa_state a" and "aa_file b = aa_file a"
  using assms by (auto simp: store_token_def split: keyring_answer.splits if_splits)

lemma access_ok_more:
  assumes "access_ok sha (ps, a)" and "cid \<notin> fst ` set ps" and "token \<notin> snd ` set ps"
  shows "access_ok sha ((cid, token) # ps, a)"
  using assms by (auto simp: access_ok_def image_iff intro: clients_ok_sub [where ps = ps])

lemma clients_ok_new:
  assumes "clients_ok sha ps cs" and "cid \<notin> fst ` set ps"
  shows "clients_ok sha ((cid, token) # ps) (cs @ [new_client cid name (sha token) st now])"
proof -
  have "cid \<notin> cl_id ` set cs"
    using assms by (force simp: clients_ok_def list_all_iff client_ok_def)
  moreover have "clients_ok sha ((cid, token) # ps) cs"
    using assms(1) by (rule clients_ok_sub) auto
  ultimately show ?thesis by (auto simp: clients_ok_def client_ok_def new_client_def)
qed

lemma create_client_ok:
  assumes ok: "access_ok sha (ps, a)" and fresh: "cid \<notin> fst ` set ps" "token \<notin> snd ` set ps"
  shows "access_ok sha ((cid, token) # ps, snd (create_client sha e cid token raw a))"
proof -
  have more: "access_ok sha ((cid, token) # ps, b)" if "aa_state b = aa_state a" "aa_file b = aa_file a" for b
    using access_ok_more [OF ok fresh] tokens_only [OF that] by blast
  obtain r a1 where st: "store_token e cid token a = (r, a1)" by (cases "store_token e cid token a")
  note kept = store_token_keeps [OF st]
  show ?thesis
  proof (cases r)
    case (Inl err)
    with st more kept show ?thesis by (simp add: create_client_def Let_def more)
  next
    case (Inr store)
    let ?c = "new_client cid (trim raw) (sha token) store (ae_now e)"
    let ?s = "(aa_state a1)\<lparr>gs_clients := gs_clients (aa_state a1) @ [?c]\<rparr>"
    have "clients_ok sha ((cid, token) # ps) (gs_clients ?s)"
      using ok fresh(1) kept by (simp add: access_ok_def clients_ok_new)
    then have "access_ok sha ((cid, token) # ps, a2)" if "store_state e ?s a1 = Inr a2" for a2
      using that more [OF kept] by (intro store_state_ok [OF _ that]) simp_all
    with Inr st kept show ?thesis
      by (auto simp: create_client_def Let_def more split: sum.split)
  qed
qed

lemma revoke_client_ok: "access_ok sha (ps, a) \<Longrightarrow> access_ok sha (ps, snd (revoke_client e cid a))"
proof (cases "find_client cid (aa_state a)")
  case None
  then show "access_ok sha (ps, a) \<Longrightarrow> ?thesis" by (simp add: revoke_client_def)
next
  case (Some c)
  assume ok: "access_ok sha (ps, a)"
  let ?s = "(aa_state a)\<lparr>gs_clients := filter (\<lambda>x. cl_id x \<noteq> cid) (gs_clients (aa_state a))\<rparr>"
  have "access_ok sha (ps, b)" if "store_state e ?s a = Inr b" for b
    using ok by (intro store_state_ok [OF ok that]) (simp_all add: access_ok_def clients_ok_filter)
  then have "access_ok sha (ps, snd (delete_token e x st b))" if "store_state e ?s a = Inr b" for x st b
    using that tokens_only by (metis delete_token_keeps)
  with Some ok show ?thesis
    by (auto simp: revoke_client_def split: sum.split prod.split) (metis snd_conv)
qed

lemma set_grants_ok:
  assumes ok: "access_ok sha (ps, a)" and s: "set_grants e cid g a = Inr (v, b)"
  shows "access_ok sha (ps, b)"
proof -
  obtain c where c: "find_client cid (aa_state a) = Some c"
    using s by (auto simp: set_grants_def split: option.splits)
  let ?d = "c\<lparr>cl_scopes := granted_scopes g (cl_scopes c)\<rparr>"
  let ?s = "(aa_state a)\<lparr>gs_clients := update_first (\<lambda>x. cl_id x = cid) (\<lambda>_. ?d) (gs_clients (aa_state a))\<rparr>"
  have b: "store_state e ?s a = Inr b" using s c
    by (cases "store_state e ?s a") (auto simp: set_grants_def Let_def)
  show ?thesis
    using ok c by (intro store_state_ok [OF ok b])
      (auto simp: access_ok_def find_client_def intro!: clients_ok_update_first)
qed

lemma set_enabled_ok:
  assumes "access_ok sha (ps, a)" and "set_enabled e on a = Inr b"
  shows "access_ok sha (ps, b)"
  using assms(1) by (intro store_state_ok [OF assms(1) assms(2) [unfolded set_enabled_def]]) (auto simp: access_ok_def)

lemma folders_ok:
  assumes "access_ok sha (ps, a)" and "store_state e ((aa_state a)\<lparr>gs_folders := fs\<rparr>) a = Inr b"
  shows "access_ok sha (ps, b)"
  using assms(1) by (intro store_state_ok [OF assms]) (auto simp: access_ok_def)

lemma add_import_folder_ok:
  "access_ok sha (ps, a) \<Longrightarrow> access_ok sha (ps, snd (add_import_folder e fs path a))"
  by (auto simp: add_import_folder_def Let_def dest: folders_ok split: folder_answer.split sum.split)

lemma remove_import_folder_ok:
  "access_ok sha (ps, a) \<Longrightarrow> access_ok sha (ps, snd (remove_import_folder e path a))"
  by (auto simp: remove_import_folder_def Let_def dest: folders_ok split: sum.split)

lemma note_use_ok: "access_ok sha (ps, a) \<Longrightarrow> access_ok sha (ps, note_use e h a)"
proof -
  assume ok: "access_ok sha (ps, a)"
  have "map unused (gs_clients (aa_state (note_use e h a))) = map unused (gs_clients (aa_state a))"
    by (simp add: note_use_def Let_def)
  then have "clients_ok sha ps (gs_clients (aa_state (note_use e h a)))"
    using ok by (simp add: access_ok_def clients_ok_cong [of "gs_clients (aa_state (note_use e h a))"])
  moreover have "file_agrees (note_use e h a)"
  proof -
    have "idle (aa_state (note_use e h a)) = idle (aa_state a)" by simp
    moreover have "gs_version (aa_state (note_use e h a)) = gs_version (aa_state a)"
      by (simp add: note_use_def Let_def)
    moreover have "aa_file (note_use e h a) = (if ae_write e then GoodFile (aa_state (note_use e h a)) else aa_file a)"
      by (simp add: note_use_def Let_def)
    ultimately show ?thesis using ok by (simp add: file_agrees_def access_ok_def split: access_file.splits)
  qed
  ultimately show ?thesis using ok by (simp add: access_ok_def)
qed

lemma authenticate_ok: "access_ok sha (ps, a) \<Longrightarrow> access_ok sha (ps, snd (authenticate sha e token a))"
  by (simp add: authenticate_def note_use_ok split: option.split)

lemma idle_default: "idle s = default_access \<Longrightarrow> gs_clients s = []"
  by (cases s) (simp add: idle_def default_access_def)

lemma idle_of_default [simp]: "idle default_access = default_access"
  by (simp add: idle_def default_access_def)

text \<open>A start reads back what was in memory, up to the last uses.\<close>

lemma load_access_idle: "file_agrees a \<Longrightarrow> idle (aa_state (load_access e a)) = idle (aa_state a)"
  by (auto simp: load_access_def file_agrees_def dest: idle_version split: access_file.splits)

lemma load_access_ok: "access_ok sha (ps, a) \<Longrightarrow> access_ok sha (ps, load_access e a)"
proof -
  assume ok: "access_ok sha (ps, a)"
  then have i: "idle (aa_state (load_access e a)) = idle (aa_state a)"
    by (intro load_access_idle) (simp add: access_ok_def)
  moreover from i have "map unused (gs_clients (aa_state (load_access e a))) = map unused (gs_clients (aa_state a))"
    by (simp add: idle_eq_iff)
  moreover have "file_agrees (load_access e a)"
    using ok by (auto simp: load_access_def file_agrees_def access_ok_def dest: idle_version
        split: access_file.splits) (simp_all add: default_access_def)
  ultimately show ?thesis
    using ok by (auto simp: access_ok_def clients_ok_cong [of "gs_clients (aa_state (load_access e a))"])
qed

section \<open>Steps\<close>

definition kept :: "'a \<Rightarrow> 'e + 'a \<Rightarrow> 'a" where
  "kept a r = (case r of Inl _ \<Rightarrow> a | Inr b \<Rightarrow> b)"

inductive access_step :: "(str \<Rightarrow> str) \<Rightarrow> pairings \<times> agent_access \<Rightarrow> pairings \<times> agent_access \<Rightarrow> bool"
  for sha where
  pair: "cid \<notin> fst ` set ps \<Longrightarrow> token \<notin> snd ` set ps \<Longrightarrow>
    access_step sha (ps, a) ((cid, token) # ps, snd (create_client sha e cid token raw a))"
| revoke: "access_step sha (ps, a) (ps, snd (revoke_client e cid a))"
| grant: "access_step sha (ps, a) (ps, kept a (map_sum id snd (set_grants e cid g a)))"
| switch: "access_step sha (ps, a) (ps, kept a (set_enabled e on a))"
| allow: "access_step sha (ps, a) (ps, snd (add_import_folder e fs path a))"
| disallow: "access_step sha (ps, a) (ps, snd (remove_import_folder e path a))"
| call: "access_step sha (ps, a) (ps, snd (authenticate sha e token a))"
| restart: "access_step sha (ps, a) (ps, load_access e a)"

inductive_cases access_stepE: "access_step sha (ps, a) y"

definition fresh_machine :: "pairings \<times> agent_access" where
  "fresh_machine = ([], \<lparr>aa_state = default_access, aa_file = NoFile, aa_keyring = Map.empty, aa_tokens = Map.empty\<rparr>)"

lemma fresh_machine_ok: "access_ok sha fresh_machine"
proof -
  have "gs_version default_access = access_file_version" "gs_clients default_access = []"
    by (simp_all add: default_access_def)
  then show ?thesis by (simp add: fresh_machine_def access_ok_def file_agrees_def clients_ok_def)
qed

lemma access_step_ok: "access_step sha x y \<Longrightarrow> access_ok sha x \<Longrightarrow> access_ok sha y"
proof (induction rule: access_step.induct)
  case pair
  then show ?case by (intro create_client_ok)
next
  case revoke
  then show ?case by (rule revoke_client_ok)
next
  case grant
  then show ?case by (auto simp: kept_def map_sum_Inr_iff dest: set_grants_ok split: sum.splits)
next
  case switch
  then show ?case by (auto simp: kept_def dest: set_enabled_ok split: sum.splits)
next
  case allow
  then show ?case by (rule add_import_folder_ok)
next
  case disallow
  then show ?case by (rule remove_import_folder_ok)
next
  case call
  then show ?case by (rule authenticate_ok)
next
  case restart
  then show ?case by (rule load_access_ok)
qed

lemma access_steps_ok: "(access_step sha)\<^sup>*\<^sup>* x y \<Longrightarrow> access_ok sha x \<Longrightarrow> access_ok sha y"
  by (induction rule: rtranclp_induct) (blast intro: access_step_ok)+

section \<open>Identifiers\<close>

definition client_ids :: "agent_access \<Rightarrow> str set" where
  "client_ids a = cl_id ` set (gs_clients (aa_state a))"

lemma client_ids_idle: "idle (aa_state a) = idle (aa_state b) \<Longrightarrow> client_ids a = client_ids b"
proof -
  have ids: "set (map cl_id (map unused cs)) = cl_id ` set cs" for cs by (simp add: image_image)
  assume "idle (aa_state a) = idle (aa_state b)"
  then have "map unused (gs_clients (aa_state a)) = map unused (gs_clients (aa_state b))"
    by (simp add: idle_eq_iff)
  then show ?thesis unfolding client_ids_def by (simp only: ids [symmetric])
qed

lemma client_ids_state: "aa_state b = aa_state a \<Longrightarrow> client_ids b = client_ids a"
  by (simp add: client_ids_def)

lemma client_ids_store: "store_state e s a = Inr b \<Longrightarrow> client_ids b = cl_id ` set (gs_clients s)"
  by (auto simp: client_ids_def dest: store_state_Inr)

lemma set_grants_ids:
  assumes "set_grants e cid g a = Inr (v, b)"
  shows "client_ids b = client_ids a"
proof -
  obtain c where c: "find (\<lambda>x. cl_id x = cid) (gs_clients (aa_state a)) = Some c"
    using assms by (auto simp: set_grants_def find_client_def split: option.splits)
  let ?d = "c\<lparr>cl_scopes := granted_scopes g (cl_scopes c)\<rparr>"
  let ?cs = "update_first (\<lambda>x. cl_id x = cid) (\<lambda>_. ?d) (gs_clients (aa_state a))"
  have "store_state e ((aa_state a)\<lparr>gs_clients := ?cs\<rparr>) a = Inr b"
    using assms c by (cases "store_state e ((aa_state a)\<lparr>gs_clients := ?cs\<rparr>) a")
      (auto simp: set_grants_def find_client_def Let_def)
  then have "client_ids b = set (map cl_id ?cs)" by (auto dest: client_ids_store)
  also have "map cl_id ?cs = map cl_id (gs_clients (aa_state a))"
    using c by (intro update_first_const) simp_all
  finally show ?thesis by (simp add: client_ids_def)
qed

lemma create_client_ids: "client_ids (snd (create_client sha e cid token raw a)) \<subseteq> insert cid (client_ids a)"
proof -
  obtain r a1 where st: "store_token e cid token a = (r, a1)" by (cases "store_token e cid token a")
  note keep = client_ids_state [OF store_token_keeps(1) [OF st]]
  have del: "client_ids (snd (delete_token e cid st' a1)) = client_ids a" for st'
    using keep client_ids_state [of "snd (delete_token e cid st' a1)" a1] by simp
  show ?thesis
  proof (cases r)
    case (Inl err)
    with st keep show ?thesis by (auto simp: create_client_def Let_def)
  next
    case (Inr store)
    let ?c = "new_client cid (trim raw) (sha token) store (ae_now e)"
    have "client_ids a2 \<subseteq> insert cid (client_ids a)"
      if "store_state e ((aa_state a1)\<lparr>gs_clients := gs_clients (aa_state a1) @ [?c]\<rparr>) a1 = Inr a2" for a2
      using client_ids_store [OF that] store_token_keeps(1) [OF st] by (auto simp: client_ids_def new_client_def)
    with Inr st del show ?thesis by (auto simp: create_client_def Let_def split: sum.split)
  qed
qed

lemma revoke_client_ids:
  assumes "revoke_client e cid a = (r, b)"
  shows "client_ids b \<subseteq> client_ids a" and "r \<in> {Inr True, Inr False, Inl TokenLeft} \<Longrightarrow> cid \<notin> client_ids b"
proof -
  let ?s = "(aa_state a)\<lparr>gs_clients := filter (\<lambda>x. cl_id x \<noteq> cid) (gs_clients (aa_state a))\<rparr>"
  have del: "client_ids (snd (delete_token e x st a1)) = client_ids a1" for x st a1
    by (rule client_ids_state) simp
  have none: "find_client cid (aa_state a) = None \<Longrightarrow> cid \<notin> client_ids a"
    by (auto simp: find_client_def find_None_iff client_ids_def)
  have split: "a2 = snd (delete_token e x st a1)" if "delete_token e x st a1 = (g, a2)" for x st a1 g a2
    using that by simp
  show "client_ids b \<subseteq> client_ids a"
    using assms by (auto simp: revoke_client_def del client_ids_store dest!: split split: option.splits sum.splits prod.splits)
      (auto simp: client_ids_def)
  show "r \<in> {Inr True, Inr False, Inl TokenLeft} \<Longrightarrow> cid \<notin> client_ids b"
    using assms none by (auto simp: revoke_client_def del client_ids_store store_state_def dest!: split
        split: option.splits sum.splits prod.splits if_splits) (auto simp: client_ids_def)
qed

text \<open>A step adds no client but the one it pairs.\<close>

lemma step_ids:
  assumes "access_step sha x y" and "access_ok sha x"
  shows "set (fst x) \<subseteq> set (fst y) \<and> client_ids (snd y) \<subseteq> client_ids (snd x) \<union> (fst ` set (fst y) - fst ` set (fst x))"
  using assms
proof (induction rule: access_step.induct)
  case (pair cid ps token a e raw)
  then show ?case using create_client_ids [of sha e cid token raw a] by auto
next
  case (revoke ps a e cid)
  then show ?case using revoke_client_ids(1) [of e cid a] by (cases "revoke_client e cid a") auto
next
  case (grant ps a e cid g)
  then show ?case by (auto simp: kept_def map_sum_Inr_iff dest: set_grants_ids split: sum.splits)
next
  case (switch ps a e on)
  then show ?case by (auto simp: kept_def set_enabled_def dest!: client_ids_store split: sum.splits) (auto simp: client_ids_def)
next
  case (allow ps a e fs path)
  then show ?case
    by (auto simp: add_import_folder_def Let_def dest!: client_ids_store split: folder_answer.splits sum.splits if_splits)
      (auto simp: client_ids_def)
next
  case (disallow ps a e path)
  then show ?case
    by (auto simp: remove_import_folder_def Let_def dest!: client_ids_store split: sum.splits if_splits)
      (auto simp: client_ids_def)
next
  case (call ps a e token)
  then show ?case by (auto simp: authenticate_def client_ids_idle [of "note_use _ _ a" a] split: option.splits if_splits)
next
  case (restart ps a e)
  then show ?case
    using client_ids_idle [OF load_access_idle, of a e] by (auto simp: access_ok_def)
qed

lemma gone_stays_gone:
  assumes "(access_step sha)\<^sup>*\<^sup>* x y" and "access_ok sha x" and "cid \<in> fst ` set (fst x)" and "cid \<notin> client_ids (snd x)"
  shows "cid \<in> fst ` set (fst y) \<and> cid \<notin> client_ids (snd y)"
  using assms(1)
proof (induction rule: rtranclp_induct)
  case base
  show ?case using assms by simp
next
  case (step y z)
  from step.hyps(1) assms(2) have "access_ok sha y" by (rule access_steps_ok)
  with step.hyps(2) have "set (fst y) \<subseteq> set (fst z)"
      "client_ids (snd z) \<subseteq> client_ids (snd y) \<union> (fst ` set (fst z) - fst ` set (fst y))"
    using step_ids by auto
  with step.IH show ?case by blast
qed

lemma who_is_client: "who sha token (aa_state a) = Some p \<Longrightarrow> pc_client p \<in> client_ids a"
  by (auto simp: who_def client_ids_def principal_of_def find_Some_iff split: if_splits)

text \<open>A token stands for the client it was minted for.\<close>

lemma who_token:
  assumes ok: "access_ok sha (ps, a)" and inj: "inj_on sha (insert token (snd ` set ps))"
    and w: "who sha token (aa_state a) = Some p"
  shows "(pc_client p, token) \<in> set ps"
proof -
  obtain c where c: "c \<in> set (gs_clients (aa_state a))" "cl_hash c = sha token" "p = principal_of c"
    using w by (auto simp: who_def find_Some_iff split: if_splits) (metis nth_mem)
  with ok obtain t where t: "(cl_id c, t) \<in> set ps" "cl_hash c = sha t"
    by (auto simp: access_ok_def clients_ok_def list_all_iff client_ok_def)
  then have "t = token" using c(2) inj by (auto simp: inj_on_def)
  with t c show ?thesis by (simp add: principal_of_def)
qed

end
