(* ===== verification/AgentGuard.thy ===== *)
theory AgentGuard
  imports AgentWho
begin

text \<open>
  The loopback endpoint and its connector: the request guard (\<open>automation/server.rs\<close>), the proof of
  the instance (\<open>automation/proof.rs\<close>), and the other process, which proves the instance before it
  sends a token (\<open>crates/entropia-agent-connector/src\<close>: \<open>proof.rs\<close>, \<open>discovery.rs\<close>,
  \<open>keyring_source.rs\<close>, \<open>relay.rs\<close>).

  SHA-256 and the bytes of a text are the arguments \<open>digest\<close> and \<open>utf8\<close>. A request is what the guard
  reads of it; an answer is its status and the proof header, after any redirect the HTTP client
  followed. The transport behind the guard is the
  tools, modelled apart.
\<close>

section \<open>The instance proof\<close>

definition hmac_block_bytes :: nat where
  "hmac_block_bytes = 64"

definition hex_chars :: nat where
  "hex_chars = 64"

definition is_hex_64 :: "str \<Rightarrow> bool" where
  "is_hex_64 t \<longleftrightarrow> utf8_len t = hex_chars \<and> list_all is_ascii_hexdigit t"

definition hex_digit_of :: "nat \<Rightarrow> nat" where
  "hex_digit_of d = (if d < 10 then 48 + d else 87 + d)"

definition hex_encode :: "8 word list \<Rightarrow> str" where
  "hex_encode bs = concat (map (\<lambda>b. [hex_digit_of (unat b div 16), hex_digit_of (unat b mod 16)]) bs)"

definition hmac_block :: "(8 word list \<Rightarrow> 8 word list) \<Rightarrow> 8 word list \<Rightarrow> 8 word list" where
  "hmac_block digest key =
     (let start = (if length key > hmac_block_bytes then digest key else key)
      in start @ replicate (hmac_block_bytes - length start) 0)"

definition hmac_sha256 :: "(8 word list \<Rightarrow> 8 word list) \<Rightarrow> 8 word list \<Rightarrow> 8 word list \<Rightarrow> 8 word list" where
  "hmac_sha256 digest key message =
     (let block = hmac_block digest key;
          inner = digest (map (\<lambda>b. Bit_Operations.xor b 0x36) block @ message)
      in digest (map (\<lambda>b. Bit_Operations.xor b 0x5c) block @ inner))"

record crypto =
  cy_digest :: "8 word list \<Rightarrow> 8 word list"
  cy_utf8 :: "str \<Rightarrow> 8 word list"

definition proof_for :: "crypto \<Rightarrow> str \<Rightarrow> str \<Rightarrow> str" where
  "proof_for cy key challenge = hex_encode (hmac_sha256 (cy_digest cy) (cy_utf8 cy key) (cy_utf8 cy challenge))"

fun fold_difference :: "8 word \<Rightarrow> 8 word list \<Rightarrow> 8 word list \<Rightarrow> 8 word" where
  "fold_difference d (a # as) (b # bs) = fold_difference (Bit_Operations.or d (Bit_Operations.xor a b)) as bs"
| "fold_difference d _ _ = d"

definition constant_time_eq :: "8 word list \<Rightarrow> 8 word list \<Rightarrow> bool" where
  "constant_time_eq left right \<longleftrightarrow> length left = length right \<and> fold_difference 0 left right = 0"

text \<open>The loop without an early exit decides equality.\<close>

lemma xor_zero_iff: "Bit_Operations.xor a b = 0 \<longleftrightarrow> a = (b :: 8 word)"
  by (metis xor.assoc xor.left_neutral xor.right_neutral xor_self_eq)

lemma fold_difference_zero:
  "length as = length bs \<Longrightarrow> fold_difference d as bs = 0 \<longleftrightarrow> d = 0 \<and> as = bs"
proof (induction d as bs rule: fold_difference.induct)
  case (1 d a as b bs)
  have "Bit_Operations.or d (Bit_Operations.xor a b) = 0 \<longleftrightarrow> d = 0 \<and> a = b"
    by (simp add: or_eq_0_iff xor_zero_iff)
  with 1 show ?case by auto
qed auto

lemma constant_time_eq_iff: "constant_time_eq left right \<longleftrightarrow> left = right"
  by (auto simp: constant_time_eq_def fold_difference_zero)

lemma hex_digit_of_hexdigit: "d < 16 \<Longrightarrow> is_ascii_hexdigit (hex_digit_of d)"
  by (auto simp: hex_digit_of_def is_ascii_hexdigit_def)

lemma hex_encode_hexdigits: "list_all is_ascii_hexdigit (hex_encode bs)"
proof -
  have "unat b div 16 < 16" for b :: "8 word" using unsigned_less [of b, where ?'a = nat] by simp
  then show ?thesis
    by (auto simp: hex_encode_def list_all_iff intro!: hex_digit_of_hexdigit)
qed

section \<open>The guard\<close>

text \<open>A header: absent, present but not text, or its text (of the first value).\<close>

datatype header = Absent | NotText | HeaderText str

definition header_text :: "header \<Rightarrow> str option" where
  "header_text h = (case h of HeaderText t \<Rightarrow> Some t | _ \<Rightarrow> None)"

record http_request =
  rq_path :: str
  rq_host :: header
  rq_origin :: header
  rq_challenge :: header
  rq_authorization :: header

datatype refusal = NotFoundPath | ForbiddenHost | ForbiddenOrigin | Unauthorized

datatype guard_answer = Refused refusal | Proven str | Admitted principal

definition mcp_path :: str where
  "mcp_path = tx ''/mcp''"

definition endpoint_hosts :: "nat \<Rightarrow> str list" where
  "endpoint_hosts port = [tx ''127.0.0.1:'' @ show_nat port, tx ''localhost:'' @ show_nat port]"

definition accepts_host :: "nat \<Rightarrow> http_request \<Rightarrow> bool" where
  "accepts_host port r =
     (case header_text (rq_host r) of None \<Rightarrow> False
      | Some host \<Rightarrow> list_ex (\<lambda>h. to_ascii_lowercase h = to_ascii_lowercase host) (endpoint_hosts port))"

fun split_once :: "nat \<Rightarrow> str \<Rightarrow> (str \<times> str) option" where
  "split_once c [] = None"
| "split_once c (x # xs) = (if x = c then Some ([], xs) else map_option (apfst (Cons x)) (split_once c xs))"

definition bearer_token :: "header \<Rightarrow> str option" where
  "bearer_token h =
     Option.bind (header_text h) (\<lambda>v. Option.bind (split_once 32 v) (\<lambda>(scheme, rest).
       if to_ascii_lowercase scheme = tx ''bearer'' \<and> trim rest \<noteq> [] then Some (trim rest) else None))"

text \<open>\<open>handle\<close>: path, host, origin, challenge, credential, in this order.\<close>

definition guard_request ::
  "crypto \<Rightarrow> (str \<Rightarrow> str) \<Rightarrow> access_env \<Rightarrow> nat \<Rightarrow> str \<Rightarrow> http_request \<Rightarrow> agent_access \<Rightarrow>
   guard_answer \<times> agent_access" where
  "guard_request cy sha e port key r a =
     (if rq_path r \<noteq> mcp_path then (Refused NotFoundPath, a)
      else if \<not> accepts_host port r then (Refused ForbiddenHost, a)
      else if rq_origin r \<noteq> Absent then (Refused ForbiddenOrigin, a)
      else if rq_challenge r \<noteq> Absent \<and> rq_authorization r = Absent then
        (case opt_filter is_hex_64 (header_text (rq_challenge r)) of
           Some challenge \<Rightarrow> (Proven (proof_for cy key challenge), a)
         | None \<Rightarrow> (Refused Unauthorized, a))
      else (case bearer_token (rq_authorization r) of
          None \<Rightarrow> (Refused Unauthorized, a)
        | Some token \<Rightarrow>
            (case authenticate sha e token a of
               (None, a1) \<Rightarrow> (Refused Unauthorized, a1)
             | (Some p, a1) \<Rightarrow> (Admitted p, a1))))"

section \<open>The connector\<close>

text \<open>The discovery file as the endpoint writes it and the connector reads it.\<close>

record discovery =
  dv_protocol :: str
  dv_path :: str
  dv_port :: nat
  dv_key :: str

definition protocol_name :: str where
  "protocol_name = tx ''entropia-agent/1''"

definition discovery_at :: "nat \<Rightarrow> str \<Rightarrow> discovery" where
  "discovery_at port key = \<lparr>dv_protocol = protocol_name, dv_path = mcp_path, dv_port = port, dv_key = key\<rparr>"

datatype connector_error =
    AppAbsent | ProtocolIncompatible | InstanceUnverified | CredentialMissing | CredentialInsecure
  | StoreUnavailable | ConnUnauthorized | ConnForbidden | UnexpectedStatus nat

definition is_plain_path :: "str \<Rightarrow> bool" where
  "is_plain_path p \<longleftrightarrow> starts_with (tx ''/'') p \<and> \<not> contains_text (tx ''//'') p
     \<and> \<not> list_ex is_whitespace p \<and> 92 \<notin> set p"

text \<open>\<open>discovery::parse\<close>; \<open>None\<close> is a file that is missing or not such a record.\<close>

definition parse_discovery :: "discovery option \<Rightarrow> connector_error + discovery" where
  "parse_discovery file =
     (case file of None \<Rightarrow> Inl AppAbsent
      | Some d \<Rightarrow>
          if dv_protocol d \<noteq> protocol_name then Inl ProtocolIncompatible
          else if \<not> is_hex_64 (dv_key d) then Inl ProtocolIncompatible
          else if dv_port d = 0 \<or> \<not> is_plain_path (dv_path d) then Inl AppAbsent
          else Inr d)"

datatype keyring_outcome = KoToken str | KoNoEntry | KoUnavailable | KoFailed

text \<open>The token file: missing, unreadable, readable by others, or its text.\<close>

datatype token_file = TfMissing | TfFailed | TfInsecure | TfText str

definition read_token_file :: "token_file \<Rightarrow> connector_error + str" where
  "read_token_file f =
     (case f of TfMissing \<Rightarrow> Inl CredentialMissing | TfFailed \<Rightarrow> Inl CredentialMissing
      | TfInsecure \<Rightarrow> Inl CredentialInsecure
      | TfText t \<Rightarrow> if trim t = [] then Inl CredentialMissing else Inr (trim t))"

definition connector_token :: "keyring_outcome \<Rightarrow> token_file \<Rightarrow> connector_error + str" where
  "connector_token k f =
     (case k of KoToken t \<Rightarrow> Inr t | KoFailed \<Rightarrow> Inl CredentialMissing
      | KoNoEntry \<Rightarrow> read_token_file f
      | KoUnavailable \<Rightarrow>
          (case f of TfMissing \<Rightarrow> Inl StoreUnavailable
           | TfText t \<Rightarrow> if trim t = [] then Inl StoreUnavailable else Inr (trim t)
           | _ \<Rightarrow> read_token_file f))"

record http_answer =
  ha_status :: nat
  ha_proof :: header

text \<open>The requests of \<open>verify_instance\<close> and \<open>forward\<close>, with the host header of their address.\<close>

definition challenge_request :: "discovery \<Rightarrow> str \<Rightarrow> http_request" where
  "challenge_request d challenge =
     \<lparr>rq_path = dv_path d, rq_host = HeaderText (tx ''127.0.0.1:'' @ show_nat (dv_port d)), rq_origin = Absent,
      rq_challenge = HeaderText challenge, rq_authorization = Absent\<rparr>"

definition message_request :: "discovery \<Rightarrow> str \<Rightarrow> http_request" where
  "message_request d token =
     \<lparr>rq_path = dv_path d, rq_host = HeaderText (tx ''127.0.0.1:'' @ show_nat (dv_port d)), rq_origin = Absent,
      rq_challenge = Absent, rq_authorization = HeaderText (tx ''Bearer '' @ token)\<rparr>"

definition proves_instance :: "crypto \<Rightarrow> discovery \<Rightarrow> str \<Rightarrow> http_answer \<Rightarrow> bool" where
  "proves_instance cy d challenge answer \<longleftrightarrow> ha_status answer = 401 \<and>
     (case header_text (ha_proof answer) of None \<Rightarrow> False
      | Some proof \<Rightarrow> constant_time_eq (cy_utf8 cy (trim proof)) (cy_utf8 cy (proof_for cy (dv_key d) challenge)))"

text \<open>
  One message: the requests sent, in order, each with the peer that received it, and the status the
  message was answered with. The peers are who holds the port when each request arrives; \<open>None\<close> is no
  answer.
\<close>

type_synonym peer = "http_request \<Rightarrow> http_answer option"

definition read_status :: "http_answer option \<Rightarrow> connector_error + nat" where
  "read_status answer =
     (case answer of None \<Rightarrow> Inl AppAbsent
      | Some r \<Rightarrow> if ha_status r = 401 then Inl ConnUnauthorized
          else if ha_status r = 403 then Inl ConnForbidden
          else if 200 \<le> ha_status r \<and> ha_status r \<le> 299 then Inr (ha_status r)
          else Inl (UnexpectedStatus (ha_status r)))"

definition forward ::
  "crypto \<Rightarrow> discovery option \<Rightarrow> str \<Rightarrow> connector_error + str \<Rightarrow> peer \<Rightarrow> peer \<Rightarrow>
   (connector_error + nat) \<times> http_request list" where
  "forward cy file challenge token first second =
     (case parse_discovery file of
        Inl err \<Rightarrow> (Inl err, [])
      | Inr d \<Rightarrow>
          (let probe = challenge_request d challenge in
           case first probe of
             None \<Rightarrow> (Inl AppAbsent, [probe])
           | Some answer \<Rightarrow>
               if \<not> proves_instance cy d challenge answer then (Inl InstanceUnverified, [probe])
               else (case token of
                   Inl err \<Rightarrow> (Inl err, [probe])
                 | Inr t \<Rightarrow>
                     (let message = message_request d t
                      in (read_status (second message), [probe, message])))))"

text \<open>What the connector sees of an answer of the guard; the tools answer an admitted request.\<close>

definition answer_of :: "nat \<Rightarrow> guard_answer \<Rightarrow> http_answer" where
  "answer_of status g =
     (case g of
        Refused NotFoundPath \<Rightarrow> \<lparr>ha_status = 404, ha_proof = Absent\<rparr>
      | Refused Unauthorized \<Rightarrow> \<lparr>ha_status = 401, ha_proof = Absent\<rparr>
      | Refused _ \<Rightarrow> \<lparr>ha_status = 403, ha_proof = Absent\<rparr>
      | Proven p \<Rightarrow> \<lparr>ha_status = 401, ha_proof = HeaderText p\<rparr>
      | Admitted _ \<Rightarrow> \<lparr>ha_status = status, ha_proof = Absent\<rparr>)"

section \<open>The two sides together\<close>

lemma dropWhile_none: "list_all (\<lambda>c. \<not> p c) t \<Longrightarrow> dropWhile p t = t"
  by (cases t) auto

lemma trim_plain: "list_all (\<lambda>c. \<not> is_whitespace c) t \<Longrightarrow> trim t = t"
  by (simp add: trim_def trim_by_def trim_start_by_def trim_end_by_def dropWhile_none)

lemma hexdigit_not_space: "is_ascii_hexdigit c \<Longrightarrow> \<not> is_whitespace c"
  by (auto simp: is_ascii_hexdigit_def is_whitespace_def)

lemma trim_hex: "list_all is_ascii_hexdigit t \<Longrightarrow> trim t = t"
  by (rule trim_plain) (auto simp: list_all_iff hexdigit_not_space)

lemma trim_proof [simp]: "trim (proof_for cy key c) = proof_for cy key c"
  by (simp add: proof_for_def trim_hex hex_encode_hexdigits)

lemma accepts_own_host:
  "rq_host r = HeaderText (tx ''127.0.0.1:'' @ show_nat port) \<Longrightarrow> accepts_host port r"
  by (simp add: accepts_host_def header_text_def endpoint_hosts_def)

lemma guard_proves:
  assumes "is_hex_64 challenge"
  shows "guard_request cy sha e port key (challenge_request (discovery_at port key) challenge) a
    = (Proven (proof_for cy key challenge), a)"
  using assms by (simp add: guard_request_def challenge_request_def discovery_at_def accepts_own_host header_text_def
      opt_filter_def)

lemma bearer_of_message:
  assumes "trim token = token" and "token \<noteq> []"
  shows "bearer_token (rq_authorization (message_request d token)) = Some token"
proof -
  have "split_once 32 (tx ''Bearer '' @ token) = Some (tx ''Bearer'', token)"
    by (simp add: tx_def)
  moreover have "to_ascii_lowercase (tx ''Bearer'') = tx ''bearer''"
    by (simp add: tx_def to_ascii_lowercase_def ascii_lower_def)
  ultimately show ?thesis using assms by (simp add: bearer_token_def message_request_def header_text_def)
qed

lemma guard_admits:
  assumes "trim token = token" and "token \<noteq> []" and "who sha token (aa_state a) = Some p"
  shows "fst (guard_request cy sha e port key (message_request (discovery_at port key) token) a) = Admitted p"
proof -
  have "fst (authenticate sha e token a) = Some p" by (simp add: authenticate_who assms(3))
  then obtain b where "authenticate sha e token a = (Some p, b)" by (cases "authenticate sha e token a") simp
  then show ?thesis
    using bearer_of_message [OF assms(1,2)]
    by (simp add: guard_request_def accepts_own_host message_request_def discovery_at_def)
qed

lemma guard_admits_only:
  assumes "guard_request cy sha e port key r a = (Admitted p, b)"
  obtains token where "bearer_token (rq_authorization r) = Some token" and "who sha token (aa_state a) = Some p"
    and "rq_origin r = Absent" and "accepts_host port r" and "b = snd (authenticate sha e token a)"
proof -
  obtain t where t: "bearer_token (rq_authorization r) = Some t" "authenticate sha e t a = (Some p, b)"
      "rq_origin r = Absent" "accepts_host port r"
    using assms by (auto simp: guard_request_def split: if_splits option.splits prod.splits)
  with authenticate_who [of sha e t a] show thesis by (intro that [of t]) simp_all
qed

end
