(* ===== verification/AgentSamples.thy ===== *)
theory AgentSamples
  imports AgentTables AgentGuard
begin

text \<open>
  A small archive with a job that is ready, an assistant that may ask for everything, and what its
  calls and the approved actions meet, on which the properties of the agent endpoint are
  instantiated.
\<close>

definition shelf :: corpus where
  "shelf = \<lparr>ks_collections = [\<lparr>cc_id = tx ''c'', cc_name = tx ''Letters'', cc_description = None, cc_created = 1, cc_updated = 1\<rparr>],
     ks_items = [\<lparr>ci_id = tx ''i'', ci_title = tx ''One'', ci_collection = tx ''c'', ci_metadata = None, ci_created = 1, ci_updated = 5\<rparr>,
       \<lparr>ci_id = tx ''j'', ci_title = tx ''Two'', ci_collection = tx ''c'', ci_metadata = None, ci_created = 1, ci_updated = 1\<rparr>],
     ks_assets = [sample_asset], ks_extractions = [], ks_transcriptions = [], ks_layouts = [], ks_annotations = [],
     ks_chunks = [], ks_notes = [\<lparr>nt_id = tx ''n'', nt_item = tx ''i''\<rparr>], ks_results = [], ks_entities = [],
     ks_triples = [], ks_vectors = [], ks_backups = []\<rparr>"

definition office :: agent_world where
  "office = \<lparr>wd_queue = empty_queue\<lparr>q_batches := [sample_batch\<lparr>bt_state := BReady, bt_desired := DPause\<rparr>]\<rparr>,
     wd_corpus = shelf\<rparr>"

definition assistant :: principal where
  "assistant = \<lparr>pc_client = tx ''k'', pc_name = tx ''Helper'', pc_scopes = [ScRead, ScLocalWrite, ScRemoteSpend]\<rparr>"

definition inbox_file :: source_file where
  "inbox_file = \<lparr>sf_path = [tx ''in'', tx ''a.png''], sf_name = tx ''a.png'', sf_kind = FkImage, sf_size = 7,
     sf_modified = Some 3, sf_created = None, sf_accessed = None, sf_readonly = False\<rparr>"

definition sample_disk :: disk where
  "sample_disk = \<lparr>dk_real = (\<lambda>t. if t = tx ''f'' then Some (sf_path inbox_file) else if t = tx ''d'' then Some [tx ''in''] else None),
     dk_real_path = Some,
     dk_meta = (\<lambda>p. if p = sf_path inbox_file
       then Some \<lparr>mt_is_file = True, mt_is_dir = False, mt_len = 7, mt_modified = Some 3, mt_created = None,
         mt_accessed = None, mt_readonly = False\<rparr> else None),
     dk_entries = (\<lambda>_. None), dk_plain = (\<lambda>p. p), dk_text = (\<lambda>_. tx ''f'')\<rparr>"

definition sample_tools :: tool_env where
  "sample_tools = \<lparr>te_open = True, te_now = 1, te_approval = tx ''q'', te_batch = tx ''x'', te_collection = tx ''y'',
     te_local_ml = True, te_openrouter = None, te_scope = (\<lambda>_. [tx ''Letters'']), te_base = sample_archive,
     te_schemas = [], te_digest = concat, te_sha = (\<lambda>t. t), te_codec = \<lparr>cx_parse = (\<lambda>_. None), cx_show = (\<lambda>_. [])\<rparr>,
     te_indexed = True, te_others = (\<lambda>c. c), te_committed = True, te_disk = sample_disk,
     te_folders = [[tx ''in'']], te_data_dir = Some [tx ''data'']\<rparr>"

definition sample_import :: import_world where
  "sample_import = \<lparr>im_now = 9, im_item = tx ''l'', im_source = (\<lambda>_. (None, None, None)), im_query_ok = True,
     im_metadata = (\<lambda>_ _ _. []), im_original = concat, im_copied = Some (tx ''key'', []),
     im_asset_ids = [tx ''z''], im_recorded = True, im_others = (\<lambda>c. c)\<rparr>"

definition sample_run :: exec_env where
  "sample_run = \<lparr>xe_digest = concat, xe_sha = (\<lambda>t. t), xe_now = 9, xe_indexed = True, xe_committed = True,
     xe_others = (\<lambda>c. c), xe_disk = (\<lambda>_. sample_disk), xe_import = (\<lambda>_. sample_import)\<rparr>"

definition sample_context :: exec_context where
  "sample_context = \<lparr>xc_data_dir = Some [tx ''data''], xc_cache_dir = Some [tx ''cache''], xc_folders = [[tx ''in'']]\<rparr>"

text \<open>The requests the calls of the assistant create.\<close>

definition start_request :: approval where
  "start_request = new_approval (tx ''q'') 1 (job_request sample_tools assistant ActStart (hd (q_batches (wd_queue office))) (wd_queue office))"

definition asked_of :: "(jobs_error + approval) \<times> approval list \<Rightarrow> approval" where
  "asked_of r = hd (snd r)"

definition delete_request :: approval where
  "delete_request = asked_of (request_items_deletion sample_tools assistant [tx ''i''] shelf [])"

definition import_request :: approval where
  "import_request = asked_of (request_import sample_tools assistant (tx ''c'') (tx ''d'') [tx ''a.png''] shelf [])"

lemmas agent_sample_simps = shelf_def office_def assistant_def inbox_file_def sample_disk_def sample_tools_def
  sample_import_def sample_run_def sample_context_def sample_simps tx_def

lemma shelf_ok: "corpus_ok shelf"
  by code_simp

lemma sample_run_sound: "others_sound sample_run"
  by (simp add: others_sound_def sample_run_def sample_import_def)

lemma start_is_asked:
  "request_job_approval sample_tools assistant ActStart (tx ''b'') 0 (wd_queue office) [] = (Inr start_request, [start_request])"
proof -
  have "find_batch (tx ''b'') (wd_queue office) = Some (hd (q_batches (wd_queue office)))"
    by (simp add: office_def find_batch_def sample_batch_def)
  then show ?thesis
    by (simp add: request_job_approval_def ask_owner_def request_approval_def expire_def start_request_def admits_def
        sample_tools_def office_def sample_batch_def)
qed

lemma start_is_run: "fst (run_approved sample_run sample_context start_request office) = Inr None"
  by (simp add: run_approved_def execute_def Let_def with_queue_def start_batch_def find_batch_def check_revision_def
      start_request_def new_approval_def job_request_def office_def sample_batch_def)

text \<open>The fence of the item \<open>i\<close>, and its request.\<close>

lemma fence_of_item:
  "delete_fence (\<lambda>t. t) (DsItems [tx ''i'']) shelf = Inr (fence_text [tx ''i''] shelf)"
  "normalized_item_ids [tx ''i''] = Inr [tx ''i'']"
  "\<exists>impact. delete_impact (DsItems [tx ''i'']) shelf = Inr impact"
  "\<exists>out c. delete_items_rows [tx ''i''] shelf = Inr (out, c)"
  by (simp_all add: delete_fence_def fence_text_def normalized_item_ids_def delete_impact_def read_scope_item_ids_def try_then_def
      read_item_owners_def delete_items_rows_def Let_def shelf_def tx_def trim_def trim_by_def trim_start_by_def trim_end_by_def is_whitespace_def)

lemma delete_is_asked:
  "request_items_deletion sample_tools assistant [tx ''i''] shelf [] = (Inr delete_request, [delete_request])"
proof -
  obtain impact where "delete_impact (DsItems [tx ''i'']) shelf = Inr impact" using fence_of_item(3) by blast
  then show ?thesis
    using fence_of_item(1,2)
    by (simp add: delete_request_def asked_of_def request_items_deletion_def max_delete_items_def Let_def sample_tools_def
        ask_owner_def request_approval_def expire_def split_beta)
qed

lemma delete_is_run: "fst (run_approved sample_run sample_context delete_request office) = Inr None"
proof -
  have "ap_action delete_request = ActDeleteItems (named_items [tx ''i'']) (fence_text [tx ''i''] shelf)"
    using delete_is_asked fence_of_item(1)
    by (auto elim!: request_items_Inr simp: sample_tools_def named_items_def)
  moreover obtain out c where "delete_items_rows [tx ''i''] shelf = Inr (out, c)" using fence_of_item(4) by blast
  ultimately show ?thesis using fence_of_item(1,2)
    by (simp add: run_approved_def run_delete_def Let_def sample_context_def delete_items_if_unchanged_def named_items_def
        guarded_def check_fence_def sample_run_def office_def run_in_transaction_def with_delete_def)
qed

lemma inbox_is_accepted:
  "CorpusImport.check_source sample_disk (tx ''f'') [[tx ''in'']] [tx ''data''] = Inr inbox_file"
  by (simp add: CorpusImport.check_source_def sample_disk_def inbox_file_def real_or_self_def is_under_def same_folder_def
      describe_def classify_def extension_of_def tx_def to_ascii_lowercase_def ascii_lower_def max_source_bytes_def)

lemma import_is_asked:
  "request_import sample_tools assistant (tx ''c'') (tx ''d'') [tx ''a.png''] shelf [] = (Inr import_request, [import_request])"
  "ap_action import_request = ActImportFiles (tx ''c'') 1 (plan_digest sample_tools (tx ''c'') [inbox_file])"
  "ap_plan import_request = Some [inbox_file]"
proof -
  have folder: "enabled_folder sample_tools (tx ''d'') = Some [tx ''in'']"
    by (simp add: enabled_folder_def sample_tools_def sample_disk_def same_folder_def opt_filter_def tx_def)
  have "plan_files sample_disk [[tx ''in'']] [tx ''data''] [tx ''in''] (sorted_dedup [tx ''a.png'']) = Some [inbox_file]"
    using inbox_is_accepted by (simp add: sorted_dedup_def is_plain_name_def tx_def sample_disk_def)
  with folder have ask: "request_import sample_tools assistant (tx ''c'') (tx ''d'') [tx ''a.png''] shelf []
      = ask_owner sample_tools ((corpus_request assistant (ActImportFiles (tx ''c'') 1 (plan_digest sample_tools (tx ''c'') [inbox_file]))
         ''import_files'' [tx ''Letters''] 1)\<lparr>qr_plan := Some [inbox_file]\<rparr>) []"
    by (simp add: request_import_def max_import_files_def sample_tools_def find_collection_def shelf_def)
  show "request_import sample_tools assistant (tx ''c'') (tx ''d'') [tx ''a.png''] shelf [] = (Inr import_request, [import_request])"
    "ap_action import_request = ActImportFiles (tx ''c'') 1 (plan_digest sample_tools (tx ''c'') [inbox_file])"
    "ap_plan import_request = Some [inbox_file]"
    by (simp_all add: import_request_def asked_of_def ask ask_owner_def request_approval_def expire_def new_approval_def
        corpus_request_def)
qed

lemma import_is_run:
  "fst (run_approved sample_run sample_context import_request office)
     = Inr (Some \<lparr>ir_collection = tx ''c'', ir_imported = [(tx ''a.png'', tx ''l'', tx ''a'')], ir_skipped = []\<rparr>)"
proof -
  have env: "xe_disk sample_run 0 = sample_disk" "xe_import sample_run 0 = sample_import" "dk_text sample_disk p = tx ''f''" for p
    by (simp_all add: sample_run_def sample_disk_def)
  have name: "stored_copy_name inbox_file no_overrides = Some (tx ''a.png'')"
      "title_with_override inbox_file no_overrides = tx ''a''"
    by (simp_all add: stored_copy_name_def title_with_override_def title_for_def inbox_file_def no_overrides_def Let_def
        tx_def trim_def trim_by_def trim_start_by_def trim_end_by_def is_whitespace_def stored_name_max_chars_def
        item_title_max_chars_def opt_filter_def)
  have "fst (import_file sample_import (tx ''c'') inbox_file no_overrides shelf) = Inr (Imported (tx ''l'') (tx ''a'') 1)"
  proof -
    have plain: "\<not> ov_allow_duplicate no_overrides" "sf_kind inbox_file = FkImage"
      by (simp_all add: no_overrides_def inbox_file_def)
    show ?thesis
      by (simp add: import_file_def name plain find_collection_def find_item_def admit_item_def find_duplicate_def
          is_same_source_def record_files_def new_assets_def new_asset_def sample_import_def shelf_def
          sample_asset_def imported_item_def Let_def tx_def)
  qed
  then have "fst (import_planned sample_run [[tx ''in'']] [tx ''data''] (tx ''c'') 0 inbox_file shelf) = Inr (tx ''l'', tx ''a'')"
    using inbox_is_accepted
    by (cases "import_file sample_import (tx ''c'') inbox_file no_overrides shelf") (simp add: import_planned_def Let_def env)
  then show ?thesis
    by (cases "import_planned sample_run [[tx ''in'']] [tx ''data''] (tx ''c'') 0 inbox_file shelf")
      (simp add: run_approved_def import_is_asked run_import_def sample_context_def office_def inbox_file_def)
qed

text \<open>A run: the assistant asks for a start, the person approves, the action runs.\<close>

definition asked_desk :: desk where
  "asked_desk = \<lparr>sk_endpoint = \<lparr>ed_approvals = [start_request], ed_world = office, ed_created = []\<rparr>,
     sk_asked = [(tx ''q'', tx ''k'')], sk_claimed = [], sk_runs = []\<rparr>"

definition approved_desk :: desk where
  "approved_desk = asked_desk\<lparr>sk_endpoint := (sk_endpoint asked_desk)\<lparr>ed_approvals := [answered 5 True start_request]\<rparr>,
     sk_claimed := [answered 5 True start_request]\<rparr>"

definition served_desk :: desk where
  "served_desk =
     (let a = answered 5 True start_request; rw = run_approved sample_run sample_context a office in
      approved_desk\<lparr>sk_endpoint := (sk_endpoint approved_desk)\<lparr>ed_world := snd rw,
          ed_approvals := settle_approval (ap_id a) (fst rw) [a]\<rparr>,
        sk_claimed := [], sk_runs := [a]\<rparr>)"

lemma start_request_fields [simp]: "ap_id start_request = tx ''q''" "ap_client start_request = tx ''k''"
  "ap_status start_request = ApPending" "ap_expires start_request = 1 + approval_ttl_ms"
  by (simp_all add: start_request_def job_request_def assistant_def)

lemma served_run: "desk_steps (empty_desk office) served_desk"
proof -
  have "handle_call sample_tools assistant (CallStart (tx ''b'') 0) (sk_endpoint (empty_desk office))
      = (Inr (AnApproval start_request), \<lparr>ed_approvals = [start_request], ed_world = office, ed_created = []\<rparr>)"
    using start_is_asked
    by (simp add: handle_call_def scope_of_def has_scope_def assistant_def asking_def empty_desk_def)
  then have "desk_step (empty_desk office) asked_desk"
    using desk_step.called [of sample_tools "empty_desk office" _ assistant "CallStart (tx ''b'') 0", OF _ refl]
    by (simp add: asked_desk_def empty_desk_def store_ids_def note_asked_def sample_tools_def assistant_def)
  moreover have "claim_approval 5 (tx ''q'') True [start_request]
      = (Inr (Some (answered 5 True start_request)), [answered 5 True start_request])"
    by (simp add: claim_approval_def expire_def expire_one_def find_approval_def update_approval_def approval_ttl_ms_def)
  then have "desk_step asked_desk approved_desk"
    using desk_step.claimed [of 5 "tx ''q''" True asked_desk] by (simp add: approved_desk_def asked_desk_def)
  moreover have "desk_step approved_desk served_desk"
    using desk_step.ran [of "answered 5 True start_request" approved_desk sample_run sample_context
        "fst (run_approved sample_run sample_context (answered 5 True start_request) office)"
        "snd (run_approved sample_run sample_context (answered 5 True start_request) office)"]
    by (simp add: served_desk_def approved_desk_def asked_desk_def Let_def)
  ultimately show ?thesis by (blast intro: desk_steps.intros)
qed

section \<open>Two paired clients\<close>

definition calm_machine :: access_env where
  "calm_machine = \<lparr>ae_now = 100, ae_write = True, ae_keyring = KStored, ae_keyring_delete = False, ae_token_write = True,
     ae_token_delete = True, ae_rename = True\<rparr>"

definition paired_client :: "string \<Rightarrow> string \<Rightarrow> client_record" where
  "paired_client cid token = new_client (tx cid) (tx ''Helper'') (tx token) TsKeyring 100"

text \<open>Two clients are paired and the endpoint is on; then the first is revoked.\<close>

definition with_clients :: "client_record list \<Rightarrow> (str \<rightharpoonup> str) \<Rightarrow> agent_access" where
  "with_clients cs keys = (let s = default_access\<lparr>gs_enabled := True, gs_clients := cs\<rparr>
     in \<lparr>aa_state = s, aa_file = GoodFile s, aa_keyring = keys, aa_tokens = Map.empty\<rparr>)"

definition both_keys :: "str \<rightharpoonup> str" where
  "both_keys = [tx ''k'' \<mapsto> tx ''eat_a'', tx ''m'' \<mapsto> tx ''eat_b'']"

definition paired_machine :: agent_access where
  "paired_machine = with_clients [paired_client ''k'' ''eat_a'', paired_client ''m'' ''eat_b''] both_keys"

definition revoked_machine :: agent_access where
  "revoked_machine = with_clients [paired_client ''m'' ''eat_b''] both_keys"

lemma paired_reachable:
  "(access_step (\<lambda>t. t))\<^sup>*\<^sup>* fresh_machine ([(tx ''m'', tx ''eat_b''), (tx ''k'', tx ''eat_a'')], paired_machine)"
proof -
  let ?pair = "\<lambda>cid token a. snd (create_client (\<lambda>t. t) calm_machine cid token (tx ''Helper'') a)"
  let ?one = "?pair (tx ''k'') (tx ''eat_a'') (snd fresh_machine)"
  let ?two = "?pair (tx ''m'') (tx ''eat_b'') ?one"
  have 1: "access_step (\<lambda>t. t) fresh_machine ([(tx ''k'', tx ''eat_a'')], ?one)"
    using access_step.pair [of "tx ''k''" "[]" "tx ''eat_a''" "\<lambda>t. t"] by (simp add: fresh_machine_def)
  have 2: "access_step (\<lambda>t. t) ([(tx ''k'', tx ''eat_a'')], ?one)
      ([(tx ''m'', tx ''eat_b''), (tx ''k'', tx ''eat_a'')], ?two)"
    by (rule access_step.pair) (simp_all add: tx_def)
  have 3: "access_step (\<lambda>t. t) ([(tx ''m'', tx ''eat_b''), (tx ''k'', tx ''eat_a'')], ?two)
      ([(tx ''m'', tx ''eat_b''), (tx ''k'', tx ''eat_a'')], kept ?two (set_enabled calm_machine True ?two))"
    by (rule access_step.switch)
  have 4: "kept ?two (set_enabled calm_machine True ?two) = paired_machine"
    by (simp add: kept_def set_enabled_def store_state_def calm_machine_def create_client_def store_token_def Let_def
        fresh_machine_def default_access_def paired_machine_def with_clients_def paired_client_def both_keys_def
        name_max_chars_def tx_def trim_def trim_by_def trim_start_by_def trim_end_by_def is_whitespace_def is_control_def)
  from r_into_rtranclp [of "access_step (\<lambda>t. t)", OF 1] 2 3 show ?thesis
    unfolding 4 by (blast intro: rtranclp.rtrancl_into_rtrancl)
qed

lemma first_revoked: "revoke_client calm_machine (tx ''k'') paired_machine = (Inl TokenLeft, revoked_machine)"
  by (simp add: revoke_client_def find_client_def paired_machine_def with_clients_def revoked_machine_def Let_def
      store_state_def calm_machine_def delete_token_def paired_client_def new_client_def tx_def default_access_def)

definition sample_crypto :: crypto where
  "sample_crypto = \<lparr>cy_digest = (\<lambda>bs. [of_nat (length bs)]), cy_utf8 = map of_nat\<rparr>"

definition sample_discovery :: discovery where
  "sample_discovery = discovery_at 80 (replicate 64 97)"

definition second_call :: http_request where
  "second_call = message_request sample_discovery (tx ''eat_b'')"

lemma second_admitted:
  "guard_request sample_crypto (\<lambda>t. t) calm_machine 80 [] second_call revoked_machine
     = (Admitted \<lparr>pc_client = tx ''m'', pc_name = tx ''Helper'', pc_scopes = [ScRead]\<rparr>,
        snd (authenticate (\<lambda>t. t) calm_machine (tx ''eat_b'') revoked_machine))"
proof -
  have host: "accepts_host 80 second_call"
    by (rule accepts_own_host) (simp add: second_call_def message_request_def sample_discovery_def discovery_at_def)
  have "bearer_token (rq_authorization second_call) = Some (tx ''eat_b'')"
    unfolding second_call_def by (rule bearer_of_message)
      (simp_all add: tx_def trim_def trim_by_def trim_start_by_def trim_end_by_def is_whitespace_def)
  moreover have "fst (authenticate (\<lambda>t. t) calm_machine (tx ''eat_b'') revoked_machine)
      = Some \<lparr>pc_client = tx ''m'', pc_name = tx ''Helper'', pc_scopes = [ScRead]\<rparr>"
    by (simp add: authenticate_who who_def revoked_machine_def with_clients_def Let_def paired_client_def new_client_def
        principal_of_def token_prefix_def starts_with_def tx_def)
  moreover have "rq_path second_call = mcp_path" "rq_origin second_call = Absent" "rq_challenge second_call = Absent"
    by (simp_all add: second_call_def message_request_def sample_discovery_def discovery_at_def)
  ultimately show ?thesis using host
    by (cases "authenticate (\<lambda>t. t) calm_machine (tx ''eat_b'') revoked_machine") (simp add: guard_request_def)
qed

text \<open>The endpoint as the peer of both requests.\<close>

definition endpoint_peer :: "http_request \<Rightarrow> http_answer option" where
  "endpoint_peer r = Some (answer_of 200
     (fst (guard_request sample_crypto (\<lambda>t. t) calm_machine 80 (replicate 64 97) r revoked_machine)))"

definition sample_challenge :: str where
  "sample_challenge = replicate 64 98"

lemma hex_samples: "is_hex_64 sample_challenge" "parse_discovery (Some sample_discovery) = Inr sample_discovery"
proof -
  have hex: "is_hex_64 (replicate 64 c)" if "is_ascii_hexdigit c" "c < 128" for c
    using that by (simp add: is_hex_64_def hex_chars_def utf8_len_def utf8_width_def sum_list_replicate list_all_iff)
  then show "is_hex_64 sample_challenge" by (simp add: sample_challenge_def is_ascii_hexdigit_def)
  have "is_plain_path mcp_path"
    by (simp add: is_plain_path_def mcp_path_def starts_with_def is_whitespace_def tx_def)
  then show "parse_discovery (Some sample_discovery) = Inr sample_discovery"
    using hex [of 97] by (simp add: sample_discovery_def discovery_at_def parse_discovery_def is_ascii_hexdigit_def)
qed

lemma endpoint_proves:
  "endpoint_peer (challenge_request sample_discovery sample_challenge)
     = Some \<lparr>ha_status = 401, ha_proof = HeaderText (proof_for sample_crypto (replicate 64 97) sample_challenge)\<rparr>"
  using guard_proves [OF hex_samples(1)]
  by (simp add: endpoint_peer_def sample_discovery_def answer_of_def)

lemma endpoint_forwards:
  "snd (forward sample_crypto (Some sample_discovery) sample_challenge (Inr (tx ''eat_b'')) endpoint_peer endpoint_peer)
     = [challenge_request sample_discovery sample_challenge, second_call]"
proof -
  have "dv_key sample_discovery = replicate 64 97" by (simp add: sample_discovery_def discovery_at_def)
  then have "proves_instance sample_crypto sample_discovery sample_challenge
      \<lparr>ha_status = 401, ha_proof = HeaderText (proof_for sample_crypto (replicate 64 97) sample_challenge)\<rparr>"
    by (simp add: proves_instance_def header_text_def constant_time_eq_iff)
  with endpoint_proves show ?thesis by (simp add: forward_def hex_samples(2) Let_def second_call_def)
qed

end
