(* ===== verification/AgentProps.thy ===== *)
theory AgentProps
  imports AgentSamples
begin

text \<open>
  The properties of the agent endpoint: requests of assistants and their approval, calls, approved
  actions, access, and the proof before a token is sent.
\<close>

section \<open>Requests and their approval\<close>

text \<open>
  C12: An approved request runs once. In every run of the program, whatever clients call, whatever the
  person answers and whatever else changes the tables, no request is claimed or run twice; each
  that ran was created by a call of its client, was answered by the person before its ten minutes
  were over, and is approved or failed in the store; and two requests that wait never ask for the
  same thing.
\<close>

theorem approved_requests_run_once:
  assumes "desk_steps (empty_desk w) d"
  shows "distinct (map ap_id (sk_claimed d @ sk_runs d))
    \<and> list_all (claim_ok (sk_asked d) (ed_approvals (sk_endpoint d))) (sk_runs d)
    \<and> distinct (map request_key (pending_of (ed_approvals (sk_endpoint d))))"
proof -
  have "desk_ok d" using assms empty_desk_ok by (rule desk_steps_ok)
  then show ?thesis by (simp add: desk_ok_def store_ok_def)
qed

theorem approved_requests_run_once_witness:
  "map ap_id (sk_runs served_desk) = [tx ''q'']
    \<and> distinct (map ap_id (sk_claimed served_desk @ sk_runs served_desk))
    \<and> list_all (claim_ok (sk_asked served_desk) (ed_approvals (sk_endpoint served_desk))) (sk_runs served_desk)
    \<and> distinct (map request_key (pending_of (ed_approvals (sk_endpoint served_desk))))"
proof -
  have "map ap_id (sk_runs served_desk) = [tx ''q'']" by (simp add: served_desk_def Let_def)
  with approved_requests_run_once [OF served_run] show ?thesis by blast
qed

text \<open>
  C13: A call of an assistant starts nothing. Whatever the call and its scopes, no batch is meant to run
  afterwards that was not before, no unit is wanted by a running batch that was not before, and in
  the store of requests nothing was answered: a request is as it was, up to its expiry, or is new and
  waits in the name of the caller.
\<close>

theorem assistant_call_starts_nothing:
  "let s' = snd (handle_call e p call s); q = wd_queue (ed_world s); q' = wd_queue (ed_world s') in
   set (running_wishes q') \<subseteq> set (running_wishes q) \<and> set (live_demand q') \<subseteq> set (live_demand q)
   \<and> list_all (\<lambda>a. list_ex (\<lambda>b. a = b \<or> a = expire_one (te_now e) b) (ed_approvals s)
       \<or> ap_id a = te_approval e \<and> ap_client a = pc_client p \<and> ap_status a = ApPending) (ed_approvals s')"
  using calmer_wishes [OF calmer_call] calmer_demand [OF calmer_call] asks_new [OF handle_call_asks]
  by (auto simp: Let_def list_all_iff list_ex_iff)





section \<open>Approved deletes and imports\<close>

text \<open>
  C16: An approved delete takes what it named, as it was. When the run of a request to delete items
  changes the archive or reports success, the items named are gone with their assets, every other
  item, asset and collection stays, and each item named had, right before, the revision and the
  counts of assets, notes, annotations and extractions it had when the fence of the request was
  read; the digest is assumed not to confuse the two texts it is taken of.
\<close>

theorem approved_delete_takes_what_was_fenced:
  assumes "request_items_deletion e p ids c st = (Inr a, st')" and "run_approved x ctx a w = (r, w')"
    and "wd_corpus w' \<noteq> wd_corpus w \<or> r = Inr None"
    and "inj_on (te_sha e) {fence_text (named_items ids) (te_others e c), fence_text (named_items ids) (wd_corpus w)}"
    and "xe_sha x = te_sha e" and "list_all (\<lambda>i. 0 \<notin> set i) ids" and "corpus_ok (wd_corpus w)"
  shows "ks_items (wd_corpus w') = filter (\<lambda>i. ci_id i \<notin> set ids) (ks_items (wd_corpus w))
    \<and> ks_assets (wd_corpus w') = filter (\<lambda>a. as_item a \<notin> set ids) (ks_assets (wd_corpus w))
    \<and> ks_collections (wd_corpus w') = ks_collections (wd_corpus w)
    \<and> list_all (\<lambda>i. item_counts i (te_others e c) = item_counts i (wd_corpus w)) ids"
proof -
  obtain hash where a: "ap_action a = ActDeleteItems (named_items ids) hash"
      and asked: "delete_fence (te_sha e) (DsItems (named_items ids)) (te_others e c) = Inr hash"
    using assms(1) by (rule request_items_Inr)
  note ran = run_delete_items [OF assms(2) a set_named_items(2) assms(3)]
  then have now: "delete_fence (te_sha e) (DsItems (named_items ids)) (wd_corpus w) = Inr hash" using assms(5) by simp
  have plain: "list_all (\<lambda>i. 0 \<notin> set i) (named_items ids)" using assms(6) by (simp add: list_all_iff)
  have "list_all (\<lambda>i. item_counts i (te_others e c) = item_counts i (wd_corpus w)) (named_items ids)"
    using fence_determines [OF assms(4) [unfolded fence_text_def] asked now fence_scope [OF _ asked] fence_scope [OF _ now] plain plain] by simp
  with ran show ?thesis
    by (simp add: remove_items_rows [OF assms(7)] list_all_iff)
qed

theorem approved_delete_takes_what_was_fenced_witness:
  "map ci_id (ks_items (wd_corpus (snd (run_approved sample_run sample_context delete_request office)))) = [tx ''j'']
    \<and> ks_assets (wd_corpus (snd (run_approved sample_run sample_context delete_request office))) = []"
proof -
  note took = approved_delete_takes_what_was_fenced [OF delete_is_asked prod.collapse [symmetric], of sample_run sample_context office]
  show ?thesis
    using took delete_is_run shelf_ok
    by (simp add: sample_tools_def sample_run_def office_def) (simp add: shelf_def sample_asset_def tx_def)
qed



text \<open>
  C39: The tables of the archive stay sound. When every row names rows that exist, it does so after any
  call of an assistant and after any approved action, whatever fails on the way, provided that
  the other connections keep it so.
\<close>

theorem agent_keeps_archive_sound:
  assumes "corpus_ok (wd_corpus (ed_world s))" and "\<And>d. corpus_ok d \<Longrightarrow> corpus_ok (te_others e d)" and "others_sound x"
  shows "corpus_ok (wd_corpus (ed_world (snd (handle_call e p call s))))
    \<and> corpus_ok (wd_corpus (snd (run_approved x ctx a (ed_world s))))"
  using handle_call_ok [OF assms(1,2)] run_approved_ok [OF assms(1,3)] by simp

theorem agent_keeps_archive_sound_witness:
  "corpus_ok (wd_corpus (ed_world (snd (handle_call sample_tools assistant (CallCollectionCreate (tx ''r'') (tx ''New'') None)
      \<lparr>ed_approvals = [], ed_world = office, ed_created = []\<rparr>))))
    \<and> corpus_ok (wd_corpus (snd (run_approved sample_run sample_context delete_request office)))"
  using agent_keeps_archive_sound [of "\<lparr>ed_approvals = [], ed_world = office, ed_created = []\<rparr>" sample_tools sample_run]
    shelf_ok sample_run_sound by (simp add: office_def sample_tools_def)

section \<open>Access\<close>

text \<open>
  C15: A revoked client stays out. From any state the program reaches, once the revocation of a client
  has been stored, even when its token could not be deleted, no later request is admitted in its
  name, through any sequence of pairings, grants, switches, restarts and calls.
\<close>

theorem revoked_client_stays_out:
  assumes "(access_step sha)\<^sup>*\<^sup>* fresh_machine (ps, a)"
    and "revoke_client e cid a = (r, b)" and "r \<in> {Inr True, Inl TokenLeft}"
    and "(access_step sha)\<^sup>*\<^sup>* (ps, b) (qs, d)"
    and "guard_request cy sha e' port key request d = (Admitted p, d')"
  shows "pc_client p \<noteq> cid"
proof -
  have ok: "access_ok sha (ps, a)" using assms(1) fresh_machine_ok by (rule access_steps_ok)
  have "find_client cid (aa_state a) \<noteq> None" using assms(2,3)
    by (cases "find_client cid (aa_state a)") (auto simp: revoke_client_def)
  then have "cid \<in> client_ids a" by (auto simp: find_client_def find_None_iff client_ids_def)
  then have known: "cid \<in> fst ` set ps"
    using ok by (force simp: access_ok_def clients_ok_def list_all_iff client_ok_def client_ids_def)
  have ok': "access_ok sha (ps, b)" using revoke_client_ok [OF ok, of e cid] assms(2) by simp
  have "cid \<notin> client_ids b" using revoke_client_ids(2) [OF assms(2)] assms(3) by blast
  with gone_stays_gone [OF assms(4) ok', of cid] known have gone: "cid \<notin> client_ids d" by simp
  obtain token where "who sha token (aa_state d) = Some p" using assms(5) by (rule guard_admits_only)
  with who_is_client [of sha token d p] gone show ?thesis by auto
qed

theorem revoked_client_stays_out_witness:
  "fst (guard_request sample_crypto (\<lambda>t. t) calm_machine 80 [] second_call revoked_machine)
     = Admitted \<lparr>pc_client = tx ''m'', pc_name = tx ''Helper'', pc_scopes = [ScRead]\<rparr>
   \<and> pc_client \<lparr>pc_client = tx ''m'', pc_name = tx ''Helper'', pc_scopes = [ScRead]\<rparr> \<noteq> tx ''k''"
  using revoked_client_stays_out [OF paired_reachable first_revoked _ rtranclp.rtrancl_refl second_admitted]
  by (simp add: second_admitted)

text \<open>
  C40: A token goes only to who proves to hold the key. Whoever answers on the port, and whatever
  the discovery file says, the connector sends a request with a credential only after the peer answered
  its challenge, sent without one, with the keyed digest of that challenge under the key of the discovery
  file; and it sends that credential once.
\<close>

theorem token_only_to_prover:
  assumes "forward cy file challenge token first second = (result, sent)"
    and "list_ex (\<lambda>q. rq_authorization q \<noteq> Absent) sent"
  shows "\<exists>d t answer proof. parse_discovery file = Inr d \<and> token = Inr t
    \<and> sent = [challenge_request d challenge, message_request d t]
    \<and> first (challenge_request d challenge) = Some answer \<and> ha_status answer = 401
    \<and> header_text (ha_proof answer) = Some proof
    \<and> cy_utf8 cy (trim proof) = cy_utf8 cy (proof_for cy (dv_key d) challenge)"
proof -
  have no: "rq_authorization (challenge_request d challenge) = Absent" for d
    by (simp add: challenge_request_def)
  obtain d where d: "parse_discovery file = Inr d"
    using assms by (cases "parse_discovery file") (auto simp: forward_def)
  obtain answer where answer: "first (challenge_request d challenge) = Some answer"
    using assms no d by (cases "first (challenge_request d challenge)") (auto simp: forward_def Let_def)
  have proves: "proves_instance cy d challenge answer"
    using assms no d answer by (auto simp: forward_def Let_def split: if_splits)
  obtain t where t: "token = Inr t"
    using assms no d answer proves by (cases token) (auto simp: forward_def Let_def)
  have "sent = [challenge_request d challenge, message_request d t]"
    using assms(1) d answer proves t by (auto simp: forward_def Let_def)
  with d t answer proves show ?thesis
    by (auto simp: proves_instance_def constant_time_eq_iff split: option.splits)
qed

theorem token_only_to_prover_witness:
  "list_ex (\<lambda>q. rq_authorization q \<noteq> Absent)
     (snd (forward sample_crypto (Some sample_discovery) sample_challenge (Inr (tx ''eat_b'')) endpoint_peer endpoint_peer))
   \<and> (\<exists>proof. header_text (HeaderText (proof_for sample_crypto (replicate 64 97) sample_challenge)) = Some proof
     \<and> cy_utf8 sample_crypto (trim proof) = cy_utf8 sample_crypto (proof_for sample_crypto (dv_key sample_discovery) sample_challenge))"
proof -
  have carries: "list_ex (\<lambda>q. rq_authorization q \<noteq> Absent)
      (snd (forward sample_crypto (Some sample_discovery) sample_challenge (Inr (tx ''eat_b'')) endpoint_peer endpoint_peer))"
    by (simp add: endpoint_forwards second_call_def message_request_def)
  from token_only_to_prover [OF prod.collapse [symmetric] carries] carries endpoint_proves show ?thesis
    by (auto simp: hex_samples(2))
qed

end
