(* ===== verification/AnnWire.thy ===== *)
theory AnnWire
  imports Json
begin

text \<open>
  Zotero annotation \<open>data\<close> objects (\<open>bibliography/annotations/wire.rs\<close>): which fields the
  server owns, when two objects hold the same content, the body of a PATCH and what the
  server holds after it, the trash flag, and the keys of new objects.

  \<open>serde_json::from_str\<close> is library code, so it is the parameter \<open>ps\<close> of every definition
  that compares an \<open>annotationPosition\<close>; the random bytes of a UUID are an argument of
  \<open>generate_key\<close>. The lemmas relate content equality to the per-field comparison and show
  that a PATCH body applied to the base holds the desired content.
\<close>

section \<open>Fields\<close>

definition server_fields :: "str list" where
  "server_fields = [tx ''key'', tx ''version'', tx ''dateAdded'', tx ''dateModified'']"

definition deleted_field :: str where
  "deleted_field = tx ''deleted''"

definition position_field :: str where
  "position_field = tx ''annotationPosition''"

definition is_server_field :: "str \<Rightarrow> bool" where
  "is_server_field f \<longleftrightarrow> f \<in> set server_fields"

section \<open>Keys\<close>

definition key_alphabet :: "nat list" where
  "key_alphabet = tx ''23456789ABCDEFGHIJKLMNPQRSTUVWXYZ''"

definition key_len :: nat where
  "key_len = 8"

definition key_from_bytes :: "nat list \<Rightarrow> str" where
  "key_from_bytes bytes = map (\<lambda>b. key_alphabet ! (b mod length key_alphabet)) bytes"

definition generate_key :: "nat list \<Rightarrow> str" where
  "generate_key uuid = key_from_bytes (take key_len uuid)"

definition is_valid_key :: "str \<Rightarrow> bool" where
  "is_valid_key key \<longleftrightarrow> utf8_len key = key_len \<and> list_all (\<lambda>b. b \<in> set key_alphabet) key"

section \<open>Comparing values and objects\<close>

fun parsed_position :: "(str \<Rightarrow> json option) \<Rightarrow> json option \<Rightarrow> json option" where
  "parsed_position ps None = None"
| "parsed_position ps (Some (JString t)) = Some (unwrap_or (JString t) (ps t))"
| "parsed_position ps (Some other) = Some other"

definition field_eq :: "(str \<Rightarrow> json option) \<Rightarrow> str \<Rightarrow> json option \<Rightarrow> json option \<Rightarrow> bool" where
  "field_eq ps f a b =
     (if f = position_field then parsed_position ps a = parsed_position ps b else a = b)"

definition field_union :: "jmap \<Rightarrow> jmap \<Rightarrow> str list" where
  "field_union a b = jkeys a @ filter (\<lambda>k. \<not> jcontains a k) (jkeys b)"

definition content_eq :: "(str \<Rightarrow> json option) \<Rightarrow> jmap \<Rightarrow> jmap \<Rightarrow> bool" where
  "content_eq ps a b =
     list_all (\<lambda>f. field_eq ps f (jget a f) (jget b f))
       (filter (\<lambda>f. \<not> is_server_field f) (field_union a b))"

definition differing_content_fields :: "(str \<Rightarrow> json option) \<Rightarrow> jmap \<Rightarrow> jmap \<Rightarrow> str list" where
  "differing_content_fields ps a b =
     filter (\<lambda>f. \<not> field_eq ps f (jget a f) (jget b f))
       (filter (\<lambda>f. \<not> is_server_field f) (field_union a b))"

section \<open>The trash flag\<close>

definition is_trashed :: "jmap \<Rightarrow> bool" where
  "is_trashed d = (case jget d deleted_field of
     Some (JBool flag) \<Rightarrow> flag
   | Some (JNumber n) \<Rightarrow> unwrap_or 0 (num_as_i64 n) \<noteq> 0
   | _ \<Rightarrow> False)"

definition set_trashed :: "jmap \<Rightarrow> bool \<Rightarrow> jmap" where
  "set_trashed d trashed = jinsert deleted_field (json_of_int (if trashed then 1 else 0)) d"

section \<open>PATCH bodies\<close>

definition patch_body :: "(str \<Rightarrow> json option) \<Rightarrow> jmap \<Rightarrow> jmap \<Rightarrow> jmap" where
  "patch_body ps base desired =
     fold (\<lambda>f body. jinsert f (unwrap_or (JString []) (jget desired f)) body)
       (differing_content_fields ps base desired) []"

definition apply_patch :: "jmap \<Rightarrow> jmap \<Rightarrow> jmap" where
  "apply_patch base patch = fold (\<lambda>(f, v) merged. jinsert f v merged) patch base"

definition parse_position :: "(str \<Rightarrow> json option) \<Rightarrow> jmap \<Rightarrow> jmap option" where
  "parse_position ps d = (case jget d position_field of
     Some (JString t) \<Rightarrow> (case ps t of Some (JObject m) \<Rightarrow> Some m | _ \<Rightarrow> None)
   | Some (JObject m) \<Rightarrow> Some m
   | _ \<Rightarrow> None)"

text \<open>\<open>Value::to_string\<close> is library code: the parameter \<open>ser\<close>.\<close>

definition write_position :: "(json \<Rightarrow> str) \<Rightarrow> jmap \<Rightarrow> jmap \<Rightarrow> jmap" where
  "write_position ser d position = jinsert position_field (JString (ser (JObject position))) d"

section \<open>Facts about fields and content\<close>

lemma field_eq_refl [simp]: "field_eq ps f a a"
  by (simp add: field_eq_def)

lemma field_eq_sym: "field_eq ps f a b \<Longrightarrow> field_eq ps f b a"
  by (auto simp: field_eq_def split: if_splits)

lemma field_eq_trans: "field_eq ps f a b \<Longrightarrow> field_eq ps f b c \<Longrightarrow> field_eq ps f a c"
  by (auto simp: field_eq_def split: if_splits)

lemma field_eq_NoneD: "field_eq ps f a None \<Longrightarrow> a = None"
  by (cases "(ps, a)" rule: parsed_position.cases) (auto simp: field_eq_def split: if_splits)

lemma mem_jkeys: "k \<in> set (jkeys m) \<longleftrightarrow> jget m k \<noteq> None"
  by (rule obj.mem_key_list)

lemma mem_field_union: "f \<in> set (field_union a b) \<longleftrightarrow> jget a f \<noteq> None \<or> jget b f \<noteq> None"
  by (auto simp: field_union_def mem_jkeys jcontains_def)

lemma content_eq_iff:
  "content_eq ps a b \<longleftrightarrow> (\<forall>f. \<not> is_server_field f \<longrightarrow> field_eq ps f (jget a f) (jget b f))"
proof -
  have "field_eq ps f (jget a f) (jget b f)" if "f \<notin> set (field_union a b)" for f
    using that by (simp add: mem_field_union)
  then show ?thesis by (auto simp: content_eq_def list_all_iff)
qed

lemma content_eq_refl [simp]: "content_eq ps a a"
  by (simp add: content_eq_iff)

lemma content_eq_sym: "content_eq ps a b \<Longrightarrow> content_eq ps b a"
  by (auto simp: content_eq_iff intro: field_eq_sym)

lemma content_eq_trans: "content_eq ps a b \<Longrightarrow> content_eq ps b c \<Longrightarrow> content_eq ps a c"
  unfolding content_eq_iff by (blast intro: field_eq_trans)

lemma mem_differing:
  "f \<in> set (differing_content_fields ps a b) \<longleftrightarrow>
     \<not> is_server_field f \<and> \<not> field_eq ps f (jget a f) (jget b f)"
proof -
  have "f \<in> set (field_union a b)" if "\<not> field_eq ps f (jget a f) (jget b f)"
    using that by (cases "jget a f"; cases "jget b f") (auto simp: mem_field_union)
  then show ?thesis by (auto simp: differing_content_fields_def)
qed

lemma differing_empty_iff: "differing_content_fields ps a b = [] \<longleftrightarrow> content_eq ps a b"
proof -
  have "differing_content_fields ps a b = [] \<longleftrightarrow>
      (\<forall>f. f \<notin> set (differing_content_fields ps a b))"
    by (cases "differing_content_fields ps a b") auto
  then show ?thesis by (auto simp: content_eq_iff mem_differing)
qed

lemma jget_patch_body:
  "jget (patch_body ps base desired) f =
     (if f \<in> set (differing_content_fields ps base desired)
      then Some (unwrap_or (JString []) (jget desired f)) else None)"
proof -
  have "jget (fold (\<lambda>f body. jinsert f (g f) body) fs m) f =
      (if f \<in> set fs then Some (g f) else jget m f)" for fs m and g :: "str \<Rightarrow> json"
    by (induction fs arbitrary: m) (auto simp: jget_jinsert_iff)
  then show ?thesis by (simp add: patch_body_def)
qed

lemma patch_body_empty_iff: "patch_body ps base desired = [] \<longleftrightarrow> content_eq ps base desired"
proof
  assume "patch_body ps base desired = []"
  then have "jget (patch_body ps base desired) f = None" for f by simp
  then have "f \<notin> set (differing_content_fields ps base desired)" for f
    by (metis jget_patch_body option.distinct(1))
  then show "content_eq ps base desired"
    by (auto simp: content_eq_iff mem_differing)
next
  assume "content_eq ps base desired"
  then show "patch_body ps base desired = []"
    by (simp add: patch_body_def flip: differing_empty_iff)
qed

lemma ordered_patch_body: "ordered (patch_body ps base desired)"
proof -
  have "ordered (fold (\<lambda>f body. jinsert f (g f) body) fs m)" if "ordered m"
    for fs m and g :: "str \<Rightarrow> json"
    using that by (induction fs arbitrary: m) (auto intro: ordered_jinsert)
  then show ?thesis by (simp add: patch_body_def ordered_def)
qed

lemma jget_apply_patch:
  assumes "ordered patch"
  shows "jget (apply_patch base patch) f =
     (case jget patch f of Some v \<Rightarrow> Some v | None \<Rightarrow> jget base f)"
  unfolding apply_patch_def
  using obj.lookup_fold_insert_distinct [OF ordered_distinct [OF assms], of base f]
  by (simp add: jget_def [of patch f])

lemma ordered_apply_patch: "ordered base \<Longrightarrow> ordered (apply_patch base patch)"
  unfolding apply_patch_def
  by (induction patch arbitrary: base) (auto intro: ordered_jinsert)

lemma jget_set_trashed:
  "jget (set_trashed d t) f =
     (if f = deleted_field then Some (json_of_int (if t then 1 else 0)) else jget d f)"
  by (simp add: set_trashed_def jget_jinsert_iff)

lemma is_trashed_set_trashed [simp]: "is_trashed (set_trashed d t) = t"
  by (simp add: is_trashed_def jget_set_trashed json_of_int_def i64_max_def)

lemma is_trashed_cong: "jget a deleted_field = jget b deleted_field \<Longrightarrow> is_trashed a = is_trashed b"
  by (simp add: is_trashed_def)

lemma deleted_not_position [simp]: "deleted_field \<noteq> position_field"
  by (simp add: deleted_field_def position_field_def)

lemma deleted_not_server [simp]: "\<not> is_server_field deleted_field"
  by (simp add: is_server_field_def server_fields_def deleted_field_def)

lemma content_eq_trashed: "content_eq ps a b \<Longrightarrow> is_trashed a = is_trashed b"
  unfolding content_eq_iff
  by (rule is_trashed_cong) (metis deleted_not_position deleted_not_server field_eq_def)

end
