(* ===== verification/AnnModel.thy ===== *)
theory AnnModel
  imports AnnWire
begin

text \<open>
  One row of \<open>zotero_annotation_items\<close> and its invariants
  (\<open>bibliography/annotations/model.rs\<close>): the record \<open>annotation_row\<close> with the columns of
  the table, the row constructors, the mutators the state machine uses, and
  \<open>check_invariants\<close>, which the repository runs before every write. The generation
  counters and versions are \<open>i64\<close> columns, modelled as \<open>int\<close>: a row would need
  \<open>2 ^ 63\<close> edits to overflow one.
\<close>

section \<open>States and requests\<close>

definition existence :: str where
  "existence = tx ''__existence''"

datatype sync_status = Synced | Pending | WaitingParent | Conflict | Error

fun status_as_str :: "sync_status \<Rightarrow> str" where
  "status_as_str Synced = tx ''synced''"
| "status_as_str Pending = tx ''pending''"
| "status_as_str WaitingParent = tx ''waiting_parent''"
| "status_as_str Conflict = tx ''conflict''"
| "status_as_str Error = tx ''error''"

definition status_parse :: "str \<Rightarrow> sync_status option" where
  "status_parse v =
     (if v = tx ''synced'' then Some Synced
      else if v = tx ''pending'' then Some Pending
      else if v = tx ''waiting_parent'' then Some WaitingParent
      else if v = tx ''conflict'' then Some Conflict
      else if v = tx ''error'' then Some Error
      else None)"

fun is_dirty_state :: "sync_status \<Rightarrow> bool" where
  "is_dirty_state Pending = True"
| "is_dirty_state WaitingParent = True"
| "is_dirty_state Error = True"
| "is_dirty_state _ = False"

datatype existence_cause = Trashed | Modified | Deleted | AttachmentDeleted

text \<open>The snake-case names serde gives the variants.\<close>

fun cause_name :: "existence_cause \<Rightarrow> str" where
  "cause_name Trashed = tx ''trashed''"
| "cause_name Modified = tx ''modified''"
| "cause_name Deleted = tx ''deleted''"
| "cause_name AttachmentDeleted = tx ''attachment_deleted''"

definition cause_to_value :: "existence_cause \<Rightarrow> json" where
  "cause_to_value c = JString (cause_name c)"

definition cause_of_name :: "str \<Rightarrow> existence_cause option" where
  "cause_of_name v =
     (if v = tx ''trashed'' then Some Trashed
      else if v = tx ''modified'' then Some Modified
      else if v = tx ''deleted'' then Some Deleted
      else if v = tx ''attachment_deleted'' then Some AttachmentDeleted
      else None)"

text \<open>
  \<open>serde_json::from_value\<close> on an enum of unit variants takes the variant's name, or an
  object with the name as its only key and \<open>null\<close> as its value.
\<close>

fun cause_of_value :: "json \<Rightarrow> existence_cause option" where
  "cause_of_value (JString v) = cause_of_name v"
| "cause_of_value (JObject [(k, JNull)]) = cause_of_name k"
| "cause_of_value _ = None"

datatype sent = SentCreate jmap | SentUpdate jmap | SentDelete

section \<open>Rows\<close>

record annotation_row =
  annotation_key :: str
  parent_key :: str
  base_version :: "int option"
  base_json :: "jmap option"
  remote_trashed :: bool
  local_json :: "jmap option"
  local_deleted :: bool
  edit_gen :: int
  sent_gen :: "int option"
  sent_json :: "sent option"
  sent_uncertain :: bool
  sync_state :: sync_status
  conflict_fields :: "str list"
  conflict_json :: "jmap option"
  last_error :: "str option"

definition parent_of :: "jmap \<Rightarrow> str" where
  "parent_of d = unwrap_or [] (Option.bind (jget d (tx ''parentItem'')) as_str)"

definition from_server :: "str \<Rightarrow> int \<Rightarrow> jmap \<Rightarrow> annotation_row" where
  "from_server key version d =
     \<lparr>annotation_key = key, parent_key = parent_of d, base_version = Some version,
      base_json = Some d, remote_trashed = is_trashed d, local_json = None,
      local_deleted = False, edit_gen = 0, sent_gen = None, sent_json = None,
      sent_uncertain = False, sync_state = Synced, conflict_fields = [],
      conflict_json = None, last_error = None\<rparr>"

definition new_local :: "str \<Rightarrow> jmap \<Rightarrow> annotation_row" where
  "new_local key d =
     \<lparr>annotation_key = key, parent_key = parent_of d, base_version = None,
      base_json = None, remote_trashed = False, local_json = Some d,
      local_deleted = False, edit_gen = 1, sent_gen = None, sent_json = None,
      sent_uncertain = False, sync_state = Pending, conflict_fields = [],
      conflict_json = None, last_error = None\<rparr>"

definition is_dirty :: "annotation_row \<Rightarrow> bool" where
  "is_dirty r \<longleftrightarrow> local_deleted r \<or> local_json r \<noteq> None"

definition in_conflict :: "annotation_row \<Rightarrow> bool" where
  "in_conflict r \<longleftrightarrow> conflict_fields r \<noteq> []"

definition desired :: "annotation_row \<Rightarrow> jmap option" where
  "desired r = opt_or (local_json r) (base_json r)"

definition existence_reason :: "annotation_row \<Rightarrow> existence_cause option" where
  "existence_reason r =
     Option.bind (Option.bind (conflict_json r) (\<lambda>m. jget m existence)) cause_of_value"

definition clear_sent :: "annotation_row \<Rightarrow> annotation_row" where
  "clear_sent r = r\<lparr>sent_gen := None, sent_json := None, sent_uncertain := False\<rparr>"

definition set_base :: "int \<Rightarrow> jmap \<Rightarrow> annotation_row \<Rightarrow> annotation_row" where
  "set_base version d r =
     r\<lparr>remote_trashed := is_trashed d, base_version := Some version, base_json := Some d\<rparr>"

definition clear_conflict :: "annotation_row \<Rightarrow> annotation_row" where
  "clear_conflict r = r\<lparr>conflict_fields := [], conflict_json := None\<rparr>"

definition add_conflict :: "str \<Rightarrow> json \<Rightarrow> annotation_row \<Rightarrow> annotation_row" where
  "add_conflict f remote r =
     r\<lparr>conflict_fields :=
         (if f \<in> set (conflict_fields r) then conflict_fields r else conflict_fields r @ [f]),
       conflict_json := Some (jinsert f remote (unwrap_or [] (conflict_json r))),
       sync_state := Conflict\<rparr>"

definition add_existence_conflict :: "existence_cause \<Rightarrow> annotation_row \<Rightarrow> annotation_row" where
  "add_existence_conflict reason r = add_conflict existence (cause_to_value reason) r"

definition remove_conflict :: "str \<Rightarrow> annotation_row \<Rightarrow> annotation_row" where
  "remove_conflict f r =
     r\<lparr>conflict_fields := filter (\<lambda>e. e \<noteq> f) (conflict_fields r),
       conflict_json := map_option (jremove f) (conflict_json r)\<rparr>"

text \<open>
  \<open>recompute\<close> in the order of the code: a conflict wins; an empty conflict map is dropped;
  an edit equal to the base collapses when nothing is in flight; then the state follows.
\<close>

definition drop_empty_conflict_json :: "annotation_row \<Rightarrow> annotation_row" where
  "drop_empty_conflict_json r =
     (if conflict_json r = Some [] then r\<lparr>conflict_json := None\<rparr> else r)"

definition collapse_local :: "(str \<Rightarrow> json option) \<Rightarrow> annotation_row \<Rightarrow> annotation_row" where
  "collapse_local ps r =
     (if \<not> local_deleted r \<and> sent_gen r = None
      then (case (local_json r, base_json r) of
              (Some l, Some b) \<Rightarrow> if content_eq ps l b then r\<lparr>local_json := None\<rparr> else r
            | _ \<Rightarrow> r)
      else r)"

definition recompute :: "(str \<Rightarrow> json option) \<Rightarrow> bool \<Rightarrow> annotation_row \<Rightarrow> annotation_row" where
  "recompute ps keep_block r =
     (if in_conflict r then r\<lparr>sync_state := Conflict\<rparr>
      else let r' = collapse_local ps (drop_empty_conflict_json r)
           in if \<not> is_dirty r' then r'\<lparr>sync_state := Synced, last_error := None\<rparr>
              else if \<not> (keep_block \<and> (sync_state r' = Error \<or> sync_state r' = WaitingParent))
              then r'\<lparr>sync_state := Pending\<rparr>
              else r')"

section \<open>The invariants a write checks\<close>

datatype invariant_error =
    SyncedIffClean | DirtyStateIffDirty | ConflictIffFields | DeletedWithLocal
  | LocalEqualsBase | SentTogether | UncertainWithoutSent | BaseTogether

definition check_invariants ::
  "(str \<Rightarrow> json option) \<Rightarrow> annotation_row \<Rightarrow> invariant_error + unit" where
  "check_invariants ps r =
     (let dirty = is_dirty r; conflict = in_conflict r; state = sync_state r in
      if (state = Synced) \<noteq> (\<not> conflict \<and> \<not> dirty) then Inl SyncedIffClean
      else if is_dirty_state state \<noteq> (\<not> conflict \<and> dirty) then Inl DirtyStateIffDirty
      else if (state = Conflict) \<noteq> conflict then Inl ConflictIffFields
      else if local_deleted r \<and> local_json r \<noteq> None then Inl DeletedWithLocal
      else if sent_gen r = None \<and> \<not> conflict \<and>
          (case (local_json r, base_json r) of
             (Some l, Some b) \<Rightarrow> content_eq ps l b
           | _ \<Rightarrow> False) then Inl LocalEqualsBase
      else if (sent_gen r \<noteq> None) \<noteq> (sent_json r \<noteq> None) then Inl SentTogether
      else if sent_uncertain r \<and> sent_gen r = None then Inl UncertainWithoutSent
      else if (base_version r \<noteq> None) \<noteq> (base_json r \<noteq> None) then Inl BaseTogether
      else Inr ())"

section \<open>Facts\<close>

lemma status_parse_as_str [simp]: "status_parse (status_as_str s) = Some s"
  by (cases s) (simp_all add: status_parse_def)

lemma cause_of_value_to_value [simp]: "cause_of_value (cause_to_value c) = Some c"
  by (cases c) (simp_all add: cause_to_value_def cause_of_name_def)

text \<open>The row mutators as updates of single fields: the simplifier sees through each.\<close>

named_theorems row_defs

lemmas [row_defs] = clear_sent_def set_base_def clear_conflict_def is_dirty_def
  in_conflict_def add_conflict_def add_existence_conflict_def remove_conflict_def
  drop_empty_conflict_json_def collapse_local_def

lemma existence_reason_add [simp]:
  "existence_reason (add_existence_conflict c r) = Some c"
  by (simp add: existence_reason_def add_existence_conflict_def add_conflict_def jget_jinsert_iff)

end
