(* ===== verification/AnnMachine.thy ===== *)
theory AnnMachine
  imports AnnModel
begin

text \<open>
  The annotation sync state machine (\<open>bibliography/annotations/machine.rs\<close>), one definition
  per function, in the order of the file: local mutations, the pull merge, the push, the
  reconciliation of uncertain requests and the resolution of conflicts. A function that
  takes \<open>&mut AnnotationRow\<close> returns the new row beside its answer; a failure leaves the
  row as it was. The key \<open>generate_key\<close> draws for a recreated annotation is the argument
  \<open>fresh\<close>, and \<open>ps\<close> is \<open>serde_json::from_str\<close> (see \<open>AnnWire\<close>).
\<close>

datatype machine_error =
    DeleteNeedsConfirmation | NeedsReconcile | RequestInFlight | NotInConflict
  | Undecided str | UnknownDecision str | CannotKeepOrphan | NotTrashed

datatype row_action = Save | Remove | Rekeyed str

section \<open>Local mutations\<close>

definition local_edit ::
  "(str \<Rightarrow> json option) \<Rightarrow> annotation_row \<Rightarrow> jmap \<Rightarrow> annotation_row \<times> row_action" where
  "local_edit ps r wanted =
     (let r1 = r\<lparr>edit_gen := edit_gen r + 1, local_deleted := False, local_json := Some wanted\<rparr>
      in if in_conflict r1 then (r1, Save) else (recompute ps False r1, Save))"

definition delete_intent ::
  "(str \<Rightarrow> json option) \<Rightarrow> annotation_row \<Rightarrow> annotation_row \<times> row_action" where
  "delete_intent ps r =
     (if base_version r = None \<and> sent_gen r = None then (r, Remove)
      else (recompute ps False
              (r\<lparr>edit_gen := edit_gen r + 1, local_json := None, local_deleted := True\<rparr>), Save))"

definition local_delete ::
  "(str \<Rightarrow> json option) \<Rightarrow> annotation_row \<Rightarrow> machine_error + annotation_row \<times> row_action" where
  "local_delete ps r =
     (if in_conflict r then Inl DeleteNeedsConfirmation else Inr (delete_intent ps r))"

definition local_delete_confirmed ::
  "(str \<Rightarrow> json option) \<Rightarrow> annotation_row \<Rightarrow> annotation_row \<times> row_action" where
  "local_delete_confirmed ps r = delete_intent ps (clear_conflict r)"

definition local_restore ::
  "(str \<Rightarrow> json option) \<Rightarrow> annotation_row \<Rightarrow> machine_error + annotation_row \<times> row_action" where
  "local_restore ps r =
     (let wanted = unwrap_or [] (desired r)
      in if \<not> is_trashed wanted then Inl NotTrashed
         else Inr (local_edit ps r (set_trashed wanted False)))"

section \<open>Pull merge\<close>

datatype remote_change = Item int jmap | PermanentlyDeleted

definition merge_fields :: "jmap \<Rightarrow> jmap \<Rightarrow> jmap \<Rightarrow> str list" where
  "merge_fields merge_base local remote =
     fold (\<lambda>f flds. if f \<in> set flds then flds else flds @ [f])
       (field_union local remote) (field_union merge_base local)"

definition three_way_field ::
  "(str \<Rightarrow> json option) \<Rightarrow> jmap \<Rightarrow> jmap \<Rightarrow> str \<Rightarrow>
     jmap \<times> (str \<times> json) list \<Rightarrow> jmap \<times> (str \<times> json) list" where
  "three_way_field ps merge_base remote f = (\<lambda>(local, disputed).
     if f = tx ''key'' then (local, disputed)
     else let b = jget merge_base f; l = jget local f; v = jget remote f in
       if field_eq ps f l v then (local, disputed)
       else if field_eq ps f l b \<or> is_server_field f then
         (case v of Some x \<Rightarrow> (jinsert f x local, disputed)
                  | None \<Rightarrow> (jremove f local, disputed))
       else if field_eq ps f v b then (local, disputed)
       else (local, disputed @ [(f, unwrap_or JNull v)]))"

definition three_way ::
  "(str \<Rightarrow> json option) \<Rightarrow> jmap \<Rightarrow> jmap \<Rightarrow> jmap \<Rightarrow> jmap \<times> (str \<times> json) list" where
  "three_way ps merge_base local remote =
     fold (three_way_field ps merge_base remote) (merge_fields merge_base local remote)
       (local, [])"

definition add_conflicts :: "(str \<times> json) list \<Rightarrow> annotation_row \<Rightarrow> annotation_row" where
  "add_conflicts ds r = fold (\<lambda>(f, v) r. add_conflict f v r) ds r"

text \<open>The re-check of the fields already in dispute against the new remote value.\<close>

definition recheck_disputed ::
  "(str \<Rightarrow> json option) \<Rightarrow> jmap \<Rightarrow> jmap \<Rightarrow> str list \<Rightarrow> annotation_row \<Rightarrow> annotation_row" where
  "recheck_disputed ps local remote flds r =
     fold (\<lambda>f r. if field_eq ps f (jget local f) (jget remote f) then remove_conflict f r
                 else add_conflict f (unwrap_or JNull (jget remote f)) r) flds r"

definition remerge_conflict ::
  "(str \<Rightarrow> json option) \<Rightarrow> jmap \<Rightarrow> jmap \<Rightarrow> annotation_row \<Rightarrow> annotation_row" where
  "remerge_conflict ps old_base remote r =
     (let remote_trashed = is_trashed remote;
          r1 = (if existence_reason r = Some Trashed \<and> \<not> remote_trashed
                then remove_conflict existence r else r)
      in case local_json r1 of
           None \<Rightarrow> r1
         | Some local \<Rightarrow>
             (let newly_trashed = (remote_trashed \<and> \<not> is_trashed old_base \<and> \<not> is_trashed local);
                  r2 = (if newly_trashed \<and> existence_reason r1 = None
                        then add_existence_conflict Trashed r1 else r1);
                  disputed_before = filter (\<lambda>f. f \<noteq> existence) (conflict_fields r2);
                  r3 = recheck_disputed ps local remote disputed_before r2;
                  gone = disputed_before @ (if newly_trashed then [deleted_field] else []);
                  undisputed_base = fold jremove gone old_base;
                  scratch = fold jremove gone local;
                  remote_scratch = fold jremove gone remote;
                  (merged, disputed) = three_way ps undisputed_base scratch remote_scratch;
                  r4 = add_conflicts disputed r3;
                  local' = fold (\<lambda>(f, v) m. jinsert f v m) merged local
              in r4\<lparr>local_json := Some local'\<rparr>))"

definition merge_with_base ::
  "(str \<Rightarrow> json option) \<Rightarrow> annotation_row \<Rightarrow> remote_change \<Rightarrow> jmap \<Rightarrow>
     annotation_row \<times> row_action" where
  "merge_with_base ps r change merge_base =
     (case change of
        PermanentlyDeleted \<Rightarrow>
          (if in_conflict r then
             (if local_deleted r then (r, Remove)
              else (add_existence_conflict Deleted r, Save))
           else if local_json r \<noteq> None then (add_existence_conflict Deleted r, Save)
           else (r, Remove))
      | Item version d \<Rightarrow>
          (let remote_trashed = is_trashed d; base_trashed = is_trashed merge_base in
           if in_conflict r then
             (let r1 = set_base version d (remerge_conflict ps merge_base d r)
              in if \<not> in_conflict r1 then (recompute ps True r1, Save) else (r1, Save))
           else if local_deleted r then
             (if remote_trashed then (set_base version d r, Save)
              else (add_existence_conflict Modified (set_base version d r), Save))
           else (case local_json r of
               None \<Rightarrow> (recompute ps True (set_base version d r), Save)
             | Some local \<Rightarrow>
                 (let local_trashed = is_trashed local in
                  if remote_trashed \<and> \<not> base_trashed \<and> \<not> local_trashed then
                    (add_existence_conflict Trashed (set_base version d r), Save)
                  else
                    (let (local', disputed) = three_way ps merge_base local d;
                         r1 = add_conflicts disputed (r\<lparr>local_json := Some local'\<rparr>)
                     in (recompute ps True (set_base version d r1), Save))))))"

definition merge_remote ::
  "(str \<Rightarrow> json option) \<Rightarrow> annotation_row \<Rightarrow> remote_change \<Rightarrow>
     machine_error + annotation_row \<times> row_action" where
  "merge_remote ps r change =
     (if sent_uncertain r then Inl NeedsReconcile
      else if sent_gen r \<noteq> None then Inl RequestInFlight
      else if (case (change, base_version r) of
                 (Item version d, Some bv) \<Rightarrow> version \<le> bv
               | _ \<Rightarrow> False) then Inr (r, Save)
      else Inr (merge_with_base ps r change (unwrap_or [] (base_json r))))"

section \<open>Push\<close>

datatype request = Create str jmap | Update str int jmap | Delete str int

definition create_body :: "str \<Rightarrow> jmap \<Rightarrow> jmap" where
  "create_body key d =
     jremove (tx ''dateModified'') (jremove (tx ''dateAdded'')
       (jinsert (tx ''itemType'') (JString (tx ''annotation''))
         (jinsert (tx ''version'') (json_of_int 0)
           (jinsert (tx ''key'') (JString key) d))))"

definition next_request ::
  "(str \<Rightarrow> json option) \<Rightarrow> annotation_row \<Rightarrow> annotation_row \<times> request option" where
  "next_request ps r =
     (if sync_state r \<noteq> Pending \<or> sent_gen r \<noteq> None then (r, None)
      else let key = annotation_key r in
        case (base_version r, local_deleted r) of
          (None, True) \<Rightarrow> (r, None)
        | (None, False) \<Rightarrow>
            (case local_json r of None \<Rightarrow> (r, None)
             | Some d \<Rightarrow> (r, Some (Create key (create_body key d))))
        | (Some version, True) \<Rightarrow> (r, Some (Delete key version))
        | (Some version, False) \<Rightarrow>
            (case local_json r of None \<Rightarrow> (r, None)
             | Some l \<Rightarrow>
                 (let flds = patch_body ps (unwrap_or [] (base_json r)) l
                  in if flds = [] then (recompute ps False r, None)
                     else (r, Some (Update key version flds)))))"

fun sent_of_request :: "request \<Rightarrow> sent" where
  "sent_of_request (Create _ d) = SentCreate d"
| "sent_of_request (Update _ _ flds) = SentUpdate flds"
| "sent_of_request (Delete _ _) = SentDelete"

definition begin_send :: "annotation_row \<Rightarrow> request \<Rightarrow> annotation_row" where
  "begin_send r req =
     r\<lparr>sent_gen := Some (edit_gen r), sent_uncertain := False,
       sent_json := Some (sent_of_request req)\<rparr>"

datatype parent_status = OnServer | PendingInZotero | ParentDeleted

datatype outcome =
    Applied int
  | Gone
  | Stale remote_change
  | CreateExists int jmap
  | Rejected str
  | ParentMissing parent_status str
  | Refused
  | Uncertain

datatype next_step = Done row_action | RetryOnce row_action

fun into_action :: "next_step \<Rightarrow> row_action" where
  "into_action (Done a) = a"
| "into_action (RetryOnce a) = a"

text \<open>A row is newer than its request when an edit came after \<open>begin_send\<close>.\<close>

definition applied_everything :: "annotation_row \<Rightarrow> bool" where
  "applied_everything r \<longleftrightarrow> sent_gen r = Some (edit_gen r)"

definition acknowledge ::
  "(str \<Rightarrow> json option) \<Rightarrow> annotation_row \<Rightarrow> sent option \<Rightarrow> int \<Rightarrow>
     annotation_row \<times> row_action" where
  "acknowledge ps r snt version =
     (let base = unwrap_or [] (base_json r);
          nb = (case snt of
                  Some (SentCreate d) \<Rightarrow> d
                | Some (SentUpdate flds) \<Rightarrow> apply_patch base flds
                | Some SentDelete \<Rightarrow> base
                | None \<Rightarrow> base);
          nb1 = jinsert (tx ''key'') (JString (annotation_key r))
                  (jinsert (tx ''version'') (json_of_int version) nb);
          r1 = clear_sent (set_base version nb1 r)
      in if applied_everything r
         then (r1\<lparr>local_json := None, local_deleted := False, sync_state := Synced,
                  last_error := None\<rparr>, Save)
         else (recompute ps False r1, Save))"

definition recreate :: "str \<Rightarrow> annotation_row \<Rightarrow> annotation_row \<times> row_action" where
  "recreate fresh r =
     (let wanted = unwrap_or [] (desired r);
          old_key = annotation_key r;
          d = set_trashed (jinsert (tx ''key'') (JString fresh) wanted) False;
          r1 = r\<lparr>annotation_key := fresh, base_version := None, base_json := None,
                 remote_trashed := False, local_deleted := False, local_json := Some d,
                 edit_gen := edit_gen r + 1\<rparr>
      in ((clear_conflict (clear_sent r1))\<lparr>sync_state := Pending\<rparr>, Rekeyed old_key))"

definition delete_gone :: "str \<Rightarrow> annotation_row \<Rightarrow> annotation_row \<times> row_action" where
  "delete_gone fresh r =
     (let r1 = clear_sent r
      in if applied_everything r \<or> local_deleted r1 then (r1, Remove) else recreate fresh r1)"

definition create_exists ::
  "(str \<Rightarrow> json option) \<Rightarrow> annotation_row \<Rightarrow> int \<Rightarrow> jmap \<Rightarrow> annotation_row \<times> row_action" where
  "create_exists ps r version server =
     (let snt = (case sent_json r of Some (SentCreate d) \<Rightarrow> d
                 | _ \<Rightarrow> unwrap_or [] (local_json r));
          r1 = clear_sent r
      in if content_eq ps snt server then
           (let r2 = set_base version server r1;
                r3 = (if applied_everything r then r2\<lparr>local_json := None\<rparr> else r2)
            in if local_deleted r3 then (r3\<lparr>sync_state := Pending\<rparr>, Save)
               else (recompute ps False r3, Save))
         else
           (let local = unwrap_or snt (local_json r1);
                disputed = differing_content_fields ps local server;
                r2 = set_base version server r1
            in if local_deleted r2 then (add_existence_conflict Modified r2, Save)
               else (recompute ps False
                       (add_conflicts (map (\<lambda>f. (f, unwrap_or JNull (jget server f))) disputed)
                          (r2\<lparr>local_json := Some local\<rparr>)), Save)))"

definition apply_outcome ::
  "(str \<Rightarrow> json option) \<Rightarrow> str \<Rightarrow> annotation_row \<Rightarrow> outcome \<Rightarrow> annotation_row \<times> next_step" where
  "apply_outcome ps fresh r oc =
     (let newer_edit = (sent_gen r \<noteq> Some (edit_gen r)) in
      case oc of
        Applied version \<Rightarrow> apsnd Done (acknowledge ps r (sent_json r) version)
      | Gone \<Rightarrow> apsnd Done (delete_gone fresh r)
      | Stale remote \<Rightarrow>
          (let (r1, action) =
             merge_with_base ps (clear_sent r) remote (unwrap_or [] (base_json r))
           in (r1, if action = Save \<and> sync_state r1 = Pending then RetryOnce action
                   else Done action))
      | CreateExists version d \<Rightarrow> apsnd Done (create_exists ps r version d)
      | Rejected message \<Rightarrow>
          (let r1 = clear_sent r in
           (if newer_edit then recompute ps False r1
            else r1\<lparr>last_error := Some message, sync_state := Error\<rparr>, Done Save))
      | ParentMissing parent message \<Rightarrow>
          (let r1 = clear_sent r in
           (case parent of
              OnServer \<Rightarrow> r1\<lparr>last_error := Some message,
                            sync_state := (if newer_edit then Pending else Error)\<rparr>
            | PendingInZotero \<Rightarrow> r1\<lparr>last_error := Some message, sync_state := WaitingParent\<rparr>
            | ParentDeleted \<Rightarrow> add_existence_conflict AttachmentDeleted r1, Done Save))
      | Refused \<Rightarrow> (recompute ps True (clear_sent r), Done Save)
      | Uncertain \<Rightarrow> (r\<lparr>sent_uncertain := True\<rparr>, Done Save))"

definition mark_outstanding_uncertain :: "annotation_row \<Rightarrow> annotation_row \<times> bool" where
  "mark_outstanding_uncertain r =
     (if sent_gen r \<noteq> None \<and> \<not> sent_uncertain r then (r\<lparr>sent_uncertain := True\<rparr>, True)
      else (r, False))"

definition release_waiting_parent :: "annotation_row \<Rightarrow> annotation_row \<times> bool" where
  "release_waiting_parent r =
     (if sync_state r = WaitingParent \<and> sent_gen r = None then (r\<lparr>sync_state := Pending\<rparr>, True)
      else (r, False))"

section \<open>Uncertain outcomes\<close>

datatype observed = Found int jmap | NotFound

text \<open>The merge base of an uncertain PATCH: the sent value where the server holds it.\<close>

definition corrected_base ::
  "(str \<Rightarrow> json option) \<Rightarrow> jmap \<Rightarrow> jmap \<Rightarrow> jmap \<Rightarrow> jmap" where
  "corrected_base ps base flds server =
     fold (\<lambda>(f, v) m. if field_eq ps f (jget server f) (Some v) then jinsert f v m else m)
       flds base"

definition reconcile ::
  "(str \<Rightarrow> json option) \<Rightarrow> str \<Rightarrow> annotation_row \<Rightarrow> observed \<Rightarrow> annotation_row \<times> row_action" where
  "reconcile ps fresh r obs =
     (let base = unwrap_or [] (base_json r) in
      case sent_json r of
        None \<Rightarrow> (r\<lparr>sent_uncertain := False\<rparr>, Save)
      | Some (SentCreate _) \<Rightarrow>
          (case obs of
             NotFound \<Rightarrow>
               (let r1 = clear_sent r in
                if local_deleted r1 then (r1, Remove) else (recompute ps True r1, Save))
           | Found version d \<Rightarrow> create_exists ps r version d)
      | Some (SentUpdate flds) \<Rightarrow>
          (case obs of
             NotFound \<Rightarrow> merge_with_base ps (clear_sent r) PermanentlyDeleted base
           | Found version d \<Rightarrow>
               (if Some version = base_version r then (recompute ps True (clear_sent r), Save)
                else merge_with_base ps (clear_sent r) (Item version d)
                       (corrected_base ps base flds d)))
      | Some SentDelete \<Rightarrow>
          (case obs of
             NotFound \<Rightarrow> delete_gone fresh r
           | Found version d \<Rightarrow>
               (if Some version = base_version r then (recompute ps True (clear_sent r), Save)
                else merge_with_base ps (clear_sent r) (Item version d) base)))"

section \<open>Conflict resolution\<close>

datatype decision = Keep | DecDelete | Local | Zotero

type_synonym decisions = "(str \<times> decision) list"

text \<open>A field decided for Zotero takes the remote value the conflict recorded.\<close>

definition take_remote :: "jmap \<Rightarrow> str \<times> decision \<Rightarrow> jmap option \<Rightarrow> jmap option" where
  "take_remote remote_values fd local =
     (let (f, dec) = fd in
      if f = existence \<or> dec \<noteq> Zotero then local
      else let l = unwrap_or [] local in
        case jget remote_values f of
          Some JNull \<Rightarrow> Some (jremove f l)
        | None \<Rightarrow> Some (jremove f l)
        | Some v \<Rightarrow> Some (jinsert f v l))"

definition resolve_fields ::
  "(str \<Rightarrow> json option) \<Rightarrow> str \<Rightarrow> annotation_row \<Rightarrow> decisions \<Rightarrow> jmap \<Rightarrow> bool \<Rightarrow>
     annotation_row \<times> row_action" where
  "resolve_fields ps fresh r ds remote_values recreate_needed =
     (let r1 = r\<lparr>local_json := fold (take_remote remote_values) ds (local_json r)\<rparr>;
          r2 = clear_conflict (r1\<lparr>edit_gen := edit_gen r1 + 1\<rparr>)
      in if recreate_needed then recreate fresh r2 else (recompute ps False r2, Save))"

definition resolve ::
  "(str \<Rightarrow> json option) \<Rightarrow> str \<Rightarrow> annotation_row \<Rightarrow> decisions \<Rightarrow>
     machine_error + annotation_row \<times> row_action" where
  "resolve ps fresh r ds =
     (if \<not> in_conflict r then Inl NotInConflict
      else case List.find (\<lambda>f. map_of ds f = None) (conflict_fields r) of
        Some f \<Rightarrow> Inl (Undecided f)
      | None \<Rightarrow>
        (case List.find (\<lambda>f. f \<notin> set (conflict_fields r)) (map fst ds) of
          Some f \<Rightarrow> Inl (UnknownDecision f)
        | None \<Rightarrow>
          (let remote_values = unwrap_or [] (conflict_json r);
               reason = existence_reason r
           in case map_of ds existence of
                None \<Rightarrow> Inr (resolve_fields ps fresh r ds remote_values False)
              | Some dec \<Rightarrow>
                  (if dec = DecDelete \<or> dec = Zotero then
                     (if reason = Some AttachmentDeleted \<or> reason = Some Deleted
                      then Inr (clear_conflict r, Remove)
                      else Inr (delete_intent ps (clear_conflict r)))
                   else if reason = Some AttachmentDeleted then Inl CannotKeepOrphan
                   else
                     (let wanted = unwrap_or [] (desired r);
                          kept = (if reason = Some Trashed then set_trashed wanted False
                                  else wanted);
                          r1 = r\<lparr>local_deleted := False, local_json := Some kept\<rparr>
                      in Inr (resolve_fields ps fresh r1 ds remote_values
                                (reason = Some Deleted)))))))"

end
