(* ===== verification/AnnInvariant.thy ===== *)
theory AnnInvariant
  imports AnnMachine
begin

text \<open>
  The invariant of a stored annotation row and its preservation by every transition of the
  state machine. \<open>row_inv\<close> is stronger than \<open>check_invariants\<close>: it adds what the code keeps
  without checking it (a request in flight belongs to a pending row without conflicts, the
  recorded request agrees with the base, the conflict map holds exactly the fields in
  conflict, and a delete in conflict is an existence conflict). The preservation lemmas of
  the single transitions are collected in \<open>row_inv_intros\<close>; \<open>reachable_row\<close> closes the row
  constructors under every transition, with local commands free to run at any point of a
  request's life, and the properties of reachable rows follow by rule induction.
\<close>

section \<open>The invariant\<close>

definition conflict_map_ok :: "annotation_row \<Rightarrow> bool" where
  "conflict_map_ok r \<longleftrightarrow>
     distinct (conflict_fields r) \<and>
     set (jkeys (unwrap_or [] (conflict_json r))) = set (conflict_fields r)"

definition deleted_conflict_ok :: "annotation_row \<Rightarrow> bool" where
  "deleted_conflict_ok r \<longleftrightarrow>
     (local_deleted r \<and> in_conflict r \<longrightarrow>
        existence \<in> set (conflict_fields r) \<and> existence_reason r \<noteq> Some Trashed)"

text \<open>Two columns that are written together.\<close>

definition together :: "'a option \<Rightarrow> 'b option \<Rightarrow> bool" where
  "together a b \<longleftrightarrow> (a = None \<longleftrightarrow> b = None)"

lemma together_simps [simp]:
  "together None b \<longleftrightarrow> b = None" "together (Some x) b \<longleftrightarrow> b \<noteq> None"
  "together a None \<longleftrightarrow> a = None" "together a (Some y) \<longleftrightarrow> a \<noteq> None"
  by (auto simp: together_def)

definition row_core :: "annotation_row \<Rightarrow> bool" where
  "row_core r \<longleftrightarrow>
     (local_deleted r \<longrightarrow> local_json r = None) \<and>
     together (sent_gen r) (sent_json r) \<and>
     (sent_uncertain r \<longrightarrow> sent_gen r \<noteq> None) \<and>
     together (base_version r) (base_json r) \<and>
     conflict_map_ok r \<and> deleted_conflict_ok r"

text \<open>What holds of a row whose request is out, by the request recorded.\<close>

definition sent_fits :: "(str \<Rightarrow> json option) \<Rightarrow> annotation_row \<Rightarrow> sent \<Rightarrow> bool" where
  "sent_fits ps r s =
     (case s of
        SentCreate _ \<Rightarrow> base_json r = None \<and>
          (applied_everything r \<longrightarrow> local_json r \<noteq> None)
      | SentUpdate _ \<Rightarrow>
          (case base_json r of None \<Rightarrow> False
           | Some b \<Rightarrow> applied_everything r \<longrightarrow>
               (case local_json r of None \<Rightarrow> False | Some l \<Rightarrow> \<not> content_eq ps l b))
      | SentDelete \<Rightarrow> base_json r \<noteq> None \<and> (applied_everything r \<longrightarrow> local_deleted r))"

definition sent_ok :: "(str \<Rightarrow> json option) \<Rightarrow> annotation_row \<Rightarrow> bool" where
  "sent_ok ps r =
     (case sent_gen r of None \<Rightarrow> True
      | Some g \<Rightarrow> g \<le> edit_gen r \<and> sync_state r = Pending \<and>
          (case sent_json r of None \<Rightarrow> False | Some s \<Rightarrow> sent_fits ps r s))"

definition row_inv :: "(str \<Rightarrow> json option) \<Rightarrow> annotation_row \<Rightarrow> bool" where
  "row_inv ps r \<longleftrightarrow>
     check_invariants ps r = Inr () \<and> row_core r \<and> sent_ok ps r \<and>
     (\<not> in_conflict r \<longrightarrow> conflict_json r = None)"

lemmas row_inv_defs = row_core_def conflict_map_ok_def deleted_conflict_ok_def in_conflict_def
  is_dirty_def existence_reason_def

lemma check_invariants_iff:
  "check_invariants ps r = Inr () \<longleftrightarrow>
     (sync_state r = Synced \<longleftrightarrow> \<not> in_conflict r \<and> \<not> is_dirty r) \<and>
     (is_dirty_state (sync_state r) \<longleftrightarrow> \<not> in_conflict r \<and> is_dirty r) \<and>
     (sync_state r = Conflict \<longleftrightarrow> in_conflict r) \<and>
     (local_deleted r \<longrightarrow> local_json r = None) \<and>
     (sent_gen r = None \<and> \<not> in_conflict r \<longrightarrow>
        (\<forall>l b. local_json r = Some l \<and> base_json r = Some b \<longrightarrow> \<not> content_eq ps l b)) \<and>
     together (sent_gen r) (sent_json r) \<and>
     (sent_uncertain r \<longrightarrow> sent_gen r \<noteq> None) \<and>
     together (base_version r) (base_json r)"
  by (auto simp: check_invariants_def together_def Let_def split: option.splits)

lemma row_inv_core: "row_inv ps r \<Longrightarrow> row_core r"
  by (simp add: row_inv_def)

lemma row_inv_sent_pending:
  assumes "row_inv ps r" "sent_gen r = Some g"
  shows "sync_state r = Pending" "\<not> in_conflict r" "is_dirty r" "conflict_json r = None"
    "g \<le> edit_gen r"
  using assms by (auto simp: row_inv_def sent_ok_def check_invariants_iff split: option.splits)

lemma row_inv_conflict:
  assumes "row_inv ps r" "in_conflict r"
  shows "sync_state r = Conflict" "sent_gen r = None" "sent_json r = None" "\<not> sent_uncertain r"
proof -
  show "sync_state r = Conflict"
    using assms by (simp add: row_inv_def check_invariants_iff)
  then show "sent_gen r = None"
    using assms by (auto simp: row_inv_def sent_ok_def split: option.splits)
  then show "sent_json r = None" "\<not> sent_uncertain r"
    using assms by (auto simp: row_inv_def check_invariants_iff)
qed

section \<open>The constructors and the mutators\<close>

lemma conflict_map_ok_empty: "conflict_map_ok (r\<lparr>conflict_fields := [], conflict_json := None\<rparr>)"
  by (simp add: conflict_map_ok_def jkeys_def)

lemma jkeys_Nil_iff: "set (jkeys m) = {} \<longleftrightarrow> m = []"
  by (simp add: jkeys_def)

lemma set_jkeys_jinsert: "set (jkeys (jinsert f v m)) = insert f (set (jkeys m))"
  by (simp add: jkeys_def set_jinsert_keys del: set_map list.set_map)

lemma set_jkeys_jremove: "set (jkeys (jremove f m)) = set (jkeys m) - {f}"
  by (auto simp: jkeys_def jremove_def)

lemma conflict_map_ok_add: "conflict_map_ok r \<Longrightarrow> conflict_map_ok (add_conflict f v r)"
  by (auto simp: conflict_map_ok_def add_conflict_def set_jkeys_jinsert)

lemma conflict_map_ok_remove: "conflict_map_ok r \<Longrightarrow> conflict_map_ok (remove_conflict f r)"
  by (cases "conflict_json r")
    (auto simp: conflict_map_ok_def remove_conflict_def set_jkeys_jremove jkeys_def [of "[]"])

lemma existence_reason_add_other:
  "f \<noteq> existence \<Longrightarrow> existence_reason (add_conflict f v r) = existence_reason r"
  by (cases "conflict_json r")
    (simp_all add: existence_reason_def add_conflict_def jget_jinsert_iff del: jinsert.simps)

lemma add_conflict_fields:
  "set (conflict_fields (add_conflict f v r)) = insert f (set (conflict_fields r))"
  by (auto simp: add_conflict_def)

lemma in_conflict_add [simp]: "in_conflict (add_conflict f v r)"
  by (auto simp: add_conflict_def in_conflict_def)

lemma add_conflict_simps [simp]:
  "annotation_key (add_conflict f v r) = annotation_key r"
  "parent_key (add_conflict f v r) = parent_key r"
  "base_version (add_conflict f v r) = base_version r"
  "base_json (add_conflict f v r) = base_json r"
  "remote_trashed (add_conflict f v r) = remote_trashed r"
  "local_json (add_conflict f v r) = local_json r"
  "local_deleted (add_conflict f v r) = local_deleted r"
  "edit_gen (add_conflict f v r) = edit_gen r"
  "sent_gen (add_conflict f v r) = sent_gen r"
  "sent_json (add_conflict f v r) = sent_json r"
  "sent_uncertain (add_conflict f v r) = sent_uncertain r"
  "sync_state (add_conflict f v r) = Conflict"
  "last_error (add_conflict f v r) = last_error r"
  by (simp_all add: add_conflict_def)

lemma add_existence_conflict_simps [simp]:
  "annotation_key (add_existence_conflict c r) = annotation_key r"
  "base_version (add_existence_conflict c r) = base_version r"
  "base_json (add_existence_conflict c r) = base_json r"
  "local_json (add_existence_conflict c r) = local_json r"
  "local_deleted (add_existence_conflict c r) = local_deleted r"
  "edit_gen (add_existence_conflict c r) = edit_gen r"
  "sent_gen (add_existence_conflict c r) = sent_gen r"
  "sent_json (add_existence_conflict c r) = sent_json r"
  "sent_uncertain (add_existence_conflict c r) = sent_uncertain r"
  "sync_state (add_existence_conflict c r) = Conflict"
  "last_error (add_existence_conflict c r) = last_error r"
  "in_conflict (add_existence_conflict c r)"
  by (simp_all add: add_existence_conflict_def)

lemma remove_conflict_simps [simp]:
  "annotation_key (remove_conflict f r) = annotation_key r"
  "base_version (remove_conflict f r) = base_version r"
  "base_json (remove_conflict f r) = base_json r"
  "local_json (remove_conflict f r) = local_json r"
  "local_deleted (remove_conflict f r) = local_deleted r"
  "edit_gen (remove_conflict f r) = edit_gen r"
  "sent_gen (remove_conflict f r) = sent_gen r"
  "sent_json (remove_conflict f r) = sent_json r"
  "sent_uncertain (remove_conflict f r) = sent_uncertain r"
  "sync_state (remove_conflict f r) = sync_state r"
  by (simp_all add: remove_conflict_def)

text \<open>\<open>add_conflicts\<close> and \<open>recheck_disputed\<close> change nothing but the conflict and the state.\<close>

lemma add_conflicts_fold:
  assumes "\<And>f v r. P r \<Longrightarrow> P (add_conflict f v r)" "P r"
  shows "P (add_conflicts ds r)"
  unfolding add_conflicts_def using assms(2)
  by (induction ds arbitrary: r) (auto intro: assms(1))

lemma add_conflicts_simps [simp]:
  "annotation_key (add_conflicts ds r) = annotation_key r"
  "base_version (add_conflicts ds r) = base_version r"
  "base_json (add_conflicts ds r) = base_json r"
  "local_json (add_conflicts ds r) = local_json r"
  "local_deleted (add_conflicts ds r) = local_deleted r"
  "edit_gen (add_conflicts ds r) = edit_gen r"
  "sent_gen (add_conflicts ds r) = sent_gen r"
  "sent_json (add_conflicts ds r) = sent_json r"
  "sent_uncertain (add_conflicts ds r) = sent_uncertain r"
  by (rule add_conflicts_fold; simp)+

lemma add_conflicts_Nil [simp]: "add_conflicts [] r = r"
  by (simp add: add_conflicts_def)

lemma add_conflicts_Cons: "add_conflicts ((f, v) # ds) r = add_conflicts ds (add_conflict f v r)"
  by (simp add: add_conflicts_def)

lemma add_conflicts_fields:
  "set (conflict_fields (add_conflicts ds r)) = set (map fst ds) \<union> set (conflict_fields r)"
  by (induction ds arbitrary: r) (force simp: add_conflicts_Cons add_conflict_fields)+

lemma add_conflicts_state:
  "sync_state (add_conflicts ds r) = (if ds = [] then sync_state r else Conflict)"
proof -
  have "sync_state r = Conflict \<Longrightarrow> sync_state (add_conflicts ds r) = Conflict" for ds r
    by (rule add_conflicts_fold) auto
  then show ?thesis by (cases ds) (auto simp: add_conflicts_Cons)
qed

lemma in_conflict_add_conflicts [simp]:
  "in_conflict (add_conflicts ds r) \<longleftrightarrow> ds \<noteq> [] \<or> in_conflict r"
proof -
  have "in_conflict r \<Longrightarrow> in_conflict (add_conflicts ds r)" for ds r
    by (rule add_conflicts_fold) auto
  then show ?thesis by (cases ds) (auto simp: add_conflicts_Cons)
qed

lemma conflict_map_ok_add_conflicts: "conflict_map_ok r \<Longrightarrow> conflict_map_ok (add_conflicts ds r)"
  by (rule add_conflicts_fold) (auto intro: conflict_map_ok_add)

lemma recheck_fold:
  assumes "\<And>f v r. P r \<Longrightarrow> P (add_conflict f v r)" "\<And>f r. P r \<Longrightarrow> P (remove_conflict f r)" "P r"
  shows "P (recheck_disputed ps l v flds r)"
  unfolding recheck_disputed_def using assms(3)
  by (induction flds arbitrary: r) (auto intro: assms(1,2))

lemma recheck_simps [simp]:
  "annotation_key (recheck_disputed ps l v flds r) = annotation_key r"
  "base_version (recheck_disputed ps l v flds r) = base_version r"
  "base_json (recheck_disputed ps l v flds r) = base_json r"
  "local_json (recheck_disputed ps l v flds r) = local_json r"
  "local_deleted (recheck_disputed ps l v flds r) = local_deleted r"
  "edit_gen (recheck_disputed ps l v flds r) = edit_gen r"
  "sent_gen (recheck_disputed ps l v flds r) = sent_gen r"
  "sent_json (recheck_disputed ps l v flds r) = sent_json r"
  "sent_uncertain (recheck_disputed ps l v flds r) = sent_uncertain r"
  by (rule recheck_fold; simp)+

lemma recheck_state:
  "sync_state r = Conflict \<Longrightarrow> sync_state (recheck_disputed ps l v flds r) = Conflict"
  by (rule recheck_fold) auto

lemma conflict_map_ok_recheck:
  "conflict_map_ok r \<Longrightarrow> conflict_map_ok (recheck_disputed ps l v flds r)"
  by (rule recheck_fold) (auto intro: conflict_map_ok_add conflict_map_ok_remove)


section \<open>Recomputing the state\<close>

definition collapsed :: "(str \<Rightarrow> json option) \<Rightarrow> annotation_row \<Rightarrow> jmap option" where
  "collapsed ps r =
     (if \<not> local_deleted r \<and> sent_gen r = None \<and>
         (case (local_json r, base_json r) of (Some l, Some b) \<Rightarrow> content_eq ps l b | _ \<Rightarrow> False)
      then None else local_json r)"

lemma drop_empty_eq:
  "drop_empty_conflict_json r =
     r\<lparr>conflict_json := (if conflict_json r = Some [] then None else conflict_json r)\<rparr>"
  by (cases r) (simp add: drop_empty_conflict_json_def)

lemma collapse_local_eq: "collapse_local ps r = r\<lparr>local_json := collapsed ps r\<rparr>"
  by (cases r) (auto simp: collapse_local_def collapsed_def split: option.splits)

lemma recompute_eq:
  "\<not> in_conflict r \<Longrightarrow> recompute ps kb r =
     (let clean = (\<not> local_deleted r \<and> collapsed ps r = None) in
      r\<lparr>conflict_json := (if conflict_json r = Some [] then None else conflict_json r),
        local_json := collapsed ps r,
        sync_state := (if clean then Synced
          else if kb \<and> (sync_state r = Error \<or> sync_state r = WaitingParent) then sync_state r
          else Pending),
        last_error := (if clean then None else last_error r)\<rparr>)"
proof -
  have "collapsed ps (r\<lparr>conflict_json := c\<rparr>) = collapsed ps r" for c
    by (simp add: collapsed_def)
  then show "\<not> in_conflict r \<Longrightarrow> ?thesis"
    by (auto simp: recompute_def drop_empty_eq collapse_local_eq is_dirty_def Let_def
        intro!: annotation_row.equality)
qed

lemma recompute_conflict: "in_conflict r \<Longrightarrow> recompute ps kb r = r\<lparr>sync_state := Conflict\<rparr>"
  by (simp add: recompute_def)

lemma recompute_simps [simp]:
  "annotation_key (recompute ps kb r) = annotation_key r"
  "parent_key (recompute ps kb r) = parent_key r"
  "base_version (recompute ps kb r) = base_version r"
  "base_json (recompute ps kb r) = base_json r"
  "remote_trashed (recompute ps kb r) = remote_trashed r"
  "local_deleted (recompute ps kb r) = local_deleted r"
  "edit_gen (recompute ps kb r) = edit_gen r"
  "sent_gen (recompute ps kb r) = sent_gen r"
  "sent_json (recompute ps kb r) = sent_json r"
  "sent_uncertain (recompute ps kb r) = sent_uncertain r"
  "conflict_fields (recompute ps kb r) = conflict_fields r"
  by (cases "in_conflict r"; simp add: recompute_conflict recompute_eq Let_def)+

lemma in_conflict_recompute [simp]: "in_conflict (recompute ps kb r) = in_conflict r"
  by (simp add: in_conflict_def)

lemma recompute_conflict_json:
  "conflict_map_ok r \<Longrightarrow> \<not> in_conflict r \<Longrightarrow> conflict_json (recompute ps kb r) = None"
  by (cases "conflict_json r")
    (auto simp: recompute_eq Let_def in_conflict_def conflict_map_ok_def jkeys_def)

lemma recompute_local:
  "local_json (recompute ps kb r) = (if in_conflict r then local_json r else collapsed ps r)"
  by (simp add: recompute_conflict recompute_eq Let_def)

lemma recompute_state:
  "\<not> in_conflict r \<Longrightarrow> sync_state (recompute ps kb r) =
     (if \<not> is_dirty (recompute ps kb r) then Synced
      else if kb \<and> (sync_state r = Error \<or> sync_state r = WaitingParent) then sync_state r
      else Pending)"
  by (simp add: recompute_eq Let_def is_dirty_def)

lemma row_core_recompute: 
  assumes "row_core r"
  shows "row_core (recompute ps kb r)"
proof (cases "in_conflict r")
  case True
  with assms show ?thesis by (simp add: recompute_conflict row_inv_defs)
next
  case False
  then have "conflict_map_ok (recompute ps kb r)"
    using assms recompute_conflict_json [of r ps kb]
    by (simp add: row_core_def conflict_map_ok_def in_conflict_def jkeys_def)
  with assms False show ?thesis
    by (simp add: row_core_def deleted_conflict_ok_def recompute_local collapsed_def)
qed

lemma row_inv_recompute:
  assumes core: "row_core r" and sent: "sent_gen r = None"
  shows "row_inv ps (recompute ps kb r)"
proof (cases "in_conflict r")
  case True
  with core sent row_core_recompute [OF core, of ps kb] show ?thesis
    by (auto simp: row_inv_def recompute_conflict check_invariants_iff row_core_def sent_ok_def
        in_conflict_def)
next
  case False
  have "check_invariants ps (recompute ps kb r) = Inr ()"
    using core sent False
    by (auto simp: check_invariants_iff row_core_def is_dirty_def recompute_eq Let_def
        in_conflict_def collapsed_def split: option.splits)
  with core sent False row_core_recompute [OF core, of ps kb]
    recompute_conflict_json [OF _ False, of ps kb] show ?thesis
    by (simp add: row_inv_def sent_ok_def row_core_def)
qed

text \<open>With a request in flight a dirty row without conflicts stays as it is but pending.\<close>

lemma recompute_in_flight:
  assumes "sent_gen r \<noteq> None" "\<not> in_conflict r" "conflict_json r = None" "is_dirty r"
  shows "recompute ps False r = r\<lparr>sync_state := Pending\<rparr>"
  using assms by (cases r) (auto simp: recompute_eq Let_def collapsed_def is_dirty_def)

lemma row_inv_in_flight:
  assumes "row_core r" "sync_state r = Pending" "\<not> in_conflict r" "conflict_json r = None"
    "is_dirty r" "sent_gen r = Some g" "g \<le> edit_gen r" "sent_json r = Some s" "sent_fits ps r s"
  shows "row_inv ps r"
  using assms by (simp add: row_inv_def sent_ok_def check_invariants_iff row_core_def)

text \<open>A row in conflict with nothing in flight.\<close>

lemma row_inv_conflictI:
  assumes "row_core r" "in_conflict r" "sync_state r = Conflict" "sent_gen r = None"
  shows "row_inv ps r"
  using assms by (simp add: row_inv_def sent_ok_def check_invariants_iff row_core_def)

named_theorems row_inv_intros

lemma row_core_add:
  assumes "row_core r" "\<not> local_deleted r"
  shows "row_core (add_conflict f v r)"
  using assms by (simp add: row_core_def deleted_conflict_ok_def conflict_map_ok_add)

lemma conflict_map_ok_add_existence:
  "conflict_map_ok r \<Longrightarrow> conflict_map_ok (add_existence_conflict c r)"
  by (simp add: add_existence_conflict_def conflict_map_ok_add)

lemma add_existence_conflict_fields:
  "set (conflict_fields (add_existence_conflict c r)) = insert existence (set (conflict_fields r))"
  by (simp add: add_existence_conflict_def add_conflict_fields)

lemma row_core_add_existence:
  assumes "row_core r" "c \<noteq> Trashed \<or> \<not> local_deleted r"
  shows "row_core (add_existence_conflict c r)"
  using assms unfolding row_core_def deleted_conflict_ok_def
  by (auto simp: conflict_map_ok_add_existence add_existence_conflict_fields)

lemma row_inv_add_existence:
  assumes "row_core r" "c \<noteq> Trashed \<or> \<not> local_deleted r" "sent_gen r = None"
  shows "row_inv ps (add_existence_conflict c r)"
  by (rule row_inv_conflictI) (use assms in \<open>simp_all add: row_core_add_existence\<close>)

lemma row_core_add_conflicts:
  "row_core r \<Longrightarrow> \<not> local_deleted r \<Longrightarrow> row_core (add_conflicts ds r)"
  by (simp add: row_core_def deleted_conflict_ok_def conflict_map_ok_add_conflicts)

lemma row_core_set_base [simp]: "row_core r \<Longrightarrow> row_core (set_base v d r)"
  by (simp add: row_inv_defs set_base_def)

lemma row_core_clear_sent [simp]: "row_core r \<Longrightarrow> row_core (clear_sent r)"
  by (simp add: row_inv_defs clear_sent_def)

lemma row_core_clear_conflict [simp]: "row_core r \<Longrightarrow> row_core (clear_conflict r)"
  by (simp add: row_inv_defs clear_conflict_def jkeys_def)

lemma row_core_set_local [simp]:
  "row_core r \<Longrightarrow> \<not> local_deleted r \<Longrightarrow> row_core (r\<lparr>local_json := l\<rparr>)"
  by (simp add: row_inv_defs)

lemma set_base_simps [simp]:
  "annotation_key (set_base v d r) = annotation_key r"
  "base_version (set_base v d r) = Some v"
  "base_json (set_base v d r) = Some d"
  "remote_trashed (set_base v d r) = is_trashed d"
  "local_json (set_base v d r) = local_json r"
  "local_deleted (set_base v d r) = local_deleted r"
  "edit_gen (set_base v d r) = edit_gen r"
  "sent_gen (set_base v d r) = sent_gen r"
  "sent_json (set_base v d r) = sent_json r"
  "sent_uncertain (set_base v d r) = sent_uncertain r"
  "sync_state (set_base v d r) = sync_state r"
  "conflict_fields (set_base v d r) = conflict_fields r"
  "conflict_json (set_base v d r) = conflict_json r"
  "in_conflict (set_base v d r) = in_conflict r"
  "is_dirty (set_base v d r) = is_dirty r"
  "existence_reason (set_base v d r) = existence_reason r"
  by (simp_all add: set_base_def in_conflict_def is_dirty_def existence_reason_def)

lemma clear_sent_simps [simp]:
  "annotation_key (clear_sent r) = annotation_key r"
  "base_version (clear_sent r) = base_version r"
  "base_json (clear_sent r) = base_json r"
  "local_json (clear_sent r) = local_json r"
  "local_deleted (clear_sent r) = local_deleted r"
  "edit_gen (clear_sent r) = edit_gen r"
  "sent_gen (clear_sent r) = None"
  "sent_json (clear_sent r) = None"
  "sent_uncertain (clear_sent r) = False"
  "sync_state (clear_sent r) = sync_state r"
  "conflict_fields (clear_sent r) = conflict_fields r"
  "conflict_json (clear_sent r) = conflict_json r"
  "in_conflict (clear_sent r) = in_conflict r"
  "is_dirty (clear_sent r) = is_dirty r"
  by (simp_all add: clear_sent_def in_conflict_def is_dirty_def)

lemma clear_conflict_simps [simp]:
  "annotation_key (clear_conflict r) = annotation_key r"
  "base_version (clear_conflict r) = base_version r"
  "base_json (clear_conflict r) = base_json r"
  "local_json (clear_conflict r) = local_json r"
  "local_deleted (clear_conflict r) = local_deleted r"
  "edit_gen (clear_conflict r) = edit_gen r"
  "sent_gen (clear_conflict r) = sent_gen r"
  "sent_json (clear_conflict r) = sent_json r"
  "sent_uncertain (clear_conflict r) = sent_uncertain r"
  "sync_state (clear_conflict r) = sync_state r"
  "conflict_fields (clear_conflict r) = []"
  "conflict_json (clear_conflict r) = None"
  "\<not> in_conflict (clear_conflict r)"
  "is_dirty (clear_conflict r) = is_dirty r"
  by (simp_all add: clear_conflict_def in_conflict_def is_dirty_def)

end
