(* ===== verification/AnnSteps.thy ===== *)
theory AnnSteps
  imports AnnInvariant
begin

text \<open>
  Every transition of the annotation machine keeps the row invariant: one lemma per
  operation, then the step relation \<open>row_step\<close> with the reachable rows and their properties.
\<close>

section \<open>Idle rows\<close>

text \<open>
  A row whose request has just been cleared: the invariant without the clause that a local
  edit differs from the base, which \<open>recompute\<close> restores.
\<close>

definition row_idle :: "annotation_row \<Rightarrow> bool" where
  "row_idle r \<longleftrightarrow>
     row_core r \<and> sent_gen r = None \<and>
     (sync_state r = Conflict \<longleftrightarrow> in_conflict r) \<and>
     (is_dirty_state (sync_state r) \<longleftrightarrow> \<not> in_conflict r \<and> is_dirty r) \<and>
     (\<not> in_conflict r \<longrightarrow> conflict_json r = None)"

lemma row_idle_clear_sent: "row_inv ps r \<Longrightarrow> row_idle (clear_sent r)"
  by (simp add: row_idle_def row_inv_def check_invariants_iff)

lemma row_idle_of_inv: "row_inv ps r \<Longrightarrow> sent_gen r = None \<Longrightarrow> row_idle r"
  by (simp add: row_idle_def row_inv_def check_invariants_iff)

lemma row_idle_core: "row_idle r \<Longrightarrow> row_core r"
  by (simp add: row_idle_def)

lemma row_core_deleted: "row_core r \<Longrightarrow> local_deleted r \<Longrightarrow> local_json r = None"
  by (simp add: row_core_def)

lemma row_core_remove:
  assumes "row_core r" "\<not> local_deleted r"
  shows "row_core (remove_conflict f r)"
  using assms by (simp add: row_core_def deleted_conflict_ok_def conflict_map_ok_remove)

lemma row_core_recheck:
  assumes "row_core r" "\<not> local_deleted r"
  shows "row_core (recheck_disputed ps l v flds r)"
  using assms by (simp add: row_core_def deleted_conflict_ok_def conflict_map_ok_recheck)

section \<open>Local commands\<close>

lemma sent_fits_edit:
  assumes "sent_fits ps r s" "g = edit_gen r + 1" "sent_gen r = Some n" "n \<le> edit_gen r"
  shows "sent_fits ps (r\<lparr>edit_gen := g, local_json := l, local_deleted := d\<rparr>) s"
  using assms by (auto simp: sent_fits_def applied_everything_def split: sent.splits option.splits)

lemma sent_gen_cases:
  assumes "row_inv ps r"
  obtains "sent_gen r = None" "sent_json r = None"
  | g s where "sent_gen r = Some g" "sent_json r = Some s" "g \<le> edit_gen r" "sent_fits ps r s"
      "sync_state r = Pending" "\<not> in_conflict r" "is_dirty r" "conflict_json r = None"
proof (cases "sent_gen r")
  case None
  with assms that(1) show ?thesis by (auto simp: row_inv_def check_invariants_iff)
next
  case (Some g)
  with assms obtain s where s: "sent_json r = Some s" "sent_fits ps r s"
    by (auto simp: row_inv_def sent_ok_def split: option.splits)
  from that(2) [OF Some s(1) _ s(2)] row_inv_sent_pending [OF assms Some] show ?thesis
    by simp
qed

text \<open>A new local intent, as an edit and a delete record it.\<close>

lemma row_inv_new_intent:
  assumes inv: "row_inv ps r" and nc: "\<not> in_conflict r"
    and intent: "d \<longleftrightarrow> l = None"
  shows "row_inv ps (recompute ps False
    (r\<lparr>edit_gen := edit_gen r + 1, local_json := l, local_deleted := d\<rparr>))"
    (is "row_inv ps (recompute ps False ?r)")
proof -
  have core: "row_core ?r"
    using row_inv_core [OF inv] nc intent by (simp add: row_inv_defs)
  from inv show ?thesis
  proof (cases rule: sent_gen_cases)
    case 1
    with core show ?thesis by (simp add: row_inv_recompute)
  next
    case (2 g s)
    have "recompute ps False ?r = ?r\<lparr>sync_state := Pending\<rparr>"
      using 2 nc intent by (intro recompute_in_flight) (auto simp: is_dirty_def in_conflict_def)
    moreover have "?r\<lparr>sync_state := Pending\<rparr> = ?r"
      using 2 by (cases r) simp
    moreover have "row_inv ps ?r"
      using core 2 intent nc sent_fits_edit [of ps r s]
      by (intro row_inv_in_flight [of _ g s]) (auto simp: is_dirty_def in_conflict_def)
    ultimately show ?thesis by simp
  qed
qed

lemma row_inv_local_edit:
  assumes "row_inv ps r"
  shows "row_inv ps (fst (local_edit ps r wanted))"
proof (cases "in_conflict r")
  case True
  with row_inv_conflict [OF assms] row_inv_core [OF assms] show ?thesis
    by (auto simp: local_edit_def Let_def row_inv_defs intro!: row_inv_conflictI)
next
  case False
  then have "fst (local_edit ps r wanted) = recompute ps False
      (r\<lparr>edit_gen := edit_gen r + 1, local_json := Some wanted, local_deleted := False\<rparr>)"
    by (cases r) (simp add: local_edit_def Let_def in_conflict_def)
  with row_inv_new_intent [OF assms False, of False "Some wanted"] show ?thesis by simp
qed

lemma row_inv_clear_conflict:
  assumes "row_core r" "sent_gen r = None"
  shows "row_core (clear_conflict r)" "sent_gen (clear_conflict r) = None"
  using assms by simp_all

lemma row_inv_delete_intent:
  assumes "row_core r" "\<not> in_conflict r" "sent_gen r = None"
    and "delete_intent ps r = (r', Save)"
  shows "row_inv ps r'"
proof -
  have "row_core (r\<lparr>edit_gen := edit_gen r + 1, local_json := None, local_deleted := True\<rparr>)"
    using assms(1,2) by (simp add: row_inv_defs)
  with assms(3,4) show ?thesis
    by (auto simp: delete_intent_def intro!: row_inv_recompute split: if_splits)
qed

lemma row_inv_local_delete:
  assumes inv: "row_inv ps r" and "local_delete ps r = Inr (r', Save)"
  shows "row_inv ps r'"
proof -
  have nc: "\<not> in_conflict r" and r': "delete_intent ps r = (r', Save)"
    using assms(2) by (auto simp: local_delete_def split: if_splits)
  then have "r' = recompute ps False
      (r\<lparr>edit_gen := edit_gen r + 1, local_json := None, local_deleted := True\<rparr>)"
    by (auto simp: delete_intent_def split: if_splits)
  with row_inv_new_intent [OF inv nc, of True None] show ?thesis by simp
qed

lemma row_inv_local_delete_confirmed:
  assumes inv: "row_inv ps r" and del: "local_delete_confirmed ps r = (r', Save)"
  shows "row_inv ps r'"
proof (cases "in_conflict r")
  case True
  with row_inv_conflict [OF inv] row_inv_core [OF inv] del show ?thesis
    by (auto simp: local_delete_confirmed_def intro!: row_inv_delete_intent [of "clear_conflict r"])
next
  case False
  then have "clear_conflict r = r"
    using inv by (cases r) (simp add: row_inv_def clear_conflict_def in_conflict_def)
  with del False inv row_inv_local_delete [of ps r r'] show ?thesis
    by (simp add: local_delete_confirmed_def local_delete_def)
qed

lemma row_inv_local_restore:
  "row_inv ps r \<Longrightarrow> local_restore ps r = Inr (r', a) \<Longrightarrow> row_inv ps r'"
  using row_inv_local_edit
  by (auto simp: local_restore_def Let_def split: if_splits) (metis fst_conv)

section \<open>Merging a remote change\<close>

lemma remerge_conflict_kept [simp]:
  "annotation_key (remerge_conflict ps b v r) = annotation_key r"
  "base_version (remerge_conflict ps b v r) = base_version r"
  "base_json (remerge_conflict ps b v r) = base_json r"
  "local_deleted (remerge_conflict ps b v r) = local_deleted r"
  "edit_gen (remerge_conflict ps b v r) = edit_gen r"
  "sent_gen (remerge_conflict ps b v r) = sent_gen r"
  "sent_json (remerge_conflict ps b v r) = sent_json r"
  "sent_uncertain (remerge_conflict ps b v r) = sent_uncertain r"
  by (simp_all add: remerge_conflict_def Let_def split: option.split prod.split)

lemma remerge_conflict_core:
  assumes core: "row_core r" and state: "sync_state r = Conflict" and conf: "in_conflict r"
  shows "row_core (remerge_conflict ps b v r) \<and> sync_state (remerge_conflict ps b v r) = Conflict"
proof -
  define r1 where "r1 = (if existence_reason r = Some Trashed \<and> \<not> is_trashed v
    then remove_conflict existence r else r)"
  have "\<not> local_deleted r" if "existence_reason r = Some Trashed"
    using core conf that by (auto simp: row_core_def deleted_conflict_ok_def)
  then have r1: "row_core r1" "sync_state r1 = Conflict" "local_deleted r1 = local_deleted r"
      "local_json r1 = local_json r"
    using core state by (auto simp: r1_def row_core_remove)
  show ?thesis
  proof (cases "local_json r")
    case None
    with r1 show ?thesis by (simp add: remerge_conflict_def r1_def [symmetric] Let_def)
  next
    case (Some l)
    with core have nd: "\<not> local_deleted r1" using r1 by (auto dest: row_core_deleted)
    define r2 where "r2 = (if (is_trashed v \<and> \<not> is_trashed b \<and> \<not> is_trashed l) \<and>
      existence_reason r1 = None then add_existence_conflict Trashed r1 else r1)"
    define r3 where "r3 = recheck_disputed ps l v
      (filter (\<lambda>f. f \<noteq> existence) (conflict_fields r2)) r2"
    have r2: "row_core r2" "sync_state r2 = Conflict" "\<not> local_deleted r2"
      using r1 nd by (simp_all add: r2_def row_core_add_existence)
    then have r3: "row_core r3" "sync_state r3 = Conflict" "\<not> local_deleted r3"
      by (simp_all add: r3_def row_core_recheck recheck_state)
    have r4: "row_core (add_conflicts ds r3)" "sync_state (add_conflicts ds r3) = Conflict"
      "\<not> local_deleted (add_conflicts ds r3)" for ds
      using r3 by (simp_all add: row_core_add_conflicts add_conflicts_state)
    have "\<exists>ds l'. remerge_conflict ps b v r = (add_conflicts ds r3)\<lparr>local_json := Some l'\<rparr>"
      unfolding remerge_conflict_def Let_def r1_def [symmetric] r1(4) Some option.case
        r2_def [symmetric] r3_def [symmetric]
      by (simp split: prod.split) blast
    with r4 show ?thesis by auto
  qed
qed

lemma row_inv_set_base_idle:
  assumes "row_idle r" "local_deleted r" "\<not> in_conflict r"
  shows "row_inv ps (set_base v d r)"
proof -
  have "sync_state r \<noteq> Synced"
    using assms by (auto simp: row_idle_def is_dirty_def)
  with assms show ?thesis
    by (auto simp: row_idle_def row_inv_def check_invariants_iff sent_ok_def is_dirty_def
        row_core_def [of r])
qed

lemma row_inv_merge_with_base:
  assumes idle: "row_idle r" and merge: "merge_with_base ps r change mb = (r', a)"
    and keep: "a \<noteq> Remove"
  shows "row_inv ps r'"
proof -
  note core = row_idle_core [OF idle]
  have nosent: "sent_gen r = None" using idle by (simp add: row_idle_def)
  have conf: "in_conflict r \<Longrightarrow> sync_state r = Conflict" using idle by (simp add: row_idle_def)
  show ?thesis
  proof (cases change)
    case PermanentlyDeleted
    have "\<not> local_deleted r" if "local_json r \<noteq> None"
      using core that by (auto dest: row_core_deleted)
    with merge keep core nosent PermanentlyDeleted show ?thesis
      by (auto simp: merge_with_base_def split: if_splits intro!: row_inv_add_existence)
  next
    case (Item v d)
    show ?thesis
    proof (cases "in_conflict r")
      case True
      define rm where "rm = set_base v d (remerge_conflict ps mb d r)"
      have rm: "row_core rm" "sync_state rm = Conflict" "sent_gen rm = None"
        using remerge_conflict_core [OF core conf [OF True] True] nosent
        by (simp_all add: rm_def)
      from merge Item True have "r' = (if \<not> in_conflict rm then recompute ps True rm else rm)"
        by (auto simp: merge_with_base_def Let_def rm_def split: if_splits)
      with rm show ?thesis by (auto intro: row_inv_recompute row_inv_conflictI)
    next
      case nc: False
      show ?thesis
      proof (cases "local_deleted r")
        case True
        with merge Item nc core nosent idle show ?thesis
          by (auto simp: merge_with_base_def Let_def split: if_splits
              intro!: row_inv_add_existence row_inv_set_base_idle)
      next
        case nd: False
        show ?thesis
        proof (cases "local_json r")
          case None
          with merge Item nc nd core nosent show ?thesis
            by (auto simp: merge_with_base_def Let_def intro!: row_inv_recompute)
        next
          case (Some l)
          have "row_core (set_base v d (add_conflicts ds (r\<lparr>local_json := l'\<rparr>)))" for ds l'
            using core nd by (simp add: row_core_add_conflicts)
          with merge Item nc nd Some core nosent show ?thesis
            by (auto simp: merge_with_base_def Let_def split: if_splits prod.splits
                intro!: row_inv_add_existence row_inv_recompute)
        qed
      qed
    qed
  qed
qed

lemma row_inv_merge_remote:
  assumes inv: "row_inv ps r" and merge: "merge_remote ps r change = Inr (r', a)"
    and keep: "a \<noteq> Remove"
  shows "row_inv ps r'"
proof -
  have nosent: "sent_gen r = None"
    using merge by (auto simp: merge_remote_def split: if_splits)
  have "r' = r \<or> merge_with_base ps r change (unwrap_or [] (base_json r)) = (r', a)"
    using merge by (auto simp: merge_remote_def split: if_splits)
  with inv keep row_inv_merge_with_base [OF row_idle_of_inv [OF inv nosent]] show ?thesis
    by auto
qed

section \<open>Pushing\<close>

lemma row_inv_release_waiting_parent:
  assumes inv: "row_inv ps r"
  shows "row_inv ps (fst (release_waiting_parent r))"
proof (cases "sync_state r = WaitingParent \<and> sent_gen r = None")
  case True
  then have f: "\<not> in_conflict r" "is_dirty r"
    using inv by (auto simp: row_inv_def check_invariants_iff)
  have "row_core (r\<lparr>sync_state := Pending\<rparr>)"
    using row_inv_core [OF inv] by (simp add: row_inv_defs)
  with inv True f show ?thesis
    by (simp add: release_waiting_parent_def row_inv_def check_invariants_iff sent_ok_def
        in_conflict_def is_dirty_def)
next
  case False
  with inv show ?thesis by (auto simp: release_waiting_parent_def)
qed

lemma row_inv_mark_outstanding_uncertain:
  "row_inv ps r \<Longrightarrow> row_inv ps (fst (mark_outstanding_uncertain r))"
  by (auto simp: mark_outstanding_uncertain_def row_inv_def check_invariants_iff row_inv_defs
      sent_ok_def sent_fits_def applied_everything_def split: sent.splits option.splits)

lemma begin_send_simps [simp]:
  "annotation_key (begin_send r req) = annotation_key r"
  "base_version (begin_send r req) = base_version r"
  "base_json (begin_send r req) = base_json r"
  "local_json (begin_send r req) = local_json r"
  "local_deleted (begin_send r req) = local_deleted r"
  "edit_gen (begin_send r req) = edit_gen r"
  "sent_gen (begin_send r req) = Some (edit_gen r)"
  "sent_json (begin_send r req) = Some (sent_of_request req)"
  "\<not> sent_uncertain (begin_send r req)"
  "sync_state (begin_send r req) = sync_state r"
  "conflict_fields (begin_send r req) = conflict_fields r"
  "conflict_json (begin_send r req) = conflict_json r"
  "in_conflict (begin_send r req) = in_conflict r"
  by (simp_all add: begin_send_def in_conflict_def)

lemma next_request_pending:
  "next_request ps r = (r', Some req) \<Longrightarrow> sync_state r = Pending \<and> sent_gen r = None \<and> r' = r"
  by (auto simp: next_request_def Let_def split: if_splits option.splits bool.splits)

lemma next_request_none:
  "next_request ps r = (r', None) \<Longrightarrow> r' = r \<or> (r' = recompute ps False r \<and> sent_gen r = None)"
  by (auto simp: next_request_def Let_def split: if_splits option.splits bool.splits)

text \<open>The request agrees with the row it is built from.\<close>

lemma next_request_fits:
  assumes inv: "row_inv ps r" and nr: "next_request ps r = (r', Some req)"
  shows "sent_fits ps (begin_send r req) (sent_of_request req)"
proof -
  have "together (base_version r) (base_json r)" "\<not> local_deleted r \<or> local_json r = None"
    using inv by (auto simp: row_inv_def row_core_def)
  with nr show ?thesis
    by (cases "base_json r")
      (auto simp: next_request_def Let_def sent_fits_def begin_send_def patch_body_empty_iff
        dest: content_eq_sym split: if_splits option.splits bool.splits)
qed

lemma row_inv_begin_send:
  assumes inv: "row_inv ps r" and nr: "next_request ps r = (r', Some req)"
  shows "row_inv ps (begin_send r' req)"
proof -
  have p: "sync_state r = Pending" "sent_gen r = None" "r' = r"
    using next_request_pending [OF nr] by auto
  have "row_core (begin_send r req)"
    using row_inv_core [OF inv] by (simp add: row_inv_defs begin_send_def)
  moreover have "\<not> in_conflict r" "is_dirty r" "conflict_json r = None"
    using inv p by (auto simp: row_inv_def check_invariants_iff)
  ultimately show ?thesis
    using p next_request_fits [OF inv nr]
    by (intro row_inv_in_flight [of _ "edit_gen r" "sent_of_request req"])
      (auto simp: begin_send_def in_conflict_def is_dirty_def)
qed

lemma row_inv_next_request_none:
  "row_inv ps r \<Longrightarrow> next_request ps r = (r', None) \<Longrightarrow> row_inv ps r'"
  by (auto dest!: next_request_none intro: row_inv_recompute row_inv_core)

section \<open>Outcomes\<close>

text \<open>
  The answers the engine can give a request: a create never is stale or gone, and only a
  create misses its parent or finds its key taken.
\<close>

fun outcome_fits :: "sent \<Rightarrow> outcome \<Rightarrow> bool" where
  "outcome_fits s Gone = (s = SentDelete)"
| "outcome_fits s (Stale _) = (\<forall>d. s \<noteq> SentCreate d)"
| "outcome_fits s (CreateExists _ _) = (\<exists>d. s = SentCreate d)"
| "outcome_fits s (ParentMissing _ _) = (\<exists>d. s = SentCreate d)"
| "outcome_fits s _ = True"

lemma row_core_synced:
  "row_core r \<Longrightarrow> \<not> in_conflict r \<Longrightarrow>
     row_core (r\<lparr>local_json := None, local_deleted := False, sync_state := Synced, last_error := e\<rparr>)"
  by (simp add: row_inv_defs)

lemma row_inv_acknowledge:
  assumes inv: "row_inv ps r" and sent: "sent_gen r = Some g"
  shows "row_inv ps (fst (acknowledge ps r s version))"
proof -
  have core: "row_core (clear_sent (set_base version d r))" for d
    using row_inv_core [OF inv] by simp
  have flight: "\<not> in_conflict r" "conflict_json r = None"
    using row_inv_sent_pending [OF inv sent] by auto
  have "row_inv ps ((clear_sent (set_base version d r))
    \<lparr>local_json := None, local_deleted := False, sync_state := Synced, last_error := None\<rparr>)" for d
    using row_core_synced [OF core] flight
    by (simp add: row_inv_def check_invariants_iff sent_ok_def row_core_def
        in_conflict_def is_dirty_def)
  then show ?thesis
    using core by (simp add: acknowledge_def Let_def row_inv_recompute)
qed

lemma row_inv_recreate:
  assumes "row_core r"
  shows "row_inv ps (fst (recreate fresh r))"
  using assms
  by (simp add: recreate_def Let_def row_inv_def check_invariants_iff sent_ok_def row_inv_defs
      clear_conflict_def clear_sent_def jkeys_def)

lemma row_inv_delete_gone:
  assumes "row_core r" "delete_gone fresh r = (r', a)" "a \<noteq> Remove"
  shows "row_inv ps r'"
  using assms row_inv_recreate [of "clear_sent r" ps fresh]
  by (auto simp: delete_gone_def Let_def split: if_splits)

lemma row_inv_create_exists:
  assumes inv: "row_inv ps r" and sent: "sent_gen r = Some g"
    and snt: "sent_json r = Some (SentCreate d)"
  shows "row_inv ps (fst (create_exists ps r version server))"
proof -
  have core: "row_core (set_base version server (clear_sent r))"
    using row_inv_core [OF inv] by simp
  have flight: "\<not> in_conflict r" "conflict_json r = None" "is_dirty r"
    using row_inv_sent_pending [OF inv sent] by auto
  have all: "local_json r \<noteq> None" if "applied_everything r"
    using inv that sent snt by (auto simp: row_inv_def sent_ok_def sent_fits_def)
  have nd: "\<not> local_deleted r" if "local_json r \<noteq> None"
    using row_inv_core [OF inv] that by (auto dest: row_core_deleted)
  have deleted: "row_inv ps ((set_base version server (clear_sent r))\<lparr>sync_state := Pending\<rparr>)"
    if "local_deleted r"
    using core flight that
    by (simp add: row_inv_def check_invariants_iff sent_ok_def row_inv_defs)
  show ?thesis
    using core all nd deleted flight
    by (auto simp: create_exists_def Let_def snt
        intro!: row_inv_recompute row_inv_add_existence row_core_add_conflicts)
qed

lemma row_inv_error_state:
  assumes "row_idle r" "\<not> in_conflict r" "is_dirty r"
    and "\<And>l b. local_json r = Some l \<Longrightarrow> base_json r = Some b \<Longrightarrow> \<not> content_eq ps l b"
    and "s = Error \<or> s = WaitingParent \<or> s = Pending"
  shows "row_inv ps (r\<lparr>last_error := m, sync_state := s\<rparr>)"
  using assms by (auto simp: row_idle_def row_inv_def check_invariants_iff sent_ok_def row_inv_defs)

lemma row_inv_apply_outcome:
  assumes inv: "row_inv ps r" and snt: "sent_json r = Some s" and fits: "outcome_fits s oc"
    and app: "apply_outcome ps fresh r oc = (r', nx)" and keep: "into_action nx \<noteq> Remove"
  shows "row_inv ps r'"
proof -
  obtain g where g: "sent_gen r = Some g" and sf: "sent_fits ps r s"
    using inv snt by (cases rule: sent_gen_cases) auto
  note flight = row_inv_sent_pending [OF inv g]
  note core = row_inv_core [OF inv]
  note idle = row_idle_clear_sent [OF inv]
  show ?thesis
  proof (cases oc)
    case (Applied v)
    with app row_inv_acknowledge [OF inv g, of "sent_json r" v] show ?thesis
      by (auto simp: apply_outcome_def Let_def apsnd_def map_prod_def split: prod.splits)
  next
    case Gone
    with app keep core show ?thesis
      by (auto simp: apply_outcome_def Let_def apsnd_def map_prod_def split: prod.splits
          intro: row_inv_delete_gone)
  next
    case (Stale change)
    with app keep idle show ?thesis
      by (auto simp: apply_outcome_def Let_def split: prod.splits if_splits
          intro: row_inv_merge_with_base)
  next
    case (CreateExists v d)
    then obtain b where b: "s = SentCreate b" using fits by auto
    from app CreateExists row_inv_create_exists [OF inv g snt [unfolded b], of v d] show ?thesis
      by (auto simp: apply_outcome_def Let_def apsnd_def map_prod_def split: prod.splits)
  next
    case (Rejected m)
    have "\<not> content_eq ps l b"
      if "applied_everything r" "local_json r = Some l" "base_json r = Some b" for l b
      using sf that core by (auto simp: sent_fits_def dest: row_core_deleted split: sent.splits)
    then have "row_inv ps ((clear_sent r)\<lparr>last_error := Some m, sync_state := Error\<rparr>)"
      if "applied_everything r"
      using idle flight that by (intro row_inv_error_state) auto
    moreover have "row_inv ps (recompute ps False (clear_sent r))"
      using core by (simp add: row_inv_recompute)
    ultimately show ?thesis
      using app Rejected by (auto simp: apply_outcome_def Let_def applied_everything_def split: if_splits)
  next
    case (ParentMissing p m)
    then have base: "base_json r = None" using fits sf by (auto simp: sent_fits_def)
    have "row_inv ps ((clear_sent r)\<lparr>last_error := Some m, sync_state := st\<rparr>)"
      if "st = Error \<or> st = WaitingParent \<or> st = Pending" for st
      using idle flight base that by (intro row_inv_error_state) auto
    with app ParentMissing core show ?thesis
      by (auto simp: apply_outcome_def Let_def split: parent_status.splits
          intro: row_inv_add_existence)
  next
    case Refused
    with app core show ?thesis by (auto simp: apply_outcome_def Let_def intro: row_inv_recompute)
  next
    case Uncertain
    then have "r' = r\<lparr>sent_uncertain := True\<rparr>" using app by (simp add: apply_outcome_def Let_def)
    moreover have "fst (mark_outstanding_uncertain r) = r\<lparr>sent_uncertain := True\<rparr>"
      using g by (cases r) (simp add: mark_outstanding_uncertain_def)
    ultimately show ?thesis using row_inv_mark_outstanding_uncertain [OF inv] by simp
  qed
qed

lemma row_inv_reconcile:
  assumes inv: "row_inv ps r" and rec: "reconcile ps fresh r obs = (r', a)" and keep: "a \<noteq> Remove"
    and sent: "sent_gen r = Some g"
  shows "row_inv ps r'"
proof -
  obtain s where s: "sent_json r = Some s"
    using inv sent by (cases rule: sent_gen_cases) auto
  note core = row_inv_core [OF inv]
  have recomp: "row_inv ps (recompute ps True (clear_sent r))"
    using core by (simp add: row_inv_recompute)
  note merge = row_inv_merge_with_base [OF row_idle_clear_sent [OF inv] _ keep]
  show ?thesis
  proof (cases s)
    case (SentCreate d)
    from rec s SentCreate recomp keep row_inv_create_exists [OF inv sent s [unfolded SentCreate]]
    show ?thesis
      by (auto simp: reconcile_def Let_def split: observed.splits if_splits) (metis fst_conv)
  next
    case (SentUpdate flds)
    with rec s recomp merge show ?thesis
      by (auto simp: reconcile_def Let_def split: observed.splits if_splits)
  next
    case SentDelete
    with rec s recomp merge keep core show ?thesis
      by (auto simp: reconcile_def Let_def split: observed.splits if_splits
          intro: row_inv_delete_gone)
  qed
qed

section \<open>Resolving\<close>

lemma row_inv_resolve_fields:
  assumes "row_core r" "\<not> local_deleted r" "sent_gen r = None"
  shows "row_inv ps (fst (resolve_fields ps fresh r ds rv rn))"
proof -
  have "row_core (clear_conflict (r\<lparr>local_json := l, edit_gen := n\<rparr>))" for l n
    using assms by (simp add: row_inv_defs clear_conflict_def jkeys_def)
  with assms(3) show ?thesis
    by (auto simp: resolve_fields_def Let_def intro: row_inv_recompute row_inv_recreate)
qed

lemma find_None_all: "List.find P xs = None \<Longrightarrow> x \<in> set xs \<Longrightarrow> \<not> P x"
  by (simp add: find_None_iff)

lemma row_inv_resolve:
  assumes inv: "row_inv ps r" and res: "resolve ps fresh r ds = Inr (r', a)" and keep: "a \<noteq> Remove"
  shows "row_inv ps r'"
proof -
  have conf: "in_conflict r" using res by (auto simp: resolve_def split: if_splits)
  note c = row_inv_conflict [OF inv conf] and core = row_inv_core [OF inv]
  have decided: "\<And>f. f \<in> set (conflict_fields r) \<Longrightarrow> map_of ds f \<noteq> None"
    using res by (auto simp: resolve_def dest!: find_None_all split: if_splits option.splits)
  show ?thesis
  proof (cases "map_of ds existence")
    case None
    then have "\<not> local_deleted r"
      using decided [of existence] core conf by (auto simp: row_core_def deleted_conflict_ok_def)
    with core c row_inv_resolve_fields [of r ps fresh ds "unwrap_or [] (conflict_json r)" False]
    show ?thesis
      using res None by (auto simp: resolve_def Let_def split: if_splits option.splits)
  next
    case (Some dec)
    show ?thesis
    proof (cases "dec = DecDelete \<or> dec = Zotero")
      case True
      with res Some keep have "delete_intent ps (clear_conflict r) = (r', a)" "a = Save"
        by (auto simp: resolve_def Let_def delete_intent_def split: if_splits option.splits)
      with core c show ?thesis by (auto intro!: row_inv_delete_intent [of "clear_conflict r"])
    next
      case False
      have "row_core (r\<lparr>local_deleted := False, local_json := l\<rparr>)" for l
        using core by (simp add: row_inv_defs)
      with c have "row_inv ps (fst (resolve_fields ps fresh
          (r\<lparr>local_deleted := False, local_json := l\<rparr>) ds rv rn))" for l rv rn
        by (intro row_inv_resolve_fields) auto
      then show ?thesis
        using res Some False
        by (auto simp: resolve_def Let_def split: if_splits option.splits) (metis fst_conv)+
    qed
  qed
qed

section \<open>Reachable rows\<close>

text \<open>
  The life of a row between its creation and its removal. The rules \<open>edit\<close>, \<open>delete\<close>,
  \<open>delete_confirmed\<close>, \<open>restore\<close> and \<open>decide\<close> are the local commands, which may run while a
  request is out; the others are the engine's. A row that a transition removes is gone; a
  recreated row goes on under its new key.
\<close>

inductive row_step :: "(str \<Rightarrow> json option) \<Rightarrow> annotation_row \<Rightarrow> annotation_row \<Rightarrow> bool"
  for ps :: "str \<Rightarrow> json option" where
  edit: "local_edit ps r wanted = (r', a) \<Longrightarrow> row_step ps r r'"
| delete: "local_delete ps r = Inr (r', Save) \<Longrightarrow> row_step ps r r'"
| delete_confirmed: "local_delete_confirmed ps r = (r', Save) \<Longrightarrow> row_step ps r r'"
| restore: "local_restore ps r = Inr (r', a) \<Longrightarrow> row_step ps r r'"
| decide: "resolve ps fresh r ds = Inr (r', a) \<Longrightarrow> a \<noteq> Remove \<Longrightarrow> row_step ps r r'"
| pull: "merge_remote ps r change = Inr (r', a) \<Longrightarrow> a \<noteq> Remove \<Longrightarrow> row_step ps r r'"
| send: "next_request ps r = (r', Some req) \<Longrightarrow> row_step ps r (begin_send r' req)"
| nothing_to_send: "next_request ps r = (r', None) \<Longrightarrow> row_step ps r r'"
| answer: "sent_json r = Some s \<Longrightarrow> outcome_fits s oc \<Longrightarrow> apply_outcome ps fresh r oc = (r', nx)
    \<Longrightarrow> into_action nx \<noteq> Remove \<Longrightarrow> row_step ps r r'"
| restart: "row_step ps r (fst (mark_outstanding_uncertain r))"
| reread: "sent_uncertain r \<Longrightarrow> reconcile ps fresh r obs = (r', a) \<Longrightarrow> a \<noteq> Remove \<Longrightarrow> row_step ps r r'"
| release: "row_step ps r (fst (release_waiting_parent r))"

inductive reachable_row :: "(str \<Rightarrow> json option) \<Rightarrow> annotation_row \<Rightarrow> bool"
  for ps :: "str \<Rightarrow> json option" where
  pulled: "reachable_row ps (from_server key version d)"
| created: "reachable_row ps (new_local key d)"
| step: "reachable_row ps r \<Longrightarrow> row_step ps r r' \<Longrightarrow> reachable_row ps r'"

lemma row_inv_from_server: "row_inv ps (from_server key version d)"
  by (simp add: from_server_def row_inv_def check_invariants_iff sent_ok_def row_inv_defs jkeys_def)

lemma row_inv_new_local: "row_inv ps (new_local key d)"
  by (simp add: new_local_def row_inv_def check_invariants_iff sent_ok_def row_inv_defs jkeys_def)

lemma row_inv_step: "row_step ps r r' \<Longrightarrow> row_inv ps r \<Longrightarrow> row_inv ps r'"
proof (induction rule: row_step.induct)
  case (edit r wanted r' a)
  then show ?case using row_inv_local_edit [of ps r wanted] by simp
next
  case (reread r fresh obs r' a)
  then obtain g where "sent_gen r = Some g" by (auto simp: row_inv_def row_core_def)
  with reread row_inv_reconcile show ?case by blast
qed (auto intro: row_inv_local_delete row_inv_local_delete_confirmed row_inv_local_restore
    row_inv_resolve row_inv_merge_remote row_inv_begin_send row_inv_next_request_none
    row_inv_apply_outcome row_inv_mark_outstanding_uncertain row_inv_release_waiting_parent)

lemma reachable_row_inv: "reachable_row ps r \<Longrightarrow> row_inv ps r"
  by (induction rule: reachable_row.induct)
    (auto intro: row_inv_from_server row_inv_new_local row_inv_step)

end
