(* ===== verification/AnnSamples.thy ===== *)
theory AnnSamples
  imports AnnSteps
begin

text \<open>
  A short history of one annotation, step by step, on which the properties of the annotation
  sync are instantiated: a row pulled from Zotero, edited, sent, edited again, acknowledged,
  and brought into conflict.
\<close>

definition no_parse :: "str \<Rightarrow> json option" where
  "no_parse v = None"

definition color_comment :: "string \<Rightarrow> string \<Rightarrow> jmap" where
  "color_comment c t = [(tx ''annotationColor'', JString (tx c)),
     (tx ''annotationComment'', JString (tx t))]"

definition comment_only :: "string \<Rightarrow> jmap" where
  "comment_only t = [(tx ''annotationComment'', JString (tx t))]"

definition pulled_row :: annotation_row where
  "pulled_row = from_server (tx ''ABCD2345'') 5 (color_comment ''red'' ''A'')"

definition edited_row :: annotation_row where
  "edited_row = fst (local_edit no_parse pulled_row (color_comment ''red'' ''B''))"

definition edit_request :: request where
  "edit_request = Update (tx ''ABCD2345'') 5 (comment_only ''B'')"

definition flying_row :: annotation_row where
  "flying_row = begin_send edited_row edit_request"

definition reedited_row :: annotation_row where
  "reedited_row = fst (local_edit no_parse flying_row (color_comment ''red'' ''C''))"

definition uncertain_row :: annotation_row where
  "uncertain_row = fst (mark_outstanding_uncertain reedited_row)"

definition merged_row :: "jmap \<Rightarrow> annotation_row" where
  "merged_row d = (case merge_remote no_parse edited_row (Item 6 d) of
     Inr (r, _) \<Rightarrow> r | Inl _ \<Rightarrow> edited_row)"

definition disputed_row :: annotation_row where
  "disputed_row = merged_row (color_comment ''red'' ''Z'')"

definition new_body :: jmap where
  "new_body = color_comment ''red'' ''A'' @ [(tx ''itemType'', JString (tx ''annotation''))]"

definition created_row :: annotation_row where
  "created_row = new_local (tx ''NEWK2345'') new_body"

definition create_request :: request where
  "create_request = Create (tx ''NEWK2345'') (create_body (tx ''NEWK2345'') new_body)"

definition creating_row :: annotation_row where
  "creating_row = begin_send created_row create_request"

definition deleted_creating_row :: annotation_row where
  "deleted_creating_row = (case local_delete no_parse creating_row of
     Inr (r, _) \<Rightarrow> r | Inl _ \<Rightarrow> creating_row)"

lemma edited_row_inv: "row_inv no_parse edited_row"
  by code_simp

lemma flying_row_inv: "row_inv no_parse flying_row"
  by code_simp

lemma reedited_row_inv: "row_inv no_parse reedited_row"
  by code_simp

lemma uncertain_row_inv: "row_inv no_parse uncertain_row"
  by code_simp

lemma disputed_row_inv: "row_inv no_parse disputed_row"
  by code_simp

lemma creating_row_inv: "row_inv no_parse creating_row"
  by code_simp

lemma reachable_disputed_row: "reachable_row no_parse disputed_row"
proof -
  have "reachable_row no_parse pulled_row"
    unfolding pulled_row_def by (rule reachable_row.pulled)
  moreover have "local_edit no_parse pulled_row (color_comment ''red'' ''B'') = (edited_row, Save)"
    by code_simp
  ultimately have "reachable_row no_parse edited_row"
    by (blast intro: reachable_row.step row_step.edit)
  moreover have "merge_remote no_parse edited_row (Item 6 (color_comment ''red'' ''Z''))
      = Inr (disputed_row, Save)"
    by code_simp
  ultimately show ?thesis
    by (blast intro: reachable_row.step row_step.pull)
qed

end
