(* ===== verification/AnnProps.thy ===== *)
theory AnnProps
  imports AnnSamples
begin

text \<open>
  What the annotation machine promises its user: the three-way merge field by field, edits
  that survive a pull and a request in flight, what the server holds after an acknowledged
  request, the repair of a lost answer, and the resolution of a conflict.
\<close>

section \<open>The merge of two objects\<close>

lemma mem_merge_fields:
  "f \<in> set (merge_fields b l v) \<longleftrightarrow> jget b f \<noteq> None \<or> jget l f \<noteq> None \<or> jget v f \<noteq> None"
proof -
  have "set (fold (\<lambda>f flds. if f \<in> set flds then flds else flds @ [f]) xs ys) =
      set xs \<union> set ys" for xs ys :: "str list"
    by (induction xs arbitrary: ys) auto
  then show ?thesis by (auto simp: merge_fields_def mem_field_union)
qed

text \<open>The value a field has after the merge, and whether it is in dispute.\<close>

definition merged_value ::
  "(str \<Rightarrow> json option) \<Rightarrow> jmap \<Rightarrow> jmap \<Rightarrow> jmap \<Rightarrow> str \<Rightarrow> json option" where
  "merged_value ps b l v f =
     (if f \<noteq> tx ''key'' \<and> \<not> field_eq ps f (jget l f) (jget v f)
        \<and> (field_eq ps f (jget l f) (jget b f) \<or> is_server_field f)
      then jget v f else jget l f)"

definition in_dispute ::
  "(str \<Rightarrow> json option) \<Rightarrow> jmap \<Rightarrow> jmap \<Rightarrow> jmap \<Rightarrow> str \<Rightarrow> bool" where
  "in_dispute ps b l v f \<longleftrightarrow>
     \<not> is_server_field f \<and> \<not> field_eq ps f (jget l f) (jget v f)
     \<and> \<not> field_eq ps f (jget l f) (jget b f) \<and> \<not> field_eq ps f (jget v f) (jget b f)"

lemma key_is_server_field [simp]: "is_server_field (tx ''key'')"
  by (simp add: is_server_field_def server_fields_def)

lemma three_way_field_value:
  "jget (fst (three_way_field ps b v f (l, ds))) g =
     (if g = f then merged_value ps b l v f else jget l g)"
  by (auto simp: three_way_field_def merged_value_def Let_def jget_jinsert_iff jget_jremove_iff
      split: option.splits)

lemma three_way_field_disputes:
  "snd (three_way_field ps b v f (l, ds)) =
     (if in_dispute ps b l v f then ds @ [(f, unwrap_or JNull (jget v f))] else ds)"
  by (auto simp: three_way_field_def in_dispute_def Let_def split: option.splits)

lemma merged_value_cong:
  "jget l f = jget l' f \<Longrightarrow> merged_value ps b l v f = merged_value ps b l' v f"
  by (auto simp: merged_value_def)

lemma in_dispute_cong:
  "jget l f = jget l' f \<Longrightarrow> in_dispute ps b l v f = in_dispute ps b l' v f"
  by (simp add: in_dispute_def)

lemma in_dispute_merged:
  "in_dispute ps b l v f \<Longrightarrow> merged_value ps b l v f = jget l f"
  by (simp add: in_dispute_def merged_value_def)

lemma three_way_fold:
  assumes "fold (three_way_field ps b v) fs (l, ds) = (m, ds')"
  shows "jget m f = (if f \<in> set fs then merged_value ps b l v f else jget l f) \<and>
    set ds' = set ds \<union> {(g, unwrap_or JNull (jget v g)) | g. g \<in> set fs \<and> in_dispute ps b l v g}"
  using assms
proof (induction fs arbitrary: l ds)
  case Nil
  then show ?case by simp
next
  case (Cons a fs)
  obtain l1 ds1 where s: "three_way_field ps b v a (l, ds) = (l1, ds1)" by fastforce
  have l1: "jget l1 g = (if g = a then merged_value ps b l v a else jget l g)" for g
    using three_way_field_value [of ps b v a l ds g] s by simp
  have ds1: "set ds1 = set ds \<union>
      (if in_dispute ps b l v a then {(a, unwrap_or JNull (jget v a))} else {})"
    using three_way_field_disputes [of ps b v a l ds] s by auto
  have mv: "merged_value ps b l1 v g = merged_value ps b l v g" for g
    by (cases "g = a") (auto simp: l1 merged_value_def)
  have dis: "in_dispute ps b l1 v g = in_dispute ps b l v g" for g
    by (cases "g = a") (auto simp: l1 in_dispute_def merged_value_def)
  have "fold (three_way_field ps b v) fs (l1, ds1) = (m, ds')"
    using Cons.prems s by simp
  from Cons.IH [OF this] show ?case
    by (simp add: l1 ds1 mv dis) blast
qed

lemma jget_three_way:
  assumes "three_way ps b l v = (m, ds)"
  shows "jget m f = merged_value ps b l v f"
    and "set ds = {(g, unwrap_or JNull (jget v g)) | g. in_dispute ps b l v g}"
proof -
  have absent: "f \<notin> set (merge_fields b l v) \<Longrightarrow>
      merged_value ps b l v f = jget l f \<and> \<not> in_dispute ps b l v f" for f
    by (auto simp: mem_merge_fields merged_value_def in_dispute_def)
  from three_way_fold [of ps b v _ l "[]" m ds] assms absent
  show "jget m f = merged_value ps b l v f"
    by (auto simp: three_way_def)
  have "set ds = {(g, unwrap_or JNull (jget v g)) | g.
      g \<in> set (merge_fields b l v) \<and> in_dispute ps b l v g}"
    using three_way_fold [of ps b v _ l "[]" m ds] assms by (simp add: three_way_def)
  with absent show "set ds = {(g, unwrap_or JNull (jget v g)) | g. in_dispute ps b l v g}"
    by blast
qed

text \<open>
  C6: the three-way merge decides every field of the three objects. A field other than
  \<open>key\<close> takes Zotero's value when the user left it as the base had it or the server owns it,
  and keeps the user's value otherwise; the fields reported in dispute are exactly the
  content fields both sides changed, differently, each with Zotero's value (\<open>null\<close> when
  Zotero removed it).
\<close>

theorem three_way_decides_every_field:
  assumes "three_way ps b l v = (m, ds)"
  shows "jget m f =
      (if f \<noteq> tx ''key'' \<and> \<not> field_eq ps f (jget l f) (jget v f)
         \<and> (field_eq ps f (jget l f) (jget b f) \<or> is_server_field f)
       then jget v f else jget l f)
    \<and> ((f, x) \<in> set ds \<longleftrightarrow>
       \<not> is_server_field f \<and> \<not> field_eq ps f (jget l f) (jget b f)
       \<and> \<not> field_eq ps f (jget v f) (jget b f) \<and> \<not> field_eq ps f (jget l f) (jget v f)
       \<and> x = unwrap_or JNull (jget v f))"
  using jget_three_way(1) [OF assms, of f] jget_three_way(2) [OF assms]
  by (auto simp: merged_value_def in_dispute_def)

lemma three_way_decides_every_field_witness:
  "jget (color_comment ''blue'' ''B'') (tx ''annotationComment'') = Some (JString (tx ''B'')) \<and>
   (tx ''annotationComment'', JString (tx ''Z'')) \<in> set [(tx ''annotationComment'', JString (tx ''Z''))]"
proof -
  have "three_way no_parse (color_comment ''red'' ''A'') (color_comment ''red'' ''B'')
      (color_comment ''blue'' ''Z'') =
      (color_comment ''blue'' ''B'', [(tx ''annotationComment'', JString (tx ''Z''))])"
    by code_simp
  from three_way_decides_every_field [OF this, of "tx ''annotationComment''" "JString (tx ''Z'')"]
  show ?thesis by code_simp
qed

section \<open>Desired content after a merge\<close>

lemma desired_recompute:
  assumes "\<not> local_deleted r" "local_json r = Some l"
  shows "\<exists>d. desired (recompute ps kb r) = Some d \<and> content_eq ps d l"
proof (cases "in_conflict r")
  case True
  with assms show ?thesis by (simp add: recompute_conflict desired_def)
next
  case False
  with assms show ?thesis
    by (auto simp: desired_def recompute_local collapsed_def intro: content_eq_sym
        split: option.splits)
qed

lemma content_eqD: "content_eq ps a b \<Longrightarrow> \<not> is_server_field f \<Longrightarrow> field_eq ps f (jget a f) (jget b f)"
  by (simp add: content_eq_iff)

text \<open>What the merge of a remote object does to an undisturbed row with a local edit.\<close>

lemma merge_item_local:
  assumes "\<not> in_conflict r" "\<not> local_deleted r" "local_json r = Some l"
    and "\<not> (is_trashed d \<and> \<not> is_trashed mb \<and> \<not> is_trashed l)"
    and tw: "three_way ps mb l d = (m, ds)"
  shows "merge_with_base ps r (Item v d) mb =
    (recompute ps True (set_base v d (add_conflicts ds (r\<lparr>local_json := Some m\<rparr>))), Save)"
  using assms by (auto simp: merge_with_base_def Let_def)

lemma merge_item_desired:
  assumes "\<not> in_conflict r" "\<not> local_deleted r" "local_json r = Some l"
    and "\<not> (is_trashed d \<and> \<not> is_trashed mb \<and> \<not> is_trashed l)"
  obtains r' m where "merge_with_base ps r (Item v d) mb = (r', Save)"
    "base_json r' = Some d" "base_version r' = Some v"
    "in_conflict r' \<longleftrightarrow> (\<exists>f. in_dispute ps mb l d f)"
    "content_eq ps (unwrap_or [] (desired r')) m" "\<And>f. jget m f = merged_value ps mb l d f"
    "local_deleted r' = False" "sent_gen r' = sent_gen r"
    "\<not> in_conflict r' \<Longrightarrow> sent_gen r = None \<Longrightarrow> (sync_state r' = Synced \<longleftrightarrow> content_eq ps m d)"
proof -
  obtain m ds where tw: "three_way ps mb l d = (m, ds)" by fastforce
  define r1 where "r1 = set_base v d (add_conflicts ds (r\<lparr>local_json := Some m\<rparr>))"
  have r1: "\<not> local_deleted r1" "local_json r1 = Some m" "base_json r1 = Some d"
      "base_version r1 = Some v" "in_conflict r1 \<longleftrightarrow> ds \<noteq> []" "sent_gen r1 = sent_gen r"
    using assms by (simp_all add: r1_def in_conflict_def [of "r\<lparr>local_json := _\<rparr>"]
        in_conflict_def [of r])
  have ds: "ds \<noteq> [] \<longleftrightarrow> (\<exists>f. in_dispute ps mb l d f)"
    using jget_three_way(2) [OF tw] by (cases ds) auto
  have d: "content_eq ps (unwrap_or [] (desired (recompute ps True r1))) m"
    using desired_recompute [OF r1(1,2), of ps True] by auto
  have "sync_state (recompute ps True r1) = Synced \<longleftrightarrow> content_eq ps m d"
    if "\<not> in_conflict r1" "sent_gen r = None"
    using that r1 by (auto simp: recompute_state is_dirty_def recompute_local collapsed_def
        split: if_splits)
  with that [OF merge_item_local [OF assms tw, of v, folded r1_def]] r1 ds d
    jget_three_way(1) [OF tw]
  show ?thesis by auto
qed

lemma jget_fold_jinsert_absent:
  "jget m f = None \<Longrightarrow> jget (fold (\<lambda>(f, v) m. jinsert f v m) m l) f = jget l f"
proof -
  assume "jget m f = None"
  then have "map_of (rev m) f = None" by (simp add: jget_def map_of_eq_None_iff)
  then show ?thesis by (simp add: obj.lookup_fold_insert map_add_def)
qed

text \<open>The merge of a row in conflict: what the user wants after it.\<close>

lemma remerge_local:
  assumes "local_json r = Some l"
  obtains out m ds where "three_way ps (fold jremove out b) (fold jremove out l) (fold jremove out d) = (m, ds)"
    and "local_json (remerge_conflict ps b d r) = Some (fold (\<lambda>(f, v) m. jinsert f v m) m l)"
    and "set out \<subseteq> set (conflict_fields r) \<union> (if is_trashed d \<and> \<not> is_trashed b \<and> \<not> is_trashed l then {deleted_field} else {})"
proof -
  define r1 where "r1 = (if existence_reason r = Some Trashed \<and> \<not> is_trashed d
    then remove_conflict existence r else r)"
  define nt where "nt \<longleftrightarrow> is_trashed d \<and> \<not> is_trashed b \<and> \<not> is_trashed l"
  define r2 where "r2 = (if nt \<and> existence_reason r1 = None
    then add_existence_conflict Trashed r1 else r1)"
  define before where "before = filter (\<lambda>f. f \<noteq> existence) (conflict_fields r2)"
  define out where "out = before @ (if nt then [deleted_field] else [])"
  have r1: "local_json r1 = Some l" using assms by (simp add: r1_def)
  have "set (conflict_fields r2) \<subseteq> insert existence (set (conflict_fields r))"
    by (auto simp: r2_def r1_def add_existence_conflict_fields remove_conflict_def)
  then have out: "set out \<subseteq> set (conflict_fields r) \<union> (if nt then {deleted_field} else {})"
    by (auto simp: out_def before_def)
  obtain m ds where tw: "three_way ps (fold jremove out b) (fold jremove out l)
      (fold jremove out d) = (m, ds)" by fastforce
  have "local_json (remerge_conflict ps b d r) = Some (fold (\<lambda>(f, v) m. jinsert f v m) m l)"
    unfolding remerge_conflict_def Let_def r1_def [symmetric] r1 option.case nt_def [symmetric]
      r2_def [symmetric] before_def [symmetric] out_def [symmetric] tw
    by simp
  with that tw out show thesis unfolding nt_def by blast
qed

lemma ordered_three_way:
  assumes "ordered l" and "three_way ps b l v = (m, ds)"
  shows "ordered m"
proof -
  have "ordered (fst (three_way_field ps b v f x))" if "ordered (fst x)" for f x
    using that by (cases x) (auto simp: three_way_field_def Let_def ordered_jinsert ordered_jremove split: option.split)
  then have "ordered (fst (fold (three_way_field ps b v) fs x))" if "ordered (fst x)" for fs x
    using that by (induction fs arbitrary: x) simp_all
  from this [of "(l, [])" "merge_fields b l v"] assms show ?thesis by (simp add: three_way_def)
qed

lemma ordered_fold_jremove: "ordered m \<Longrightarrow> ordered (fold jremove ks m)"
  by (induction ks arbitrary: m) (simp_all add: ordered_jremove)

lemma remerge_keeps_change:
  assumes l: "local_json r = Some l" and order: "ordered l" and content: "\<not> is_server_field f"
    and changed: "\<not> field_eq ps f (jget l f) (jget b f)"
  shows "\<exists>l'. local_json (remerge_conflict ps b d r) = Some l' \<and> jget l' f = jget l f"
proof -
  obtain out m ds where tw: "three_way ps (fold jremove out b) (fold jremove out l) (fold jremove out d) = (m, ds)"
      and l': "local_json (remerge_conflict ps b d r) = Some (fold (\<lambda>(f, v) m. jinsert f v m) m l)"
    using l by (rule remerge_local)
  have "ordered m" using order tw by (rule ordered_three_way [OF ordered_fold_jremove])
  then have keys: "distinct (map fst m)" by (rule ordered_distinct)
  have "jget m f = None \<or> jget m f = jget l f"
    using content changed by (auto simp: jget_three_way(1) [OF tw] merged_value_def obj.lookup_fold_remove)
  then have "jget (fold (\<lambda>(f, v) m. jinsert f v m) m l) f = jget l f"
    using obj.lookup_fold_insert_distinct [OF keys, of l f] by (auto simp: jget_def [symmetric] split: option.splits)
  with l' show ?thesis by blast
qed

section \<open>Edits survive\<close>

text \<open>
  C21: a pull never loses a local edit. Whatever a pull says of a row with an unsent edit, a newer
  version, a move to the trash or a permanent deletion, and whether the row is clean of conflicts
  or waits for the user's decision on some, the row is kept, is not deleted, and every content
  field the user changed from the base keeps the user's value in what the row wants.
\<close>

theorem local_change_survives_pull:
  assumes "\<not> local_deleted r" "local_json r = Some l" "ordered l"
    and merge: "merge_remote ps r change = Inr (r', a)"
    and content: "\<not> is_server_field f"
    and changed: "\<not> field_eq ps f (jget l f) (jget (unwrap_or [] (base_json r)) f)"
  shows "a = Save \<and> \<not> local_deleted r' \<and>
    field_eq ps f (jget (unwrap_or [] (desired r')) f) (jget l f)"
proof -
  let ?b = "unwrap_or [] (base_json r)"
  consider "r' = r" "a = Save" | "merge_with_base ps r change ?b = (r', a)"
    using merge by (auto simp: merge_remote_def split: if_splits)
  then show ?thesis
  proof cases
    case 1
    with assms show ?thesis by (simp add: desired_def)
  next
    case 2
    show ?thesis
    proof (cases change)
      case PermanentlyDeleted
      with 2 assms(1,2) show ?thesis by (auto simp: merge_with_base_def desired_def split: if_splits)
    next
      case (Item v d)
      show ?thesis
      proof (cases "in_conflict r")
        case True
        obtain l' where l': "local_json (remerge_conflict ps ?b d r) = Some l'" "jget l' f = jget l f"
          using remerge_keeps_change [OF assms(2,3) content changed] by blast
        define r1 where "r1 = set_base v d (remerge_conflict ps ?b d r)"
        have r1: "\<not> local_deleted r1" "local_json r1 = Some l'" using l'(1) assms(1) by (simp_all add: r1_def)
        have "r' = (if in_conflict r1 then r1 else recompute ps True r1)" "a = Save"
          using 2 Item True by (auto simp: merge_with_base_def Let_def r1_def split: if_splits)
        moreover have "desired r1 = Some l'" using r1(2) by (simp add: desired_def)
        moreover obtain w where w: "desired (recompute ps True r1) = Some w" "content_eq ps w l'"
          using desired_recompute [OF r1] by blast
        moreover have "field_eq ps f (jget w f) (jget l f)" using content_eqD [OF w(2) content] l'(2) by simp
        ultimately show ?thesis using l'(2) r1(1) by auto
      next
        case clean: False
        show ?thesis
        proof (cases "is_trashed d \<and> \<not> is_trashed ?b \<and> \<not> is_trashed l")
          case True
          with 2 Item clean assms show ?thesis
            by (auto simp: merge_with_base_def Let_def desired_def)
        next
          case False
          from merge_item_desired [OF clean assms(1,2) False, of ps v] obtain r1 m where
            r1: "merge_with_base ps r (Item v d) ?b = (r1, Save)"
              "content_eq ps (unwrap_or [] (desired r1)) m" "jget m f = merged_value ps ?b l d f"
              "local_deleted r1 = False"
            by metis
          with 2 Item content_eqD [OF r1(2) content] content changed show ?thesis
            by (auto simp: merged_value_def split: if_splits)
        qed
      qed
    qed
  qed
qed

text \<open>A row in dispute over its comment meets a third comment, and its color changes too.\<close>

definition pulled_again :: annotation_row where
  "pulled_again = (case merge_remote no_parse disputed_row (Item 7 (color_comment ''blue'' ''Y'')) of
     Inr (r, _) \<Rightarrow> r | Inl _ \<Rightarrow> disputed_row)"

lemma local_change_survives_pull_witness:
  "Save = Save \<and> \<not> local_deleted pulled_again \<and>
    field_eq no_parse (tx ''annotationComment'')
      (jget (unwrap_or [] (desired pulled_again)) (tx ''annotationComment''))
      (jget (color_comment ''red'' ''B'') (tx ''annotationComment''))"
  by (rule local_change_survives_pull [of disputed_row _ _ "Item 7 (color_comment ''blue'' ''Y'')"]; code_simp)

text \<open>
  Edits to different fields merge without a question to the user. When no content field
  was changed differently on both sides and Zotero did not move the annotation to its trash,
  the merge of a newer version leaves no conflict, the base is Zotero's object, every content
  field wanted is the changed one of the two sides, and the row is synced exactly when
  nothing is left to send.
\<close>

theorem merge_of_disjoint_edits:
  assumes "\<not> in_conflict r" "\<not> local_deleted r" "local_json r = Some l" "base_json r = Some b"
    and idle: "sent_gen r = None" "\<not> sent_uncertain r" "base_version r = Some n" "n < v"
    and trash: "\<not> (is_trashed d \<and> \<not> is_trashed b \<and> \<not> is_trashed l)"
    and disjoint: "\<And>f. \<not> is_server_field f \<Longrightarrow> field_eq ps f (jget l f) (jget b f) \<or>
      field_eq ps f (jget d f) (jget b f) \<or> field_eq ps f (jget l f) (jget d f)"
  shows "\<exists>r'. merge_remote ps r (Item v d) = Inr (r', Save) \<and> \<not> in_conflict r' \<and>
    base_json r' = Some d \<and> base_version r' = Some v \<and>
    (\<forall>f. \<not> is_server_field f \<longrightarrow>
       field_eq ps f (jget (unwrap_or [] (desired r')) f)
         (if field_eq ps f (jget l f) (jget b f) then jget d f else jget l f)) \<and>
    (sync_state r' = Synced \<longleftrightarrow> content_eq ps (unwrap_or [] (desired r')) d)"
proof -
  from merge_item_desired [OF assms(1-3) trash, of ps v] obtain r' m where
    r': "merge_with_base ps r (Item v d) b = (r', Save)" "base_json r' = Some d"
      "base_version r' = Some v" "in_conflict r' \<longleftrightarrow> (\<exists>f. in_dispute ps b l d f)"
      "content_eq ps (unwrap_or [] (desired r')) m" "\<And>f. jget m f = merged_value ps b l d f"
      "\<not> in_conflict r' \<Longrightarrow> sync_state r' = Synced \<longleftrightarrow> content_eq ps m d"
    using idle(1) by metis
  have nc: "\<not> in_conflict r'"
    using r'(4) disjoint by (auto simp: in_dispute_def)
  have fields: "field_eq ps f (jget (unwrap_or [] (desired r')) f)
      (if field_eq ps f (jget l f) (jget b f) then jget d f else jget l f)"
    if "\<not> is_server_field f" for f
    using content_eqD [OF r'(5) that] that r'(6) [of f] disjoint [OF that]
    by (auto simp: merged_value_def intro: field_eq_trans field_eq_sym split: if_splits)
  have "content_eq ps m d \<longleftrightarrow> content_eq ps (unwrap_or [] (desired r')) d"
    using r'(5) by (blast intro: content_eq_trans content_eq_sym)
  with r' nc fields idle assms(4) show ?thesis
    by (auto simp: merge_remote_def)
qed

lemma merge_of_disjoint_edits_witness:
  "\<exists>r'. merge_remote no_parse edited_row (Item 6 (color_comment ''blue'' ''A'')) = Inr (r', Save) \<and>
    \<not> in_conflict r' \<and> base_json r' = Some (color_comment ''blue'' ''A'') \<and>
    jget (unwrap_or [] (desired r')) (tx ''annotationColor'') = Some (JString (tx ''blue'')) \<and>
    jget (unwrap_or [] (desired r')) (tx ''annotationComment'') = Some (JString (tx ''B''))"
proof -
  let ?l = "color_comment ''red'' ''B''" and ?b = "color_comment ''red'' ''A''"
    and ?d = "color_comment ''blue'' ''A''"
  have disjoint: "field_eq no_parse f (jget ?l f) (jget ?b f) \<or>
      field_eq no_parse f (jget ?d f) (jget ?b f) \<or> field_eq no_parse f (jget ?l f) (jget ?d f)" for f
    by (simp add: color_comment_def jget_def field_eq_def)
  have facts: "\<not> in_conflict edited_row" "\<not> local_deleted edited_row"
    "local_json edited_row = Some ?l" "base_json edited_row = Some ?b"
    "sent_gen edited_row = None" "\<not> sent_uncertain edited_row" "base_version edited_row = Some 5"
    "(5::int) < 6" "\<not> (is_trashed ?d \<and> \<not> is_trashed ?b \<and> \<not> is_trashed ?l)"
    by code_simp+
  obtain r' where r': "merge_remote no_parse edited_row (Item 6 ?d) = Inr (r', Save)"
    "\<not> in_conflict r'" "base_json r' = Some ?d"
    and each: "\<forall>f. \<not> is_server_field f \<longrightarrow>
       field_eq no_parse f (jget (unwrap_or [] (desired r')) f)
         (if field_eq no_parse f (jget ?l f) (jget ?b f) then jget ?d f else jget ?l f)"
    using merge_of_disjoint_edits [OF facts disjoint] by blast
  have "\<not> is_server_field (tx ''annotationColor'')" "\<not> is_server_field (tx ''annotationComment'')"
    by code_simp+
  with r' each [rule_format, of "tx ''annotationColor''"]
    each [rule_format, of "tx ''annotationComment''"] show ?thesis
    by (intro exI [of _ r']) (simp add: field_eq_def position_field_def color_comment_def jget_def)
qed

section \<open>Sending and acknowledging\<close>

lemma next_request_update:
  assumes "next_request ps r = (r', Some (Update k n flds))"
  obtains l where "r' = r" "k = annotation_key r" "base_version r = Some n" "\<not> local_deleted r"
    "local_json r = Some l" "flds = patch_body ps (unwrap_or [] (base_json r)) l" "flds \<noteq> []"
    "sync_state r = Pending" "sent_gen r = None"
  using assms by (auto simp: next_request_def Let_def split: if_splits option.splits bool.splits)

text \<open>The object the server holds after a PATCH of the differing fields.\<close>

lemma jget_patched:
  "jget (apply_patch b (patch_body ps b l)) f =
     (if \<not> is_server_field f \<and> \<not> field_eq ps f (jget b f) (jget l f)
      then Some (unwrap_or (JString []) (jget l f)) else jget b f)"
  by (simp add: jget_apply_patch [OF ordered_patch_body] jget_patch_body mem_differing)

text \<open>
  C22: an acknowledged PATCH makes the row and the server agree on what the user wanted. The
  row is synced with the version the server returned, and in the new base every content
  field the user wanted has its value, a field the user removed is the empty string, and the
  fields of the base the user kept are as they were.
\<close>

theorem acknowledged_update_holds_the_edit:
  assumes inv: "row_inv ps r"
    and req: "next_request ps r = (r', Some (Update k n flds))"
    and ack: "apply_outcome ps fresh (begin_send r' (Update k n flds)) (Applied v) = (r2, nx)"
    and b: "base_json r = Some b" and l: "local_json r = Some l"
  shows "nx = Done Save \<and> sync_state r2 = Synced \<and> \<not> is_dirty r2 \<and> sent_gen r2 = None \<and>
    base_version r2 = Some v \<and>
    (\<forall>f. \<not> is_server_field f \<longrightarrow>
       field_eq ps f (jget (unwrap_or [] (desired r2)) f)
         (case jget l f of Some x \<Rightarrow> Some x
          | None \<Rightarrow> if jget b f = None then None else Some (JString [])))"
proof -
  have r: "r' = r" "flds = patch_body ps b l"
    using next_request_update [OF req] b l by auto
  define nb where "nb = jinsert (tx ''key'') (JString (annotation_key r))
    (jinsert (tx ''version'') (json_of_int v) (apply_patch b flds))"
  have r2: "r2 = (clear_sent (set_base v nb (begin_send r (Update k n flds))))
      \<lparr>local_json := None, local_deleted := False, sync_state := Synced, last_error := None\<rparr>"
    "nx = Done Save"
    using ack b r by (auto simp: apply_outcome_def acknowledge_def Let_def nb_def
        applied_everything_def apsnd_def map_prod_def)
  have server: "is_server_field (tx ''version'')"
    by (simp add: is_server_field_def server_fields_def)
  have "jget nb f = jget (apply_patch b (patch_body ps b l)) f" if "\<not> is_server_field f" for f
    using that server by (auto simp: nb_def jget_jinsert_iff r(2))
  then have "field_eq ps f (jget nb f) (case jget l f of Some x \<Rightarrow> Some x
          | None \<Rightarrow> if jget b f = None then None else Some (JString []))"
    if "\<not> is_server_field f" for f
    using that by (cases "jget l f") (auto simp: jget_patched dest: field_eq_NoneD)
  then show ?thesis
    by (simp add: r2 is_dirty_def desired_def)
qed

lemma acknowledged_update_holds_the_edit_witness:
  "\<exists>r2 nx. apply_outcome no_parse [] flying_row (Applied 6) = (r2, nx) \<and> nx = Done Save \<and>
    sync_state r2 = Synced \<and> base_version r2 = Some 6 \<and>
    jget (unwrap_or [] (desired r2)) (tx ''annotationComment'') = Some (JString (tx ''B''))"
proof -
  obtain r2 nx where ack: "apply_outcome no_parse []
      (begin_send edited_row (Update (tx ''ABCD2345'') 5 (comment_only ''B''))) (Applied 6) = (r2, nx)"
    by fastforce
  have req: "next_request no_parse edited_row =
      (edited_row, Some (Update (tx ''ABCD2345'') 5 (comment_only ''B'')))"
    by code_simp
  have facts: "base_json edited_row = Some (color_comment ''red'' ''A'')"
    "local_json edited_row = Some (color_comment ''red'' ''B'')"
    "\<not> is_server_field (tx ''annotationComment'')"
    by code_simp+
  from acknowledged_update_holds_the_edit [OF edited_row_inv req ack facts(1,2)] facts(3) ack
  show ?thesis
    by (auto simp: flying_row_def edit_request_def field_eq_def position_field_def
        color_comment_def jget_def)
qed

text \<open>
  C10: an edit made while a request is out is never lost. Whatever the request was, when the
  answer arrives after the edit, the row wants the content of the edit, and it is synced only
  if the server already holds that content.
\<close>

theorem edit_during_request_survives:
  assumes inv: "row_inv ps r" and flight: "sent_gen r = Some g"
    and edit: "local_edit ps r wanted = (r1, a)"
    and ack: "apply_outcome ps fresh r1 (Applied v) = (r2, nx)"
  shows "nx = Done Save \<and> sent_gen r2 = None \<and> base_version r2 = Some v \<and>
    content_eq ps (unwrap_or [] (desired r2)) wanted \<and>
    (sync_state r2 = Synced \<and> content_eq ps (unwrap_or [] (base_json r2)) wanted \<or>
     sync_state r2 = Pending \<and> \<not> content_eq ps (unwrap_or [] (base_json r2)) wanted \<and>
       local_json r2 = Some wanted)"
proof -
  note f = row_inv_sent_pending [OF inv flight]
  have r1: "r1 = r\<lparr>edit_gen := edit_gen r + 1, local_deleted := False, local_json := Some wanted,
      sync_state := Pending\<rparr>"
    using edit f flight
    by (auto simp: local_edit_def Let_def in_conflict_def is_dirty_def
        recompute_in_flight [of "r\<lparr>edit_gen := _, local_deleted := _, local_json := _\<rparr>"])
  have newer: "\<not> applied_everything r1"
    using r1 f(5) flight by (simp add: applied_everything_def)
  obtain nb where r2: "r2 = recompute ps False (clear_sent (set_base v nb r1))" "nx = Done Save"
    using ack newer
    by (auto simp: apply_outcome_def acknowledge_def Let_def apsnd_def map_prod_def)
  define r3 where "r3 = clear_sent (set_base v nb r1)"
  have r3: "\<not> local_deleted r3" "local_json r3 = Some wanted" "base_json r3 = Some nb"
      "base_version r3 = Some v" "\<not> in_conflict r3" "sent_gen r3 = None"
    using f(2) by (simp_all add: r3_def r1 in_conflict_def)
  have "content_eq ps (unwrap_or [] (desired (recompute ps False r3))) wanted"
    using desired_recompute [OF r3(1,2), of ps False] by auto
  moreover have "sync_state (recompute ps False r3) =
      (if content_eq ps wanted nb then Synced else Pending)"
    using r3 by (simp add: recompute_state is_dirty_def recompute_local collapsed_def)
  ultimately show ?thesis
    using r2 r3 by (auto simp: r3_def [symmetric] recompute_local collapsed_def
        dest: content_eq_sym)
qed

lemma edit_during_request_survives_witness:
  "\<exists>r2 nx. apply_outcome no_parse [] reedited_row (Applied 6) = (r2, nx) \<and> nx = Done Save \<and>
    base_version r2 = Some 6 \<and>
    content_eq no_parse (unwrap_or [] (desired r2)) (color_comment ''red'' ''C'')"
proof -
  obtain r2 nx where ack: "apply_outcome no_parse [] reedited_row (Applied 6) = (r2, nx)"
    by fastforce
  have g: "sent_gen flying_row = Some 1" by code_simp
  have e: "local_edit no_parse flying_row (color_comment ''red'' ''C'') = (reedited_row, Save)"
    by code_simp
  from edit_during_request_survives [OF flying_row_inv g e ack] ack show ?thesis by blast
qed

section \<open>Lost answers\<close>

lemma jget_corrected_base:
  assumes "distinct (map fst flds)"
  shows "jget (corrected_base ps b flds server) f =
    (case map_of flds f of
       Some x \<Rightarrow> if field_eq ps f (jget server f) (Some x) then Some x else jget b f
     | None \<Rightarrow> jget b f)"
  using assms unfolding corrected_base_def
proof (induction flds arbitrary: b)
  case Nil
  then show ?case by simp
next
  case (Cons p flds)
  obtain g x where p: "p = (g, x)" by (cases p)
  with Cons.prems have "map_of flds g = None" by (simp add: map_of_eq_None_iff)
  with Cons p show ?case by (auto simp: jget_jinsert_iff split: option.splits)
qed

lemma map_of_jget: "map_of m f = jget m f"
  by (simp add: jget_def)

text \<open>A base corrected by a server object that holds the whole PATCH has its content.\<close>

lemma corrected_base_content:
  assumes flds: "flds = patch_body ps b l"
    and landed: "content_eq ps server (apply_patch b flds)"
  shows "content_eq ps (corrected_base ps b flds server) server"
proof -
  have ord: "ordered flds" by (simp add: flds ordered_patch_body)
  have "field_eq ps f (jget (corrected_base ps b flds server) f) (jget server f)"
    if f: "\<not> is_server_field f" for f
    using content_eqD [OF landed f]
    by (auto simp: jget_corrected_base [OF ordered_distinct [OF ord]] map_of_jget
        jget_apply_patch [OF ord] intro: field_eq_sym split: option.splits)
  then show ?thesis by (simp add: content_eq_iff)
qed

text \<open>
  A PATCH whose answer was lost is recognised. When the server turns out to hold what the
  PATCH asked for, the reconciliation takes the server's object as the base and ends without
  a conflict; the row still wants what the user wants now, edits made since included, and is
  synced exactly when the server already holds that.
\<close>

theorem lost_update_answer_reconciled:
  assumes inv: "row_inv ps r" and snt: "sent_json r = Some (SentUpdate flds)"
    and b: "base_json r = Some b" and flds: "flds = patch_body ps b l0"
    and landed: "content_eq ps server (apply_patch b flds)" and newer: "base_version r \<noteq> Some v"
    and wanted: "local_json r = Some l"
  shows "\<exists>r'. reconcile ps fresh r (Found v server) = (r', Save) \<and> \<not> in_conflict r' \<and>
    sent_gen r' = None \<and> base_version r' = Some v \<and> base_json r' = Some server \<and>
    content_eq ps (unwrap_or [] (desired r')) l \<and>
    (sync_state r' = Synced \<longleftrightarrow> content_eq ps l server)"
proof -
  let ?c = "corrected_base ps b flds server"
  have c: "content_eq ps ?c server" using flds landed by (rule corrected_base_content)
  obtain g where g: "sent_gen r = Some g"
    using inv snt by (cases rule: sent_gen_cases) auto
  have nc: "\<not> in_conflict (clear_sent r)" using row_inv_sent_pending [OF inv g] by simp
  have nd: "\<not> local_deleted (clear_sent r)"
    using inv wanted by (auto simp: row_inv_def row_core_def)
  have trash: "\<not> (is_trashed server \<and> \<not> is_trashed ?c \<and> \<not> is_trashed l)"
    using content_eq_trashed [OF c] by simp
  have l: "local_json (clear_sent r) = Some l" using wanted by simp
  obtain r' m where
    r': "merge_with_base ps (clear_sent r) (Item v server) ?c = (r', Save)"
      "base_json r' = Some server" "base_version r' = Some v"
      "in_conflict r' \<longleftrightarrow> (\<exists>f. in_dispute ps ?c l server f)"
      "content_eq ps (unwrap_or [] (desired r')) m" "\<And>f. jget m f = merged_value ps ?c l server f"
      "local_deleted r' = False" "sent_gen r' = sent_gen (clear_sent r)"
      "\<not> in_conflict r' \<Longrightarrow> sent_gen (clear_sent r) = None \<Longrightarrow>
        sync_state r' = Synced \<longleftrightarrow> content_eq ps m server"
    by (rule merge_item_desired [OF nc nd l trash, of ps v]) (rule that; assumption)
  have nd: "\<not> in_conflict r'"
    using r'(4) content_eqD [OF c] by (auto simp: in_dispute_def dest: field_eq_sym)
  have "field_eq ps f (jget m f) (jget l f)" if f: "\<not> is_server_field f" for f
    using r'(6) [of f] content_eqD [OF c f] f
    by (auto simp: merged_value_def intro: field_eq_trans field_eq_sym)
  then have ml: "content_eq ps m l" by (simp add: content_eq_iff)
  have "reconcile ps fresh r (Found v server) = (r', Save)"
    using r'(1) snt b newer by (auto simp: reconcile_def Let_def)
  moreover have "content_eq ps (unwrap_or [] (desired r')) l"
    using r'(5) ml by (rule content_eq_trans)
  moreover have "content_eq ps m server \<longleftrightarrow> content_eq ps l server"
    using ml by (blast intro: content_eq_trans content_eq_sym)
  ultimately show ?thesis using r' nd by auto
qed

lemma lost_update_answer_reconciled_witness:
  "\<exists>r'. reconcile no_parse [] uncertain_row (Found 6 (color_comment ''red'' ''B'')) = (r', Save) \<and>
    \<not> in_conflict r' \<and> sent_gen r' = None \<and> base_version r' = Some 6 \<and>
    base_json r' = Some (color_comment ''red'' ''B'') \<and>
    content_eq no_parse (unwrap_or [] (desired r')) (color_comment ''red'' ''C'') \<and>
    (sync_state r' = Synced \<longleftrightarrow>
      content_eq no_parse (color_comment ''red'' ''C'') (color_comment ''red'' ''B''))"
  by (rule lost_update_answer_reconciled [OF uncertain_row_inv, of "comment_only ''B''"
        "color_comment ''red'' ''A''" "color_comment ''red'' ''B''"]; code_simp)

text \<open>
  A create whose answer was lost does not create the annotation twice and asks nothing.
  When the server holds the content that was sent, the row takes the server's object as its
  base; without a later edit it is synced, and with one it still wants the edit.
\<close>

theorem lost_create_answer_reconciled:
  assumes inv: "row_inv ps r" and snt: "sent_json r = Some (SentCreate body)"
    and landed: "content_eq ps body server" and wanted: "local_json r = Some l"
    and same: "sent_gen r = Some (edit_gen r) \<longrightarrow> content_eq ps l body"
  shows "\<exists>r'. reconcile ps fresh r (Found v server) = (r', Save) \<and> \<not> in_conflict r' \<and>
    sent_gen r' = None \<and> base_version r' = Some v \<and> base_json r' = Some server \<and>
    content_eq ps (unwrap_or [] (desired r')) l \<and>
    (sync_state r' = Synced \<longleftrightarrow> content_eq ps l server)"
proof -
  obtain g where g: "sent_gen r = Some g"
    using inv snt by (cases rule: sent_gen_cases) auto
  have nd: "\<not> local_deleted r" using inv wanted by (auto simp: row_inv_def row_core_def)
  have nc: "\<not> in_conflict r" using row_inv_sent_pending [OF inv g] by simp
  define r1 where "r1 = set_base v server (clear_sent r)"
  have r1: "\<not> local_deleted r1" "local_json r1 = Some l" "base_json r1 = Some server"
    "base_version r1 = Some v" "\<not> in_conflict r1" "sent_gen r1 = None"
    using nd nc wanted by (simp_all add: r1_def)
  define r2 where "r2 = (if applied_everything r then r1\<lparr>local_json := None\<rparr> else r1)"
  have rec: "reconcile ps fresh r (Found v server) = (recompute ps False r2, Save)"
    using snt landed nd
    by (auto simp: reconcile_def create_exists_def Let_def r1_def r2_def)
  have "content_eq ps l server" if "applied_everything r"
    using same that landed by (auto simp: applied_everything_def intro: content_eq_trans)
  then have cl: "collapsed ps r2 = (if content_eq ps l server then None else Some l)"
    using r1 by (simp add: r2_def collapsed_def)
  have r2: "\<not> local_deleted r2" "base_json r2 = Some server" "base_version r2 = Some v"
    "\<not> in_conflict r2" "sent_gen r2 = None"
    using r1 by (simp_all add: r2_def in_conflict_def)
  have "content_eq ps (unwrap_or [] (desired (recompute ps False r2))) l"
    using r2 cl by (simp add: desired_def recompute_local content_eq_sym)
  moreover have "sync_state (recompute ps False r2) = Synced \<longleftrightarrow> content_eq ps l server"
    using r2 cl by (simp add: recompute_state is_dirty_def recompute_local)
  ultimately show ?thesis
    using rec r2 by simp
qed

lemma lost_create_answer_reconciled_witness:
  "\<exists>r'. reconcile no_parse [] creating_row (Found 7 new_body) = (r', Save) \<and>
    \<not> in_conflict r' \<and> sent_gen r' = None \<and> base_version r' = Some 7 \<and>
    base_json r' = Some new_body \<and> content_eq no_parse (unwrap_or [] (desired r')) new_body \<and>
    (sync_state r' = Synced \<longleftrightarrow> content_eq no_parse new_body new_body)"
proof (rule lost_create_answer_reconciled [OF creating_row_inv])
  show "sent_json creating_row = Some (SentCreate (create_body (tx ''NEWK2345'') new_body))"
    by code_simp
qed code_simp+

section \<open>Resolving a conflict\<close>

lemma take_remote_some:
  assumes "g \<noteq> existence"
  shows "\<exists>l1. take_remote rv (g, x) (Some l) = Some l1 \<and>
    (\<forall>f. jget l1 f = (if f = g \<and> x = Zotero
       then (case jget rv f of Some JNull \<Rightarrow> None | v \<Rightarrow> v) else jget l f))"
proof (cases "x = Zotero")
  case False
  then show ?thesis by (simp add: take_remote_def)
next
  case True
  show ?thesis
  proof (cases "jget rv g")
    case None
    with True assms show ?thesis by (simp add: take_remote_def jget_jremove_iff)
  next
    case (Some y)
    with True assms show ?thesis
      by (cases y) (simp_all add: take_remote_def jget_jremove_iff jget_jinsert_iff)
  qed
qed

lemma take_remote_fold:
  assumes "distinct (map fst ds)" "existence \<notin> set (map fst ds)"
  shows "\<exists>l'. fold (take_remote rv) ds (Some l) = Some l' \<and>
    (\<forall>f. jget l' f = (if map_of ds f = Some Zotero
       then (case jget rv f of Some JNull \<Rightarrow> None | v \<Rightarrow> v) else jget l f))"
  using assms
proof (induction ds arbitrary: l)
  case Nil
  then show ?case by simp
next
  case (Cons p ds)
  obtain g x where p: "p = (g, x)" by (cases p)
  with Cons.prems have g: "map_of ds g = None" "g \<noteq> existence"
    by (auto simp: map_of_eq_None_iff)
  obtain l1 where l1: "take_remote rv p (Some l) = Some l1"
    "\<And>f. jget l1 f = (if f = g \<and> x = Zotero
       then (case jget rv f of Some JNull \<Rightarrow> None | v \<Rightarrow> v) else jget l f)"
    using take_remote_some [OF g(2), of rv x l] p by blast
  from Cons.IH [of l1] Cons.prems p obtain l' where
    "fold (take_remote rv) ds (Some l1) = Some l'"
    "\<And>f. jget l' f = (if map_of ds f = Some Zotero
       then (case jget rv f of Some JNull \<Rightarrow> None | v \<Rightarrow> v) else jget l1 f)"
    by auto
  with l1 p g show ?case by (intro exI [of _ l']) auto
qed

text \<open>
  Deciding every field ends the conflict as decided. With one decision per field in
  conflict (and no existence conflict), \<open>resolve\<close> succeeds and leaves the conflict; a field
  decided for Zotero has the remote value the conflict recorded (removed when Zotero removed
  it) and every other content field keeps the local value.
\<close>

theorem resolve_applies_decisions:
  assumes inv: "row_inv ps r" and conf: "in_conflict r" and l: "local_json r = Some l"
    and covers: "set (map fst ds) = set (conflict_fields r)" and dist: "distinct (map fst ds)"
    and noex: "existence \<notin> set (conflict_fields r)"
    and content: "\<not> is_server_field f"
  shows "\<exists>r'. resolve ps fresh r ds = Inr (r', Save) \<and> \<not> in_conflict r' \<and>
    edit_gen r' = edit_gen r + 1 \<and> (sync_state r' = Synced \<or> sync_state r' = Pending) \<and>
    field_eq ps f (jget (unwrap_or [] (desired r')) f)
      (if map_of ds f = Some Zotero
       then (case jget (unwrap_or [] (conflict_json r)) f of Some JNull \<Rightarrow> None | v \<Rightarrow> v)
       else jget l f)"
proof -
  let ?rv = "unwrap_or [] (conflict_json r)"
  have dec: "List.find (\<lambda>f. map_of ds f = None) (conflict_fields r) = None"
    "List.find (\<lambda>f. f \<notin> set (conflict_fields r)) (map fst ds) = None"
    "map_of ds existence = None"
    using covers noex by (auto simp: find_None_iff map_of_eq_None_iff)
  obtain l' where l': "fold (take_remote ?rv) ds (Some l) = Some l'"
    "jget l' f = (if map_of ds f = Some Zotero
       then (case jget ?rv f of Some JNull \<Rightarrow> None | v \<Rightarrow> v) else jget l f)"
    using take_remote_fold [OF dist, of ?rv l] covers noex by blast
  define r2 where "r2 = clear_conflict (r\<lparr>local_json := Some l', edit_gen := edit_gen r + 1\<rparr>)"
  have res: "resolve ps fresh r ds = Inr (recompute ps False r2, Save)"
    using conf dec l l' by (simp add: resolve_def resolve_fields_def Let_def r2_def)
  have nd: "\<not> local_deleted r2" using inv l by (auto simp: r2_def row_inv_def row_core_def)
  have l2: "local_json r2 = Some l'" by (simp add: r2_def)
  from desired_recompute [OF nd l2, of ps False] obtain d where
    d: "desired (recompute ps False r2) = Some d" "content_eq ps d l'" by blast
  have "\<not> in_conflict r2" by (simp add: r2_def)
  with res d l'(2) content_eqD [OF d(2) content] show ?thesis
    by (auto simp: recompute_state r2_def)
qed

lemma resolve_applies_decisions_witness:
  "\<exists>r'. resolve no_parse [] disputed_row [(tx ''annotationComment'', Zotero)] = Inr (r', Save) \<and>
    \<not> in_conflict r' \<and> edit_gen r' = edit_gen disputed_row + 1 \<and>
    (sync_state r' = Synced \<or> sync_state r' = Pending) \<and>
    field_eq no_parse (tx ''annotationComment'')
      (jget (unwrap_or [] (desired r')) (tx ''annotationComment''))
      (if map_of [(tx ''annotationComment'', Zotero)] (tx ''annotationComment'') = Some Zotero
       then (case jget (unwrap_or [] (conflict_json disputed_row)) (tx ''annotationComment'') of
           Some JNull \<Rightarrow> None | v \<Rightarrow> v)
       else jget (color_comment ''red'' ''B'') (tx ''annotationComment''))"
  by (rule resolve_applies_decisions [OF disputed_row_inv]; code_simp)

section \<open>Reachable rows\<close>

text \<open>
  C1: every row the machine can reach passes the check that guards each write, so the
  repository never refuses to store the result of a transition. A row with a request out is
  pending and outside any conflict, a row in conflict has nothing out, and the recorded
  remote values are those of exactly the fields in conflict.
\<close>

theorem reachable_row_passes_check:
  assumes "reachable_row ps r"
  shows "check_invariants ps r = Inr () \<and>
    (sent_gen r \<noteq> None \<longrightarrow> sync_state r = Pending \<and> \<not> in_conflict r) \<and>
    (in_conflict r \<longrightarrow> sync_state r = Conflict \<and> sent_gen r = None) \<and>
    set (jkeys (unwrap_or [] (conflict_json r))) = set (conflict_fields r)"
proof -
  have inv: "row_inv ps r" using assms by (rule reachable_row_inv)
  then show ?thesis
    using row_inv_conflict [OF inv] row_inv_sent_pending [OF inv]
    by (auto simp: row_inv_def row_core_def conflict_map_ok_def)
qed

lemma reachable_row_passes_check_witness:
  "check_invariants no_parse disputed_row = Inr () \<and> in_conflict disputed_row \<and>
    sync_state disputed_row = Conflict \<and>
    set (jkeys (unwrap_or [] (conflict_json disputed_row))) = set (conflict_fields disputed_row)"
proof -
  have "in_conflict disputed_row" by code_simp
  with reachable_row_passes_check [OF reachable_disputed_row] show ?thesis by blast
qed

section \<open>Two behaviours to know\<close>

text \<open>
  An annotation deleted while its create is out, when Zotero then refuses the create,
  stays in the table for good. The row keeps its delete pending without a base, so no request
  is ever built for it and nothing is outstanding that a later run would reconcile; the paths
  that drop such a row (a delete before anything was sent, a lost create that never arrived)
  are not taken.
\<close>

theorem refused_create_of_deleted_row_is_stuck:
  assumes inv: "row_inv ps r" and snt: "sent_json r = Some (SentCreate body)"
    and del: "local_delete ps r = Inr (r1, a)" and oc: "oc = Refused \<or> oc = Rejected m"
    and ans: "apply_outcome ps fresh r1 oc = (r2, nx)"
  shows "nx = Done Save \<and> sync_state r2 = Pending \<and> local_deleted r2 \<and> sent_gen r2 = None \<and>
    base_version r2 = None \<and> next_request ps r2 = (r2, None)"
proof -
  obtain g where g: "sent_gen r = Some g" and fits: "sent_fits ps r (SentCreate body)"
    using inv snt by (cases rule: sent_gen_cases) auto
  note f = row_inv_sent_pending [OF inv g]
  have base: "base_version r = None"
    using fits inv by (auto simp: sent_fits_def row_inv_def row_core_def)
  define r0 where "r0 = r\<lparr>edit_gen := edit_gen r + 1, local_json := None, local_deleted := True\<rparr>"
  have r0: "sent_gen r0 = Some g" "\<not> in_conflict r0" "conflict_json r0 = None" "is_dirty r0"
    using f g by (simp_all add: r0_def in_conflict_def is_dirty_def)
  have r1: "r1 = r0\<lparr>sync_state := Pending\<rparr>"
    using del f(2) g recompute_in_flight [of r0 ps] r0
    by (auto simp: local_delete_def delete_intent_def r0_def)
  have "r2 = recompute ps (oc = Refused) (clear_sent r1) \<and> nx = Done Save"
    using oc ans f(5) by (auto simp: apply_outcome_def Let_def r1 r0_def g)
  moreover have "sync_state (recompute ps kb (clear_sent r1)) = Pending" for kb
    using r0 by (simp add: recompute_state in_conflict_def is_dirty_def r1 r0_def)
  ultimately show ?thesis
    using base by (simp add: next_request_def r1 r0_def)
qed

lemma refused_create_of_deleted_row_is_stuck_witness:
  "\<exists>r2 nx. nx = Done Save \<and> sync_state r2 = Pending \<and> local_deleted r2 \<and> sent_gen r2 = None \<and>
    base_version r2 = None \<and> next_request no_parse r2 = (r2, None)"
proof (intro exI, rule refused_create_of_deleted_row_is_stuck [OF creating_row_inv])
  show "sent_json creating_row = Some (SentCreate (create_body (tx ''NEWK2345'') new_body))"
    by code_simp
  show "local_delete no_parse creating_row = Inr (deleted_creating_row, Save)"
    by code_simp
  show "Refused = Refused \<or> Refused = Rejected []" by simp
  show "apply_outcome no_parse [] deleted_creating_row Refused =
      (fst (apply_outcome no_parse [] deleted_creating_row Refused),
       snd (apply_outcome no_parse [] deleted_creating_row Refused))"
    by simp
qed

text \<open>
  While a row is in conflict, a field that only Zotero removed is not removed from what
  the user wants. The three-way merge drops the field from the working copy, but the copy is
  written back by insertion only, so the field keeps its old value in the local edit and the
  next PATCH restores it on the server; outside a conflict the same removal is merged.
\<close>

theorem remote_removal_ignored_in_conflict:
  assumes l: "local_json r = Some l" and f: "f \<notin> set (conflict_fields r)"
    and content: "\<not> is_server_field f"
    and kept: "field_eq ps f (jget l f) (jget b f)" and gone: "jget d f = None"
  shows "\<exists>l'. local_json (remerge_conflict ps b d r) = Some l' \<and> jget l' f = jget l f"
proof -
  obtain out m ds where tw: "three_way ps (fold jremove out b) (fold jremove out l) (fold jremove out d) = (m, ds)"
      and l': "local_json (remerge_conflict ps b d r) = Some (fold (\<lambda>(f, v) m. jinsert f v m) m l)"
      and out: "set out \<subseteq> set (conflict_fields r) \<union> (if is_trashed d \<and> \<not> is_trashed b \<and> \<not> is_trashed l then {deleted_field} else {})"
    using l by (rule remerge_local)
  have "f \<noteq> deleted_field" if "is_trashed d" using that gone by (auto simp: is_trashed_def)
  with out f have out: "f \<notin> set out" by (auto split: if_splits)
  note l'
  moreover have "jget m f = None"
    using content kept gone out
    by (cases "jget l f") (auto simp: jget_three_way(1) [OF tw] merged_value_def
        obj.lookup_fold_remove dest: field_eq_NoneD)
  ultimately show ?thesis by (simp add: jget_fold_jinsert_absent)
qed

lemma remote_removal_ignored_in_conflict_witness:
  "in_conflict disputed_row \<and>
   (\<exists>l'. local_json (remerge_conflict no_parse (color_comment ''red'' ''Z'') (comment_only ''Y'')
       disputed_row) = Some l' \<and>
     jget l' (tx ''annotationColor'') = jget (color_comment ''red'' ''B'') (tx ''annotationColor''))"
proof (intro conjI, code_simp)
qed (rule remote_removal_ignored_in_conflict; code_simp)

end
