(* ===== verification/AnnRepo.thy ===== *)
theory AnnRepo
  imports AnnSteps
begin

text \<open>
  The stored state of the annotation sync of one library and Web account
  (\<open>bibliography/annotations/repo.rs\<close>): the rows of \<open>zotero_annotation_items\<close> by annotation
  key, in key order as the queries return them, and the row of
  \<open>zotero_annotation_sync_state\<close>. A write checks the row's invariants first. The columns hold
  the values themselves: the JSON text of a column, the time stamps and the failures of the
  database are not modelled. \<open>SQLite\<close>'s \<open>INSERT ... ON CONFLICT DO UPDATE\<close> is the insertion
  of the ordered map, so the table has the interface \<open>object_map\<close>.
\<close>

record library_sync_state =
  web_library_version :: int
  paused_until :: "int option"
  pause_reason :: "str option"

record annotation_db =
  annotation_items :: "(str \<times> annotation_row) list"
  stored_sync_state :: "library_sync_state option"

section \<open>Operations\<close>

definition load :: "annotation_db \<Rightarrow> str \<Rightarrow> annotation_row option" where
  "load db key = jget (annotation_items db) key"

definition select_rows :: "(annotation_row \<Rightarrow> bool) \<Rightarrow> annotation_db \<Rightarrow> annotation_row list" where
  "select_rows p db = filter p (map snd (annotation_items db))"

definition by_parent :: "annotation_db \<Rightarrow> str \<Rightarrow> annotation_row list" where
  "by_parent db parent = select_rows (\<lambda>r. parent_key r = parent) db"

definition outstanding :: "annotation_db \<Rightarrow> annotation_row list" where
  "outstanding db = select_rows (\<lambda>r. sent_gen r \<noteq> None) db"

definition in_state :: "annotation_db \<Rightarrow> sync_status \<Rightarrow> annotation_row list" where
  "in_state db s = select_rows (\<lambda>r. sync_state r = s) db"

definition save_row ::
  "(str \<Rightarrow> json option) \<Rightarrow> annotation_row \<Rightarrow> annotation_db \<Rightarrow> invariant_error + annotation_db" where
  "save_row ps r db =
     (case check_invariants ps r of
        Inl e \<Rightarrow> Inl e
      | Inr _ \<Rightarrow> Inr (db\<lparr>annotation_items := jinsert (annotation_key r) r (annotation_items db)\<rparr>))"

definition remove_row :: "str \<Rightarrow> annotation_db \<Rightarrow> annotation_db" where
  "remove_row key db = db\<lparr>annotation_items := jremove key (annotation_items db)\<rparr>"

definition apply_action ::
  "(str \<Rightarrow> json option) \<Rightarrow> str \<Rightarrow> annotation_row \<Rightarrow> row_action \<Rightarrow> annotation_db \<Rightarrow>
     invariant_error + annotation_db" where
  "apply_action ps key_before r action db =
     (case action of
        Save \<Rightarrow> save_row ps r db
      | Remove \<Rightarrow> Inr (remove_row key_before db)
      | Rekeyed old_key \<Rightarrow> save_row ps r (remove_row old_key db))"

definition default_sync_state :: library_sync_state where
  "default_sync_state = \<lparr>web_library_version = 0, paused_until = None, pause_reason = None\<rparr>"

definition read_sync_state :: "annotation_db \<Rightarrow> library_sync_state" where
  "read_sync_state db = unwrap_or default_sync_state (stored_sync_state db)"

definition set_sync_state :: "library_sync_state \<Rightarrow> annotation_db \<Rightarrow> annotation_db" where
  "set_sync_state s db = db\<lparr>stored_sync_state := Some s\<rparr>"

section \<open>The invariant of the table\<close>

text \<open>Rows are stored under their own key, in order, and each satisfies the row invariant.\<close>

definition db_inv :: "(str \<Rightarrow> json option) \<Rightarrow> annotation_db \<Rightarrow> bool" where
  "db_inv ps db \<longleftrightarrow> ordered (annotation_items db) \<and>
     (\<forall>(k, r) \<in> set (annotation_items db). annotation_key r = k \<and> row_inv ps r)"

interpretation rows: object_map
  "\<lambda>db. load db" "\<lambda>k r db. db\<lparr>annotation_items := jinsert k r (annotation_items db)\<rparr>"
  remove_row "\<lambda>db. jkeys (annotation_items db)"
proof
  show "load (db\<lparr>annotation_items := jinsert k r (annotation_items db)\<rparr>) = (load db)(k \<mapsto> r)"
    for k r and db :: annotation_db
    by (rule ext) (simp add: load_def obj.lookup_insert)
  show "load (remove_row k db) = (load db)(k := None)" for k and db :: annotation_db
    by (rule ext) (simp add: load_def remove_row_def obj.lookup_remove)
  show "set (jkeys (annotation_items db)) = dom (load db)" for db :: annotation_db
    by (auto simp: load_def obj.mem_key_list dom_def)
qed

lemma load_set_sync_state [simp]: "load (set_sync_state s db) k = load db k"
  by (simp add: load_def set_sync_state_def)

lemma items_set_sync_state [simp]: "annotation_items (set_sync_state s db) = annotation_items db"
  by (simp add: set_sync_state_def)

lemma read_set_sync_state [simp]: "read_sync_state (set_sync_state s db) = s"
  by (simp add: read_sync_state_def set_sync_state_def)

lemma load_remove_row: "load (remove_row k db) j = (if j = k then None else load db j)"
  by (simp add: rows.lookup_remove)

lemma db_inv_set_sync_state [simp]: "db_inv ps (set_sync_state s db) \<longleftrightarrow> db_inv ps db"
  by (simp add: db_inv_def)

lemma load_Some_mem:
  assumes "ordered (annotation_items db)"
  shows "load db k = Some r \<longleftrightarrow> (k, r) \<in> set (annotation_items db)"
  using assms by (simp add: load_def jget_def ordered_distinct)

lemma db_inv_load:
  assumes "db_inv ps db" "load db k = Some r"
  shows "annotation_key r = k" "row_inv ps r"
  using assms by (auto simp: db_inv_def load_Some_mem)

lemma db_invI:
  assumes "ordered (annotation_items db)"
    and "\<And>k r. load db k = Some r \<Longrightarrow> annotation_key r = k \<and> row_inv ps r"
  shows "db_inv ps db"
  using assms by (auto simp: db_inv_def load_Some_mem)

lemma db_inv_ordered: "db_inv ps db \<Longrightarrow> ordered (annotation_items db)"
  by (simp add: db_inv_def)

lemma mem_select_rows:
  assumes "db_inv ps db"
  shows "r \<in> set (select_rows p db) \<longleftrightarrow> p r \<and> load db (annotation_key r) = Some r"
proof -
  have "r \<in> snd ` set (annotation_items db) \<longleftrightarrow> (annotation_key r, r) \<in> set (annotation_items db)"
  proof
    assume "r \<in> snd ` set (annotation_items db)"
    then obtain k where kr: "(k, r) \<in> set (annotation_items db)" by auto
    with assms have "annotation_key r = k" unfolding db_inv_def by blast
    with kr show "(annotation_key r, r) \<in> set (annotation_items db)" by simp
  qed (erule rev_image_eqI, simp)
  then show ?thesis
    by (simp add: select_rows_def load_Some_mem [OF db_inv_ordered [OF assms]] conj_commute)
qed

text \<open>Saving a row that satisfies the invariant succeeds and keeps the table's.\<close>

lemma save_row_ok:
  assumes "row_inv ps r"
  shows "save_row ps r db =
    Inr (db\<lparr>annotation_items := jinsert (annotation_key r) r (annotation_items db)\<rparr>)"
  using assms by (simp add: save_row_def row_inv_def)

lemma save_row_Inr:
  "save_row ps r db = Inr db' \<Longrightarrow>
     load db' k = (if k = annotation_key r then Some r else load db k)
     \<and> stored_sync_state db' = stored_sync_state db"
  by (auto simp: save_row_def rows.lookup_insert split: sum.splits)

lemma db_inv_save:
  assumes "db_inv ps db" "row_inv ps r"
  obtains db' where "save_row ps r db = Inr db'" "db_inv ps db'"
    "\<And>k. load db' k = (if k = annotation_key r then Some r else load db k)"
    "stored_sync_state db' = stored_sync_state db"
proof -
  let ?db = "db\<lparr>annotation_items := jinsert (annotation_key r) r (annotation_items db)\<rparr>"
  have s: "save_row ps r db = Inr ?db" using assms(2) by (rule save_row_ok)
  have l: "load ?db k = (if k = annotation_key r then Some r else load db k)" for k
    using save_row_Inr [OF s] by simp
  have "db_inv ps ?db"
  proof (rule db_invI)
    show "ordered (annotation_items ?db)"
      using assms(1) by (simp add: db_inv_ordered ordered_jinsert)
  qed (use assms in \<open>auto simp: l dest: db_inv_load split: if_splits\<close>)
  with that s l show ?thesis by simp
qed

lemma db_inv_remove: "db_inv ps db \<Longrightarrow> db_inv ps (remove_row k db)"
proof (rule db_invI)
  show "db_inv ps db \<Longrightarrow> ordered (annotation_items (remove_row k db))"
    by (simp add: remove_row_def db_inv_ordered ordered_jremove)
qed (auto simp: load_remove_row dest: db_inv_load split: if_splits)

lemma remove_row_state [simp]: "stored_sync_state (remove_row k db) = stored_sync_state db"
  by (simp add: remove_row_def)

end
