(* ===== verification/AnnEngine.thy ===== *)
theory AnnEngine
  imports AnnRepo
begin

text \<open>
  One sync run of a library (\<open>bibliography/annotations/engine.rs\<close> over the trait of
  \<open>api.rs\<close>): reconcile uncertain requests, pull, release rows that wait for their parent,
  push.

  Zotero, the local catalog and the other connections of the program are outside the run, so
  they are a parameter, the record \<open>setting\<close>: the API's answers are functions of a world
  state \<open>'w\<close> the calls thread, \<open>draw_key\<close> is the random key of a recreated annotation, and
  \<open>meanwhile\<close> is what the local commands wrote to the table while a request was out (the
  engine re-reads a row inside a transaction after each call, and the model applies
  \<open>meanwhile\<close> right after each call). Two loops of the code save rows from copies they read before,
  outside a transaction: the recovery at the start and the release of rows that wait for their
  parent. A command of another connection between such a read and its write is not modelled. A run that the database or a broken invariant would
  abort returns \<open>Inl\<close>; a stopped run returns the state with the flag \<open>True\<close>. The lock of a
  library and the process-wide set of recovered libraries are not modelled:
  \<open>sync_library\<close> takes whether this is the first run of the process. Time is \<open>int\<close>
  milliseconds; the attempt counter is a natural number (the code's \<open>u32\<close> would need
  \<open>2 ^ 32\<close> failed runs to overflow). The end of a pause the server asks for is the clock plus the
  seconds of its header; that the sum stays within \<open>i64\<close> is not checked, as in the code.
\<close>

section \<open>The API\<close>

datatype 'a versioned = Versioned 'a int

datatype server_item = ServerItem int jmap

datatype create_result = Created int | Exists | NoAnswer | Failed nat str bool

datatype write_result = WriteDone int | WriteNotFound | WriteStale | WriteRejected nat str

datatype api_error =
    Unreachable bool
  | Server nat "nat option"
  | Credentials
  | RetryAfter nat

record 'w setting =
  versions_since :: "int \<Rightarrow> 'w \<Rightarrow> (api_error + (str \<times> int) list versioned) \<times> 'w"
  items_of :: "str list \<Rightarrow> 'w \<Rightarrow> (api_error + server_item list versioned) \<times> 'w"
  deleted_since :: "int \<Rightarrow> 'w \<Rightarrow> (api_error + str list versioned) \<times> 'w"
  item_of :: "str \<Rightarrow> 'w \<Rightarrow> (api_error + server_item option) \<times> 'w"
  create_items :: "jmap list \<Rightarrow> 'w \<Rightarrow> (api_error + create_result list) \<times> 'w"
  patch_item :: "str \<Rightarrow> int \<Rightarrow> jmap \<Rightarrow> 'w \<Rightarrow> (api_error + write_result) \<times> 'w"
  delete_item :: "str \<Rightarrow> int \<Rightarrow> 'w \<Rightarrow> (api_error + write_result) \<times> 'w"
  take_backoff :: "'w \<Rightarrow> nat option \<times> 'w"
  has_attachment :: "str \<Rightarrow> bool"
  draw_key :: "'w \<Rightarrow> annotation_db \<Rightarrow> str"
  meanwhile :: "'w \<Rightarrow> annotation_db \<Rightarrow> annotation_db"
  now_ms :: int
  from_str :: "str \<Rightarrow> json option"

section \<open>The state of a run\<close>

definition batch_size :: nat where
  "batch_size = 50"

definition pull_attempts :: nat where
  "pull_attempts = 2"

definition network_retry_min_ms :: int where
  "network_retry_min_ms = 60000"

definition network_retry_max_ms :: int where
  "network_retry_max_ms = 3600000"

record sync_report =
  pulled_count :: nat
  removed_count :: nat
  sent_count :: nat
  paused :: "str option"
  uncertain_count :: nat

record 'w run =
  run_db :: annotation_db
  run_world :: 'w
  run_report :: sync_report

text \<open>\<open>Panicked\<close> is the \<open>unreachable!\<close> of \<open>send_one\<close>.\<close>

datatype engine_error = InvariantBroken invariant_error | MergeRefused machine_error | Panicked

definition empty_report :: sync_report where
  "empty_report =
     \<lparr>pulled_count = 0, removed_count = 0, sent_count = 0, paused = None, uncertain_count = 0\<rparr>"

text \<open>A call to the API, after which the local commands made in the meantime are stored.\<close>

definition call :: "'w setting \<Rightarrow> ('w \<Rightarrow> 'a \<times> 'w) \<Rightarrow> 'w run \<Rightarrow> 'a \<times> 'w run" where
  "call st f s =
     (let (answer, w) = f (run_world s)
      in (answer, s\<lparr>run_world := w, run_db := meanwhile st w (run_db s)\<rparr>))"

text \<open>A loop over a list that an error or a stop leaves.\<close>

primrec each ::
  "('a \<Rightarrow> 's \<Rightarrow> 'e + 's \<times> bool) \<Rightarrow> 'a list \<Rightarrow> 's \<Rightarrow> 'e + 's \<times> bool" where
  "each f [] s = Inr (s, False)"
| "each f (x # xs) s =
     (case f x s of
        Inl e \<Rightarrow> Inl e
      | Inr (s', stop) \<Rightarrow> if stop then Inr (s', True) else each f xs s')"

section \<open>Pauses\<close>

definition pause_kind :: "str \<Rightarrow> str" where
  "pause_kind reason = hd (split_on (\<lambda>c. c = 58) reason)"

definition set_pause :: "int option \<Rightarrow> str option \<Rightarrow> 'w run \<Rightarrow> 'w run" where
  "set_pause until reason s =
     s\<lparr>run_db := set_sync_state
         ((read_sync_state (run_db s))\<lparr>paused_until := until, pause_reason := reason\<rparr>) (run_db s)\<rparr>"

definition parse_u32 :: "str \<Rightarrow> nat option" where
  "parse_u32 t = parse_unsigned u32_max t"

definition unreachable_prefix :: str where
  "unreachable_prefix = tx ''unreachable:''"

definition next_attempt :: "str option \<Rightarrow> nat" where
  "next_attempt previous =
     unwrap_or 0 (Option.bind (Option.bind previous (strip_prefix unreachable_prefix)) parse_u32) + 1"

definition backoff_ms :: "nat \<Rightarrow> int" where
  "backoff_ms attempt =
     min (network_retry_min_ms * 2 ^ min (attempt - 1) 6) network_retry_max_ms"

definition pause_of_error :: "int \<Rightarrow> nat \<Rightarrow> api_error \<Rightarrow> int \<times> str" where
  "pause_of_error now attempt e =
     (case e of
        Credentials \<Rightarrow> (now + network_retry_max_ms, tx ''credentials'')
      | RetryAfter seconds \<Rightarrow> (now + int seconds * 1000, tx ''retry_after'')
      | Server _ (Some seconds) \<Rightarrow> (now + int seconds * 1000, tx ''retry_after'')
      | _ \<Rightarrow> (now + backoff_ms attempt, unreachable_prefix @ show_nat attempt))"

definition report_pause :: "str \<Rightarrow> 'w run \<Rightarrow> 'w run" where
  "report_pause reason s = s\<lparr>run_report := (run_report s)\<lparr>paused := Some reason\<rparr>\<rparr>"

definition pause_for :: "'w setting \<Rightarrow> api_error \<Rightarrow> 'w run \<Rightarrow> 'w run" where
  "pause_for st e s =
     (let attempt = next_attempt (pause_reason (read_sync_state (run_db s)));
          (until, reason) = pause_of_error (now_ms st) attempt e
      in report_pause (pause_kind reason) (set_pause (Some until) (Some reason) s))"

definition check_backoff :: "'w setting \<Rightarrow> 'w run \<Rightarrow> engine_error + 'w run \<times> bool" where
  "check_backoff st s =
     (let (backoff, w) = take_backoff st (run_world s); s' = s\<lparr>run_world := w\<rparr> in
      case backoff of
        Some seconds \<Rightarrow>
          Inr (report_pause (tx ''backoff'')
             (set_pause (Some (now_ms st + int seconds * 1000)) (Some (tx ''backoff'')) s'), True)
      | None \<Rightarrow> Inr (s', False))"

section \<open>Row transactions\<close>

definition settle ::
  "'w setting \<Rightarrow> str \<Rightarrow> (annotation_row \<Rightarrow> annotation_row \<times> row_action) \<Rightarrow> 'w run \<Rightarrow>
     engine_error + 'w run" where
  "settle st key transition s =
     (case load (run_db s) key of
        None \<Rightarrow> Inr s
      | Some r \<Rightarrow>
          (let (r', action) = transition r in
           case apply_action (from_str st) key r' action (run_db s) of
             Inl e \<Rightarrow> Inl (InvariantBroken e)
           | Inr db \<Rightarrow>
               Inr (let s' = s\<lparr>run_db := db\<rparr> in
                    if action = Remove
                    then s'\<lparr>run_report := (run_report s')
                            \<lparr>removed_count := removed_count (run_report s') + 1\<rparr>\<rparr>
                    else s')))"

definition begin_row ::
  "'w setting \<Rightarrow> str \<Rightarrow> 'w run \<Rightarrow> engine_error + 'w run \<times> (annotation_row \<times> request) option" where
  "begin_row st key s =
     (case load (run_db s) key of
        None \<Rightarrow> Inr (s, None)
      | Some r \<Rightarrow>
          (case next_request (from_str st) r of
             (r', Some req) \<Rightarrow>
               (case save_row (from_str st) (begin_send r' req) (run_db s) of
                  Inl e \<Rightarrow> Inl (InvariantBroken e)
                | Inr db \<Rightarrow> Inr (s\<lparr>run_db := db\<rparr>, Some (begin_send r' req, req)))
           | (r', None) \<Rightarrow>
               (if sync_state r' \<noteq> sync_state r then
                  (case save_row (from_str st) r' (run_db s) of
                     Inl e \<Rightarrow> Inl (InvariantBroken e)
                   | Inr db \<Rightarrow> Inr (s\<lparr>run_db := db\<rparr>, None))
                else Inr (s, None))))"

definition fresh_key :: "'w setting \<Rightarrow> 'w run \<Rightarrow> str" where
  "fresh_key st s = draw_key st (run_world s) (run_db s)"

text \<open>\<open>settle\<close> with the transition \<open>apply_outcome(..).into_action()\<close>.\<close>

definition settle_outcome ::
  "'w setting \<Rightarrow> str \<Rightarrow> outcome \<Rightarrow> 'w run \<Rightarrow> engine_error + 'w run" where
  "settle_outcome st key oc s =
     settle st key
       (\<lambda>r. apsnd into_action (apply_outcome (from_str st) (fresh_key st s) r oc)) s"

definition wants_retry :: "'w setting \<Rightarrow> str \<Rightarrow> outcome \<Rightarrow> 'w run \<Rightarrow> bool" where
  "wants_retry st key oc s =
     (case load (run_db s) key of
        None \<Rightarrow> False
      | Some r \<Rightarrow>
          (case snd (apply_outcome (from_str st) (fresh_key st s) r oc) of
             RetryOnce _ \<Rightarrow> True
           | Done _ \<Rightarrow> False))"

definition stopping :: "engine_error + 'w run \<Rightarrow> ('w run \<Rightarrow> 'w run) \<Rightarrow>
    engine_error + 'w run \<times> bool" where
  "stopping res pause = (case res of Inl e \<Rightarrow> Inl e | Inr s \<Rightarrow> Inr (pause s, True))"

section \<open>Reconciliation\<close>

definition observed_of :: "server_item option \<Rightarrow> observed" where
  "observed_of a = (case a of Some (ServerItem v d) \<Rightarrow> Found v d | None \<Rightarrow> NotFound)"

definition reconcile_listed ::
  "'w setting \<Rightarrow> annotation_row \<Rightarrow> 'w run \<Rightarrow> engine_error + 'w run \<times> bool" where
  "reconcile_listed st listed s =
     (if \<not> sent_uncertain listed then Inr (s, False)
      else (case call st (item_of st (annotation_key listed)) s of
              (Inl e, s1) \<Rightarrow> Inr (pause_for st e s1, True)
            | (Inr answer, s1) \<Rightarrow>
                (case settle st (annotation_key listed)
                    (\<lambda>r. if sent_uncertain r
                         then reconcile (from_str st) (fresh_key st s1) r (observed_of answer)
                         else (r, Save)) s1 of
                   Inl e \<Rightarrow> Inl e
                 | Inr s2 \<Rightarrow> Inr (s2, False))))"

definition reconcile_uncertain :: "'w setting \<Rightarrow> 'w run \<Rightarrow> engine_error + 'w run \<times> bool" where
  "reconcile_uncertain st s =
     (case each (reconcile_listed st) (outstanding (run_db s)) s of
        Inl e \<Rightarrow> Inl e
      | Inr (s', stop) \<Rightarrow> if stop then Inr (s', True) else check_backoff st s')"

section \<open>Pull\<close>

record pulled_changes =
  library_version :: int
  pulled_items :: "server_item list"
  pulled_deleted :: "str list"

primrec fetch_items ::
  "'w setting \<Rightarrow> int \<Rightarrow> str list list \<Rightarrow> server_item list \<Rightarrow> 'w run \<Rightarrow>
     (api_error + server_item list option) \<times> 'w run" where
  "fetch_items st lv [] acc s = (Inr (Some acc), s)"
| "fetch_items st lv (keys # rest) acc s =
     (case call st (items_of st keys) s of
        (Inl e, s1) \<Rightarrow> (Inl e, s1)
      | (Inr (Versioned batch version), s1) \<Rightarrow>
          if version \<noteq> lv then (Inr None, s1) else fetch_items st lv rest (acc @ batch) s1)"

definition fetch_changes ::
  "'w setting \<Rightarrow> int \<Rightarrow> 'w run \<Rightarrow> (api_error + pulled_changes option) \<times> 'w run" where
  "fetch_changes st since s =
     (case call st (versions_since st since) s of
        (Inl e, s1) \<Rightarrow> (Inl e, s1)
      | (Inr (Versioned versions lv), s1) \<Rightarrow>
          (case fetch_items st lv (chunks batch_size (map fst versions)) [] s1 of
             (Inl e, s2) \<Rightarrow> (Inl e, s2)
           | (Inr None, s2) \<Rightarrow> (Inr None, s2)
           | (Inr (Some its), s2) \<Rightarrow>
               (case call st (deleted_since st since) s2 of
                  (Inl e, s3) \<Rightarrow> (Inl e, s3)
                | (Inr (Versioned deleted dv), s3) \<Rightarrow>
                    if dv \<noteq> lv then (Inr None, s3)
                    else (Inr (Some \<lparr>library_version = lv, pulled_items = its,
                                     pulled_deleted = deleted\<rparr>), s3))))"

definition count_pulled :: "bool \<Rightarrow> 'w run \<Rightarrow> 'w run" where
  "count_pulled removed s =
     s\<lparr>run_report := (run_report s)
        \<lparr>pulled_count := pulled_count (run_report s) + 1,
         removed_count := removed_count (run_report s) + (if removed then 1 else 0)\<rparr>\<rparr>"

definition merge_one ::
  "'w setting \<Rightarrow> str \<Rightarrow> remote_change \<Rightarrow> 'w run \<Rightarrow> engine_error + 'w run \<times> bool" where
  "merge_one st key change s =
     (case load (run_db s) key of
        None \<Rightarrow>
          (case change of
             Item version d \<Rightarrow>
               (case save_row (from_str st) (from_server key version d) (run_db s) of
                  Inl e \<Rightarrow> Inl (InvariantBroken e)
                | Inr db \<Rightarrow> Inr (count_pulled False (s\<lparr>run_db := db\<rparr>), False))
           | PermanentlyDeleted \<Rightarrow> Inr (s, False))
      | Some r \<Rightarrow>
          (if sent_gen r \<noteq> None then Inr (s, False)
           else (case merge_remote (from_str st) r change of
                   Inl e \<Rightarrow> Inl (MergeRefused e)
                 | Inr (r', action) \<Rightarrow>
                     (case apply_action (from_str st) key r' action (run_db s) of
                        Inl e \<Rightarrow> Inl (InvariantBroken e)
                      | Inr db \<Rightarrow>
                          Inr (count_pulled (action = Remove) (s\<lparr>run_db := db\<rparr>), False)))))"

definition merge_item ::
  "'w setting \<Rightarrow> server_item \<Rightarrow> 'w run \<Rightarrow> engine_error + 'w run \<times> bool" where
  "merge_item st it s =
     (case it of ServerItem version d \<Rightarrow>
        (case Option.bind (jget d (tx ''key'')) as_str of
           None \<Rightarrow> Inr (s, False)
         | Some key \<Rightarrow>
             if Option.bind (jget d (tx ''itemType'')) as_str \<noteq> Some (tx ''annotation'')
             then Inr (s, False)
             else merge_one st key (Item version d) s))"

definition commit_pull ::
  "'w setting \<Rightarrow> pulled_changes \<Rightarrow> 'w run \<Rightarrow> engine_error + 'w run \<times> bool" where
  "commit_pull st changes s =
     (case each (merge_item st) (pulled_items changes) s of
        Inl e \<Rightarrow> Inl e
      | Inr (s1, _) \<Rightarrow>
          (case each (\<lambda>key. merge_one st key PermanentlyDeleted) (pulled_deleted changes) s1 of
             Inl e \<Rightarrow> Inl e
           | Inr (s2, _) \<Rightarrow>
               Inr (s2\<lparr>run_db := set_sync_state
                        ((read_sync_state (run_db s2))
                           \<lparr>web_library_version := library_version changes\<rparr>) (run_db s2)\<rparr>, False)))"

text \<open>The attempts left; a library that moves through all of them is left for the next run.\<close>

primrec pull_loop :: "'w setting \<Rightarrow> int \<Rightarrow> nat \<Rightarrow> 'w run \<Rightarrow> engine_error + 'w run \<times> bool" where
  "pull_loop st since 0 s = Inr (s, False)"
| "pull_loop st since (Suc n) s =
     (case fetch_changes st since s of
        (Inr (Some changes), s1) \<Rightarrow> commit_pull st changes s1
      | (Inr None, s1) \<Rightarrow> pull_loop st since n s1
      | (Inl e, s1) \<Rightarrow> Inr (pause_for st e s1, True))"

definition pull :: "'w setting \<Rightarrow> 'w run \<Rightarrow> engine_error + 'w run \<times> bool" where
  "pull st s = pull_loop st (web_library_version (read_sync_state (run_db s))) pull_attempts s"

section \<open>Push\<close>

fun outcome_of_error :: "api_error \<Rightarrow> outcome" where
  "outcome_of_error (Unreachable True) = Uncertain"
| "outcome_of_error (Server _ _) = Uncertain"
| "outcome_of_error (Unreachable False) = Refused"
| "outcome_of_error Credentials = Refused"
| "outcome_of_error (RetryAfter _) = Refused"

definition find_parent_status ::
  "'w setting \<Rightarrow> annotation_row \<Rightarrow> 'w run \<Rightarrow> (api_error + parent_status) \<times> 'w run" where
  "find_parent_status st r s =
     (case call st (item_of st (parent_key r)) s of
        (Inl e, s1) \<Rightarrow> (Inl e, s1)
      | (Inr (Some _), s1) \<Rightarrow> (Inr OnServer, s1)
      | (Inr None, s1) \<Rightarrow>
          (Inr (if has_attachment st (parent_key r) then PendingInZotero else ParentDeleted), s1))"

text \<open>The outcome of one object of a batch, with the error that stops the run after it.\<close>

definition create_outcome ::
  "'w setting \<Rightarrow> annotation_row \<Rightarrow> create_result \<Rightarrow> api_error option \<Rightarrow> 'w run \<Rightarrow>
     (outcome \<times> api_error option) \<times> 'w run" where
  "create_outcome st r res stop_with s =
     (case res of
        Created version \<Rightarrow> ((Applied version, stop_with), s)
      | Exists \<Rightarrow>
          (case call st (item_of st (annotation_key r)) s of
             (Inr (Some (ServerItem v d)), s1) \<Rightarrow> ((CreateExists v d, stop_with), s1)
           | (_, s1) \<Rightarrow> ((Uncertain, stop_with), s1))
      | NoAnswer \<Rightarrow> ((Uncertain, stop_with), s)
      | Failed code message parent_missing \<Rightarrow>
          (if code = 401 \<or> code = 403 then ((Refused, Some Credentials), s)
           else if code = 409 \<or> code = 429 \<or> 500 \<le> code
           then ((Refused, opt_or stop_with (Some (RetryAfter 60))), s)
           else if parent_missing
           then (case find_parent_status st r s of
                   (Inr parent, s1) \<Rightarrow> ((ParentMissing parent message, stop_with), s1)
                 | (Inl e, s1) \<Rightarrow> ((Refused, Some e), s1))
           else ((Rejected message, stop_with), s)))"

definition count_sent :: "'w run \<Rightarrow> 'w run" where
  "count_sent s = s\<lparr>run_report := (run_report s)\<lparr>sent_count := sent_count (run_report s) + 1\<rparr>\<rparr>"

primrec send_results ::
  "'w setting \<Rightarrow> (annotation_row \<times> create_result) list \<Rightarrow> api_error option \<Rightarrow> 'w run \<Rightarrow>
     engine_error + 'w run \<times> api_error option" where
  "send_results st [] stop_with s = Inr (s, stop_with)"
| "send_results st (p # rest) stop_with s =
     (let (r, res) = p; ((oc, stop'), s1) = create_outcome st r res stop_with s in
      case settle_outcome st (annotation_key r) oc (count_sent s1) of
        Inl e \<Rightarrow> Inl e
      | Inr s2 \<Rightarrow> send_results st rest stop' s2)"

text \<open>Each object of the batch with its result; a missing result is \<open>NoAnswer\<close>.\<close>

definition pair_results ::
  "(annotation_row \<times> jmap) list \<Rightarrow> create_result list \<Rightarrow> (annotation_row \<times> create_result) list" where
  "pair_results batch results =
     map (\<lambda>(i, r, _). (r, unwrap_or NoAnswer (get_at results i))) (enumerate 0 batch)"

definition settle_failed ::
  "'w setting \<Rightarrow> api_error \<Rightarrow> annotation_row \<times> jmap \<Rightarrow> 'w run \<Rightarrow> engine_error + 'w run \<times> bool" where
  "settle_failed st e p s =
     (case settle_outcome st (annotation_key (fst p)) (outcome_of_error e) s of
        Inl err \<Rightarrow> Inl err
      | Inr s' \<Rightarrow> Inr (s', False))"

definition send_creates ::
  "'w setting \<Rightarrow> (annotation_row \<times> jmap) list \<Rightarrow> 'w run \<Rightarrow> engine_error + 'w run \<times> bool" where
  "send_creates st batch s =
     (case call st (create_items st (map snd batch)) s of
        (Inl e, s1) \<Rightarrow>
          (case each (settle_failed st e) batch s1 of
             Inl err \<Rightarrow> Inl err
           | Inr (s2, _) \<Rightarrow> Inr (pause_for st e s2, True))
      | (Inr results, s1) \<Rightarrow>
          (case send_results st (pair_results batch results) None s1 of
             Inl err \<Rightarrow> Inl err
           | Inr (s2, Some e) \<Rightarrow> Inr (pause_for st e s2, True)
           | Inr (s2, None) \<Rightarrow> check_backoff st s2))"

text \<open>
  What the API says to a PATCH or a DELETE, as the outcome the machine applies, with the
  error that stops the run once the outcome is settled. A create never gets here:
  \<open>send_loop\<close> panics on one, and its clause of \<open>issue_request\<close> is not used.
\<close>

fun issue_request :: "'w setting \<Rightarrow> request \<Rightarrow> 'w \<Rightarrow> (api_error + write_result) \<times> 'w" where
  "issue_request st (Update key version flds) = patch_item st key version flds"
| "issue_request st (Delete key version) = delete_item st key version"
| "issue_request st (Create key _) = (\<lambda>w. (Inl (Unreachable False), w))"

fun is_create :: "request \<Rightarrow> bool" where
  "is_create (Create _ _) = True"
| "is_create _ = False"

fun is_delete :: "request \<Rightarrow> bool" where
  "is_delete (Delete _ _) = True"
| "is_delete _ = False"

definition write_outcome ::
  "'w setting \<Rightarrow> str \<Rightarrow> request \<Rightarrow> 'w run \<Rightarrow> (outcome \<times> api_error option) \<times> 'w run" where
  "write_outcome st key req s =
     (case call st (issue_request st req) s of
        (Inr (WriteDone version), s1) \<Rightarrow>
          ((if is_delete req then Gone else Applied version, None), s1)
      | (Inr WriteNotFound, s1) \<Rightarrow>
          ((if is_delete req then Gone else Stale PermanentlyDeleted, None), s1)
      | (Inr WriteStale, s1) \<Rightarrow>
          (case call st (item_of st key) s1 of
             (Inr (Some (ServerItem v d)), s2) \<Rightarrow> ((Stale (Item v d), None), s2)
           | (Inr None, s2) \<Rightarrow> ((Stale PermanentlyDeleted, None), s2)
           | (Inl e, s2) \<Rightarrow> ((Refused, Some e), s2))
      | (Inr (WriteRejected _ message), s1) \<Rightarrow> ((Rejected message, None), s1)
      | (Inl e, s1) \<Rightarrow> ((outcome_of_error e, Some e), s1))"

text \<open>
  The loop of \<open>send_one\<close>: \<open>retries_left\<close> starts at one, so a stale request is merged and
  sent once more.
\<close>

fun send_loop ::
  "'w setting \<Rightarrow> nat \<Rightarrow> annotation_row \<times> request \<Rightarrow> 'w run \<Rightarrow> engine_error + 'w run \<times> bool" where
  "send_loop st retries_left (r, req) s =
     (if is_create req then Inl Panicked
      else let key = annotation_key r; ((oc, failed), s1) = write_outcome st key req s in
      case failed of
        Some e \<Rightarrow> stopping (settle_outcome st key oc s1) (pause_for st e)
      | None \<Rightarrow>
          (let s2 = count_sent s1; retry = wants_retry st key oc s2 in
           case settle_outcome st key oc s2 of
             Inl err \<Rightarrow> Inl err
           | Inr s3 \<Rightarrow>
               (case retries_left of
                  0 \<Rightarrow> check_backoff st s3
                | Suc n \<Rightarrow>
                    if \<not> retry then check_backoff st s3
                    else (case begin_row st key s3 of
                            Inl err \<Rightarrow> Inl err
                          | Inr (s4, Some sent) \<Rightarrow> send_loop st n sent s4
                          | Inr (s4, None) \<Rightarrow> check_backoff st s4))))"

declare send_loop.simps [simp del]

definition send_one ::
  "'w setting \<Rightarrow> annotation_row \<Rightarrow> request \<Rightarrow> 'w run \<Rightarrow> engine_error + 'w run \<times> bool" where
  "send_one st r req s = send_loop st 1 (r, req) s"

text \<open>The first loop of \<open>push\<close>: creates are collected, everything else is sent at once.\<close>

primrec push_pending ::
  "'w setting \<Rightarrow> annotation_row list \<Rightarrow> (annotation_row \<times> jmap) list \<Rightarrow> 'w run \<Rightarrow>
     engine_error + ('w run \<times> bool) \<times> (annotation_row \<times> jmap) list" where
  "push_pending st [] creates s = Inr ((s, False), creates)"
| "push_pending st (listed # rest) creates s =
     (case begin_row st (annotation_key listed) s of
        Inl e \<Rightarrow> Inl e
      | Inr (s1, None) \<Rightarrow> push_pending st rest creates s1
      | Inr (s1, Some (r, req)) \<Rightarrow>
          (case req of
             Create _ d \<Rightarrow> push_pending st rest (creates @ [(r, d)]) s1
           | _ \<Rightarrow>
               (case send_one st r req s1 of
                  Inl e \<Rightarrow> Inl e
                | Inr (s2, stop) \<Rightarrow>
                    if stop then Inr ((s2, True), creates)
                    else push_pending st rest creates s2)))"

definition push :: "'w setting \<Rightarrow> 'w run \<Rightarrow> engine_error + 'w run \<times> bool" where
  "push st s =
     (case push_pending st (in_state (run_db s) Pending) [] s of
        Inl e \<Rightarrow> Inl e
      | Inr ((s1, stop), creates) \<Rightarrow>
          if stop then Inr (s1, True) else each (send_creates st) (chunks batch_size creates) s1)"

section \<open>The run\<close>

definition release_listed ::
  "'w setting \<Rightarrow> annotation_row \<Rightarrow> 'w run \<Rightarrow> engine_error + 'w run \<times> bool" where
  "release_listed st r s =
     (case release_waiting_parent r of
        (r', True) \<Rightarrow>
          (case save_row (from_str st) r' (run_db s) of
             Inl e \<Rightarrow> Inl (InvariantBroken e)
           | Inr db \<Rightarrow> Inr (s\<lparr>run_db := db\<rparr>, False))
      | (_, False) \<Rightarrow> Inr (s, False))"

definition and_then ::
  "('e + 's \<times> bool) \<Rightarrow> ('s \<Rightarrow> 'e + 's \<times> bool) \<Rightarrow> 'e + 's \<times> bool" where
  "and_then res f =
     (case res of Inl e \<Rightarrow> Inl e | Inr (s, stop) \<Rightarrow> if stop then Inr (s, True) else f s)"

definition sync_steps :: "'w setting \<Rightarrow> 'w run \<Rightarrow> engine_error + 'w run \<times> bool" where
  "sync_steps st s =
     and_then (reconcile_uncertain st s) (\<lambda>s1.
     and_then (pull st s1) (\<lambda>s2.
     and_then (check_backoff st s2) (\<lambda>s3.
     and_then (each (release_listed st) (in_state (run_db s3) WaitingParent) s3) (push st))))"

definition skips_run :: "'w setting \<Rightarrow> library_sync_state \<Rightarrow> bool" where
  "skips_run st state \<longleftrightarrow>
     pause_reason state \<noteq> Some (tx ''credentials'') \<and>
     (case paused_until state of None \<Rightarrow> False | Some until \<Rightarrow> now_ms st < until)"

definition go :: "'w setting \<Rightarrow> 'w run \<Rightarrow> engine_error + 'w run" where
  "go st s =
     (let state = read_sync_state (run_db s) in
      if skips_run st state
      then Inr (s\<lparr>run_report := (run_report s)\<lparr>paused := map_option pause_kind (pause_reason state)\<rparr>\<rparr>)
      else (case sync_steps st s of
              Inl e \<Rightarrow> Inl e
            | Inr (s1, stopped) \<Rightarrow>
                (let s2 = (if \<not> stopped \<and> paused_until state \<noteq> None then set_pause None None s1
                           else s1)
                 in Inr (s2\<lparr>run_report := (run_report s2)
                           \<lparr>uncertain_count := length (outstanding (run_db s2))\<rparr>\<rparr>))))"

definition recover_listed ::
  "'w setting \<Rightarrow> annotation_row \<Rightarrow> annotation_db \<Rightarrow> engine_error + annotation_db \<times> bool" where
  "recover_listed st r db =
     (case mark_outstanding_uncertain r of
        (r', True) \<Rightarrow>
          (case save_row (from_str st) r' db of
             Inl e \<Rightarrow> Inl (InvariantBroken e)
           | Inr db' \<Rightarrow> Inr (db', False))
      | (_, False) \<Rightarrow> Inr (db, False))"

definition recover_after_start ::
  "'w setting \<Rightarrow> annotation_db \<Rightarrow> engine_error + annotation_db" where
  "recover_after_start st db =
     map_sum id fst (each (recover_listed st) (outstanding db) db)"

definition sync_library ::
  "'w setting \<Rightarrow> bool \<Rightarrow> annotation_db \<Rightarrow> 'w \<Rightarrow> engine_error + 'w run" where
  "sync_library st first_run db w =
     (case (if first_run then recover_after_start st db else Inr db) of
        Inl e \<Rightarrow> Inl e
      | Inr db1 \<Rightarrow> go st \<lparr>run_db = db1, run_world = w, run_report = empty_report\<rparr>)"

end
