(* ===== verification/AnnRun.thy ===== *)
theory AnnRun
  imports AnnEngine
begin

text \<open>
  A sync run keeps the table's invariant and never fails. The local commands that run while a
  request is out are a step relation on the table; what they leave alone (a request in
  flight) is what the engine relies on when it settles an answer.
\<close>

section \<open>Keys\<close>

text \<open>Where a transition's result is stored.\<close>

definition stored_ok ::
  "(str \<Rightarrow> json option) \<Rightarrow> str \<Rightarrow> str \<Rightarrow> annotation_row \<times> row_action \<Rightarrow> bool" where
  "stored_ok ps key fresh p \<longleftrightarrow>
     (case snd p of
        Remove \<Rightarrow> True
      | Save \<Rightarrow> row_inv ps (fst p) \<and> annotation_key (fst p) = key
      | Rekeyed old \<Rightarrow> row_inv ps (fst p) \<and> annotation_key (fst p) = fresh \<and> old = key)"

lemma merge_with_base_key:
  "merge_with_base ps r change b = (r', a) \<Longrightarrow>
     annotation_key r' = annotation_key r \<and> (a = Save \<or> a = Remove)"
  by (cases change) (auto simp: merge_with_base_def Let_def split: if_splits option.splits prod.splits)

lemma acknowledge_key:
  "acknowledge ps r s v = (r', a) \<Longrightarrow> annotation_key r' = annotation_key r \<and> a = Save"
  by (auto simp: acknowledge_def Let_def split: if_splits)

lemma create_exists_key:
  "create_exists ps r v d = (r', a) \<Longrightarrow> annotation_key r' = annotation_key r \<and> a = Save"
  by (auto simp: create_exists_def Let_def split: if_splits)

lemma delete_gone_key:
  "delete_gone fresh r = (r', a) \<Longrightarrow>
     a = Remove \<or> a = Rekeyed (annotation_key r) \<and> annotation_key r' = fresh"
  by (auto simp: delete_gone_def recreate_def Let_def split: if_splits)

lemma next_request_key: "next_request ps r = (r', o') \<Longrightarrow> annotation_key r' = annotation_key r"
  by (cases o') (auto dest: next_request_pending next_request_none)

lemma stored_ok_merge_remote:
  assumes "row_inv ps r" "merge_remote ps r change = Inr p"
  shows "stored_ok ps (annotation_key r) fresh p"
proof (cases p)
  case (Pair r' a)
  have "a = Save \<and> r' = r \<or> annotation_key r' = annotation_key r \<and> (a = Save \<or> a = Remove)"
    using assms(2) Pair by (auto simp: merge_remote_def dest: merge_with_base_key split: if_splits)
  with row_inv_merge_remote [of ps r change r' a] assms Pair show ?thesis
    by (auto simp: stored_ok_def)
qed

lemma stored_ok_apply_outcome:
  assumes inv: "row_inv ps r" and snt: "sent_json r = Some s" and fits: "outcome_fits s oc"
  shows "stored_ok ps (annotation_key r) fresh (apsnd into_action (apply_outcome ps fresh r oc))"
proof -
  obtain r' nx where app: "apply_outcome ps fresh r oc = (r', nx)" by fastforce
  have "into_action nx = Remove \<or>
      (into_action nx = Save \<and> annotation_key r' = annotation_key r) \<or>
      (into_action nx = Rekeyed (annotation_key r) \<and> annotation_key r' = fresh)"
    using app
    by (cases oc) (auto simp: apply_outcome_def Let_def apsnd_def map_prod_def
        dest: acknowledge_key create_exists_key delete_gone_key merge_with_base_key
        split: prod.splits if_splits parent_status.splits)
  with row_inv_apply_outcome [OF inv snt fits app] app show ?thesis
    by (auto simp: stored_ok_def)
qed

lemma stored_ok_reconcile:
  assumes inv: "row_inv ps r" and unc: "sent_uncertain r"
  shows "stored_ok ps (annotation_key r) fresh (reconcile ps fresh r obs)"
proof -
  obtain r' a where rec: "reconcile ps fresh r obs = (r', a)" by fastforce
  obtain g where g: "sent_gen r = Some g"
    using inv unc by (auto simp: row_inv_def row_core_def)
  obtain s where s: "sent_json r = Some s"
    using inv g by (cases rule: sent_gen_cases) auto
  have "a = Remove \<or> (a = Save \<and> annotation_key r' = annotation_key r) \<or>
      (a = Rekeyed (annotation_key r) \<and> annotation_key r' = fresh)"
    using rec s
    by (cases s; cases obs) (auto simp: reconcile_def Let_def
        dest: create_exists_key delete_gone_key merge_with_base_key split: if_splits)
  with row_inv_reconcile [OF inv rec _ g] rec show ?thesis
    by (auto simp: stored_ok_def)
qed

section \<open>Local commands\<close>

definition put_row :: "annotation_row \<Rightarrow> annotation_db \<Rightarrow> annotation_db" where
  "put_row r db = db\<lparr>annotation_items := jinsert (annotation_key r) r (annotation_items db)\<rparr>"

text \<open>
  What a local command writes: it re-reads the row, changes it and stores the result, or
  creates a row under an unused key.
\<close>

inductive local_write :: "(str \<Rightarrow> json option) \<Rightarrow> annotation_db \<Rightarrow> annotation_db \<Rightarrow> bool"
  for ps :: "str \<Rightarrow> json option" where
  create: "load db key = None \<Longrightarrow> local_write ps db (put_row (new_local key d) db)"
| edit: "load db k = Some r \<Longrightarrow> local_edit ps r wanted = (r', a) \<Longrightarrow> local_write ps db (put_row r' db)"
| delete: "load db k = Some r \<Longrightarrow> local_delete ps r = Inr (r', a) \<Longrightarrow>
    apply_action ps k r' a db = Inr db' \<Longrightarrow> local_write ps db db'"
| delete_confirmed: "load db k = Some r \<Longrightarrow> local_delete_confirmed ps r = (r', a) \<Longrightarrow>
    apply_action ps k r' a db = Inr db' \<Longrightarrow> local_write ps db db'"
| restore: "load db k = Some r \<Longrightarrow> local_restore ps r = Inr (r', a) \<Longrightarrow>
    local_write ps db (put_row r' db)"
| decide: "load db k = Some r \<Longrightarrow> load db fresh = None \<Longrightarrow> resolve ps fresh r ds = Inr (r', a) \<Longrightarrow>
    apply_action ps k r' a db = Inr db' \<Longrightarrow> local_write ps db db'"

text \<open>A request in flight: the row is there and records it, and its outcome is not uncertain.\<close>

definition flying :: "annotation_db \<Rightarrow> str \<times> sent \<Rightarrow> bool" where
  "flying db f \<longleftrightarrow> (\<exists>r. load db (fst f) = Some r \<and> sent_json r = Some (snd f) \<and> \<not> sent_uncertain r)"

lemma load_put_row: "load (put_row r db) k = (if k = annotation_key r then Some r else load db k)"
  by (simp add: put_row_def rows.lookup_insert)

lemma save_row_put: "row_inv ps r \<Longrightarrow> save_row ps r db = Inr (put_row r db)"
  by (simp add: save_row_ok put_row_def)

lemma db_inv_put_row: "db_inv ps db \<Longrightarrow> row_inv ps r \<Longrightarrow> db_inv ps (put_row r db)"
  by (rule db_inv_save [of ps db r]) (auto simp: save_row_put)

lemma put_row_state [simp]: "stored_sync_state (put_row r db) = stored_sync_state db"
  by (simp add: put_row_def)

text \<open>Storing a transition's result on an idle row touches no request in flight.\<close>

lemma apply_action_ok:
  assumes db: "db_inv ps db" and st: "stored_ok ps key fresh (r', a)"
    and new: "(\<exists>old. a = Rekeyed old) \<longrightarrow> load db fresh = None"
  obtains db' where "apply_action ps key r' a db = Inr db'" "db_inv ps db'"
    "\<And>k. k \<noteq> key \<Longrightarrow> load db k \<noteq> None \<Longrightarrow> load db' k = load db k"
    "a = Save \<Longrightarrow> load db' key = Some r'"
    "stored_sync_state db' = stored_sync_state db"
proof (cases a)
  case Save
  with st db that [of "put_row r' db"] show ?thesis
    by (auto simp: stored_ok_def apply_action_def save_row_put db_inv_put_row load_put_row)
next
  case Remove
  with db that [of "remove_row key db"] show ?thesis
    by (auto simp: apply_action_def db_inv_remove load_remove_row)
next
  case (Rekeyed old)
  with st have r': "row_inv ps r'" "annotation_key r' = fresh" "old = key"
    by (simp_all add: stored_ok_def)
  show ?thesis
  proof (rule that [of "put_row r' (remove_row key db)"])
    show "load (put_row r' (remove_row key db)) k = load db k" if "k \<noteq> key" "load db k \<noteq> None" for k
      using that r' new Rekeyed by (auto simp: load_put_row load_remove_row)
  qed (use r' db Rekeyed in \<open>simp_all add: apply_action_def save_row_put db_inv_put_row
      db_inv_remove\<close>)
qed

lemma apply_action_db_inv:
  assumes "db_inv ps db" "stored_ok ps key fresh (r', a)" "\<not> (\<exists>old. a = Rekeyed old)"
  shows "\<exists>db'. apply_action ps key r' a db = Inr db' \<and> db_inv ps db'"
  by (rule apply_action_ok [OF assms(1,2)]) (use assms(3) in auto)

lemma row_inv_sent_json:
  "row_inv ps r \<Longrightarrow> sent_json r = Some s \<Longrightarrow> \<exists>g. sent_gen r = Some g"
  by (cases rule: sent_gen_cases [of ps r]) auto

text \<open>The local commands keep the invariant and the requests in flight.\<close>

lemma local_edit_key:
  "local_edit ps r w = (r', a) \<Longrightarrow> annotation_key r' = annotation_key r \<and> sent_json r' = sent_json r
     \<and> sent_uncertain r' = sent_uncertain r"
  by (auto simp: local_edit_def Let_def split: if_splits)

lemma delete_intent_key:
  "delete_intent ps r = (r', a) \<Longrightarrow>
     a = Save \<and> annotation_key r' = annotation_key r \<and> sent_json r' = sent_json r
       \<and> sent_uncertain r' = sent_uncertain r \<or>
     a = Remove \<and> sent_gen r = None"
  by (auto simp: delete_intent_def split: if_splits)

lemma resolve_key:
  assumes "resolve ps fresh r ds = Inr (r', a)"
  shows "a = Remove \<or> (a = Save \<and> annotation_key r' = annotation_key r) \<or>
    (a = Rekeyed (annotation_key r) \<and> annotation_key r' = fresh)"
proof -
  have "resolve_fields ps fresh r0 ds rv rn = (r', a) \<Longrightarrow> annotation_key r0 = annotation_key r \<Longrightarrow>
      a = Remove \<or> (a = Save \<and> annotation_key r' = annotation_key r) \<or>
      (a = Rekeyed (annotation_key r) \<and> annotation_key r' = fresh)" for r0 rv rn
    by (auto simp: resolve_fields_def recreate_def Let_def split: if_splits)
  moreover have "delete_intent ps (clear_conflict r) = (r', a) \<Longrightarrow>
      a = Remove \<or> (a = Save \<and> annotation_key r' = annotation_key r)"
    by (auto dest: delete_intent_key)
  ultimately show ?thesis
    using assms by (auto simp: resolve_def Let_def split: if_splits option.splits)
qed

text \<open>One case of the next lemma: a command stores its result on one row.\<close>

lemma flying_apply_action:
  assumes db: "db_inv ps db" and app: "apply_action ps k r' a db = Inr db'"
    and st: "stored_ok ps k fresh (r', a)"
    and new: "(\<exists>old. a = Rekeyed old) \<longrightarrow> load db fresh = None"
    and keep: "\<And>s. flying db (k, s) \<Longrightarrow> a = Save \<and> sent_json r' = Some s \<and> \<not> sent_uncertain r'"
  shows "db_inv ps db' \<and> (\<forall>f. flying db f \<longrightarrow> flying db' f)"
proof -
  obtain db2 where db2: "apply_action ps k r' a db = Inr db2" "db_inv ps db2"
    "\<And>j. j \<noteq> k \<Longrightarrow> load db j \<noteq> None \<Longrightarrow> load db2 j = load db j"
    "a = Save \<Longrightarrow> load db2 k = Some r'"
    by (rule apply_action_ok [OF db st new]) (rule that; assumption)
  have "flying db2 f" if f: "flying db f" for f
  proof (cases "fst f = k")
    case True
    with f keep [of "snd f"] db2(4) show ?thesis by (cases f) (auto simp: flying_def)
  next
    case False
    with f db2(3) [of "fst f"] show ?thesis by (auto simp: flying_def)
  qed
  with db2 app show ?thesis by simp
qed

lemma flying_load:
  "flying db (k, s) \<Longrightarrow> load db k = Some r \<Longrightarrow> sent_json r = Some s \<and> \<not> sent_uncertain r"
  by (simp add: flying_def)

lemma local_write_quiet:
  assumes "local_write ps db db'" "db_inv ps db"
  shows "db_inv ps db' \<and> (\<forall>f. flying db f \<longrightarrow> flying db' f)"
  using assms
proof (induction rule: local_write.induct)
  case (create db key d)
  then have "db_inv ps (put_row (new_local key d) db)"
    by (simp add: db_inv_put_row row_inv_new_local)
  moreover have "annotation_key (new_local key d) = key" by (simp add: new_local_def)
  ultimately show ?case
    using create by (auto simp: flying_def load_put_row)
next
  case (edit db k r wanted r' a)
  have inv: "annotation_key r = k" "row_inv ps r" using edit by (auto dest: db_inv_load)
  have r': "row_inv ps r'" "annotation_key r' = k" "sent_json r' = sent_json r"
    "sent_uncertain r' = sent_uncertain r"
    using row_inv_local_edit [OF inv(2), of wanted] local_edit_key [of ps r wanted r' a] edit inv
    by auto
  with edit show ?case
    by (auto simp: db_inv_put_row flying_def load_put_row)
next
  case (delete db k r r' a db')
  have inv: "annotation_key r = k" "row_inv ps r" using delete by (auto dest: db_inv_load)
  have del: "delete_intent ps r = (r', a)"
    using delete by (auto simp: local_delete_def split: if_splits)
  have "stored_ok ps k k (r', a)"
    using delete_intent_key [OF del] row_inv_local_delete [OF inv(2)] delete inv
    by (auto simp: stored_ok_def)
  moreover have "a = Save \<and> sent_json r' = Some s \<and> \<not> sent_uncertain r'"
    if "flying db (k, s)" for s
    using delete_intent_key [OF del] flying_load [OF that] delete row_inv_sent_json [OF inv(2)]
    by auto
  ultimately show ?case
    using delete_intent_key [OF del] delete by (intro flying_apply_action [of ps db k r' a]) auto
next
  case (delete_confirmed db k r r' a db')
  have inv: "annotation_key r = k" "row_inv ps r"
    using delete_confirmed by (auto dest: db_inv_load)
  have del: "delete_intent ps (clear_conflict r) = (r', a)"
    using delete_confirmed by (simp add: local_delete_confirmed_def)
  have "stored_ok ps k k (r', a)"
    using delete_intent_key [OF del] row_inv_local_delete_confirmed [OF inv(2)] delete_confirmed inv
    by (auto simp: stored_ok_def)
  moreover have "a = Save \<and> sent_json r' = Some s \<and> \<not> sent_uncertain r'"
    if "flying db (k, s)" for s
    using delete_intent_key [OF del] flying_load [OF that] delete_confirmed
      row_inv_sent_json [OF inv(2)] by auto
  ultimately show ?case
    using delete_intent_key [OF del] delete_confirmed
    by (intro flying_apply_action [of ps db k r' a]) auto
next
  case (restore db k r r' a)
  have inv: "annotation_key r = k" "row_inv ps r" using restore by (auto dest: db_inv_load)
  have "annotation_key r' = k" "sent_json r' = sent_json r" "sent_uncertain r' = sent_uncertain r"
    using restore(2) inv local_edit_key [of ps r _ r' a]
    by (auto simp: local_restore_def Let_def split: if_splits)
  with restore row_inv_local_restore [OF inv(2) restore(2)] show ?case
    by (auto simp: db_inv_put_row flying_def load_put_row)
next
  case (decide db k r fresh ds r' a db')
  have inv: "annotation_key r = k" "row_inv ps r" using decide by (auto dest: db_inv_load)
  have "in_conflict r" using decide(3) by (auto simp: resolve_def split: if_splits)
  then have "\<not> flying db (k, s)" for s
    using row_inv_conflict [OF inv(2)] decide(1) by (auto simp: flying_def)
  moreover have "stored_ok ps k fresh (r', a)"
    using resolve_key [OF decide(3)] row_inv_resolve [OF inv(2) decide(3)] inv
    by (auto simp: stored_ok_def)
  ultimately show ?case
    using decide by (intro flying_apply_action [of ps db k r' a]) auto
qed

definition local_writes :: "(str \<Rightarrow> json option) \<Rightarrow> annotation_db \<Rightarrow> annotation_db \<Rightarrow> bool" where
  "local_writes ps = (local_write ps)\<^sup>*\<^sup>*"

lemma local_writes_quiet:
  assumes "local_writes ps db db'" "db_inv ps db"
  shows "db_inv ps db' \<and> (\<forall>f. flying db f \<longrightarrow> flying db' f)"
  using assms unfolding local_writes_def
  by (induction rule: rtranclp_induct) (auto dest: local_write_quiet)

lemma local_writes_refl [simp]: "local_writes ps db db"
  by (simp add: local_writes_def)

section \<open>A run is safe\<close>

text \<open>
  What a setting may be: the local commands write by the rules above, and a drawn key is not
  in use (the code draws it at random).
\<close>

definition setting_ok :: "'w setting \<Rightarrow> bool" where
  "setting_ok st \<longleftrightarrow>
     (\<forall>w db. local_writes (from_str st) db (meanwhile st w db)) \<and>
     (\<forall>w db. load db (draw_key st w db) = None)"

definition safe :: "'w setting \<Rightarrow> (str \<times> sent) set \<Rightarrow> 'w run \<Rightarrow> bool" where
  "safe st F s \<longleftrightarrow> db_inv (from_str st) (run_db s) \<and> (\<forall>f \<in> F. flying (run_db s) f)"

definition runs :: "('e + 's \<times> bool) \<Rightarrow> ('s \<Rightarrow> bool) \<Rightarrow> bool" where
  "runs res P \<longleftrightarrow> (\<exists>s stop. res = Inr (s, stop) \<and> P s)"

lemma runs_Inr [simp]: "runs (Inr (s, stop)) P \<longleftrightarrow> P s"
  by (simp add: runs_def)

lemma runs_each:
  assumes "\<And>x s. x \<in> set xs \<Longrightarrow> P s \<Longrightarrow> runs (f x s) P" "P s"
  shows "runs (each f xs s) P"
  using assms
proof (induction xs arbitrary: s)
  case (Cons x xs)
  obtain s' stop where f: "f x s = Inr (s', stop)" "P s'"
    using Cons.prems(1) [of x s] Cons.prems(2) by (auto simp: runs_def)
  moreover have "runs (each f xs s') P"
    using f(2) Cons.prems(1) by (intro Cons.IH) auto
  ultimately show ?case by simp
qed simp

lemma runs_and_then:
  assumes "runs res P" "\<And>s. P s \<Longrightarrow> runs (f s) Q" "\<And>s. P s \<Longrightarrow> Q s"
  shows "runs (and_then res f) Q"
  using assms by (auto simp: runs_def and_then_def)

lemma safe_mono: "safe st F s \<Longrightarrow> G \<subseteq> F \<Longrightarrow> safe st G s"
  by (auto simp: safe_def)

lemma safe_run_report [simp]: "safe st F (s\<lparr>run_report := x\<rparr>) \<longleftrightarrow> safe st F s"
  by (simp add: safe_def)

lemma safe_run_world [simp]: "safe st F (s\<lparr>run_world := x\<rparr>) \<longleftrightarrow> safe st F s"
  by (simp add: safe_def)

lemma safe_sync_state [simp]:
  "safe st F (s\<lparr>run_db := set_sync_state x (run_db s)\<rparr>) \<longleftrightarrow> safe st F s"
  by (simp add: safe_def flying_def)

lemma safe_set_pause [simp]: "safe st F (set_pause u r s) \<longleftrightarrow> safe st F s"
  by (simp add: set_pause_def)

lemma safe_pause_for [simp]: "safe st F (pause_for st e s) \<longleftrightarrow> safe st F s"
  by (simp add: pause_for_def Let_def report_pause_def split: prod.split)

lemma safe_count [simp]:
  "safe st F (count_sent s) \<longleftrightarrow> safe st F s" "safe st F (count_pulled b s) \<longleftrightarrow> safe st F s"
  by (simp_all add: count_sent_def count_pulled_def)

lemma runs_check_backoff: "safe st F s \<Longrightarrow> runs (check_backoff st s) (safe st F)"
  by (simp add: check_backoff_def report_pause_def Let_def split: prod.split option.split)

lemma safe_call:
  assumes "setting_ok st" "safe st F s" "call st f s = (a, s')"
  shows "safe st F s'"
proof -
  obtain w where s': "s' = s\<lparr>run_world := w, run_db := meanwhile st w (run_db s)\<rparr>"
    using assms(3) by (auto simp: call_def split: prod.splits)
  have "local_writes (from_str st) (run_db s) (meanwhile st w (run_db s))"
    using assms(1) by (simp add: setting_ok_def)
  from local_writes_quiet [OF this] assms(2) show ?thesis
    by (auto simp: safe_def s')
qed

lemma settle_safe:
  assumes safe: "safe st F s" and G: "G \<subseteq> F"
    and keeps: "\<forall>f r. f \<in> G \<and> fst f = key \<and> load (run_db s) key = Some r \<longrightarrow>
      snd (tr r) = Save \<and> sent_json (fst (tr r)) = sent_json r \<and>
      sent_uncertain (fst (tr r)) = sent_uncertain r"
    and fresh: "load (run_db s) fresh = None"
    and tr: "\<forall>r. load (run_db s) key = Some r \<longrightarrow> stored_ok (from_str st) key fresh (tr r)"
  shows "\<exists>s'. settle st key tr s = Inr s' \<and> safe st G s' \<and>
    (\<forall>r r'. load (run_db s) key = Some r \<and> tr r = (r', Save) \<longrightarrow> load (run_db s') key = Some r')"
proof (cases "load (run_db s) key")
  case None
  with safe G show ?thesis by (simp add: settle_def safe_mono)
next
  case (Some r)
  obtain r' a where p: "tr r = (r', a)" by fastforce
  obtain db' where db': "apply_action (from_str st) key r' a (run_db s) = Inr db'"
    "db_inv (from_str st) db'"
    "\<And>k. k \<noteq> key \<Longrightarrow> load (run_db s) k \<noteq> None \<Longrightarrow> load db' k = load (run_db s) k"
    "a = Save \<Longrightarrow> load db' key = Some r'"
    using safe tr Some p fresh by (auto simp: safe_def elim: apply_action_ok)
  have "flying db' f" if fG: "f \<in> G" for f
  proof -
    obtain q where q: "load (run_db s) (fst f) = Some q" "sent_json q = Some (snd f)"
        "\<not> sent_uncertain q"
      using fG G safe by (auto simp: safe_def flying_def)
    show ?thesis
    proof (cases "fst f = key")
      case True
      have "snd (tr r) = Save \<and> sent_json (fst (tr r)) = sent_json r \<and>
          sent_uncertain (fst (tr r)) = sent_uncertain r"
        using keeps fG True Some by blast
      with True q Some p db'(4) show ?thesis by (simp add: flying_def)
    next
      case False
      with q db'(3) [OF False] show ?thesis by (simp add: flying_def)
    qed
  qed
  with Some p db' show ?thesis
    by (auto simp: settle_def safe_def Let_def)
qed

lemma fresh_key_unused: "setting_ok st \<Longrightarrow> load (run_db s) (fresh_key st s) = None"
  by (simp add: setting_ok_def fresh_key_def)

lemma settle_outcome_safe:
  assumes ok: "setting_ok st" and safe: "safe st (insert (key, x) F) s"
    and F: "\<And>f. f \<in> F \<Longrightarrow> fst f \<noteq> key" and fits: "outcome_fits x oc"
  shows "\<exists>s'. settle_outcome st key oc s = Inr s' \<and> safe st F s' \<and>
    (wants_retry st key oc s \<longrightarrow> (\<exists>r. load (run_db s') key = Some r \<and> base_version r \<noteq> None))"
proof -
  let ?tr = "\<lambda>r. apsnd into_action (apply_outcome (from_str st) (fresh_key st s) r oc)"
  have row: "row_inv (from_str st) r" "annotation_key r = key" "sent_json r = Some x"
    if "load (run_db s) key = Some r" for r
    using safe that by (auto simp: safe_def flying_def dest: db_inv_load)
  have st: "\<forall>r. load (run_db s) key = Some r \<longrightarrow>
      stored_ok (from_str st) key (fresh_key st s) (?tr r)"
    using stored_ok_apply_outcome [OF row(1) row(3) fits] row(2) by fastforce
  have keeps: "\<forall>f r. f \<in> F \<and> fst f = key \<and> load (run_db s) key = Some r \<longrightarrow>
      snd (?tr r) = Save \<and> sent_json (fst (?tr r)) = sent_json r \<and>
      sent_uncertain (fst (?tr r)) = sent_uncertain r"
    using F by blast
  have "F \<subseteq> insert (key, x) F" by blast
  from settle_safe [where tr = ?tr, OF safe this keeps fresh_key_unused [OF ok] st] obtain s' where
    s': "settle_outcome st key oc s = Inr s'" "safe st F s'"
      "\<And>r r'. load (run_db s) key = Some r \<Longrightarrow> ?tr r = (r', Save) \<Longrightarrow> load (run_db s') key = Some r'"
    by (auto simp: settle_outcome_def)
  have "\<exists>r. load (run_db s') key = Some r \<and> base_version r \<noteq> None" if "wants_retry st key oc s"
  proof -
    obtain r r1 a where r: "load (run_db s) key = Some r"
      "apply_outcome (from_str st) (fresh_key st s) r oc = (r1, RetryOnce a)"
      using \<open>wants_retry st key oc s\<close> by (auto simp: wants_retry_def split: option.splits next_step.splits)
        (metis prod.collapse)
    then have "a = Save \<and> base_version r1 \<noteq> None"
      by (cases oc) (auto simp: apply_outcome_def Let_def apsnd_def map_prod_def
          merge_with_base_def split: prod.splits if_splits option.splits remote_change.splits)
    with r s'(3) [of r r1] show ?thesis by auto
  qed
  with s' show ?thesis by blast
qed

section \<open>The phases\<close>

lemma runs_reconcile_listed:
  assumes ok: "setting_ok st" and safe: "safe st F s"
  shows "runs (reconcile_listed st listed s) (safe st F)"
proof (cases "sent_uncertain listed")
  case True
  obtain ans s1 where c: "call st (item_of st (annotation_key listed)) s = (ans, s1)" by fastforce
  have s1: "safe st F s1" by (rule safe_call [OF ok safe c])
  show ?thesis
  proof (cases ans)
    case (Inl e)
    with True c s1 show ?thesis by (simp add: reconcile_listed_def)
  next
    case (Inr a)
    let ?tr = "\<lambda>r. if sent_uncertain r
      then reconcile (from_str st) (fresh_key st s1) r (observed_of a) else (r, Save)"
    have st: "\<forall>r. load (run_db s1) (annotation_key listed) = Some r \<longrightarrow>
        stored_ok (from_str st) (annotation_key listed) (fresh_key st s1) (?tr r)"
    proof (intro allI impI)
      fix r
      assume "load (run_db s1) (annotation_key listed) = Some r"
      then have "annotation_key r = annotation_key listed" "row_inv (from_str st) r"
        using s1 by (auto simp: safe_def dest: db_inv_load)
      with stored_ok_reconcile [of "from_str st" r "fresh_key st s1" "observed_of a"]
      show "stored_ok (from_str st) (annotation_key listed) (fresh_key st s1) (?tr r)"
        by (auto simp: stored_ok_def)
    qed
    have keeps: "\<forall>f r. f \<in> F \<and> fst f = annotation_key listed \<and>
        load (run_db s1) (annotation_key listed) = Some r \<longrightarrow>
        snd (?tr r) = Save \<and> sent_json (fst (?tr r)) = sent_json r \<and>
        sent_uncertain (fst (?tr r)) = sent_uncertain r"
      using s1 by (auto simp: safe_def flying_def)
    from settle_safe [where tr = ?tr, OF s1 subset_refl keeps fresh_key_unused [OF ok] st]
    obtain s2 where "settle st (annotation_key listed) ?tr s1 = Inr s2" "safe st F s2"
      by blast
    with True c Inr show ?thesis by (simp add: reconcile_listed_def)
  qed
qed (use safe in \<open>simp add: reconcile_listed_def\<close>)

lemma runs_reconcile_uncertain:
  assumes "setting_ok st" "safe st F s"
  shows "runs (reconcile_uncertain st s) (safe st F)"
proof -
  have "runs (each (reconcile_listed st) (outstanding (run_db s)) s) (safe st F)"
    using assms by (intro runs_each runs_reconcile_listed)
  then show ?thesis
    by (auto simp: runs_def [of "each _ _ _"] reconcile_uncertain_def runs_check_backoff)
qed

lemma fetch_items_safe:
  assumes ok: "setting_ok st" and "safe st F s" "fetch_items st lv keys acc s = (res, s')"
  shows "safe st F s'"
  using assms(2,3)
proof (induction keys arbitrary: acc s)
  case (Cons ks keys)
  obtain ans s1 where c: "call st (items_of st ks) s = (ans, s1)" by fastforce
  have s1: "safe st F s1" by (rule safe_call [OF ok Cons.prems(1) c])
  with Cons c show ?case by (auto split: sum.splits versioned.splits if_splits)
qed simp

lemma fetch_changes_safe:
  assumes ok: "setting_ok st" and safe: "safe st F s" and f: "fetch_changes st since s = (res, s')"
  shows "safe st F s'"
proof -
  obtain ans s1 where c: "call st (versions_since st since) s = (ans, s1)" by fastforce
  have s1: "safe st F s1" by (rule safe_call [OF ok safe c])
  show ?thesis
  proof (cases ans)
    case Inl
    with f c s1 show ?thesis by (simp add: fetch_changes_def)
  next
    case (Inr v)
    obtain versions lv where v: "v = Versioned versions lv" by (cases v)
    obtain its s2 where i: "fetch_items st lv (chunks batch_size (map fst versions)) [] s1 = (its, s2)"
      by fastforce
    have s2: "safe st F s2" by (rule fetch_items_safe [OF ok s1 i])
    obtain del s3 where d: "call st (deleted_since st since) s2 = (del, s3)" by fastforce
    have "safe st F s3" by (rule safe_call [OF ok s2 d])
    with f c s2 Inr v i d show ?thesis
      by (auto simp: fetch_changes_def split: sum.splits option.splits versioned.splits if_splits)
  qed
qed

lemma runs_merge_one:
  assumes safe: "safe st F s"
  shows "runs (merge_one st key change s) (safe st F)"
proof (cases "load (run_db s) key")
  case None
  show ?thesis
  proof (cases change)
    case (Item v d)
    have "row_inv (from_str st) (from_server key v d)" by (rule row_inv_from_server)
    moreover have "annotation_key (from_server key v d) = key" by (simp add: from_server_def)
    moreover have "flying (put_row (from_server key v d) (run_db s)) f" if "f \<in> F" for f
      using that safe None calculation(2) by (auto simp: safe_def flying_def load_put_row)
    ultimately show ?thesis
      using safe None Item
      by (simp add: merge_one_def save_row_put safe_def db_inv_put_row count_pulled_def)
  qed (use safe None in \<open>simp add: merge_one_def\<close>)
next
  case (Some r)
  have r: "row_inv (from_str st) r" "annotation_key r = key"
    using safe Some by (auto simp: safe_def dest: db_inv_load)
  show ?thesis
  proof (cases "sent_gen r")
    case None
    then have "\<not> sent_uncertain r" using r(1) by (auto simp: row_inv_def row_core_def)
    then obtain p where m: "merge_remote (from_str st) r change = Inr p"
      using None by (cases "merge_remote (from_str st) r change")
        (auto simp: merge_remote_def split: if_splits)
    obtain r' a where p: "p = (r', a)" by (cases p)
    have st: "stored_ok (from_str st) key key (r', a)"
      using stored_ok_merge_remote [OF r(1) m] r(2) p by simp
    have "\<not> (\<exists>old. a = Rekeyed old)"
      using m p by (auto simp: merge_remote_def dest: merge_with_base_key split: if_splits)
    with apply_action_db_inv [OF _ st, of "run_db s"] safe obtain db' where
      db': "apply_action (from_str st) key r' a (run_db s) = Inr db'"
      by (auto simp: safe_def)
    have "\<not> flying (run_db s) (key, x)" for x
      using Some None row_inv_sent_json [OF r(1)] by (auto simp: flying_def)
    with flying_apply_action [OF _ db' st] safe \<open>\<not> (\<exists>old. a = Rekeyed old)\<close>
    have "safe st F (s\<lparr>run_db := db'\<rparr>)"
      by (auto simp: safe_def)
    with Some None m p db' show ?thesis by (simp add: merge_one_def count_pulled_def)
  qed (use safe Some in \<open>simp add: merge_one_def\<close>)
qed

lemma runs_commit_pull:
  assumes safe: "safe st F s"
  shows "runs (commit_pull st changes s) (safe st F)"
proof -
  have item: "runs (merge_item st it s) (safe st F)" if "safe st F s" for it s
    using that runs_merge_one
    by (auto simp: merge_item_def split: server_item.split option.split)
  have "runs (each (merge_item st) (pulled_items changes) s) (safe st F)"
    using safe item by (intro runs_each) auto
  then obtain s1 b1 where
    s1: "each (merge_item st) (pulled_items changes) s = Inr (s1, b1)" "safe st F s1"
    by (auto simp: runs_def)
  have "runs (each (\<lambda>key. merge_one st key PermanentlyDeleted) (pulled_deleted changes) s1)
      (safe st F)"
    using s1 runs_merge_one by (intro runs_each) auto
  then show ?thesis
    using s1 by (auto simp: runs_def [of "each _ _ _"] commit_pull_def)
qed

lemma runs_pull_loop:
  assumes ok: "setting_ok st"
  shows "safe st F s \<Longrightarrow> runs (pull_loop st since n s) (safe st F)"
proof (induction n arbitrary: s)
  case (Suc n)
  obtain res s1 where f: "fetch_changes st since s = (res, s1)" by fastforce
  have "safe st F s1" by (rule fetch_changes_safe [OF ok Suc.prems f])
  with f Suc.IH runs_commit_pull show ?case
    by (auto split: sum.split option.split)
qed simp

lemma begin_row_safe:
  assumes safe: "safe st F s"
  shows "\<exists>s' res. begin_row st key s = Inr (s', res) \<and> safe st F s' \<and>
    (case res of None \<Rightarrow> True
     | Some (r, req) \<Rightarrow> annotation_key r = key \<and> key \<notin> fst ` F \<and>
         safe st (insert (key, sent_of_request req) F) s' \<and>
         (is_create req \<longrightarrow> (\<forall>q. load (run_db s) key = Some q \<longrightarrow> base_version q = None)))"
proof (cases "load (run_db s) key")
  case None
  with safe show ?thesis by (simp add: begin_row_def)
next
  case (Some r)
  have r: "row_inv (from_str st) r" "annotation_key r = key"
    using safe Some by (auto simp: safe_def dest: db_inv_load)
  obtain r' req where n: "next_request (from_str st) r = (r', req)" by fastforce
  have key: "annotation_key r' = key" using next_request_key [OF n] r(2) by simp
  have idle: "key \<notin> fst ` F" if "sent_gen r = None"
    using that safe Some row_inv_sent_json [OF r(1)] by (force simp: safe_def flying_def)
  have keep: "safe st F (s\<lparr>run_db := put_row q (run_db s)\<rparr>)"
    if "row_inv (from_str st) q" "annotation_key q = key" "key \<notin> fst ` F" for q
    using safe that by (force simp: safe_def db_inv_put_row flying_def load_put_row)
  show ?thesis
  proof (cases req)
    case (Some rq)
    let ?q = "begin_send r' rq"
    have p: "sent_gen r = None" using n Some by (auto dest: next_request_pending)
    have q: "row_inv (from_str st) ?q" using row_inv_begin_send [OF r(1)] n Some by simp
    have "is_create rq \<longrightarrow> base_version r = None"
      using n Some by (cases rq)
        (auto simp: next_request_def Let_def split: if_splits option.splits bool.splits)
    moreover have "safe st (insert (key, sent_of_request rq) F)
        (s\<lparr>run_db := put_row ?q (run_db s)\<rparr>)"
      using keep [OF q _ idle [OF p]] key by (simp add: safe_def flying_def load_put_row)
    ultimately show ?thesis
      using \<open>load (run_db s) key = Some r\<close> n Some q key idle [OF p]
      by (auto simp: begin_row_def save_row_put intro: safe_mono)
  next
    case None
    have r': "row_inv (from_str st) r'" using row_inv_next_request_none [OF r(1)] n None by simp
    have "sync_state r' \<noteq> sync_state r \<Longrightarrow> sent_gen r = None"
      using next_request_none n None by auto
    with keep [OF r' key] idle safe r' show ?thesis
      using \<open>load (run_db s) key = Some r\<close> n None by (auto simp: begin_row_def save_row_put)
  qed
qed

section \<open>Pushing\<close>

lemma outcome_of_error_fits: "outcome_fits x (outcome_of_error e)"
  by (cases e rule: outcome_of_error.cases) auto

lemma write_outcome_safe:
  assumes ok: "setting_ok st" and safe: "safe st F s" and nc: "\<not> is_create req"
    and w: "write_outcome st key req s = ((oc, failed), s')"
  shows "safe st F s' \<and> outcome_fits (sent_of_request req) oc"
proof -
  obtain ans s1 where c: "call st (issue_request st req) s = (ans, s1)" by fastforce
  obtain it s2 where i: "call st (item_of st key) s1 = (it, s2)" by fastforce
  have s1: "safe st F s1" by (rule safe_call [OF ok safe c])
  have s2: "safe st F s2" by (rule safe_call [OF ok s1 i])
  from nc have "is_delete req \<Longrightarrow> sent_of_request req = SentDelete"
    "sent_of_request req \<noteq> SentCreate d" for d
    by (cases req; simp)+
  with s1 s2 c i w show ?thesis
    by (auto simp: write_outcome_def outcome_of_error_fits
        split: sum.splits write_result.splits option.splits server_item.splits if_splits)
qed

lemma runs_send_loop:
  assumes ok: "setting_ok st"
    and "safe st (insert (annotation_key r, sent_of_request req) F) s"
    and "annotation_key r \<notin> fst ` F" "\<not> is_create req"
  shows "runs (send_loop st n (r, req) s) (safe st F)"
  using assms(2-4)
proof (induction n arbitrary: r req s)
  case (0 r req s)
  let ?k = "annotation_key r"
  obtain oc failed s1 where w: "write_outcome st ?k req s = ((oc, failed), s1)"
    by (metis prod.exhaust)
  have s1: "safe st (insert (?k, sent_of_request req) F) s1"
    and fits: "outcome_fits (sent_of_request req) oc"
    using write_outcome_safe [OF ok 0(1) 0(3) w] by auto
  then have s1c: "safe st (insert (?k, sent_of_request req) F) (count_sent s1)" by simp
  have F: "\<And>f. f \<in> F \<Longrightarrow> fst f \<noteq> ?k" using 0(2) by force
  obtain s2 where "settle_outcome st ?k oc s1 = Inr s2" "safe st F s2"
    using settle_outcome_safe [OF ok s1 F fits] by auto
  moreover obtain s3 where "settle_outcome st ?k oc (count_sent s1) = Inr s3" "safe st F s3"
    using settle_outcome_safe [OF ok s1c F fits] by auto
  ultimately show ?case
    using 0(3) w
    by (auto simp: send_loop.simps [of st 0] stopping_def Let_def runs_check_backoff split: option.split)
next
  case (Suc n r req s)
  let ?k = "annotation_key r"
  obtain oc failed s1 where w: "write_outcome st ?k req s = ((oc, failed), s1)"
    by (metis prod.exhaust)
  have s1: "safe st (insert (?k, sent_of_request req) F) s1"
    and fits: "outcome_fits (sent_of_request req) oc"
    using write_outcome_safe [OF ok Suc.prems(1) Suc.prems(3) w] by auto
  then have s1c: "safe st (insert (?k, sent_of_request req) F) (count_sent s1)" by simp
  have F: "\<And>f. f \<in> F \<Longrightarrow> fst f \<noteq> ?k" using Suc.prems(2) by force
  obtain s2 where s2: "settle_outcome st ?k oc s1 = Inr s2" "safe st F s2"
    using settle_outcome_safe [OF ok s1 F fits] by auto
  obtain s3 where s3: "settle_outcome st ?k oc (count_sent s1) = Inr s3" "safe st F s3"
    "wants_retry st ?k oc (count_sent s1) \<Longrightarrow>
       \<exists>r. load (run_db s3) ?k = Some r \<and> base_version r \<noteq> None"
    using settle_outcome_safe [OF ok s1c F fits] by auto
  from begin_row_safe [OF s3(2), of ?k] obtain s4 res where
    b: "begin_row st ?k s3 = Inr (s4, res)" "safe st F s4" and
    some: "case res of None \<Rightarrow> True
     | Some (r', req') \<Rightarrow> annotation_key r' = ?k \<and> ?k \<notin> fst ` F \<and>
         safe st (insert (?k, sent_of_request req') F) s4 \<and>
         (is_create req' \<longrightarrow> (\<forall>q. load (run_db s3) ?k = Some q \<longrightarrow> base_version q = None))"
    by blast
  have again: "runs (send_loop st n (r', req') s4) (safe st F)"
    if "wants_retry st ?k oc (count_sent s1)" "res = Some (r', req')" for r' req'
    using some that(2) s3(3) [OF that(1)] by (intro Suc.IH) auto
  show ?case
    using Suc.prems(3) w s2 s3 b again
    by (cases failed; cases res)
      (auto simp: send_loop.simps [of st "Suc n"] stopping_def Let_def runs_check_backoff)
qed

section \<open>Batches of creates\<close>

text \<open>The creates begun and not yet answered, as requests in flight.\<close>

definition pending_creates :: "(annotation_row \<times> jmap) list \<Rightarrow> (str \<times> sent) set" where
  "pending_creates ps = (\<lambda>p. (annotation_key (fst p), SentCreate (snd p))) ` set ps"

definition keys_of :: "(annotation_row \<times> jmap) list \<Rightarrow> str list" where
  "keys_of ps = map (\<lambda>p. annotation_key (fst p)) ps"

definition distinct_keys :: "(annotation_row \<times> jmap) list \<Rightarrow> bool" where
  "distinct_keys ps \<longleftrightarrow> distinct (keys_of ps)"

lemma keys_of_simps [simp]:
  "keys_of [] = []" "keys_of (p # ps) = annotation_key (fst p) # keys_of ps"
  "keys_of (ps @ qs) = keys_of ps @ keys_of qs"
  by (simp_all add: keys_of_def)

lemma fst_pending_creates: "fst ` pending_creates ps = set (keys_of ps)"
  by (simp add: pending_creates_def keys_of_def image_image)

lemma mem_pending_creates_key: "f \<in> pending_creates ps \<Longrightarrow> fst f \<in> set (keys_of ps)"
  by (auto simp: fst_pending_creates [symmetric])

lemma pending_creates_simps [simp]:
  "pending_creates [] = {}"
  "pending_creates (p # ps) = insert (annotation_key (fst p), SentCreate (snd p)) (pending_creates ps)"
  "pending_creates (ps @ qs) = pending_creates ps \<union> pending_creates qs"
  by (auto simp: pending_creates_def)

lemma distinct_keys_Cons:
  "distinct_keys (p # ps) \<Longrightarrow>
     distinct_keys ps \<and> (\<forall>f \<in> pending_creates ps. fst f \<noteq> annotation_key (fst p))"
  by (auto simp: distinct_keys_def dest: mem_pending_creates_key)

lemma runs_settle_failed:
  assumes ok: "setting_ok st"
  shows "safe st (pending_creates batch \<union> F) s \<Longrightarrow> distinct_keys batch \<Longrightarrow>
    (\<And>f. f \<in> F \<Longrightarrow> fst f \<notin> set (keys_of batch)) \<Longrightarrow>
    runs (each (settle_failed st e) batch s) (safe st F)"
proof (induction batch arbitrary: s)
  case (Cons p batch)
  have safe: "safe st (insert (annotation_key (fst p), SentCreate (snd p)) (pending_creates batch \<union> F)) s"
    using Cons.prems(1) by simp
  have other: "fst f \<noteq> annotation_key (fst p)" if "f \<in> pending_creates batch \<union> F" for f
    using that distinct_keys_Cons [OF Cons.prems(2)] Cons.prems(3) [of f] by auto
  obtain s' where s': "settle_outcome st (annotation_key (fst p)) (outcome_of_error e) s = Inr s'"
    "safe st (pending_creates batch \<union> F) s'"
    using settle_outcome_safe [OF ok safe other outcome_of_error_fits] by auto
  then have "runs (each (settle_failed st e) batch s') (safe st F)"
    using distinct_keys_Cons [OF Cons.prems(2)] Cons.prems(3) by (intro Cons.IH) auto
  moreover have "settle_failed st e p s = Inr (s', False)"
    using s' by (simp add: settle_failed_def)
  ultimately show ?case by simp
qed simp

lemma create_outcome_safe:
  assumes ok: "setting_ok st" and safe: "safe st F s"
    and c: "create_outcome st r res stop s = ((oc, stop'), s')"
  shows "safe st F s' \<and> outcome_fits (SentCreate d) oc"
proof -
  obtain it s1 where i: "call st (item_of st (annotation_key r)) s = (it, s1)" by fastforce
  obtain pa s2 where p: "call st (item_of st (parent_key r)) s = (pa, s2)" by fastforce
  have "safe st F s1" "safe st F s2"
    using safe_call [OF ok safe i] safe_call [OF ok safe p] by auto
  with safe c i p show ?thesis
    by (auto simp: create_outcome_def find_parent_status_def
        split: create_result.splits sum.splits option.splits server_item.splits if_splits)
qed

lemma send_results_safe:
  assumes ok: "setting_ok st"
  shows "safe st (pending_creates batch \<union> F) s \<Longrightarrow> distinct_keys batch \<Longrightarrow>
    (\<And>f. f \<in> F \<Longrightarrow> fst f \<notin> set (keys_of batch)) \<Longrightarrow>
    map fst results = map fst batch \<Longrightarrow>
    \<exists>s' stop'. send_results st results stop s = Inr (s', stop') \<and> safe st F s'"
proof (induction batch arbitrary: s results stop)
  case Nil
  then show ?case by simp
next
  case (Cons p batch)
  then obtain res rest where rs: "results = (fst p, res) # rest" "map fst rest = map fst batch"
    by (cases results) auto
  obtain oc stop1 s1 where c: "create_outcome st (fst p) res stop s = ((oc, stop1), s1)"
    by (metis prod.exhaust)
  have safe: "safe st (insert (annotation_key (fst p), SentCreate (snd p))
      (pending_creates batch \<union> F)) (count_sent s1)"
    and fits: "outcome_fits (SentCreate (snd p)) oc"
    using create_outcome_safe [OF ok Cons.prems(1) c] by auto
  have other: "fst f \<noteq> annotation_key (fst p)" if "f \<in> pending_creates batch \<union> F" for f
    using that distinct_keys_Cons [OF Cons.prems(2)] Cons.prems(3) [of f] by auto
  obtain s2 where s2: "settle_outcome st (annotation_key (fst p)) oc (count_sent s1) = Inr s2"
    "safe st (pending_creates batch \<union> F) s2"
    using settle_outcome_safe [OF ok safe other fits] by auto
  have "\<exists>s' stop'. send_results st rest stop1 s2 = Inr (s', stop') \<and> safe st F s'"
    using s2 distinct_keys_Cons [OF Cons.prems(2)] Cons.prems(3) rs(2)
    by (intro Cons.IH) auto
  with rs c s2 show ?case by (simp add: Let_def)
qed

lemma map_fst_pair_results: "map fst (pair_results batch results) = map fst batch"
proof -
  have "map (\<lambda>x. fst (snd x)) (enumerate n batch) = map fst batch" for n
    by (induction batch arbitrary: n) auto
  then show ?thesis by (simp add: pair_results_def comp_def case_prod_beta)
qed

lemma runs_send_creates:
  assumes ok: "setting_ok st" and safe: "safe st (pending_creates batch \<union> F) s"
    and dist: "distinct_keys batch"
    and other: "\<And>f. f \<in> F \<Longrightarrow> fst f \<notin> set (keys_of batch)"
  shows "runs (send_creates st batch s) (safe st F)"
proof -
  obtain ans s1 where c: "call st (create_items st (map snd batch)) s = (ans, s1)" by fastforce
  have s1: "safe st (pending_creates batch \<union> F) s1" by (rule safe_call [OF ok safe c])
  show ?thesis
  proof (cases ans)
    case (Inl e)
    from runs_settle_failed [OF ok s1 dist other, of e] c Inl show ?thesis
      by (auto simp: send_creates_def runs_def [of "each _ _ _"])
  next
    case (Inr results)
    obtain s2 stop where "send_results st (pair_results batch results) None s1 = Inr (s2, stop)"
      "safe st F s2"
      using send_results_safe [OF ok s1 dist other map_fst_pair_results] by blast
    with c Inr show ?thesis
      by (cases stop) (simp_all add: send_creates_def runs_check_backoff)
  qed
qed

lemma runs_all_batches:
  assumes ok: "setting_ok st"
  shows "safe st (pending_creates (concat batches) \<union> F) s \<Longrightarrow> distinct_keys (concat batches) \<Longrightarrow>
    (\<And>f. f \<in> F \<Longrightarrow> fst f \<notin> set (keys_of (concat batches))) \<Longrightarrow>
    runs (each (send_creates st) batches s) (safe st F)"
proof (induction batches arbitrary: s)
  case (Cons b batches)
  have d: "distinct_keys b" "distinct_keys (concat batches)"
    using Cons.prems(2) by (auto simp: distinct_keys_def)
  have other: "fst f \<notin> set (keys_of b)" if "f \<in> pending_creates (concat batches) \<union> F" for f
    using that mem_pending_creates_key [of f "concat batches"] Cons.prems(2) Cons.prems(3) [of f]
    by (auto simp: distinct_keys_def)
  have "runs (send_creates st b s) (safe st (pending_creates (concat batches) \<union> F))"
    using Cons.prems(1) d other by (intro runs_send_creates [OF ok]) (auto simp: Un_assoc)
  then obtain s' stop where s': "send_creates st b s = Inr (s', stop)"
    "safe st (pending_creates (concat batches) \<union> F) s'" by (auto simp: runs_def)
  have "fst f \<notin> set (keys_of (concat batches))" if "f \<in> F" for f
    using Cons.prems(3) [OF that] by simp
  with Cons.IH [OF s'(2) d(2)] s' show ?case by (auto intro: safe_mono)
qed simp

lemma push_pending_safe:
  assumes ok: "setting_ok st"
  shows "safe st (pending_creates creates \<union> F) s \<Longrightarrow> distinct_keys creates \<Longrightarrow>
    (\<And>f. f \<in> F \<Longrightarrow> fst f \<notin> set (keys_of creates)) \<Longrightarrow>
    \<exists>s' stop creates'. push_pending st listed creates s = Inr ((s', stop), creates') \<and>
      safe st (pending_creates creates' \<union> F) s' \<and> distinct_keys creates' \<and> (\<forall>f \<in> F. fst f \<notin> set (keys_of creates'))"
proof (induction listed arbitrary: creates s)
  case Nil
  then show ?case by auto
next
  case (Cons l listed)
  let ?k = "annotation_key l"
  from begin_row_safe [OF Cons.prems(1), of ?k] obtain s1 res where
    b: "begin_row st ?k s = Inr (s1, res)" "safe st (pending_creates creates \<union> F) s1" and
    some: "case res of None \<Rightarrow> True
     | Some (r, req) \<Rightarrow> annotation_key r = ?k \<and> ?k \<notin> fst ` (pending_creates creates \<union> F) \<and>
         safe st (insert (?k, sent_of_request req) (pending_creates creates \<union> F)) s1 \<and>
         (is_create req \<longrightarrow> (\<forall>q. load (run_db s) ?k = Some q \<longrightarrow> base_version q = None))"
    by blast
  show ?case
  proof (cases res)
    case None
    with b Cons show ?thesis by simp
  next
    case (Some p)
    then obtain r req where p: "res = Some (r, req)" by (cases p) auto
    with some have r: "annotation_key r = ?k" "?k \<notin> fst ` (pending_creates creates \<union> F)"
      "safe st (insert (annotation_key r, sent_of_request req) (pending_creates creates \<union> F)) s1"
      by auto
    show ?thesis
    proof (cases "is_create req")
      case True
      then obtain key d where req: "req = Create key d" by (cases req) auto
      have "distinct_keys (creates @ [(r, d)])"
        using r(1,2) Cons.prems(2) by (simp add: distinct_keys_def fst_pending_creates image_Un)
      moreover have "fst f \<notin> set (keys_of (creates @ [(r, d)]))" if "f \<in> F" for f
      proof -
        have "fst f \<in> fst ` (pending_creates creates \<union> F)" using that by blast
        with r(2) have "fst f \<noteq> ?k" by metis
        with r(1) Cons.prems(3) [OF that] show ?thesis by simp
      qed
      ultimately show ?thesis
        using r(3) b p req Cons.IH [of "creates @ [(r, d)]" s1] by simp
    next
      case False
      have "runs (send_one st r req s1) (safe st (pending_creates creates \<union> F))"
        unfolding send_one_def using r False by (intro runs_send_loop [OF ok]) auto
      then obtain s2 stop where "send_one st r req s1 = Inr (s2, stop)"
        "safe st (pending_creates creates \<union> F) s2" by (auto simp: runs_def)
      moreover have "\<forall>f \<in> F. fst f \<notin> set (keys_of creates)" using Cons.prems(3) by blast
      moreover have "\<exists>s' stop creates'. push_pending st listed creates s2 =
          Inr ((s', stop), creates') \<and> safe st (pending_creates creates' \<union> F) s' \<and>
          distinct_keys creates' \<and> (\<forall>f \<in> F. fst f \<notin> set (keys_of creates'))"
        using calculation(2) by (intro Cons.IH Cons.prems(2,3))
      ultimately show ?thesis
        using b p False Cons.prems(2) by (cases stop; cases req) auto
    qed
  qed
qed

lemma runs_push:
  assumes ok: "setting_ok st" and safe: "safe st F s"
  shows "runs (push st s) (safe st F)"
proof -
  obtain s1 stop creates where
    p: "push_pending st (in_state (run_db s) Pending) [] s = Inr ((s1, stop), creates)"
      "safe st (pending_creates creates \<union> F) s1" "distinct_keys creates"
      "\<forall>f \<in> F. fst f \<notin> set (keys_of creates)"
    using push_pending_safe [OF ok, of "[]" F s "in_state (run_db s) Pending"] safe
    by (auto simp: distinct_keys_def)
  moreover have "runs (each (send_creates st) (chunks batch_size creates) s1) (safe st F)"
    using p runs_all_batches [OF ok, of "chunks batch_size creates" F s1]
    by (simp add: concat_chunks batch_size_def)
  ultimately show ?thesis by (auto simp: push_def intro: safe_mono)
qed

section \<open>The whole run\<close>

lemma runs_release_listed:
  assumes "safe st F s" "row_inv (from_str st) r"
    and other: "\<And>f. f \<in> F \<Longrightarrow> fst f \<noteq> annotation_key r"
  shows "runs (release_listed st r s) (safe st F)"
proof (cases "sync_state r = WaitingParent \<and> sent_gen r = None")
  case True
  have inv: "row_inv (from_str st) (r\<lparr>sync_state := Pending\<rparr>)"
    using row_inv_release_waiting_parent [OF assms(2)] True
    by (simp add: release_waiting_parent_def)
  have "flying (put_row (r\<lparr>sync_state := Pending\<rparr>) (run_db s)) f" if "f \<in> F" for f
    using that assms(1) other [OF that] by (auto simp: safe_def flying_def load_put_row)
  with assms(1) True inv show ?thesis
    by (simp add: release_listed_def release_waiting_parent_def save_row_put safe_def
        db_inv_put_row)
next
  case False
  with assms(1) show ?thesis by (auto simp: release_listed_def release_waiting_parent_def)
qed

lemma listed_not_flying:
  assumes "safe st F s" "r \<in> set (in_state (run_db s) WaitingParent)"
  shows "row_inv (from_str st) r \<and> (\<forall>f \<in> F. fst f \<noteq> annotation_key r)"
proof -
  have r: "load (run_db s) (annotation_key r) = Some r" "sync_state r = WaitingParent"
    "row_inv (from_str st) r"
    using assms by (auto simp: in_state_def safe_def mem_select_rows dest: db_inv_load)
  then have "\<not> flying (run_db s) (annotation_key r, x)" for x
    using row_inv_sent_json [OF r(3)] row_inv_sent_pending(1) [OF r(3)]
    by (auto simp: flying_def)
  with assms(1) r(3) show ?thesis by (force simp: safe_def)
qed

lemma runs_sync_steps:
  assumes ok: "setting_ok st" and safe: "safe st F s"
  shows "runs (sync_steps st s) (safe st F)"
proof -
  have rel: "runs (each (release_listed st) (in_state (run_db s) WaitingParent) s) (safe st F)"
    if "safe st F s" for s
    using that listed_not_flying [OF that] by (intro runs_each runs_release_listed) auto
  show ?thesis
    unfolding sync_steps_def pull_def
    using safe by (intro runs_and_then [of _ "safe st F"] runs_reconcile_uncertain runs_pull_loop
      runs_check_backoff runs_push rel ok)
qed

lemma go_safe:
  assumes ok: "setting_ok st" and safe: "safe st F s"
  shows "\<exists>s'. go st s = Inr s' \<and> safe st F s'"
proof -
  obtain s1 stop where "sync_steps st s = Inr (s1, stop)" "safe st F s1"
    using runs_sync_steps [OF ok safe] by (auto simp: runs_def)
  with safe show ?thesis by (auto simp: go_def Let_def)
qed

lemma recover_ok:
  assumes "db_inv (from_str st) db"
  shows "\<exists>db'. recover_after_start st db = Inr db' \<and> db_inv (from_str st) db'"
proof -
  have inv: "r \<in> set (outstanding db) \<Longrightarrow> row_inv (from_str st) r" for r
    using assms by (auto simp: outstanding_def mem_select_rows dest: db_inv_load)
  have "runs (recover_listed st r d) (db_inv (from_str st))"
    if "r \<in> set (outstanding db)" "db_inv (from_str st) d" for r d
    using that row_inv_mark_outstanding_uncertain [OF inv [OF that(1)]]
    by (auto simp: recover_listed_def save_row_put db_inv_put_row split: prod.split bool.split)
  then have "runs (each (recover_listed st) (outstanding db) db) (db_inv (from_str st))"
    using assms by (intro runs_each)
  then show ?thesis by (auto simp: runs_def recover_after_start_def)
qed

end
