(* ===== verification/AnnRunProps.thy ===== *)
theory AnnRunProps
  imports AnnRun AnnSamples
begin

text \<open>
  The properties of a whole sync run, on a sample Zotero where they need one: it never fails
  and keeps the table sound, what it does with a request whose answer it never learned of,
  and how long it pauses after failures.
\<close>

section \<open>A sample Zotero\<close>

text \<open>A drawn key longer than every key of the table.\<close>

definition unused_key :: "annotation_db \<Rightarrow> str" where
  "unused_key db = replicate (Suc (sum_list (map length (jkeys (annotation_items db))))) 50"

text \<open>A library without changes; the answer to every write is the argument.\<close>

definition sample_zotero :: "(api_error + write_result) \<Rightarrow> unit setting" where
  "sample_zotero answer =
     \<lparr>versions_since = (\<lambda>_ w. (Inr (Versioned [] 5), w)),
      items_of = (\<lambda>_ w. (Inr (Versioned [] 5), w)),
      deleted_since = (\<lambda>_ w. (Inr (Versioned [] 5), w)),
      item_of = (\<lambda>_ w. (Inr None, w)),
      create_items = (\<lambda>_ w. (Inr [Created 6], w)),
      patch_item = (\<lambda>_ _ _ w. (answer, w)),
      delete_item = (\<lambda>_ _ w. (answer, w)),
      take_backoff = (\<lambda>w. (None, w)),
      has_attachment = (\<lambda>_. False),
      draw_key = (\<lambda>_ db. unused_key db),
      meanwhile = (\<lambda>_ db. db),
      now_ms = 1000,
      from_str = no_parse\<rparr>"

definition sample_db :: annotation_db where
  "sample_db = \<lparr>annotation_items = [(tx ''ABCD2345'', edited_row)], stored_sync_state = None\<rparr>"

definition two_rows_db :: annotation_db where
  "two_rows_db =
     \<lparr>annotation_items = [(tx ''AAAA2345'', created_row\<lparr>annotation_key := tx ''AAAA2345''\<rparr>),
        (tx ''ABCD2345'', edited_row)], stored_sync_state = None\<rparr>"

lemma unused_key_free: "load db (unused_key db) = None"
proof -
  have "length k \<le> sum_list (map length ks)" if "k \<in> set ks" for k and ks :: "str list"
    using that by (induction ks) auto
  then have "unused_key db \<notin> set (jkeys (annotation_items db))"
    by (fastforce simp: unused_key_def)
  then show ?thesis by (simp add: load_def mem_jkeys)
qed

lemma sample_zotero_ok: "setting_ok (sample_zotero answer)"
  by (simp add: setting_ok_def sample_zotero_def unused_key_free)

lemma sample_db_inv: "db_inv (from_str (sample_zotero answer)) sample_db"
  using edited_row_inv by (simp add: db_inv_def sample_db_def sample_zotero_def ordered_def) code_simp

section \<open>Runs\<close>

text \<open>
  C3: a sync run always ends, without an error, with a sound table. Whatever Zotero answers
  and whatever the user does while requests are out, a run on a table whose rows satisfy
  their invariant never tries to write a row the check refuses, never merges a row it may
  not, never reaches the \<open>unreachable!\<close> of \<open>send_one\<close>, and leaves a table whose rows
  satisfy the invariant.
\<close>

theorem sync_library_never_fails:
  assumes "setting_ok st" and "db_inv (from_str st) db"
  shows "\<exists>s. sync_library st first_run db w = Inr s \<and> db_inv (from_str st) (run_db s)"
proof -
  obtain db1 where "(if first_run then recover_after_start st db else Inr db) = Inr db1"
    "db_inv (from_str st) db1"
    using recover_ok [OF assms(2)] assms(2) by (cases first_run) auto
  moreover obtain s where "go st \<lparr>run_db = db1, run_world = w, run_report = empty_report\<rparr> = Inr s"
    "safe st {} s"
    using go_safe [OF assms(1), of "{}" "\<lparr>run_db = db1, run_world = w, run_report = empty_report\<rparr>"]
      calculation(2) by (auto simp: safe_def)
  ultimately show ?thesis by (simp add: sync_library_def safe_def)
qed

lemma sync_library_never_fails_witness:
  "\<exists>s. sync_library (sample_zotero (Inr (WriteDone 6))) True sample_db () = Inr s \<and>
    db_inv (from_str (sample_zotero (Inr (WriteDone 6)))) (run_db s)"
  by (rule sync_library_never_fails [OF sample_zotero_ok sample_db_inv])

text \<open>
  A request recorded as sent, and not marked uncertain, is out of reach of every later
  run of the process. Whatever the later run meets and whatever the user edits meanwhile, the
  row still records the same request afterwards and is still not marked uncertain: it is
  neither reconciled, nor merged, nor sent. Only the first run after a restart marks it.
\<close>

theorem certain_request_outlives_runs:
  assumes "setting_ok st" and "db_inv (from_str st) db"
    and "load db k = Some r" "sent_json r = Some x" "\<not> sent_uncertain r"
  shows "\<exists>s r'. sync_library st False db w = Inr s \<and> load (run_db s) k = Some r' \<and>
    sent_json r' = Some x \<and> \<not> sent_uncertain r'"
proof -
  let ?s = "\<lparr>run_db = db, run_world = w, run_report = empty_report\<rparr>"
  have "safe st {(k, x)} ?s"
    using assms by (simp add: safe_def flying_def)
  from go_safe [OF assms(1) this] show ?thesis
    by (auto simp: sync_library_def safe_def flying_def)
qed

lemma certain_request_outlives_runs_witness:
  "\<exists>s r'. sync_library (sample_zotero (Inr WriteStale)) False
      (sample_db\<lparr>annotation_items := [(tx ''ABCD2345'', flying_row)]\<rparr>) () = Inr s \<and>
    load (run_db s) (tx ''ABCD2345'') = Some r' \<and>
    sent_json r' = Some (SentUpdate (comment_only ''B'')) \<and> \<not> sent_uncertain r'"
proof (rule certain_request_outlives_runs [OF sample_zotero_ok])
  show "db_inv (from_str (sample_zotero (Inr WriteStale)))
      (sample_db\<lparr>annotation_items := [(tx ''ABCD2345'', flying_row)]\<rparr>)"
    using flying_row_inv by (simp add: db_inv_def sample_db_def sample_zotero_def ordered_def) code_simp
  show "load (sample_db\<lparr>annotation_items := [(tx ''ABCD2345'', flying_row)]\<rparr>) (tx ''ABCD2345'')
      = Some flying_row"
    by (simp add: load_def jget_def)
qed code_simp+

text \<open>
  A push that stops abandons the creates it had begun. When sending an edit or a delete
  stops the push, every create collected before it is recorded as sent although no request was
  made for it; by the previous property no later run of the process sends it.
\<close>

theorem stopped_push_abandons_creates:
  assumes "setting_ok st" and "db_inv (from_str st) (run_db s)"
    and "push_pending st (in_state (run_db s) Pending) [] s = Inr ((s', True), creates)"
    and "(r, d) \<in> set creates"
  shows "push st s = Inr (s', True) \<and> (\<exists>r'. load (run_db s') (annotation_key r) = Some r' \<and>
    sent_json r' = Some (SentCreate d) \<and> \<not> sent_uncertain r')"
proof -
  have "safe st (pending_creates [] \<union> {}) s" using assms(2) by (simp add: safe_def)
  from push_pending_safe [OF assms(1) this, of "in_state (run_db s) Pending"] assms(3)
  have "safe st (pending_creates creates) s'" by (simp add: distinct_keys_def)
  moreover have "(annotation_key r, SentCreate d) \<in> pending_creates creates"
    using assms(4) by (force simp: pending_creates_def)
  ultimately show ?thesis
    using assms(3) by (auto simp: push_def safe_def flying_def)
qed

lemma stopped_push_abandons_creates_witness:
  "\<exists>s' (r :: annotation_row) r' d. push (sample_zotero (Inl (Unreachable False)))
      \<lparr>run_db = two_rows_db, run_world = (), run_report = empty_report\<rparr> = Inr (s', True) \<and>
    load (run_db s') (annotation_key r) = Some r' \<and>
    sent_json r' = Some (SentCreate d) \<and> \<not> sent_uncertain r'"
proof -
  let ?st = "sample_zotero (Inl (Unreachable False)) :: unit setting"
  let ?s = "\<lparr>run_db = two_rows_db, run_world = (), run_report = empty_report\<rparr>"
  have "case push_pending ?st (in_state (run_db ?s) Pending) [] ?s of
      Inr ((s', stop), creates) \<Rightarrow> stop \<and> creates \<noteq> [] | Inl _ \<Rightarrow> False"
    by code_simp
  then obtain s' r d rest where
    p: "push_pending ?st (in_state (run_db ?s) Pending) [] ?s = Inr ((s', True), (r, d) # rest)"
    by (auto simp: neq_Nil_conv split: sum.splits prod.splits)
  have "db_inv (from_str ?st) (run_db ?s)"
  proof (rule db_invI)
    show "ordered (annotation_items (run_db ?s))" by code_simp
    have "row_inv no_parse (created_row\<lparr>annotation_key := tx ''AAAA2345''\<rparr>)"
      "annotation_key edited_row = tx ''ABCD2345''" by code_simp+
    then show "annotation_key r = k \<and> row_inv (from_str ?st) r"
      if "load (run_db ?s) k = Some r" for k r
      using that edited_row_inv
      by (auto simp: load_def two_rows_db_def jget_def sample_zotero_def split: if_splits)
  qed
  from stopped_push_abandons_creates [OF sample_zotero_ok this p list.set_intros(1)]
  show ?thesis by blast
qed

section \<open>Pauses\<close>

lemma next_attempt_step:
  "n \<le> u32_max \<Longrightarrow> next_attempt (Some (unreachable_prefix @ show_nat n)) = n + 1"
  by (simp add: next_attempt_def strip_prefix_def starts_with_def parse_u32_def
      parse_show_nat)

lemma backoff_ms_bounds: "60000 \<le> backoff_ms n \<and> backoff_ms n \<le> 3600000"
  by (simp add: backoff_ms_def network_retry_min_ms_def network_retry_max_ms_def)

text \<open>
  Failures of the network back off exponentially between one minute and one hour, and
  the count of failures survives in the stored reason. A run stopped by its \<open>n\<close>-th failure in
  a row pauses for one minute doubled at most six times, capped at one hour, and the next
  failure reads the stored reason back as \<open>n\<close> and counts \<open>n + 1\<close>.
\<close>

theorem network_pause_backs_off:
  assumes "e = Unreachable b \<or> e = Server code None"
    and "next_attempt (pause_reason (read_sync_state (run_db s))) = n" and "n \<le> u32_max"
  shows "paused_until (read_sync_state (run_db (pause_for st e s))) =
      Some (now_ms st + min (60000 * 2 ^ min (n - 1) 6) 3600000)
    \<and> next_attempt (pause_reason (read_sync_state (run_db (pause_for st e s)))) = n + 1
    \<and> web_library_version (read_sync_state (run_db (pause_for st e s))) =
        web_library_version (read_sync_state (run_db s))
    \<and> annotation_items (run_db (pause_for st e s)) = annotation_items (run_db s)"
  using assms
  by (auto simp: pause_for_def Let_def pause_of_error_def report_pause_def set_pause_def
      next_attempt_step backoff_ms_def network_retry_min_ms_def network_retry_max_ms_def
      split: prod.splits)

lemma network_pause_backs_off_witness:
  "paused_until (read_sync_state (run_db (pause_for (sample_zotero (Inr WriteStale))
      (Unreachable True) \<lparr>run_db = sample_db, run_world = (), run_report = empty_report\<rparr>))) =
    Some 61000"
  using network_pause_backs_off [of "Unreachable True" True 0
      "\<lparr>run_db = sample_db, run_world = (), run_report = empty_report\<rparr>" 1
      "sample_zotero (Inr WriteStale)"]
  by (simp add: read_sync_state_def sample_db_def default_sync_state_def next_attempt_def u32_max_def
      sample_zotero_def)

text \<open>
  A paused library is left alone until the pause ends. A run before the end of a pause
  (other than the pause for credentials, which ends as soon as the key is accepted again)
  calls nothing and writes nothing; it reports the kind of the pause.
\<close>

theorem paused_run_does_nothing:
  assumes "paused_until (read_sync_state (run_db s)) = Some until" and "now_ms st < until"
    and "pause_reason (read_sync_state (run_db s)) = Some reason"
    and "reason \<noteq> tx ''credentials''"
  shows "go st s = Inr (s\<lparr>run_report := (run_report s)\<lparr>paused := Some (pause_kind reason)\<rparr>\<rparr>)"
  using assms by (simp add: go_def Let_def skips_run_def)

lemma paused_run_does_nothing_witness:
  "\<exists>s r. go (sample_zotero (Inr WriteStale)) s = Inr (s\<lparr>run_report := r\<rparr>)"
proof -
  let ?s = "\<lparr>run_db = set_sync_state \<lparr>web_library_version = 3, paused_until = Some 2000,
    pause_reason = Some (tx ''backoff'')\<rparr> sample_db, run_world = (), run_report = empty_report\<rparr>"
  have "go (sample_zotero (Inr WriteStale)) ?s =
      Inr (?s\<lparr>run_report := (run_report ?s)\<lparr>paused := Some (pause_kind (tx ''backoff''))\<rparr>\<rparr>)"
    by (rule paused_run_does_nothing [of ?s 2000]) (simp_all add: sample_zotero_def)
  then show ?thesis by blast
qed

end
