(* ===== verification/IaName.thy ===== *)
theory IaName
  imports Prelude
begin

text \<open>
  The display name of a remote file (\<open>crates/internet-archive/src/name.rs\<close>): the name under which
  the importer stores it. The lemmas show that the result is a plain file name whatever the
  remote name is: no separator, no character a file system refuses, no reserved device name.
\<close>

definition file_name_max :: nat where
  "file_name_max = 100"

definition extension :: str where
  "extension = tx ''.pdf''"

definition fallback :: str where
  "fallback = tx ''PDF''"

definition is_format :: "nat \<Rightarrow> bool" where
  "is_format c \<longleftrightarrow> c \<in> set [8203, 8204, 8205, 65279]"

text \<open>The characters \<open>< > : " / \ | ? *\<close>.\<close>

definition is_invalid :: "nat \<Rightarrow> bool" where
  "is_invalid c \<longleftrightarrow> c \<in> set [60, 62, 58, 34, 47, 92, 124, 63, 42]"

definition reserved_devices :: "str list" where
  "reserved_devices = map tx [''con'', ''prn'', ''aux'', ''nul'', ''com1'', ''com2'', ''com3'',
     ''com4'', ''com5'', ''com6'', ''com7'', ''com8'', ''com9'', ''lpt1'', ''lpt2'', ''lpt3'',
     ''lpt4'', ''lpt5'', ''lpt6'', ''lpt7'', ''lpt8'', ''lpt9'']"

definition is_reserved_device :: "str \<Rightarrow> bool" where
  "is_reserved_device name \<longleftrightarrow> to_ascii_lowercase name \<in> set reserved_devices"

text \<open>The loop over the characters.\<close>

fun clean_chars :: "str \<Rightarrow> str" where
  "clean_chars [] = []"
| "clean_chars (c # cs) =
     (if is_control c \<or> is_format c
      then (if is_whitespace c then 32 # clean_chars cs else clean_chars cs)
      else if is_invalid c then clean_chars cs
      else c # clean_chars cs)"

definition is_space_or_dot :: "nat \<Rightarrow> bool" where
  "is_space_or_dot c \<longleftrightarrow> c = 32 \<or> c = 46"

definition sanitize_stem :: "str \<Rightarrow> str" where
  "sanitize_stem t =
     (let collapsed = join (tx '' '') (split_whitespace (clean_chars t));
          trimmed = trim_by (\<lambda>c. is_whitespace c \<or> c = 46) collapsed;
          stem = trim_end_by is_space_or_dot (take (file_name_max - length extension - 1) trimmed)
      in if stem = [] then []
         else if is_reserved_device (hd (split_on (\<lambda>c. c = 46) stem)) then tx ''_'' @ stem
         else stem)"

definition strip_pdf_extension :: "str \<Rightarrow> str" where
  "strip_pdf_extension stem =
     (let lower = to_ascii_lowercase stem in
      if ends_with (tx ''.pdf'') lower \<or> ends_with (tx ''.lcpdf'') lower
      then take (length stem - (if ends_with (tx ''.lcpdf'') lower then 6 else 4)) stem
      else stem)"

text \<open>\<open>rsplit\<close> on both separators yields the last segment first.\<close>

definition display_file_name :: "str \<Rightarrow> str \<Rightarrow> str" where
  "display_file_name remote_name identifier =
     (let segment = last (split_on (\<lambda>c. c = 47 \<or> c = 92) remote_name);
          stem = strip_pdf_extension (sanitize_stem segment);
          from_id = strip_pdf_extension (sanitize_stem identifier)
      in (if stem \<noteq> [] then stem else if from_id \<noteq> [] then from_id else fallback) @ extension)"

section \<open>The characters of a name\<close>

definition is_plain :: "nat \<Rightarrow> bool" where
  "is_plain c \<longleftrightarrow> \<not> is_control c \<and> \<not> is_format c \<and> \<not> is_invalid c"

lemma is_plain_space [simp]: "is_plain 32" "is_plain 95"
  by (simp_all add: is_plain_def is_control_def is_format_def is_invalid_def tx_def)

lemma clean_chars_plain: "\<forall>c \<in> set (clean_chars t). is_plain c"
  by (induction t) (auto simp: is_plain_def is_control_def is_format_def is_invalid_def tx_def)

lemma set_split_on: "w \<in> set (split_on p t) \<Longrightarrow> set w \<subseteq> set t"
  by (induction p t arbitrary: w rule: split_on.induct)
    (auto split: if_splits list.splits, blast+)

lemma set_join: "set (join sep ws) \<subseteq> set sep \<union> \<Union> (set (map set ws))"
  by (induction sep ws rule: join.induct) auto

lemma collapsed_plain: "c \<in> set (join (tx '' '') (split_whitespace (clean_chars t))) \<Longrightarrow> is_plain c"
proof -
  assume "c \<in> set (join (tx '' '') (split_whitespace (clean_chars t)))"
  then have "c = 32 \<or> (\<exists>w \<in> set (split_whitespace (clean_chars t)). c \<in> set w)"
    using set_join [of "tx '' ''" "split_whitespace (clean_chars t)"] by (auto simp: tx_def)
  then show ?thesis
    using set_split_on clean_chars_plain by (fastforce simp: split_whitespace_def)
qed

lemma sanitize_plain: "c \<in> set (sanitize_stem t) \<Longrightarrow> is_plain c"
proof -
  assume "c \<in> set (sanitize_stem t)"
  then have "c = 95 \<or> c \<in> set (join (tx '' '') (split_whitespace (clean_chars t)))"
    using set_trim_end_by set_trim_by
    by (fastforce simp: sanitize_stem_def Let_def tx_def dest: in_set_takeD split: if_splits)
  then show ?thesis using collapsed_plain by auto
qed

lemma set_strip: "set (strip_pdf_extension t) \<subseteq> set t"
  by (auto simp: strip_pdf_extension_def Let_def dest: in_set_takeD)

lemma length_trim_end_by: "length (trim_end_by p t) \<le> length t"
  using length_dropWhile_le [of p "rev t"] by (simp add: trim_end_by_def)

lemma length_sanitize: "length (sanitize_stem t) \<le> 96"
proof -
  have "length (trim_end_by is_space_or_dot (take 95 u)) \<le> 95" for u
    using length_trim_end_by [of is_space_or_dot "take 95 u"] by simp
  then show ?thesis
    by (auto simp: sanitize_stem_def Let_def file_name_max_def extension_def tx_def
        intro: order_trans [of _ 95 96])
qed

lemma length_strip: "length (strip_pdf_extension t) \<le> length t"
  by (simp add: strip_pdf_extension_def Let_def)

section \<open>The device name\<close>

text \<open>What Windows takes for a device: the part before the first dot.\<close>

definition device_part :: "str \<Rightarrow> str" where
  "device_part t = takeWhile (\<lambda>c. c \<noteq> 46) t"

lemma hd_split_on: "hd (split_on (\<lambda>c. c = d) t) = takeWhile (\<lambda>c. c \<noteq> d) t"
  by (induction t) (auto split: list.splits simp: split_on_not_Nil)

lemma sanitize_not_reserved: "\<not> is_reserved_device (device_part (sanitize_stem t))"
proof -
  have "\<not> is_reserved_device (95 # u)" for u
    by (simp add: is_reserved_device_def reserved_devices_def tx_def to_ascii_lowercase_def
        ascii_lower_def)
  moreover have "\<not> is_reserved_device []"
    by (simp add: is_reserved_device_def reserved_devices_def to_ascii_lowercase_def tx_def)
  ultimately show ?thesis
    by (auto simp: sanitize_stem_def Let_def device_part_def hd_split_on tx_def)
qed

lemma ends_with_nth:
  "ends_with s t \<longleftrightarrow> length s \<le> length t \<and> (\<forall>i < length s. t ! (length t - length s + i) = s ! i)"
  by (auto simp: ends_with_def list_eq_iff_nth_eq)

lemma strip_cuts_at_dot:
  "strip_pdf_extension t = t \<or> (\<exists>k < length t. strip_pdf_extension t = take k t \<and> t ! k = 46)"
proof -
  have dot: "t ! (length t - length e) = 46"
    if "ends_with e (to_ascii_lowercase t)" "e \<noteq> []" "e ! 0 = 46" for e
  proof -
    from that(1) have "length e \<le> length t" by (simp add: ends_with_def to_ascii_lowercase_def)
    moreover from that have "ascii_lower (t ! (length t - length e)) = 46"
      unfolding ends_with_nth to_ascii_lowercase_def
      by (cases e) (auto dest: spec [of _ 0] simp: length_map)
    ultimately show ?thesis by (auto simp: ascii_lower_def split: if_splits)
  qed
  have len: "length (tx ''.pdf'') = 4" "length (tx ''.lcpdf'') = 6" by (simp_all add: tx_def)
  have first: "tx ''.pdf'' ! 0 = 46" "tx ''.lcpdf'' ! 0 = 46" by (simp_all add: tx_def)
  let ?l = "to_ascii_lowercase t"
  have cut: ?thesis
    if e: "ends_with e ?l" "e \<noteq> []" "e ! 0 = 46"
      and r: "strip_pdf_extension t = take (length t - length e) t" for e
  proof -
    have "length t - length e < length t"
      using e(1,2) by (cases e) (auto simp: ends_with_def to_ascii_lowercase_def)
    with dot [OF e] r show ?thesis by blast
  qed
  consider "ends_with (tx ''.lcpdf'') ?l" | "ends_with (tx ''.pdf'') ?l" "\<not> ends_with (tx ''.lcpdf'') ?l"
    | "\<not> ends_with (tx ''.pdf'') ?l" "\<not> ends_with (tx ''.lcpdf'') ?l" by blast
  then show ?thesis
  proof cases
    case 1
    then show ?thesis by (rule cut) (use 1 len first in \<open>simp_all add: strip_pdf_extension_def\<close>)
  next
    case 2
    then show ?thesis by (intro cut [of "tx ''.pdf''"])
      (use 2 len first in \<open>simp_all add: strip_pdf_extension_def\<close>)
  next
    case 3
    then show ?thesis by (simp add: strip_pdf_extension_def)
  qed
qed

lemma device_part_strip: "device_part (strip_pdf_extension t) = device_part t"
proof -
  have "takeWhile P (take k t) = takeWhile P t" if "k < length t" "\<not> P (t ! k)" for k and P :: "nat \<Rightarrow> bool"
    using that by (metis append_take_drop_id id_take_nth_drop takeWhile_append takeWhile.simps(2)
        append_Nil2 takeWhile_tail)
  then show ?thesis
    using strip_cuts_at_dot [of t] unfolding device_part_def by (metis (mono_tags, lifting))
qed

text \<open>
  The display name of a file is a plain file name. Whatever the remote name and the
  identifier are, it ends in \<open>.pdf\<close>, has at most a hundred characters, no path separator, no
  character that Windows refuses, no control or invisible format character, and the part before
  the first dot is never the name of a device.
\<close>

theorem display_file_name_is_plain:
  "ends_with (tx ''.pdf'') (display_file_name remote identifier)
   \<and> 4 < length (display_file_name remote identifier)
   \<and> length (display_file_name remote identifier) \<le> 100
   \<and> list_all (\<lambda>c. \<not> is_control c \<and> \<not> is_format c \<and> c \<notin> set [60, 62, 58, 34, 47, 92, 124, 63, 42])
       (display_file_name remote identifier)
   \<and> \<not> is_reserved_device (device_part (display_file_name remote identifier))"
proof -
  let ?ok = "\<lambda>s. (\<forall>c \<in> set s. is_plain c) \<and> length s \<le> 96 \<and> \<not> is_reserved_device (device_part s)"
  have san: "?ok (strip_pdf_extension (sanitize_stem t))" for t
    using set_strip sanitize_plain length_strip [of "sanitize_stem t"] length_sanitize [of t]
      sanitize_not_reserved by (fastforce simp: device_part_strip)
  have "?ok fallback"
    by (simp add: fallback_def tx_def is_plain_def is_control_def is_format_def is_invalid_def
        device_part_def is_reserved_device_def reserved_devices_def to_ascii_lowercase_def
        ascii_lower_def)
  then obtain s where s: "display_file_name remote identifier = s @ extension" "?ok s" "s \<noteq> []"
    using san by (auto simp: display_file_name_def Let_def fallback_def)
  have "device_part (s @ extension) = device_part s"
    using takeWhile_eq_all_conv [of "\<lambda>c. c \<noteq> 46" s, THEN iffD2, symmetric]
    by (auto simp: device_part_def extension_def tx_def takeWhile_append)
  moreover have "\<forall>c \<in> set extension. is_plain c"
    by (simp add: extension_def tx_def is_plain_def is_control_def is_format_def is_invalid_def)
  ultimately show ?thesis
    using s by (auto simp: ends_with_def extension_def tx_def is_plain_def is_invalid_def
        list_all_iff Suc_le_eq)
qed

end
