(* ===== verification/IaError.thy ===== *)
theory IaError
  imports Prelude
begin

text \<open>
  The failures of the Internet Archive crate (\<open>crates/internet-archive/src/error.rs\<close>). The free
  text of a reason, a path or a transport message is not modelled; the reason of a failed
  verification is, because it tells the checks apart. Durations are in whole seconds, as the
  \<open>Retry-After\<close> header gives them.
\<close>

datatype ia_error =
  Blocked
| TooManyRedirects
| TooLarge nat
| Http nat "nat option"
| InvalidQuery
| NotFound str
| Network
| Decode
| FileTooLarge nat
| AlreadyExists
| IoError
| VerifyFailed str
| TooManyPages nat nat

end
