(* ===== verification/IaItem.thy ===== *)
theory IaItem
  imports Json IaError
begin

text \<open>
  Internet Archive item metadata (\<open>crates/internet-archive/src/item.rs\<close>, with the tolerant
  readers of \<open>search.rs\<close>): parsing of the Metadata API answer, detection of PDF files and
  their availability. \<open>Number::to_string\<close> is library code, the parameter \<open>num\<close>.

  \<open>availability_in\<close> is the gate of the import: the lemmas show that a file is available only
  when no restriction applies and its name is a safe relative path.
\<close>

section \<open>Reading values\<close>

definition value_get :: "json \<Rightarrow> str \<Rightarrow> json option" where
  "value_get v k = (case v of JObject m \<Rightarrow> jget m k | _ \<Rightarrow> None)"

fun scalar_string :: "(jnum \<Rightarrow> str) \<Rightarrow> json \<Rightarrow> str option" where
  "scalar_string num (JString s) = (if s = [] then None else Some s)"
| "scalar_string num (JNumber n) = Some (num n)"
| "scalar_string num (JBool b) = Some (if b then tx ''true'' else tx ''false'')"
| "scalar_string num _ = None"

fun filter_map :: "('a \<Rightarrow> 'b option) \<Rightarrow> 'a list \<Rightarrow> 'b list" where
  "filter_map f [] = []"
| "filter_map f (x # xs) =
     (case f x of None \<Rightarrow> filter_map f xs | Some y \<Rightarrow> y # filter_map f xs)"

definition first_of :: "'a list \<Rightarrow> 'a option" where
  "first_of xs = (case xs of [] \<Rightarrow> None | x # _ \<Rightarrow> Some x)"

fun first_string :: "(jnum \<Rightarrow> str) \<Rightarrow> json \<Rightarrow> str option" where
  "first_string num (JArray vs) = first_of (filter_map (scalar_string num) vs)"
| "first_string num v = scalar_string num v"

fun string_list :: "(jnum \<Rightarrow> str) \<Rightarrow> json option \<Rightarrow> str list" where
  "string_list num None = []"
| "string_list num (Some JNull) = []"
| "string_list num (Some (JArray vs)) = filter_map (scalar_string num) vs"
| "string_list num (Some v) = (case scalar_string num v of None \<Rightarrow> [] | Some s \<Rightarrow> [s])"

fun scalar_is_truthy :: "json \<Rightarrow> bool" where
  "scalar_is_truthy (JBool b) = b"
| "scalar_is_truthy (JNumber n) =
     (num_as_u64 n = Some 1 \<or> num_as_i64 n = Some 1 \<or> n = Float 1)"
| "scalar_is_truthy (JString s) =
     (let t = to_ascii_lowercase (trim s) in t = tx ''true'' \<or> t = tx ''1'')"
| "scalar_is_truthy _ = False"

definition flag_in :: "jmap \<Rightarrow> str \<Rightarrow> bool" where
  "flag_in doc key =
     (case jget doc key of
        None \<Rightarrow> False
      | Some JNull \<Rightarrow> False
      | Some (JArray vs) \<Rightarrow> list_ex scalar_is_truthy vs
      | Some v \<Rightarrow> scalar_is_truthy v)"

section \<open>Items and files\<close>

definition max_pdfs_per_item :: nat where
  "max_pdfs_per_item = 1000"

datatype file_source = Original | Derivative | OtherSource str | UnknownSource

datatype restricted_reason = Encrypted | Private | ItemRestricted | UnsafeName

datatype availability = Available | Restricted restricted_reason

record pdf_file =
  pdf_name :: str
  pdf_format :: "str option"
  pdf_source :: file_source
  pdf_size :: "nat option"
  pdf_mtime :: "nat option"
  pdf_md5 :: "str option"
  pdf_sha1 :: "str option"
  pdf_availability :: availability

record item_details =
  it_identifier :: str
  it_title :: "str option"
  it_creators :: "str list"
  it_date :: "str option"
  it_languages :: "str list"
  it_collections :: "str list"
  it_rights :: "str option"
  it_license_url :: "str option"
  it_mediatype :: "str option"
  it_restricted :: bool
  it_pdfs :: "pdf_file list"
  it_truncated :: bool

definition is_collection :: "item_details \<Rightarrow> bool" where
  "is_collection d =
     (case it_mediatype d of None \<Rightarrow> False
      | Some m \<Rightarrow> to_ascii_lowercase (trim m) = tx ''collection'')"

definition file_name_in :: "(jnum \<Rightarrow> str) \<Rightarrow> jmap \<Rightarrow> str" where
  "file_name_in num file =
     (case jget file (tx ''name'') of
        Some (JString n) \<Rightarrow> n
      | Some (JNumber n) \<Rightarrow> num n
      | Some (JBool b) \<Rightarrow> if b then tx ''true'' else tx ''false''
      | _ \<Rightarrow> [])"

definition file_source_in :: "(jnum \<Rightarrow> str) \<Rightarrow> jmap \<Rightarrow> file_source" where
  "file_source_in num file =
     (case Option.bind (jget file (tx ''source'')) (first_string num) of
        None \<Rightarrow> UnknownSource
      | Some raw \<Rightarrow>
          if to_ascii_lowercase raw = tx ''original'' then Original
          else if to_ascii_lowercase raw = tx ''derivative'' then Derivative
          else OtherSource raw)"

definition is_pdf_ish :: "str \<Rightarrow> str option \<Rightarrow> bool" where
  "is_pdf_ish name format =
     ((case format of None \<Rightarrow> False | Some f \<Rightarrow> contains_text (tx ''pdf'') (to_ascii_lowercase f))
      \<or> ends_with (tx ''.pdf'') (to_ascii_lowercase name)
      \<or> ends_with (tx ''.lcpdf'') (to_ascii_lowercase name))"

definition is_unsafe_name :: "str \<Rightarrow> bool" where
  "is_unsafe_name name \<longleftrightarrow>
     name = [] \<or> starts_with (tx ''/'') name \<or> 92 \<in> set name
     \<or> list_ex (\<lambda>segment. segment = tx ''..'') (split_on (\<lambda>c. c = 47) name)
     \<or> list_ex is_control name"

definition availability_in :: "jmap \<Rightarrow> str \<Rightarrow> str option \<Rightarrow> bool \<Rightarrow> availability" where
  "availability_in file name format item_restricted =
     (if (case format of None \<Rightarrow> False
          | Some f \<Rightarrow> contains_text (tx ''encrypted'') (to_ascii_lowercase f))
         \<or> ends_with (tx ''.lcpdf'') (to_ascii_lowercase name) then Restricted Encrypted
      else if flag_in file (tx ''private'') then Restricted Private
      else if item_restricted then Restricted ItemRestricted
      else if is_unsafe_name name then Restricted UnsafeName
      else Available)"

text \<open>
  A number or a decimal string. A double is accepted when it is a whole number up to
  \<open>u64::MAX as f64\<close>, which is \<open>2 ^ 64\<close>; the cast saturates.
\<close>

fun decimal_u64 :: "json \<Rightarrow> nat option" where
  "decimal_u64 (JNumber (PosInt n)) = Some n"
| "decimal_u64 (JNumber (NegInt i)) = (if 0 \<le> i then Some (nat i) else None)"
| "decimal_u64 (JNumber (Float q)) =
     (if 0 \<le> q \<and> q \<le> 2 ^ 64 \<and> of_int \<lfloor>q\<rfloor> = q then Some (min u64_max (nat \<lfloor>q\<rfloor>)) else None)"
| "decimal_u64 (JString raw) = parse_unsigned u64_max (trim raw)"
| "decimal_u64 _ = None"

definition pdf_of_entry :: "(jnum \<Rightarrow> str) \<Rightarrow> bool \<Rightarrow> jmap \<Rightarrow> pdf_file" where
  "pdf_of_entry num restricted entry =
     (let name = file_name_in num entry;
          format = Option.bind (jget entry (tx ''format'')) (scalar_string num)
      in \<lparr>pdf_name = name, pdf_format = format, pdf_source = file_source_in num entry,
          pdf_size = Option.bind (jget entry (tx ''size'')) decimal_u64,
          pdf_mtime = Option.bind (jget entry (tx ''mtime'')) decimal_u64,
          pdf_md5 = Option.bind (jget entry (tx ''md5'')) (scalar_string num),
          pdf_sha1 = Option.bind (jget entry (tx ''sha1'')) (scalar_string num),
          pdf_availability = availability_in entry name format restricted\<rparr>)"

text \<open>The loop over \<open>files[]\<close>: every PDF-ish entry is counted, the first ones are kept.\<close>

definition collect_pdf :: "(jnum \<Rightarrow> str) \<Rightarrow> bool \<Rightarrow> json \<Rightarrow> nat \<times> pdf_file list \<Rightarrow> nat \<times> pdf_file list" where
  "collect_pdf num restricted file acc =
     (case as_object file of
        None \<Rightarrow> acc
      | Some entry \<Rightarrow>
          (let p = pdf_of_entry num restricted entry; (seen, pdfs) = acc in
           if \<not> is_pdf_ish (pdf_name p) (pdf_format p) then acc
           else if length pdfs \<ge> max_pdfs_per_item then (seen + 1, pdfs)
           else (seen + 1, pdfs @ [p])))"

definition license_url_in :: "(jnum \<Rightarrow> str) \<Rightarrow> jmap \<Rightarrow> str option" where
  "license_url_in num m =
     (let exact = tx ''licenseurl'' in
      opt_or (Option.bind (jget m exact) (first_string num))
        (first_of (filter_map (\<lambda>(_, v). first_string num v)
           (filter (\<lambda>(k, _). k \<noteq> exact \<and> to_ascii_lowercase k = exact) m))))"

definition get_either :: "jmap \<Rightarrow> str \<Rightarrow> str \<Rightarrow> json option" where
  "get_either m a b = opt_or (jget m a) (jget m b)"

definition parse_item_value :: "(jnum \<Rightarrow> str) \<Rightarrow> str \<Rightarrow> json \<Rightarrow> ia_error + item_details" where
  "parse_item_value num identifier body =
     (case Option.bind (value_get body (tx ''metadata'')) as_object of
        None \<Rightarrow> Inl (NotFound identifier)
      | Some m \<Rightarrow>
          (let restricted = flag_in m (tx ''access-restricted-item'');
               files = unwrap_or [] (Option.bind (value_get body (tx ''files'')) as_array);
               (seen, pdfs) = fold (collect_pdf num restricted) files (0, []);
               text_of = (\<lambda>k. Option.bind (jget m (tx k)) (first_string num))
           in Inr \<lparr>it_identifier = identifier, it_title = text_of ''title'',
                it_creators = string_list num (get_either m (tx ''creator'') (tx ''creators'')),
                it_date = text_of ''date'',
                it_languages = string_list num (get_either m (tx ''language'') (tx ''languages'')),
                it_collections =
                  string_list num (get_either m (tx ''collection'') (tx ''collections'')),
                it_rights = text_of ''rights'', it_license_url = license_url_in num m,
                it_mediatype = text_of ''mediatype'', it_restricted = restricted,
                it_pdfs = pdfs, it_truncated = length pdfs < seen\<rparr>))"

section \<open>Availability\<close>

lemma availability_Available_iff:
  "availability_in file name format r = Available \<longleftrightarrow>
     \<not> (case format of None \<Rightarrow> False
        | Some f \<Rightarrow> contains_text (tx ''encrypted'') (to_ascii_lowercase f))
     \<and> \<not> ends_with (tx ''.lcpdf'') (to_ascii_lowercase name)
     \<and> \<not> flag_in file (tx ''private'') \<and> \<not> r \<and> \<not> is_unsafe_name name"
  by (simp add: availability_in_def)

lemma collect_pdf_inv:
  assumes "\<forall>p \<in> set (snd acc). P p" "length (snd acc) \<le> max_pdfs_per_item"
    and "\<And>entry. as_object file = Some entry \<Longrightarrow>
      is_pdf_ish (pdf_name (pdf_of_entry num r entry)) (pdf_format (pdf_of_entry num r entry)) \<Longrightarrow>
      P (pdf_of_entry num r entry)"
  shows "(\<forall>p \<in> set (snd (collect_pdf num r file acc)). P p) \<and>
    length (snd (collect_pdf num r file acc)) \<le> max_pdfs_per_item"
  using assms by (cases acc) (auto simp: collect_pdf_def Let_def split: option.split)

lemma collect_pdfs_inv:
  assumes "\<And>entry. P (pdf_of_entry num r entry) \<or>
      \<not> is_pdf_ish (pdf_name (pdf_of_entry num r entry)) (pdf_format (pdf_of_entry num r entry))"
  shows "\<forall>p \<in> set (snd acc). P p \<Longrightarrow> length (snd acc) \<le> max_pdfs_per_item \<Longrightarrow>
    (\<forall>p \<in> set (snd (fold (collect_pdf num r) files acc)). P p) \<and>
    length (snd (fold (collect_pdf num r) files acc)) \<le> max_pdfs_per_item"
proof (induction files arbitrary: acc)
  case (Cons f files)
  have "(\<forall>p \<in> set (snd (collect_pdf num r f acc)). P p) \<and>
      length (snd (collect_pdf num r f acc)) \<le> max_pdfs_per_item"
    using Cons.prems assms by (intro collect_pdf_inv) auto
  with Cons.IH [of "collect_pdf num r f acc"] show ?case by simp
qed simp

lemma collect_pdf_count:
  "fst (fold (collect_pdf num r) files (n, ps)) \<ge> n + (length (snd (fold (collect_pdf num r) files (n, ps))) - length ps)
   \<and> length ps \<le> length (snd (fold (collect_pdf num r) files (n, ps)))"
proof (induction files arbitrary: n ps)
  case (Cons f files)
  obtain n' ps' where c: "collect_pdf num r f (n, ps) = (n', ps')" by fastforce
  then have "(n' = n \<and> ps' = ps) \<or> (n' = n + 1 \<and> (ps' = ps \<or> length ps' = length ps + 1))"
    by (auto simp: collect_pdf_def Let_def split: option.splits if_splits)
  with Cons.IH [of n' ps'] c show ?case by auto
qed simp

lemma pdf_of_entry_available:
  "pdf_availability (pdf_of_entry num r entry) = Available \<Longrightarrow>
     \<not> r \<and> \<not> is_unsafe_name (pdf_name (pdf_of_entry num r entry))"
  by (simp add: pdf_of_entry_def Let_def availability_Available_iff)

text \<open>
  Only files that may be downloaded are offered. In the item parsed from any answer of the
  Metadata API, a file that counts as available belongs to an unrestricted item, looks like a
  PDF, and has a name that stays below the item's folder: not empty, not absolute, without a
  backslash, a control character or a \<open>..\<close> segment. At most a thousand files are kept, and a
  longer list is reported as truncated.
\<close>

theorem available_files_are_safe:
  assumes "parse_item_value num identifier body = Inr d" and "p \<in> set (it_pdfs d)"
    and "pdf_availability p = Available"
  shows "\<not> it_restricted d \<and> is_pdf_ish (pdf_name p) (pdf_format p) \<and>
    pdf_name p \<noteq> [] \<and> hd (pdf_name p) \<noteq> 47 \<and> 92 \<notin> set (pdf_name p) \<and>
    tx ''..'' \<notin> set (split_on (\<lambda>c. c = 47) (pdf_name p)) \<and>
    (\<exists>c \<in> set (pdf_name p). is_control c) = False \<and>
    length (it_pdfs d) \<le> 1000"
proof -
  obtain m seen where m: "it_restricted d = flag_in m (tx ''access-restricted-item'')"
    "fold (collect_pdf num (it_restricted d))
      (unwrap_or [] (Option.bind (value_get body (tx ''files'')) as_array)) (0, []) =
      (seen, it_pdfs d)"
    using assms(1) by (auto simp: parse_item_value_def Let_def split: option.splits prod.splits)
  let ?P = "\<lambda>p. is_pdf_ish (pdf_name p) (pdf_format p) \<and>
    (pdf_availability p = Available \<longrightarrow> \<not> it_restricted d \<and> \<not> is_unsafe_name (pdf_name p))"
  have "?P (pdf_of_entry num (it_restricted d) entry) \<or>
      \<not> is_pdf_ish (pdf_name (pdf_of_entry num (it_restricted d) entry))
        (pdf_format (pdf_of_entry num (it_restricted d) entry))" for entry
    using pdf_of_entry_available by blast
  from collect_pdfs_inv [of ?P num "it_restricted d" "(0, [])", OF this] m(2)
  have all: "\<forall>p \<in> set (it_pdfs d). ?P p" "length (it_pdfs d) \<le> max_pdfs_per_item"
    by (metis (no_types, lifting) empty_iff le0 list.set(1) list.size(3) snd_conv)+
  then have "\<not> is_unsafe_name (pdf_name p)" "\<not> it_restricted d"
    "is_pdf_ish (pdf_name p) (pdf_format p)"
    using assms(2,3) by auto
  with all(2) show ?thesis
    by (cases "pdf_name p")
      (auto simp: is_unsafe_name_def starts_with_def tx_def list_ex_iff max_pdfs_per_item_def)
qed

definition sample_item_body :: json where
  "sample_item_body = JObject
     [(tx ''files'', JArray [JObject [(tx ''name'', JString (tx ''a.pdf''))],
         JObject [(tx ''name'', JString (tx ''../b.pdf''))]]),
      (tx ''metadata'', JObject [(tx ''title'', JString (tx ''T''))])]"

theorem available_files_are_safe_witness:
  "(case parse_item_value (\<lambda>_. []) (tx ''item'') sample_item_body of
      Inl _ \<Rightarrow> False
    | Inr d \<Rightarrow> map pdf_availability (it_pdfs d) = [Available, Restricted UnsafeName] \<and>
        \<not> it_restricted d \<and> tx ''..'' \<notin> set (split_on (\<lambda>c. c = 47) (pdf_name (hd (it_pdfs d)))))"
proof -
  obtain d where d: "parse_item_value (\<lambda>_. []) (tx ''item'') sample_item_body = Inr d"
    "map pdf_availability (it_pdfs d) = [Available, Restricted UnsafeName]"
    by (rule that [of "projr (parse_item_value (\<lambda>_. []) (tx ''item'') sample_item_body)"])
      (code_simp)+
  then obtain p ps where "it_pdfs d = p # ps" "pdf_availability p = Available" by auto
  with d available_files_are_safe [OF d(1), of p] show ?thesis by simp
qed

end
