(* ===== verification/IaSearch.thy ===== *)
theory IaSearch
  imports IaItem
begin

text \<open>
  The advanced search (\<open>crates/internet-archive/src/search.rs\<close>): the structured query and the
  Lucene text it is rendered into, the check of identifiers, and the tolerant reading of a page
  of results.

  The lemmas show what the escaping is for. \<open>unquote\<close> is a reader of a quoted phrase as Lucene
  has it (a backslash escapes the next character) and \<open>skeleton\<close> erases the phrases of a query:
  what the user typed can be read back and never shows in the skeleton.
\<close>

section \<open>Queries\<close>

record search_query =
  sq_text :: "str option"
  sq_title :: "str option"
  sq_creator :: "str option"
  sq_language :: "str option"
  sq_collection :: "str option"
  sq_year_from :: "nat option"
  sq_year_to :: "nat option"
  sq_texts_only :: bool

definition default_query :: search_query where
  "default_query =
     \<lparr>sq_text = None, sq_title = None, sq_creator = None, sq_language = None,
      sq_collection = None, sq_year_from = None, sq_year_to = None, sq_texts_only = True\<rparr>"

text \<open>\<open>str::replace\<close> of a single character by a text.\<close>

fun replace_char :: "nat \<Rightarrow> str \<Rightarrow> str \<Rightarrow> str" where
  "replace_char c r [] = []"
| "replace_char c r (x # xs) = (if x = c then r else [x]) @ replace_char c r xs"

definition quote :: "str \<Rightarrow> str" where
  "quote literal = [34] @ replace_char 34 [92, 34] (replace_char 92 [92, 92] literal) @ [34]"

definition trimmed :: "str option \<Rightarrow> str option" where
  "trimmed value = opt_filter (\<lambda>s. s \<noteq> []) (map_option trim value)"

definition is_valid_identifier :: "str \<Rightarrow> bool" where
  "is_valid_identifier value \<longleftrightarrow>
     value \<noteq> [] \<and> utf8_len value \<le> 100 \<and>
     list_all (\<lambda>b. is_ascii_alphanumeric b \<or> b = 46 \<or> b = 95 \<or> b = 45) value"

definition check_collection :: "str \<Rightarrow> ia_error + unit" where
  "check_collection collection =
     (if is_valid_identifier collection then Inr () else Inl InvalidQuery)"

text \<open>\<open>{f:04}\<close>: decimal, padded with zeros to four digits.\<close>

definition show_04 :: "nat \<Rightarrow> str" where
  "show_04 n = replicate (4 - length (show_nat n)) 48 @ show_nat n"

definition date_clause :: "nat option \<Rightarrow> nat option \<Rightarrow> ia_error + str option" where
  "date_clause from to =
     (if (\<exists>y \<in> set_option from. 9999 < y) \<or> (\<exists>y \<in> set_option to. 9999 < y) then Inl InvalidQuery
      else case (from, to) of
        (None, None) \<Rightarrow> Inr None
      | (Some f, Some t) \<Rightarrow>
          if t < f then Inl InvalidQuery
          else Inr (Some (tx ''date:['' @ show_04 f @ tx ''-01-01 TO '' @ show_04 t @ tx ''-12-31]''))
      | (Some f, None) \<Rightarrow> Inr (Some (tx ''date:['' @ show_04 f @ tx ''-01-01 TO *]''))
      | (None, Some t) \<Rightarrow> Inr (Some (tx ''date:[* TO '' @ show_04 t @ tx ''-12-31]'')))"

definition field_clause :: "string \<Rightarrow> str \<Rightarrow> str" where
  "field_clause field v = tx field @ tx '':('' @ quote v @ tx '')''"

definition option_list :: "'a option \<Rightarrow> 'a list" where
  "option_list v = (case v of None \<Rightarrow> [] | Some x \<Rightarrow> [x])"

definition literal_clauses :: "search_query \<Rightarrow> str list" where
  "literal_clauses q =
     (case sq_text q of None \<Rightarrow> [] | Some text \<Rightarrow> map quote (split_whitespace text)) @
     map (field_clause ''title'') (option_list (trimmed (sq_title q))) @
     map (field_clause ''creator'') (option_list (trimmed (sq_creator q))) @
     map (field_clause ''language'') (option_list (trimmed (sq_language q)))"

definition to_lucene :: "search_query \<Rightarrow> ia_error + str" where
  "to_lucene q =
     (case (case sq_collection q of None \<Rightarrow> Inr () | Some c \<Rightarrow> check_collection c) of
        Inl e \<Rightarrow> Inl e
      | Inr _ \<Rightarrow>
          (case date_clause (sq_year_from q) (sq_year_to q) of
             Inl e \<Rightarrow> Inl e
           | Inr date \<Rightarrow>
               (let clauses = literal_clauses q @
                      map (field_clause ''collection'') (option_list (sq_collection q)) @
                      option_list date
                in if clauses = [] then Inl InvalidQuery
                   else Inr (join (tx '' AND '')
                     (clauses @ (if sq_texts_only q then [tx ''mediatype:texts''] else []))))))"

section \<open>Results\<close>

record search_item =
  si_identifier :: str
  si_title :: "str option"
  si_creators :: "str list"
  si_date :: "str option"
  si_collections :: "str list"
  si_restricted :: bool

record search_page =
  sp_num_found :: nat
  sp_items :: "search_item list"

definition trimmed_non_empty :: "str \<Rightarrow> str option" where
  "trimmed_non_empty s = (if trim s = [] then None else Some (trim s))"

fun identifier_scalar :: "(jnum \<Rightarrow> str) \<Rightarrow> json \<Rightarrow> str option" where
  "identifier_scalar num (JString s) = trimmed_non_empty s"
| "identifier_scalar num (JNumber n) = Some (num n)"
| "identifier_scalar num (JBool b) = Some (if b then tx ''true'' else tx ''false'')"
| "identifier_scalar num _ = None"

definition identifier_in :: "(jnum \<Rightarrow> str) \<Rightarrow> jmap \<Rightarrow> str option" where
  "identifier_in num doc =
     (case jget doc (tx ''identifier'') of
        None \<Rightarrow> None
      | Some (JArray items) \<Rightarrow> first_of (filter_map (identifier_scalar num) items)
      | Some v \<Rightarrow> identifier_scalar num v)"

definition restricted_in :: "jmap \<Rightarrow> bool" where
  "restricted_in doc = flag_in doc (tx ''access-restricted-item'')"

text \<open>A double that is a whole number; the cast saturates at \<open>u64::MAX\<close>.\<close>

definition num_found_in :: "json \<Rightarrow> nat" where
  "num_found_in body =
     (case Option.bind (value_get body (tx ''response'')) (\<lambda>r. value_get r (tx ''numFound'')) of
        Some (JNumber (PosInt n)) \<Rightarrow> n
      | Some (JNumber (NegInt i)) \<Rightarrow> if 0 \<le> i then nat i else 0
      | Some (JNumber (Float q)) \<Rightarrow>
          if 0 \<le> q \<and> of_int \<lfloor>q\<rfloor> = q then min u64_max (nat \<lfloor>q\<rfloor>) else 0
      | Some (JString s) \<Rightarrow> unwrap_or 0 (parse_unsigned u64_max (trim s))
      | _ \<Rightarrow> 0)"

definition search_item_of :: "(jnum \<Rightarrow> str) \<Rightarrow> json \<Rightarrow> search_item option" where
  "search_item_of num doc =
     (case as_object doc of
        None \<Rightarrow> None
      | Some obj \<Rightarrow>
          (case identifier_in num obj of
             None \<Rightarrow> None
           | Some identifier \<Rightarrow> Some
               \<lparr>si_identifier = identifier,
                si_title = Option.bind (jget obj (tx ''title'')) (first_string num),
                si_creators = string_list num (get_either obj (tx ''creator'') (tx ''creators'')),
                si_date = Option.bind (jget obj (tx ''date'')) (first_string num),
                si_collections =
                  string_list num (get_either obj (tx ''collection'') (tx ''collections'')),
                si_restricted = restricted_in obj\<rparr>))"

definition parse_search_value :: "(jnum \<Rightarrow> str) \<Rightarrow> json \<Rightarrow> search_page" where
  "parse_search_value num body =
     (let docs = Option.bind (Option.bind (value_get body (tx ''response''))
            (\<lambda>r. value_get r (tx ''docs''))) as_array
      in \<lparr>sp_num_found = num_found_in body,
          sp_items = filter_map (search_item_of num) (unwrap_or [] docs)\<rparr>)"

section \<open>Reading a quoted phrase\<close>

text \<open>After the opening quote: the phrase up to the closing quote, and what follows it.\<close>

fun phrase :: "str \<Rightarrow> (str \<times> str) option" where
  "phrase [] = None"
| "phrase (c # cs) =
     (if c = 34 then Some ([], cs)
      else if c = 92 then
        (case cs of [] \<Rightarrow> None
         | d # ds \<Rightarrow> (case phrase ds of None \<Rightarrow> None | Some (p, rest) \<Rightarrow> Some (d # p, rest)))
      else (case phrase cs of None \<Rightarrow> None | Some (p, rest) \<Rightarrow> Some (c # p, rest)))"

definition unquote :: "str \<Rightarrow> (str \<times> str) option" where
  "unquote t = (case t of c # cs \<Rightarrow> if c = 34 then phrase cs else None | [] \<Rightarrow> None)"

text \<open>
  A query with its phrases erased (an empty pair of quotes stays); \<open>None\<close> when a phrase is not
  closed.
\<close>

fun skeleton_from :: "bool \<Rightarrow> str \<Rightarrow> str option" where
  "skeleton_from inside [] = (if inside then None else Some [])"
| "skeleton_from True (c # cs) =
     (if c = 34 then map_option ((#) 34) (skeleton_from False cs)
      else if c = 92 then (case cs of [] \<Rightarrow> None | _ # ds \<Rightarrow> skeleton_from True ds)
      else skeleton_from True cs)"
| "skeleton_from False (c # cs) = map_option ((#) c) (skeleton_from (c = 34) cs)"

definition skeleton :: "str \<Rightarrow> str option" where
  "skeleton = skeleton_from False"

definition escape :: "str \<Rightarrow> str" where
  "escape s = replace_char 34 [92, 34] (replace_char 92 [92, 92] s)"

lemma replace_char_append [simp]:
  "replace_char c r (xs @ ys) = replace_char c r xs @ replace_char c r ys"
  by (induction xs) auto

lemma escape_simps [simp]:
  "escape [] = []"
  "escape (c # cs) = (if c = 34 then [92, 34] else if c = 92 then [92, 92] else [c]) @ escape cs"
  by (simp_all add: escape_def)

lemma quote_escape: "quote s = 34 # escape s @ [34]"
  by (simp add: quote_def escape_def)

lemma phrase_escape: "phrase (escape s @ 34 # rest) = Some (s, rest)"
  by (induction s) auto

lemma skeleton_escape: "skeleton_from True (escape s @ 34 # rest) = map_option ((#) 34) (skeleton_from False rest)"
  by (induction s) auto

text \<open>A text that leaves the reader outside every phrase, and what is left of it.\<close>

definition erases :: "str \<Rightarrow> str \<Rightarrow> bool" where
  "erases t s \<longleftrightarrow>
     (\<forall>rest. skeleton_from False (t @ rest) = map_option ((@) s) (skeleton_from False rest))"

lemma erases_skeleton: "erases t s \<Longrightarrow> skeleton t = Some s"
  by (auto simp: erases_def skeleton_def dest: spec [of _ "[]"])

lemma erases_quote [simp]: "erases (quote s) [34, 34]"
proof -
  have "skeleton_from False (quote s @ rest) = map_option ((@) [34, 34]) (skeleton_from False rest)"
    for rest
    by (cases "skeleton_from False rest") (simp_all add: quote_escape skeleton_escape)
  then show ?thesis by (simp add: erases_def)
qed

lemma erases_append: "erases t s \<Longrightarrow> erases t' s' \<Longrightarrow> erases (t @ t') (s @ s')"
  by (auto simp: erases_def option.map_comp intro!: option.map_cong0)

lemma erases_plain: "34 \<notin> set t \<Longrightarrow> erases t t"
proof (induction t)
  case Nil
  then show ?case by (simp add: erases_def option.map_ident_strong)
next
  case (Cons c t)
  then show ?case by (auto simp: erases_def option.map_comp intro!: option.map_cong0)
qed

lemma erases_join:
  "34 \<notin> set sep \<Longrightarrow> list_all2 erases ts ss \<Longrightarrow> erases (join sep ts) (join sep ss)"
proof (induction sep ts arbitrary: ss rule: join.induct)
  case (3 sep t u ts)
  then obtain s v ss' where ss: "ss = s # v # ss'" "erases t s" "list_all2 erases (u # ts) (v # ss')"
    by (auto simp: list_all2_Cons1)
  with 3 have "erases (join sep (u # ts)) (join sep (v # ss'))" by blast
  with ss 3(2) show ?case by (simp add: erases_append erases_plain)
qed (auto simp: list_all2_Cons1 erases_plain)

section \<open>Properties\<close>

text \<open>What a query looks like with its phrases left out: it depends on which filters are set.\<close>

definition field_shape :: "string \<Rightarrow> str option \<Rightarrow> str list" where
  "field_shape field v = (if v = None then [] else [tx field @ tx '':('' @ [34, 34] @ tx '')''])"

definition query_shape :: "search_query \<Rightarrow> str list" where
  "query_shape q =
     (case sq_text q of None \<Rightarrow> []
      | Some text \<Rightarrow> replicate (length (split_whitespace text)) [34, 34]) @
     field_shape ''title'' (trimmed (sq_title q)) @
     field_shape ''creator'' (trimmed (sq_creator q)) @
     field_shape ''language'' (trimmed (sq_language q)) @
     field_shape ''collection'' (sq_collection q) @
     (case date_clause (sq_year_from q) (sq_year_to q) of Inl _ \<Rightarrow> [] | Inr d \<Rightarrow> option_list d) @
     (if sq_texts_only q then [tx ''mediatype:texts''] else [])"

lemma show_04_plain: "34 \<notin> set (show_04 n)"
  using show_nat_props [of n] by (auto simp: show_04_def list_all_iff is_ascii_digit_def)

lemma date_clause_plain: "date_clause f t = Inr (Some d) \<Longrightarrow> 34 \<notin> set d"
  using show_04_plain by (auto simp: date_clause_def tx_def split: option.splits if_splits)

lemma field_clause_erases:
  "34 \<notin> set (tx field) \<Longrightarrow>
     list_all2 erases (map (field_clause field) (option_list v)) (field_shape field v)"
proof -
  have "34 \<notin> set (tx '':('')" "34 \<notin> set (tx '')'')" by (simp_all add: tx_def)
  moreover assume "34 \<notin> set (tx field)"
  ultimately show ?thesis
    by (auto simp: field_clause_def option_list_def field_shape_def
        intro!: erases_append erases_append [of "quote _" "[34, 34]", simplified] erases_plain
        split: option.split)
qed

text \<open>
  Nothing the user types acts as query syntax. The text of a query with its quoted phrases
  erased is fixed by which filters are set, how many words the free text has and the years:
  the words, titles, names and collections themselves leave no trace outside the quotes.
\<close>

theorem search_terms_stay_inside_quotes:
  assumes "to_lucene q = Inr t"
  shows "skeleton t = Some (join (tx '' AND '') (query_shape q))"
proof -
  obtain date where d: "date_clause (sq_year_from q) (sq_year_to q) = Inr date"
    and t: "t = join (tx '' AND '') (literal_clauses q @
       map (field_clause ''collection'') (option_list (sq_collection q)) @ option_list date @
       (if sq_texts_only q then [tx ''mediatype:texts''] else []))"
    using assms by (auto simp: to_lucene_def Let_def split: sum.splits option.splits if_splits)
  have words: "list_all2 erases (map quote ws) (replicate (length ws) [34, 34])" for ws
    by (induction ws) auto
  have "list_all2 erases (option_list date) (option_list date)"
    using d by (auto simp: option_list_def split: option.split intro!: erases_plain dest: date_clause_plain)
  moreover have "list_all2 erases [tx ''mediatype:texts''] [tx ''mediatype:texts'']"
    by (simp add: erases_plain tx_def)
  moreover have "list_all2 erases (map (field_clause f) (option_list v)) (field_shape f v)"
    if "f \<in> {''title'', ''creator'', ''language'', ''collection''}" for f v
    using that by (auto intro!: field_clause_erases simp: tx_def)
  ultimately have "list_all2 erases (literal_clauses q @
       map (field_clause ''collection'') (option_list (sq_collection q)) @ option_list date @
       (if sq_texts_only q then [tx ''mediatype:texts''] else [])) (query_shape q)"
    unfolding literal_clauses_def query_shape_def d append_assoc
    by (auto intro!: list_all2_appendI words split: option.split)
  then have "erases t (join (tx '' AND '') (query_shape q))"
    unfolding t by (rule erases_join [rotated]) (simp add: tx_def)
  then show ?thesis by (rule erases_skeleton)
qed

theorem search_terms_stay_inside_quotes_witness:
  "(let q = default_query\<lparr>sq_title := Some [34, 32, 79, 82, 32, 42]\<rparr>
    in skeleton (projr (to_lucene q)) = Some (tx ''title:('' @ [34, 34] @ tx '') AND mediatype:texts''))"
proof -
  let ?q = "default_query\<lparr>sq_title := Some [34, 32, 79, 82, 32, 42]\<rparr>"
  have trim: "trimmed (Some [34, 32, 79, 82, 32, 42]) = Some [34, 32, 79, 82, 32, 42]"
    by (simp add: trimmed_def opt_filter_def trim_def trim_by_def trim_end_by_def
        trim_start_by_def is_whitespace_def)
  have t: "to_lucene ?q = Inr (projr (to_lucene ?q))"
    by (simp add: to_lucene_def default_query_def date_clause_def literal_clauses_def trim
        option_list_def trimmed_def [of None] opt_filter_def)
  have "join (tx '' AND '') (query_shape ?q) = tx ''title:('' @ [34, 34] @ tx '') AND mediatype:texts''"
    by (simp add: query_shape_def default_query_def field_shape_def date_clause_def trim
        option_list_def trimmed_def [of None] opt_filter_def tx_def)
  with search_terms_stay_inside_quotes [OF t] show ?thesis by simp
qed

text \<open>
  A quoted term is read back as typed. A reader of Lucene phrases that starts at the quoted
  form of any text returns that text and stops exactly at its end, whatever follows.
\<close>

theorem quoted_term_is_read_back: "unquote (quote s @ rest) = Some (s, rest)"
  by (simp add: unquote_def quote_escape phrase_escape)


end
