(* ===== verification/IaPolicy.thy ===== *)
theory IaPolicy
  imports IaSearch
begin

unbundle bit_operations_syntax

text \<open>
  What may be fetched: the policy of URLs and addresses (\<open>crates/internet-archive/src/policy.rs\<close>)
  and the resolution of user input to an identifier (\<open>resolve.rs\<close>). The \<open>url\<close> crate is library
  code: a parsed URL is the record of what its accessors answer, and \<open>Url::parse\<close> is the
  parameter \<open>parse\<close>. An IPv4 address is its four octets, an IPv6 address its eight segments.

  The theorems compare the code with independent descriptions: the labels of the host name, and
  the reserved blocks written as prefixes of the address value.
\<close>

section \<open>URLs\<close>

datatype host_kind = HostDomain | HostIpv4 | HostIpv6

record url =
  url_scheme :: str
  url_username :: str
  url_password :: "str option"
  url_host :: "(host_kind \<times> str) option"
  url_port :: "nat option"
  url_known_default_port :: "nat option"
  url_segments :: "str list option"

text \<open>\<open>Url::host_str\<close> and \<open>Url::port_or_known_default\<close>.\<close>

definition url_host_str :: "url \<Rightarrow> str option" where
  "url_host_str u = map_option snd (url_host u)"

definition port_or_known_default :: "url \<Rightarrow> nat option" where
  "port_or_known_default u = opt_or (url_port u) (url_known_default_port u)"

record fetch_policy =
  allow_http_loopback :: bool

definition production :: fetch_policy where
  "production = \<lparr>allow_http_loopback = False\<rparr>"

definition check_url :: "fetch_policy \<Rightarrow> url \<Rightarrow> ia_error + unit" where
  "check_url policy url =
     (if url_username url \<noteq> [] \<or> url_password url \<noteq> None then Inl Blocked
      else case url_host_str url of
        None \<Rightarrow> Inl Blocked
      | Some host \<Rightarrow>
          (let host_lc = to_ascii_lowercase host in
           if allow_http_loopback policy \<and> host_lc = tx ''127.0.0.1'' \<and> url_scheme url = tx ''http''
           then Inr ()
           else if url_scheme url \<noteq> tx ''https'' then Inl Blocked
           else if map_option fst (url_host url) \<noteq> Some HostDomain then Inl Blocked
           else if \<not> (host_lc = tx ''archive.org''
              \<or> ends_with (tx ''.archive.org'') host_lc
                \<and> utf8_len (tx ''.archive.org'') < utf8_len host_lc
                \<and> \<not> starts_with (tx ''.'') host_lc \<and> \<not> contains_text (tx ''..'') host_lc)
           then Inl Blocked
           else if unwrap_or 443 (port_or_known_default url) \<noteq> 443 then Inl Blocked
           else Inr ()))"

section \<open>Addresses\<close>

datatype ip_addr = V4 nat nat nat nat | V6 nat nat nat nat nat nat nat nat

fun is_public_v4 :: "nat \<Rightarrow> nat \<Rightarrow> nat \<Rightarrow> nat \<Rightarrow> bool" where
  "is_public_v4 a b c d =
     (if a = 0 then False
      else if a = 10 then False
      else if a = 100 \<and> 64 \<le> b \<and> b \<le> 127 then False
      else if a = 127 then False
      else if a = 169 \<and> b = 254 then False
      else if a = 172 \<and> 16 \<le> b \<and> b \<le> 31 then False
      else if a = 192 \<and> b = 0 \<and> c = 0 then False
      else if a = 192 \<and> b = 0 \<and> c = 2 then False
      else if a = 192 \<and> b = 168 then False
      else if a = 198 \<and> (b = 18 \<or> b = 19) then False
      else if a = 198 \<and> b = 51 \<and> c = 100 then False
      else if a = 203 \<and> b = 0 \<and> c = 113 then False
      else if a \<ge> 224 then False
      else if a = 255 \<and> b = 255 \<and> c = 255 \<and> d = 255 then False
      else True)"

text \<open>\<open>Ipv4Addr::new\<close> of two segments: the high and the low byte of each.\<close>

definition public_embedded :: "nat \<Rightarrow> nat \<Rightarrow> bool" where
  "public_embedded hi lo = is_public_v4 (hi div 256) (hi mod 256) (lo div 256) (lo mod 256)"

fun is_public_v6 :: "nat \<Rightarrow> nat \<Rightarrow> nat \<Rightarrow> nat \<Rightarrow> nat \<Rightarrow> nat \<Rightarrow> nat \<Rightarrow> nat \<Rightarrow> bool" where
  "is_public_v6 s0 s1 s2 s3 s4 s5 s6 s7 =
     (if s0 = 0 \<and> s1 = 0 \<and> s2 = 0 \<and> s3 = 0 \<and> s4 = 0 \<and> (s5 = 0 \<or> s5 = 0xffff)
      then public_embedded s6 s7
      else if s0 = 0 \<and> s1 = 0 \<and> s2 = 0 \<and> s3 = 0 \<and> s4 = 0 \<and> s5 = 0xffff then public_embedded s6 s7
      else if s0 = 0 \<and> s1 = 0 \<and> s2 = 0 \<and> s3 = 0 \<and> s4 = 0 \<and> s5 = 0 \<and> s6 = 0 \<and> (s7 = 0 \<or> s7 = 1)
      then False
      else if s0 AND 0xfe00 = 0xfc00 then False
      else if s0 AND 0xffc0 = 0xfe80 then False
      else if s0 AND 0xff00 = 0xff00 then False
      else if s0 = 0x2001 \<and> s1 = 0x0db8 then False
      else if s0 = 0x64 \<and> s1 = 0xff9b \<and> s2 = 0 \<and> s3 = 0 \<and> s4 = 0 \<and> s5 = 0
      then public_embedded s6 s7
      else if s0 = 0x2002 then public_embedded s1 s2
      else True)"

fun is_public_ip :: "ip_addr \<Rightarrow> bool" where
  "is_public_ip (V4 a b c d) = is_public_v4 a b c d"
| "is_public_ip (V6 s0 s1 s2 s3 s4 s5 s6 s7) = is_public_v6 s0 s1 s2 s3 s4 s5 s6 s7"

fun is_loopback :: "ip_addr \<Rightarrow> bool" where
  "is_loopback (V4 a _ _ _) = (a = 127)"
| "is_loopback (V6 s0 s1 s2 s3 s4 s5 s6 s7) =
     (s0 = 0 \<and> s1 = 0 \<and> s2 = 0 \<and> s3 = 0 \<and> s4 = 0 \<and> s5 = 0 \<and> s6 = 0 \<and> s7 = 1)"

definition ensure_addr_allowed :: "fetch_policy \<Rightarrow> ip_addr \<Rightarrow> ia_error + unit" where
  "ensure_addr_allowed policy ip =
     (if is_public_ip ip then Inr ()
      else if allow_http_loopback policy \<and> is_loopback ip then Inr ()
      else Inl Blocked)"

section \<open>Resolving user input\<close>

definition hex_value :: "nat \<Rightarrow> nat option" where
  "hex_value c =
     (if is_ascii_digit c then Some (c - 48)
      else if 65 \<le> c \<and> c \<le> 70 then Some (c - 55)
      else if 97 \<le> c \<and> c \<le> 102 then Some (c - 87)
      else None)"

text \<open>\<open>u8::from_str_radix(s, 16)\<close> on a text of two characters; it takes a leading plus sign.\<close>

definition hex_byte :: "nat \<Rightarrow> nat \<Rightarrow> nat option" where
  "hex_byte c d =
     (if c = 43 then hex_value d
      else case (hex_value c, hex_value d) of (Some x, Some y) \<Rightarrow> Some (16 * x + y) | _ \<Rightarrow> None)"

text \<open>The loop over the bytes of a path segment.\<close>

fun decode_bytes :: "nat list \<Rightarrow> nat list option" where
  "decode_bytes [] = Some []"
| "decode_bytes (b # bs) =
     (if b = 37 then
        (case bs of
           c # d # rest \<Rightarrow>
             (case hex_byte c d of
                None \<Rightarrow> None
              | Some byte \<Rightarrow> map_option ((#) byte) (decode_bytes rest))
         | _ \<Rightarrow> None)
      else map_option ((#) b) (decode_bytes bs))"

definition percent_decode_once ::
  "(str \<Rightarrow> nat list) \<Rightarrow> (nat list \<Rightarrow> str option) \<Rightarrow> str \<Rightarrow> str option" where
  "percent_decode_once as_bytes from_utf8 raw = Option.bind (decode_bytes (as_bytes raw)) from_utf8"

definition identifier_segment :: "str list \<Rightarrow> str option" where
  "identifier_segment segments =
     (case segments of
        kind # raw # _ \<Rightarrow>
          if (kind = tx ''details'' \<or> kind = tx ''download'') \<and> raw \<noteq> [] then Some raw else None
      | _ \<Rightarrow> None)"

definition resolve_identifier ::
  "(str \<Rightarrow> nat list) \<Rightarrow> (nat list \<Rightarrow> str option) \<Rightarrow> (str \<Rightarrow> url option) \<Rightarrow> str \<Rightarrow> ia_error + str" where
  "resolve_identifier as_bytes from_utf8 parse input =
     (let trimmed = trim input in
      if trimmed = [] then Inl InvalidQuery
      else if is_valid_identifier trimmed then Inr trimmed
      else case parse trimmed of
        None \<Rightarrow> Inl InvalidQuery
      | Some url \<Rightarrow>
          if \<not> (url_scheme url = tx ''http'' \<or> url_scheme url = tx ''https'') then Inl InvalidQuery
          else if url_username url \<noteq> [] \<or> url_password url \<noteq> None then Inl InvalidQuery
          else if url_port url \<noteq> None then Inl InvalidQuery
          else if \<not> (url_host_str url = Some (tx ''archive.org'')
            \<or> url_host_str url = Some (tx ''www.archive.org'')) then Inl InvalidQuery
          else (case identifier_segment (unwrap_or [] (url_segments url)) of
            None \<Rightarrow> Inl InvalidQuery
          | Some raw \<Rightarrow>
              (case percent_decode_once as_bytes from_utf8 raw of
                 None \<Rightarrow> Inl InvalidQuery
               | Some name \<Rightarrow>
                   if is_valid_identifier name then Inr name else Inl InvalidQuery)))"

section \<open>Blocks of addresses\<close>

text \<open>
  An IPv4 address as a number, and the reserved blocks as a prefix and its length: the
  addresses whose first bits are those of the prefix.
\<close>

definition v4_value :: "nat \<Rightarrow> nat \<Rightarrow> nat \<Rightarrow> nat \<Rightarrow> nat" where
  "v4_value a b c d = a * 2 ^ 24 + b * 2 ^ 16 + c * 2 ^ 8 + d"

definition in_block :: "nat \<Rightarrow> nat \<Rightarrow> nat \<times> nat \<Rightarrow> bool" where
  "in_block width n = (\<lambda>(prefix, len). n div 2 ^ (width - len) = prefix div 2 ^ (width - len))"

definition v4_reserved :: "(nat \<times> nat) list" where
  "v4_reserved =
     [(v4_value 0 0 0 0, 8), (v4_value 10 0 0 0, 8), (v4_value 100 64 0 0, 10),
      (v4_value 127 0 0 0, 8), (v4_value 169 254 0 0, 16), (v4_value 172 16 0 0, 12),
      (v4_value 192 0 0 0, 24), (v4_value 192 0 2 0, 24), (v4_value 192 168 0 0, 16),
      (v4_value 198 18 0 0, 15), (v4_value 198 51 100 0, 24), (v4_value 203 0 113 0, 24),
      (v4_value 224 0 0 0, 4), (v4_value 240 0 0 0, 4)]"

lemma v4_value_div:
  assumes "a < 256" "b < 256" "c < 256" "d < 256"
  shows "v4_value a b c d div 2 ^ 28 = a div 16" "v4_value a b c d div 2 ^ 24 = a"
    "v4_value a b c d div 2 ^ 22 = a * 4 + b div 64"
    "v4_value a b c d div 2 ^ 20 = a * 16 + b div 16"
    "v4_value a b c d div 2 ^ 17 = a * 128 + b div 2"
    "v4_value a b c d div 2 ^ 16 = a * 256 + b"
    "v4_value a b c d div 2 ^ 8 = a * 65536 + b * 256 + c"
  using assms by (simp_all add: v4_value_def)

lemma split_eq_iff:
  fixes a :: nat
  assumes "q < n" "Q < n"
  shows "a * n + q = A * n + Q \<longleftrightarrow> a = A \<and> q = Q"
proof
  assume e: "a * n + q = A * n + Q"
  have "(a * n + q) div n = a" "(A * n + Q) div n = A" using assms by auto
  with e have "a = A" by simp
  with e show "a = A \<and> q = Q" by simp
qed simp

text \<open>Membership in a block of each length used, octet by octet.\<close>

lemma in_block_div:
  "w = width - len \<Longrightarrow> in_block width n (p, len) \<longleftrightarrow> n div 2 ^ w = p div 2 ^ w"
  by (simp add: in_block_def)

lemma in_v4_block:
  assumes "a < 256" "b < 256" "c < 256" "d < 256" "A < 256" "B < 256" "C < 256" "D < 256"
  shows "in_block 32 (v4_value a b c d) (v4_value A B C D, 4) \<longleftrightarrow> a div 16 = A div 16"
    "in_block 32 (v4_value a b c d) (v4_value A B C D, 8) \<longleftrightarrow> a = A"
    "in_block 32 (v4_value a b c d) (v4_value A B C D, 10) \<longleftrightarrow> a = A \<and> b div 64 = B div 64"
    "in_block 32 (v4_value a b c d) (v4_value A B C D, 12) \<longleftrightarrow> a = A \<and> b div 16 = B div 16"
    "in_block 32 (v4_value a b c d) (v4_value A B C D, 15) \<longleftrightarrow> a = A \<and> b div 2 = B div 2"
    "in_block 32 (v4_value a b c d) (v4_value A B C D, 16) \<longleftrightarrow> a = A \<and> b = B"
    "in_block 32 (v4_value a b c d) (v4_value A B C D, 24) \<longleftrightarrow> a = A \<and> b = B \<and> c = C"
proof -
  note small = v4_value_div [OF assms(1-4)] v4_value_div [OF assms(5-8)]
  have q: "b div 64 < 4" "B div 64 < 4" "b div 16 < 16" "B div 16 < 16" "b div 2 < 128" "B div 2 < 128"
    using assms by simp_all
  have ab: "a * 256 + b = A * 256 + B \<longleftrightarrow> a = A \<and> b = B"
    using assms by (simp only: split_eq_iff)
  have "a * 65536 + (b * 256 + c) = A * 65536 + (B * 256 + C) \<longleftrightarrow> a = A \<and> b = B \<and> c = C"
  proof -
    have "b * 256 + c < 65536" "B * 256 + C < 65536" using assms by simp_all
    then show ?thesis using assms by (simp only: split_eq_iff)
  qed
  then have abc: "a * 65536 + b * 256 + c = A * 65536 + B * 256 + C \<longleftrightarrow> a = A \<and> b = B \<and> c = C"
    by (simp only: add.assoc)
  show "in_block 32 (v4_value a b c d) (v4_value A B C D, 4) \<longleftrightarrow> a div 16 = A div 16"
    by (subst in_block_div [of 28]) (simp, simp only: small)
  show "in_block 32 (v4_value a b c d) (v4_value A B C D, 8) \<longleftrightarrow> a = A"
    by (subst in_block_div [of 24]) (simp, simp only: small)
  show "in_block 32 (v4_value a b c d) (v4_value A B C D, 10) \<longleftrightarrow> a = A \<and> b div 64 = B div 64"
    by (subst in_block_div [of 22]) (simp, simp only: small split_eq_iff [OF q(1,2)])
  show "in_block 32 (v4_value a b c d) (v4_value A B C D, 12) \<longleftrightarrow> a = A \<and> b div 16 = B div 16"
    by (subst in_block_div [of 20]) (simp, simp only: small split_eq_iff [OF q(3,4)])
  show "in_block 32 (v4_value a b c d) (v4_value A B C D, 15) \<longleftrightarrow> a = A \<and> b div 2 = B div 2"
    by (subst in_block_div [of 17]) (simp, simp only: small split_eq_iff [OF q(5,6)])
  show "in_block 32 (v4_value a b c d) (v4_value A B C D, 16) \<longleftrightarrow> a = A \<and> b = B"
    by (subst in_block_div [of 16]) (simp, simp only: small ab)
  show "in_block 32 (v4_value a b c d) (v4_value A B C D, 24) \<longleftrightarrow> a = A \<and> b = B \<and> c = C"
    by (subst in_block_div [of 8]) (simp, simp only: small abc)
qed

lemma is_public_v4_iff:
  "is_public_v4 a b c d \<longleftrightarrow>
     \<not> (a = 0 \<or> a = 10 \<or> (a = 100 \<and> 64 \<le> b \<and> b \<le> 127) \<or> a = 127 \<or> (a = 169 \<and> b = 254)
        \<or> (a = 172 \<and> 16 \<le> b \<and> b \<le> 31) \<or> (a = 192 \<and> b = 0 \<and> c = 0)
        \<or> (a = 192 \<and> b = 0 \<and> c = 2) \<or> (a = 192 \<and> b = 168)
        \<or> (a = 198 \<and> (b = 18 \<or> b = 19)) \<or> (a = 198 \<and> b = 51 \<and> c = 100)
        \<or> (a = 203 \<and> b = 0 \<and> c = 113) \<or> a \<ge> 224)"
  by auto

declare is_public_v4.simps [simp del]

lemma public_v4_by_blocks:
  assumes "a < 256" and "b < 256" and "c < 256" and "d < 256"
  shows "is_public_v4 a b c d \<longleftrightarrow> \<not> list_ex (in_block 32 (v4_value a b c d)) v4_reserved"
proof -
  have "64 \<le> b \<and> b \<le> 127 \<longleftrightarrow> b div 64 = 1" "16 \<le> b \<and> b \<le> 31 \<longleftrightarrow> b div 16 = 1"
    "b = 18 \<or> b = 19 \<longleftrightarrow> b div 2 = 9" "a \<ge> 224 \<longleftrightarrow> a div 16 = 14 \<or> a div 16 = 15"
    using assms by auto
  then show ?thesis
    by (simp add: is_public_v4_iff v4_reserved_def in_v4_block [OF assms])
qed

text \<open>
  The address filter is the list of reserved blocks. An IPv4 address counts as public
  exactly when it lies in none of the fourteen blocks (this network, private networks, carrier
  NAT, loopback, link-local, documentation, benchmarking, multicast and reserved), each taken as
  a prefix of the 32-bit value of the address.
\<close>

theorem public_v4_is_outside_reserved_blocks:
  assumes "a < 256" and "b < 256" and "c < 256" and "d < 256"
  shows "is_public_v4 a b c d \<longleftrightarrow> \<not> list_ex (in_block 32 (v4_value a b c d)) v4_reserved"
  by (rule public_v4_by_blocks [OF assms])

theorem public_v4_is_outside_reserved_blocks_witness:
  "is_public_v4 172 31 0 1 \<longleftrightarrow> \<not> list_ex (in_block 32 (v4_value 172 31 0 1)) v4_reserved"
  by (rule public_v4_is_outside_reserved_blocks) simp_all

definition public_value :: "nat \<Rightarrow> bool" where
  "public_value n \<longleftrightarrow> \<not> list_ex (in_block 32 n) v4_reserved"

lemma public_embedded_value:
  assumes "hi < 65536" "lo < 65536"
  shows "public_embedded hi lo \<longleftrightarrow> public_value (hi * 65536 + lo)"
proof -
  have "v4_value a b c d = (a * 256 + b) * 65536 + (c * 256 + d)" for a b c d
    by (simp add: v4_value_def)
  then have "v4_value (hi div 256) (hi mod 256) (lo div 256) (lo mod 256) =
      (hi div 256 * 256 + hi mod 256) * 65536 + (lo div 256 * 256 + lo mod 256)" .
  also have "\<dots> = hi * 65536 + lo" by (simp only: div_mult_mod_eq)
  finally have v: "v4_value (hi div 256) (hi mod 256) (lo div 256) (lo mod 256) = hi * 65536 + lo" .
  have "hi div 256 < 256" "hi mod 256 < 256" "lo div 256 < 256" "lo mod 256 < 256"
    using assms by auto
  from public_v4_by_blocks [OF this] show ?thesis
    by (simp only: public_embedded_def public_value_def v)
qed

text \<open>An IPv6 address as a number, by Horner's rule over its segments.\<close>

definition v6_value :: "nat \<Rightarrow> nat \<Rightarrow> nat \<Rightarrow> nat \<Rightarrow> nat \<Rightarrow> nat \<Rightarrow> nat \<Rightarrow> nat \<Rightarrow> nat" where
  "v6_value s0 s1 s2 s3 s4 s5 s6 s7 =
     fold (\<lambda>s n. n * 65536 + s) [s1, s2, s3, s4, s5, s6, s7] s0"

definition v6_reserved :: "(nat \<times> nat) list" where
  "v6_reserved =
     [(v6_value 0xfc00 0 0 0 0 0 0 0, 7), (v6_value 0xfe80 0 0 0 0 0 0 0, 10),
      (v6_value 0xff00 0 0 0 0 0 0 0, 8), (v6_value 0x2001 0x0db8 0 0 0 0 0 0, 32)]"

text \<open>The blocks that carry an IPv4 address in their last 32 bits, and 6to4.\<close>

definition v6_embedding :: "(nat \<times> nat) list" where
  "v6_embedding =
     [(v6_value 0 0 0 0 0 0 0 0, 96), (v6_value 0 0 0 0 0 0xffff 0 0, 96),
      (v6_value 0x64 0xff9b 0 0 0 0 0 0, 96)]"

definition six_to_four :: "nat \<times> nat" where
  "six_to_four = (v6_value 0x2002 0 0 0 0 0 0 0, 16)"

lemma horner_div: "s < 65536 \<Longrightarrow> (n * 65536 + s) div 2 ^ (16 + k) = n div 2 ^ k" for n s :: nat
  by (simp add: power_add div_mult2_eq)

lemma v6_value_div:
  assumes "s1 < 65536" "s2 < 65536" "s3 < 65536" "s4 < 65536" "s5 < 65536" "s6 < 65536" "s7 < 65536"
  shows "v6_value s0 s1 s2 s3 s4 s5 s6 s7 div 2 ^ (112 + k) = s0 div 2 ^ k"
    "v6_value s0 s1 s2 s3 s4 s5 s6 s7 div 2 ^ 96 = s0 * 65536 + s1"
    "v6_value s0 s1 s2 s3 s4 s5 s6 s7 div 2 ^ 80 = (s0 * 65536 + s1) * 65536 + s2"
    "v6_value s0 s1 s2 s3 s4 s5 s6 s7 div 2 ^ 32 =
       ((((s0 * 65536 + s1) * 65536 + s2) * 65536 + s3) * 65536 + s4) * 65536 + s5"
    "v6_value s0 s1 s2 s3 s4 s5 s6 s7 mod 2 ^ 32 = s6 * 65536 + s7"
proof -
  let ?n2 = "(s0 * 65536 + s1) * 65536 + s2"
  let ?n5 = "((?n2 * 65536 + s3) * 65536 + s4) * 65536 + s5"
  have v: "v6_value s0 s1 s2 s3 s4 s5 s6 s7 = (?n5 * 65536 + s6) * 65536 + s7"
    by (simp add: v6_value_def)
  have d: "v6_value s0 s1 s2 s3 s4 s5 s6 s7 div 2 ^ (16 + (16 + j)) = ?n5 div 2 ^ j" for j
    unfolding v by (simp only: horner_div assms)
  have e: "?n5 div 2 ^ (16 + (16 + (16 + j))) = ?n2 div 2 ^ j" for j
    by (simp only: horner_div assms)
  have f: "?n2 div 2 ^ (16 + (16 + j)) = s0 div 2 ^ j" for j
    by (simp only: horner_div assms)
  show "v6_value s0 s1 s2 s3 s4 s5 s6 s7 div 2 ^ 32 = ?n5" using d [of 0] by simp
  show "v6_value s0 s1 s2 s3 s4 s5 s6 s7 div 2 ^ 80 = ?n2" using d [of 48] e [of 0] by simp
  have "?n2 div 2 ^ (16 + 0) = s0 * 65536 + s1" by (simp only: horner_div assms) simp
  then show "v6_value s0 s1 s2 s3 s4 s5 s6 s7 div 2 ^ 96 = s0 * 65536 + s1"
    using d [of 64] e [of 16] by simp
  show "v6_value s0 s1 s2 s3 s4 s5 s6 s7 div 2 ^ (112 + k) = s0 div 2 ^ k"
    using d [of "80 + k"] e [of "32 + k"] f [of k] by (simp add: add.assoc)
  have "s6 * 65536 + s7 < 2 ^ 32" using assms by simp
  moreover have "v6_value s0 s1 s2 s3 s4 s5 s6 s7 = ?n5 * 2 ^ 32 + (s6 * 65536 + s7)"
    unfolding v by (simp add: algebra_simps)
  ultimately show "v6_value s0 s1 s2 s3 s4 s5 s6 s7 mod 2 ^ 32 = s6 * 65536 + s7"
    by (simp only: mod_mult_self3 mod_less)
qed

lemma and_high_mask:
  fixes s :: nat
  assumes "s < 2 ^ (k + m)"
  shows "s AND push_bit k (mask m) = s div 2 ^ k * 2 ^ k"
proof -
  have t: "take_bit (k + m) s = s" using assms by (simp add: take_bit_nat_eq_self_iff)
  have "take_bit (k + m) s AND push_bit k (mask m) = push_bit k (drop_bit k (take_bit (k + m) s))"
    by (rule bit_eqI) (auto simp: bit_simps)
  with t show ?thesis by (simp add: push_bit_eq_mult drop_bit_eq_div)
qed

lemma segment_masks:
  assumes "s < (65536 :: nat)"
  shows "s AND 0xfe00 = 0xfc00 \<longleftrightarrow> s div 512 = 126"
    "s AND 0xffc0 = 0xfe80 \<longleftrightarrow> s div 64 = 1018"
    "s AND 0xff00 = 0xff00 \<longleftrightarrow> s div 256 = 255"
  using and_high_mask [of s 9 7] and_high_mask [of s 6 10] and_high_mask [of s 8 8] assms
  by (auto simp: mask_eq_exp_minus_1 push_bit_eq_mult)

lemma in_v6_block:
  assumes "s1 < 65536" "s2 < 65536" "s3 < 65536" "s4 < 65536" "s5 < 65536" "s6 < 65536" "s7 < 65536"
  shows "in_block 128 (v6_value s0 s1 s2 s3 s4 s5 s6 s7) (v6_value p0 0 0 0 0 0 0 0, 7) \<longleftrightarrow>
       s0 div 512 = p0 div 512"
    "in_block 128 (v6_value s0 s1 s2 s3 s4 s5 s6 s7) (v6_value p0 0 0 0 0 0 0 0, 10) \<longleftrightarrow>
       s0 div 64 = p0 div 64"
    "in_block 128 (v6_value s0 s1 s2 s3 s4 s5 s6 s7) (v6_value p0 0 0 0 0 0 0 0, 8) \<longleftrightarrow>
       s0 div 256 = p0 div 256"
    "in_block 128 (v6_value s0 s1 s2 s3 s4 s5 s6 s7) (v6_value p0 0 0 0 0 0 0 0, 16) \<longleftrightarrow> s0 = p0"
    "p1 < 65536 \<Longrightarrow>
     in_block 128 (v6_value s0 s1 s2 s3 s4 s5 s6 s7) (v6_value p0 p1 0 0 0 0 0 0, 32) \<longleftrightarrow>
       s0 = p0 \<and> s1 = p1"
    "p1 < 65536 \<Longrightarrow> p5 < 65536 \<Longrightarrow>
     in_block 128 (v6_value s0 s1 s2 s3 s4 s5 s6 s7) (v6_value p0 p1 0 0 0 p5 0 0, 96) \<longleftrightarrow>
       s0 = p0 \<and> s1 = p1 \<and> s2 = 0 \<and> s3 = 0 \<and> s4 = 0 \<and> s5 = p5"
proof -
  note n = v6_value_div [OF assms]
  note z = v6_value_div [of _ 0 0 0 0 0 0, simplified]
  have k: "112 + 9 = (121 :: nat)" "112 + 6 = (118 :: nat)" "112 + 8 = (120 :: nat)" by simp_all
  show "in_block 128 (v6_value s0 s1 s2 s3 s4 s5 s6 s7) (v6_value p0 0 0 0 0 0 0 0, 7) \<longleftrightarrow>
       s0 div 512 = p0 div 512"
    using n(1) [of s0 9] v6_value_div(1) [of 0 0 0 0 0 0 0 p0 9]
    by (subst in_block_div [of 121]) (simp, simp only: k, simp)
  show "in_block 128 (v6_value s0 s1 s2 s3 s4 s5 s6 s7) (v6_value p0 0 0 0 0 0 0 0, 10) \<longleftrightarrow>
       s0 div 64 = p0 div 64"
    using n(1) [of s0 6] v6_value_div(1) [of 0 0 0 0 0 0 0 p0 6]
    by (subst in_block_div [of 118]) (simp, simp only: k, simp)
  show "in_block 128 (v6_value s0 s1 s2 s3 s4 s5 s6 s7) (v6_value p0 0 0 0 0 0 0 0, 8) \<longleftrightarrow>
       s0 div 256 = p0 div 256"
    using n(1) [of s0 8] v6_value_div(1) [of 0 0 0 0 0 0 0 p0 8]
    by (subst in_block_div [of 120]) (simp, simp only: k, simp)
  show "in_block 128 (v6_value s0 s1 s2 s3 s4 s5 s6 s7) (v6_value p0 0 0 0 0 0 0 0, 16) \<longleftrightarrow> s0 = p0"
    using n(1) [of s0 0] v6_value_div(1) [of 0 0 0 0 0 0 0 p0 0]
    by (subst in_block_div [of 112]) (simp, simp)
  show "in_block 128 (v6_value s0 s1 s2 s3 s4 s5 s6 s7) (v6_value p0 p1 0 0 0 0 0 0, 32) \<longleftrightarrow>
       s0 = p0 \<and> s1 = p1" if "p1 < 65536"
  proof -
    have "v6_value p0 p1 0 0 0 0 0 0 div 2 ^ 96 = p0 * 65536 + p1"
      using that by (intro v6_value_div(2)) simp_all
    with n(2) [of s0] that assms(1) show ?thesis
      by (subst in_block_div [of 96]) (simp, simp only: split_eq_iff)
  qed
  show "in_block 128 (v6_value s0 s1 s2 s3 s4 s5 s6 s7) (v6_value p0 p1 0 0 0 p5 0 0, 96) \<longleftrightarrow>
       s0 = p0 \<and> s1 = p1 \<and> s2 = 0 \<and> s3 = 0 \<and> s4 = 0 \<and> s5 = p5" if "p1 < 65536" "p5 < 65536"
  proof -
    have p: "v6_value p0 p1 0 0 0 p5 0 0 div 2 ^ 32 =
        ((((p0 * 65536 + p1) * 65536 + 0) * 65536 + 0) * 65536 + 0) * 65536 + p5"
      using that by (intro v6_value_div(4)) simp_all
    have "(0::nat) < 65536" by simp
    with p n(4) [of s0] that assms(1-5) show ?thesis
      by (subst in_block_div [of 32]) (simp, simp only: split_eq_iff conj_assoc)
  qed
qed

text \<open>
  An IPv6 address is judged by the IPv4 address it carries, or by the reserved blocks. An
  address of an IPv4-compatible, IPv4-mapped or NAT64 block is public exactly when its last 32
  bits are a public IPv4 address, a 6to4 address when the 32 bits after its prefix are, and any
  other address when it lies in no unique-local, link-local, multicast or documentation block.
\<close>

theorem public_v6_judges_embedded_address:
  assumes "s0 < 65536" "s1 < 65536" "s2 < 65536" "s3 < 65536"
    and "s4 < 65536" "s5 < 65536" "s6 < 65536" "s7 < 65536"
  shows "is_public_v6 s0 s1 s2 s3 s4 s5 s6 s7 \<longleftrightarrow>
    (let n = v6_value s0 s1 s2 s3 s4 s5 s6 s7 in
     if list_ex (in_block 128 n) v6_embedding then public_value (n mod 2 ^ 32)
     else if in_block 128 n six_to_four then public_value (n div 2 ^ 80 mod 2 ^ 32)
     else \<not> list_ex (in_block 128 n) v6_reserved)"
proof -
  note blocks = in_v6_block [OF assms(2-8)]
  have low: "v6_value s0 s1 s2 s3 s4 s5 s6 s7 mod 2 ^ 32 = s6 * 65536 + s7"
    using v6_value_div [OF assms(2-8)] by simp
  have "s1 * 65536 + s2 < 4294967296" using assms by simp
  then have "((s0 * 65536 + s1) * 65536 + s2) mod 2 ^ 32 = s1 * 65536 + s2"
    using mod_mult_self3 [of s0 4294967296 "s1 * 65536 + s2"] by (simp add: algebra_simps)
  then have mid: "v6_value s0 s1 s2 s3 s4 s5 s6 s7 div 2 ^ 80 mod 2 ^ 32 = s1 * 65536 + s2"
    using v6_value_div(3) [OF assms(2-8)] by simp
  have embedding: "list_ex (in_block 128 (v6_value s0 s1 s2 s3 s4 s5 s6 s7)) v6_embedding \<longleftrightarrow>
      (s0 = 0 \<and> s1 = 0 \<and> s2 = 0 \<and> s3 = 0 \<and> s4 = 0 \<and> (s5 = 0 \<or> s5 = 0xffff)) \<or>
      (s0 = 0x64 \<and> s1 = 0xff9b \<and> s2 = 0 \<and> s3 = 0 \<and> s4 = 0 \<and> s5 = 0)"
    by (simp add: v6_embedding_def blocks) blast
  have reserved: "list_ex (in_block 128 (v6_value s0 s1 s2 s3 s4 s5 s6 s7)) v6_reserved \<longleftrightarrow>
      s0 div 512 = 126 \<or> s0 div 64 = 1018 \<or> s0 div 256 = 255 \<or> s0 = 0x2001 \<and> s1 = 0x0db8"
    by (simp add: v6_reserved_def blocks)
  show ?thesis
    unfolding Let_def low mid embedding reserved
    using public_embedded_value [OF assms(7,8)] public_embedded_value [OF assms(2,3)] assms(1)
    by (auto simp: six_to_four_def blocks segment_masks)
qed

theorem public_v6_judges_embedded_address_witness:
  "is_public_v6 0x2002 0x0a00 1 0 0 0 0 1 \<longleftrightarrow>
    (let n = v6_value 0x2002 0x0a00 1 0 0 0 0 1 in
     if list_ex (in_block 128 n) v6_embedding then public_value (n mod 2 ^ 32)
     else if in_block 128 n six_to_four then public_value (n div 2 ^ 80 mod 2 ^ 32)
     else \<not> list_ex (in_block 128 n) v6_reserved)"
  by (rule public_v6_judges_embedded_address) simp_all

section \<open>The labels of a host name\<close>

lemma Nil_eq_tx [simp]: "[] = tx s \<longleftrightarrow> s = []"
  by (metis tx_eq_Nil)

definition labels :: "str \<Rightarrow> str list" where
  "labels = split_on (\<lambda>c. c = 46)"

lemma split_on_append:
  "p d \<Longrightarrow> split_on p (xs @ d # ys) = split_on p xs @ split_on p ys"
  by (induction xs) (auto split: list.split)

lemma labels_append: "labels (xs @ 46 # ys) = labels xs @ labels ys"
  by (simp add: labels_def split_on_append)

lemma join_labels: "join [46] (labels h) = h"
  unfolding labels_def
proof (induction h)
  case (Cons c h)
  obtain w ws where "split_on (\<lambda>c. c = 46) h = w # ws"
    by (meson neq_Nil_conv split_on_not_Nil)
  with Cons show ?case by (cases ws) auto
qed simp

lemma contains_Cons:
  "contains_text [46, 46] (c # h) \<longleftrightarrow> c = 46 \<and> h \<noteq> [] \<and> hd h = 46 \<or> contains_text [46, 46] h"
  by (cases h) (auto simp: starts_with_def)

lemmas contains_dots = contains_Cons contains_text.simps(1)

lemma hd_labels_Nil: "hd (labels h) = [] \<longleftrightarrow> h = [] \<or> hd h = 46"
  by (cases h) (auto simp: labels_def split: list.splits)

lemma labels_Cons:
  "labels (c # h) = (if c = 46 then [] # labels h else (c # hd (labels h)) # tl (labels h))"
  by (auto simp: labels_def split: list.split)

lemma labels_not_Nil [simp]: "labels h \<noteq> []"
  by (simp add: labels_def)

lemma member_labels: "w \<in> set (labels h) \<longleftrightarrow> w = hd (labels h) \<or> w \<in> set (tl (labels h))"
  by (cases "labels h") simp_all

lemma empty_label_iff:
  "[] \<in> set (labels h) \<longleftrightarrow> h = [] \<or> hd h = 46 \<or> last h = 46 \<or> contains_text [46, 46] h"
proof -
  have tl: "[] \<in> set (tl (labels h)) \<longleftrightarrow> h \<noteq> [] \<and> last h = 46 \<or> contains_text [46, 46] h" for h
  proof (induction h)
    case Nil
    then show ?case by (simp add: labels_def)
  next
    case (Cons c h)
    show ?case
    proof (cases "h = []")
      case True
      then show ?thesis by (auto simp: labels_def starts_with_def)
    next
      case False
      have m: "[] \<in> set (labels h) \<longleftrightarrow> h = [] \<or> hd h = 46 \<or> [] \<in> set (tl (labels h))"
        by (metis member_labels hd_labels_Nil)
      have "last (c # h) = last h" "c # h \<noteq> []"
        and "[] \<in> set (tl (labels (c # h))) \<longleftrightarrow>
          c = 46 \<and> [] \<in> set (labels h) \<or> c \<noteq> 46 \<and> [] \<in> set (tl (labels h))"
        using False by (simp_all add: labels_Cons)
      with Cons.IH m False show ?thesis unfolding contains_Cons by argo
    qed
  qed
  have "[] \<in> set (labels h) \<longleftrightarrow> (h = [] \<or> hd h = 46) \<or> [] \<in> set (tl (labels h))"
    by (metis member_labels hd_labels_Nil)
  with tl [of h] show ?thesis by argo
qed

text \<open>A name below \<open>archive.org\<close>: no label is empty, and the last two are these.\<close>

definition below_archive_org :: "str \<Rightarrow> bool" where
  "below_archive_org host \<longleftrightarrow>
     [] \<notin> set (labels host) \<and>
     take 2 (rev (labels host)) = [tx ''org'', tx ''archive'']"

lemma labels_archive: "labels (tx ''archive.org'') = [tx ''archive'', tx ''org'']"
  by (simp add: labels_def tx_def)

lemma below_append:
  "below_archive_org (h @ tx ''.archive.org'') \<longleftrightarrow> [] \<notin> set (labels h)"
proof -
  have "h @ tx ''.archive.org'' = h @ 46 # tx ''archive.org''" by (simp add: tx_def)
  then show ?thesis
    by (simp only: below_archive_org_def labels_append labels_archive) simp
qed

lemma below_archive_org_iff:
  "below_archive_org h \<longleftrightarrow> h = tx ''archive.org'' \<or>
     (\<exists>above. h = above @ tx ''.archive.org'' \<and> [] \<notin> set (labels above))"
proof
  assume b: "below_archive_org h"
  then obtain rest where r: "rev (labels h) = tx ''org'' # tx ''archive'' # rest"
    by (cases "rev (labels h)"; cases "tl (rev (labels h))") (auto simp: below_archive_org_def)
  then have l: "labels h = rev rest @ [tx ''archive'', tx ''org'']"
    by (metis (no_types) append_Cons append_Nil append_assoc rev.simps(2) rev_rev_ident)
  show "h = tx ''archive.org'' \<or>
     (\<exists>above. h = above @ tx ''.archive.org'' \<and> [] \<notin> set (labels above))"
  proof (cases "rest = []")
    case True
    with l join_labels [of h] show ?thesis by (simp add: tx_def)
  next
    case False
    have "join [46] (ws @ [tx ''archive'', tx ''org'']) = join [46] ws @ tx ''.archive.org''"
      if "ws \<noteq> []" for ws
      using that by (induction "[46 :: nat]" ws rule: join.induct) (auto simp: tx_def)
    with False l join_labels [of h] have h: "h = join [46] (rev rest) @ tx ''.archive.org''"
      by (metis rev_is_Nil_conv)
    then have "[] \<notin> set (labels (join [46] (rev rest)))"
      using b below_append by blast
    with h show ?thesis by blast
  qed
next
  assume "h = tx ''archive.org'' \<or>
     (\<exists>above. h = above @ tx ''.archive.org'' \<and> [] \<notin> set (labels above))"
  then show "below_archive_org h"
  proof
    assume "h = tx ''archive.org''"
    then show ?thesis by (simp add: below_archive_org_def labels_archive)
  qed (use below_append in blast)
qed

text \<open>The test of the code: a suffix, and no empty label before it.\<close>

lemma host_test_iff:
  "(h = tx ''archive.org'' \<or> ends_with (tx ''.archive.org'') h
      \<and> utf8_len (tx ''.archive.org'') < utf8_len h
      \<and> \<not> starts_with (tx ''.'') h \<and> \<not> contains_text (tx ''..'') h)
   \<longleftrightarrow> below_archive_org h"
proof -
  have "(ends_with (tx ''.archive.org'') h \<and> utf8_len (tx ''.archive.org'') < utf8_len h
      \<and> \<not> starts_with (tx ''.'') h \<and> \<not> contains_text (tx ''..'') h)
    \<longleftrightarrow> (\<exists>above. h = above @ tx ''.archive.org'' \<and> [] \<notin> set (labels above))"
    (is "?test \<longleftrightarrow> ?above")
  proof
    assume t: ?test
    then obtain above where h: "h = above @ tx ''.archive.org''"
      by (metis append_take_drop_id ends_with_def)
    with t have "above \<noteq> []" by (auto simp: utf8_len_def)
    moreover have "hd above \<noteq> 46" using t h \<open>above \<noteq> []\<close>
      by (cases above) (auto simp: starts_with_def tx_def)
    moreover have "\<not> contains_text [46, 46] above \<and> last above \<noteq> 46"
    proof -
      have c: "contains_text [46, 46] (u @ v)" if "contains_text [46, 46] u \<or> u \<noteq> [] \<and> last u = 46 \<and> v \<noteq> [] \<and> hd v = 46" for u v
        using that by (induction u) (auto simp: contains_Cons simp del: contains_text.simps(2) split: if_splits)
      show ?thesis using t h c [of above "tx ''.archive.org''"] \<open>above \<noteq> []\<close> by (auto simp: tx_def)
    qed
    ultimately show ?above using h empty_label_iff by blast
  next
    assume ?above
    then obtain above where h: "h = above @ tx ''.archive.org''" and e: "[] \<notin> set (labels above)"
      by blast
    then have "[] \<notin> set (labels h)"
      using below_append [of above] unfolding below_archive_org_def by blast
    then have n: "h \<noteq> []" "hd h \<noteq> 46" "\<not> contains_text [46, 46] h" using empty_label_iff by blast+
    have "above \<noteq> []" using e empty_label_iff by blast
    then have "0 < utf8_len above" by (cases above) (auto simp: utf8_len_def utf8_width_def)
    then have "utf8_len (tx ''.archive.org'') < utf8_len h" by (simp add: h utf8_len_def)
    moreover have "ends_with (tx ''.archive.org'') h" by (simp add: h ends_with_def)
    moreover have "\<not> starts_with (tx ''.'') h" "\<not> contains_text (tx ''..'') h"
      using n by (cases h; auto simp: starts_with_def tx_def)+
    ultimately show ?test by blast
  qed
  then show ?thesis using below_archive_org_iff by blast
qed

text \<open>
  C24: a URL may be fetched exactly when it is an HTTPS URL without user information, on port
  443, whose host is a domain name at or below \<open>archive.org\<close>: its last two labels, in any case,
  are \<open>archive\<close> and \<open>org\<close>, and no label is empty. Lookalike hosts, literal addresses and other
  schemes are blocked.
\<close>

theorem production_policy_is_archive_org:
  "check_url production url = Inr () \<longleftrightarrow>
     url_username url = [] \<and> url_password url = None \<and> url_scheme url = tx ''https''
     \<and> unwrap_or 443 (port_or_known_default url) = 443
     \<and> (case url_host url of
         Some (HostDomain, host) \<Rightarrow> below_archive_org (to_ascii_lowercase host)
       | _ \<Rightarrow> False)"
proof (cases "url_host url")
  case None
  then show ?thesis by (simp add: check_url_def url_host_str_def)
next
  case (Some h)
  obtain k host where h: "h = (k, host)" by fastforce
  show ?thesis
    using Some h host_test_iff [of "to_ascii_lowercase host"]
    by (cases k) (auto simp: check_url_def url_host_str_def production_def Let_def)
qed

section \<open>Resolved identifiers\<close>

lemma trim_by_no_ends: "list_all (\<lambda>c. \<not> p c) t \<Longrightarrow> trim_by p t = t"
proof -
  assume "list_all (\<lambda>c. \<not> p c) t"
  moreover have "dropWhile p u = u" if "list_all (\<lambda>c. \<not> p c) u" for u
    using that by (cases u) simp_all
  ultimately show ?thesis by (simp add: trim_by_def trim_start_by_def trim_end_by_def)
qed

lemma identifier_char_plain:
  assumes "is_valid_identifier t" and "c \<in> set t"
  shows "\<not> is_whitespace c" and "c \<noteq> 47" and "c \<noteq> 92" and "c \<noteq> 37" and "32 < c" and "c < 127"
proof -
  from assms have "is_ascii_alphanumeric c \<or> c = 46 \<or> c = 95 \<or> c = 45"
    by (simp add: is_valid_identifier_def list_all_iff)
  then have "45 \<le> c \<and> c \<le> 122 \<and> c \<noteq> 47 \<and> c \<noteq> 92"
    by (auto simp: is_ascii_alphanumeric_def is_ascii_digit_def)
  then show "\<not> is_whitespace c" "c \<noteq> 47" "c \<noteq> 92" "c \<noteq> 37" "32 < c" "c < 127"
    by (simp_all add: is_whitespace_def)
qed

lemma trim_identifier: "is_valid_identifier t \<Longrightarrow> trim t = t"
  unfolding trim_def by (rule trim_by_no_ends) (auto simp: list_all_iff dest: identifier_char_plain)

text \<open>
  User input resolves to a plain identifier or not at all. What \<open>resolve_identifier\<close> returns is
  between one and a hundred ASCII letters, digits, dots, underscores and hyphens, so never a
  path or a URL; it is the trimmed input itself, or the decoded segment after \<open>details\<close> or
  \<open>download\<close> of an \<open>http(s)\<close> URL of \<open>archive.org\<close> or \<open>www.archive.org\<close> without user information
  or port; and resolving it again returns it.
\<close>

theorem resolved_identifier_is_plain:
  assumes "resolve_identifier as_bytes from_utf8 parse input = Inr name"
  shows "is_valid_identifier name
    \<and> list_all (\<lambda>c. 32 < c \<and> c < 127 \<and> c \<noteq> 47 \<and> c \<noteq> 92 \<and> c \<noteq> 37) name
    \<and> (name = trim input \<or> (\<exists>url kind raw rest. parse (trim input) = Some url
         \<and> url_scheme url \<in> {tx ''http'', tx ''https''}
         \<and> url_host_str url \<in> {Some (tx ''archive.org''), Some (tx ''www.archive.org'')}
         \<and> url_username url = [] \<and> url_password url = None \<and> url_port url = None
         \<and> url_segments url = Some (kind # raw # rest)
         \<and> kind \<in> {tx ''details'', tx ''download''}
         \<and> percent_decode_once as_bytes from_utf8 raw = Some name))
    \<and> resolve_identifier as_bytes from_utf8 parse name = Inr name"
proof -
  have valid: "is_valid_identifier name"
    using assms by (auto simp: resolve_identifier_def Let_def split: if_splits option.splits)
  moreover have "list_all (\<lambda>c. 32 < c \<and> c < 127 \<and> c \<noteq> 47 \<and> c \<noteq> 92 \<and> c \<noteq> 37) name"
    using identifier_char_plain [OF valid] by (auto simp: list_all_iff)
  moreover have "resolve_identifier as_bytes from_utf8 parse name = Inr name"
    using valid trim_identifier [OF valid]
    by (auto simp: resolve_identifier_def is_valid_identifier_def)
  moreover have "name = trim input \<or> (\<exists>url kind raw rest. parse (trim input) = Some url
         \<and> url_scheme url \<in> {tx ''http'', tx ''https''}
         \<and> url_host_str url \<in> {Some (tx ''archive.org''), Some (tx ''www.archive.org'')}
         \<and> url_username url = [] \<and> url_password url = None \<and> url_port url = None
         \<and> url_segments url = Some (kind # raw # rest)
         \<and> kind \<in> {tx ''details'', tx ''download''}
         \<and> percent_decode_once as_bytes from_utf8 raw = Some name)"
  proof (cases "is_valid_identifier (trim input)")
    case True
    with assms show ?thesis by (simp add: resolve_identifier_def Let_def split: if_splits)
  next
    case False
    with assms obtain url raw where u: "parse (trim input) = Some url"
      "url_scheme url \<in> {tx ''http'', tx ''https''}" "url_username url = []"
      "url_password url = None" "url_port url = None"
      "url_host_str url \<in> {Some (tx ''archive.org''), Some (tx ''www.archive.org'')}"
      "identifier_segment (unwrap_or [] (url_segments url)) = Some raw"
      "percent_decode_once as_bytes from_utf8 raw = Some name"
      by (auto simp: resolve_identifier_def Let_def split: if_splits option.splits)
    then obtain kind rest where "url_segments url = Some (kind # raw # rest)"
      "kind \<in> {tx ''details'', tx ''download''}"
      by (cases "url_segments url")
        (auto simp: identifier_segment_def split: list.splits if_splits)
    with u show ?thesis by blast
  qed
  ultimately show ?thesis by blast
qed

definition sample_url :: url where
  "sample_url =
     \<lparr>url_scheme = tx ''https'', url_username = [], url_password = None,
      url_host = Some (HostDomain, tx ''archive.org''), url_port = None,
      url_known_default_port = Some 443,
      url_segments = Some [tx ''details'', tx ''a%5Fb'', tx ''page'']\<rparr>"

theorem resolved_identifier_is_plain_witness:
  "resolve_identifier (\<lambda>t. t) Some (\<lambda>_. Some sample_url) (tx ''https://archive.org/details/a%5Fb/page'')
     = Inr (tx ''a_b'') \<and> is_valid_identifier (tx ''a_b'')
   \<and> resolve_identifier (\<lambda>t. t) Some (\<lambda>_. Some sample_url) (tx ''a_b'') = Inr (tx ''a_b'')"
proof -
  have r: "resolve_identifier (\<lambda>t. t) Some (\<lambda>_. Some sample_url)
      (tx ''https://archive.org/details/a%5Fb/page'') = Inr (tx ''a_b'')"
    by (simp add: resolve_identifier_def Let_def sample_url_def url_host_str_def trim_def trim_by_def
        trim_start_by_def trim_end_by_def is_whitespace_def tx_def is_valid_identifier_def
        is_ascii_alphanumeric_def is_ascii_digit_def utf8_len_def utf8_width_def
        identifier_segment_def percent_decode_once_def hex_byte_def hex_value_def)
  from r resolved_identifier_is_plain [OF r] show ?thesis by blast
qed

end
