(* ===== verification/IaVerify.thy ===== *)
theory IaVerify
  imports IaError
begin

unbundle bit_operations_syntax

text \<open>
  Verification of a staged PDF (\<open>crates/internet-archive/src/verify.rs\<close>), with the crate's own
  SHA-1. A file is the list of its bytes; the file system is the one staged path, so an operation
  takes and returns an optional content: a file that exists but cannot be read is not told apart from
  a missing one (both are the same error), and the removal of a rejected file, whose failure the
  code ignores, succeeds. The hashes of the \<open>sha2\<close> and \<open>md-5\<close> crates and the page
  count of \<open>lopdf\<close> are the parameters \<open>sha256_hex\<close>, \<open>md5_hex\<close> and \<open>count_pages\<close>.

  \<open>standard_digest\<close> is SHA-1 as the standard states it (a recursive message schedule, indexed
  blocks, the exclusive-or forms of the logical functions); the code's loops are proved equal to
  it.
\<close>

type_synonym byte = "8 word"
type_synonym word32 = "32 word"

section \<open>SHA-1\<close>

text \<open>\<open>u32::from_be_bytes\<close> and \<open>u64::to_be_bytes\<close>.\<close>

definition from_be_bytes :: "byte \<Rightarrow> byte \<Rightarrow> byte \<Rightarrow> byte \<Rightarrow> word32" where
  "from_be_bytes a b c d =
     push_bit 24 (ucast a) OR push_bit 16 (ucast b) OR push_bit 8 (ucast c) OR ucast d"

definition to_be_bytes :: "64 word \<Rightarrow> byte list" where
  "to_be_bytes n = map (\<lambda>i. ucast (drop_bit (56 - 8 * i) n)) [0..<8]"

function pad_zeros :: "byte list \<Rightarrow> byte list" where
  "pad_zeros msg = (if length msg mod 64 = 56 then msg else pad_zeros (msg @ [0]))"
  by auto

text \<open>How many zeros are still missing.\<close>

definition zeros_missing :: "nat \<Rightarrow> nat" where
  "zeros_missing n = (if n mod 64 \<le> 56 then 56 - n mod 64 else 120 - n mod 64)"

lemma zeros_missing_Suc: "n mod 64 \<noteq> 56 \<Longrightarrow> Suc (zeros_missing (Suc n)) = zeros_missing n"
  using mod_less_divisor [of 64 n] by (auto simp: zeros_missing_def mod_Suc)

termination pad_zeros
  by (relation "measure (\<lambda>msg. zeros_missing (length msg))")
    (use zeros_missing_Suc in \<open>fastforce simp: less_Suc_eq_le\<close>)+

declare pad_zeros.simps [simp del]

definition padded :: "byte list \<Rightarrow> byte list" where
  "padded bytes =
     (let bit_len = of_nat (length bytes) * 8 :: 64 word
      in pad_zeros (bytes @ [0x80]) @ to_be_bytes bit_len)"

text \<open>The message schedule: the two loops over the array \<open>w\<close>.\<close>

definition load_words :: "byte list \<Rightarrow> word32 list" where
  "load_words chunk =
     fold (\<lambda>i w. w[i := from_be_bytes (chunk ! (4 * i)) (chunk ! (4 * i + 1)) (chunk ! (4 * i + 2))
       (chunk ! (4 * i + 3))]) [0..<16] (replicate 80 0)"

definition extend_words :: "word32 list \<Rightarrow> word32 list" where
  "extend_words w =
     fold (\<lambda>i w. w[i := word_rotl 1 (w ! (i - 3) XOR w ! (i - 8) XOR w ! (i - 14) XOR w ! (i - 16))])
       [16..<80] w"

type_synonym chain = "word32 \<times> word32 \<times> word32 \<times> word32 \<times> word32"

definition round_function :: "nat \<Rightarrow> word32 \<Rightarrow> word32 \<Rightarrow> word32 \<Rightarrow> word32 \<times> word32" where
  "round_function i b c d =
     (if i \<le> 19 then ((b AND c) OR (NOT b AND d), 0x5A827999)
      else if i \<le> 39 then (b XOR c XOR d, 0x6ED9EBA1)
      else if i \<le> 59 then ((b AND c) OR (b AND d) OR (c AND d), 0x8F1BBCDC)
      else (b XOR c XOR d, 0xCA62C1D6))"

definition sha1_round :: "nat \<times> word32 \<Rightarrow> chain \<Rightarrow> chain" where
  "sha1_round = (\<lambda>(i, word) (a, b, c, d, e).
     (let (f, k) = round_function i b c d;
          tmp = word_rotl 5 a + f + e + k + word
      in (tmp, a, word_rotl 30 b, c, d)))"

definition compress :: "byte list \<Rightarrow> chain \<Rightarrow> chain" where
  "compress chunk h =
     (let w = extend_words (load_words chunk);
          (h0, h1, h2, h3, h4) = h;
          (a, b, c, d, e) = fold sha1_round (List.enumerate 0 w) h
      in (h0 + a, h1 + b, h2 + c, h3 + d, h4 + e))"

fun chunks_exact :: "nat \<Rightarrow> byte list \<Rightarrow> byte list list" where
  "chunks_exact 0 msg = []"
| "chunks_exact (Suc n) msg = take 64 msg # chunks_exact n (drop 64 msg)"

definition initial_chain :: chain where
  "initial_chain = (0x67452301, 0xEFCDAB89, 0x98BADCFE, 0x10325476, 0xC3D2E1F0)"

definition hex_digit :: "nat \<Rightarrow> nat" where
  "hex_digit d = (if d < 10 then 48 + d else 87 + d)"

text \<open>\<open>{:08x}\<close>: eight lowercase hexadecimal digits.\<close>

definition hex08 :: "word32 \<Rightarrow> str" where
  "hex08 w = map (\<lambda>i. hex_digit (unat (drop_bit (28 - 4 * i) w) mod 16)) [0..<8]"

definition chain_hex :: "chain \<Rightarrow> str" where
  "chain_hex = (\<lambda>(a, b, c, d, e). hex08 a @ hex08 b @ hex08 c @ hex08 d @ hex08 e)"

definition sha1_hex :: "byte list \<Rightarrow> str" where
  "sha1_hex bytes =
     (let msg = padded bytes
      in chain_hex (fold compress (chunks_exact (length msg div 64) msg) initial_chain))"

section \<open>Verification\<close>

definition default_max_pages :: nat where
  "default_max_pages = 500"

definition absolute_max_pages :: nat where
  "absolute_max_pages = 2000"

definition clamped :: "nat option \<Rightarrow> nat" where
  "clamped requested =
     (case requested of
        None \<Rightarrow> default_max_pages
      | Some v \<Rightarrow> if v = 0 then default_max_pages else min (max v 1) absolute_max_pages)"

record expected_remote =
  er_md5 :: "str option"
  er_sha1 :: "str option"
  er_content_length :: "nat option"

record verified_pdf =
  vp_size :: nat
  vp_page_count :: nat
  vp_sha256_hex :: str

definition present :: "str option \<Rightarrow> str option" where
  "present value = opt_filter (\<lambda>s. s \<noteq> []) (map_option trim value)"

definition pdf_magic :: "byte list" where
  "pdf_magic = [0x25, 0x50, 0x44, 0x46]"

definition verify_bytes ::
  "(byte list \<Rightarrow> str) \<Rightarrow> (byte list \<Rightarrow> str) \<Rightarrow> (byte list \<Rightarrow> nat option) \<Rightarrow>
   expected_remote \<Rightarrow> nat \<Rightarrow> byte list \<Rightarrow> ia_error + verified_pdf" where
  "verify_bytes sha256_hex md5_hex count_pages expected max_pages bytes =
     (if take 4 bytes \<noteq> pdf_magic then Inl (VerifyFailed (tx ''header''))
      else if (case er_content_length expected of None \<Rightarrow> False | Some n \<Rightarrow> n \<noteq> length bytes)
      then Inl (VerifyFailed (tx ''size''))
      else if (case present (er_md5 expected) of None \<Rightarrow> False
               | Some want \<Rightarrow> md5_hex bytes \<noteq> to_ascii_lowercase want)
      then Inl (VerifyFailed (tx ''md5''))
      else if (case present (er_sha1 expected) of None \<Rightarrow> False
               | Some want \<Rightarrow> sha1_hex bytes \<noteq> to_ascii_lowercase want)
      then Inl (VerifyFailed (tx ''sha1''))
      else case count_pages bytes of
        None \<Rightarrow> Inl (VerifyFailed (tx ''open''))
      | Some n \<Rightarrow>
          (let page_count = min n u32_max in
           if page_count = 0 then Inl (VerifyFailed (tx ''pages''))
           else if max_pages < page_count then Inl (TooManyPages page_count max_pages)
           else Inr \<lparr>vp_size = length bytes, vp_page_count = page_count,
                     vp_sha256_hex = sha256_hex bytes\<rparr>))"

text \<open>A failed read leaves the path as it is; any rejection deletes the file.\<close>

definition verify_staged_pdf ::
  "(byte list \<Rightarrow> str) \<Rightarrow> (byte list \<Rightarrow> str) \<Rightarrow> (byte list \<Rightarrow> nat option) \<Rightarrow>
   expected_remote \<Rightarrow> nat \<Rightarrow> byte list option \<Rightarrow> (ia_error + verified_pdf) \<times> byte list option" where
  "verify_staged_pdf sha256_hex md5_hex count_pages expected max_pages staged =
     (case staged of
        None \<Rightarrow> (Inl IoError, None)
      | Some bytes \<Rightarrow>
          (case verify_bytes sha256_hex md5_hex count_pages expected max_pages bytes of
             Inl e \<Rightarrow> (Inl e, None)
           | Inr v \<Rightarrow> (Inr v, Some bytes)))"

section \<open>SHA-1 as the standard states it\<close>

text \<open>
  The padded message: the bit 1, the fewest zero bits that make the length 448 modulo 512, the
  length in bits as 64 bits.
\<close>

definition standard_padded :: "byte list \<Rightarrow> byte list" where
  "standard_padded m =
     m @ [0x80] @ replicate ((119 - length m mod 64) mod 64) 0 @
     to_be_bytes (word_of_nat (8 * length m))"

text \<open>Word \<open>t\<close> of block \<open>i\<close>, the message schedule, the functions and constants of round \<open>t\<close>.\<close>

definition block_word :: "byte list \<Rightarrow> nat \<Rightarrow> nat \<Rightarrow> word32" where
  "block_word p i t =
     (let j = 64 * i + 4 * t in from_be_bytes (p ! j) (p ! (j + 1)) (p ! (j + 2)) (p ! (j + 3)))"

fun message_schedule :: "(nat \<Rightarrow> word32) \<Rightarrow> nat \<Rightarrow> word32" where
  "message_schedule m t =
     (if t < 16 then m t
      else word_rotl 1 (message_schedule m (t - 3) XOR message_schedule m (t - 8) XOR
        message_schedule m (t - 14) XOR message_schedule m (t - 16)))"

declare message_schedule.simps [simp del]

definition standard_f :: "nat \<Rightarrow> word32 \<Rightarrow> word32 \<Rightarrow> word32 \<Rightarrow> word32" where
  "standard_f t x y z =
     (if t < 20 then (x AND y) XOR (NOT x AND z)
      else if 40 \<le> t \<and> t < 60 then (x AND y) XOR (x AND z) XOR (y AND z)
      else x XOR y XOR z)"

definition standard_k :: "nat \<Rightarrow> word32" where
  "standard_k t =
     [0x5A827999, 0x6ED9EBA1, 0x8F1BBCDC, 0xCA62C1D6] ! (t div 20)"

text \<open>The working variables before round \<open>t\<close>, and the hash value before block \<open>i\<close>.\<close>

primrec working :: "(nat \<Rightarrow> word32) \<Rightarrow> chain \<Rightarrow> nat \<Rightarrow> chain" where
  "working w h 0 = h"
| "working w h (Suc t) =
     (let (a, b, c, d, e) = working w h t
      in (word_rotl 5 a + standard_f t b c d + e + standard_k t + w t, a, word_rotl 30 b, c, d))"

definition add_chain :: "chain \<Rightarrow> chain \<Rightarrow> chain" where
  "add_chain = (\<lambda>(a, b, c, d, e) (a', b', c', d', e'). (a + a', b + b', c + c', d + d', e + e'))"

primrec hash_value :: "byte list \<Rightarrow> nat \<Rightarrow> chain" where
  "hash_value p 0 = initial_chain"
| "hash_value p (Suc i) =
     add_chain (hash_value p i) (working (message_schedule (block_word p i)) (hash_value p i) 80)"

definition standard_digest :: "byte list \<Rightarrow> chain" where
  "standard_digest m =
     (let p = standard_padded m in hash_value p (length p div 64))"

section \<open>The loops compute the standard\<close>

lemma length_to_be_bytes [simp]: "length (to_be_bytes n) = 8"
  by (simp add: to_be_bytes_def)

lemma pad_zeros_replicate: "pad_zeros msg = msg @ replicate (zeros_missing (length msg)) 0"
proof (induction msg rule: pad_zeros.induct)
  case (1 msg)
  show ?case
  proof (cases "length msg mod 64 = 56")
    case True
    then show ?thesis by (simp add: pad_zeros.simps [of msg] zeros_missing_def)
  next
    case False
    then have "zeros_missing (length msg) = Suc (zeros_missing (length (msg @ [0])))"
      using zeros_missing_Suc by simp
    with 1 [OF False] False show ?thesis by (simp add: pad_zeros.simps [of msg])
  qed
qed

lemma zeros_missing_standard: "zeros_missing (Suc n) = (119 - n mod 64) mod 64"
proof -
  have low: "(119 - r) mod 64 = 55 - r" if "r \<le> 55" for r :: nat
  proof -
    have "119 - r = 55 - r + 64" using that by simp
    then show ?thesis using that by (simp only: mod_add_self2) simp
  qed
  have "n mod 64 < 64" by simp
  then consider "n mod 64 = 63" | "n mod 64 \<le> 55" | "56 \<le> n mod 64" "n mod 64 \<le> 62" by linarith
  then show ?thesis
    by cases (simp_all add: zeros_missing_def mod_Suc low)
qed

lemma padded_standard: "padded m = standard_padded m"
  by (simp add: padded_def standard_padded_def pad_zeros_replicate zeros_missing_standard
      mult.commute)

lemma zeros_missing_fills: "(n + zeros_missing n) mod 64 = 56"
proof -
  have m: "n mod 64 < 64" by simp
  have "n mod 64 + zeros_missing n = 56 \<or> n mod 64 + zeros_missing n = 56 + 64"
    using m by (auto simp: zeros_missing_def)
  then have "(n mod 64 + zeros_missing n) mod 64 = 56" by auto
  then show ?thesis by (simp only: mod_add_left_eq)
qed

lemma length_padded: "length (padded m) mod 64 = 0"
proof -
  have "(Suc (length m) + zeros_missing (Suc (length m)) + 8) mod 64 = (56 + 8) mod 64"
    using zeros_missing_fills [of "Suc (length m)"] by (metis mod_add_left_eq)
  then show ?thesis by (simp add: padded_def pad_zeros_replicate ac_simps)
qed

text \<open>Filling an array in order leaves in each place what its step wrote.\<close>

lemma fold_fill:
  assumes "n \<le> length w" and "\<And>i v. a \<le> i \<Longrightarrow> i < n \<Longrightarrow> length v = length w \<Longrightarrow>
      (\<forall>j < i. v ! j = f j) \<Longrightarrow> g v i = f i"
    and "\<forall>j < a. w ! j = f j" and "a \<le> n"
  shows "length (fold (\<lambda>i w. w[i := g w i]) [a..<n] w) = length w \<and>
    (\<forall>j < n. fold (\<lambda>i w. w[i := g w i]) [a..<n] w ! j = f j)"
  using assms
proof (induction "n - a" arbitrary: n)
  case 0
  then show ?case by simp
next
  case (Suc m)
  then obtain n' where n: "n = Suc n'" "a \<le> n'" by (cases n) auto
  let ?v = "fold (\<lambda>i w. w[i := g w i]) [a..<n'] w"
  have "length ?v = length w \<and> (\<forall>j < n'. ?v ! j = f j)"
    using Suc n by (intro Suc.hyps) auto
  moreover then have "g ?v n' = f n'" using Suc.prems n by auto
  ultimately show ?case using n Suc.prems(1) by (auto simp: nth_list_update less_Suc_eq)
qed

lemma schedule_words:
  assumes "64 * i + 64 \<le> length p"
  shows "extend_words (load_words (take 64 (drop (64 * i) p))) =
    map (message_schedule (block_word p i)) [0..<80]"
proof -
  let ?c = "take 64 (drop (64 * i) p)"
  let ?f = "message_schedule (block_word p i)"
  have c: "?c ! k = p ! (64 * i + k)" if "k < 64" for k
    using that assms by simp
  have word: "from_be_bytes (?c ! (4 * j)) (?c ! (4 * j + 1)) (?c ! (4 * j + 2)) (?c ! (4 * j + 3)) = ?f j"
    if "j < 16" for j
  proof -
    have "4 * j < 64" "4 * j + 1 < 64" "4 * j + 2 < 64" "4 * j + 3 < 64" using that by simp_all
    then show ?thesis
      using that by (simp only: c message_schedule.simps [of _ j] block_word_def Let_def add.assoc if_True)
  qed
  have "length (load_words ?c) = length (replicate 80 (0 :: word32)) \<and>
      (\<forall>j < 16. load_words ?c ! j = ?f j)"
    unfolding load_words_def by (rule fold_fill) (use word in simp_all)
  then have load: "length (load_words ?c) = 80 \<and> (\<forall>j < 16. load_words ?c ! j = ?f j)" by simp
  have "length (extend_words (load_words ?c)) = length (load_words ?c) \<and>
      (\<forall>j < 80. extend_words (load_words ?c) ! j = ?f j)"
    unfolding extend_words_def
  proof (rule fold_fill)
    fix j and v :: "word32 list"
    assume "16 \<le> j" "\<forall>k < j. v ! k = ?f k"
    then show "word_rotl 1 (v ! (j - 3) XOR v ! (j - 8) XOR v ! (j - 14) XOR v ! (j - 16)) = ?f j"
      by (simp add: message_schedule.simps [of _ j])
  qed (use load in simp_all)
  with load show ?thesis by (intro nth_equalityI) simp_all
qed

lemma choose_xor: "(x AND y) OR (NOT x AND z) = (x AND y) XOR (NOT x AND z)" for x :: word32
  by (rule bit_word_eqI) (auto simp: bit_simps)

lemma majority_xor: "(x AND y) OR (x AND z) OR (y AND z) = (x AND y) XOR (x AND z) XOR (y AND z)"
  for x :: word32
  by (rule bit_word_eqI) (auto simp: bit_simps)

lemma round_function_standard:
  "t < 80 \<Longrightarrow> round_function t b c d = (standard_f t b c d, standard_k t)"
proof -
  assume "t < 80"
  then consider "t < 20" "t div 20 = 0" | "20 \<le> t" "t < 40" "t div 20 = 1"
    | "40 \<le> t" "t < 60" "t div 20 = 2" | "60 \<le> t" "t div 20 = 3" by linarith
  then show ?thesis
    by cases (simp_all add: round_function_def standard_f_def standard_k_def choose_xor majority_xor
        numeral_2_eq_2 numeral_3_eq_3)
qed

lemma rounds_standard:
  "n \<le> 80 \<Longrightarrow> fold sha1_round (map (\<lambda>t. (t, w t)) [0..<n]) h = working w h n"
proof (induction n)
  case (Suc n)
  then show ?case
    by (simp add: sha1_round_def round_function_standard Let_def split: prod.split)
qed simp

lemma compress_standard:
  assumes "64 * i + 64 \<le> length p"
  shows "compress (take 64 (drop (64 * i) p)) h =
    add_chain h (working (message_schedule (block_word p i)) h 80)"
proof -
  have "List.enumerate 0 (map w [0..<80]) = map (\<lambda>t. (t, w t)) [0..<80]" for w :: "nat \<Rightarrow> word32"
    by (simp add: enumerate_eq_zip zip_map2 zip_same_conv_map)
  then show ?thesis
    by (simp add: compress_def schedule_words [OF assms] rounds_standard add_chain_def Let_def
        split: prod.split)
qed

lemma blocks_standard:
  "64 * (i + n) \<le> length p \<Longrightarrow>
     fold compress (chunks_exact n (drop (64 * i) p)) (hash_value p i) = hash_value p (i + n)"
proof (induction n arbitrary: i)
  case (Suc n)
  then have "compress (take 64 (drop (64 * i) p)) (hash_value p i) = hash_value p (Suc i)"
    by (simp add: compress_standard)
  moreover have "fold compress (chunks_exact n (drop (64 * Suc i) p)) (hash_value p (Suc i)) =
      hash_value p (Suc i + n)"
    using Suc.prems by (intro Suc.IH) simp
  moreover have "drop 64 (drop (64 * i) p) = drop (64 * Suc i) p" by simp
  ultimately show ?case
    by (simp only: chunks_exact.simps fold.simps comp_apply add_Suc_shift)
qed simp

lemma sha1_by_loops:
  "sha1_hex m = chain_hex (standard_digest m) \<and> length (standard_padded m) mod 64 = 0"
proof -
  let ?p = "standard_padded m"
  have "64 * (length ?p div 64) \<le> length ?p" by simp
  with blocks_standard [of 0 "length ?p div 64" ?p] show ?thesis
    using length_padded [of m]
    by (simp add: sha1_hex_def standard_digest_def padded_standard Let_def)
qed

text \<open>
  C25: the crate's own SHA-1 is SHA-1. For every content the digest computed with the padding
  loop, the schedule array and the round loop is the digest of the standard: the message padded
  to a multiple of 64 bytes, the recursive schedule, the exclusive-or forms of the choice and
  majority functions, and the hash values chained block by block. (The length field is taken
  modulo \<open>2 ^ 64\<close>, as the code computes it.)
\<close>

theorem sha1_is_the_standard:
  "sha1_hex m = chain_hex (standard_digest m) \<and> length (standard_padded m) mod 64 = 0"
  by (rule sha1_by_loops)

lemma clamped_bounds: "1 \<le> clamped requested \<and> clamped requested \<le> 2000"
  by (auto simp: clamped_def default_max_pages_def absolute_max_pages_def split: option.split)

text \<open>What the remote side and the limits promise of a file.\<close>

definition as_promised ::
  "(byte list \<Rightarrow> str) \<Rightarrow> (byte list \<Rightarrow> nat option) \<Rightarrow> expected_remote \<Rightarrow> nat \<Rightarrow> byte list \<Rightarrow> bool" where
  "as_promised md5_hex count_pages expected max_pages bytes \<longleftrightarrow>
     take 4 bytes = pdf_magic
     \<and> er_content_length expected \<in> {None, Some (length bytes)}
     \<and> map_option to_ascii_lowercase (present (er_md5 expected)) \<in> {None, Some (md5_hex bytes)}
     \<and> map_option to_ascii_lowercase (present (er_sha1 expected)) \<in>
         {None, Some (chain_hex (standard_digest bytes))}
     \<and> (case count_pages bytes of None \<Rightarrow> False | Some n \<Rightarrow> 1 \<le> n \<and> n \<le> max_pages)"

lemma verify_bytes_Inr_iff:
  "verify_bytes sha256_hex md5_hex count_pages expected (clamped requested) bytes = Inr v \<longleftrightarrow>
     as_promised md5_hex count_pages expected (clamped requested) bytes
     \<and> v = \<lparr>vp_size = length bytes, vp_page_count = the (count_pages bytes),
            vp_sha256_hex = sha256_hex bytes\<rparr>"
proof -
  have sha1: "sha1_hex bytes = chain_hex (standard_digest bytes)"
    using sha1_by_loops by blast
  have small: "clamped requested < u32_max" using clamped_bounds [of requested]
    by (simp add: u32_max_def)
  have pages: "(case count_pages bytes of
        None \<Rightarrow> Inl (VerifyFailed (tx ''open''))
      | Some n \<Rightarrow>
          (let page_count = min n u32_max in
           if page_count = 0 then Inl (VerifyFailed (tx ''pages''))
           else if clamped requested < page_count then Inl (TooManyPages page_count (clamped requested))
           else Inr \<lparr>vp_size = length bytes, vp_page_count = page_count,
                     vp_sha256_hex = sha256_hex bytes\<rparr>)) = Inr v \<longleftrightarrow>
      (case count_pages bytes of None \<Rightarrow> False | Some n \<Rightarrow> 1 \<le> n \<and> n \<le> clamped requested)
      \<and> v = \<lparr>vp_size = length bytes, vp_page_count = the (count_pages bytes),
            vp_sha256_hex = sha256_hex bytes\<rparr>"
    using small by (auto simp: Let_def min_def split: option.split)
  show ?thesis
    unfolding verify_bytes_def as_promised_def sha1 [symmetric]
    by (cases "er_content_length expected"; cases "present (er_md5 expected)";
        cases "present (er_sha1 expected)") (auto simp: pages)
qed

text \<open>
  C26: a verified file is what was promised, and nothing else stays. The verification succeeds
  exactly when the staged file can be read, starts with the PDF header, has the declared size,
  matches the published MD5 and SHA-1 where they are not blank (in any case), opens, and has
  between one and the allowed number of pages; the result then carries the size, the page count
  and the SHA-256 of the very bytes that stay staged. In every other case nothing stays staged.
\<close>

theorem verified_file_matches:
  assumes "verify_staged_pdf sha256_hex md5_hex count_pages expected (clamped requested) staged =
    (result, left)"
  shows "case result of
      Inr v \<Rightarrow> (case staged of None \<Rightarrow> False | Some bytes \<Rightarrow>
        left = Some bytes \<and> as_promised md5_hex count_pages expected (clamped requested) bytes
        \<and> v = \<lparr>vp_size = length bytes, vp_page_count = the (count_pages bytes),
              vp_sha256_hex = sha256_hex bytes\<rparr>)
    | Inl _ \<Rightarrow> left = None \<and> (case staged of None \<Rightarrow> True | Some bytes \<Rightarrow>
        \<not> as_promised md5_hex count_pages expected (clamped requested) bytes)"
proof (cases staged)
  case (Some bytes)
  let ?r = "verify_bytes sha256_hex md5_hex count_pages expected (clamped requested) bytes"
  have iff: "?r = Inr v \<longleftrightarrow> as_promised md5_hex count_pages expected (clamped requested) bytes
     \<and> v = \<lparr>vp_size = length bytes, vp_page_count = the (count_pages bytes),
            vp_sha256_hex = sha256_hex bytes\<rparr>" for v
    by (rule verify_bytes_Inr_iff)
  show ?thesis
  proof (cases ?r)
    case (Inl e)
    with iff have "\<not> as_promised md5_hex count_pages expected (clamped requested) bytes" by auto
    moreover have "result = Inl e" "left = None"
      using Inl Some assms by (simp_all add: verify_staged_pdf_def)
    ultimately show ?thesis using Some by simp
  next
    case (Inr v)
    moreover have "result = Inr v" "left = Some bytes"
      using Inr Some assms by (simp_all add: verify_staged_pdf_def)
    ultimately show ?thesis using iff [of v] Some by simp
  qed
qed (use assms in \<open>auto simp: verify_staged_pdf_def\<close>)

theorem verified_file_matches_witness:
  "(let expected = \<lparr>er_md5 = Some (tx ''AB''), er_sha1 = None, er_content_length = Some 4\<rparr>
    in fst (verify_staged_pdf (\<lambda>_. tx ''c'') (\<lambda>_. tx ''ab'') (\<lambda>_. Some 3) expected (clamped None)
         (Some pdf_magic)) = Inr \<lparr>vp_size = 4, vp_page_count = 3, vp_sha256_hex = tx ''c''\<rparr>
     \<and> as_promised (\<lambda>_. tx ''ab'') (\<lambda>_. Some 3) expected (clamped None) pdf_magic)"
proof -
  let ?x = "\<lparr>er_md5 = Some (tx ''AB''), er_sha1 = None, er_content_length = Some 4\<rparr>"
  let ?v = "\<lparr>vp_size = 4, vp_page_count = 3, vp_sha256_hex = tx ''c''\<rparr>"
  have r: "verify_staged_pdf (\<lambda>_. tx ''c'') (\<lambda>_. tx ''ab'') (\<lambda>_. Some 3) ?x (clamped None)
      (Some pdf_magic) = (Inr ?v, Some pdf_magic)"
    by (simp add: verify_staged_pdf_def verify_bytes_def pdf_magic_def present_def opt_filter_def
        trim_def trim_by_def trim_start_by_def trim_end_by_def is_whitespace_def tx_def
        to_ascii_lowercase_def ascii_lower_def clamped_def default_max_pages_def u32_max_def)
  from verified_file_matches [OF r] r show ?thesis by simp
qed

end
