(* ===== verification/IaJob.thy ===== *)
theory IaJob
  imports IaItem
begin

text \<open>
  The import job of \<open>crates/internet-archive/src/job.rs\<close>: the two state machines (files, jobs),
  their transition tables and every operation of \<open>Job\<close>. Operations that mutate a Rust \<open>Job\<close>
  return the changed job; those that report staging files to delete return them beside it.

  The locale \<open>machine\<close> states what the two transition tables share; \<open>job_step\<close> is one operation
  of the code on a job, and the lemmas show what no sequence of operations can undo.
\<close>

section \<open>Data\<close>

record item_snapshot =
  sn_identifier :: str
  sn_title :: "str option"
  sn_creators :: "str list"
  sn_date :: "str option"
  sn_languages :: "str list"
  sn_collections :: "str list"
  sn_rights :: "str option"
  sn_license_url :: "str option"

definition snapshot_of_details :: "item_details \<Rightarrow> item_snapshot" where
  "snapshot_of_details d =
     \<lparr>sn_identifier = it_identifier d, sn_title = it_title d, sn_creators = it_creators d,
      sn_date = it_date d, sn_languages = it_languages d, sn_collections = it_collections d,
      sn_rights = it_rights d, sn_license_url = it_license_url d\<rparr>"

definition job_schema_version :: nat where
  "job_schema_version = 1"

datatype import_target = ExistingCollection str | NewCollection str

datatype job_state =
  Draft | Ready | Running | Cancelling | Completed | Partial | JobFailed | JobCancelled

datatype file_state =
  Queued | Downloading | Verifying | Verified | Importing | Imported | SkippedDuplicate
| Unavailable | FileFailed | FileCancelled

record job_file =
  jf_identifier :: str
  jf_file_name :: str
  jf_format :: "str option"
  jf_source :: file_source
  jf_expected_size :: "nat option"
  jf_mtime :: "nat option"
  jf_md5 :: "str option"
  jf_sha1 :: "str option"
  jf_state :: file_state
  jf_attempts :: nat
  jf_error :: "str option"
  jf_staging_name :: "str option"
  jf_page_count :: "nat option"
  jf_sha256 :: "str option"
  jf_item_id :: "str option"

record job =
  job_schema :: nat
  job_id :: str
  job_created_at :: nat
  job_updated_at :: nat
  job_target :: import_target
  job_state :: job_state
  job_files :: "job_file list"
  job_items :: "item_snapshot list"

datatype new_job_error = Empty | Duplicate str str

datatype unavailable_pdf_error = UnavailablePdf str str

datatype set_file_state_error = OutOfBounds nat nat | BadFileMove file_state file_state

datatype job_transition_error = BadJobMove job_state job_state

record reconcile_entry =
  re_index :: nat
  re_identifier :: str
  re_file_name :: str
  re_staging_name :: "str option"

record restart_effects =
  staging_to_delete :: "str list"
  needs_reconcile :: "reconcile_entry list"

section \<open>Transition tables\<close>

fun file_is_terminal :: "file_state \<Rightarrow> bool" where
  "file_is_terminal Imported = True"
| "file_is_terminal SkippedDuplicate = True"
| "file_is_terminal Unavailable = True"
| "file_is_terminal FileFailed = True"
| "file_is_terminal FileCancelled = True"
| "file_is_terminal _ = False"

fun job_is_terminal :: "job_state \<Rightarrow> bool" where
  "job_is_terminal Completed = True"
| "job_is_terminal Partial = True"
| "job_is_terminal JobFailed = True"
| "job_is_terminal JobCancelled = True"
| "job_is_terminal _ = False"

definition is_file_transition_allowed :: "file_state \<Rightarrow> file_state \<Rightarrow> bool" where
  "is_file_transition_allowed from to =
     (if from = to then file_is_terminal from
      else (from, to) \<in> set [(Queued, Downloading), (Queued, SkippedDuplicate),
        (Queued, Unavailable), (Queued, FileCancelled),
        (Downloading, Verifying), (Downloading, Queued), (Downloading, Unavailable),
        (Downloading, FileFailed), (Downloading, FileCancelled),
        (Verifying, Verified), (Verifying, FileFailed), (Verifying, FileCancelled),
        (Verified, Importing), (Verified, FileCancelled),
        (Importing, Imported), (Importing, Verified), (Importing, FileFailed)])"

definition is_job_transition_allowed :: "job_state \<Rightarrow> job_state \<Rightarrow> bool" where
  "is_job_transition_allowed from to =
     (if from = to then job_is_terminal from
      else (from, to) \<in> set [(Draft, Ready), (Draft, JobCancelled), (Ready, Running),
        (Ready, JobCancelled), (Running, Cancelling), (Running, Completed), (Running, Partial),
        (Running, JobFailed), (Running, Ready), (Cancelling, JobCancelled)])"

section \<open>Operations\<close>

definition from_pdf :: "str \<Rightarrow> pdf_file \<Rightarrow> unavailable_pdf_error + job_file" where
  "from_pdf identifier pdf =
     (if pdf_availability pdf \<noteq> Available then Inl (UnavailablePdf identifier (pdf_name pdf))
      else Inr \<lparr>jf_identifier = identifier, jf_file_name = pdf_name pdf, jf_format = pdf_format pdf,
        jf_source = pdf_source pdf, jf_expected_size = pdf_size pdf, jf_mtime = pdf_mtime pdf,
        jf_md5 = pdf_md5 pdf, jf_sha1 = pdf_sha1 pdf, jf_state = Queued, jf_attempts = 0,
        jf_error = None, jf_staging_name = None, jf_page_count = None, jf_sha256 = None,
        jf_item_id = None\<rparr>)"

definition file_key :: "job_file \<Rightarrow> str \<times> str" where
  "file_key f = (jf_identifier f, jf_file_name f)"

text \<open>The loop of \<open>Job::new\<close> over the set of pairs already seen.\<close>

fun first_repeated :: "(str \<times> str) list \<Rightarrow> job_file list \<Rightarrow> (str \<times> str) option" where
  "first_repeated seen [] = None"
| "first_repeated seen (f # fs) =
     (if file_key f \<in> set seen then Some (file_key f) else first_repeated (file_key f # seen) fs)"

definition new_job ::
  "str \<Rightarrow> nat \<Rightarrow> import_target \<Rightarrow> job_file list \<Rightarrow> new_job_error + job" where
  "new_job jid now target files =
     (if files = [] then Inl Empty
      else case first_repeated [] files of
        Some (identifier, file_name) \<Rightarrow> Inl (Duplicate identifier file_name)
      | None \<Rightarrow> Inr \<lparr>job_schema = job_schema_version, job_id = jid, job_created_at = now,
          job_updated_at = now, job_target = target, job_state = Draft, job_files = files,
          job_items = []\<rparr>)"

definition job_item :: "job \<Rightarrow> str \<Rightarrow> item_snapshot option" where
  "job_item job identifier = find (\<lambda>s. sn_identifier s = identifier) (job_items job)"

definition update_file :: "nat \<Rightarrow> (job_file \<Rightarrow> job_file) \<Rightarrow> job \<Rightarrow> job" where
  "update_file index f job = job\<lparr>job_files := (job_files job)[index := f (job_files job ! index)]\<rparr>"

definition set_file_state ::
  "nat \<Rightarrow> file_state \<Rightarrow> nat \<Rightarrow> job \<Rightarrow> set_file_state_error + job" where
  "set_file_state index to now job =
     (case get_at (job_files job) index of
        None \<Rightarrow> Inl (OutOfBounds index (length (job_files job)))
      | Some file \<Rightarrow>
          if \<not> is_file_transition_allowed (jf_state file) to
          then Inl (BadFileMove (jf_state file) to)
          else Inr ((update_file index (\<lambda>f. f\<lparr>jf_state := to\<rparr>) job)\<lparr>job_updated_at := now\<rparr>))"

definition set_job_state :: "job_state \<Rightarrow> nat \<Rightarrow> job \<Rightarrow> job_transition_error + job" where
  "set_job_state to now job =
     (if \<not> is_job_transition_allowed (job_state job) to
      then Inl (BadJobMove (job_state job) to)
      else Inr (job\<lparr>job_state := to, job_updated_at := now\<rparr>))"

definition is_success :: "file_state \<Rightarrow> bool" where
  "is_success s \<longleftrightarrow> s = Imported \<or> s = SkippedDuplicate"

definition settle_job :: "nat \<Rightarrow> job \<Rightarrow> job_state option \<times> job" where
  "settle_job now job =
     (if job_state job \<noteq> Running \<or> job_files job = [] then (None, job)
      else if \<not> list_all (\<lambda>f. file_is_terminal (jf_state f)) (job_files job) then (None, job)
      else
        (let any_success = list_ex (\<lambda>f. is_success (jf_state f)) (job_files job);
             all_success = list_all (\<lambda>f. is_success (jf_state f)) (job_files job);
             next = (if all_success then Completed else if any_success then Partial else JobFailed)
         in (Some next, job\<lparr>job_state := next, job_updated_at := now\<rparr>)))"

text \<open>The loop of \<open>request_cancel\<close>: the files, and the staging names to delete.\<close>

fun cancel_files :: "job_file list \<Rightarrow> job_file list \<times> str list" where
  "cancel_files [] = ([], [])"
| "cancel_files (file # rest) =
     (let (rest', names) = cancel_files rest in
      case jf_state file of
        Queued \<Rightarrow> (file\<lparr>jf_state := FileCancelled\<rparr> # rest', names)
      | Verified \<Rightarrow> (file\<lparr>jf_state := FileCancelled\<rparr> # rest',
          (case jf_staging_name file of None \<Rightarrow> names | Some name \<Rightarrow> name # names))
      | _ \<Rightarrow> (file # rest', names))"

definition request_cancel :: "nat \<Rightarrow> job \<Rightarrow> str list \<times> job" where
  "request_cancel now job =
     (let (files, names) = cancel_files (job_files job) in
      case job_state job of
        Draft \<Rightarrow> (names, job\<lparr>job_files := files, job_state := JobCancelled, job_updated_at := now\<rparr>)
      | Ready \<Rightarrow> (names, job\<lparr>job_files := files, job_state := JobCancelled, job_updated_at := now\<rparr>)
      | Running \<Rightarrow> (names, job\<lparr>job_files := files, job_state := Cancelling, job_updated_at := now\<rparr>)
      | _ \<Rightarrow> ([], job))"

definition is_busy :: "file_state \<Rightarrow> bool" where
  "is_busy s \<longleftrightarrow> s = Downloading \<or> s = Verifying \<or> s = Importing"

definition finish_cancel_if_idle :: "nat \<Rightarrow> job \<Rightarrow> bool \<times> job" where
  "finish_cancel_if_idle now job =
     (if job_state job \<noteq> Cancelling then (False, job)
      else if list_ex (\<lambda>f. is_busy (jf_state f)) (job_files job) then (False, job)
      else (True, job\<lparr>job_state := JobCancelled, job_updated_at := now\<rparr>))"

text \<open>The loops of \<open>normalize_after_restart\<close>, from \<open>Running\<close> and from \<open>Cancelling\<close>.\<close>

fun requeue_files :: "job_file list \<Rightarrow> job_file list \<times> str list" where
  "requeue_files [] = ([], [])"
| "requeue_files (file # rest) =
     (let (rest', names) = requeue_files rest in
      if jf_state file = Downloading \<or> jf_state file = Verifying
      then (file\<lparr>jf_state := Queued, jf_staging_name := None\<rparr> # rest',
            (case jf_staging_name file of None \<Rightarrow> names | Some name \<Rightarrow> name # names))
      else if jf_state file = Importing then (file\<lparr>jf_state := Verified\<rparr> # rest', names)
      else (file # rest', names))"

fun abandon_files ::
  "nat \<Rightarrow> job_file list \<Rightarrow> job_file list \<times> str list \<times> reconcile_entry list" where
  "abandon_files index [] = ([], [], [])"
| "abandon_files index (file # rest) =
     (let (rest', names, entries) = abandon_files (index + 1) rest in
      if file_is_terminal (jf_state file) then (file # rest', names, entries)
      else if jf_state file = Importing
      then (file\<lparr>jf_state := FileCancelled\<rparr> # rest', names,
            \<lparr>re_index = index, re_identifier = jf_identifier file, re_file_name = jf_file_name file,
             re_staging_name = jf_staging_name file\<rparr> # entries)
      else (file\<lparr>jf_state := FileCancelled\<rparr> # rest',
            (case jf_staging_name file of None \<Rightarrow> names | Some name \<Rightarrow> name # names), entries))"

definition no_effects :: restart_effects where
  "no_effects = \<lparr>staging_to_delete = [], needs_reconcile = []\<rparr>"

definition normalize_after_restart :: "nat \<Rightarrow> job \<Rightarrow> restart_effects \<times> job" where
  "normalize_after_restart now job =
     (case job_state job of
        Running \<Rightarrow>
          (let (files, names) = requeue_files (job_files job) in
           (\<lparr>staging_to_delete = names, needs_reconcile = []\<rparr>,
            job\<lparr>job_files := files, job_state := Ready, job_updated_at := now\<rparr>))
      | Cancelling \<Rightarrow>
          (let (files, names, entries) = abandon_files 0 (job_files job) in
           (\<lparr>staging_to_delete = names, needs_reconcile = entries\<rparr>,
            job\<lparr>job_files := files, job_state := JobCancelled, job_updated_at := now\<rparr>))
      | _ \<Rightarrow> (no_effects, job))"

section \<open>What the transition tables share\<close>

locale machine =
  fixes allowed :: "'s \<Rightarrow> 's \<Rightarrow> bool" and terminal :: "'s \<Rightarrow> bool"
  assumes terminal_stays: "terminal s \<Longrightarrow> allowed s t \<longleftrightarrow> t = s"
    and others_move: "\<not> terminal s \<Longrightarrow> \<not> allowed s s"
begin

lemma terminal_is_final: "allowed\<^sup>*\<^sup>* s t \<Longrightarrow> terminal s \<Longrightarrow> t = s"
  by (induction rule: rtranclp_induct) (auto simp: terminal_stays)

lemma self_iff: "allowed s s \<longleftrightarrow> terminal s"
  using terminal_stays others_move by blast

lemma never_leaves: "allowed\<^sup>*\<^sup>* s t \<Longrightarrow> terminal s \<Longrightarrow> terminal t"
  using terminal_is_final by blast

end

interpretation file_machine: machine is_file_transition_allowed file_is_terminal
proof
  fix s t
  show "file_is_terminal s \<Longrightarrow> is_file_transition_allowed s t \<longleftrightarrow> t = s"
    by (cases s) (auto simp: is_file_transition_allowed_def)
  show "\<not> file_is_terminal s \<Longrightarrow> \<not> is_file_transition_allowed s s"
    by (simp add: is_file_transition_allowed_def)
qed

interpretation job_machine: machine is_job_transition_allowed job_is_terminal
proof
  fix s t
  show "job_is_terminal s \<Longrightarrow> is_job_transition_allowed s t \<longleftrightarrow> t = s"
    by (cases s) (auto simp: is_job_transition_allowed_def)
  show "\<not> job_is_terminal s \<Longrightarrow> \<not> is_job_transition_allowed s s"
    by (simp add: is_job_transition_allowed_def)
qed

section \<open>What the operations do to the files\<close>

lemma is_success_terminal [simp]: "is_success s \<Longrightarrow> file_is_terminal s"
  by (auto simp: is_success_def)

definition file_cancel :: "job_file \<Rightarrow> job_file" where
  "file_cancel f =
     (if jf_state f = Queued \<or> jf_state f = Verified then f\<lparr>jf_state := FileCancelled\<rparr> else f)"

definition file_requeue :: "job_file \<Rightarrow> job_file" where
  "file_requeue f =
     (if jf_state f = Downloading \<or> jf_state f = Verifying
      then f\<lparr>jf_state := Queued, jf_staging_name := None\<rparr>
      else if jf_state f = Importing then f\<lparr>jf_state := Verified\<rparr> else f)"

definition file_abandon :: "job_file \<Rightarrow> job_file" where
  "file_abandon f =
     (if file_is_terminal (jf_state f) then f else f\<lparr>jf_state := FileCancelled\<rparr>)"

lemma cancel_files_spec:
  "cancel_files fs = (map file_cancel fs,
     somes (map jf_staging_name (filter (\<lambda>f. jf_state f = Verified) fs)))"
  by (induction fs) (auto simp: file_cancel_def split: file_state.splits option.splits)

lemma requeue_files_spec:
  "requeue_files fs = (map file_requeue fs,
     somes (map jf_staging_name
       (filter (\<lambda>f. jf_state f = Downloading \<or> jf_state f = Verifying) fs)))"
  by (induction fs) (auto simp: file_requeue_def split: option.splits)

definition reconcile_of :: "nat \<times> job_file \<Rightarrow> reconcile_entry" where
  "reconcile_of = (\<lambda>(i, f). \<lparr>re_index = i, re_identifier = jf_identifier f,
     re_file_name = jf_file_name f, re_staging_name = jf_staging_name f\<rparr>)"

lemma abandon_files_spec:
  "abandon_files n fs = (map file_abandon fs,
     somes (map jf_staging_name
       (filter (\<lambda>f. \<not> file_is_terminal (jf_state f) \<and> jf_state f \<noteq> Importing) fs)),
     map reconcile_of (filter (\<lambda>(i, f). jf_state f = Importing) (List.enumerate n fs)))"
  by (induction fs arbitrary: n)
    (auto simp: file_abandon_def reconcile_of_def split: option.splits)

lemma file_key_update [simp]:
  "file_key (file_cancel f) = file_key f" "file_key (file_requeue f) = file_key f"
  "file_key (file_abandon f) = file_key f" "file_key (f\<lparr>jf_state := s\<rparr>) = file_key f"
  by (simp_all add: file_key_def file_cancel_def file_requeue_def file_abandon_def)

lemma terminal_file_kept [simp]:
  "file_is_terminal (jf_state f) \<Longrightarrow> jf_state (file_cancel f) = jf_state f"
  "file_is_terminal (jf_state f) \<Longrightarrow> jf_state (file_requeue f) = jf_state f"
  "file_is_terminal (jf_state f) \<Longrightarrow> jf_state (file_abandon f) = jf_state f"
  by (auto simp: file_cancel_def file_requeue_def file_abandon_def)

lemma first_repeated_None:
  "first_repeated seen fs = None \<longleftrightarrow>
     distinct (map file_key fs) \<and> set seen \<inter> set (map file_key fs) = {}"
  by (induction fs arbitrary: seen) auto

section \<open>One operation on a job\<close>

text \<open>
  The operations as the callers use them. \<open>ia_start_import\<close> is the only caller of
  \<open>set_job_state\<close>, with \<open>Ready\<close> from \<open>Draft\<close> and then \<open>Running\<close>. The runner and the importer
  write the other fields of a file directly (\<open>edit\<close>).
\<close>

definition keeps_identity :: "(job_file \<Rightarrow> job_file) \<Rightarrow> bool" where
  "keeps_identity g \<longleftrightarrow> (\<forall>f. file_key (g f) = file_key f \<and> jf_state (g f) = jf_state f)"

inductive job_step :: "job \<Rightarrow> job \<Rightarrow> bool" where
  file_moves: "set_file_state i to now job = Inr job' \<Longrightarrow> job_step job job'"
| job_starts: "to = Ready \<and> job_state job = Draft \<or> to = Running \<Longrightarrow>
    set_job_state to now job = Inr job' \<Longrightarrow> job_step job job'"
| settles: "job_step job (snd (settle_job now job))"
| cancels: "job_step job (snd (request_cancel now job))"
| finishes: "job_step job (snd (finish_cancel_if_idle now job))"
| restarts: "job_step job (snd (normalize_after_restart now job))"
| edits: "keeps_identity g \<Longrightarrow> job_step job (update_file i g job)"

lemma set_file_state_Inr_iff:
  "set_file_state i to now job = Inr job' \<longleftrightarrow>
     i < length (job_files job) \<and> is_file_transition_allowed (jf_state (job_files job ! i)) to \<and>
     job' = (update_file i (\<lambda>f. f\<lparr>jf_state := to\<rparr>) job)\<lparr>job_updated_at := now\<rparr>"
  by (auto simp: set_file_state_def get_at_def)

lemma update_file_files [simp]:
  "job_files (update_file i g job) = (job_files job)[i := g (job_files job ! i)]"
  "job_state (update_file i g job) = job_state job"
  "job_id (update_file i g job) = job_id job"
  by (simp_all add: update_file_def)

lemmas job_ops = set_job_state_def settle_job_def request_cancel_def finish_cancel_if_idle_def
  normalize_after_restart_def cancel_files_spec requeue_files_spec abandon_files_spec Let_def

lemma step_keys: "job_step job job' \<Longrightarrow> map file_key (job_files job') = map file_key (job_files job)"
proof (induction rule: job_step.induct)
  case (file_moves i to now job job')
  then show ?case
    by (simp add: set_file_state_Inr_iff map_update) (metis list_update_id map_update)
next
  case (edits g job i)
  then have "file_key (g (job_files job ! i)) = file_key (job_files job ! i)"
    by (simp add: keeps_identity_def)
  then show ?case by (simp add: map_update) (metis list_update_id map_update)
qed (auto simp: job_ops
    split: if_splits job_state.splits)

definition settled_as :: "job \<Rightarrow> bool" where
  "settled_as job =
     (case job_state job of
        Completed \<Rightarrow> list_all (\<lambda>f. is_success (jf_state f)) (job_files job)
      | Partial \<Rightarrow> list_all (\<lambda>f. file_is_terminal (jf_state f)) (job_files job) \<and>
          list_ex (\<lambda>f. is_success (jf_state f)) (job_files job) \<and>
          list_ex (\<lambda>f. \<not> is_success (jf_state f)) (job_files job)
      | JobFailed \<Rightarrow> list_all (\<lambda>f. file_is_terminal (jf_state f) \<and> \<not> is_success (jf_state f))
          (job_files job)
      | _ \<Rightarrow> True)"

definition states_of :: "job \<Rightarrow> file_state list" where
  "states_of job = map jf_state (job_files job)"

definition settled_states :: "job_state \<Rightarrow> file_state list \<Rightarrow> bool" where
  "settled_states s ss =
     (case s of
        Completed \<Rightarrow> list_all is_success ss
      | Partial \<Rightarrow> list_all file_is_terminal ss \<and> list_ex is_success ss \<and>
          list_ex (\<lambda>s. \<not> is_success s) ss
      | JobFailed \<Rightarrow> list_all (\<lambda>s. file_is_terminal s \<and> \<not> is_success s) ss
      | _ \<Rightarrow> True)"

lemma settled_as_states: "settled_as job = settled_states (job_state job) (states_of job)"
  by (simp add: settled_as_def settled_states_def states_of_def list_all_iff list_ex_iff
      split: job_state.split)

lemma settled_states_terminal:
  "settled_states s ss \<Longrightarrow> job_is_terminal s \<Longrightarrow> s \<noteq> JobCancelled \<Longrightarrow> list_all file_is_terminal ss"
  by (cases s) (auto simp: settled_states_def list_all_iff)

text \<open>A file at its end stays there, whatever operation runs.\<close>

lemma step_terminal_file:
  assumes "job_step job job'" and "i < length (job_files job)"
    and "file_is_terminal (jf_state (job_files job ! i))"
  shows "jf_state (job_files job' ! i) = jf_state (job_files job ! i)"
  using assms
proof (induction rule: job_step.induct)
  case (file_moves k to now job job')
  then show ?case
    by (cases "k = i") (auto simp: set_file_state_Inr_iff file_machine.terminal_stays)
next
  case (edits g job k)
  then show ?case by (cases "k = i") (auto simp: keeps_identity_def)
qed (auto simp: job_ops
    split: if_splits job_state.splits)

lemma step_length: "job_step job job' \<Longrightarrow> length (job_files job') = length (job_files job)"
  using step_keys by (metis length_map)

lemma step_states_terminal:
  assumes "job_step job job'" and "list_all file_is_terminal (states_of job)"
  shows "states_of job' = states_of job"
  using assms step_length step_terminal_file
  by (intro nth_equalityI) (auto simp: states_of_def list_all_length)

text \<open>A job at its end stays there.\<close>

lemma step_terminal_job:
  "job_step job job' \<Longrightarrow> job_is_terminal (job_state job) \<Longrightarrow> job_state job' = job_state job"
proof (induction rule: job_step.induct)
  case (job_starts to job now job')
  then show ?case
    by (auto simp: set_job_state_def job_machine.terminal_stays split: if_splits)
qed (auto simp: set_file_state_Inr_iff job_ops split: if_splits job_state.splits)

lemma settle_settled: "settle_job now job = (Some s, job') \<Longrightarrow> settled_as job'"
  by (auto simp: settle_job_def settled_as_def Let_def list_all_iff list_ex_iff split: if_splits)

lemma step_settled:
  assumes "job_step job job'" and "settled_as job"
  shows "settled_as job'"
proof (cases "job_is_terminal (job_state job) \<and> job_state job \<noteq> JobCancelled")
  case True
  then have "list_all file_is_terminal (states_of job)"
    using assms(2) settled_states_terminal by (simp add: settled_as_states)
  then show ?thesis
    using step_states_terminal [OF assms(1)] step_terminal_job [OF assms(1)] True assms(2)
    by (simp add: settled_as_states)
next
  case False
  have cancelled: "job_state job = JobCancelled \<Longrightarrow> ?thesis"
    using step_terminal_job [OF assms(1)] by (simp add: settled_as_def)
  from assms(1) show ?thesis
  proof cases
    case (settles now)
    then show ?thesis using assms(2) settle_settled [of now job]
      by (cases "settle_job now job"; cases "fst (settle_job now job)")
        (auto simp: settle_job_def Let_def split: if_splits)
  qed (use False cancelled in \<open>auto simp: settled_as_def set_file_state_Inr_iff job_ops
      split: if_splits job_state.splits\<close>)
qed

section \<open>Sample jobs\<close>

definition sample_file :: "string \<Rightarrow> file_state \<Rightarrow> string option \<Rightarrow> job_file" where
  "sample_file name s staging =
     \<lparr>jf_identifier = tx ''item'', jf_file_name = tx name, jf_format = None, jf_source = Original,
      jf_expected_size = Some 9, jf_mtime = None, jf_md5 = None, jf_sha1 = None, jf_state = s,
      jf_attempts = 0, jf_error = None, jf_staging_name = map_option tx staging,
      jf_page_count = Some 1, jf_sha256 = Some (tx ''ab''), jf_item_id = None\<rparr>"

definition sample_job :: "job_state \<Rightarrow> job_file list \<Rightarrow> job" where
  "sample_job s files =
     \<lparr>job_schema = 1, job_id = tx ''j'', job_created_at = 1, job_updated_at = 1,
      job_target = ExistingCollection (tx ''c''), job_state = s, job_files = files,
      job_items = []\<rparr>"

lemmas sample_defs = sample_job_def sample_file_def

section \<open>Properties\<close>

text \<open>
  C20: a job reports its outcome truthfully. Whatever sequence of operations follows
  \<open>Job::new\<close> (moves of files, start, settling, cancellation, restarts, writes to the other
  fields), the job keeps the same files in the same order and without a repetition, and its
  state agrees with them: completed only when every file was imported or skipped as a
  duplicate, partial only when all are at their end with some imported and some not, failed only
  when all are at their end and none was imported.
\<close>

theorem reachable_job_is_settled_as_stated:
  assumes "new_job jid now target files = Inr job0" and "job_step\<^sup>*\<^sup>* job0 job"
  shows "map file_key (job_files job) = map file_key files \<and> distinct (map file_key (job_files job))
    \<and> settled_as job"
proof -
  have new: "distinct (map file_key files)" "job_files job0 = files" "settled_as job0"
    using assms(1) first_repeated_None [of "[]" files]
    by (auto simp: new_job_def settled_as_def split: if_splits option.splits)
  from assms(2) have "map file_key (job_files job) = map file_key (job_files job0) \<and> settled_as job"
    using new by (induction rule: rtranclp_induct) (auto simp: step_keys intro: step_settled)
  with new show ?thesis by metis
qed

theorem reachable_job_is_settled_as_stated_witness:
  "\<exists>job. job_step\<^sup>*\<^sup>* (sample_job Draft [sample_file ''a.pdf'' Queued None]) job
     \<and> job_state job = JobFailed \<and> settled_as job
     \<and> map file_key (job_files job) = [(tx ''item'', tx ''a.pdf'')]"
proof -
  let ?f = "sample_file ''a.pdf'' Queued None"
  let ?j0 = "sample_job Draft [?f]"
  let ?j1 = "?j0\<lparr>job_state := Ready, job_updated_at := 1\<rparr>"
  let ?j2 = "?j1\<lparr>job_state := Running, job_updated_at := 1\<rparr>"
  let ?j3 = "(update_file 0 (\<lambda>f. f\<lparr>jf_state := Unavailable\<rparr>) ?j2)\<lparr>job_updated_at := 1\<rparr>"
  let ?j4 = "snd (settle_job 1 ?j3)"
  have new: "new_job (tx ''j'') 1 (ExistingCollection (tx ''c'')) [?f] = Inr ?j0"
    by (simp add: new_job_def sample_job_def job_schema_version_def)
  have "job_step ?j0 ?j1"
    by (rule job_starts [of Ready _ 1]) (simp_all add: set_job_state_def sample_job_def
        is_job_transition_allowed_def)
  moreover have "job_step ?j1 ?j2"
    by (rule job_starts [of Running _ 1]) (simp_all add: set_job_state_def sample_job_def
        is_job_transition_allowed_def)
  moreover have "job_step ?j2 ?j3"
    by (rule file_moves [of 0 Unavailable 1]) (simp add: set_file_state_Inr_iff sample_defs
        is_file_transition_allowed_def)
  moreover have "job_step ?j3 ?j4" by (rule settles)
  ultimately have run: "job_step\<^sup>*\<^sup>* ?j0 ?j4"
    by (meson rtranclp.rtrancl_into_rtrancl rtranclp.rtrancl_refl)
  moreover have "job_state ?j4 = JobFailed"
    by (simp add: settle_job_def sample_defs update_file_def is_success_def Let_def)
  ultimately show ?thesis
    using reachable_job_is_settled_as_stated [OF new run]
    by (intro exI [of _ ?j4]) (simp add: file_key_def sample_file_def)
qed

text \<open>
  What is over stays over. No sequence of operations moves a file that is imported,
  skipped, unavailable, failed or cancelled, nor a job that is completed, partial, failed or
  cancelled.
\<close>

theorem finished_stays_finished:
  assumes "job_step\<^sup>*\<^sup>* job job'"
  shows "length (job_files job') = length (job_files job) \<and>
    (job_is_terminal (job_state job) \<longrightarrow> job_state job' = job_state job) \<and>
    (\<forall>i < length (job_files job). file_is_terminal (jf_state (job_files job ! i)) \<longrightarrow>
      jf_state (job_files job' ! i) = jf_state (job_files job ! i))"
  using assms
proof (induction rule: rtranclp_induct)
  case (step y z)
  then show ?case
    using step_length step_terminal_job step_terminal_file by (metis (no_types, lifting))
qed simp

lemma somes_filter_names:
  assumes "distinct (somes (map g xs))" and "x \<in> set xs" and "g x = Some n"
    and "n \<in> set (somes (map g (filter P xs)))"
  shows "P x"
  using assms
proof (induction xs)
  case (Cons y ys)
  have up: "m \<in> set (somes (map g (filter P ys))) \<Longrightarrow> m \<in> set (somes (map g ys))" for m
    by (auto simp: set_somes)
  show ?case
  proof (cases "g y")
    case None
    then have "x \<noteq> y" using Cons.prems(3) by auto
    with None Cons show ?thesis by (cases "P y") simp_all
  next
    case (Some m)
    have ys: "m \<notin> set (somes (map g ys))" "distinct (somes (map g ys))"
      using Cons.prems(1) Some by simp_all
    show ?thesis
    proof (cases "m = n")
      case True
      then have "x \<notin> set ys" using ys(1) Cons.prems(3) by (force simp: set_somes)
      then have "x = y" using Cons.prems(2) by simp
      with True Cons.prems(4) ys(1) up Some show ?thesis by (cases "P y") auto
    next
      case False
      then have "x \<noteq> y" using Some Cons.prems(3) by auto
      with False Some ys(2) Cons show ?thesis by (cases "P y") simp_all
    qed
  qed
qed simp

lemma not_busy_iff: "\<not> is_busy (jf_state f) \<longleftrightarrow>
   jf_state f = Queued \<or> jf_state f = Verified \<or> file_is_terminal (jf_state f)"
  by (cases "jf_state f") (auto simp: is_busy_def)

lemma file_requeue_idle [simp]: "\<not> is_busy (jf_state (file_requeue f))"
  by (simp add: file_requeue_def is_busy_def)

lemma file_abandon_idle [simp]: "file_is_terminal (jf_state (file_abandon f))"
  by (simp add: file_abandon_def)

lemma terminal_not_busy [simp]: "file_is_terminal s \<Longrightarrow> \<not> is_busy s"
  by (cases s) (auto simp: is_busy_def)

theorem finished_stays_finished_witness:
  "(let job = sample_job Running [sample_file ''a.pdf'' Imported None, sample_file ''b.pdf'' Queued None]
    in jf_state (job_files (snd (request_cancel 5 job)) ! 0) = Imported)"
proof -
  let ?j = "sample_job Running [sample_file ''a.pdf'' Imported None, sample_file ''b.pdf'' Queued None]"
  have "job_step\<^sup>*\<^sup>* ?j (snd (request_cancel 5 ?j))" by (blast intro: cancels)
  from finished_stays_finished [OF this] show ?thesis
    by (auto simp: sample_defs)
qed

text \<open>
  C23: a restart recovers an interrupted job, once. Of a running job it puts the downloads and
  verifications back in the queue, the imports back to verified, and leaves the rest as it is;
  of a job being cancelled it ends every file and lists exactly the interrupted imports for
  reconciliation. No file is left busy, a second restart changes nothing, and, when staging
  names are not shared, the staging of an interrupted import or of a verified file that can
  still be imported is never among the files to delete.
\<close>

theorem restart_recovers_once:
  assumes "normalize_after_restart now job = (effects, job')"
    and "job_state job = Running \<or> job_state job = Cancelling"
    and "distinct (somes (map jf_staging_name (job_files job)))"
  shows "normalize_after_restart later job' = (no_effects, job')
    \<and> list_all (\<lambda>f. \<not> is_busy (jf_state f)) (job_files job')
    \<and> (if job_state job = Running
       then job_state job' = Ready \<and> job_files job' = map file_requeue (job_files job)
         \<and> needs_reconcile effects = []
       else job_state job' = JobCancelled
         \<and> list_all (\<lambda>f. file_is_terminal (jf_state f)) (job_files job')
         \<and> needs_reconcile effects = map reconcile_of
             (filter (\<lambda>(i, f). jf_state f = Importing) (List.enumerate 0 (job_files job))))
    \<and> (\<forall>f \<in> set (job_files job). jf_state f = Importing
         \<or> jf_state f = Verified \<and> job_state job = Running \<longrightarrow>
         (\<forall>name. jf_staging_name f = Some name \<longrightarrow> name \<notin> set (staging_to_delete effects)))"
proof -
  from assms(2) show ?thesis
  proof
    assume run: "job_state job = Running"
    with assms(1) have e: "effects = \<lparr>staging_to_delete = somes (map jf_staging_name
        (filter (\<lambda>f. jf_state f = Downloading \<or> jf_state f = Verifying) (job_files job))),
        needs_reconcile = []\<rparr>"
      and j: "job_files job' = map file_requeue (job_files job)" "job_state job' = Ready"
      by (auto simp: job_ops)
    have "normalize_after_restart later job' = (no_effects, job')"
      using j(2) by (simp add: normalize_after_restart_def)
    moreover have "list_all (\<lambda>f. \<not> is_busy (jf_state f)) (job_files job')"
      using j(1) by (simp add: list_all_iff)
    ultimately show ?thesis using run e j by (auto dest: somes_filter_names [OF assms(3)])
  next
    assume cancelling: "job_state job = Cancelling"
    with assms(1) have e: "effects = \<lparr>staging_to_delete = somes (map jf_staging_name (filter
        (\<lambda>f. \<not> file_is_terminal (jf_state f) \<and> jf_state f \<noteq> Importing) (job_files job))),
        needs_reconcile = map reconcile_of
          (filter (\<lambda>(i, f). jf_state f = Importing) (List.enumerate 0 (job_files job)))\<rparr>"
      and j: "job_files job' = map file_abandon (job_files job)" "job_state job' = JobCancelled"
      by (auto simp: job_ops)
    have "normalize_after_restart later job' = (no_effects, job')"
      using j(2) by (simp add: normalize_after_restart_def)
    moreover have "list_all (\<lambda>f. file_is_terminal (jf_state f)) (job_files job')"
      "list_all (\<lambda>f. \<not> is_busy (jf_state f)) (job_files job')"
      using j(1) by (simp_all add: list_all_iff)
    ultimately show ?thesis using cancelling e j by (auto dest: somes_filter_names [OF assms(3)])
  qed
qed

theorem restart_recovers_once_witness:
  "(let job = sample_job Cancelling [sample_file ''a.pdf'' Importing (Some ''s''),
       sample_file ''b.pdf'' Downloading (Some ''t'')];
       (effects, job') = normalize_after_restart 5 job
    in staging_to_delete effects = [tx ''t''] \<and>
       map re_index (needs_reconcile effects) = [0] \<and>
       normalize_after_restart 6 job' = (no_effects, job'))"
proof -
  let ?j = "sample_job Cancelling [sample_file ''a.pdf'' Importing (Some ''s''),
       sample_file ''b.pdf'' Downloading (Some ''t'')]"
  obtain e j' where n: "normalize_after_restart 5 ?j = (e, j')" by fastforce
  then have "staging_to_delete e = [tx ''t'']" "map re_index (needs_reconcile e) = [0]"
    by (auto simp: job_ops sample_defs reconcile_of_def)
  with n restart_recovers_once [OF n, of 6] show ?thesis
    by (simp add: sample_defs)
qed

text \<open>
  Cancelling an idle running job ends it. When no file is being downloaded, verified or
  imported, the request and the check that follows it leave the job cancelled with every file
  at its end, files already at their end keep their state, and the staging files to delete are
  exactly those of the verified files.
\<close>

theorem cancel_of_idle_job_ends_it:
  assumes "job_state job = Running" and "list_all (\<lambda>f. \<not> is_busy (jf_state f)) (job_files job)"
    and "request_cancel now job = (names, job1)" and "finish_cancel_if_idle later job1 = (b, job2)"
  shows "b \<and> job_state job2 = JobCancelled
    \<and> list_all (\<lambda>f. file_is_terminal (jf_state f)) (job_files job2)
    \<and> (\<forall>i < length (job_files job). file_is_terminal (jf_state (job_files job ! i)) \<longrightarrow>
         jf_state (job_files job2 ! i) = jf_state (job_files job ! i))
    \<and> names = somes (map jf_staging_name (filter (\<lambda>f. jf_state f = Verified) (job_files job)))"
proof -
  have files: "job_files job1 = map file_cancel (job_files job)" "job_state job1 = Cancelling"
    "names = somes (map jf_staging_name (filter (\<lambda>f. jf_state f = Verified) (job_files job)))"
    using assms(1,3) by (auto simp: job_ops)
  have ends: "file_is_terminal (jf_state (file_cancel f))" if "f \<in> set (job_files job)" for f
    using assms(2) that by (auto simp: list_all_iff not_busy_iff file_cancel_def)
  then have "b" "job_state job2 = JobCancelled" "job_files job2 = job_files job1"
    using assms(4) files by (auto simp: finish_cancel_if_idle_def list_ex_iff split: if_splits)
  then show ?thesis using files ends by (simp add: list_all_iff)
qed

theorem cancel_of_idle_job_ends_it_witness:
  "(let job = sample_job Running [sample_file ''a.pdf'' Verified (Some ''s''),
       sample_file ''b.pdf'' Imported None, sample_file ''c.pdf'' Queued None];
       (names, job1) = request_cancel 5 job;
       (b, job2) = finish_cancel_if_idle 6 job1
    in names = [tx ''s''] \<and> b \<and> job_state job2 = JobCancelled)"
proof -
  let ?j = "sample_job Running [sample_file ''a.pdf'' Verified (Some ''s''),
       sample_file ''b.pdf'' Imported None, sample_file ''c.pdf'' Queued None]"
  obtain names j1 b j2 where n: "request_cancel 5 ?j = (names, j1)"
    "finish_cancel_if_idle 6 j1 = (b, j2)"
    by (metis surj_pair)
  have "job_state ?j = Running" "list_all (\<lambda>f. \<not> is_busy (jf_state f)) (job_files ?j)"
    by (simp_all add: sample_defs is_busy_def)
  from cancel_of_idle_job_ends_it [OF this n] n show ?thesis
    by (simp add: sample_defs)
qed

end
