(* ===== verification/IaProvenance.thy ===== *)
theory IaProvenance
  imports IaJob
begin

text \<open>
  The provenance record of an imported document (\<open>crates/internet-archive/src/provenance.rs\<close>):
  how it is built from a verified file within 64 KiB, and how it is read back from the metadata
  of an item.

  The size of the serialized document is \<open>serde_json\<close>'s, the parameter \<open>encoded_len\<close> (\<open>None\<close> when
  serialization fails); building the two URLs is the \<open>url\<close> crate's, the parameters \<open>item_url\<close> and
  \<open>download_url\<close>. Reading a text as JSON is the parameter \<open>from_str\<close>. The truncation loop is a
  \<open>function\<close> whose termination proof is the measure \<open>free_text\<close>: every pass that continues makes
  it smaller, so no input makes the code loop.
\<close>

section \<open>Data\<close>

definition provenance_key :: str where
  "provenance_key = tx ''__entropia_internet_archive''"

definition max_provenance_bytes :: nat where
  "max_provenance_bytes = 64 * 1024"

definition provenance_schema :: nat where
  "provenance_schema = 1"

definition provider :: str where
  "provider = tx ''internet_archive''"

definition trunc_marker :: str where
  "trunc_marker = 8230 # tx ''[truncado]''"

definition trunc_slack :: nat where
  "trunc_slack = 64"

datatype provenance_error = MissingSha256 | MissingPageCount | ProvenanceTooLarge | UrlError | JsonError

record provenance_record =
  pr_item_id :: str
  pr_collection_id :: str
  pr_identifier :: str
  pr_file_name :: str
  pr_md5 :: "str option"
  pr_sha1 :: "str option"
  pr_size :: "nat option"
  pr_mtime :: "nat option"
  pr_sha256_local :: "str option"
  pr_page_count :: "nat option"

record provenance_parts =
  pp_identifier :: str
  pp_file_name :: str
  pp_md5 :: "str option"
  pp_sha1 :: "str option"
  pp_size :: "nat option"
  pp_mtime :: "nat option"
  pp_sha256_local :: "str option"
  pp_page_count :: "nat option"

record provenance_doc =
  pd_schema :: nat
  pd_provider :: str
  pd_identifier :: str
  pd_file_name :: str
  pd_item_url :: str
  pd_download_url :: str
  pd_source :: str
  pd_size :: "nat option"
  pd_mtime :: "nat option"
  pd_md5 :: "str option"
  pd_sha1 :: "str option"
  pd_sha256_local :: str
  pd_page_count :: nat
  pd_retrieved_at :: nat
  pd_title :: "str option"
  pd_creators :: "str list"
  pd_date :: "str option"
  pd_languages :: "str list"
  pd_collections :: "str list"
  pd_rights :: "str option"
  pd_license_url :: "str option"

definition source_str :: "file_source \<Rightarrow> str" where
  "source_str source =
     (case source of
        Original \<Rightarrow> tx ''original''
      | Derivative \<Rightarrow> tx ''derivative''
      | OtherSource value \<Rightarrow> value
      | UnknownSource \<Rightarrow> tx ''unknown'')"

text \<open>The derived \<open>Serialize\<close>: the fields by name, absent options skipped.\<close>

definition optional :: "string \<Rightarrow> ('a \<Rightarrow> json) \<Rightarrow> 'a option \<Rightarrow> (str \<times> json) list" where
  "optional name f v = (case v of None \<Rightarrow> [] | Some x \<Rightarrow> [(tx name, f x)])"

definition json_nat :: "nat \<Rightarrow> json" where
  "json_nat n = JNumber (PosInt n)"

definition json_strings :: "str list \<Rightarrow> json" where
  "json_strings xs = JArray (map JString xs)"

definition doc_fields :: "provenance_doc \<Rightarrow> (str \<times> json) list" where
  "doc_fields d =
     [(tx ''schema'', json_nat (pd_schema d)), (tx ''provider'', JString (pd_provider d)),
      (tx ''identifier'', JString (pd_identifier d)), (tx ''file_name'', JString (pd_file_name d)),
      (tx ''item_url'', JString (pd_item_url d)), (tx ''download_url'', JString (pd_download_url d)),
      (tx ''source'', JString (pd_source d))] @
     optional ''size'' json_nat (pd_size d) @ optional ''mtime'' json_nat (pd_mtime d) @
     optional ''md5'' JString (pd_md5 d) @ optional ''sha1'' JString (pd_sha1 d) @
     [(tx ''sha256_local'', JString (pd_sha256_local d)), (tx ''page_count'', json_nat (pd_page_count d)),
      (tx ''retrieved_at'', json_nat (pd_retrieved_at d))] @
     optional ''title'' JString (pd_title d) @
     [(tx ''creators'', json_strings (pd_creators d))] @ optional ''date'' JString (pd_date d) @
     [(tx ''languages'', json_strings (pd_languages d)),
      (tx ''collections'', json_strings (pd_collections d))] @
     optional ''rights'' JString (pd_rights d) @ optional ''license_url'' JString (pd_license_url d)"

definition doc_value :: "provenance_doc \<Rightarrow> json" where
  "doc_value d = JObject (fold (\<lambda>(k, v) m. jinsert k v m) (doc_fields d) [])"

section \<open>Truncation\<close>

text \<open>The longest prefix of at most \<open>n\<close> bytes: \<open>cut\<close> moved back to a character boundary.\<close>

fun take_bytes :: "nat \<Rightarrow> str \<Rightarrow> str" where
  "take_bytes n [] = []"
| "take_bytes n (c # cs) =
     (if utf8_width c \<le> n then c # take_bytes (n - utf8_width c) cs else [])"

definition strip_marker :: "str \<Rightarrow> str" where
  "strip_marker t =
     (if ends_with trunc_marker t then take (length t - length trunc_marker) t else t)"

text \<open>\<open>None\<close> stands for \<open>false\<close>: the field is left alone.\<close>

definition truncate_text :: "nat \<Rightarrow> str \<Rightarrow> str option" where
  "truncate_text excess current =
     (if utf8_len current \<le> utf8_len trunc_marker \<or> current = trunc_marker then None
      else
        (let new_total = utf8_len current - sat_add64 excess trunc_slack;
             prefix_target = new_total - utf8_len trunc_marker;
             inner = strip_marker current;
             next = take_bytes (min prefix_target (utf8_len inner)) inner @ trunc_marker;
             half = take_bytes (utf8_len inner div 2) inner @ trunc_marker
         in if utf8_len next < utf8_len current then Some next
            else if utf8_len half < utf8_len current then Some half
            else None))"

definition truncate_opt_string :: "nat \<Rightarrow> str option \<Rightarrow> str option option" where
  "truncate_opt_string excess field =
     (case field of None \<Rightarrow> None | Some current \<Rightarrow> map_option Some (truncate_text excess current))"

text \<open>How many entries of a list are data and not the final marker.\<close>

definition has_marker :: "str list \<Rightarrow> bool" where
  "has_marker list \<longleftrightarrow> list \<noteq> [] \<and> last list = trunc_marker"

definition data_len :: "str list \<Rightarrow> nat" where
  "data_len list = (if has_marker list then length list - 1 else length list)"

definition truncate_list :: "nat \<Rightarrow> str list \<Rightarrow> str list option" where
  "truncate_list excess list =
     (if list = [] \<or> list = [trunc_marker] \<or> data_len list = 0 then None
      else
        (let data_total = sum_list (map (\<lambda>entry. sat_add64 (utf8_len entry) 3) (take (data_len list) list));
             avg = max 1 (data_total div data_len list);
             to_drop = min (max 1 (excess div avg + 1)) (data_len list)
         in Some (take (data_len list - to_drop) list @ [trunc_marker])))"

text \<open>One pass of the loop: the first field that can be shortened.\<close>

definition shorten :: "nat \<Rightarrow> provenance_doc \<Rightarrow> provenance_doc option" where
  "shorten excess doc =
     (case truncate_opt_string excess (pd_rights doc) of
        Some v \<Rightarrow> Some (doc\<lparr>pd_rights := v\<rparr>)
      | None \<Rightarrow> (case truncate_opt_string excess (pd_title doc) of
        Some v \<Rightarrow> Some (doc\<lparr>pd_title := v\<rparr>)
      | None \<Rightarrow> (case truncate_list excess (pd_creators doc) of
        Some v \<Rightarrow> Some (doc\<lparr>pd_creators := v\<rparr>)
      | None \<Rightarrow> (case truncate_list excess (pd_collections doc) of
        Some v \<Rightarrow> Some (doc\<lparr>pd_collections := v\<rparr>)
      | None \<Rightarrow> (case truncate_list excess (pd_languages doc) of
        Some v \<Rightarrow> Some (doc\<lparr>pd_languages := v\<rparr>)
      | None \<Rightarrow> None)))))"

definition text_weight :: "str option \<Rightarrow> nat" where
  "text_weight v = (case v of None \<Rightarrow> 0 | Some t \<Rightarrow> utf8_len t)"

definition free_text :: "provenance_doc \<Rightarrow> nat" where
  "free_text d = text_weight (pd_rights d) + text_weight (pd_title d) + data_len (pd_creators d) +
     data_len (pd_collections d) + data_len (pd_languages d)"

lemma truncate_text_less: "truncate_text e t = Some t' \<Longrightarrow> utf8_len t' < utf8_len t"
  by (auto simp: truncate_text_def Let_def split: if_splits)

lemma truncate_opt_string_less:
  "truncate_opt_string e v = Some v' \<Longrightarrow> text_weight v' < text_weight v"
  by (auto simp: truncate_opt_string_def text_weight_def truncate_text_less split: option.splits)

lemma data_len_marker [simp]: "data_len (xs @ [trunc_marker]) = length xs"
  by (simp add: data_len_def has_marker_def)

lemma data_len_single [simp]: "data_len [trunc_marker] = 0"
  by (simp add: data_len_def has_marker_def)

lemma data_len_le: "data_len xs \<le> length xs"
  by (simp add: data_len_def)

lemma truncate_list_less: "truncate_list e xs = Some xs' \<Longrightarrow> data_len xs' < data_len xs"
proof -
  assume t: "truncate_list e xs = Some xs'"
  then obtain k where k: "xs' = take (data_len xs - k) xs @ [trunc_marker]" "1 \<le> k" "0 < data_len xs"
    by (auto simp: truncate_list_def Let_def split: if_splits intro!: that)
  have "data_len xs' = min (length xs) (data_len xs - k)"
    by (simp only: k(1) data_len_marker length_take)
  with k(2,3) show ?thesis by simp
qed

lemma shorten_less: "shorten e d = Some d' \<Longrightarrow> free_text d' < free_text d"
  by (auto simp: shorten_def free_text_def dest: truncate_opt_string_less truncate_list_less
      split: option.splits)

function fit :: "(provenance_doc \<Rightarrow> nat option) \<Rightarrow> provenance_doc \<Rightarrow> provenance_error + provenance_doc" where
  "fit encoded_len doc =
     (case encoded_len doc of
        None \<Rightarrow> Inl JsonError
      | Some len \<Rightarrow>
          if len \<le> max_provenance_bytes then Inr doc
          else (case shorten (len - max_provenance_bytes) doc of
            None \<Rightarrow> Inl ProvenanceTooLarge
          | Some doc' \<Rightarrow> fit encoded_len doc'))"
  by auto

termination fit
  by (relation "measure (\<lambda>(_, doc). free_text doc)") (auto dest: shorten_less)

declare fit.simps [simp del]

definition build_doc ::
  "(str \<Rightarrow> str option) \<Rightarrow> (str \<Rightarrow> str \<Rightarrow> str option) \<Rightarrow> job_file \<Rightarrow> item_snapshot option \<Rightarrow> nat \<Rightarrow>
   provenance_error + provenance_doc" where
  "build_doc item_url download_url file item retrieved_at =
     (case opt_filter (\<lambda>hash. trim hash \<noteq> []) (jf_sha256 file) of
        None \<Rightarrow> Inl MissingSha256
      | Some sha256_local \<Rightarrow>
      (case jf_page_count file of
        None \<Rightarrow> Inl MissingPageCount
      | Some page_count \<Rightarrow>
      (case (item_url (jf_identifier file), download_url (jf_identifier file) (jf_file_name file)) of
        (Some iu, Some du) \<Rightarrow>
          (let snapshot = unwrap_or \<lparr>sn_identifier = jf_identifier file, sn_title = None,
                 sn_creators = [], sn_date = None, sn_languages = [], sn_collections = [],
                 sn_rights = None, sn_license_url = None\<rparr> item
           in Inr \<lparr>pd_schema = provenance_schema, pd_provider = provider,
             pd_identifier = jf_identifier file, pd_file_name = jf_file_name file,
             pd_item_url = iu, pd_download_url = du, pd_source = source_str (jf_source file),
             pd_size = jf_expected_size file, pd_mtime = jf_mtime file, pd_md5 = jf_md5 file,
             pd_sha1 = jf_sha1 file, pd_sha256_local = sha256_local, pd_page_count = page_count,
             pd_retrieved_at = retrieved_at, pd_title = sn_title snapshot,
             pd_creators = sn_creators snapshot, pd_date = sn_date snapshot,
             pd_languages = sn_languages snapshot, pd_collections = sn_collections snapshot,
             pd_rights = sn_rights snapshot, pd_license_url = sn_license_url snapshot\<rparr>)
      | _ \<Rightarrow> Inl UrlError)))"

definition build_provenance ::
  "(provenance_doc \<Rightarrow> nat option) \<Rightarrow> (str \<Rightarrow> str option) \<Rightarrow> (str \<Rightarrow> str \<Rightarrow> str option) \<Rightarrow>
   job_file \<Rightarrow> item_snapshot option \<Rightarrow> nat \<Rightarrow> provenance_error + json" where
  "build_provenance encoded_len item_url download_url file item retrieved_at =
     (case build_doc item_url download_url file item retrieved_at of
        Inl e \<Rightarrow> Inl e
      | Inr doc \<Rightarrow> (case fit encoded_len doc of Inl e \<Rightarrow> Inl e | Inr d \<Rightarrow> Inr (doc_value d)))"

section \<open>Reading back\<close>

definition opt_u64 :: "json option \<Rightarrow> nat option" where
  "opt_u64 value = Option.bind value decimal_u64"

definition opt_u32 :: "json option \<Rightarrow> nat option" where
  "opt_u32 value = opt_filter (\<lambda>n. n \<le> u32_max) (opt_u64 value)"

definition opt_string :: "json option \<Rightarrow> str option" where
  "opt_string value = Option.bind value as_str"

definition parse_provenance :: "(str \<Rightarrow> json option) \<Rightarrow> str \<Rightarrow> provenance_parts option" where
  "parse_provenance from_str metadata =
     Option.bind (from_str metadata) (\<lambda>root.
     Option.bind (as_object root) (\<lambda>m.
     Option.bind (Option.bind (jget m provenance_key) as_object) (\<lambda>obj.
     Option.bind (opt_string (jget obj (tx ''identifier''))) (\<lambda>identifier.
     Option.bind (opt_string (jget obj (tx ''file_name''))) (\<lambda>file_name.
       Some \<lparr>pp_identifier = identifier,
         pp_file_name = file_name, pp_md5 = opt_string (jget obj (tx ''md5'')),
         pp_sha1 = opt_string (jget obj (tx ''sha1'')), pp_size = opt_u64 (jget obj (tx ''size'')),
         pp_mtime = opt_u64 (jget obj (tx ''mtime'')),
         pp_sha256_local = opt_string (jget obj (tx ''sha256_local'')),
         pp_page_count = opt_u32 (jget obj (tx ''page_count''))\<rparr>)))))"

definition from_row ::
  "(str \<Rightarrow> json option) \<Rightarrow> str \<Rightarrow> str \<Rightarrow> str \<Rightarrow> provenance_record option" where
  "from_row from_str item_id collection_id metadata =
     map_option (\<lambda>parts.
         \<lparr>pr_item_id = item_id, pr_collection_id = collection_id, pr_identifier = pp_identifier parts,
          pr_file_name = pp_file_name parts, pr_md5 = pp_md5 parts, pr_sha1 = pp_sha1 parts,
          pr_size = pp_size parts, pr_mtime = pp_mtime parts,
          pr_sha256_local = pp_sha256_local parts, pr_page_count = pp_page_count parts\<rparr>)
       (parse_provenance from_str metadata)"

section \<open>What truncation keeps\<close>

definition shortened_text :: "str option \<Rightarrow> str option \<Rightarrow> bool" where
  "shortened_text v v' \<longleftrightarrow> v' = v \<or> (\<exists>t k. v = Some t \<and> v' = Some (take k t @ trunc_marker))"

definition shortened_list :: "str list \<Rightarrow> str list \<Rightarrow> bool" where
  "shortened_list xs xs' \<longleftrightarrow> xs' = xs \<or> (\<exists>k. xs' = take k xs @ [trunc_marker])"

lemma take_bytes_take: "\<exists>k. take_bytes n t = take k t"
proof (induction n t rule: take_bytes.induct)
  case (2 n c cs)
  show ?case
  proof (cases "utf8_width c \<le> n")
    case True
    with 2 obtain k where "take_bytes (n - utf8_width c) cs = take k cs" by blast
    with True have "take_bytes n (c # cs) = take (Suc k) (c # cs)" by simp
    then show ?thesis by blast
  next
    case False
    then have "take_bytes n (c # cs) = take 0 (c # cs)" by simp
    then show ?thesis by blast
  qed
qed simp

lemma utf8_len_take_bytes: "utf8_len (take_bytes n t) \<le> n"
  by (induction n t rule: take_bytes.induct) (auto simp: utf8_len_def)

lemma strip_marker_append [simp]: "strip_marker (t @ trunc_marker) = t"
  by (simp add: strip_marker_def ends_with_def)

lemma strip_marker_take: "\<exists>k. strip_marker t = take k t"
  by (metis order_refl strip_marker_def take_all)

lemma truncate_text_shape:
  "truncate_text e t = Some t' \<Longrightarrow> \<exists>k. t' = take k (strip_marker t) @ trunc_marker"
  using take_bytes_take [of _ "strip_marker t"]
  by (fastforce simp: truncate_text_def Let_def split: if_splits)

lemma shortened_text_step:
  assumes "shortened_text v0 v" and "truncate_opt_string e v = Some v'"
  shows "shortened_text v0 v'"
proof -
  from assms(2) obtain t t' where t: "v = Some t" "v' = Some t'" "truncate_text e t = Some t'"
    by (auto simp: truncate_opt_string_def split: option.splits)
  then obtain k where k: "t' = take k (strip_marker t) @ trunc_marker" using truncate_text_shape by blast
  from assms(1) t(1) consider "v0 = Some t" | t0 j where "v0 = Some t0" "t = take j t0 @ trunc_marker"
    by (auto simp: shortened_text_def)
  then show ?thesis
  proof cases
    case 1
    obtain j where "strip_marker t = take j t" using strip_marker_take by blast
    with 1 k t(2) show ?thesis by (auto simp: shortened_text_def)
  next
    case 2
    with k t(2) show ?thesis by (auto simp: shortened_text_def)
  qed
qed

lemma truncate_list_shape:
  "truncate_list e xs = Some xs' \<Longrightarrow> \<exists>k \<le> data_len xs. xs' = take k xs @ [trunc_marker]"
proof -
  assume "truncate_list e xs = Some xs'"
  then obtain d where "xs' = take (data_len xs - d) xs @ [trunc_marker]"
    by (auto simp: truncate_list_def Let_def split: if_splits intro!: that)
  then show ?thesis by (intro exI [of _ "data_len xs - d"]) simp
qed

lemma shortened_list_step:
  assumes "shortened_list xs0 xs" and "truncate_list e xs = Some xs'"
  shows "shortened_list xs0 xs'"
proof -
  obtain k where k: "k \<le> data_len xs" "xs' = take k xs @ [trunc_marker]"
    using truncate_list_shape [OF assms(2)] by blast
  show ?thesis
  proof (cases "xs = xs0")
    case False
    with assms(1) obtain j where j: "xs = take j xs0 @ [trunc_marker]" by (auto simp: shortened_list_def)
    then have "k \<le> length (take j xs0)" using k(1) by simp
    then have "take k xs = take (min k j) xs0" by (simp add: j)
    with k(2) show ?thesis by (auto simp: shortened_list_def)
  qed (use k in \<open>auto simp: shortened_list_def\<close>)
qed

text \<open>The same document with some free text shortened.\<close>

definition fixed_part :: "provenance_doc \<Rightarrow> provenance_doc" where
  "fixed_part d = d\<lparr>pd_title := None, pd_creators := [], pd_languages := [], pd_collections := [],
     pd_rights := None\<rparr>"

definition shortens :: "provenance_doc \<Rightarrow> provenance_doc \<Rightarrow> bool" where
  "shortens d d' \<longleftrightarrow>
     shortened_text (pd_rights d) (pd_rights d') \<and> shortened_text (pd_title d) (pd_title d') \<and>
     shortened_list (pd_creators d) (pd_creators d') \<and>
     shortened_list (pd_collections d) (pd_collections d') \<and>
     shortened_list (pd_languages d) (pd_languages d') \<and>
     fixed_part d' = fixed_part d"

lemma shortens_refl [simp]: "shortens d d"
  by (simp add: shortens_def shortened_text_def shortened_list_def)

lemma shortens_step: "shortens d0 d \<Longrightarrow> shorten e d = Some d' \<Longrightarrow> shortens d0 d'"
  unfolding shortens_def shorten_def fixed_part_def
  by (auto intro: shortened_text_step shortened_list_step split: option.splits)

lemma fit_shortens:
  "fit len d = Inr d' \<Longrightarrow> shortens d0 d \<Longrightarrow>
     shortens d0 d' \<and> (\<exists>n \<le> max_provenance_bytes. len d' = Some n)"
proof (induction len d rule: fit.induct)
  case (1 len d)
  then show ?case
    by (subst (asm) (2) fit.simps) (auto split: option.splits if_splits dest: shortens_step)
qed

text \<open>When nothing can be shortened, almost nothing is left.\<close>

lemma trunc_marker_len [simp]: "utf8_len trunc_marker = 13"
  by (simp add: trunc_marker_def utf8_len_def utf8_width_def tx_def)

lemma utf8_len_strip_marker:
  "ends_with trunc_marker t \<Longrightarrow> utf8_len t = utf8_len (strip_marker t) + 13"
  by (metis append_take_drop_id ends_with_def strip_marker_def sum_list.append map_append trunc_marker_len
      utf8_len_def)

lemma truncate_text_None: "truncate_text e t = None \<Longrightarrow> utf8_len t \<le> 26"
proof (rule ccontr)
  assume n: "truncate_text e t = None" and "\<not> utf8_len t \<le> 26"
  then have big: "26 < utf8_len t" by simp
  let ?half = "take_bytes (utf8_len (strip_marker t) div 2) (strip_marker t) @ trunc_marker"
  have "t \<noteq> trunc_marker" using big by auto
  with n big have "\<not> utf8_len ?half < utf8_len t"
    by (auto simp: truncate_text_def Let_def split: if_splits)
  moreover have "utf8_len ?half \<le> utf8_len (strip_marker t) div 2 + 13"
    using utf8_len_take_bytes [of "utf8_len (strip_marker t) div 2" "strip_marker t"]
    by (simp add: utf8_len_def flip: trunc_marker_len)
  moreover have "utf8_len (strip_marker t) \<le> utf8_len t"
    using utf8_len_strip_marker [of t] by (cases "ends_with trunc_marker t") (auto simp: strip_marker_def)
  ultimately show False using big by linarith
qed

lemma truncate_opt_string_None: "truncate_opt_string e v = None \<Longrightarrow> text_weight v \<le> 26"
  by (auto simp: truncate_opt_string_def text_weight_def dest: truncate_text_None split: option.splits)

lemma truncate_list_None: "truncate_list e xs = None \<Longrightarrow> xs = [] \<or> xs = [trunc_marker]"
proof -
  assume "truncate_list e xs = None"
  then consider "xs = []" | "xs = [trunc_marker]" | "data_len xs = 0" "xs \<noteq> []"
    by (auto simp: truncate_list_def Let_def split: if_splits)
  then show ?thesis
  proof cases
    case 3
    then show ?thesis
      by (cases xs) (auto simp: data_len_def has_marker_def split: if_splits)
  qed auto
qed

lemma fit_TooLarge:
  "fit len d = Inl ProvenanceTooLarge \<Longrightarrow> shortens d0 d \<Longrightarrow>
     \<exists>d' n. shortens d0 d' \<and> len d' = Some n \<and> max_provenance_bytes < n \<and>
       text_weight (pd_rights d') \<le> 26 \<and> text_weight (pd_title d') \<le> 26 \<and>
       length (pd_creators d') \<le> 1 \<and> length (pd_collections d') \<le> 1 \<and> length (pd_languages d') \<le> 1"
proof (induction len d rule: fit.induct)
  case (1 len d)
  from 1(2) obtain n where n: "len d = Some n" "max_provenance_bytes < n"
    by (subst (asm) fit.simps) (auto split: option.splits if_splits)
  show ?case
  proof (cases "shorten (n - max_provenance_bytes) d")
    case None
    then have "truncate_opt_string (n - max_provenance_bytes) (pd_rights d) = None"
      "truncate_opt_string (n - max_provenance_bytes) (pd_title d) = None"
      "truncate_list (n - max_provenance_bytes) (pd_creators d) = None"
      "truncate_list (n - max_provenance_bytes) (pd_collections d) = None"
      "truncate_list (n - max_provenance_bytes) (pd_languages d) = None"
      by (auto simp: shorten_def split: option.splits)
    then have "text_weight (pd_rights d) \<le> 26" "text_weight (pd_title d) \<le> 26"
      "length (pd_creators d) \<le> 1" "length (pd_collections d) \<le> 1" "length (pd_languages d) \<le> 1"
      by (auto intro: truncate_opt_string_None dest!: truncate_list_None)
    with n 1(3) show ?thesis by (intro exI [of _ d] exI [of _ n]) simp
  next
    case (Some d')
    with n 1(2) have "fit len d' = Inl ProvenanceTooLarge"
      by (subst (asm) fit.simps) simp
    have "shortens d0 d'" using 1(3) Some by (rule shortens_step)
    from 1(1) [OF n(1) _ Some \<open>fit len d' = _\<close> this] n(2) show ?thesis by simp
  qed
qed

section \<open>Properties\<close>

lemma build_doc_Inr:
  assumes "build_doc item_url download_url file item now = Inr d"
  obtains sha n where "jf_sha256 file = Some sha" "trim sha \<noteq> []" "jf_page_count file = Some n"
    "pd_identifier d = jf_identifier file" "pd_file_name d = jf_file_name file"
    "pd_md5 d = jf_md5 file" "pd_sha1 d = jf_sha1 file" "pd_size d = jf_expected_size file"
    "pd_mtime d = jf_mtime file" "pd_sha256_local d = sha" "pd_page_count d = n"
    "pd_license_url d = Option.bind item sn_license_url" "pd_date d = Option.bind item sn_date"
  using assms
  by (cases item) (auto simp: build_doc_def Let_def split: option.splits)

text \<open>
  C27: the provenance of a document fits in 64 KiB and keeps its identity. Building it always
  ends. A built value is the file's document with some of the five free-text fields shortened (a
  text cut to a prefix and the marker, a list cut to its first entries and the marker); every
  other field, checksums, sizes, page count and names included, is as it was, and the serialized
  value has at most 65536 bytes. It is refused as too large only when a document with the same
  fixed fields, with at most 26 bytes of rights and of title and lists of at most one entry, is
  still larger than that.
\<close>

theorem provenance_fits_and_keeps_identity:
  assumes "build_doc item_url download_url file item now = Inr d"
  shows "case build_provenance encoded_len item_url download_url file item now of
      Inr v \<Rightarrow> \<exists>d' n. v = doc_value d' \<and> encoded_len d' = Some n \<and> n \<le> 65536 \<and> shortens d d'
    | Inl e \<Rightarrow> e = JsonError \<or> e = ProvenanceTooLarge \<and>
        (\<exists>d' n. shortens d d' \<and> encoded_len d' = Some n \<and> 65536 < n
          \<and> text_weight (pd_rights d') \<le> 26 \<and> text_weight (pd_title d') \<le> 26
          \<and> length (pd_creators d') \<le> 1 \<and> length (pd_collections d') \<le> 1
          \<and> length (pd_languages d') \<le> 1)"
proof (cases "fit encoded_len d")
  case (Inl e)
  have "e = JsonError \<or> e = ProvenanceTooLarge"
    using Inl
  proof (induction encoded_len d rule: fit.induct)
    case (1 len d)
    from 1(2) show ?case
      by (subst (asm) fit.simps) (use 1(1) in \<open>auto split: option.splits if_splits\<close>)
  qed
  with Inl assms fit_TooLarge [of encoded_len d d] show ?thesis
    by (auto simp: build_provenance_def max_provenance_bytes_def)
next
  case (Inr d')
  with assms fit_shortens [OF Inr shortens_refl] show ?thesis
    by (auto simp: build_provenance_def max_provenance_bytes_def)
qed

lemma optional_keys [simp]:
  "distinct (map fst (optional n f v))"
  "fst ` set (optional n f v) = (if v = None then {} else {tx n})"
  "map_of (optional n f v) k = (if k = tx n then map_option f v else None)"
  by (auto simp: optional_def split: option.split)

lemma map_of_optional:
  "map_of (optional n f v @ ys) k =
     (if k = tx n then (case v of None \<Rightarrow> map_of ys k | Some x \<Rightarrow> Some (f x)) else map_of ys k)"
  by (auto simp: optional_def split: option.split)

lemma option_case_map:
  "w = None \<Longrightarrow> (case v of None \<Rightarrow> w | Some x \<Rightarrow> Some (f x)) = map_option f v"
  by (simp split: option.split)

lemma doc_fields_distinct: "distinct (map fst (doc_fields d))"
  by (simp add: doc_fields_def)

lemma jget_doc:
  "jget (fold (\<lambda>(k, v) m. jinsert k v m) (doc_fields d) []) k = map_of (doc_fields d) k"
  by (simp add: obj.lookup_fold_insert_distinct [OF doc_fields_distinct] split: option.split)

lemma decimal_json_nat [simp]: "decimal_u64 (json_nat n) = Some n"
  by (simp add: json_nat_def)

lemma built_provenance_read_back:
  assumes "build_provenance encoded_len item_url download_url file item now = Inr v"
    and "from_str metadata = Some (JObject m)" and "jget m provenance_key = Some v"
    and "the (jf_page_count file) \<le> u32_max"
  shows "from_row from_str item_id collection_id metadata = Some
    \<lparr>pr_item_id = item_id, pr_collection_id = collection_id, pr_identifier = jf_identifier file,
     pr_file_name = jf_file_name file, pr_md5 = jf_md5 file, pr_sha1 = jf_sha1 file,
     pr_size = jf_expected_size file, pr_mtime = jf_mtime file, pr_sha256_local = jf_sha256 file,
     pr_page_count = jf_page_count file\<rparr>"
proof -
  obtain d0 d where d: "build_doc item_url download_url file item now = Inr d0"
    "fit encoded_len d0 = Inr d" "v = doc_value d"
    using assms(1) by (auto simp: build_provenance_def split: sum.splits)
  have "fixed_part d = fixed_part d0"
    using fit_shortens [OF d(2) shortens_refl] by (simp add: shortens_def)
  then have same: "pd_identifier d = pd_identifier d0" "pd_file_name d = pd_file_name d0"
    "pd_md5 d = pd_md5 d0" "pd_sha1 d = pd_sha1 d0" "pd_size d = pd_size d0"
    "pd_mtime d = pd_mtime d0" "pd_sha256_local d = pd_sha256_local d0"
    "pd_page_count d = pd_page_count d0"
    by (cases d; cases d0; simp add: fixed_part_def)+
  let ?o = "fold (\<lambda>(k, v) m. jinsert k v m) (doc_fields d) []"
  have look: "jget ?o (tx ''identifier'') = Some (JString (pd_identifier d))"
    "jget ?o (tx ''file_name'') = Some (JString (pd_file_name d))"
    "jget ?o (tx ''md5'') = map_option JString (pd_md5 d)"
    "jget ?o (tx ''sha1'') = map_option JString (pd_sha1 d)"
    "jget ?o (tx ''size'') = map_option json_nat (pd_size d)"
    "jget ?o (tx ''mtime'') = map_option json_nat (pd_mtime d)"
    "jget ?o (tx ''sha256_local'') = Some (JString (pd_sha256_local d))"
    "jget ?o (tx ''page_count'') = Some (json_nat (pd_page_count d))"
    unfolding jget_doc by (simp_all add: doc_fields_def map_of_optional option_case_map del: map_of_append)
  have bind: "Option.bind (map_option JString x) as_str = x"
    "Option.bind (map_option json_nat y) decimal_u64 = y" for x y
    by (cases x, simp_all) (cases y, simp_all)
  obtain sha n where f: "jf_sha256 file = Some sha" "jf_page_count file = Some n"
    "pd_identifier d0 = jf_identifier file" "pd_file_name d0 = jf_file_name file"
    "pd_md5 d0 = jf_md5 file" "pd_sha1 d0 = jf_sha1 file" "pd_size d0 = jf_expected_size file"
    "pd_mtime d0 = jf_mtime file" "pd_sha256_local d0 = sha" "pd_page_count d0 = n"
    using build_doc_Inr [OF d(1)] by metis
  show ?thesis
    using assms(2-4) d(3) f
    by (simp add: from_row_def parse_provenance_def doc_value_def look opt_string_def opt_u64_def
        opt_u32_def bind same opt_filter_def)
qed

text \<open>
  Provenance is read back as it was built. When the value built for a file is stored under
  the reserved key of an item's metadata, \<open>from_row\<close> finds a record with the file's identifier,
  name, checksums, size and time, its SHA-256 and its page count, shortened or not.
\<close>

theorem provenance_is_read_back:
  assumes "build_provenance encoded_len item_url download_url file item now = Inr v"
    and "from_str metadata = Some (JObject m)" and "jget m provenance_key = Some v"
    and "the (jf_page_count file) \<le> u32_max"
  shows "from_row from_str item_id collection_id metadata = Some
    \<lparr>pr_item_id = item_id, pr_collection_id = collection_id, pr_identifier = jf_identifier file,
     pr_file_name = jf_file_name file, pr_md5 = jf_md5 file, pr_sha1 = jf_sha1 file,
     pr_size = jf_expected_size file, pr_mtime = jf_mtime file, pr_sha256_local = jf_sha256 file,
     pr_page_count = jf_page_count file\<rparr>"
  using assms by (rule built_provenance_read_back)

text \<open>
  The date and the license link of an item are never shortened. When either is longer than
  64 KiB, no provenance is built for any file of the item, because the serialized value contains
  them: a verified file of such an item can never be handed to the importer.
\<close>

theorem long_date_or_license_blocks_provenance:
  assumes "\<And>d n. encoded_len d = Some n \<Longrightarrow> text_weight (pd_date d) + text_weight (pd_license_url d) \<le> n"
    and "65536 < text_weight (Option.bind item sn_date) + text_weight (Option.bind item sn_license_url)"
  shows "\<exists>e. build_provenance encoded_len item_url download_url file item now = Inl e"
proof (rule ccontr)
  assume "\<nexists>e. build_provenance encoded_len item_url download_url file item now = Inl e"
  then obtain d0 d where d: "build_doc item_url download_url file item now = Inr d0"
    "fit encoded_len d0 = Inr d"
    by (auto simp: build_provenance_def split: sum.splits)
  then obtain n where n: "encoded_len d = Some n" "n \<le> 65536" "fixed_part d = fixed_part d0"
    using fit_shortens [OF d(2) shortens_refl] by (auto simp: shortens_def max_provenance_bytes_def)
  then have "pd_date d = pd_date d0" "pd_license_url d = pd_license_url d0"
    by (cases d; cases d0; simp add: fixed_part_def)+
  moreover have "pd_date d0 = Option.bind item sn_date" "pd_license_url d0 = Option.bind item sn_license_url"
    using build_doc_Inr [OF d(1)] by metis+
  ultimately show False using assms(1) [OF n(1)] assms(2) n(2) by simp
qed

text \<open>Witnesses.\<close>

definition sample_len :: "provenance_doc \<Rightarrow> nat option" where
  "sample_len d = Some (text_weight (pd_date d) + text_weight (pd_license_url d))"

definition sample_verified :: job_file where
  "sample_verified = (sample_file ''a.pdf'' Verified (Some ''s''))
     \<lparr>jf_sha256 := Some (tx ''00ff''), jf_page_count := Some 3\<rparr>"

definition long_item :: item_snapshot where
  "long_item = \<lparr>sn_identifier = tx ''x'', sn_title = None, sn_creators = [],
     sn_date = Some (replicate 65537 120), sn_languages = [], sn_collections = [],
     sn_rights = None, sn_license_url = None\<rparr>"

lemmas sample_verified_defs = sample_verified_def sample_file_def build_doc_def opt_filter_def Let_def

lemma sample_trim: "trim (tx ''00ff'') \<noteq> []"
  by code_simp

lemma long_date_or_license_blocks_provenance_witness:
  "\<exists>e. build_provenance sample_len (\<lambda>_. Some []) (\<lambda>_ _. Some []) sample_verified (Some long_item) 0 = Inl e"
proof (rule long_date_or_license_blocks_provenance)
  have "text_weight (sn_date long_item) = 65537"
    by (simp add: long_item_def text_weight_def utf8_len_def utf8_width_def map_replicate_const sum_list_replicate)
  then show "65536 < text_weight (Option.bind (Some long_item) sn_date)
      + text_weight (Option.bind (Some long_item) sn_license_url)"
    by simp
qed (simp add: sample_len_def)

lemma sample_build:
  "\<exists>d. build_doc (\<lambda>_. Some []) (\<lambda>_ _. Some []) sample_verified None 0 = Inr d
     \<and> pd_date d = None \<and> pd_license_url d = None"
  using sample_trim by (simp add: sample_verified_defs)

lemma sample_provenance:
  obtains d where "build_doc (\<lambda>_. Some []) (\<lambda>_ _. Some []) sample_verified None 0 = Inr d"
    "pd_date d = None"
    "build_provenance sample_len (\<lambda>_. Some []) (\<lambda>_ _. Some []) sample_verified None 0 = Inr (doc_value d)"
proof -
  obtain d where d: "build_doc (\<lambda>_. Some []) (\<lambda>_ _. Some []) sample_verified None 0 = Inr d"
    "pd_date d = None" "pd_license_url d = None"
    using sample_build by blast
  have "fit sample_len d = Inr d"
    by (subst fit.simps) (simp add: sample_len_def d text_weight_def)
  then have "build_provenance sample_len (\<lambda>_. Some []) (\<lambda>_ _. Some []) sample_verified None 0
      = Inr (doc_value d)"
    by (simp add: build_provenance_def d)
  with d that show ?thesis by blast
qed

lemma provenance_fits_and_keeps_identity_witness:
  "\<exists>d d'. build_provenance sample_len (\<lambda>_. Some []) (\<lambda>_ _. Some []) sample_verified None 0
      = Inr (doc_value d') \<and> shortens d d' \<and> pd_date d = None"
proof -
  obtain d where d: "build_doc (\<lambda>_. Some []) (\<lambda>_ _. Some []) sample_verified None 0 = Inr d"
    "pd_date d = None" and
    "build_provenance sample_len (\<lambda>_. Some []) (\<lambda>_ _. Some []) sample_verified None 0 = Inr (doc_value d)"
    by (rule sample_provenance)
  with provenance_fits_and_keeps_identity [OF d(1), of sample_len] d(2) show ?thesis by auto
qed

lemma provenance_is_read_back_witness:
  "\<exists>m. from_row (\<lambda>_. Some (JObject m)) (tx ''i'') (tx ''c'') [] = Some
    \<lparr>pr_item_id = tx ''i'', pr_collection_id = tx ''c'', pr_identifier = jf_identifier sample_verified,
     pr_file_name = tx ''a.pdf'', pr_md5 = jf_md5 sample_verified, pr_sha1 = jf_sha1 sample_verified,
     pr_size = jf_expected_size sample_verified, pr_mtime = jf_mtime sample_verified,
     pr_sha256_local = Some (tx ''00ff''), pr_page_count = Some 3\<rparr>"
proof -
  obtain d where d: "build_doc (\<lambda>_. Some []) (\<lambda>_ _. Some []) sample_verified None 0 = Inr d"
    "pd_date d = None" and
    "build_provenance sample_len (\<lambda>_. Some []) (\<lambda>_ _. Some []) sample_verified None 0 = Inr (doc_value d)"
    by (rule sample_provenance)
  from provenance_is_read_back [OF this(3),
      of "\<lambda>_. Some (JObject [(provenance_key, doc_value d)])" "[]" "[(provenance_key, doc_value d)]"]
  show ?thesis
    by (intro exI [of _ "[(provenance_key, doc_value d)]"])
      (simp add: sample_verified_def sample_file_def u32_max_def jget_def)
qed

end
