(* ===== verification/IaPrepare.thy ===== *)
theory IaPrepare
  imports IaProvenance "HOL-Library.Product_Lexorder"
begin

text \<open>
  The preparation summary (\<open>crates/internet-archive/src/prepare.rs\<close>): the version fingerprint of a
  remote file, the comparison of a candidate with the provenance records already stored, the
  classification of a candidate and the counts shown before an import.

  The provenance index (\<open>ProvenanceLookup\<close>, SQLite in the application) is the parameter \<open>lookup\<close>:
  the records of an identifier and a file name, in any order. The abstract specification
  \<open>classify_spec\<close> judges the set of records; \<open>classify\<close> is shown to implement it, so the order in
  which the index answers never matters.
\<close>

section \<open>Fingerprints\<close>

datatype remote_fingerprint = Md5 str | Sha1 str | SizeMtime nat nat | NoFingerprint

text \<open>Trimmed non-empty hexadecimal digits, in lower case; anything else is missing.\<close>

definition normalize_hex :: "str \<Rightarrow> str option" where
  "normalize_hex raw =
     (let trimmed = trim raw
      in if trimmed = [] then None
         else if \<not> list_all is_ascii_hexdigit trimmed then None
         else Some (to_ascii_lowercase trimmed))"

definition strongest :: "str option \<Rightarrow> str option \<Rightarrow> nat option \<Rightarrow> nat option \<Rightarrow> remote_fingerprint" where
  "strongest md5 sha1 bytes mtime =
     (case Option.bind md5 normalize_hex of
        Some v \<Rightarrow> Md5 v
      | None \<Rightarrow> (case Option.bind sha1 normalize_hex of
        Some v \<Rightarrow> Sha1 v
      | None \<Rightarrow> (case (bytes, mtime) of
        (Some s, Some m) \<Rightarrow> SizeMtime s m
      | _ \<Rightarrow> NoFingerprint)))"

definition fingerprint_of_pdf :: "pdf_file \<Rightarrow> remote_fingerprint" where
  "fingerprint_of_pdf pdf = strongest (pdf_md5 pdf) (pdf_sha1 pdf) (pdf_size pdf) (pdf_mtime pdf)"

definition fingerprint_of_job_file :: "job_file \<Rightarrow> remote_fingerprint" where
  "fingerprint_of_job_file file =
     strongest (jf_md5 file) (jf_sha1 file) (jf_expected_size file) (jf_mtime file)"

definition fingerprint_of_record :: "provenance_record \<Rightarrow> remote_fingerprint" where
  "fingerprint_of_record r = strongest (pr_md5 r) (pr_sha1 r) (pr_size r) (pr_mtime r)"

definition is_none :: "remote_fingerprint \<Rightarrow> bool" where
  "is_none f \<longleftrightarrow> f = NoFingerprint"

text \<open>The trait \<open>FingerprintSource\<close>: the four answers of a candidate.\<close>

record fingerprint_source =
  fs_md5 :: "str option"
  fs_sha1 :: "str option"
  fs_size :: "nat option"
  fs_mtime :: "nat option"

definition pdf_source_fields :: "pdf_file \<Rightarrow> fingerprint_source" where
  "pdf_source_fields pdf =
     \<lparr>fs_md5 = Option.bind (pdf_md5 pdf) normalize_hex, fs_sha1 = Option.bind (pdf_sha1 pdf) normalize_hex,
      fs_size = pdf_size pdf, fs_mtime = pdf_mtime pdf\<rparr>"

definition job_file_source_fields :: "job_file \<Rightarrow> fingerprint_source" where
  "job_file_source_fields file =
     \<lparr>fs_md5 = Option.bind (jf_md5 file) normalize_hex, fs_sha1 = Option.bind (jf_sha1 file) normalize_hex,
      fs_size = jf_expected_size file, fs_mtime = jf_mtime file\<rparr>"

definition record_source_fields :: "provenance_record \<Rightarrow> fingerprint_source" where
  "record_source_fields r =
     \<lparr>fs_md5 = Option.bind (pr_md5 r) normalize_hex, fs_sha1 = Option.bind (pr_sha1 r) normalize_hex,
      fs_size = pr_size r, fs_mtime = pr_mtime r\<rparr>"

definition fingerprint_source_fields :: "remote_fingerprint \<Rightarrow> fingerprint_source" where
  "fingerprint_source_fields f =
     \<lparr>fs_md5 = (case f of Md5 v \<Rightarrow> Some v | _ \<Rightarrow> None),
      fs_sha1 = (case f of Sha1 v \<Rightarrow> Some v | _ \<Rightarrow> None),
      fs_size = (case f of SizeMtime s m \<Rightarrow> Some s | _ \<Rightarrow> None),
      fs_mtime = (case f of SizeMtime s m \<Rightarrow> Some m | _ \<Rightarrow> None)\<rparr>"

definition same_version :: "fingerprint_source \<Rightarrow> provenance_record \<Rightarrow> bool option" where
  "same_version candidate record =
     (let r = record_source_fields record
      in case (fs_md5 candidate, fs_md5 r) of
        (Some left, Some right) \<Rightarrow> Some (left = right)
      | _ \<Rightarrow> (case (fs_sha1 candidate, fs_sha1 r) of
        (Some left, Some right) \<Rightarrow> Some (left = right)
      | _ \<Rightarrow> (case (fs_size candidate, fs_mtime candidate, fs_size r, fs_mtime r) of
        (Some lsize, Some lmtime, Some rsize, Some rmtime) \<Rightarrow> Some (lsize = rsize \<and> lmtime = rmtime)
      | _ \<Rightarrow> None)))"

section \<open>Classification\<close>

datatype duplicate_status =
    New
  | AlreadyInTarget str
  | NewVersion str
  | InOtherCollection str str

type_synonym provenance_lookup = "str \<Rightarrow> str \<Rightarrow> provenance_record list"

definition record_order :: "provenance_record \<Rightarrow> str \<times> str" where
  "record_order r = (pr_item_id r, pr_collection_id r)"

text \<open>\<open>Some(true) | None\<close>: the same version, or one that cannot be told apart.\<close>

definition not_different :: "pdf_file \<Rightarrow> provenance_record \<Rightarrow> bool" where
  "not_different candidate r \<longleftrightarrow> same_version (pdf_source_fields candidate) r \<noteq> Some False"

definition classify ::
  "pdf_file \<Rightarrow> str \<Rightarrow> import_target \<Rightarrow> provenance_lookup \<Rightarrow> duplicate_status" where
  "classify candidate identifier target lookup =
     (let records = sort_key record_order (lookup identifier (pdf_name candidate))
      in case target of
        ExistingCollection collection_id \<Rightarrow>
          (case find (\<lambda>r. pr_collection_id r = collection_id \<and> not_different candidate r) records of
            Some r \<Rightarrow> AlreadyInTarget (pr_item_id r)
          | None \<Rightarrow>
          (case find (\<lambda>r. pr_collection_id r = collection_id) records of
            Some r \<Rightarrow> NewVersion (pr_item_id r)
          | None \<Rightarrow>
          (case find (\<lambda>r. pr_collection_id r \<noteq> collection_id \<and> not_different candidate r) records of
            Some r \<Rightarrow> InOtherCollection (pr_item_id r) (pr_collection_id r)
          | None \<Rightarrow> New)))
      | NewCollection _ \<Rightarrow>
          (case find (not_different candidate) records of
            Some r \<Rightarrow> InOtherCollection (pr_item_id r) (pr_collection_id r)
          | None \<Rightarrow> New))"

section \<open>The summary\<close>

record prepare_entry =
  pe_identifier :: str
  pe_file_name :: str
  pe_availability :: availability
  pe_size :: "nat option"
  pe_duplicate :: "duplicate_status option"

record prepare_summary =
  ps_total_files :: nat
  ps_available_files :: nat
  ps_restricted_files :: nat
  ps_known_bytes :: nat
  ps_unknown_size_files :: nat
  ps_new_files :: nat
  ps_already_in_target :: nat
  ps_in_other_collection :: nat
  ps_new_version :: nat
  ps_entries :: "prepare_entry list"

definition will_import :: "prepare_entry \<Rightarrow> bool" where
  "will_import e \<longleftrightarrow> (case pe_duplicate e of Some New \<Rightarrow> True | Some (NewVersion _) \<Rightarrow> True | _ \<Rightarrow> False)"

definition in_other :: "prepare_entry \<Rightarrow> bool" where
  "in_other e \<longleftrightarrow> (case pe_duplicate e of Some (InOtherCollection _ _) \<Rightarrow> True | _ \<Rightarrow> False)"

definition size_of :: "prepare_entry \<Rightarrow> nat" where
  "size_of e = unwrap_or 0 (pe_size e)"

definition estimated_sync_bytes :: "prepare_summary \<Rightarrow> nat" where
  "estimated_sync_bytes summary =
     sat_mul64 (fold (\<lambda>e total. if will_import e then sat_add64 total (size_of e) else total)
        (ps_entries summary) 0) 2"

definition in_other_collection_bytes :: "prepare_summary \<Rightarrow> nat" where
  "in_other_collection_bytes summary =
     sat_mul64 (fold (\<lambda>e total. if in_other e then sat_add64 total (size_of e) else total)
        (ps_entries summary) 0) 2"

definition count_status :: "duplicate_status \<Rightarrow> prepare_summary \<Rightarrow> prepare_summary" where
  "count_status status s =
     (case status of
        New \<Rightarrow> s\<lparr>ps_new_files := ps_new_files s + 1\<rparr>
      | AlreadyInTarget _ \<Rightarrow> s\<lparr>ps_already_in_target := ps_already_in_target s + 1\<rparr>
      | InOtherCollection _ _ \<Rightarrow> s\<lparr>ps_in_other_collection := ps_in_other_collection s + 1\<rparr>
      | NewVersion _ \<Rightarrow> s\<lparr>ps_new_version := ps_new_version s + 1\<rparr>)"

definition push_entry :: "str \<Rightarrow> pdf_file \<Rightarrow> duplicate_status option \<Rightarrow> prepare_summary \<Rightarrow> prepare_summary" where
  "push_entry identifier pdf status s =
     s\<lparr>ps_entries := ps_entries s @
        [\<lparr>pe_identifier = identifier, pe_file_name = pdf_name pdf,
          pe_availability = pdf_availability pdf, pe_size = pdf_size pdf, pe_duplicate = status\<rparr>]\<rparr>"

definition summarize_file ::
  "import_target \<Rightarrow> provenance_lookup \<Rightarrow> str \<times> pdf_file \<Rightarrow> prepare_summary \<Rightarrow> prepare_summary" where
  "summarize_file target lookup entry s =
     (case entry of (identifier, pdf) \<Rightarrow>
        if pdf_availability pdf \<noteq> Available
        then push_entry identifier pdf None (s\<lparr>ps_restricted_files := ps_restricted_files s + 1\<rparr>)
        else
          (let s1 = s\<lparr>ps_available_files := ps_available_files s + 1\<rparr>;
               s2 = (case pdf_size pdf of
                   Some n \<Rightarrow> s1\<lparr>ps_known_bytes := sat_add64 (ps_known_bytes s1) n\<rparr>
                 | None \<Rightarrow> s1\<lparr>ps_unknown_size_files := ps_unknown_size_files s1 + 1\<rparr>);
               status = classify pdf identifier target lookup
           in push_entry identifier pdf (Some status) (count_status status s2)))"

definition summarize ::
  "(str \<times> pdf_file) list \<Rightarrow> import_target \<Rightarrow> provenance_lookup \<Rightarrow> prepare_summary" where
  "summarize files target lookup =
     fold (summarize_file target lookup) files
       \<lparr>ps_total_files = length files, ps_available_files = 0, ps_restricted_files = 0,
        ps_known_bytes = 0, ps_unknown_size_files = 0, ps_new_files = 0, ps_already_in_target = 0,
        ps_in_other_collection = 0, ps_new_version = 0, ps_entries = []\<rparr>"

section \<open>The specification of a classification\<close>

text \<open>
  The records of a candidate as a set: those that cannot be told apart from it, and those of the
  target. The smallest item (or pair of item and collection) is the one reported.
\<close>

definition in_target :: "import_target \<Rightarrow> provenance_record \<Rightarrow> bool" where
  "in_target target r \<longleftrightarrow> target = ExistingCollection (pr_collection_id r)"

definition classify_spec ::
  "pdf_file \<Rightarrow> import_target \<Rightarrow> provenance_record set \<Rightarrow> duplicate_status" where
  "classify_spec candidate target records =
     (let here = {r \<in> records. in_target target r};
          same = {r \<in> records. not_different candidate r}
      in if here \<inter> same \<noteq> {} then AlreadyInTarget (Min (pr_item_id ` (here \<inter> same)))
         else if here \<noteq> {} then NewVersion (Min (pr_item_id ` here))
         else if same \<noteq> {} then
           (case Min (record_order ` same) of (item, collection) \<Rightarrow> InOtherCollection item collection)
         else New)"

lemma find_sorted_None: "find P (sort_key k xs) = None \<longleftrightarrow> {x \<in> set xs. P x} = {}"
  by (auto simp: find_None_iff)

lemma find_sorted_Min:
  assumes "find P (sort_key k xs) = Some x"
  shows "P x" "x \<in> set xs" "k x = Min (k ` {y \<in> set xs. P y})"
proof -
  let ?s = "sort_key k xs"
  from assms obtain i where i: "i < length ?s" "P (?s ! i)" "x = ?s ! i" "\<forall>j<i. \<not> P (?s ! j)"
    by (auto simp: find_Some_iff)
  then show x: "P x" "x \<in> set xs" using nth_mem [OF i(1)] by simp_all
  have "k x \<le> k y" if y: "y \<in> set xs" "P y" for y
  proof -
    from y(1) have "y \<in> set ?s" by simp
    then obtain j where j: "j < length ?s" "y = ?s ! j" by (metis in_set_conv_nth)
    with i(4) y(2) have "i \<le> j" by (meson not_le)
    have "map k ?s ! i \<le> map k ?s ! j"
      by (rule sorted_nth_mono) (use \<open>i \<le> j\<close> j in simp_all)
    with j i(1,3) show ?thesis by simp
  qed
  then show "k x = Min (k ` {y \<in> set xs. P y})"
    using x by (intro Min_eqI [symmetric]) auto
qed

lemma Min_fst: "finite A \<Longrightarrow> A \<noteq> {} \<Longrightarrow> fst (Min A) = Min (fst ` A)"
  for A :: "('a::linorder \<times> 'b::linorder) set"
proof -
  assume A: "finite A" "A \<noteq> {}"
  then have "fst (Min A) \<le> b" if "b \<in> fst ` A" for b
    using that Min_le [OF A(1)] by (fastforce simp: less_eq_prod_def)
  then show ?thesis using A Min_in [OF A] by (intro Min_eqI [symmetric]) auto
qed

text \<open>The first record of the sorted list, reported by its item or by its item and collection.\<close>

lemma report_item:
  "(case find P (sort_key record_order xs) of Some r \<Rightarrow> f (pr_item_id r) | None \<Rightarrow> d) =
     (let A = {y \<in> set xs. P y} in if A = {} then d else f (Min (pr_item_id ` A)))"
proof (cases "find P (sort_key record_order xs)")
  case (Some x)
  let ?A = "{y \<in> set xs. P y}"
  have "pr_item_id x = fst (record_order x)" by (simp add: record_order_def)
  also have "\<dots> = fst (Min (record_order ` ?A))" using find_sorted_Min(3) [OF Some] by simp
  also have "\<dots> = Min (fst ` record_order ` ?A)"
    using find_sorted_Min(1,2) [OF Some] by (intro Min_fst) auto
  also have "fst ` record_order ` ?A = pr_item_id ` ?A" by (simp add: image_image record_order_def)
  finally have item: "pr_item_id x = Min (pr_item_id ` ?A)" .
  have "?A \<noteq> {}" using find_sorted_Min(1,2) [OF Some] by blast
  then show ?thesis unfolding Let_def Some option.case item by (rule if_not_P [symmetric])
next
  case None
  with find_sorted_None [THEN iffD1, OF None] show ?thesis by (simp only: Let_def option.case simp_thms if_True)
qed

lemma report_pair:
  "(case find P (sort_key record_order xs) of
      Some r \<Rightarrow> InOtherCollection (pr_item_id r) (pr_collection_id r) | None \<Rightarrow> New) =
     (let A = {y \<in> set xs. P y} in if A = {} then New
      else case Min (record_order ` A) of (i, k) \<Rightarrow> InOtherCollection i k)"
proof (cases "find P (sort_key record_order xs)")
  case (Some x)
  have "{y \<in> set xs. P y} \<noteq> {}" using find_sorted_Min(1,2) [OF Some] by blast
  with Some show ?thesis
    unfolding Let_def find_sorted_Min(3) [OF Some, symmetric] by (simp only: record_order_def) simp
next
  case None
  with find_sorted_None [THEN iffD1, OF None] show ?thesis by (simp only: Let_def option.case simp_thms if_True)
qed

lemma classify_is_spec:
  "classify candidate identifier target lookup =
     classify_spec candidate target (set (lookup identifier (pdf_name candidate)))"
proof (cases target)
  case (NewCollection n)
  show ?thesis
    unfolding classify_def classify_spec_def report_pair NewCollection in_target_def Let_def
      import_target.case import_target.distinct by (simp del: Collect_empty_eq)
next
  case (ExistingCollection c)
  define R where "R = set (lookup identifier (pdf_name candidate))"
  let ?here = "{r \<in> R. pr_collection_id r = c}"
  let ?same = "{r \<in> R. not_different candidate r}"
  have here: "{r \<in> R. c = pr_collection_id r} = ?here" by auto
  have both: "{r \<in> R. pr_collection_id r = c \<and> not_different candidate r} = ?here \<inter> ?same" by auto
  have only: "{r \<in> R. pr_collection_id r \<noteq> c \<and> not_different candidate r} = ?same" if "?here = {}"
    using that by auto
  show ?thesis
    unfolding classify_def classify_spec_def report_item report_pair ExistingCollection in_target_def
      import_target.case import_target.inject Let_def R_def [symmetric] both here
    using only by (cases "?here = {}") (simp_all del: Collect_empty_eq)
qed


section \<open>The entries and counts of a summary\<close>

definition entry_of :: "import_target \<Rightarrow> provenance_lookup \<Rightarrow> str \<times> pdf_file \<Rightarrow> prepare_entry" where
  "entry_of target lookup f =
     \<lparr>pe_identifier = fst f, pe_file_name = pdf_name (snd f), pe_availability = pdf_availability (snd f),
      pe_size = pdf_size (snd f),
      pe_duplicate = (if pdf_availability (snd f) = Available
        then Some (classify (snd f) (fst f) target lookup) else None)\<rparr>"

definition count_of :: "(prepare_entry \<Rightarrow> bool) \<Rightarrow> prepare_entry list \<Rightarrow> nat" where
  "count_of p es = length (filter p es)"

definition offered :: "prepare_entry \<Rightarrow> bool" where
  "offered e \<longleftrightarrow> pe_availability e = Available"

definition already_there :: "prepare_entry \<Rightarrow> bool" where
  "already_there e \<longleftrightarrow> (case pe_duplicate e of Some (AlreadyInTarget _) \<Rightarrow> True | _ \<Rightarrow> False)"

definition other_version :: "prepare_entry \<Rightarrow> bool" where
  "other_version e \<longleftrightarrow> (case pe_duplicate e of Some (NewVersion _) \<Rightarrow> True | _ \<Rightarrow> False)"

definition known_size :: "prepare_entry \<Rightarrow> nat option" where
  "known_size e = (if offered e then pe_size e else None)"

definition bytes_of :: "(prepare_entry \<Rightarrow> bool) \<Rightarrow> prepare_entry list \<Rightarrow> nat" where
  "bytes_of p es = sum_list (map size_of (filter p es))"

lemma count_of_simps [simp]:
  "count_of p [] = 0" "count_of p (e # es) = (if p e then 1 else 0) + count_of p es"
  by (simp_all add: count_of_def)

lemmas summary_step =
  summarize_file_def push_entry_def count_status_def entry_of_def offered_def already_there_def
  other_version_def in_other_def known_size_def Let_def

lemma fold_entries:
  "ps_entries (fold (summarize_file t l) fs s) = ps_entries s @ map (entry_of t l) fs"
  by (induction fs arbitrary: s)
    (auto simp: summary_step split: option.splits duplicate_status.splits)

lemma fold_counts:
  "ps_total_files (fold (summarize_file t l) fs s) = ps_total_files s"
  "ps_available_files (fold (summarize_file t l) fs s) =
     ps_available_files s + count_of offered (map (entry_of t l) fs)"
  "ps_restricted_files (fold (summarize_file t l) fs s) =
     ps_restricted_files s + count_of (\<lambda>e. \<not> offered e) (map (entry_of t l) fs)"
  "ps_new_files (fold (summarize_file t l) fs s) =
     ps_new_files s + count_of (\<lambda>e. pe_duplicate e = Some New) (map (entry_of t l) fs)"
  "ps_already_in_target (fold (summarize_file t l) fs s) =
     ps_already_in_target s + count_of already_there (map (entry_of t l) fs)"
  "ps_in_other_collection (fold (summarize_file t l) fs s) =
     ps_in_other_collection s + count_of in_other (map (entry_of t l) fs)"
  "ps_new_version (fold (summarize_file t l) fs s) =
     ps_new_version s + count_of other_version (map (entry_of t l) fs)"
  by (induction fs arbitrary: s;
      auto simp: summary_step split: option.splits duplicate_status.splits)+

lemma fold_unknown:
  "ps_unknown_size_files (fold (summarize_file t l) fs s) =
     ps_unknown_size_files s + count_of (\<lambda>e. offered e \<and> pe_size e = None) (map (entry_of t l) fs)"
  by (induction fs arbitrary: s)
    (auto simp: summary_step split: option.splits duplicate_status.splits)

lemma fold_bytes:
  "ps_known_bytes (fold (summarize_file t l) fs s) =
     fold (\<lambda>n total. sat_add64 total n) (somes (map (known_size \<circ> entry_of t l) fs)) (ps_known_bytes s)"
  by (induction fs arbitrary: s)
    (auto simp: summary_step split: option.splits duplicate_status.splits)

lemma fold_filtered:
  "fold (\<lambda>e total. if p e then sat_add64 total (f e) else total) es n =
     fold (\<lambda>x total. sat_add64 total x) (map f (filter p es)) n"
  by (induction es arbitrary: n) auto

lemma sat_double: "sat_mul64 (min u64_max n) 2 = min u64_max (2 * n)"
  by (simp add: sat_mul64_def min_def)

lemma saturating_total:
  "fold (\<lambda>x total. sat_add64 total x) xs 0 = min u64_max (sum_list xs)"
  using sat_add64_sum [of xs 0] by simp

lemma sum_somes:
  "sum_list (somes (map known_size es)) = bytes_of offered es"
proof (induction es)
  case (Cons e es)
  then show ?case
    by (cases "pe_size e") (simp_all add: known_size_def bytes_of_def size_of_def)
qed (simp add: bytes_of_def)


lemma duplicate_kinds:
  "list_all (\<lambda>e. offered e \<longleftrightarrow> pe_duplicate e \<noteq> None) es \<Longrightarrow>
     count_of offered es = count_of (\<lambda>e. pe_duplicate e = Some New) es + count_of already_there es
       + count_of in_other es + count_of other_version es"
  by (induction es)
    (auto simp: already_there_def in_other_def other_version_def split: option.splits duplicate_status.splits)

lemma offered_entries: "list_all (\<lambda>e. offered e \<longleftrightarrow> pe_duplicate e \<noteq> None) (map (entry_of t l) fs)"
  by (simp add: list_all_iff entry_of_def offered_def)

lemma count_split: "length es = count_of p es + count_of (\<lambda>e. \<not> p e) es"
  by (induction es) auto

section \<open>Properties\<close>

text \<open>
  The duplicate status of a file depends on the set of stored records and on nothing else.
  Whatever order the index answers in, \<open>classify\<close> reports the smallest item of the target whose
  version is not known to differ, else the smallest item of the target (a new version), else the
  smallest pair of item and collection elsewhere whose version is not known to differ, else \<open>New\<close>.
\<close>

theorem classify_implements_spec:
  "classify candidate identifier target lookup =
     classify_spec candidate target (set (lookup identifier (pdf_name candidate)))"
  by (rule classify_is_spec)

text \<open>
  The summary shown before an import adds up. It has one entry per file, in order; available
  and restricted files partition the total, and the four duplicate statuses partition the
  available files; every size shown is the exact sum of the sizes it is about, or the largest
  64-bit number when the sum does not fit, and never wraps.
\<close>

theorem summary_adds_up:
  "let s = summarize files target lookup; es = ps_entries s in
     es = map (entry_of target lookup) files \<and>
     ps_total_files s = length files \<and>
     ps_total_files s = ps_available_files s + ps_restricted_files s \<and>
     ps_available_files s = ps_new_files s + ps_already_in_target s + ps_in_other_collection s
       + ps_new_version s \<and>
     ps_new_files s = count_of (\<lambda>e. pe_duplicate e = Some New) es \<and>
     ps_already_in_target s = count_of already_there es \<and>
     ps_in_other_collection s = count_of in_other es \<and>
     ps_new_version s = count_of other_version es \<and>
     ps_unknown_size_files s = count_of (\<lambda>e. offered e \<and> pe_size e = None) es \<and>
     ps_known_bytes s = min u64_max (bytes_of offered es) \<and>
     estimated_sync_bytes s = min u64_max (2 * bytes_of will_import es) \<and>
     in_other_collection_bytes s = min u64_max (2 * bytes_of in_other es)"
proof -
  let ?es = "map (entry_of target lookup) files"
  have es: "ps_entries (summarize files target lookup) = ?es"
    by (simp add: summarize_def fold_entries)
  have "length files = length ?es" by simp
  then have total: "length files = count_of offered ?es + count_of (\<lambda>e. \<not> offered e) ?es"
    using count_split by metis
  have bytes: "estimated_sync_bytes (summarize files target lookup) = min u64_max (2 * bytes_of will_import ?es)"
    "in_other_collection_bytes (summarize files target lookup) = min u64_max (2 * bytes_of in_other ?es)"
    by (simp_all only: estimated_sync_bytes_def in_other_collection_bytes_def es fold_filtered
        saturating_total sat_double bytes_of_def)
  have "ps_known_bytes (summarize files target lookup) = min u64_max (bytes_of offered ?es)"
    by (simp add: summarize_def fold_bytes saturating_total flip: sum_somes)
  with es bytes total duplicate_kinds [OF offered_entries [of target lookup files]] show ?thesis
    by (simp add: Let_def) (simp add: summarize_def fold_counts fold_unknown)
qed

lemma same_fields_not_different:
  assumes "pr_md5 r = pdf_md5 p" "pr_sha1 r = pdf_sha1 p" "pr_size r = pdf_size p" "pr_mtime r = pdf_mtime p"
  shows "not_different p r"
  using assms
  by (auto simp: not_different_def same_version_def pdf_source_fields_def record_source_fields_def Let_def
      split: option.splits)

text \<open>
  A document that was imported is recognised. Take any available remote file and the file of
  an import job made from it, whatever state, attempts, error, staging name or item it has
  reached. When the provenance built for it after verification is in the index under an item of a
  collection, preparing the same remote file again for that collection answers \<open>AlreadyInTarget\<close>
  (never \<open>New\<close> nor \<open>NewVersion\<close>), and for every other target it is not \<open>New\<close>.
\<close>

theorem imported_file_is_recognised:
  assumes "from_pdf identifier pdf = Inr queued"
    and "file = queued\<lparr>jf_state := s, jf_attempts := a, jf_error := e, jf_staging_name := st,
        jf_page_count := Some pages, jf_sha256 := Some sha256, jf_item_id := it\<rparr>"
    and "pages \<le> u32_max"
    and "build_provenance encoded_len item_url download_url file item now = Inr v"
    and "from_str metadata = Some (JObject m)" and "jget m provenance_key = Some v"
    and "from_row from_str item_id collection_id metadata = Some r"
    and "r \<in> set (lookup identifier (pdf_name pdf))"
  shows "(\<exists>i \<le> item_id. classify pdf identifier (ExistingCollection collection_id) lookup = AlreadyInTarget i)
    \<and> classify pdf identifier target lookup \<noteq> New"
proof -
  have "jf_page_count file = Some pages" using assms(2) by simp
  then have "from_row from_str item_id collection_id metadata = Some
    \<lparr>pr_item_id = item_id, pr_collection_id = collection_id, pr_identifier = jf_identifier file,
     pr_file_name = jf_file_name file, pr_md5 = jf_md5 file, pr_sha1 = jf_sha1 file,
     pr_size = jf_expected_size file, pr_mtime = jf_mtime file, pr_sha256_local = jf_sha256 file,
     pr_page_count = jf_page_count file\<rparr>"
    using built_provenance_read_back [OF assms(4), of from_str metadata m]
      assms(3-6) by simp
  with assms(7) have r: "pr_item_id r = item_id" "pr_collection_id r = collection_id"
    "pr_md5 r = jf_md5 file" "pr_sha1 r = jf_sha1 file" "pr_size r = jf_expected_size file"
    "pr_mtime r = jf_mtime file"
    by auto
  moreover have "jf_md5 file = pdf_md5 pdf" "jf_sha1 file = pdf_sha1 pdf"
    "jf_expected_size file = pdf_size pdf" "jf_mtime file = pdf_mtime pdf"
    using assms(1,2) by (auto simp: from_pdf_def split: if_splits)
  ultimately have same: "not_different pdf r" by (intro same_fields_not_different) simp_all
  let ?R = "set (lookup identifier (pdf_name pdf))"
  let ?A = "{x \<in> ?R. in_target (ExistingCollection collection_id) x} \<inter> {x \<in> ?R. not_different pdf x}"
  have A: "r \<in> ?A" using assms(8) same r(2) by (simp add: in_target_def)
  then have "Min (pr_item_id ` ?A) \<le> item_id" using r(1) by (intro Min_le) auto
  with A have first: "\<exists>i \<le> item_id.
      classify pdf identifier (ExistingCollection collection_id) lookup = AlreadyInTarget i"
    unfolding classify_is_spec classify_spec_def Let_def by (metis (no_types, lifting) empty_iff)
  have "r \<in> {x \<in> ?R. not_different pdf x}" using assms(8) same by simp
  then have "{x \<in> ?R. not_different pdf x} \<noteq> {}" by blast
  then have "classify pdf identifier target lookup \<noteq> New"
    unfolding classify_is_spec classify_spec_def Let_def by (auto split: prod.splits simp del: Collect_empty_eq)
  with first show ?thesis by blast
qed

text \<open>Witnesses.\<close>

definition sample_pdf :: pdf_file where
  "sample_pdf = \<lparr>pdf_name = tx ''a.pdf'', pdf_format = None, pdf_source = Original, pdf_size = Some 9,
     pdf_mtime = None, pdf_md5 = None, pdf_sha1 = None, pdf_availability = Available\<rparr>"

definition sample_queued :: job_file where
  "sample_queued = (sample_file ''a.pdf'' Queued None)\<lparr>jf_page_count := None, jf_sha256 := None\<rparr>"

lemma imported_file_is_recognised_witness:
  "\<exists>m r. from_row (\<lambda>_. Some (JObject m)) (tx ''i'') (tx ''c'') [] = Some r
     \<and> (\<exists>i \<le> tx ''i''. classify sample_pdf (tx ''item'') (ExistingCollection (tx ''c'')) (\<lambda>_ _. [r])
          = AlreadyInTarget i)"
proof -
  obtain d where b: "build_doc (\<lambda>_. Some []) (\<lambda>_ _. Some []) sample_verified None 0 = Inr d"
    "pd_date d = None"
    "build_provenance sample_len (\<lambda>_. Some []) (\<lambda>_ _. Some []) sample_verified None 0 = Inr (doc_value d)"
    by (rule sample_provenance)
  let ?m = "[(provenance_key, doc_value d)]"
  have m: "jget ?m provenance_key = Some (doc_value d)" by (simp add: jget_def)
  obtain r where r: "from_row (\<lambda>_. Some (JObject ?m)) (tx ''i'') (tx ''c'') [] = Some r"
    using built_provenance_read_back [OF b(3), of "\<lambda>_. Some (JObject ?m)" "[]" ?m] m
    by (simp add: sample_verified_def u32_max_def)
  have f: "from_pdf (tx ''item'') sample_pdf = Inr sample_queued"
    by (simp add: from_pdf_def sample_pdf_def sample_queued_def sample_file_def)
  have v: "sample_verified = sample_queued\<lparr>jf_state := Verified, jf_attempts := 0, jf_error := None,
      jf_staging_name := Some (tx ''s''), jf_page_count := Some 3, jf_sha256 := Some (tx ''00ff''),
      jf_item_id := None\<rparr>"
    by (simp add: sample_queued_def sample_verified_def sample_file_def)
  have "r \<in> set ((\<lambda>_ _. [r]) (tx ''item'') (pdf_name sample_pdf))" by simp
  from imported_file_is_recognised [OF f v _ b(3), of "\<lambda>_. Some (JObject ?m)" "[]" ?m, OF _ refl m r this] r show ?thesis
    by (intro exI [of _ ?m] exI [of _ r]) (simp add: u32_max_def)
qed

end
