(* ===== verification/IaStore.thy ===== *)
theory IaStore
  imports IaJob "HOL-Library.Product_Lexorder"
begin

text \<open>
  The local store of import jobs (\<open>crates/internet-archive/src/store.rs\<close>): the shape of job
  identifiers and staging names, the operations on \<open><root>/<job_id>/job.json\<close> and the recovery of
  every job after a restart.

  A directory is a map from names to its entries; an entry of the root is a folder, a link or a
  plain file, an entry of a job folder is a file or a directory. The content of a file is either
  the text of a job, represented by the job \<open>serde_json\<close> reads back from it, or other bytes. The
  disk itself does not fail in this theory (\<open>StoreError::Io\<close> arises from links and from entries
  of the wrong kind); callers that react to a failing disk take it as a parameter of their own.
  Paths are those of Unix, whose only separator is the slash.
\<close>

section \<open>Identifiers and staging names\<close>

definition utf8_bytes_of :: "nat \<Rightarrow> nat list" where
  "utf8_bytes_of c =
     (if c < 128 then [c]
      else if c < 2048 then [192 + c div 64, 128 + c mod 64]
      else if c < 65536 then [224 + c div 4096, 128 + c div 64 mod 64, 128 + c mod 64]
      else [240 + c div 262144, 128 + c div 4096 mod 64, 128 + c div 64 mod 64, 128 + c mod 64])"

definition as_bytes :: "str \<Rightarrow> nat list" where
  "as_bytes t = concat (map utf8_bytes_of t)"

definition is_id_digit :: "nat \<Rightarrow> bool" where
  "is_id_digit b \<longleftrightarrow> 48 \<le> b \<and> b \<le> 57 \<or> 97 \<le> b \<and> b \<le> 102"

definition is_valid_job_id :: "str \<Rightarrow> bool" where
  "is_valid_job_id t =
     (let bytes = as_bytes t
      in if length bytes \<noteq> 36 then False
         else if bytes ! 8 \<noteq> 45 \<or> bytes ! 13 \<noteq> 45 \<or> bytes ! 18 \<noteq> 45 \<or> bytes ! 23 \<noteq> 45 then False
         else list_all (\<lambda>i. i \<in> set [8, 13, 18, 23] \<or> is_id_digit (bytes ! i)) [0..<36])"

definition is_valid_staging_name :: "str \<Rightarrow> bool" where
  "is_valid_staging_name name =
     (if utf8_len name \<noteq> 40 \<or> \<not> ends_with (tx ''.pdf'') name then False
      else is_valid_job_id (take (length name - 4) name))"

text \<open>\<open>Uuid::new_v4\<close> is the parameter \<open>uuid\<close>: the hyphenated text of a fresh identifier.\<close>

definition new_job_id :: "str \<Rightarrow> str" where
  "new_job_id uuid = uuid"

definition new_staging_name :: "str \<Rightarrow> str" where
  "new_staging_name uuid = uuid @ tx ''.pdf''"

definition is_confined_file_name :: "str \<Rightarrow> bool" where
  "is_confined_file_name name \<longleftrightarrow>
     name \<noteq> [] \<and> name \<noteq> tx ''.'' \<and> name \<noteq> tx ''..'' \<and> 47 \<notin> set name"

section \<open>Files and operations\<close>

datatype store_error =
    StoreIo
  | StoreJson
  | InvalidId str
  | UnsupportedVersion nat
  | JobExists str
  | JobNotFound str

datatype content = JobText job | Bytes "8 word list"

datatype node = FileNode content | DirNode

type_synonym folder = "(str \<times> node) list"

datatype entry = Folder folder | LinkEntry | FileEntry

type_synonym store_root = "(str \<times> entry) list"

definition job_json :: str where
  "job_json = tx ''job.json''"

definition job_json_tmp :: str where
  "job_json_tmp = tx ''job.json.tmp''"

definition check_job_id :: "str \<Rightarrow> store_error option" where
  "check_job_id jid = (if is_valid_job_id jid then None else Some (InvalidId jid))"

definition check_staging_name :: "str \<Rightarrow> store_error option" where
  "check_staging_name name = (if is_valid_staging_name name then None else Some (InvalidId name))"

text \<open>
  The temporary file takes the place of \<open>job.json\<close>; creating it fails on a directory, and so does
  renaming it over one, which leaves it behind.
\<close>

definition write_job_atomic :: "job \<Rightarrow> folder \<Rightarrow> store_error option \<times> folder" where
  "write_job_atomic job f =
     (if jget f job_json_tmp = Some DirNode then (Some StoreIo, f)
      else if jget f job_json = Some DirNode
      then (Some StoreIo, jinsert job_json_tmp (FileNode (JobText job)) f)
      else (None, jinsert job_json (FileNode (JobText job)) (jremove job_json_tmp f)))"

definition put_folder :: "str \<Rightarrow> store_error option \<times> folder \<Rightarrow> store_root \<Rightarrow> store_error option \<times> store_root" where
  "put_folder jid written tree = (fst written, jinsert jid (Folder (snd written)) tree)"

definition create_job :: "job \<Rightarrow> store_root \<Rightarrow> store_error option \<times> store_root" where
  "create_job job tree =
     (case check_job_id (job_id job) of
        Some e \<Rightarrow> (Some e, tree)
      | None \<Rightarrow>
          if jget tree (job_id job) \<noteq> None then (Some (JobExists (job_id job)), tree)
          else put_folder (job_id job) (write_job_atomic job []) tree)"

definition save_job :: "job \<Rightarrow> store_root \<Rightarrow> store_error option \<times> store_root" where
  "save_job job tree =
     (case check_job_id (job_id job) of
        Some e \<Rightarrow> (Some e, tree)
      | None \<Rightarrow>
          (case jget tree (job_id job) of
            Some LinkEntry \<Rightarrow> (Some StoreIo, tree)
          | Some FileEntry \<Rightarrow> (Some StoreIo, tree)
          | Some (Folder f) \<Rightarrow> put_folder (job_id job) (write_job_atomic job f) tree
          | None \<Rightarrow> put_folder (job_id job) (write_job_atomic job []) tree))"

text \<open>
  \<open>load\<close> reads through whatever the path names: through a link the content is not this store's,
  and is the parameter \<open>linked\<close>. A directory or a plain file in the way is an error of the disk.
\<close>

definition read_job :: "node option \<Rightarrow> str \<Rightarrow> store_error + job" where
  "read_job n jid =
     (case n of
        None \<Rightarrow> Inl (JobNotFound jid)
      | Some DirNode \<Rightarrow> Inl StoreIo
      | Some (FileNode (Bytes _)) \<Rightarrow> Inl StoreJson
      | Some (FileNode (JobText job)) \<Rightarrow>
          if job_schema job > job_schema_version then Inl (UnsupportedVersion (job_schema job))
          else Inr job)"

definition load_job :: "(str \<Rightarrow> node option) \<Rightarrow> str \<Rightarrow> store_root \<Rightarrow> store_error + job" where
  "load_job linked jid tree =
     (case check_job_id jid of
        Some e \<Rightarrow> Inl e
      | None \<Rightarrow>
          (case jget tree jid of
            None \<Rightarrow> Inl (JobNotFound jid)
          | Some FileEntry \<Rightarrow> Inl StoreIo
          | Some LinkEntry \<Rightarrow> read_job (linked jid) jid
          | Some (Folder f) \<Rightarrow> read_job (jget f job_json) jid))"

definition staging_path :: "str \<Rightarrow> str \<Rightarrow> store_error + str \<times> str" where
  "staging_path jid name =
     (case check_job_id jid of
        Some e \<Rightarrow> Inl e
      | None \<Rightarrow> (case check_staging_name name of Some e \<Rightarrow> Inl e | None \<Rightarrow> Inr (jid, name)))"

text \<open>\<open>fs::remove_file\<close>: a directory is refused, a missing file is its own error.\<close>

definition remove_file :: "str \<Rightarrow> folder \<Rightarrow> folder" where
  "remove_file name f = (if jget f name = Some DirNode then f else jremove name f)"

definition in_folder :: "str \<Rightarrow> (folder \<Rightarrow> folder) \<Rightarrow> store_root \<Rightarrow> store_root" where
  "in_folder jid g tree =
     (case jget tree jid of Some (Folder f) \<Rightarrow> jinsert jid (Folder (g f)) tree | _ \<Rightarrow> tree)"

definition delete_staging :: "str \<Rightarrow> str \<Rightarrow> store_root \<Rightarrow> store_error option \<times> store_root" where
  "delete_staging jid name tree =
     (case staging_path jid name of
        Inl e \<Rightarrow> (Some e, tree)
      | Inr (d, n) \<Rightarrow>
          (case jget tree d of
            Some (Folder f) \<Rightarrow>
              if jget f n = Some DirNode then (Some StoreIo, tree) else (None, in_folder d (remove_file n) tree)
          | Some FileEntry \<Rightarrow> (Some StoreIo, tree)
          | _ \<Rightarrow> (None, tree)))"

definition remove_job :: "str \<Rightarrow> store_root \<Rightarrow> store_error option \<times> store_root" where
  "remove_job jid tree =
     (case check_job_id jid of
        Some e \<Rightarrow> (Some e, tree)
      | None \<Rightarrow>
          (case jget tree jid of
            None \<Rightarrow> (Some (JobNotFound jid), tree)
          | Some LinkEntry \<Rightarrow> (Some StoreIo, tree)
          | Some FileEntry \<Rightarrow> (Some StoreIo, tree)
          | Some (Folder _) \<Rightarrow> (None, jremove jid tree)))"

section \<open>Recovery after a restart\<close>

record recovery_entry =
  rr_job_id :: str
  rr_index :: nat
  rr_identifier :: str
  rr_file_name :: str
  rr_staging_name :: "str option"

record recovery_report =
  rep_jobs :: "job list"
  rep_needs_reconcile :: "recovery_entry list"
  rep_skipped :: "str list"
  rep_quarantined :: "str list"
  rep_unsupported :: "str list"

definition empty_report :: recovery_report where
  "empty_report = \<lparr>rep_jobs = [], rep_needs_reconcile = [], rep_skipped = [], rep_quarantined = [],
     rep_unsupported = []\<rparr>"

text \<open>The name a corrupt manifest is moved to.\<close>

definition corrupt_name :: "nat \<Rightarrow> str" where
  "corrupt_name now = tx ''job.json.corrupt-'' @ show_nat now"

definition rename_file :: "str \<Rightarrow> str \<Rightarrow> folder \<Rightarrow> folder" where
  "rename_file src dst f =
     (case jget f src of
        Some (FileNode c) \<Rightarrow>
          if jget f dst = Some DirNode then f else jinsert dst (FileNode c) (jremove src f)
      | _ \<Rightarrow> f)"

definition referenced_names :: "job \<Rightarrow> str list" where
  "referenced_names job = somes (map jf_staging_name (job_files job))"

text \<open>The files of a folder that no file of the job and no reconciliation names.\<close>

definition orphans :: "str list \<Rightarrow> str list \<Rightarrow> folder \<Rightarrow> str list" where
  "orphans referenced reconcile f =
     filter (\<lambda>n. is_valid_staging_name n \<and> n \<notin> set referenced \<and> n \<notin> set reconcile) (jkeys f)"

definition recovery_of :: "str \<Rightarrow> reconcile_entry \<Rightarrow> recovery_entry" where
  "recovery_of jid e =
     \<lparr>rr_job_id = jid, rr_index = re_index e, rr_identifier = re_identifier e,
      rr_file_name = re_file_name e, rr_staging_name = re_staging_name e\<rparr>"

text \<open>A readable job of a supported version: its folder, and what is added to the report.\<close>

definition recover_job ::
  "nat \<Rightarrow> str \<Rightarrow> job \<Rightarrow> folder \<Rightarrow> recovery_report \<Rightarrow> folder \<times> recovery_report" where
  "recover_job now jid before f report =
     (let (effects, job) = normalize_after_restart now before;
          reconcile_names = somes (map re_staging_name (needs_reconcile effects));
          report1 = report\<lparr>rep_needs_reconcile :=
            rep_needs_reconcile report @ map (recovery_of jid) (needs_reconcile effects)\<rparr>;
          f1 = fold remove_file (filter is_confined_file_name (staging_to_delete effects)) f;
          f2 = fold remove_file (orphans (referenced_names job) reconcile_names f1) f1
      in if job = before then (f2, report1\<lparr>rep_jobs := rep_jobs report1 @ [job]\<rparr>)
         else (case write_job_atomic job f2 of
           (None, f3) \<Rightarrow> (f3, report1\<lparr>rep_jobs := rep_jobs report1 @ [job]\<rparr>)
         | (Some _, f3) \<Rightarrow> (f3, report1\<lparr>rep_skipped := rep_skipped report1 @ [jid]\<rparr>)))"

text \<open>One entry of the root.\<close>

definition recover_entry ::
  "nat \<Rightarrow> str \<Rightarrow> entry \<Rightarrow> recovery_report \<Rightarrow> entry \<times> recovery_report" where
  "recover_entry now name e report =
     (case e of
        LinkEntry \<Rightarrow> (e, report\<lparr>rep_skipped := rep_skipped report @ [name]\<rparr>)
      | FileEntry \<Rightarrow> (e, report\<lparr>rep_skipped := rep_skipped report @ [name]\<rparr>)
      | Folder folder \<Rightarrow>
          if \<not> is_valid_job_id name then (e, report\<lparr>rep_skipped := rep_skipped report @ [name]\<rparr>)
          else
            (let f = remove_file job_json_tmp folder in
             case jget f job_json of
               None \<Rightarrow> (Folder f, report\<lparr>rep_skipped := rep_skipped report @ [name]\<rparr>)
             | Some DirNode \<Rightarrow> (Folder f, report\<lparr>rep_skipped := rep_skipped report @ [name]\<rparr>)
             | Some (FileNode (Bytes _)) \<Rightarrow>
                 (Folder (rename_file job_json (corrupt_name now) f),
                  report\<lparr>rep_quarantined := rep_quarantined report @ [name]\<rparr>)
             | Some (FileNode (JobText job)) \<Rightarrow>
                 if job_schema job > job_schema_version
                 then (Folder f, report\<lparr>rep_unsupported := rep_unsupported report @ [name]\<rparr>)
                 else (let (f', report') = recover_job now name job f report in (Folder f', report'))))"

fun recover_entries ::
  "nat \<Rightarrow> store_root \<Rightarrow> recovery_report \<Rightarrow> store_root \<times> recovery_report" where
  "recover_entries now [] report = ([], report)"
| "recover_entries now ((name, e) # rest) report =
     (let (e', report') = recover_entry now name e report;
          (rest', report'') = recover_entries now rest report'
      in ((name, e') # rest', report''))"

text \<open>The tree of the model keeps its names in ascending order, the order of \<open>names.sort()\<close>.\<close>

definition recover_all :: "nat \<Rightarrow> store_root \<Rightarrow> store_root \<times> recovery_report" where
  "recover_all now tree =
     (let (tree', report) = recover_entries now tree empty_report
      in (tree', report\<lparr>rep_jobs := sort_key job_id (rep_jobs report),
           rep_needs_reconcile :=
             sort_key (\<lambda>e. (rr_job_id e, rr_index e)) (rep_needs_reconcile report)\<rparr>))"

section \<open>The shape of a valid name\<close>

definition is_uuid_text :: "str \<Rightarrow> bool" where
  "is_uuid_text t \<longleftrightarrow>
     (\<exists>a b c d e. t = a @ [45] @ b @ [45] @ c @ [45] @ d @ [45] @ e
        \<and> length a = 8 \<and> length b = 4 \<and> length c = 4 \<and> length d = 4 \<and> length e = 12
        \<and> list_all is_id_digit (a @ b @ c @ d @ e))"

lemma utf8_bytes_ascii: "list_all (\<lambda>b. b < 128) (utf8_bytes_of c) \<longleftrightarrow> c < 128"
  by (auto simp: utf8_bytes_of_def)

lemma as_bytes_ascii: "list_all (\<lambda>b. b < 128) (as_bytes t) \<longleftrightarrow> list_all (\<lambda>c. c < 128) t"
proof (induction t)
  case (Cons c t)
  then show ?case by (simp add: as_bytes_def utf8_bytes_ascii)
qed (simp add: as_bytes_def)

lemma as_bytes_of_ascii: "list_all (\<lambda>c. c < 128) t \<Longrightarrow> as_bytes t = t"
  by (induction t) (auto simp: as_bytes_def utf8_bytes_of_def)

lemma utf8_len_ascii: "list_all (\<lambda>c. c < 128) t \<Longrightarrow> utf8_len t = length t"
  by (induction t) (auto simp: utf8_len_def utf8_width_def)

lemma id_digit_ascii: "is_id_digit b \<Longrightarrow> b < 128"
  by (auto simp: is_id_digit_def)

lemma uuid_ascii: "is_uuid_text t \<Longrightarrow> list_all (\<lambda>c. c < 128) t \<and> length t = 36"
  by (auto simp: is_uuid_text_def list_all_iff dest: id_digit_ascii)

lemma cut_group:
  "n + k < length t \<Longrightarrow> drop n t = take k (drop n t) @ [t ! (n + k)] @ drop (Suc (n + k)) t"
  by (metis Cons_nth_drop_Suc add.commute append_Cons append_Nil append_take_drop_id drop_drop)

lemma list_all_group:
  assumes "\<And>i. n \<le> i \<Longrightarrow> i < n + k \<Longrightarrow> p (t ! i)" and "n + k \<le> length t"
  shows "list_all p (take k (drop n t))"
  using assms by (auto simp: list_all_length)

lemma valid_job_id_iff: "is_valid_job_id t \<longleftrightarrow> is_uuid_text t"
proof
  assume "is_uuid_text t"
  then obtain a b c d e where t: "t = a @ [45] @ b @ [45] @ c @ [45] @ d @ [45] @ e"
    "length a = 8" "length b = 4" "length c = 4" "length d = 4" "length e = 12"
    "list_all is_id_digit (a @ b @ c @ d @ e)"
    unfolding is_uuid_text_def by blast
  have len: "length t = 36" and bytes: "as_bytes t = t"
    using uuid_ascii [OF \<open>is_uuid_text t\<close>] as_bytes_of_ascii by auto
  have "t ! 8 = 45" "t ! 13 = 45" "t ! 18 = 45" "t ! 23 = 45"
    using t by (simp_all add: nth_append)
  moreover have "is_id_digit (t ! i)" if "i < 36" "i \<notin> set [8, 13, 18, 23]" for i
  proof -
    have "t ! i \<in> set (a @ b @ c @ d @ e)"
      using that t(2-6) unfolding t(1) by (auto simp: nth_append nth_Cons' split: if_splits)
    then show ?thesis using t(7) by (simp only: list_all_iff)
  qed
  ultimately show "is_valid_job_id t"
    unfolding is_valid_job_id_def Let_def bytes len list_all_iff
    by (simp del: ball_simps) (metis atLeastLessThan_iff)
next
  assume v: "is_valid_job_id t"
  let ?b = "as_bytes t"
  have len: "length ?b = 36" and dash: "?b ! 8 = 45" "?b ! 13 = 45" "?b ! 18 = 45" "?b ! 23 = 45"
    and dig: "\<And>i. i < 36 \<Longrightarrow> i \<notin> {8, 13, 18, 23} \<Longrightarrow> is_id_digit (?b ! i)"
    using v by (auto simp: is_valid_job_id_def Let_def list_all_iff split: if_splits)
  have "?b ! i < 128" if "i < 36" for i
    using that dash dig [OF that] id_digit_ascii by (cases "i \<in> {8, 13, 18, 23}") auto
  then have "list_all (\<lambda>c. c < 128) ?b" by (simp add: list_all_length len)
  then have b: "?b = t" using as_bytes_ascii as_bytes_of_ascii by blast
  note len = len [unfolded b] and dash = dash [unfolded b] and dig = dig [unfolded b]
  have "t = take 8 t @ [t ! 8] @ drop 9 t" using cut_group [of 0 8 t] len by simp
  also have "drop 9 t = take 4 (drop 9 t) @ [t ! 13] @ drop 14 t" using cut_group [of 9 4 t] len by simp
  also have "drop 14 t = take 4 (drop 14 t) @ [t ! 18] @ drop 19 t" using cut_group [of 14 4 t] len by simp
  also have "drop 19 t = take 4 (drop 19 t) @ [t ! 23] @ drop 24 t" using cut_group [of 19 4 t] len by simp
  finally have t: "t = take 8 t @ [45] @ take 4 (drop 9 t) @ [45] @ take 4 (drop 14 t) @ [45] @
      take 4 (drop 19 t) @ [45] @ drop 24 t"
    by (simp add: dash)
  have "list_all is_id_digit (take 8 t)" using list_all_group [of 0 8 is_id_digit t] dig len by simp
  moreover have "list_all is_id_digit (take 4 (drop 9 t))" "list_all is_id_digit (take 4 (drop 14 t))"
    "list_all is_id_digit (take 4 (drop 19 t))"
    by (rule list_all_group; use dig len in simp)+
  moreover have "list_all is_id_digit (take 12 (drop 24 t))"
    by (rule list_all_group; use dig len in simp)
  ultimately show "is_uuid_text t"
    unfolding is_uuid_text_def using t len
    by (intro exI [of _ "take 8 t"] exI [of _ "take 4 (drop 9 t)"] exI [of _ "take 4 (drop 14 t)"]
        exI [of _ "take 4 (drop 19 t)"] exI [of _ "drop 24 t"]) simp
qed

lemma valid_staging_iff: "is_valid_staging_name n \<longleftrightarrow> (\<exists>u. is_uuid_text u \<and> n = u @ tx ''.pdf'')"
proof
  assume "is_valid_staging_name n"
  then have e: "drop (length n - 4) n = tx ''.pdf''" and u: "is_uuid_text (take (length n - 4) n)"
    by (auto simp: is_valid_staging_name_def valid_job_id_iff ends_with_def tx_def eval_nat_numeral split: if_splits)
  have "n = take (length n - 4) n @ tx ''.pdf''" unfolding e [symmetric] by simp
  with u show "\<exists>u. is_uuid_text u \<and> n = u @ tx ''.pdf''" by blast
next
  assume "\<exists>u. is_uuid_text u \<and> n = u @ tx ''.pdf''"
  then obtain u where u: "is_uuid_text u" "n = u @ tx ''.pdf''" by blast
  have pdf: "length (tx ''.pdf'') = 4" "list_all (\<lambda>c. c < 128) (tx ''.pdf'')" by (simp_all add: tx_def)
  have "utf8_len n = 40"
    using uuid_ascii [OF u(1)] pdf by (subst utf8_len_ascii) (simp_all add: u(2))
  then show "is_valid_staging_name n"
    using u pdf by (simp add: is_valid_staging_name_def valid_job_id_iff ends_with_def)
qed

section \<open>Reading back what was written\<close>

lemma manifest_names_differ [simp]: "job_json \<noteq> job_json_tmp" "job_json_tmp \<noteq> job_json"
  by (simp_all add: job_json_def job_json_tmp_def)

lemma not_digit_slash: "\<not> is_id_digit 47"
  by (simp add: is_id_digit_def)

lemma valid_staging_not_manifest:
  assumes "is_valid_staging_name n"
  shows "n \<noteq> job_json" "n \<noteq> job_json_tmp" "is_confined_file_name n"
proof -
  obtain u where u: "is_uuid_text u" "n = u @ tx ''.pdf''" using assms by (auto simp: valid_staging_iff)
  have len: "length n = 40" using uuid_ascii [OF u(1)] by (simp add: u(2) tx_def)
  then show "n \<noteq> job_json" "n \<noteq> job_json_tmp"
    by (auto simp: job_json_def job_json_tmp_def tx_def)
  have "47 \<notin> set n"
    using u not_digit_slash by (fastforce simp: is_uuid_text_def list_all_iff tx_def)
  moreover have "n \<noteq> []" "n \<noteq> tx ''.''" "n \<noteq> tx ''..''" using len by (auto simp: tx_def)
  ultimately show "is_confined_file_name n" by (simp add: is_confined_file_name_def)
qed

lemma write_job_None:
  assumes "write_job_atomic job f = (None, f')"
  shows "jget f' k = (if k = job_json then Some (FileNode (JobText job))
    else if k = job_json_tmp then None else jget f k)"
  using assms by (auto simp: write_job_atomic_def jget_jinsert_iff jget_jremove_iff split: if_splits)

lemma jget_put_folder:
  "jget (snd (put_folder jid w tree)) k = (if k = jid then Some (Folder (snd w)) else jget tree k)"
  by (simp add: put_folder_def jget_jinsert_iff)

lemma jget_remove_file:
  "jget (remove_file n f) k = (if k = n \<and> jget f n \<noteq> Some DirNode then None else jget f k)"
  by (auto simp: remove_file_def jget_jremove_iff)

lemma jget_remove_files:
  "jget (fold remove_file ns f) k =
     (if k \<in> set ns \<and> jget f k \<noteq> Some DirNode then None else jget f k)"
  by (induction ns arbitrary: f) (auto simp: jget_remove_file)

text \<open>What a folder holds under a name, and nothing when the root has no such folder.\<close>

definition node_at :: "store_root \<Rightarrow> str \<Rightarrow> str \<Rightarrow> node option" where
  "node_at tree jid n = (case jget tree jid of Some (Folder f) \<Rightarrow> jget f n | _ \<Rightarrow> None)"

lemma save_job_None:
  assumes "save_job job tree = (None, tree')"
  shows "is_valid_job_id (job_id job)"
    "node_at tree' (job_id job) k = (if k = job_json then Some (FileNode (JobText job))
       else if k = job_json_tmp then None else node_at tree (job_id job) k)"
    "\<exists>f. jget tree' (job_id job) = Some (Folder f)"
    "k \<noteq> job_id job \<Longrightarrow> jget tree' k = jget tree k"
proof -
  have v: "is_valid_job_id (job_id job)"
    using assms by (auto simp: save_job_def check_job_id_def split: option.splits if_splits)
  obtain f w where f: "write_job_atomic job f = (None, w)" "tree' = snd (put_folder (job_id job) (None, w) tree)"
    "\<And>n. jget f n = node_at tree (job_id job) n"
  proof (cases "jget tree (job_id job)")
    case None
    with assms v that [of "[]" "snd (write_job_atomic job [])"] show ?thesis
      by (cases "write_job_atomic job []")
        (auto simp: save_job_def check_job_id_def put_folder_def node_at_def)
  next
    case (Some e)
    with assms v obtain f where e: "e = Folder f"
      by (cases e) (auto simp: save_job_def check_job_id_def)
    with Some assms v that [of f "snd (write_job_atomic job f)"] show ?thesis
      by (cases "write_job_atomic job f")
        (auto simp: save_job_def check_job_id_def put_folder_def node_at_def)
  qed
  show "is_valid_job_id (job_id job)" by (fact v)
  show "\<exists>f. jget tree' (job_id job) = Some (Folder f)" by (simp add: f(2) jget_put_folder)
  show "k \<noteq> job_id job \<Longrightarrow> jget tree' k = jget tree k" by (simp add: f(2) jget_put_folder)
  show "node_at tree' (job_id job) k = (if k = job_json then Some (FileNode (JobText job))
       else if k = job_json_tmp then None else node_at tree (job_id job) k)"
  proof -
    have "node_at tree' (job_id job) k = jget w k" by (simp add: node_at_def f(2) jget_put_folder)
    with write_job_None [OF f(1), of k] show ?thesis by (simp add: f(3))
  qed
qed

lemma load_job_folder:
  "jget tree jid = Some (Folder f) \<Longrightarrow> is_valid_job_id jid \<Longrightarrow>
     load_job linked jid tree = read_job (node_at tree jid job_json) jid"
  by (simp add: load_job_def check_job_id_def node_at_def)

lemma load_after_save:
  assumes "save_job job tree = (None, tree')" and "job_schema job \<le> job_schema_version"
  shows "load_job linked (job_id job) tree' = Inr job"
  using save_job_None(1,3) [OF assms(1)] save_job_None(2) [OF assms(1), of job_json] assms(2)
  by (auto simp: load_job_folder read_job_def)

lemma load_other_after_save:
  "save_job job tree = (e, tree') \<Longrightarrow> jid \<noteq> job_id job \<Longrightarrow> load_job linked jid tree' = load_job linked jid tree"
  by (auto simp: save_job_def load_job_def put_folder_def jget_jinsert_iff split: option.splits entry.splits)

section \<open>Recovery, entry by entry\<close>

lemma recover_entry_report:
  "fst (recover_entry now name e report) = fst (recover_entry now name e report')"
  by (auto simp: recover_entry_def recover_job_def Let_def
      split: entry.splits option.splits node.splits content.splits prod.splits)

lemma recover_entries_tree:
  "fst (recover_entries now tree report) =
     map (\<lambda>(n, e). (n, fst (recover_entry now n e empty_report))) tree"
proof (induction tree arbitrary: report)
  case (Cons p tree)
  then show ?case
    using recover_entry_report [of now "fst p" "snd p" report empty_report]
    by (cases p) (auto simp: split_beta)
qed simp

lemma jget_recover_all:
  "jget (fst (recover_all now tree)) name =
     map_option (\<lambda>e. fst (recover_entry now name e empty_report)) (jget tree name)"
proof -
  have "jget (map (\<lambda>(n, e). (n, fst (recover_entry now n e empty_report))) tree) name =
      map_option (\<lambda>e. fst (recover_entry now name e empty_report)) (jget tree name)"
    by (induction tree) (auto simp: jget_def)
  then show ?thesis by (simp add: recover_all_def split_beta recover_entries_tree)
qed

text \<open>The names a recovered job still refers to.\<close>

lemma somes_names:
  "n \<in> set (somes (map g (filter P xs))) \<longleftrightarrow> (\<exists>x \<in> set xs. P x \<and> g x = Some n)"
  by (auto simp: set_somes image_iff intro: sym)

lemma referenced_iff: "n \<in> set (referenced_names job) \<longleftrightarrow> (\<exists>f \<in> set (job_files job). jf_staging_name f = Some n)"
  by (auto simp: referenced_names_def set_somes image_iff intro: sym)

lemma normalize_references:
  assumes "normalize_after_restart now job = (effects, job')"
  shows "set (referenced_names job') \<subseteq> set (referenced_names job)"
    and "set (referenced_names job) \<subseteq> set (referenced_names job') \<union> set (staging_to_delete effects)"
    and "set (staging_to_delete effects) \<subseteq> set (referenced_names job)"
    and "set (somes (map re_staging_name (needs_reconcile effects))) \<subseteq> set (referenced_names job')"
    and "job_id job' = job_id job" "job_schema job' = job_schema job"
    and "job' = job \<Longrightarrow> staging_to_delete effects = [] \<and> needs_reconcile effects = []"
proof -
  have keep: "jf_staging_name (file_abandon f) = jf_staging_name f" for f
    by (simp add: file_abandon_def)
  have requeue: "jf_staging_name (file_requeue f) =
      (if jf_state f = Downloading \<or> jf_state f = Verifying then None else jf_staging_name f)" for f
    by (simp add: file_requeue_def)
  have entries: "set (somes (map re_staging_name (map reconcile_of
      (filter P (List.enumerate 0 fs))))) \<subseteq> {n. \<exists>f \<in> set fs. jf_staging_name f = Some n}" for P fs
    by (auto simp: set_somes reconcile_of_def in_set_enumerate_eq split: prod.splits) (metis nth_mem)
  consider (r) "job_state job = Running" | (c) "job_state job = Cancelling"
    | (o) "effects = no_effects" "job' = job"
    using assms by (auto simp: normalize_after_restart_def split: job_state.splits)
  then have "set (referenced_names job') \<subseteq> set (referenced_names job)
    \<and> set (referenced_names job) \<subseteq> set (referenced_names job') \<union> set (staging_to_delete effects)
    \<and> set (staging_to_delete effects) \<subseteq> set (referenced_names job)
    \<and> set (somes (map re_staging_name (needs_reconcile effects))) \<subseteq> set (referenced_names job')
    \<and> job_id job' = job_id job \<and> job_schema job' = job_schema job
    \<and> (job' = job \<longrightarrow> staging_to_delete effects = [] \<and> needs_reconcile effects = [])"
  proof cases
    case r
    with assms have e: "effects = \<lparr>staging_to_delete = somes (map jf_staging_name (filter
        (\<lambda>f. jf_state f = Downloading \<or> jf_state f = Verifying) (job_files job))), needs_reconcile = []\<rparr>"
      and j: "job' = job\<lparr>job_files := map file_requeue (job_files job), job_state := Ready,
        job_updated_at := now\<rparr>"
      by (auto simp: job_ops)
    have "job_state job' \<noteq> job_state job" using r by (simp add: j)
    then have "job' \<noteq> job" by auto
    moreover have "set (referenced_names job') \<subseteq> set (referenced_names job)"
      by (auto simp: referenced_iff j requeue split: if_splits)
    moreover have "set (staging_to_delete effects) \<subseteq> set (referenced_names job)"
      by (auto simp: e somes_names referenced_iff)
    moreover have "set (referenced_names job) \<subseteq> set (referenced_names job') \<union> set (staging_to_delete effects)"
      using requeue by (fastforce simp: e j somes_names referenced_iff)
    ultimately show ?thesis by (auto simp: j e)
  next
    case c
    with assms have e: "effects = \<lparr>staging_to_delete = somes (map jf_staging_name (filter
        (\<lambda>f. \<not> file_is_terminal (jf_state f) \<and> jf_state f \<noteq> Importing) (job_files job))),
        needs_reconcile = map reconcile_of
          (filter (\<lambda>(i, f). jf_state f = Importing) (List.enumerate 0 (job_files job)))\<rparr>"
      and j: "job' = job\<lparr>job_files := map file_abandon (job_files job), job_state := JobCancelled,
        job_updated_at := now\<rparr>"
      by (auto simp: job_ops)
    have "job_state job' \<noteq> job_state job" using c by (simp add: j)
    then have "job' \<noteq> job" by auto
    moreover have "set (referenced_names job') = set (referenced_names job)"
      by (auto simp: referenced_iff j keep)
    moreover have "set (staging_to_delete effects) \<subseteq> set (referenced_names job)"
      by (auto simp: e somes_names referenced_iff)
    moreover have "set (somes (map re_staging_name (needs_reconcile effects))) \<subseteq> set (referenced_names job)"
      using entries [of "\<lambda>(i, f). jf_state f = Importing" "job_files job"]
      by (auto simp: e subset_iff referenced_iff)
    ultimately show ?thesis by (auto simp: j)
  qed (auto simp: no_effects_def)
  then show "set (referenced_names job') \<subseteq> set (referenced_names job)"
    "set (referenced_names job) \<subseteq> set (referenced_names job') \<union> set (staging_to_delete effects)"
    "set (staging_to_delete effects) \<subseteq> set (referenced_names job)"
    "set (somes (map re_staging_name (needs_reconcile effects))) \<subseteq> set (referenced_names job')"
    "job_id job' = job_id job" "job_schema job' = job_schema job"
    "job' = job \<Longrightarrow> staging_to_delete effects = [] \<and> needs_reconcile effects = []"
    by blast+
qed

lemma mem_orphans:
  "n \<in> set (orphans ref rec f) \<longleftrightarrow>
     is_valid_staging_name n \<and> n \<notin> set ref \<and> n \<notin> set rec \<and> jget f n \<noteq> None"
  by (auto simp: orphans_def jkeys_dom dom_def)

text \<open>What recovering a job leaves in its folder.\<close>

definition dropped :: "restart_effects \<Rightarrow> job \<Rightarrow> str \<Rightarrow> bool" where
  "dropped effects job' n \<longleftrightarrow>
     n \<in> set (staging_to_delete effects) \<and> is_confined_file_name n \<or>
     is_valid_staging_name n \<and> n \<notin> set (referenced_names job')"

lemma recover_job_folder:
  assumes "normalize_after_restart now job = (effects, job')"
    and "jget f job_json = Some (FileNode (JobText job))" and "jget f job_json_tmp = None"
  shows "jget (fst (recover_job now jid job f report)) k =
      (if k = job_json then Some (FileNode (JobText job'))
       else if dropped effects job' k \<and> jget f k \<noteq> Some DirNode then None else jget f k)"
    and "snd (recover_job now jid job f report) =
      report\<lparr>rep_needs_reconcile := rep_needs_reconcile report @ map (recovery_of jid) (needs_reconcile effects),
        rep_jobs := rep_jobs report @ [job']\<rparr>"
proof -
  note refs = normalize_references [OF assms(1)]
  let ?rec = "somes (map re_staging_name (needs_reconcile effects))"
  define f1 where "f1 = fold remove_file (filter is_confined_file_name (staging_to_delete effects)) f"
  define f2 where "f2 = fold remove_file (orphans (referenced_names job') ?rec f1) f1"
  have f1: "jget f1 k = (if k \<in> set (staging_to_delete effects) \<and> is_confined_file_name k
      \<and> jget f k \<noteq> Some DirNode then None else jget f k)" for k
    by (simp add: f1_def jget_remove_files)
  have f2: "jget f2 k = (if dropped effects job' k \<and> jget f k \<noteq> Some DirNode then None else jget f k)" for k
    using refs(4) by (auto simp: f2_def jget_remove_files mem_orphans f1 dropped_def)
  have manifest: "jget f2 job_json \<noteq> Some DirNode" "jget f2 job_json_tmp = None"
    by (simp_all add: f2 assms(2,3))
  have "\<not> is_valid_staging_name job_json" using valid_staging_not_manifest(1) by blast
  then have same: "job' = job \<Longrightarrow> jget f2 job_json = Some (FileNode (JobText job'))"
    using refs(7) by (simp add: f2 dropped_def assms(2))
  obtain f3 where f3: "write_job_atomic job' f2 = (None, f3)"
    using manifest by (simp add: write_job_atomic_def)
  have r: "recover_job now jid job f report =
      (if job' = job then f2 else f3, report\<lparr>rep_needs_reconcile := rep_needs_reconcile report
          @ map (recovery_of jid) (needs_reconcile effects), rep_jobs := rep_jobs report @ [job']\<rparr>)"
    by (simp add: recover_job_def assms(1) f3 flip: f1_def f2_def)
  show "jget (fst (recover_job now jid job f report)) k =
      (if k = job_json then Some (FileNode (JobText job'))
       else if dropped effects job' k \<and> jget f k \<noteq> Some DirNode then None else jget f k)"
    using same manifest assms(3) by (auto simp: r f2 write_job_None [OF f3])
  show "snd (recover_job now jid job f report) =
      report\<lparr>rep_needs_reconcile := rep_needs_reconcile report @ map (recovery_of jid) (needs_reconcile effects),
        rep_jobs := rep_jobs report @ [job']\<rparr>"
    by (simp add: r)
qed

lemma recover_entry_job:
  assumes "is_valid_job_id jid" and "jget f job_json = Some (FileNode (JobText job))"
    and "job_schema job \<le> job_schema_version" and "jget f job_json_tmp \<noteq> Some DirNode"
  shows "recover_entry now jid (Folder f) report =
    (let (f', r) = recover_job now jid job (remove_file job_json_tmp f) report in (Folder f', r))"
    "jget (remove_file job_json_tmp f) job_json = Some (FileNode (JobText job))"
    "jget (remove_file job_json_tmp f) job_json_tmp = None"
  using assms by (auto simp: recover_entry_def jget_remove_file)

lemma recover_entries_jobs:
  "(j \<in> set (rep_jobs report) \<Longrightarrow> j \<in> set (rep_jobs (snd (recover_entries now tree report))))"
proof (induction tree arbitrary: report)
  case (Cons p tree)
  obtain n e where p: "p = (n, e)" by (cases p)
  have "j \<in> set (rep_jobs (snd (recover_entry now n e report)))"
    using Cons.prems
    by (auto simp: recover_entry_def recover_job_def Let_def
        split: entry.splits option.splits node.splits content.splits prod.splits)
  with Cons.IH p show ?case by (simp add: split_beta)
qed simp

lemma recovered_job_reported:
  assumes "(jid, Folder f) \<in> set tree" and "is_valid_job_id jid"
    and "jget f job_json = Some (FileNode (JobText job))" and "job_schema job \<le> job_schema_version"
    and "jget f job_json_tmp \<noteq> Some DirNode"
  shows "snd (normalize_after_restart now job) \<in> set (rep_jobs (snd (recover_entries now tree report)))"
  using assms(1)
proof (induction tree arbitrary: report)
  case (Cons p tree)
  obtain effects job' where n: "normalize_after_restart now job = (effects, job')" by fastforce
  show ?case
  proof (cases "p = (jid, Folder f)")
    case True
    note e = recover_entry_job [OF assms(2-5)]
    have "job' \<in> set (rep_jobs (snd (recover_entry now jid (Folder f) report)))"
      using recover_job_folder(2) [OF n e(2,3), of jid report] by (simp add: e(1) split_beta)
    then show ?thesis using True n recover_entries_jobs by (simp add: split_beta)
  next
    case False
    with Cons show ?thesis by (cases p) (auto simp: split_beta)
  qed
qed simp

section \<open>Properties\<close>

text \<open>
  The store only ever builds paths from identifiers. A job identifier is accepted exactly when
  it is the text of a UUID in lower case, a staging name exactly when it is one followed by
  \<open>.pdf\<close>; \<open>staging_path\<close> answers the pair itself for two such names and an error for all others;
  and no accepted name contains a separator or is a name of the manifest.
\<close>

theorem store_paths_are_uuids:
  "(is_valid_job_id jid \<longleftrightarrow> is_uuid_text jid) \<and>
   (is_valid_staging_name name \<longleftrightarrow> (\<exists>u. is_uuid_text u \<and> name = u @ tx ''.pdf'')) \<and>
   (staging_path jid name = Inr path \<longleftrightarrow>
      path = (jid, name) \<and> is_uuid_text jid \<and> (\<exists>u. is_uuid_text u \<and> name = u @ tx ''.pdf'')) \<and>
   \<not> (is_valid_staging_name name \<and>
      (47 \<in> set name \<or> name = tx ''.'' \<or> name = tx ''..'' \<or> name = job_json \<or> name = job_json_tmp))"
proof -
  have "staging_path jid name = Inr path \<longleftrightarrow>
      path = (jid, name) \<and> is_valid_job_id jid \<and> is_valid_staging_name name"
    by (auto simp: staging_path_def check_job_id_def check_staging_name_def)
  with valid_staging_not_manifest [of name] show ?thesis
    by (auto simp: valid_job_id_iff valid_staging_iff is_confined_file_name_def)
qed

text \<open>
  A saved job is what is loaded next. After a successful save the job is read back as it
  was saved, the temporary file is gone, every other file of its folder and every other entry of
  the root is untouched; and whether a save succeeds or fails, no other job reads differently.
\<close>

theorem saved_job_is_loaded:
  assumes "save_job job tree = (None, tree')" and "job_schema job \<le> job_schema_version"
  shows "load_job linked (job_id job) tree' = Inr job
    \<and> node_at tree' (job_id job) job_json_tmp = None
    \<and> (\<forall>k. k \<noteq> job_json \<and> k \<noteq> job_json_tmp \<longrightarrow> node_at tree' (job_id job) k = node_at tree (job_id job) k)
    \<and> (\<forall>k. k \<noteq> job_id job \<longrightarrow> jget tree' k = jget tree k)"
  using load_after_save [OF assms] save_job_None(2,4) [OF assms(1)] by simp

text \<open>
  C28: recovery deletes exactly what no job needs. For every job folder with a readable
  manifest, \<open>recover_all\<close> leaves the job as \<open>normalize_after_restart\<close> makes it, reports it, and of
  the staging files in the folder keeps, unchanged, those the job names except the ones listed
  for deletion, and removes all others. With distinct staging names the file of an interrupted
  import is never among the ones listed for deletion, so it survives every restart.
\<close>

theorem recovery_deletes_only_unneeded_staging:
  assumes "jget tree jid = Some (Folder f)" and "is_valid_job_id jid"
    and "jget f job_json = Some (FileNode (JobText job))" and "job_schema job \<le> job_schema_version"
    and "jget f job_json_tmp \<noteq> Some DirNode"
    and "normalize_after_restart now job = (effects, job')"
    and "recover_all now tree = (tree', report)"
  shows "load_job linked jid tree' = Inr job' \<and> job' \<in> set (rep_jobs report)
    \<and> (\<forall>n. is_valid_staging_name n \<longrightarrow> node_at tree' jid n =
         (if n \<in> set (referenced_names job) \<and> n \<notin> set (staging_to_delete effects) \<or> jget f n = Some DirNode
          then jget f n else None))
    \<and> (distinct (referenced_names job) \<longrightarrow>
         (\<forall>g \<in> set (job_files job). \<forall>n. jf_state g = Importing \<and> jf_staging_name g = Some n \<longrightarrow>
            n \<notin> set (staging_to_delete effects)))"
proof (intro conjI allI impI ballI)
  note e = recover_entry_job [OF assms(2-5)]
  note folder = recover_job_folder [OF assms(6) e(2,3)]
  note refs = normalize_references [OF assms(6)]
  have at: "node_at tree' jid k = jget (fst (recover_job now jid job (remove_file job_json_tmp f) empty_report)) k" for k
    using jget_recover_all [of now tree jid] by (simp add: node_at_def assms(1,7) e(1) split_beta)
  have "jget tree' jid = Some (Folder (fst (recover_job now jid job (remove_file job_json_tmp f) empty_report)))"
    using jget_recover_all [of now tree jid] by (simp add: assms(1,7) e(1) split_beta)
  then show "load_job linked jid tree' = Inr job'"
    using assms(2,4) refs(6) by (subst load_job_folder) (auto simp: at folder(1) read_job_def)
  have "(jid, Folder f) \<in> set tree" using assms(1) by (simp add: jget_def map_of_SomeD)
  from recovered_job_reported [OF this assms(2-5), of now empty_report] assms(6,7)
  show "job' \<in> set (rep_jobs report)" by (auto simp: recover_all_def split_beta)
  show "node_at tree' jid n = (if n \<in> set (referenced_names job) \<and> n \<notin> set (staging_to_delete effects)
      \<or> jget f n = Some DirNode then jget f n else None)" if "is_valid_staging_name n" for n
    using valid_staging_not_manifest [OF that] that refs(1,2,3)
    by (auto simp: at folder(1) dropped_def jget_remove_file)
  show "n \<notin> set (staging_to_delete effects)"
    if d: "distinct (referenced_names job)" and g: "g \<in> set (job_files job)"
      and n: "jf_state g = Importing \<and> jf_staging_name g = Some n" for g n
  proof -
    have "n \<notin> set (somes (map jf_staging_name (filter P (job_files job))))" if "\<not> P g" for P
      using somes_filter_names [of jf_staging_name "job_files job" g n P] d g n that
      by (auto simp: referenced_names_def)
    then show ?thesis using assms(6) n
      by (auto simp: job_ops no_effects_def split: job_state.splits)
  qed
qed

text \<open>Witnesses.\<close>

definition sample_id :: str where
  "sample_id = tx ''12345678-1234-1234-1234-1234567890ab''"

definition stored_job :: "job_state \<Rightarrow> job_file list \<Rightarrow> job" where
  "stored_job s files = (sample_job s files)\<lparr>job_id := sample_id\<rparr>"

lemma sample_id_valid: "is_valid_job_id sample_id"
  unfolding valid_job_id_iff is_uuid_text_def sample_id_def
  by (rule exI [of _ "tx ''12345678''"], rule exI [of _ "tx ''1234''"], rule exI [of _ "tx ''1234''"],
      rule exI [of _ "tx ''1234''"], rule exI [of _ "tx ''1234567890ab''"])
    (simp add: tx_def is_id_digit_def)

definition sample_staging :: str where
  "sample_staging = sample_id @ tx ''.pdf''"

lemma sample_staging_valid: "is_valid_staging_name sample_staging"
  using sample_id_valid by (auto simp: valid_staging_iff sample_staging_def valid_job_id_iff)

lemma saved_job_is_loaded_witness:
  "load_job (\<lambda>_. None) sample_id (snd (save_job (stored_job Draft []) [])) = Inr (stored_job Draft [])"
proof -
  let ?j = "stored_job Draft []"
  have "save_job ?j [] = (None, snd (save_job ?j []))"
    using sample_id_valid
    by (simp add: save_job_def check_job_id_def stored_job_def put_folder_def write_job_atomic_def)
  from saved_job_is_loaded [OF this, of "\<lambda>_. None"] show ?thesis
    by (simp add: stored_job_def sample_job_def job_schema_version_def)
qed

lemma recovery_deletes_only_unneeded_staging_witness:
  "(let job = stored_job Cancelling [(sample_file ''a.pdf'' Importing None)\<lparr>jf_staging_name := Some sample_staging\<rparr>];
        f = [(job_json, FileNode (JobText job)), (sample_staging, FileNode (Bytes []))]
    in node_at (fst (recover_all 5 [(sample_id, Folder f)])) sample_id sample_staging
       = Some (FileNode (Bytes [])))"
proof -
  let ?g = "(sample_file ''a.pdf'' Importing None)\<lparr>jf_staging_name := Some sample_staging\<rparr>"
  let ?job = "stored_job Cancelling [?g]"
  let ?f = "[(job_json, FileNode (JobText ?job)), (sample_staging, FileNode (Bytes []))]"
  obtain effects job' where n: "normalize_after_restart 5 ?job = (effects, job')" by fastforce
  obtain tree' report where r: "recover_all 5 [(sample_id, Folder ?f)] = (tree', report)" by fastforce
  have s: "sample_staging \<noteq> job_json" "job_json_tmp \<noteq> sample_staging" "job_json \<noteq> job_json_tmp"
    using valid_staging_not_manifest [OF sample_staging_valid] by auto
  have f: "jget [(sample_id, Folder ?f)] sample_id = Some (Folder ?f)"
    "jget ?f job_json = Some (FileNode (JobText ?job))" "job_schema ?job \<le> job_schema_version"
    "jget ?f job_json_tmp \<noteq> Some DirNode" "jget ?f sample_staging = Some (FileNode (Bytes []))"
    using s by (simp_all add: jget_def stored_job_def sample_job_def job_schema_version_def)
  have "sample_staging \<in> set (referenced_names ?job)" "distinct (referenced_names ?job)"
    "jf_state ?g = Importing" "?g \<in> set (job_files ?job)"
    by (simp_all add: referenced_names_def stored_job_def sample_defs)
  with recovery_deletes_only_unneeded_staging [OF f(1) sample_id_valid f(2-4) n r]
  have "node_at tree' sample_id sample_staging = jget ?f sample_staging"
    using sample_staging_valid by auto
  then show ?thesis using f(5) r by simp
qed

end
