(* ===== verification/IaRunner.thy ===== *)
theory IaRunner
  imports IaStore IaVerify
begin

text \<open>
  The job runner (\<open>apps/desktop/src-tauri/src/internet_archive/runner.rs\<close>): \<open>run_job\<close> downloads the
  queued files of a job one at a time, verifies each and settles the job.

  The runner shares the store with other commands. It never holds the writer lock across an
  await, so between two of its critical sections other commands may change the job, the cancel
  signal may be raised, and the disk may fail. All of that is the record \<open>run_env\<close>: answers
  indexed by the number of interactions so far (\<open>rw_time\<close>). \<open>re_others n\<close> is what the other commands
  did to the store before interaction \<open>n\<close>; the \<open>Downloader\<close> and the signal raced against it by
  \<open>tokio::select!\<close> are \<open>re_download\<close>; clock, UUIDs, SHA-256, MD5 and the page count of a PDF are
  parameters too. A run is a function of the environment, so statements that hold for every
  environment hold for every interleaving at the granularity of the lock.

  The loop over the queued files runs on fuel; one unit more than the number of queued files is
  enough whatever the environment does (\<open>run_needs_no_more_fuel\<close>). The loop of download attempts
  is bounded by its three waits.
\<close>

section \<open>Decisions without a store\<close>

datatype start_error = CannotStart job_state

definition decide_start :: "job_state \<Rightarrow> start_error option" where
  "decide_start s =
     (case s of Draft \<Rightarrow> None | Ready \<Rightarrow> None | Running \<Rightarrow> None | _ \<Rightarrow> Some (CannotStart s))"

text \<open>
  The errors of the runner and of the commands that share \<open>update\<close>. The code builds strings and tells them apart by their prefix;
  \<open>is_invalid_state\<close> is the prefix \<open>invalid_state\<close>.
\<close>

datatype run_error =
    NoLongerQueued
  | DownloadInterrupted
  | VerificationInterrupted
  | BadMove set_file_state_error
  | StartRefused
  | WrongFileState nat
  | UnknownIndex nat
  | ReconcileMissing
  | JobMissing
  | BadJobId
  | BadVersion
  | AlreadyThere
  | LocalStorage
  | CannotPersist

definition is_invalid_state :: "run_error \<Rightarrow> bool" where
  "is_invalid_state e =
     (case e of NoLongerQueued \<Rightarrow> True | DownloadInterrupted \<Rightarrow> True | VerificationInterrupted \<Rightarrow> True
      | BadMove _ \<Rightarrow> True | StartRefused \<Rightarrow> True | WrongFileState _ \<Rightarrow> True | _ \<Rightarrow> False)"

definition store_load_error :: "store_error \<Rightarrow> run_error" where
  "store_load_error e =
     (case e of
        JobNotFound _ \<Rightarrow> JobMissing
      | InvalidId _ \<Rightarrow> BadJobId
      | UnsupportedVersion _ \<Rightarrow> BadVersion
      | JobExists _ \<Rightarrow> AlreadyThere
      | StoreIo \<Rightarrow> LocalStorage
      | StoreJson \<Rightarrow> LocalStorage)"

definition map_download_error :: "ia_error \<Rightarrow> file_state \<times> str" where
  "map_download_error e =
     (case e of
        Http status _ \<Rightarrow>
          if status = 401 \<or> status = 403 then (Unavailable, tx ''unavailable'')
          else if status = 404 then (FileFailed, tx ''not_found'')
          else if status = 429 then (FileFailed, tx ''rate_limited'')
          else (FileFailed, tx ''http_'' @ show_nat status)
      | FileTooLarge _ \<Rightarrow> (FileFailed, tx ''file_too_large'')
      | VerifyFailed _ \<Rightarrow> (FileFailed, tx ''verify_failed'')
      | TooManyPages _ _ \<Rightarrow> (FileFailed, tx ''too_many_pages'')
      | _ \<Rightarrow> (FileFailed, tx ''network''))"

definition map_verify_error :: "ia_error \<Rightarrow> str" where
  "map_verify_error e =
     (case e of
        TooManyPages _ _ \<Rightarrow> tx ''too_many_pages''
      | VerifyFailed _ \<Rightarrow> tx ''verify_failed''
      | Http status _ \<Rightarrow> tx ''http_'' @ show_nat status
      | _ \<Rightarrow> tx ''network'')"

text \<open>The seconds to wait after a 429.\<close>

definition wait_seconds :: "nat option \<Rightarrow> nat" where
  "wait_seconds retry_after = min (unwrap_or 10 retry_after) 60"

section \<open>The environment and the world\<close>

datatype download_end = CancelCame | DownloadedBytes "byte list" | DownloadFailed ia_error

record run_env =
  re_others :: "nat \<Rightarrow> store_root \<Rightarrow> store_root"
  re_load_fails :: "nat \<Rightarrow> bool"
  re_save_fails :: "nat \<Rightarrow> bool"
  re_clock :: "nat \<Rightarrow> nat"
  re_cancelled :: "nat \<Rightarrow> bool"
  re_download :: "nat \<Rightarrow> download_end"
  re_wait_cut :: "nat \<Rightarrow> bool"
  re_uuid :: "nat \<Rightarrow> str"
  re_linked :: "str \<Rightarrow> node option"
  re_sha256 :: "byte list \<Rightarrow> str"
  re_md5 :: "byte list \<Rightarrow> str"
  re_pages :: "byte list \<Rightarrow> nat option"

record run_world =
  rw_tree :: store_root
  rw_time :: nat
  rw_seen :: "job list"
  rw_waits :: "nat list"

definition tick :: "run_env \<Rightarrow> run_world \<Rightarrow> run_world" where
  "tick env w = w\<lparr>rw_tree := re_others env (rw_time w) (rw_tree w), rw_time := rw_time w + 1\<rparr>"

definition on_update :: "job \<Rightarrow> run_world \<Rightarrow> run_world" where
  "on_update job w = w\<lparr>rw_seen := rw_seen w @ [job]\<rparr>"

definition is_cancelled :: "run_env \<Rightarrow> run_world \<Rightarrow> bool" where
  "is_cancelled env w = re_cancelled env (rw_time w)"

text \<open>One read of the job under the lock.\<close>

definition read_stored :: "run_env \<Rightarrow> str \<Rightarrow> run_world \<Rightarrow> (run_error + job) \<times> run_world" where
  "read_stored env jid w =
     (let w1 = tick env w in
      if re_load_fails env (rw_time w) then (Inl LocalStorage, w1)
      else (case load_job (re_linked env) jid (rw_tree w1) of
              Inl e \<Rightarrow> (Inl (store_load_error e), w1)
            | Inr job \<Rightarrow> (Inr job, w1)))"

definition write_stored :: "run_env \<Rightarrow> nat \<Rightarrow> job \<Rightarrow> run_world \<Rightarrow> run_error option \<times> run_world" where
  "write_stored env t job w =
     (if re_save_fails env t then (Some CannotPersist, w)
      else (case save_job job (rw_tree w) of
              (None, tree) \<Rightarrow> (None, w\<lparr>rw_tree := tree\<rparr>)
            | (Some _, tree) \<Rightarrow> (Some CannotPersist, w\<lparr>rw_tree := tree\<rparr>)))"

text \<open>
  Load, modify and save under the lock. The closure sees the job and may delete staging files:
  it returns its result with the job, and the tree.
\<close>

type_synonym 'r critical = "job \<Rightarrow> store_root \<Rightarrow> (run_error + 'r \<times> job) \<times> store_root"

definition update ::
  "run_env \<Rightarrow> str \<Rightarrow> 'r critical \<Rightarrow> run_world \<Rightarrow> (run_error + 'r \<times> job) \<times> run_world" where
  "update env jid f w =
     (case read_stored env jid w of
        (Inl e, w1) \<Rightarrow> (Inl e, w1)
      | (Inr job, w1) \<Rightarrow>
          (case f job (rw_tree w1) of
             (Inl e, tree) \<Rightarrow> (Inl e, w1\<lparr>rw_tree := tree\<rparr>)
           | (Inr (r, job'), tree) \<Rightarrow>
               (case write_stored env (rw_time w) job' (w1\<lparr>rw_tree := tree\<rparr>) of
                  (Some e, w2) \<Rightarrow> (Inl e, w2)
                | (None, w2) \<Rightarrow> (Inr (r, job'), w2))))"

section \<open>Cancelling\<close>

definition partial_name :: "str \<Rightarrow> str" where
  "partial_name name = name @ tx ''.partial''"

text \<open>A path the store refused is not built, so nothing is removed through it.\<close>

definition delete_dest_and_partial :: "str \<Rightarrow> str \<Rightarrow> store_root \<Rightarrow> store_root" where
  "delete_dest_and_partial jid name tree =
     (let tree1 = snd (delete_staging jid name tree) in
      case staging_path jid name of
        Inl _ \<Rightarrow> tree1
      | Inr (d, n) \<Rightarrow> in_folder d (remove_file n) (in_folder d (remove_file (partial_name n)) tree1))"

definition forget_staging :: "str list \<Rightarrow> job_file \<Rightarrow> job_file" where
  "forget_staging deleted file =
     (if jf_state file = FileCancelled
      then (case jf_staging_name file of
              Some name \<Rightarrow> if name \<in> set deleted then file\<lparr>jf_staging_name := None\<rparr> else file
            | None \<Rightarrow> file)
      else file)"

text \<open>The request, the deletions it reports and the forgotten names, shared by every cancel path.\<close>

definition request_and_delete :: "nat \<Rightarrow> job \<Rightarrow> store_root \<Rightarrow> job \<times> store_root" where
  "request_and_delete now job tree =
     (let (deleted, job1) = request_cancel now job
      in (job1\<lparr>job_files := map (forget_staging deleted) (job_files job1)\<rparr>,
          fold (delete_dest_and_partial (job_id job)) deleted tree))"

definition apply_cancel_locked :: "nat \<Rightarrow> job \<Rightarrow> store_root \<Rightarrow> job \<times> store_root" where
  "apply_cancel_locked now job tree =
     (let (job1, tree1) = request_and_delete now job tree
      in (snd (finish_cancel_if_idle now job1), tree1))"

definition apply_end_of_run_cancel ::
  "run_env \<Rightarrow> str \<Rightarrow> bool \<Rightarrow> nat \<Rightarrow> run_world \<Rightarrow> (run_error + bool \<times> job) \<times> run_world" where
  "apply_end_of_run_cancel env jid cancelled now w =
     (if \<not> cancelled then
        (case read_stored env jid w of
           (Inl e, w1) \<Rightarrow> (Inl e, w1)
         | (Inr job, w1) \<Rightarrow> (Inr (False, job), w1))
      else update env jid (\<lambda>job tree.
        if job_is_terminal (job_state job) then (Inr (False, job), tree)
        else (let (job', tree') = apply_cancel_locked now job tree in (Inr (True, job'), tree'))) w)"

definition cancel_section :: "run_env \<Rightarrow> nat \<Rightarrow> unit critical" where
  "cancel_section env t job tree =
     (let (job', tree') = apply_cancel_locked (re_clock env t) job tree in (Inr ((), job'), tree'))"

text \<open>The file the worker was on is ended by the worker itself.\<close>

definition end_interrupted :: "nat \<Rightarrow> nat \<Rightarrow> job \<Rightarrow> store_root \<Rightarrow> job \<times> store_root" where
  "end_interrupted index now job tree =
     (case get_at (job_files job) index of
        None \<Rightarrow> (job, tree)
      | Some file \<Rightarrow>
          if jf_state file = Downloading \<or> jf_state file = Verifying
          then
            (let (job1, tree1) =
               (case jf_staging_name file of
                  None \<Rightarrow> (job, tree)
                | Some name \<Rightarrow>
                    (update_file index (\<lambda>f. f\<lparr>jf_staging_name := None\<rparr>) job,
                     delete_dest_and_partial (job_id job) name tree));
               job2 = update_file index (\<lambda>f. f\<lparr>jf_error := Some (tx ''cancelled'')\<rparr>) job1
             in (case set_file_state index FileCancelled now job2 of
                   Inl _ \<Rightarrow> (job2, tree1)
                 | Inr job3 \<Rightarrow> (job3, tree1)))
          else (job, tree))"

definition interrupt_section :: "run_env \<Rightarrow> nat \<Rightarrow> nat \<Rightarrow> unit critical" where
  "interrupt_section env t index job tree =
     (let now = re_clock env t;
          (job1, tree1) = request_and_delete now job tree;
          (job2, tree2) = end_interrupted index now job1 tree1
      in (Inr ((), snd (finish_cancel_if_idle now job2)), tree2))"

definition notified :: "(run_error + unit \<times> job) \<times> run_world \<Rightarrow> (run_error + job) \<times> run_world" where
  "notified r =
     (case r of (Inl e, w) \<Rightarrow> (Inl e, w) | (Inr (_, fresh), w) \<Rightarrow> (Inr fresh, on_update fresh w))"

definition cancel_between_files_via_update ::
  "run_env \<Rightarrow> str \<Rightarrow> run_world \<Rightarrow> (run_error + job) \<times> run_world" where
  "cancel_between_files_via_update env jid w =
     notified (update env jid (cancel_section env (rw_time w)) w)"

definition cancel_with_interrupted_via_update ::
  "run_env \<Rightarrow> str \<Rightarrow> nat \<Rightarrow> run_world \<Rightarrow> (run_error + job) \<times> run_world" where
  "cancel_with_interrupted_via_update env jid index w =
     notified (update env jid (interrupt_section env (rw_time w) index) w)"

section \<open>One file\<close>

definition start_section :: "run_env \<Rightarrow> nat \<Rightarrow> nat \<Rightarrow> str \<Rightarrow> unit critical" where
  "start_section env t index staging job tree =
     (case get_at (job_files job) index of
        None \<Rightarrow> (Inl NoLongerQueued, tree)
      | Some file \<Rightarrow>
          if jf_state file \<noteq> Queued then (Inl NoLongerQueued, tree)
          else
            (case set_file_state index Downloading (re_clock env t)
                (update_file index (\<lambda>f. f\<lparr>jf_staging_name := Some staging, jf_error := None\<rparr>) job) of
               Inl e \<Rightarrow> (Inl (BadMove e), tree)
             | Inr job' \<Rightarrow> (Inr ((), job'), tree)))"

definition attempt_section :: "nat \<Rightarrow> unit critical" where
  "attempt_section index job tree =
     (case get_at (job_files job) index of
        None \<Rightarrow> (Inl DownloadInterrupted, tree)
      | Some file \<Rightarrow>
          if jf_state file \<noteq> Downloading then (Inl DownloadInterrupted, tree)
          else (Inr ((), update_file index (\<lambda>f. f\<lparr>jf_attempts := sat_add32 (jf_attempts f) 1\<rparr>) job), tree))"

definition fail_section :: "run_env \<Rightarrow> nat \<Rightarrow> nat \<Rightarrow> file_state \<Rightarrow> str \<Rightarrow> unit critical" where
  "fail_section env t index next code job tree =
     (case get_at (job_files job) index of
        None \<Rightarrow> (Inr ((), job), tree)
      | Some file \<Rightarrow>
          if jf_state file \<noteq> Downloading then (Inr ((), job), tree)
          else
            (case set_file_state index next (re_clock env t)
                (update_file index (\<lambda>f. f\<lparr>jf_staging_name := None, jf_error := Some code\<rparr>) job) of
               Inl e \<Rightarrow> (Inl (BadMove e), tree)
             | Inr job' \<Rightarrow> (Inr ((), job'), tree)))"

definition verifying_section :: "run_env \<Rightarrow> nat \<Rightarrow> nat \<Rightarrow> unit critical" where
  "verifying_section env t index job tree =
     (case get_at (job_files job) index of
        None \<Rightarrow> (Inl DownloadInterrupted, tree)
      | Some file \<Rightarrow>
          if jf_state file \<noteq> Downloading then (Inl DownloadInterrupted, tree)
          else
            (case set_file_state index Verifying (re_clock env t) job of
               Inl e \<Rightarrow> (Inl (BadMove e), tree)
             | Inr job' \<Rightarrow> (Inr ((), job'), tree)))"

definition accept_section :: "run_env \<Rightarrow> nat \<Rightarrow> nat \<Rightarrow> verified_pdf \<Rightarrow> unit critical" where
  "accept_section env t index v job tree =
     (case get_at (job_files job) index of
        None \<Rightarrow> (Inl VerificationInterrupted, tree)
      | Some file \<Rightarrow>
          if jf_state file \<noteq> Verifying then (Inl VerificationInterrupted, tree)
          else
            (case set_file_state index Verified (re_clock env t)
                (update_file index (\<lambda>f. f\<lparr>jf_sha256 := Some (vp_sha256_hex v),
                   jf_page_count := Some (vp_page_count v), jf_error := None\<rparr>) job) of
               Inl e \<Rightarrow> (Inl (BadMove e), tree)
             | Inr job' \<Rightarrow> (Inr ((), job'), tree)))"

definition reject_section :: "run_env \<Rightarrow> nat \<Rightarrow> nat \<Rightarrow> str \<Rightarrow> unit critical" where
  "reject_section env t index code job tree =
     (case get_at (job_files job) index of
        None \<Rightarrow> (Inr ((), job), tree)
      | Some file \<Rightarrow>
          if jf_state file \<noteq> Verifying then (Inr ((), job), tree)
          else
            (case set_file_state index FileFailed (re_clock env t)
                (update_file index (\<lambda>f. f\<lparr>jf_staging_name := None, jf_sha256 := None,
                   jf_page_count := None, jf_error := Some code\<rparr>) job) of
               Inl e \<Rightarrow> (Inl (BadMove e), tree)
             | Inr job' \<Rightarrow> (Inr ((), job'), tree)))"

datatype outcome = OutDownloaded | OutCancelled | OutFailed ia_error

datatype attempt_end = Ended outcome | RateLimited "nat option"

definition stage_bytes :: "str \<Rightarrow> str \<Rightarrow> byte list \<Rightarrow> run_world \<Rightarrow> run_world" where
  "stage_bytes jid staging bs w =
     w\<lparr>rw_tree := in_folder jid (jinsert staging (FileNode (Bytes bs))) (rw_tree w)\<rparr>"

text \<open>One attempt: count it under the lock, then download, racing the cancel signal.\<close>

definition attempt_once ::
  "run_env \<Rightarrow> str \<Rightarrow> nat \<Rightarrow> str \<Rightarrow> run_world \<Rightarrow> (run_error + attempt_end) \<times> run_world" where
  "attempt_once env jid index staging w =
     (case update env jid (attempt_section index) w of
        (Inl e, w1) \<Rightarrow> (if e = DownloadInterrupted then (Inr (Ended OutCancelled), w1) else (Inl e, w1))
      | (Inr (_, fresh), w1) \<Rightarrow>
          (let w2 = tick env (on_update fresh w1) in
           case re_download env (rw_time w1) of
             CancelCame \<Rightarrow> (Inr (Ended OutCancelled), w2)
           | DownloadedBytes bs \<Rightarrow> (Inr (Ended OutDownloaded), stage_bytes jid staging bs w2)
           | DownloadFailed e \<Rightarrow>
               (case e of
                  Http status retry_after \<Rightarrow>
                    if status = 429 then (Inr (RateLimited retry_after), w2) else (Inr (Ended (OutFailed e)), w2)
                | _ \<Rightarrow> (Inr (Ended (OutFailed e)), w2))))"

text \<open>The loop of attempts with the waits left.\<close>

fun attempts ::
  "nat \<Rightarrow> run_env \<Rightarrow> str \<Rightarrow> nat \<Rightarrow> str \<Rightarrow> run_world \<Rightarrow> (run_error + outcome) \<times> run_world" where
  "attempts waits env jid index staging w =
     (case attempt_once env jid index staging w of
        (Inl e, w1) \<Rightarrow> (Inl e, w1)
      | (Inr (Ended out), w1) \<Rightarrow> (Inr out, w1)
      | (Inr (RateLimited retry_after), w1) \<Rightarrow>
          (case waits of
             0 \<Rightarrow> (Inr (OutFailed (Http 429 retry_after)), w1)
           | Suc left \<Rightarrow>
               (let w2 = tick env (w1\<lparr>rw_waits := rw_waits w1 @ [wait_seconds retry_after]\<rparr>) in
                if re_wait_cut env (rw_time w1) \<or> is_cancelled env w2 then (Inr OutCancelled, w2)
                else attempts left env jid index staging w2)))"

declare attempts.simps [simp del]

datatype flow = NextFile | StopRun

definition stop_after :: "(run_error + job) \<times> run_world \<Rightarrow> (run_error + flow) \<times> run_world" where
  "stop_after r = (case r of (Inl e, w) \<Rightarrow> (Inl e, w) | (Inr _, w) \<Rightarrow> (Inr StopRun, w))"

definition stop_if_cancelled :: "run_env \<Rightarrow> str \<Rightarrow> run_world \<Rightarrow> (run_error + flow) \<times> run_world" where
  "stop_if_cancelled env jid w =
     (if is_cancelled env w then stop_after (cancel_between_files_via_update env jid w)
      else (Inr NextFile, w))"

definition notify_and_go_on ::
  "run_env \<Rightarrow> str \<Rightarrow> (run_error + unit \<times> job) \<times> run_world \<Rightarrow> (run_error + flow) \<times> run_world" where
  "notify_and_go_on env jid r =
     (case notified r of (Inl e, w) \<Rightarrow> (Inl e, w) | (Inr _, w) \<Rightarrow> stop_if_cancelled env jid w)"

definition drop_staged :: "str \<Rightarrow> str \<Rightarrow> run_world \<Rightarrow> run_world" where
  "drop_staged jid staging w = w\<lparr>rw_tree := delete_dest_and_partial jid staging (rw_tree w)\<rparr>"

definition after_failure ::
  "run_env \<Rightarrow> str \<Rightarrow> nat \<Rightarrow> str \<Rightarrow> ia_error \<Rightarrow> run_world \<Rightarrow> (run_error + flow) \<times> run_world" where
  "after_failure env jid index staging e w =
     (let (next, code) = map_download_error e; w1 = drop_staged jid staging w
      in notify_and_go_on env jid (update env jid (fail_section env (rw_time w1) index next code) w1))"

definition staged_bytes :: "str \<Rightarrow> str \<Rightarrow> store_root \<Rightarrow> byte list option" where
  "staged_bytes jid staging tree =
     (case node_at tree jid staging of Some (FileNode (Bytes bs)) \<Rightarrow> Some bs | _ \<Rightarrow> None)"

definition verify_file ::
  "run_env \<Rightarrow> str \<Rightarrow> nat \<Rightarrow> nat \<Rightarrow> job_file \<Rightarrow> str \<Rightarrow> run_world \<Rightarrow> (run_error + flow) \<times> run_world" where
  "verify_file env jid max_pages index file staging w =
     (case notified (update env jid (verifying_section env (rw_time w) index) w) of
        (Inl e, w1) \<Rightarrow>
          if is_invalid_state e then
            (if is_cancelled env w1 then stop_after (cancel_with_interrupted_via_update env jid index w1)
             else (Inr NextFile, w1))
          else (Inl e, w1)
      | (Inr _, w1) \<Rightarrow>
          (let w2 = tick env w1;
               expected = \<lparr>er_md5 = jf_md5 file, er_sha1 = jf_sha1 file, er_content_length = jf_expected_size file\<rparr>
           in case verify_staged_pdf (re_sha256 env) (re_md5 env) (re_pages env) expected max_pages
                (staged_bytes jid staging (rw_tree w2)) of
                (Inr v, _) \<Rightarrow> notify_and_go_on env jid (update env jid (accept_section env (rw_time w2) index v) w2)
              | (Inl e, _) \<Rightarrow>
                  (let w3 = drop_staged jid staging w2 in
                   notify_and_go_on env jid
                     (update env jid (reject_section env (rw_time w3) index (map_verify_error e)) w3))))"

definition finish_file ::
  "run_env \<Rightarrow> str \<Rightarrow> nat \<Rightarrow> nat \<Rightarrow> job_file \<Rightarrow> str \<Rightarrow> run_world \<Rightarrow> (run_error + flow) \<times> run_world" where
  "finish_file env jid max_pages index file staging w =
     (case attempts 3 env jid index staging w of
        (Inl e, w1) \<Rightarrow> (Inl e, w1)
      | (Inr OutCancelled, w1) \<Rightarrow> stop_after (cancel_with_interrupted_via_update env jid index w1)
      | (Inr (OutFailed e), w1) \<Rightarrow> after_failure env jid index staging e w1
      | (Inr OutDownloaded, w1) \<Rightarrow>
          if is_cancelled env w1 then stop_after (cancel_with_interrupted_via_update env jid index w1)
          else verify_file env jid max_pages index file staging w1)"

definition process_file ::
  "run_env \<Rightarrow> str \<Rightarrow> nat \<Rightarrow> nat \<Rightarrow> job_file \<Rightarrow> run_world \<Rightarrow> (run_error + flow) \<times> run_world" where
  "process_file env jid max_pages index file w =
     (if is_cancelled env w then stop_after (cancel_between_files_via_update env jid w)
      else
        (let staging = new_staging_name (re_uuid env (rw_time w)) in
         case staging_path jid staging of
           Inl _ \<Rightarrow> (Inl LocalStorage, w)
         | Inr _ \<Rightarrow>
             (case notified (update env jid (start_section env (rw_time w) index staging) w) of
                (Inl e, w1) \<Rightarrow> (if e = NoLongerQueued then (Inr NextFile, w1) else (Inl e, w1))
              | (Inr _, w1) \<Rightarrow>
                  finish_file env jid max_pages index file staging w1)))"

section \<open>The run\<close>

datatype loop_end = LoopDone | JobOver job | LoopFailed run_error | OutOfFuel

definition find_queued :: "job \<Rightarrow> (nat \<times> job_file) option" where
  "find_queued job = find (\<lambda>(_, f). jf_state f = Queued) (List.enumerate 0 (job_files job))"

fun run_loop :: "nat \<Rightarrow> run_env \<Rightarrow> str \<Rightarrow> nat \<Rightarrow> run_world \<Rightarrow> loop_end \<times> run_world" where
  "run_loop 0 env jid max_pages w = (OutOfFuel, w)"
| "run_loop (Suc fuel) env jid max_pages w =
     (case read_stored env jid w of
        (Inl e, w1) \<Rightarrow> (LoopFailed e, w1)
      | (Inr job, w1) \<Rightarrow>
          if job_is_terminal (job_state job) then (JobOver job, w1)
          else
            (case find_queued job of
               None \<Rightarrow> (LoopDone, w1)
             | Some (index, file) \<Rightarrow>
                 (case process_file env jid max_pages index file w1 of
                    (Inl e, w2) \<Rightarrow> (LoopFailed e, w2)
                  | (Inr StopRun, w2) \<Rightarrow> (LoopDone, w2)
                  | (Inr NextFile, w2) \<Rightarrow> run_loop fuel env jid max_pages w2)))"

datatype run_result = Returned job | RunFailed run_error | NoFuel

definition settle_stored :: "run_env \<Rightarrow> str \<Rightarrow> run_world \<Rightarrow> run_result \<times> run_world" where
  "settle_stored env jid w =
     (case read_stored env jid w of
        (Inl e, w1) \<Rightarrow> (RunFailed e, w1)
      | (Inr job, w1) \<Rightarrow>
          (case settle_job (re_clock env (rw_time w)) job of
             (None, _) \<Rightarrow> (Returned job, w1)
           | (Some _, job') \<Rightarrow>
               (case write_stored env (rw_time w) job' w1 of
                  (Some e, w2) \<Rightarrow> (RunFailed e, w2)
                | (None, w2) \<Rightarrow> (Returned job', on_update job' w2))))"

definition run_job :: "nat \<Rightarrow> run_env \<Rightarrow> str \<Rightarrow> nat \<Rightarrow> run_world \<Rightarrow> run_result \<times> run_world" where
  "run_job fuel env jid max_pages w =
     (case run_loop fuel env jid max_pages w of
        (OutOfFuel, w1) \<Rightarrow> (NoFuel, w1)
      | (LoopFailed e, w1) \<Rightarrow> (RunFailed e, w1)
      | (JobOver job, w1) \<Rightarrow> (Returned job, w1)
      | (LoopDone, w1) \<Rightarrow> settle_stored env jid w1)"

section \<open>What a run does to the stored job\<close>

text \<open>
  The steps of the runner as an abstract machine on jobs: every change a run makes to the stored
  job is a sequence of these.
\<close>

definition move_file :: "nat \<Rightarrow> file_state \<Rightarrow> nat \<Rightarrow> job \<Rightarrow> job" where
  "move_file i to now job = (update_file i (\<lambda>f. f\<lparr>jf_state := to\<rparr>) job)\<lparr>job_updated_at := now\<rparr>"

definition next_states :: "file_state \<Rightarrow> file_state set" where
  "next_states s =
     (case s of Queued \<Rightarrow> {Downloading} | Downloading \<Rightarrow> {Verifying, FileFailed, Unavailable, FileCancelled}
      | Verifying \<Rightarrow> {Verified, FileFailed, FileCancelled} | _ \<Rightarrow> {})"

text \<open>What a file is on the remote side, which no operation of a job may write.\<close>

definition remote_of where
  "remote_of f = (jf_identifier f, jf_file_name f, jf_format f, jf_source f, jf_expected_size f,
     jf_mtime f, jf_md5 f, jf_sha1 f)"

definition keeps_remote :: "(job_file \<Rightarrow> job_file) \<Rightarrow> bool" where
  "keeps_remote g \<longleftrightarrow> (\<forall>f. remote_of (g f) = remote_of f \<and> jf_state (g f) = jf_state f)"

inductive runner_step :: "job \<Rightarrow> job \<Rightarrow> bool" where
  edit: "keeps_remote g \<Longrightarrow> runner_step job (update_file i g job)"
| move: "i < length (job_files job) \<Longrightarrow> to \<in> next_states (jf_state (job_files job ! i)) \<Longrightarrow>
    runner_step job (move_file i to now job)"
| cancel: "runner_step job (snd (request_cancel now job))"
| forget: "runner_step job (job\<lparr>job_files := map (forget_staging names) (job_files job)\<rparr>)"
| finish: "runner_step job (snd (finish_cancel_if_idle now job))"
| settle: "runner_step job (snd (settle_job now job))"

inductive_cases runner_stepE: "runner_step job job'"

abbreviation runner_steps :: "job \<Rightarrow> job \<Rightarrow> bool" where
  "runner_steps \<equiv> runner_step\<^sup>*\<^sup>*"

lemma next_states_allowed: "to \<in> next_states s \<Longrightarrow> is_file_transition_allowed s to"
  by (cases s) (auto simp: next_states_def is_file_transition_allowed_def)

lemma set_state_is_move:
  "set_file_state i to now job = Inr job' \<Longrightarrow> job' = move_file i to now job \<and> i < length (job_files job)"
  by (simp add: set_file_state_Inr_iff move_file_def)

lemma one_edit:
  "keeps_remote g \<Longrightarrow> runner_steps job (update_file i g job)"
  by (rule r_into_rtranclp) (rule edit)

lemma one_move:
  "i < length (job_files job) \<Longrightarrow> to \<in> next_states (jf_state (job_files job ! i)) \<Longrightarrow>
     runner_steps job (move_file i to now job)"
  by (rule r_into_rtranclp) (rule move)

lemma edit_then_move:
  assumes "i < length (job_files job)" and "keeps_remote g"
    and "to \<in> next_states (jf_state (job_files job ! i))"
  shows "runner_steps job (move_file i to now (update_file i g job))"
proof -
  have "runner_step job (update_file i g job)" using assms(2) by (rule edit)
  moreover have "jf_state (job_files (update_file i g job) ! i) = jf_state (job_files job ! i)"
    using assms(1,2) by (simp add: keeps_remote_def)
  then have "runner_step (update_file i g job) (move_file i to now (update_file i g job))"
    using assms(1,3) by (intro move) simp_all
  ultimately show ?thesis by (meson converse_rtranclp_into_rtranclp r_into_rtranclp)
qed

text \<open>A critical section keeps a relation when every job it hands back is related to the one it got.\<close>

definition section_keeps :: "(job \<Rightarrow> job \<Rightarrow> bool) \<Rightarrow> 'r critical \<Rightarrow> bool" where
  "section_keeps P f \<longleftrightarrow> (\<forall>job tree. case f job tree of (Inr (_, job'), _) \<Rightarrow> P job job' | _ \<Rightarrow> True)"

lemma section_keepsD: "section_keeps P f \<Longrightarrow> f job tree = (Inr (r, job'), tree') \<Longrightarrow> P job job'"
  unfolding section_keeps_def by (drule spec [of _ job], drule spec [of _ tree]) simp

lemma keeps_remote_simps [simp]:
  "keeps_remote (\<lambda>f. f\<lparr>jf_staging_name := a, jf_error := b\<rparr>)"
  "keeps_remote (\<lambda>f. f\<lparr>jf_staging_name := a\<rparr>)" "keeps_remote (\<lambda>f. f\<lparr>jf_error := b\<rparr>)"
  "keeps_remote (\<lambda>f. f\<lparr>jf_attempts := h f\<rparr>)"
  "keeps_remote (\<lambda>f. f\<lparr>jf_sha256 := c, jf_page_count := d, jf_error := b\<rparr>)"
  "keeps_remote (\<lambda>f. f\<lparr>jf_staging_name := a, jf_sha256 := c, jf_page_count := d, jf_error := b\<rparr>)"
  by (simp_all add: keeps_remote_def remote_of_def)

lemma map_download_state: "fst (map_download_error e) \<in> {FileFailed, Unavailable}"
  unfolding map_download_error_def by (cases e; simp only: ia_error.case fst_conv; simp)

lemma sections_run:
  "section_keeps runner_steps (start_section env t i staging)"
  "section_keeps runner_steps (attempt_section i)"
  "next \<in> {FileFailed, Unavailable} \<Longrightarrow> section_keeps runner_steps (fail_section env t i next code)"
  "section_keeps runner_steps (verifying_section env t i)"
  "section_keeps runner_steps (accept_section env t i v)"
  "section_keeps runner_steps (reject_section env t i code)"
  by (auto simp: section_keeps_def start_section_def attempt_section_def fail_section_def
      verifying_section_def accept_section_def reject_section_def get_at_def next_states_def
      dest!: set_state_is_move split: sum.splits option.splits if_splits
      intro!: edit_then_move one_edit one_move)

lemma request_and_delete_runs: "runner_steps job (fst (request_and_delete now job tree))"
proof -
  let ?j = "snd (request_cancel now job)" and ?names = "fst (request_cancel now job)"
  have "runner_step job ?j" by (rule cancel)
  moreover have "runner_step ?j (?j\<lparr>job_files := map (forget_staging ?names) (job_files ?j)\<rparr>)" by (rule forget)
  ultimately have "runner_steps job (?j\<lparr>job_files := map (forget_staging ?names) (job_files ?j)\<rparr>)"
    by (meson converse_rtranclp_into_rtranclp r_into_rtranclp)
  then show ?thesis by (simp add: request_and_delete_def split_beta)
qed

lemma end_interrupted_runs: "runner_steps job (fst (end_interrupted i now job tree))"
proof (cases "get_at (job_files job) i")
  case (Some fl)
  then have i: "i < length (job_files job)" "job_files job ! i = fl" by (auto simp: get_at_Some_iff)
  show ?thesis
  proof (cases "jf_state fl = Downloading \<or> jf_state fl = Verifying")
    case True
    define job1 where "job1 = (case jf_staging_name fl of None \<Rightarrow> job
      | Some _ \<Rightarrow> update_file i (\<lambda>f. f\<lparr>jf_staging_name := None\<rparr>) job)"
    define job2 where "job2 = update_file i (\<lambda>f. f\<lparr>jf_error := Some (tx ''cancelled'')\<rparr>) job1"
    have "runner_steps job job1" by (auto simp: job1_def intro!: one_edit split: option.split)
    moreover have "runner_steps job1 job2" by (auto simp: job2_def intro!: one_edit)
    moreover have l: "i < length (job_files job2)" "jf_state (job_files job2 ! i) = jf_state fl"
      using i by (auto simp: job1_def job2_def split: option.split)
    then have m: "set_file_state i FileCancelled now job2 = Inr (move_file i FileCancelled now job2)"
      using True by (auto simp: set_file_state_def get_at_def move_file_def is_file_transition_allowed_def)
    moreover have "runner_steps job2 (move_file i FileCancelled now job2)"
      using l True by (intro one_move) (auto simp: next_states_def)
    moreover have "fst (end_interrupted i now job tree) = move_file i FileCancelled now job2"
      using Some True m unfolding job2_def job1_def
      by (cases "jf_staging_name fl") (auto simp: end_interrupted_def Let_def)
    ultimately show ?thesis by (metis (no_types, lifting) rtranclp_trans)
  qed (simp add: end_interrupted_def Some)
qed (simp add: end_interrupted_def)

lemma cancel_sections_run:
  "runner_steps job (fst (apply_cancel_locked now job tree))"
  "section_keeps runner_steps (cancel_section env t)"
  "section_keeps runner_steps (interrupt_section env t i)"
proof -
  have finish: "runner_steps a b \<Longrightarrow> runner_steps a (snd (finish_cancel_if_idle n b))" for a b n
    by (rule rtranclp.rtrancl_into_rtrancl) (auto intro: runner_step.finish)
  show 1: "runner_steps job (fst (apply_cancel_locked now job tree))" for job now tree
    using finish [OF request_and_delete_runs] by (simp add: apply_cancel_locked_def split_beta)
  then show "section_keeps runner_steps (cancel_section env t)"
    by (simp add: section_keeps_def cancel_section_def split_beta)
  show "section_keeps runner_steps (interrupt_section env t i)"
    using finish [OF rtranclp_trans [OF request_and_delete_runs end_interrupted_runs]]
    by (simp add: section_keeps_def interrupt_section_def split_beta Let_def)
qed

section \<open>Staging files and the manifest\<close>

definition same_loads :: "store_root \<Rightarrow> store_root \<Rightarrow> bool" where
  "same_loads tree tree' \<longleftrightarrow> (\<forall>linked jid. load_job linked jid tree' = load_job linked jid tree)"

lemma same_loads_refl [simp]: "same_loads tree tree"
  by (simp add: same_loads_def)

lemma same_loads_trans: "same_loads a b \<Longrightarrow> same_loads b c \<Longrightarrow> same_loads a c"
  by (simp add: same_loads_def)

lemma in_folder_loads:
  assumes "\<And>f. jget (g f) job_json = jget f job_json"
  shows "same_loads tree (in_folder d g tree)"
proof -
  have "load_job linked jid (in_folder d g tree) = load_job linked jid tree" for linked jid
  proof (cases "jid = d")
    case True
    with assms show ?thesis
      by (auto simp: in_folder_def load_job_def jget_jinsert_iff split: option.split entry.split)
  next
    case False
    then show ?thesis
      by (auto simp: in_folder_def load_job_def jget_jinsert_iff split: option.split entry.split)
  qed
  then show ?thesis by (simp add: same_loads_def)
qed

lemma staging_names_differ:
  assumes "staging_path jid name = Inr (d, n)"
  shows "n = name" "d = jid" "name \<noteq> job_json" "partial_name name \<noteq> job_json"
proof -
  have v: "is_valid_staging_name name" "n = name" "d = jid"
    using assms by (auto simp: staging_path_def check_job_id_def check_staging_name_def split: option.splits if_splits)
  then show "n = name" "d = jid" "name \<noteq> job_json" using valid_staging_not_manifest by auto
  from v(1) obtain u where "is_uuid_text u" "name = u @ tx ''.pdf''" by (auto simp: valid_staging_iff)
  then have "length (partial_name name) = 48" using uuid_ascii by (simp add: partial_name_def tx_def)
  then show "partial_name name \<noteq> job_json" by (auto simp: job_json_def tx_def)
qed

lemma delete_staging_loads: "same_loads tree (snd (delete_staging jid name tree))"
proof (cases "staging_path jid name")
  case (Inr p)
  obtain d n where p: "p = (d, n)" by (cases p)
  note names = staging_names_differ [OF Inr [unfolded p]]
  have "same_loads tree (in_folder d (remove_file n) tree)"
    by (rule in_folder_loads) (auto simp: jget_remove_file names)
  then show ?thesis by (simp add: delete_staging_def Inr p split: option.split entry.split)
qed (simp add: delete_staging_def)

lemma delete_dest_loads: "same_loads tree (delete_dest_and_partial jid name tree)"
proof (cases "staging_path jid name")
  case (Inl e)
  then show ?thesis by (simp add: delete_dest_and_partial_def delete_staging_loads)
next
  case (Inr p)
  obtain d n where p: "p = (d, n)" by (cases p)
  note names = staging_names_differ [OF Inr [unfolded p]]
  let ?t1 = "snd (delete_staging jid name tree)"
  let ?t2 = "in_folder d (remove_file (partial_name n)) ?t1"
  have "same_loads ?t1 ?t2" by (rule in_folder_loads) (auto simp: jget_remove_file names dest: sym)
  moreover have "same_loads ?t2 (in_folder d (remove_file n) ?t2)"
    by (rule in_folder_loads) (auto simp: jget_remove_file names dest: sym)
  moreover have "delete_dest_and_partial jid name tree = in_folder d (remove_file n) ?t2"
    by (simp add: delete_dest_and_partial_def Inr p Let_def)
  ultimately show ?thesis
    using same_loads_trans [OF same_loads_trans [OF delete_staging_loads]] by metis
qed

lemma delete_all_loads: "same_loads tree (fold (delete_dest_and_partial jid) names tree)"
  by (induction names arbitrary: tree) (auto intro: same_loads_trans delete_dest_loads)

definition section_loads :: "'r critical \<Rightarrow> bool" where
  "section_loads f \<longleftrightarrow> (\<forall>job tree. same_loads tree (snd (f job tree)))"

lemma request_and_delete_loads: "same_loads tree (snd (request_and_delete now job tree))"
  by (simp add: request_and_delete_def split_beta delete_all_loads)

lemma end_interrupted_loads: "same_loads tree (snd (end_interrupted i now job tree))"
  by (auto simp: end_interrupted_def Let_def delete_dest_loads
      split: option.split sum.split prod.split if_split)

lemma sections_load:
  "section_loads (start_section env t i staging)" "section_loads (attempt_section i)"
  "section_loads (fail_section env t i next code)" "section_loads (verifying_section env t i)"
  "section_loads (accept_section env t i v)" "section_loads (reject_section env t i code)"
  by (simp_all add: section_loads_def start_section_def attempt_section_def fail_section_def
      verifying_section_def accept_section_def reject_section_def split: option.split sum.split)

lemma cancel_sections_load:
  "same_loads tree (snd (apply_cancel_locked now job tree))"
  "section_loads (cancel_section env t)" "section_loads (interrupt_section env t i)"
  using request_and_delete_loads same_loads_trans [OF request_and_delete_loads end_interrupted_loads]
  by (simp_all add: section_loads_def cancel_section_def interrupt_section_def apply_cancel_locked_def
      split_beta Let_def)

section \<open>Relations every run keeps\<close>

text \<open>
  What the tree holds for the job is related to what it held before: whenever the job can be read
  after, it could be read before and the two jobs are related.
\<close>

definition tree_rel ::
  "(job \<Rightarrow> job \<Rightarrow> bool) \<Rightarrow> run_env \<Rightarrow> str \<Rightarrow> store_root \<Rightarrow> store_root \<Rightarrow> bool" where
  "tree_rel P env jid tree tree' \<longleftrightarrow>
     (\<forall>job'. load_job (re_linked env) jid tree' = Inr job' \<longrightarrow>
        (\<exists>job. load_job (re_linked env) jid tree = Inr job \<and> P job job'))"

definition others_keep :: "(job \<Rightarrow> job \<Rightarrow> bool) \<Rightarrow> run_env \<Rightarrow> str \<Rightarrow> bool" where
  "others_keep P env jid \<longleftrightarrow> (\<forall>n tree. tree_rel P env jid tree (re_others env n tree))"

lemma read_stored_load:
  "read_stored env jid w = (Inr job, w1) \<Longrightarrow> w1 = tick env w \<and> load_job (re_linked env) jid (rw_tree w1) = Inr job"
  by (auto simp: read_stored_def Let_def split: if_splits sum.splits)

lemma read_stored_world: "snd (read_stored env jid w) = tick env w"
  by (simp add: read_stored_def Let_def split: sum.split)

lemma world_simps [simp]:
  "rw_tree (on_update job w) = rw_tree w" "rw_time (on_update job w) = rw_time w"
  "rw_tree (drop_staged jid staging w) = delete_dest_and_partial jid staging (rw_tree w)"
  by (simp_all add: on_update_def drop_staged_def)

lemma save_failed_loads: "save_job job tree = (Some e, tree') \<Longrightarrow> same_loads tree tree'"
proof -
  assume s: "save_job job tree = (Some e, tree')"
  show ?thesis
  proof (cases "\<exists>f. is_valid_job_id (job_id job) \<and> jget tree (job_id job) = Some (Folder f)")
    case True
    then obtain f where v: "is_valid_job_id (job_id job)" "jget tree (job_id job) = Some (Folder f)" by blast
    obtain e' f' where w: "write_job_atomic job f = (e', f')" by fastforce
    with s v have t: "e' = Some e" "tree' = in_folder (job_id job) (\<lambda>_. f') tree"
      by (simp_all add: save_job_def check_job_id_def put_folder_def in_folder_def)
    have "jget f' job_json = jget f job_json"
      using w t(1) by (auto simp: write_job_atomic_def jget_jinsert_iff split: if_splits)
    then show ?thesis
      using v by (auto simp: same_loads_def t(2) in_folder_def load_job_def jget_jinsert_iff split: option.split)
  next
    case False
    have "write_job_atomic job [] = (None, snd (write_job_atomic job []))" by (simp add: write_job_atomic_def)
    then have "fst (write_job_atomic job []) = None" by (metis fst_conv)
    with s False have "tree' = tree"
      by (cases "jget tree (job_id job)"; cases "is_valid_job_id (job_id job)")
        (auto simp: save_job_def check_job_id_def put_folder_def split: entry.splits)
    then show ?thesis by simp
  qed
qed

locale run_relation =
  fixes P :: "job \<Rightarrow> job \<Rightarrow> bool"
  assumes related_refl: "P j j"
    and related_trans: "P a b \<Longrightarrow> P b c \<Longrightarrow> P a c"
    and related_step: "runner_step j j' \<Longrightarrow> P j j'"
begin

lemma related_steps: "runner_steps j j' \<Longrightarrow> P j j'"
  by (induction rule: rtranclp_induct) (auto intro: related_refl related_trans related_step)

lemma tree_refl: "tree_rel P env jid t t"
  by (auto simp: tree_rel_def intro: related_refl)

lemma tree_trans: "tree_rel P env jid a b \<Longrightarrow> tree_rel P env jid b c \<Longrightarrow> tree_rel P env jid a c"
  unfolding tree_rel_def by (meson related_trans)

lemma tree_same_loads: "same_loads t t' \<Longrightarrow> tree_rel P env jid t t'"
  by (auto simp: tree_rel_def same_loads_def intro: related_refl)

lemma tree_tick: "others_keep P env jid \<Longrightarrow> tree_rel P env jid (rw_tree w) (rw_tree (tick env w))"
  by (simp add: others_keep_def tick_def)

lemma tree_write:
  assumes "load_job (re_linked env) jid (rw_tree w) = Inr job" and "P job job'"
  shows "tree_rel P env jid (rw_tree w) (rw_tree (snd (write_stored env t job' w)))"
proof (cases "save_job job' (rw_tree w)")
  case (Pair e tree')
  show ?thesis
  proof (cases e)
    case (Some err)
    with Pair save_failed_loads show ?thesis
      by (auto simp: write_stored_def intro: tree_refl tree_same_loads)
  next
    case None
    with Pair have s: "save_job job' (rw_tree w) = (None, tree')" by simp
    have "tree_rel P env jid (rw_tree w) tree'"
    proof (cases "jid = job_id job'")
      case True
      have "load_job (re_linked env) jid tree' = Inr j \<Longrightarrow> j = job'" for j
        using save_job_None(1,3) [OF s] save_job_None(2) [OF s, of job_json] True
        by (auto simp: load_job_folder read_job_def split: if_splits)
      with assms show ?thesis by (auto simp: tree_rel_def)
    next
      case False
      then show ?thesis
        using load_other_after_save [OF s] by (auto simp: tree_rel_def intro: related_refl)
    qed
    then show ?thesis by (simp add: write_stored_def s tree_refl)
  qed
qed

text \<open>One critical section: the load, the closure and the save.\<close>

lemma tree_update:
  assumes "others_keep P env jid" and "section_keeps P f" and "section_loads f"
  shows "tree_rel P env jid (rw_tree w) (rw_tree (snd (update env jid f w)))"
proof (cases "read_stored env jid w")
  case (Pair r w1)
  then have w1: "w1 = tick env w" using read_stored_world by (metis snd_conv)
  have t: "tree_rel P env jid (rw_tree w) (rw_tree w1)" using tree_tick [OF assms(1)] by (simp add: w1)
  show ?thesis
  proof (cases r)
    case (Inl e)
    with Pair t show ?thesis by (simp add: update_def)
  next
    case (Inr job)
    with Pair have l: "load_job (re_linked env) jid (rw_tree w1) = Inr job" using read_stored_load by blast
    obtain x tree1 where f: "f job (rw_tree w1) = (x, tree1)" by fastforce
    have same: "same_loads (rw_tree w1) tree1"
      using assms(3) f unfolding section_loads_def by (metis snd_conv)
    then have t1: "tree_rel P env jid (rw_tree w) tree1" using t tree_trans tree_same_loads by blast
    show ?thesis
    proof (cases x)
      case (Inl e)
      with Pair Inr f t1 show ?thesis by (simp add: update_def)
    next
      case (Inr y)
      obtain u job' where y: "y = (u, job')" by (cases y)
      have "P job job'" using section_keepsD [OF assms(2)] f Inr y by blast
      moreover have "load_job (re_linked env) jid (rw_tree (w1\<lparr>rw_tree := tree1\<rparr>)) = Inr job"
        using same l by (simp add: same_loads_def)
      ultimately have "tree_rel P env jid tree1
          (rw_tree (snd (write_stored env (rw_time w) job' (w1\<lparr>rw_tree := tree1\<rparr>))))"
        using tree_write [of env jid "w1\<lparr>rw_tree := tree1\<rparr>"] by simp
      moreover have "rw_tree (snd (update env jid f w)) =
          rw_tree (snd (write_stored env (rw_time w) job' (w1\<lparr>rw_tree := tree1\<rparr>)))"
        using Pair \<open>r = Inr job\<close> f Inr y by (simp add: update_def split: prod.split option.split)
      ultimately show ?thesis using t1 tree_trans by metis
    qed
  qed
qed

lemma section_related: "section_keeps runner_steps f \<Longrightarrow> section_keeps P f"
  unfolding section_keeps_def by (fastforce intro: related_steps split: prod.splits sum.splits)

end

lemma notified_tree [simp]: "rw_tree (snd (notified r)) = rw_tree (snd r)"
  by (cases r; cases "fst r") (auto simp: notified_def split: prod.split)

lemma stop_after_tree [simp]: "rw_tree (snd (stop_after r)) = rw_tree (snd r)"
  by (cases r; cases "fst r") (auto simp: stop_after_def)

lemma stage_bytes_loads: "staging \<noteq> job_json \<Longrightarrow> same_loads (rw_tree w) (rw_tree (stage_bytes jid staging bs w))"
  unfolding stage_bytes_def by (simp add: jget_jinsert_iff in_folder_loads)

context run_relation
begin

lemmas sections_related =
  sections_run [THEN section_related] cancel_sections_run(2,3) [THEN section_related]

lemmas tree_sections = sections_related sections_load cancel_sections_load

lemma between_rel:
  "others_keep P env jid \<Longrightarrow>
     tree_rel P env jid (rw_tree w) (rw_tree (snd (cancel_between_files_via_update env jid w)))"
  unfolding cancel_between_files_via_update_def notified_tree by (rule tree_update) (auto intro: tree_sections)

lemma interrupted_rel:
  "others_keep P env jid \<Longrightarrow>
     tree_rel P env jid (rw_tree w) (rw_tree (snd (cancel_with_interrupted_via_update env jid i w)))"
  unfolding cancel_with_interrupted_via_update_def notified_tree
  by (rule tree_update) (auto intro: tree_sections)

lemma stop_if_cancelled_rel:
  "others_keep P env jid \<Longrightarrow> tree_rel P env jid (rw_tree w) (rw_tree (snd (stop_if_cancelled env jid w)))"
  by (simp add: stop_if_cancelled_def between_rel tree_refl)

lemma go_on_rel:
  assumes "others_keep P env jid" and "tree_rel P env jid t (rw_tree (snd r))"
  shows "tree_rel P env jid t (rw_tree (snd (notify_and_go_on env jid r)))"
proof (cases "notified r")
  case (Pair x w)
  then have "tree_rel P env jid t (rw_tree w)" using assms(2) notified_tree [of r] by simp
  then show ?thesis
    using Pair stop_if_cancelled_rel [OF assms(1), of w] tree_trans
    by (cases x) (auto simp: notify_and_go_on_def)
qed

lemma update_at:
  "others_keep P env jid \<Longrightarrow> section_keeps P f \<Longrightarrow> section_loads f \<Longrightarrow> update env jid f w = (r, w1) \<Longrightarrow>
     tree_rel P env jid (rw_tree w) (rw_tree w1)"
  using tree_update [of env jid f w] by simp

lemma notified_at:
  "others_keep P env jid \<Longrightarrow> section_keeps P f \<Longrightarrow> section_loads f \<Longrightarrow>
     notified (update env jid f w) = (r, w1) \<Longrightarrow> tree_rel P env jid (rw_tree w) (rw_tree w1)"
  using tree_update [of env jid f w] notified_tree [of "update env jid f w"] by simp

lemma attempt_once_rel:
  assumes "others_keep P env jid" and "staging \<noteq> job_json"
  shows "tree_rel P env jid (rw_tree w) (rw_tree (snd (attempt_once env jid i staging w)))"
proof (cases "update env jid (attempt_section i) w")
  case (Pair r w1)
  have u: "tree_rel P env jid (rw_tree w) (rw_tree w1)"
    by (rule update_at [OF assms(1) sections_related(2) sections_load(2) Pair])
  have t: "tree_rel P env jid (rw_tree w) (rw_tree (tick env (on_update j w1)))" for j
    using tree_trans [OF u tree_tick [OF assms(1), of "on_update j w1", simplified]] .
  have b: "tree_rel P env jid (rw_tree w) (rw_tree (stage_bytes jid staging bs (tick env (on_update j w1))))" for j bs
    using tree_trans [OF t tree_same_loads [OF stage_bytes_loads [OF assms(2)]]] .
  show ?thesis
    using Pair u t b
    by (auto simp: attempt_once_def Let_def split: sum.split download_end.split ia_error.split)
qed

lemma attempts_rel:
  assumes "others_keep P env jid" and "staging \<noteq> job_json"
  shows "tree_rel P env jid (rw_tree w) (rw_tree (snd (attempts waits env jid i staging w)))"
proof (induction waits arbitrary: w)
  case 0
  show ?case using attempt_once_rel [OF assms, of w i]
    by (subst attempts.simps) (auto split: prod.split sum.split attempt_end.split)
next
  case (Suc waits)
  obtain r w1 where o: "attempt_once env jid i staging w = (r, w1)" by fastforce
  have u: "tree_rel P env jid (rw_tree w) (rw_tree w1)" using attempt_once_rel [OF assms, of w i] o by simp
  let ?w2 = "\<lambda>ra. tick env (w1\<lparr>rw_waits := rw_waits w1 @ [wait_seconds ra]\<rparr>)"
  have t: "tree_rel P env jid (rw_tree w) (rw_tree (?w2 ra))" for ra
    using tree_trans [OF u tree_tick [OF assms(1), of "w1\<lparr>rw_waits := rw_waits w1 @ [wait_seconds ra]\<rparr>", simplified]] .
  show ?case
    using u t tree_trans [OF t Suc.IH]
    by (subst attempts.simps) (auto simp: o Let_def split: sum.split attempt_end.split)
qed

lemma after_failure_rel:
  assumes "others_keep P env jid"
  shows "tree_rel P env jid (rw_tree w) (rw_tree (snd (after_failure env jid i staging e w)))"
proof -
  obtain nx code where m: "map_download_error e = (nx, code)" by fastforce
  then have n: "nx \<in> {FileFailed, Unavailable}" using map_download_state [of e] by simp
  have d: "tree_rel P env jid (rw_tree w) (rw_tree (drop_staged jid staging w))"
    by (simp add: tree_same_loads delete_dest_loads)
  have "tree_rel P env jid (rw_tree w) (rw_tree (snd (update env jid
      (fail_section env (rw_time (drop_staged jid staging w)) i nx code) (drop_staged jid staging w))))"
    using tree_trans [OF d tree_update [OF assms sections_related(3) [OF n] sections_load(3)]] .
  from go_on_rel [OF assms this] show ?thesis by (simp add: after_failure_def m Let_def)
qed

lemma verify_file_rel:
  assumes "others_keep P env jid"
  shows "tree_rel P env jid (rw_tree w) (rw_tree (snd (verify_file env jid max_pages i file staging w)))"
proof (cases "notified (update env jid (verifying_section env (rw_time w) i) w)")
  case (Pair r w1)
  have u: "tree_rel P env jid (rw_tree w) (rw_tree w1)"
    by (rule notified_at [OF assms sections_related(4) sections_load(4) Pair])
  have t: "tree_rel P env jid (rw_tree w) (rw_tree (tick env w1))" using tree_trans [OF u tree_tick [OF assms]] .
  have d: "tree_rel P env jid (rw_tree w) (rw_tree (drop_staged jid staging (tick env w1)))"
    using tree_trans [OF t tree_same_loads [OF delete_dest_loads]] by simp
  have i: "tree_rel P env jid (rw_tree w) (rw_tree (snd (cancel_with_interrupted_via_update env jid i w1)))"
    using tree_trans [OF u interrupted_rel [OF assms]] .
  have acc: "tree_rel P env jid (rw_tree w) (rw_tree (snd (notify_and_go_on env jid (update env jid (accept_section env n i v) (tick env w1)))))" for n v
    using go_on_rel [OF assms tree_trans [OF t tree_update [OF assms sections_related(5) sections_load(5)]]] .
  have rej: "tree_rel P env jid (rw_tree w) (rw_tree (snd (notify_and_go_on env jid (update env jid (reject_section env n i code)
      (drop_staged jid staging (tick env w1))))))" for n code
    using go_on_rel [OF assms tree_trans [OF d tree_update [OF assms sections_related(6) sections_load(6)]]] .
  show ?thesis
    using Pair u i acc rej
    by (auto simp: verify_file_def Let_def split: sum.split prod.split)
qed

lemma finish_file_rel:
  assumes "others_keep P env jid" and "staging \<noteq> job_json"
  shows "tree_rel P env jid (rw_tree w) (rw_tree (snd (finish_file env jid max_pages i file staging w)))"
proof (cases "attempts 3 env jid i staging w")
  case (Pair r w1)
  then have t: "tree_rel P env jid (rw_tree w) (rw_tree w1)" using attempts_rel [OF assms] by (metis snd_conv)
  note step = tree_trans [OF t]
  show ?thesis
    using Pair t step [OF interrupted_rel [OF assms(1)]] step [OF after_failure_rel [OF assms(1)]]
      step [OF verify_file_rel [OF assms(1)]]
    by (auto simp: finish_file_def split: sum.split outcome.split)
qed

lemma staging_not_manifest: "staging_path jid staging = Inr p \<Longrightarrow> staging \<noteq> job_json"
  using staging_names_differ(3) by (cases p) blast

lemma process_file_rel:
  assumes "others_keep P env jid"
  shows "tree_rel P env jid (rw_tree w) (rw_tree (snd (process_file env jid max_pages i file w)))"
proof -
  let ?staging = "new_staging_name (re_uuid env (rw_time w))"
  obtain r w1 where s: "notified (update env jid (start_section env (rw_time w) i ?staging) w) = (r, w1)" by fastforce
  have u: "tree_rel P env jid (rw_tree w) (rw_tree w1)"
    by (rule notified_at [OF assms sections_related(1) sections_load(1) s])
  show ?thesis
    using s u between_rel [OF assms] tree_trans [OF u finish_file_rel [OF assms staging_not_manifest]] tree_refl
    by (auto simp: process_file_def Let_def split: sum.split)
qed

lemma run_loop_rel:
  assumes "others_keep P env jid"
  shows "tree_rel P env jid (rw_tree w) (rw_tree (snd (run_loop fuel env jid max_pages w)))"
proof (induction fuel arbitrary: w)
  case (Suc fuel)
  obtain r w1 where r: "read_stored env jid w = (r, w1)" by fastforce
  have u: "tree_rel P env jid (rw_tree w) (rw_tree w1)"
    using tree_tick [OF assms] read_stored_world r by (metis snd_conv)
  have p: "tree_rel P env jid (rw_tree w) (rw_tree w2)" if "process_file env jid max_pages i fl w1 = (x, w2)" for i fl x w2
    using tree_trans [OF u process_file_rel [OF assms]] that by (metis snd_conv)
  show ?case
    using r u p tree_trans [OF p Suc.IH]
    by (auto split: sum.split option.split prod.split flow.split)
qed (simp add: tree_refl)

lemma settle_rel:
  assumes "others_keep P env jid"
  shows "tree_rel P env jid (rw_tree w) (rw_tree (snd (settle_stored env jid w)))"
proof -
  obtain r w1 where r: "read_stored env jid w = (r, w1)" by fastforce
  have u: "tree_rel P env jid (rw_tree w) (rw_tree w1)"
    using tree_tick [OF assms] read_stored_world r by (metis snd_conv)
  have s: "tree_rel P env jid (rw_tree w) (rw_tree (snd (write_stored env n (snd (settle_job m job)) w1)))"
    if "r = Inr job" for job n m
    using tree_trans [OF u tree_write [OF _ related_step [OF settle]]] read_stored_load r that by metis
  show ?thesis
    using r u s by (auto simp: settle_stored_def split: sum.split option.split prod.split) (metis snd_conv)+
qed

lemma run_job_rel:
  assumes "others_keep P env jid"
  shows "tree_rel P env jid (rw_tree w) (rw_tree (snd (run_job fuel env jid max_pages w)))"
proof (cases "run_loop fuel env jid max_pages w")
  case (Pair e w1)
  then have u: "tree_rel P env jid (rw_tree w) (rw_tree w1)" using run_loop_rel [OF assms] by (metis snd_conv)
  then show ?thesis
    using Pair tree_trans [OF u settle_rel [OF assms]] by (auto simp: run_job_def split: loop_end.split)
qed

end

end
