(* ===== verification/IaRun.thy ===== *)
theory IaRun
  imports IaRunner
begin

text \<open>
  What every run of the job runner guarantees, whatever the other commands, the network, the
  cancel signal and the disk do: it ends, its waits are bounded, the job it leaves is one the
  operations of the job could have made, and no file is left waiting.

  The relations of this theory interpret the locale \<open>run_relation\<close>; the hypothesis \<open>others_keep\<close>
  says that the other commands keep the same relation.
\<close>

section \<open>A run is a sequence of job operations\<close>

lemma keeps_remote_identity: "keeps_remote g \<Longrightarrow> keeps_identity g"
  by (auto simp: keeps_remote_def keeps_identity_def remote_of_def file_key_def)

lemma keeps_remote_forget: "keeps_remote (forget_staging names)"
  by (auto simp: keeps_remote_def forget_staging_def remote_of_def split: option.splits)

lemma update_all_files:
  assumes "keeps_identity g"
  shows "job_step\<^sup>*\<^sup>* job (job\<lparr>job_files := map g (take k (job_files job)) @ drop k (job_files job)\<rparr>)"
proof (induction k)
  case (Suc k)
  let ?fs = "job_files job"
  let ?j = "\<lambda>k. job\<lparr>job_files := map g (take k ?fs) @ drop k ?fs\<rparr>"
  show ?case
  proof (cases "k < length ?fs")
    case True
    have "(map g (take k ?fs) @ drop k ?fs)[k := g (?fs ! k)] = map g (take (Suc k) ?fs) @ drop (Suc k) ?fs"
      using True by (simp add: take_Suc_conv_app_nth list_update_append flip: Cons_nth_drop_Suc)
    moreover have "(map g (take k ?fs) @ drop k ?fs) ! k = ?fs ! k"
      using True by (simp add: nth_append)
    ultimately have "update_file k g (?j k) = ?j (Suc k)" using True by (simp add: update_file_def)
    then have "job_step (?j k) (?j (Suc k))" using edits [OF assms, of "?j k" k] by simp
    with Suc.IH show ?thesis by (rule rtranclp.rtrancl_into_rtrancl)
  next
    case False
    with Suc.IH show ?thesis by simp
  qed
qed simp

lemma runner_step_job_steps: "runner_step job job' \<Longrightarrow> job_step\<^sup>*\<^sup>* job job'"
proof (induction rule: runner_step.induct)
  case (edit g job i)
  then show ?case by (intro r_into_rtranclp edits keeps_remote_identity)
next
  case (move i job to now)
  then have "set_file_state i to now job = Inr (move_file i to now job)"
    by (simp add: set_file_state_Inr_iff move_file_def next_states_allowed)
  then show ?case by (intro r_into_rtranclp file_moves)
next
  case (forget job names)
  show ?case
    using update_all_files [OF keeps_remote_identity [OF keeps_remote_forget],
        of job names "length (job_files job)"] by simp
qed (auto intro: job_step.intros)

interpretation job_run: run_relation "job_step\<^sup>*\<^sup>*"
  by unfold_locales (auto intro: runner_step_job_steps)

section \<open>What a run keeps\<close>

definition stopped :: "job \<Rightarrow> bool" where
  "stopped job \<longleftrightarrow> job_state job = Cancelling \<or> job_is_terminal (job_state job)"

definition none_queued :: "job \<Rightarrow> bool" where
  "none_queued job \<longleftrightarrow> list_all (\<lambda>f. jf_state f \<noteq> Queued) (job_files job)"

text \<open>A job that is being cancelled or is over has no file waiting.\<close>

definition queue_sane :: "job \<Rightarrow> bool" where
  "queue_sane job \<longleftrightarrow> (stopped job \<longrightarrow> none_queued job)"

definition run_kept :: "job \<Rightarrow> job \<Rightarrow> bool" where
  "run_kept job job' \<longleftrightarrow>
     job_id job' = job_id job \<and> job_schema job' = job_schema job \<and> job_target job' = job_target job \<and>
     map remote_of (job_files job') = map remote_of (job_files job) \<and>
     list_all2 (\<lambda>f f'. jf_state f' = Queued \<longrightarrow> jf_state f = Queued) (job_files job) (job_files job') \<and>
     (queue_sane job \<longrightarrow> queue_sane job')"

lemma run_kept_trans: "run_kept a b \<Longrightarrow> run_kept b c \<Longrightarrow> run_kept a c"
  unfolding run_kept_def list_all2_conv_all_nth by auto

text \<open>Files move one by one: the remote side stays, and none goes back to the queue.\<close>

definition file_kept :: "job_file \<Rightarrow> job_file \<Rightarrow> bool" where
  "file_kept f f' \<longleftrightarrow> remote_of f' = remote_of f \<and> (jf_state f' = Queued \<longrightarrow> jf_state f = Queued)"

lemma file_kept_refl [simp]: "file_kept f f"
  by (simp add: file_kept_def)

lemma run_keptI:
  assumes "job_id job' = job_id job" "job_schema job' = job_schema job" "job_target job' = job_target job"
    and "list_all2 file_kept (job_files job) (job_files job')"
    and "stopped job' \<Longrightarrow> none_queued job' \<or> stopped job"
  shows "run_kept job job'"
proof -
  have len: "length (job_files job') = length (job_files job)"
    and at: "\<And>i. i < length (job_files job) \<Longrightarrow> file_kept (job_files job ! i) (job_files job' ! i)"
    using assms(4) by (auto simp: list_all2_conv_all_nth)
  have "map remote_of (job_files job') = map remote_of (job_files job)"
    using len at by (intro nth_equalityI) (auto simp: file_kept_def)
  moreover have "list_all2 (\<lambda>f f'. jf_state f' = Queued \<longrightarrow> jf_state f = Queued) (job_files job) (job_files job')"
    using len at by (auto simp: list_all2_conv_all_nth file_kept_def)
  moreover have "none_queued job \<Longrightarrow> none_queued job'"
    using len at by (auto simp: none_queued_def list_all_length file_kept_def)
  ultimately show ?thesis
    using assms(1-3,5) by (auto simp: run_kept_def queue_sane_def)
qed

lemma file_kept_update:
  "(i < length fs \<Longrightarrow> file_kept (fs ! i) x) \<Longrightarrow> list_all2 file_kept fs (fs[i := x])"
  by (cases "i < length fs") (auto simp: list_all2_conv_all_nth nth_list_update)

lemma file_kept_map: "(\<And>f. file_kept f (g f)) \<Longrightarrow> list_all2 file_kept fs (map g fs)"
  by (simp add: list_all2_conv_all_nth)

lemma next_not_queued: "to \<in> next_states s \<Longrightarrow> to \<noteq> Queued"
  by (cases s) (auto simp: next_states_def)

lemma file_kept_cancel: "file_kept f (file_cancel f)"
  by (auto simp: file_kept_def file_cancel_def remote_of_def)

lemma runner_step_kept: "runner_step job job' \<Longrightarrow> run_kept job job'"
proof (induction rule: runner_step.induct)
  case (edit g job i)
  then have "file_kept f (g f)" for f by (simp add: file_kept_def keeps_remote_def)
  then show ?case
    by (intro run_keptI) (auto simp: update_file_def stopped_def intro!: file_kept_update)
next
  case (move i job to now)
  then have "file_kept (job_files job ! i) ((job_files job ! i)\<lparr>jf_state := to\<rparr>)"
    using next_not_queued by (auto simp: file_kept_def remote_of_def)
  then show ?case
    by (intro run_keptI) (auto simp: move_file_def update_file_def stopped_def intro!: file_kept_update)
next
  case (cancel job now)
  have n: "none_queued (job\<lparr>job_files := map file_cancel (job_files job), job_state := s, job_updated_at := now\<rparr>)" for s
    by (auto simp: none_queued_def list_all_iff file_cancel_def)
  show ?case
    using n by (intro run_keptI)
      (auto simp: request_cancel_def cancel_files_spec stopped_def list.rel_refl
        intro!: file_kept_map file_kept_cancel split: job_state.splits)
next
  case (forget job names)
  have "file_kept f (forget_staging names f)" for f
    using keeps_remote_forget by (simp add: file_kept_def keeps_remote_def)
  then show ?case by (intro run_keptI) (auto simp: stopped_def intro!: file_kept_map)
next
  case (finish job now)
  show ?case by (intro run_keptI) (auto simp: finish_cancel_if_idle_def stopped_def list.rel_refl)
next
  case (settle job now)
  have "none_queued job" if "list_all (\<lambda>f. file_is_terminal (jf_state f)) (job_files job)"
    using that by (auto simp: none_queued_def list_all_iff)
  then show ?case
    by (intro run_keptI) (auto simp: settle_job_def Let_def stopped_def none_queued_def list.rel_refl)
qed

lemma run_kept_refl: "run_kept job job"
  by (intro run_keptI) (simp_all add: list.rel_refl)

interpretation kept_run: run_relation run_kept
  by unfold_locales (auto intro: run_kept_refl run_kept_trans runner_step_kept)

section \<open>Results of a critical section\<close>

lemma read_waits [simp]: "rw_waits (snd (read_stored env jid w)) = rw_waits w"
  by (simp add: read_stored_world tick_def)

lemma write_waits [simp]: "rw_waits (snd (write_stored env t job w)) = rw_waits w"
  by (simp add: write_stored_def split: prod.split option.split)

lemma read_waits_at: "read_stored env jid w = (r, w') \<Longrightarrow> rw_waits w' = rw_waits w"
  using read_waits [of env jid w] by simp

lemma write_waits_at: "write_stored env t job w = (r, w') \<Longrightarrow> rw_waits w' = rw_waits w"
  using write_waits [of env t job w] by simp

lemma update_waits [simp]: "rw_waits (snd (update env jid f w)) = rw_waits w"
  unfolding update_def
  by (auto dest!: read_waits_at write_waits_at split: prod.split sum.split option.split)

lemma update_waits_at: "update env jid f w = (r, w') \<Longrightarrow> rw_waits w' = rw_waits w"
  using update_waits [of env jid f w] by simp

lemma update_Inr:
  assumes "update env jid f w = (Inr (r, job'), w')"
  obtains job tree where "load_job (re_linked env) jid (rw_tree (tick env w)) = Inr job"
    "f job (rw_tree (tick env w)) = (Inr (r, job'), tree)" "save_job job' tree = (None, rw_tree w')"
proof -
  obtain x w1 where x: "read_stored env jid w = (x, w1)" by fastforce
  with assms obtain job where job: "x = Inr job" by (cases x) (auto simp: update_def)
  with x have w1: "w1 = tick env w" "load_job (re_linked env) jid (rw_tree (tick env w)) = Inr job"
    using read_stored_load by blast+
  obtain y tree where y: "f job (rw_tree w1) = (y, tree)" by fastforce
  have "y = Inr (r, job') \<and> save_job job' tree = (None, rw_tree w')"
    using assms x job y by (auto simp: update_def write_stored_def split: sum.splits prod.splits option.splits if_splits)
  with w1 y that show ?thesis by metis
qed

lemma update_no_longer:
  assumes "update env jid (start_section env t i staging) w = (Inl NoLongerQueued, w')"
  obtains job where "load_job (re_linked env) jid (rw_tree (tick env w)) = Inr job"
    "rw_tree w' = rw_tree (tick env w)" "i < length (job_files job) \<Longrightarrow> jf_state (job_files job ! i) \<noteq> Queued"
proof -
  obtain x w1 where x: "read_stored env jid w = (x, w1)" by fastforce
  have "x \<noteq> Inl NoLongerQueued"
    using x by (auto simp: read_stored_def store_load_error_def Let_def split: if_splits sum.splits store_error.splits)
  with x assms obtain job where job: "x = Inr job" by (cases x) (auto simp: update_def)
  with x have w1: "w1 = tick env w" "load_job (re_linked env) jid (rw_tree (tick env w)) = Inr job"
    using read_stored_load by blast+
  obtain y tree where y: "start_section env t i staging job (rw_tree w1) = (y, tree)" by fastforce
  have "y = Inl NoLongerQueued \<and> rw_tree w' = tree"
    using assms x job y by (auto simp: update_def write_stored_def split: sum.splits prod.splits option.splits if_splits)
  moreover from this y have "tree = rw_tree w1" "i < length (job_files job) \<Longrightarrow> jf_state (job_files job ! i) \<noteq> Queued"
    by (auto simp: start_section_def get_at_def split: option.splits if_splits sum.splits)
  ultimately show ?thesis using w1 that by metis
qed

section \<open>Progress\<close>

definition queued_count :: "job \<Rightarrow> nat" where
  "queued_count job = length (filter (\<lambda>f. jf_state f = Queued) (job_files job))"

definition stored_queue :: "run_env \<Rightarrow> str \<Rightarrow> run_world \<Rightarrow> nat" where
  "stored_queue env jid w =
     (case load_job (re_linked env) jid (rw_tree w) of Inl _ \<Rightarrow> 0 | Inr job \<Rightarrow> queued_count job)"

definition own_id :: "run_env \<Rightarrow> str \<Rightarrow> run_world \<Rightarrow> bool" where
  "own_id env jid w \<longleftrightarrow>
     (case load_job (re_linked env) jid (rw_tree w) of Inl _ \<Rightarrow> True | Inr job \<Rightarrow> job_id job = jid)"

lemma queued_count_card:
  "queued_count job = card {i. i < length (job_files job) \<and> jf_state (job_files job ! i) = Queued}"
  by (simp add: queued_count_def length_filter_conv_card)

lemma kept_length: "run_kept job job' \<Longrightarrow> length (job_files job') = length (job_files job)"
  by (auto simp: run_kept_def dest: list_all2_lengthD)

lemma kept_queued:
  "run_kept job job' \<Longrightarrow> i < length (job_files job) \<Longrightarrow> jf_state (job_files job' ! i) = Queued \<Longrightarrow>
     jf_state (job_files job ! i) = Queued"
  by (auto simp: run_kept_def list_all2_conv_all_nth)

lemma queued_count_mono: "run_kept job job' \<Longrightarrow> queued_count job' \<le> queued_count job"
  unfolding queued_count_card using kept_queued kept_length by (intro card_mono) auto

lemma queued_count_less:
  assumes "run_kept job job'" and "i < length (job_files job)" and "jf_state (job_files job ! i) = Queued"
    and "jf_state (job_files job' ! i) \<noteq> Queued"
  shows "queued_count job' < queued_count job"
  unfolding queued_count_card
  using assms kept_queued [OF assms(1)] kept_length [OF assms(1)] by (intro psubset_card_mono) auto

lemma stored_queue_mono: "tree_rel run_kept env jid (rw_tree w) (rw_tree w') \<Longrightarrow> stored_queue env jid w' \<le> stored_queue env jid w"
  by (auto simp: stored_queue_def tree_rel_def queued_count_mono split: sum.split)

lemma own_id_kept: "tree_rel run_kept env jid (rw_tree w) (rw_tree w') \<Longrightarrow> own_id env jid w \<Longrightarrow> own_id env jid w'"
  by (auto simp: own_id_def tree_rel_def run_kept_def split: sum.splits)

lemma start_section_result:
  assumes "start_section env t i staging job tree = (Inr (r, job'), tree')"
  shows "i < length (job_files job)" "jf_state (job_files job' ! i) = Downloading"
  using assms by (auto simp: start_section_def get_at_def set_file_state_Inr_iff update_file_def
      split: option.splits if_splits sum.splits)

lemma load_schema: "load_job linked jid tree = Inr job \<Longrightarrow> job_schema job \<le> job_schema_version"
  by (auto simp: load_job_def read_job_def split: option.splits entry.splits node.splits content.splits if_splits)

lemma process_progress:
  assumes "others_keep run_kept env jid"
    and "load_job (re_linked env) jid (rw_tree w) = Inr job" and "job_id job = jid"
    and "i < length (job_files job)"
    and "process_file env jid max_pages i file w = (Inr NextFile, w')"
    and "load_job (re_linked env) jid (rw_tree w') = Inr job'"
  shows "jf_state (job_files job' ! i) \<noteq> Queued"
proof -
  let ?staging = "new_staging_name (re_uuid env (rw_time w))"
  let ?u = "update env jid (start_section env (rw_time w) i ?staging) w"
  have next_job: "run_kept job j" if "load_job (re_linked env) jid (rw_tree (tick env w)) = Inr j" for j
    using kept_run.tree_tick [OF assms(1), of w] that assms(2) by (auto simp: tree_rel_def)
  have nc: "\<not> is_cancelled env w"
  proof
    assume "is_cancelled env w"
    then show False using assms(5)
      by (cases "cancel_between_files_via_update env jid w"; cases "fst (cancel_between_files_via_update env jid w)")
        (auto simp: process_file_def stop_after_def)
  qed
  obtain p where p: "staging_path jid ?staging = Inr p"
    using assms(5) nc by (auto simp: process_file_def Let_def split: sum.splits)
  obtain x w1 where u: "?u = (x, w1)" by fastforce
  show ?thesis
  proof (cases x)
    case (Inl e)
    then have "e = NoLongerQueued" "w' = w1"
      using assms(5) nc p u by (auto simp: process_file_def Let_def notified_def split: if_splits)
    with u Inl obtain j where j: "load_job (re_linked env) jid (rw_tree (tick env w)) = Inr j"
      "rw_tree w1 = rw_tree (tick env w)" "i < length (job_files j) \<Longrightarrow> jf_state (job_files j ! i) \<noteq> Queued"
      using update_no_longer by metis
    then have "j = job'" using assms(6) \<open>w' = w1\<close> by simp
    with j(3) show ?thesis using kept_length [OF next_job [OF j(1)]] assms(4) by simp
  next
    case (Inr y)
    then obtain r j2 where y: "x = Inr (r, j2)" by (cases y) auto
    with u obtain j tree where j: "load_job (re_linked env) jid (rw_tree (tick env w)) = Inr j"
      "start_section env (rw_time w) i ?staging j (rw_tree (tick env w)) = (Inr (r, j2), tree)"
      "save_job j2 tree = (None, rw_tree w1)"
      using update_Inr [of env jid "start_section env (rw_time w) i ?staging" w r j2 w1] by metis
    have k: "run_kept j j2"
      using kept_run.sections_related(1) j(2) section_keepsD by metis
    then have "job_id j2 = jid" "job_schema j2 \<le> job_schema_version"
      using next_job [OF j(1)] assms(3) load_schema [OF j(1)] by (auto simp: run_kept_def)
    then have l: "load_job (re_linked env) jid (rw_tree w1) = Inr j2"
      using load_after_save [OF j(3)] by simp
    have f: "finish_file env jid max_pages i file ?staging (on_update j2 w1) = (Inr NextFile, w')"
      using assms(5) nc p u y by (simp add: process_file_def Let_def notified_def)
    have "tree_rel run_kept env jid (rw_tree w1) (rw_tree w')"
      using kept_run.finish_file_rel [OF assms(1) kept_run.staging_not_manifest [OF p],
          of "on_update j2 w1" max_pages i "file"] f by simp
    then have "run_kept j2 job'" using l assms(6) by (auto simp: tree_rel_def)
    moreover have "i < length (job_files j2)"
      using start_section_result(1) [OF j(2)] kept_length [OF k] by simp
    ultimately show ?thesis using kept_queued start_section_result(2) [OF j(2)] by fastforce
  qed
qed

section \<open>Waits\<close>

definition waits_grow :: "nat \<Rightarrow> run_world \<Rightarrow> run_world \<Rightarrow> bool" where
  "waits_grow n w w' \<longleftrightarrow>
     (\<exists>ws. rw_waits w' = rw_waits w @ ws \<and> length ws \<le> n \<and> list_all (\<lambda>s. s \<le> 60) ws)"

lemma waits_grow_refl [simp]: "rw_waits w' = rw_waits w \<Longrightarrow> waits_grow n w w'"
  by (auto simp: waits_grow_def)

lemma waits_grow_trans: "waits_grow m a b \<Longrightarrow> waits_grow n b c \<Longrightarrow> m + n \<le> k \<Longrightarrow> waits_grow k a c"
  unfolding waits_grow_def by (elim exE conjE) (rule exI, auto)

lemma waits_simps [simp]:
  "rw_waits (tick env w) = rw_waits w" "rw_waits (on_update job w) = rw_waits w"
  "rw_waits (drop_staged jid staging w) = rw_waits w"
  "rw_waits (stage_bytes jid staging bs w) = rw_waits w"
  by (simp_all add: tick_def on_update_def drop_staged_def stage_bytes_def)

lemma notified_waits [simp]: "rw_waits (snd (notified r)) = rw_waits (snd r)"
  by (cases r; cases "fst r") (auto simp: notified_def split: prod.split)

lemma stop_after_waits [simp]: "rw_waits (snd (stop_after r)) = rw_waits (snd r)"
  by (cases r; cases "fst r") (auto simp: stop_after_def)

lemma cancel_waits [simp]:
  "rw_waits (snd (cancel_between_files_via_update env jid w)) = rw_waits w"
  "rw_waits (snd (cancel_with_interrupted_via_update env jid i w)) = rw_waits w"
  "rw_waits (snd (stop_if_cancelled env jid w)) = rw_waits w"
  by (simp_all add: cancel_between_files_via_update_def cancel_with_interrupted_via_update_def
      stop_if_cancelled_def)

lemma go_on_waits [simp]: "rw_waits (snd (notify_and_go_on env jid r)) = rw_waits (snd r)"
proof -
  obtain x w where n: "notified r = (x, w)" by fastforce
  then have "rw_waits w = rw_waits (snd r)" using notified_waits [of r] by simp
  with n show ?thesis by (simp add: notify_and_go_on_def split: sum.split)
qed

lemma attempt_once_waits: "attempt_once env jid i staging w = (r, w') \<Longrightarrow> rw_waits w' = rw_waits w"
  by (auto simp: attempt_once_def Let_def dest: update_waits_at
      split: prod.splits sum.splits if_splits download_end.splits ia_error.splits)

lemma wait_seconds_le: "wait_seconds ra \<le> 60"
  by (simp add: wait_seconds_def)

lemma attempts_waits: "waits_grow n w (snd (attempts n env jid i staging w))"
proof (induction n arbitrary: w)
  case 0
  obtain r w1 where o: "attempt_once env jid i staging w = (r, w1)" by fastforce
  with attempt_once_waits show ?case
    by (subst attempts.simps) (auto split: sum.split attempt_end.split)
next
  case (Suc n)
  obtain r w1 where o: "attempt_once env jid i staging w = (r, w1)" by fastforce
  note same = attempt_once_waits [OF o]
  have one: "waits_grow 1 w (tick env (w1\<lparr>rw_waits := rw_waits w1 @ [wait_seconds ra]\<rparr>))" for ra
    by (auto simp: waits_grow_def same wait_seconds_le)
  have more: "waits_grow (Suc n) w (tick env (w1\<lparr>rw_waits := rw_waits w1 @ [wait_seconds ra]\<rparr>))" for ra
    using waits_grow_trans [OF one waits_grow_refl [OF refl], of 0 "Suc n"] by simp
  show ?case
    using same one more waits_grow_trans [OF one Suc.IH]
    by (subst attempts.simps) (auto simp: o Let_def split: sum.split attempt_end.split)
qed

lemma finish_file_waits: "waits_grow 3 w (snd (finish_file env jid max_pages i file staging w))"
proof -
  obtain r w1 where a: "attempts 3 env jid i staging w = (r, w1)" by fastforce
  then have g: "waits_grow 3 w w1" using attempts_waits [of 3 w env jid i staging] by simp
  have f: "rw_waits (snd (after_failure env jid i staging e w1)) = rw_waits w1" for e
    by (simp add: after_failure_def Let_def split: prod.split)
  have v: "rw_waits (snd (verify_file env jid max_pages i file staging w1)) = rw_waits w1"
  proof -
    obtain x w2 where n: "notified (update env jid (verifying_section env (rw_time w1) i) w1) = (x, w2)" by fastforce
    then have "rw_waits w2 = rw_waits w1"
      using notified_waits [of "update env jid (verifying_section env (rw_time w1) i) w1"] by simp
    with n show ?thesis by (simp add: verify_file_def Let_def split: sum.split prod.split)
  qed
  have same_end: "rw_waits w2 = rw_waits w1 \<Longrightarrow> waits_grow 3 w w2" for w2
    using waits_grow_trans [OF g waits_grow_refl, of w2 0 3] by simp
  show ?thesis
    using g same_end f v by (simp add: finish_file_def a split: sum.split outcome.split)
qed

lemma process_file_waits: "waits_grow 3 w (snd (process_file env jid max_pages i file w))"
proof -
  let ?staging = "new_staging_name (re_uuid env (rw_time w))"
  let ?u = "update env jid (start_section env (rw_time w) i ?staging) w"
  obtain x w1 where n: "notified ?u = (x, w1)" by fastforce
  then have same: "rw_waits w1 = rw_waits w" using notified_waits [of ?u] by simp
  have "waits_grow 3 w (snd (finish_file env jid max_pages i file ?staging w1))"
    using waits_grow_trans [OF waits_grow_refl [OF same] finish_file_waits, of 0 3] by simp
  with n same show ?thesis by (simp add: process_file_def Let_def split: sum.split)
qed

lemma run_loop_ends:
  assumes "others_keep run_kept env jid" and "own_id env jid w" and "stored_queue env jid w < fuel"
  shows "fst (run_loop fuel env jid max_pages w) \<noteq> OutOfFuel
    \<and> waits_grow (3 * stored_queue env jid w) w (snd (run_loop fuel env jid max_pages w))"
  using assms(2,3)
proof (induction fuel arbitrary: w)
  case (Suc fuel)
  obtain r w1 where r: "read_stored env jid w = (r, w1)" by fastforce
  have same: "rw_waits w1 = rw_waits w" using read_waits_at [OF r] .
  have t: "tree_rel run_kept env jid (rw_tree w) (rw_tree w1)"
    using kept_run.tree_tick [OF assms(1)] read_stored_world r by (metis snd_conv)
  show ?case
  proof (cases r)
    case (Inl e)
    with r same show ?thesis by simp
  next
    case (Inr job)
    with r have load: "load_job (re_linked env) jid (rw_tree w1) = Inr job" using read_stored_load by blast
    have own: "job_id job = jid" using own_id_kept [OF t Suc.prems(1)] load by (simp add: own_id_def)
    have q: "queued_count job \<le> stored_queue env jid w"
      using stored_queue_mono [OF t] load by (simp add: stored_queue_def)
    show ?thesis
    proof (cases "job_is_terminal (job_state job) \<or> find_queued job = None")
      case True
      with r Inr same show ?thesis by auto
    next
      case False
      then obtain i fl where f: "find_queued job = Some (i, fl)" by fastforce
      then have i: "i < length (job_files job)" "jf_state (job_files job ! i) = Queued"
        by (auto simp: find_queued_def find_Some_iff nth_enumerate_eq)
      obtain x w2 where p: "process_file env jid max_pages i fl w1 = (x, w2)" by fastforce
      have g: "waits_grow 3 w w2"
        using waits_grow_trans [OF waits_grow_refl [OF same] process_file_waits, of 0 3 env jid max_pages i fl] p by simp
      have t2: "tree_rel run_kept env jid (rw_tree w1) (rw_tree w2)"
        using kept_run.process_file_rel [OF assms(1), of w1 max_pages i fl] p by simp
      have pos: "1 \<le> queued_count job"
        using i nth_mem [OF i(1)] by (auto simp: queued_count_def Suc_le_eq length_greater_0_conv filter_empty_conv)
      then have three: "waits_grow (3 * stored_queue env jid w) w w2"
        using waits_grow_trans [OF g waits_grow_refl [OF refl], of 0] q by simp
      show ?thesis
      proof (cases "x = Inr NextFile")
        case True
        have less: "stored_queue env jid w2 < queued_count job"
        proof (cases "load_job (re_linked env) jid (rw_tree w2)")
          case (Inl e)
          with pos show ?thesis by (simp add: stored_queue_def)
        next
          case (Inr job2)
          have "run_kept job job2" using t2 load Inr by (auto simp: tree_rel_def)
          moreover have "jf_state (job_files job2 ! i) \<noteq> Queued"
            using process_progress [OF assms(1) load own i(1)] p True Inr by blast
          ultimately have "queued_count job2 < queued_count job" using queued_count_less i by blast
          with Inr show ?thesis by (simp add: stored_queue_def)
        qed
        have "own_id env jid w2" using own_id_kept [OF t2 own_id_kept [OF t Suc.prems(1)]] .
        moreover have "stored_queue env jid w2 < fuel" using less q Suc.prems(2) by simp
        ultimately have ih: "fst (run_loop fuel env jid max_pages w2) \<noteq> OutOfFuel"
          "waits_grow (3 * stored_queue env jid w2) w2 (snd (run_loop fuel env jid max_pages w2))"
          using Suc.IH by blast+
        have "3 + 3 * stored_queue env jid w2 \<le> 3 * stored_queue env jid w" using less q by simp
        with waits_grow_trans [OF g ih(2)] ih(1) show ?thesis
          using r Inr False f p True by simp
      next
        case False
        with three r Inr \<open>\<not> (job_is_terminal (job_state job) \<or> find_queued job = None)\<close> f p show ?thesis
          by (cases x) (auto split: flow.splits)
      qed
    qed
  qed
qed simp

section \<open>Nothing left waiting\<close>

definition run_ready :: "run_env \<Rightarrow> str \<Rightarrow> run_world \<Rightarrow> bool" where
  "run_ready env jid w \<longleftrightarrow>
     (\<forall>job. load_job (re_linked env) jid (rw_tree w) = Inr job \<longrightarrow> job_id job = jid \<and> queue_sane job)"

definition calm :: "run_env \<Rightarrow> str \<Rightarrow> run_world \<Rightarrow> bool" where
  "calm env jid w \<longleftrightarrow> (\<forall>job. load_job (re_linked env) jid (rw_tree w) = Inr job \<longrightarrow> none_queued job)"

lemma ready_kept: "run_ready env jid w \<Longrightarrow> tree_rel run_kept env jid (rw_tree w) (rw_tree w') \<Longrightarrow> run_ready env jid w'"
  unfolding run_ready_def tree_rel_def run_kept_def by metis

lemma none_queued_kept: "run_kept job job' \<Longrightarrow> none_queued job \<Longrightarrow> none_queued job'"
  using kept_length kept_queued by (fastforce simp: none_queued_def list_all_length)

lemma calm_kept: "calm env jid w \<Longrightarrow> tree_rel run_kept env jid (rw_tree w) (rw_tree w') \<Longrightarrow> calm env jid w'"
  unfolding calm_def tree_rel_def by (metis none_queued_kept)

lemma request_cancel_empties: "queue_sane job \<Longrightarrow> none_queued (snd (request_cancel now job))"
  by (auto simp: request_cancel_def cancel_files_spec queue_sane_def stopped_def none_queued_def
      list_all_iff file_cancel_def split: job_state.splits)

lemma request_and_delete_empties: "queue_sane job \<Longrightarrow> none_queued (fst (request_and_delete now job tree))"
  using none_queued_kept [OF kept_run.related_step [OF forget] request_cancel_empties]
  by (simp add: request_and_delete_def split_beta)

lemma finish_keeps_none: "none_queued job \<Longrightarrow> none_queued (snd (finish_cancel_if_idle now job))"
  by (rule none_queued_kept [OF kept_run.related_step [OF finish]])

lemma cancel_sections_empty:
  "queue_sane job \<Longrightarrow> cancel_section env t job tree = (Inr (u, job'), tree') \<Longrightarrow> none_queued job'"
  "queue_sane job \<Longrightarrow> interrupt_section env t i job tree = (Inr (u, job'), tree') \<Longrightarrow> none_queued job'"
  using finish_keeps_none request_and_delete_empties
    none_queued_kept [OF kept_run.related_steps [OF end_interrupted_runs] request_and_delete_empties]
  by (auto simp: cancel_section_def apply_cancel_locked_def interrupt_section_def Let_def split_beta)

text \<open>A section that empties the queue leaves the world calm.\<close>

lemma stop_is_calm:
  assumes "others_keep run_kept env jid" and "run_ready env jid w"
    and "section_keeps run_kept f"
    and "\<And>job tree u job' tree'. queue_sane job \<Longrightarrow> f job tree = (Inr (u, job'), tree') \<Longrightarrow> none_queued job'"
    and "stop_after (notified (update env jid f w)) = (Inr flow, w')"
  shows "flow = StopRun \<and> calm env jid w'"
proof -
  obtain x w1 where u: "update env jid f w = (x, w1)" by fastforce
  with assms(5) obtain r j2 where x: "x = Inr (r, j2)" "rw_tree w' = rw_tree w1" "flow = StopRun"
    by (cases x) (auto simp: notified_def stop_after_def)
  with u obtain j tree where j: "load_job (re_linked env) jid (rw_tree (tick env w)) = Inr j"
    "f j (rw_tree (tick env w)) = (Inr (r, j2), tree)" "save_job j2 tree = (None, rw_tree w1)"
    using update_Inr [of env jid f w r j2 w1] by metis
  have rj: "job_id j = jid" "queue_sane j"
    using ready_kept [OF assms(2) kept_run.tree_tick [OF assms(1)]] j(1) by (auto simp: run_ready_def)
  have "run_kept j j2" using section_keepsD [OF assms(3) j(2)] .
  then have "job_id j2 = jid" "job_schema j2 \<le> job_schema_version"
    using rj load_schema [OF j(1)] by (auto simp: run_kept_def)
  then have "load_job (re_linked env) jid (rw_tree w') = Inr j2"
    using load_after_save [OF j(3)] x(2) by simp
  moreover have "none_queued j2" using assms(4) [OF rj(2) j(2)] .
  ultimately show ?thesis using x(3) by (simp add: calm_def)
qed

lemma between_calm:
  "others_keep run_kept env jid \<Longrightarrow> run_ready env jid w \<Longrightarrow>
     stop_after (cancel_between_files_via_update env jid w) = (Inr flow, w') \<Longrightarrow> flow = StopRun \<and> calm env jid w'"
  unfolding cancel_between_files_via_update_def
  by (rule stop_is_calm [OF _ _ kept_run.sections_related(7) cancel_sections_empty(1)])

lemma interrupted_calm:
  "others_keep run_kept env jid \<Longrightarrow> run_ready env jid w \<Longrightarrow>
     stop_after (cancel_with_interrupted_via_update env jid i w) = (Inr flow, w') \<Longrightarrow> flow = StopRun \<and> calm env jid w'"
  unfolding cancel_with_interrupted_via_update_def
  by (rule stop_is_calm [OF _ _ kept_run.sections_related(8) cancel_sections_empty(2)])

lemma go_on_calm:
  assumes "others_keep run_kept env jid" and "run_ready env jid w"
    and "tree_rel run_kept env jid (rw_tree w) (rw_tree (snd r))"
    and "notify_and_go_on env jid r = (Inr StopRun, w')"
  shows "calm env jid w'"
proof -
  obtain x w1 where n: "notified r = (x, w1)" by fastforce
  then have "run_ready env jid w1"
    using ready_kept [OF assms(2)] assms(3) notified_tree [of r] by simp
  with assms(1,4) n between_calm show ?thesis
    by (cases x) (auto simp: notify_and_go_on_def stop_if_cancelled_def split: if_splits)
qed

lemma after_failure_calm:
  assumes "others_keep run_kept env jid" and "run_ready env jid w"
    and "after_failure env jid i staging e w = (Inr StopRun, w')"
  shows "calm env jid w'"
proof -
  obtain nx code where m: "map_download_error e = (nx, code)" by fastforce
  then have n: "nx \<in> {FileFailed, Unavailable}" using map_download_state [of e] by simp
  let ?d = "drop_staged jid staging w"
  let ?u = "update env jid (fail_section env (rw_time ?d) i nx code) ?d"
  have d: "tree_rel run_kept env jid (rw_tree w) (rw_tree ?d)"
    by (simp add: kept_run.tree_same_loads delete_dest_loads)
  have "tree_rel run_kept env jid (rw_tree w) (rw_tree (snd ?u))"
    using kept_run.tree_trans [OF d kept_run.tree_update [OF assms(1) kept_run.sections_related(3) [OF n] sections_load(3)]] .
  from go_on_calm [OF assms(1,2) this] assms(3) show ?thesis by (simp add: after_failure_def m Let_def)
qed

lemma verify_file_calm:
  assumes "others_keep run_kept env jid" and "run_ready env jid w"
    and "verify_file env jid max_pages i file staging w = (Inr StopRun, w')"
  shows "calm env jid w'"
proof -
  obtain r w1 where n: "notified (update env jid (verifying_section env (rw_time w) i) w) = (r, w1)" by fastforce
  have u: "tree_rel run_kept env jid (rw_tree w) (rw_tree w1)"
    by (rule kept_run.notified_at [OF assms(1) kept_run.sections_related(4) sections_load(4) n])
  let ?t = "tick env w1" and ?d = "drop_staged jid staging (tick env w1)"
  have t: "tree_rel run_kept env jid (rw_tree w) (rw_tree ?t)"
    using kept_run.tree_trans [OF u kept_run.tree_tick [OF assms(1)]] .
  have d: "tree_rel run_kept env jid (rw_tree w) (rw_tree ?d)"
    using kept_run.tree_trans [OF t kept_run.tree_same_loads [OF delete_dest_loads]] by simp
  note ready = ready_kept [OF assms(2)]
  have acc: "calm env jid w'" if "notify_and_go_on env jid (update env jid (accept_section env n i v) ?t) = (Inr StopRun, w')" for n v
    using go_on_calm [OF assms(1) ready [OF t] kept_run.tree_update [OF assms(1) kept_run.sections_related(5) sections_load(5)] that] .
  have rej: "calm env jid w'" if "notify_and_go_on env jid (update env jid (reject_section env n i code) ?d) = (Inr StopRun, w')" for n code
    using go_on_calm [OF assms(1) ready [OF d] kept_run.tree_update [OF assms(1) kept_run.sections_related(6) sections_load(6)] that] .
  show ?thesis
    using assms(3) n acc rej interrupted_calm [OF assms(1) ready [OF u]]
    by (auto simp: verify_file_def Let_def split: sum.splits prod.splits if_splits)
qed

lemma process_file_calm:
  assumes "others_keep run_kept env jid" and "run_ready env jid w"
    and "process_file env jid max_pages i file w = (Inr StopRun, w')"
  shows "calm env jid w'"
proof -
  let ?staging = "new_staging_name (re_uuid env (rw_time w))"
  obtain r w1 where s: "notified (update env jid (start_section env (rw_time w) i ?staging) w) = (r, w1)" by fastforce
  have u: "tree_rel run_kept env jid (rw_tree w) (rw_tree w1)"
    by (rule kept_run.notified_at [OF assms(1) kept_run.sections_related(1) sections_load(1) s])
  obtain a w2 where a: "attempts 3 env jid i ?staging w1 = (a, w2)" by fastforce
  have t: "tree_rel run_kept env jid (rw_tree w) (rw_tree w2)" if "staging_path jid ?staging = Inr p" for p
    using kept_run.tree_trans [OF u] kept_run.attempts_rel [OF assms(1) kept_run.staging_not_manifest [OF that]] a
    by (metis snd_conv)
  have fin: "calm env jid w'"
    if p: "staging_path jid ?staging = Inr p" and f: "finish_file env jid max_pages i file ?staging w1 = (Inr StopRun, w')" for p
  proof -
    note ready = ready_kept [OF assms(2) t [OF p]]
    show ?thesis
      using f a interrupted_calm [OF assms(1) ready] after_failure_calm [OF assms(1) ready]
        verify_file_calm [OF assms(1) ready]
      by (auto simp: finish_file_def split: sum.splits outcome.splits if_splits)
  qed
  show ?thesis
    using assms(3) s fin between_calm [OF assms(1,2)]
    by (auto simp: process_file_def Let_def split: sum.splits if_splits)
qed

lemma find_queued_None:
  assumes "find_queued job = None"
  shows "none_queued job"
proof -
  have "jf_state (job_files job ! i) \<noteq> Queued" if "i < length (job_files job)" for i
  proof -
    have "(i, job_files job ! i) \<in> set (List.enumerate 0 (job_files job))"
      using that by (simp add: in_set_enumerate_eq)
    then show ?thesis using assms unfolding find_queued_def find_None_iff by fastforce
  qed
  then show ?thesis by (simp add: none_queued_def list_all_length)
qed

lemma run_loop_calm:
  assumes "others_keep run_kept env jid" and "run_ready env jid w"
  shows "case run_loop fuel env jid max_pages w of
      (LoopDone, w') \<Rightarrow> calm env jid w'
    | (JobOver job, w') \<Rightarrow> none_queued job \<and> load_job (re_linked env) jid (rw_tree w') = Inr job
    | _ \<Rightarrow> True"
  using assms(2)
proof (induction fuel arbitrary: w)
  case (Suc fuel)
  obtain r w1 where r: "read_stored env jid w = (r, w1)" by fastforce
  have t: "tree_rel run_kept env jid (rw_tree w) (rw_tree w1)"
    using kept_run.tree_tick [OF assms(1)] read_stored_world r by (metis snd_conv)
  note ready = ready_kept [OF Suc.prems t]
  show ?case
  proof (cases r)
    case (Inr job)
    with r have load: "load_job (re_linked env) jid (rw_tree w1) = Inr job" using read_stored_load by blast
    with ready have sane: "queue_sane job" by (simp add: run_ready_def)
    consider "job_is_terminal (job_state job)" | "\<not> job_is_terminal (job_state job)" "find_queued job = None"
      | i fl where "\<not> job_is_terminal (job_state job)" "find_queued job = Some (i, fl)" by fastforce
    then show ?thesis
    proof cases
      case 1
      with sane have "none_queued job" by (simp add: queue_sane_def stopped_def)
      with 1 r Inr load show ?thesis by simp
    next
      case 2
      then have "none_queued job" by (intro find_queued_None)
      with 2 r Inr load show ?thesis by (simp add: calm_def)
    next
      case 3
      obtain x w2 where p: "process_file env jid max_pages i fl w1 = (x, w2)" by fastforce
      have "tree_rel run_kept env jid (rw_tree w1) (rw_tree w2)"
        using kept_run.process_file_rel [OF assms(1), of w1 max_pages i fl] p by simp
      note ih = Suc.IH [OF ready_kept [OF ready this]]
      have "x = Inr StopRun \<Longrightarrow> calm env jid w2"
        using process_file_calm [OF assms(1) ready] p by blast
      with 3 r Inr p ih show ?thesis
        by (cases x) (auto split: flow.split)
    qed
  qed (simp add: r)
qed simp

section \<open>Properties\<close>

text \<open>
  C8: a run implements the operations of the job. Whatever happens around it, the job read after a
  run is reached from the job read before it by the operations of the job (the relation of
  \<open>IaJob\<close>), as long as the other commands only perform such operations; so every
  invariant of those operations survives the runner, in every interleaving.
\<close>

theorem run_implements_job_operations:
  assumes "others_keep job_step\<^sup>*\<^sup>* env jid"
    and "load_job (re_linked env) jid (rw_tree w) = Inr job"
    and "run_job fuel env jid max_pages w = (result, w')"
    and "load_job (re_linked env) jid (rw_tree w') = Inr job'"
  shows "job_step\<^sup>*\<^sup>* job job'"
  using job_run.run_job_rel [OF assms(1), of w fuel max_pages] assms(2-4) by (auto simp: tree_rel_def)

text \<open>
  C29: a run ends, and its waits are bounded. If the commands that interleave with it keep \<open>run_kept\<close>
  (they put no file back in the queue and keep the identity of the job, its target and what its
  files are on the remote side, as the cancel and the hand-off do), one unit of fuel more than the
  number of queued files is enough in every environment, and the run waits at most three times per
  queued file, at most sixty seconds each.
\<close>

theorem run_needs_no_more_fuel:
  assumes "others_keep run_kept env jid"
    and "load_job (re_linked env) jid (rw_tree w) = Inr job" and "job_id job = jid"
    and "queued_count job < fuel"
    and "run_job fuel env jid max_pages w = (result, w')"
  shows "result \<noteq> NoFuel \<and> waits_grow (3 * queued_count job) w w'"
proof -
  obtain e w1 where l: "run_loop fuel env jid max_pages w = (e, w1)" by fastforce
  have "own_id env jid w" "stored_queue env jid w = queued_count job"
    using assms(2,3) by (simp_all add: own_id_def stored_queue_def)
  with run_loop_ends [OF assms(1)] assms(4) l
  have "e \<noteq> OutOfFuel" "waits_grow (3 * queued_count job) w w1" by (metis fst_conv, metis snd_conv)
  moreover have "fst (settle_stored env jid w1) \<noteq> NoFuel"
    by (simp add: settle_stored_def split: prod.split sum.split option.split)
  moreover have "rw_waits (snd (settle_stored env jid w1)) = rw_waits w1"
    by (auto simp: settle_stored_def dest!: read_waits_at write_waits_at split: prod.split sum.split option.split)
  ultimately show ?thesis
    using assms(5) l waits_grow_trans [of "3 * queued_count job" w w1 0 w' "3 * queued_count job"]
    by (cases e) (auto simp: run_job_def)
qed

text \<open>
  C30: a run leaves no file waiting. From a job in which a file waits only while the job is
  neither being cancelled nor over, a run with enough fuel either reports an error or returns a
  job with the same remote files in which nothing is queued, under every interleaving with commands
  that keep \<open>run_kept\<close>, the confirmation of an import and a cancel among them, whether the run was
  cancelled, the job ended, or all files were treated.
\<close>

theorem run_leaves_nothing_queued:
  assumes "others_keep run_kept env jid"
    and "load_job (re_linked env) jid (rw_tree w) = Inr job0" and "job_id job0 = jid" and "queue_sane job0"
    and "queued_count job0 < fuel"
  shows "case run_job fuel env jid max_pages w of
      (Returned job, w') \<Rightarrow> none_queued job \<and> map remote_of (job_files job) = map remote_of (job_files job0)
    | (RunFailed e, w') \<Rightarrow> True
    | (NoFuel, w') \<Rightarrow> False"
proof -
  obtain e w1 where l: "run_loop fuel env jid max_pages w = (e, w1)" by fastforce
  have t: "tree_rel run_kept env jid (rw_tree w) (rw_tree w1)"
    using kept_run.run_loop_rel [OF assms(1), of w fuel max_pages] l by simp
  have "run_ready env jid w" using assms(2-4) by (simp add: run_ready_def)
  from run_loop_calm [OF assms(1) this, of fuel max_pages] l
  have c: "e = LoopDone \<Longrightarrow> calm env jid w1"
    "\<And>job. e = JobOver job \<Longrightarrow> none_queued job \<and> load_job (re_linked env) jid (rw_tree w1) = Inr job"
    by auto
  have kept: "run_kept job0 job" if "load_job (re_linked env) jid (rw_tree v) = Inr job"
    "tree_rel run_kept env jid (rw_tree w) (rw_tree v)" for job v
    using that assms(2) by (auto simp: tree_rel_def)
  have "own_id env jid w" "stored_queue env jid w < fuel"
    using assms(2,3,5) by (simp_all add: own_id_def stored_queue_def)
  with run_loop_ends [OF assms(1)] l have fuel: "e \<noteq> OutOfFuel" by (metis fst_conv)
  have settle: "case settle_stored env jid w1 of (Returned job, w') \<Rightarrow> none_queued job \<and> run_kept job0 job
      | (RunFailed e, w') \<Rightarrow> True | (NoFuel, w') \<Rightarrow> False" if "calm env jid w1"
  proof -
    obtain r w2 where r: "read_stored env jid w1 = (r, w2)" by fastforce
    have t2: "tree_rel run_kept env jid (rw_tree w1) (rw_tree w2)"
      using kept_run.tree_tick [OF assms(1)] read_stored_world r by (metis snd_conv)
    note calm2 = calm_kept [OF that t2] and t02 = kept_run.tree_trans [OF t t2]
    have j: "none_queued job \<and> run_kept job0 job" if "r = Inr job" for job
      using r that calm2 kept [OF _ t02] read_stored_load by (metis calm_def)
    have s: "none_queued (snd (settle_job n job)) \<and> run_kept job0 (snd (settle_job n job))" if "r = Inr job" for job n
      using j [OF that] none_queued_kept run_kept_trans kept_run.related_step [OF settle] by metis
    show ?thesis
    proof (cases r)
      case (Inr job)
      obtain o' job' where o: "settle_job (re_clock env (rw_time w1)) job = (o', job')" by fastforce
      with s [OF Inr, of "re_clock env (rw_time w1)"] j [OF Inr] r Inr show ?thesis
        by (cases o') (simp_all add: settle_stored_def split: prod.split option.split)
    qed (simp add: settle_stored_def r)
  qed
  show ?thesis
  proof (cases e)
    case LoopDone
    obtain res w2 where r: "settle_stored env jid w1 = (res, w2)" by fastforce
    with settle [OF c(1) [OF LoopDone]] l LoopDone show ?thesis
      by (cases res) (simp_all add: run_job_def run_kept_def)
  next
    case (JobOver job)
    with c(2) kept [OF _ t] l show ?thesis by (simp add: run_job_def run_kept_def)
  qed (use l fuel in \<open>simp_all add: run_job_def\<close>)
qed

text \<open>Witnesses: a stored job with one queued file, an idle machine and a rate-limited server.\<close>

definition waiting_job :: job where
  "waiting_job = stored_job Running [sample_file ''a.pdf'' Queued None]"

definition sample_env :: run_env where
  "sample_env = \<lparr>re_others = (\<lambda>_ tree. tree), re_load_fails = (\<lambda>_. False), re_save_fails = (\<lambda>_. False),
     re_clock = (\<lambda>n. n), re_cancelled = (\<lambda>_. False), re_download = (\<lambda>_. DownloadFailed (Http 429 None)),
     re_wait_cut = (\<lambda>_. False), re_uuid = (\<lambda>_. sample_id), re_linked = (\<lambda>_. None),
     re_sha256 = (\<lambda>_. []), re_md5 = (\<lambda>_. []), re_pages = (\<lambda>_. None)\<rparr>"

definition sample_world :: run_world where
  "sample_world = \<lparr>rw_tree = [(sample_id, Folder [(job_json, FileNode (JobText waiting_job))])],
     rw_time = 0, rw_seen = [], rw_waits = []\<rparr>"

lemma sample_loaded:
  "load_job (re_linked sample_env) sample_id (rw_tree sample_world) = Inr waiting_job"
  "job_id waiting_job = sample_id" "queued_count waiting_job = 1" "queue_sane waiting_job"
  using sample_id_valid
  by (simp_all add: load_job_def check_job_id_def sample_world_def jget_def read_job_def waiting_job_def
      stored_job_def sample_defs job_schema_version_def queued_count_def queue_sane_def stopped_def)

lemma sample_others: "others_keep run_kept sample_env sample_id" "others_keep job_step\<^sup>*\<^sup>* sample_env sample_id"
  by (simp_all add: others_keep_def sample_env_def kept_run.tree_refl job_run.tree_refl)

lemma run_implements_job_operations_witness:
  "case load_job (\<lambda>_. None) sample_id (rw_tree (snd (run_job 2 sample_env sample_id 500 sample_world))) of
     Inr job' \<Rightarrow> job_step\<^sup>*\<^sup>* waiting_job job' | Inl _ \<Rightarrow> True"
proof (cases "load_job (\<lambda>_. None) sample_id (rw_tree (snd (run_job 2 sample_env sample_id 500 sample_world)))")
  case (Inr job')
  then have "load_job (re_linked sample_env) sample_id
      (rw_tree (snd (run_job 2 sample_env sample_id 500 sample_world))) = Inr job'"
    by (simp add: sample_env_def)
  from run_implements_job_operations [OF sample_others(2) sample_loaded(1) surjective_pairing this] Inr
  show ?thesis by simp
qed simp

lemma run_needs_no_more_fuel_witness:
  "fst (run_job 2 sample_env sample_id 500 sample_world) \<noteq> NoFuel
    \<and> waits_grow 3 sample_world (snd (run_job 2 sample_env sample_id 500 sample_world))"
proof -
  have "queued_count waiting_job < 2" by (simp add: sample_loaded)
  from run_needs_no_more_fuel [OF sample_others(1) sample_loaded(1,2) this surjective_pairing]
  show ?thesis by (simp add: sample_loaded(3))
qed

lemma run_leaves_nothing_queued_witness:
  "case run_job 2 sample_env sample_id 500 sample_world of
     (Returned job, _) \<Rightarrow> none_queued job | (RunFailed e, _) \<Rightarrow> True | (NoFuel, _) \<Rightarrow> False"
proof -
  have "queued_count waiting_job < 2" by (simp add: sample_loaded)
  from run_leaves_nothing_queued [OF sample_others(1) sample_loaded(1,2,4) this, of 500]
  show ?thesis by (auto split: run_result.splits prod.splits)
qed

end
