(* ===== verification/IaCommands.thy ===== *)
theory IaCommands
  imports IaPrepare IaPolicy IaName IaRun
begin

text \<open>
  The commands of the desktop application over the Internet Archive crate
  (\<open>internet_archive/commands.rs\<close>) and the provenance index read from SQLite
  (\<open>internet_archive/provenance_db.rs\<close>): preparing a job, starting, cancelling and discarding one,
  the lists of jobs and of verified files.

  The database is a list of rows per table. \<open>json_extract\<close> guarded by \<open>json_valid\<close> is the
  parameter \<open>extract\<close>, the identifier SQLite finds in the metadata of a row; whether a query fails
  is the parameter \<open>db_fails\<close>. The fetcher of item metadata is a parameter. Messages of errors are
  not modelled, only their codes.
\<close>

section \<open>The corpus\<close>

record corpus_item =
  ci_id :: str
  ci_collection :: str
  ci_metadata :: "str option"

record corpus_asset =
  ca_id :: str
  ca_item :: str
  ca_path :: str
  ca_type :: str
  ca_parent :: "str option"
  ca_page :: "int option"

record corpus =
  co_collections :: "str list"
  co_items :: "corpus_item list"
  co_assets :: "corpus_asset list"

section \<open>The provenance index\<close>

definition in_chunk_size :: nat where
  "in_chunk_size = 500"

text \<open>The distinct elements in the order they are first seen.\<close>

fun first_seen :: "str list \<Rightarrow> str list \<Rightarrow> str list" where
  "first_seen seen [] = []"
| "first_seen seen (x # xs) =
     (if x \<in> set seen then first_seen seen xs else x # first_seen (x # seen) xs)"

definition row_matches :: "(str \<Rightarrow> str option) \<Rightarrow> str list \<Rightarrow> corpus_item \<Rightarrow> bool" where
  "row_matches extract chunk r =
     (case Option.bind (ci_metadata r) extract of None \<Rightarrow> False | Some i \<Rightarrow> i \<in> set chunk)"

definition record_of_row :: "(str \<Rightarrow> json option) \<Rightarrow> corpus_item \<Rightarrow> provenance_record option" where
  "record_of_row from_str r = Option.bind (ci_metadata r) (from_row from_str (ci_id r) (ci_collection r))"

definition load_chunk ::
  "(str \<Rightarrow> json option) \<Rightarrow> (str \<Rightarrow> str option) \<Rightarrow> corpus \<Rightarrow> str list \<Rightarrow> provenance_record list" where
  "load_chunk from_str extract db chunk =
     somes (map (record_of_row from_str) (filter (row_matches extract chunk) (co_items db)))"

definition load_records ::
  "(str \<Rightarrow> json option) \<Rightarrow> (str \<Rightarrow> str option) \<Rightarrow> corpus \<Rightarrow> str list \<Rightarrow> provenance_record list" where
  "load_records from_str extract db identifiers =
     concat (map (load_chunk from_str extract db) (chunks in_chunk_size (first_seen [] identifiers)))"

definition find_records :: "provenance_record list \<Rightarrow> provenance_lookup" where
  "find_records records identifier file_name =
     filter (\<lambda>r. pr_identifier r = identifier \<and> pr_file_name r = file_name) records"

definition collection_exists :: "corpus \<Rightarrow> str \<Rightarrow> bool" where
  "collection_exists db cid \<longleftrightarrow> cid \<in> set (co_collections db)"

record provenance_snapshot =
  sp_collection_exists :: bool
  sp_provenance :: "provenance_record list"

definition open_snapshot ::
  "(str \<Rightarrow> json option) \<Rightarrow> (str \<Rightarrow> str option) \<Rightarrow> bool \<Rightarrow> corpus \<Rightarrow> str \<Rightarrow> str list \<Rightarrow>
   provenance_snapshot option" where
  "open_snapshot from_str extract db_fails db cid identifiers =
     (if db_fails then None
      else Some \<lparr>sp_collection_exists = collection_exists db cid,
        sp_provenance = load_records from_str extract db identifiers\<rparr>)"

section \<open>Queries, tags and codes\<close>

record search_query_dto =
  qd_text :: "str option"
  qd_title :: "str option"
  qd_creator :: "str option"
  qd_language :: "str option"
  qd_collection :: "str option"
  qd_year_from :: "nat option"
  qd_year_to :: "nat option"
  qd_texts_only :: bool

definition non_empty :: "str option \<Rightarrow> str option" where
  "non_empty v = opt_filter (\<lambda>s. s \<noteq> []) (map_option trim v)"

definition to_search_query :: "search_query_dto \<Rightarrow> search_query" where
  "to_search_query q =
     \<lparr>sq_text = non_empty (qd_text q), sq_title = non_empty (qd_title q),
      sq_creator = non_empty (qd_creator q), sq_language = non_empty (qd_language q),
      sq_collection = non_empty (qd_collection q), sq_year_from = qd_year_from q,
      sq_year_to = qd_year_to q, sq_texts_only = qd_texts_only q\<rparr>"

definition availability_tag :: "availability \<Rightarrow> str" where
  "availability_tag a =
     (case a of
        Available \<Rightarrow> tx ''available''
      | Restricted Encrypted \<Rightarrow> tx ''encrypted''
      | Restricted Private \<Rightarrow> tx ''private''
      | Restricted ItemRestricted \<Rightarrow> tx ''item_restricted''
      | Restricted UnsafeName \<Rightarrow> tx ''unsafe_name'')"

definition file_source_tag :: "file_source \<Rightarrow> str" where
  "file_source_tag s =
     (case s of Original \<Rightarrow> tx ''original'' | Derivative \<Rightarrow> tx ''derivative'' | OtherSource name \<Rightarrow> name
      | UnknownSource \<Rightarrow> tx ''unknown'')"

definition ia_error_code :: "ia_error \<Rightarrow> str" where
  "ia_error_code e =
     (case e of
        InvalidQuery \<Rightarrow> tx ''invalid_query''
      | NotFound _ \<Rightarrow> tx ''not_found''
      | Blocked \<Rightarrow> tx ''blocked''
      | TooManyRedirects \<Rightarrow> tx ''too_many_redirects''
      | TooLarge _ \<Rightarrow> tx ''too_large''
      | FileTooLarge _ \<Rightarrow> tx ''too_large''
      | Http status _ \<Rightarrow> tx ''http_'' @ show_nat status
      | Network \<Rightarrow> tx ''network''
      | Decode \<Rightarrow> tx ''decode''
      | AlreadyExists \<Rightarrow> tx ''already_exists''
      | IoError \<Rightarrow> tx ''io''
      | VerifyFailed _ \<Rightarrow> tx ''verify_failed''
      | TooManyPages _ _ \<Rightarrow> tx ''too_many_pages'')"

definition target_collection_id :: "job \<Rightarrow> str option" where
  "target_collection_id job =
     (case job_target job of ExistingCollection c \<Rightarrow> Some c | NewCollection _ \<Rightarrow> None)"

section \<open>Preparing a job\<close>

definition max_prepare_selections :: nat where
  "max_prepare_selections = 100"

definition max_prepare_files :: nat where
  "max_prepare_files = 1000"

record selection =
  sel_identifier :: str
  sel_file_names :: "str list"

record rejected =
  rj_identifier :: str
  rj_file_name :: str
  rj_reason :: str

record prepare_result =
  pz_job_id :: str
  pz_summary :: prepare_summary
  pz_rejected :: "rejected list"

datatype prepare_error =
    InvalidRequest
  | OpenFailed
  | CollectionNotFound
  | FetchFailed ia_error
  | NothingToImport
  | CannotStore store_error

definition requested :: "selection list \<Rightarrow> (str \<times> str) list" where
  "requested selections = concat (map (\<lambda>s. map (Pair (sel_identifier s)) (sel_file_names s)) selections)"

text \<open>An identifier is accepted when \<open>resolve_identifier\<close> answers it unchanged.\<close>

definition accepted_identifier ::
  "(str \<Rightarrow> nat list) \<Rightarrow> (nat list \<Rightarrow> str option) \<Rightarrow> (str \<Rightarrow> url option) \<Rightarrow> str \<Rightarrow> bool" where
  "accepted_identifier bytes utf8 parse i \<longleftrightarrow> resolve_identifier bytes utf8 parse i = Inr i"

definition request_is_valid :: "(str \<Rightarrow> bool) \<Rightarrow> selection list \<Rightarrow> bool" where
  "request_is_valid valid_id selections =
     (if selections = [] \<or> length selections > max_prepare_selections then False
      else if length (requested selections) = 0 \<or> length (requested selections) > max_prepare_files then False
      else if list_ex (\<lambda>s. sel_file_names s = [] \<or> \<not> valid_id (sel_identifier s)) selections then False
      else distinct (requested selections))"

text \<open>Sequential fetches, up to the first that fails.\<close>

fun fetch_all ::
  "(str \<Rightarrow> ia_error + item_details) \<Rightarrow> str list \<Rightarrow> ia_error + (str \<times> item_details) list" where
  "fetch_all fetch [] = Inr []"
| "fetch_all fetch (i # is) =
     (case fetch i of
        Inl e \<Rightarrow> Inl e
      | Inr d \<Rightarrow> (case fetch_all fetch is of Inl e \<Rightarrow> Inl e | Inr ds \<Rightarrow> Inr ((i, d) # ds)))"

record prepared =
  pj_files :: "job_file list"
  pj_inputs :: "(str \<times> pdf_file) list"
  pj_rejected :: "rejected list"
  pj_items :: "item_snapshot list"
  pj_seen :: "str list"

definition reject :: "str \<Rightarrow> str \<Rightarrow> str \<Rightarrow> prepared \<Rightarrow> prepared" where
  "reject identifier name reason st =
     st\<lparr>pj_rejected := pj_rejected st @
        [\<lparr>rj_identifier = identifier, rj_file_name = name, rj_reason = reason\<rparr>]\<rparr>"

text \<open>
  One requested file. The expectation that every identifier was fetched is the code's \<open>expect\<close>;
  \<open>None\<close> is the panic, and \<open>prepared_job_is_what_was_asked\<close> shows it is not reached.
\<close>

definition prepare_file ::
  "(str \<times> item_details) list \<Rightarrow> str \<times> str \<Rightarrow> prepared \<Rightarrow> (prepare_error + prepared) option" where
  "prepare_file fetched req st =
     (case req of (identifier, name) \<Rightarrow>
      case map_of fetched identifier of
        None \<Rightarrow> None
      | Some details \<Rightarrow>
          (case find (\<lambda>p. pdf_name p = name) (it_pdfs details) of
             None \<Rightarrow> Some (Inr (reject identifier name (tx ''not_found'') st))
           | Some pdf \<Rightarrow>
               if pdf_availability pdf = Available then
                 (case from_pdf identifier pdf of
                    Inl _ \<Rightarrow> Some (Inl InvalidRequest)
                  | Inr job_file \<Rightarrow>
                      Some (Inr (st\<lparr>pj_files := pj_files st @ [job_file],
                        pj_inputs := pj_inputs st @ [(identifier, pdf)],
                        pj_items := (if identifier \<in> set (pj_seen st) then pj_items st
                          else pj_items st @ [snapshot_of_details details]),
                        pj_seen := identifier # pj_seen st\<rparr>)))
               else Some (Inr (reject identifier name
                 (tx ''unavailable:'' @ availability_tag (pdf_availability pdf)) st))))"

fun prepare_files ::
  "(str \<times> item_details) list \<Rightarrow> (str \<times> str) list \<Rightarrow> prepared \<Rightarrow> (prepare_error + prepared) option" where
  "prepare_files fetched [] st = Some (Inr st)"
| "prepare_files fetched (r # rs) st =
     (case prepare_file fetched r st of
        None \<Rightarrow> None
      | Some (Inl e) \<Rightarrow> Some (Inl e)
      | Some (Inr st') \<Rightarrow> prepare_files fetched rs st')"

definition store_prepared ::
  "str \<Rightarrow> nat \<Rightarrow> str \<Rightarrow> provenance_record list \<Rightarrow> prepared \<Rightarrow> store_root \<Rightarrow>
   (prepare_error + prepare_result) \<times> store_root" where
  "store_prepared uuid now cid records st tree =
     (let target = ExistingCollection cid in
      if pj_files st = [] then (Inl NothingToImport, tree)
      else
        (case new_job (new_job_id uuid) now target (pj_files st) of
           Inl _ \<Rightarrow> (Inl InvalidRequest, tree)
         | Inr job0 \<Rightarrow>
             (let job = job0\<lparr>job_items := pj_items st\<rparr>;
                  summary = summarize (pj_inputs st) target (find_records records)
              in case create_job job tree of
                   (Some e, tree') \<Rightarrow> (Inl (CannotStore e), tree')
                 | (None, tree') \<Rightarrow> (Inr \<lparr>pz_job_id = job_id job, pz_summary = summary,
                     pz_rejected = pj_rejected st\<rparr>, tree'))))"

definition no_files :: prepared where
  "no_files = \<lparr>pj_files = [], pj_inputs = [], pj_rejected = [], pj_items = [], pj_seen = []\<rparr>"

definition prepare_import ::
  "(str \<Rightarrow> bool) \<Rightarrow> (str \<Rightarrow> ia_error + item_details) \<Rightarrow> (str list \<Rightarrow> provenance_snapshot option) \<Rightarrow>
   str \<Rightarrow> nat \<Rightarrow> str \<Rightarrow> selection list \<Rightarrow> store_root \<Rightarrow>
   ((prepare_error + prepare_result) \<times> store_root) option" where
  "prepare_import valid_id fetch open_provenance uuid now cid selections tree =
     (if \<not> request_is_valid valid_id selections then Some (Inl InvalidRequest, tree)
      else
        (let identifiers = first_seen [] (map sel_identifier selections) in
         case open_provenance identifiers of
           None \<Rightarrow> Some (Inl OpenFailed, tree)
         | Some snapshot \<Rightarrow>
             if \<not> sp_collection_exists snapshot then Some (Inl CollectionNotFound, tree)
             else
               (case fetch_all fetch identifiers of
                  Inl e \<Rightarrow> Some (Inl (FetchFailed e), tree)
                | Inr fetched \<Rightarrow>
                    (case prepare_files fetched (requested selections) no_files of
                       None \<Rightarrow> None
                     | Some (Inl e) \<Rightarrow> Some (Inl e, tree)
                     | Some (Inr st) \<Rightarrow>
                         Some (store_prepared uuid now cid (sp_provenance snapshot) st tree)))))"

section \<open>What preparing does\<close>

text \<open>The file of a job that a requested pair stands for, when it is offered.\<close>

definition offered_file :: "(str \<Rightarrow> ia_error + item_details) \<Rightarrow> str \<times> str \<Rightarrow> job_file option" where
  "offered_file fetch r =
     (case fetch (fst r) of
        Inl _ \<Rightarrow> None
      | Inr details \<Rightarrow>
          (case find (\<lambda>p. pdf_name p = snd r) (it_pdfs details) of
             None \<Rightarrow> None
           | Some pdf \<Rightarrow> (case from_pdf (fst r) pdf of Inl _ \<Rightarrow> None | Inr f \<Rightarrow> Some f)))"

lemma set_first_seen: "set (first_seen seen xs) = set xs - set seen"
  by (induction xs arbitrary: seen) auto

lemma distinct_first_seen: "distinct (first_seen seen xs)"
  by (induction xs arbitrary: seen) (auto simp: set_first_seen)

lemma fetch_all_Inr:
  "fetch_all fetch is = Inr ds \<Longrightarrow> map fst ds = is \<and> (\<forall>(i, d) \<in> set ds. fetch i = Inr d)"
  by (induction "is" arbitrary: ds) (auto split: sum.splits)

lemma fetched_one:
  assumes "fetch_all fetch is = Inr ds" and "i \<in> set is"
  obtains d where "map_of ds i = Some d" "fetch i = Inr d"
proof -
  have "i \<in> fst ` set ds" using fetch_all_Inr [OF assms(1)] assms(2) by (metis list.set_map)
  then obtain d where "map_of ds i = Some d" by (metis map_of_eq_None_iff not_None_eq)
  moreover from this have "(i, d) \<in> set ds" by (rule map_of_SomeD)
  then have "fetch i = Inr d" using fetch_all_Inr [OF assms(1)] by auto
  ultimately show ?thesis using that by blast
qed

lemma offered_file_key:
  "offered_file fetch r = Some f \<Longrightarrow> file_key f = r \<and> jf_state f = Queued"
  by (cases r) (auto simp: offered_file_def from_pdf_def file_key_def find_Some_iff
      split: sum.splits option.splits if_splits)

lemma prepare_file_result:
  assumes "map_of fetched (fst r) = Some d" and "fetch (fst r) = Inr d"
  shows "\<exists>st'. prepare_file fetched r st = Some (Inr st')
    \<and> pj_files st' = pj_files st @ somes [offered_file fetch r]
    \<and> map (\<lambda>(i, p). (i, pdf_availability p)) (pj_inputs st') =
        map (\<lambda>(i, p). (i, pdf_availability p)) (pj_inputs st) @ map (\<lambda>f. (jf_identifier f, Available)) (somes [offered_file fetch r])
    \<and> map (\<lambda>x. (rj_identifier x, rj_file_name x)) (pj_rejected st') =
        map (\<lambda>x. (rj_identifier x, rj_file_name x)) (pj_rejected st) @ (if offered_file fetch r = None then [r] else [])"
  using assms
  by (cases r; cases "find (\<lambda>p. pdf_name p = snd r) (it_pdfs d)")
    (auto simp: prepare_file_def offered_file_def reject_def from_pdf_def)

lemma prepare_files_result:
  assumes "\<And>r. r \<in> set rs \<Longrightarrow> \<exists>d. map_of fetched (fst r) = Some d \<and> fetch (fst r) = Inr d"
  shows "\<exists>st'. prepare_files fetched rs st = Some (Inr st')
    \<and> pj_files st' = pj_files st @ somes (map (offered_file fetch) rs)
    \<and> map (\<lambda>(i, p). (i, pdf_availability p)) (pj_inputs st') =
        map (\<lambda>(i, p). (i, pdf_availability p)) (pj_inputs st)
          @ map (\<lambda>f. (jf_identifier f, Available)) (somes (map (offered_file fetch) rs))
    \<and> map (\<lambda>x. (rj_identifier x, rj_file_name x)) (pj_rejected st') =
        map (\<lambda>x. (rj_identifier x, rj_file_name x)) (pj_rejected st)
          @ filter (\<lambda>r. offered_file fetch r = None) rs"
  using assms
proof (induction rs arbitrary: st)
  case (Cons r rs)
  obtain d where d: "map_of fetched (fst r) = Some d" "fetch (fst r) = Inr d"
    using Cons.prems [of r] by auto
  obtain st1 where 1: "prepare_file fetched r st = Some (Inr st1)"
    "pj_files st1 = pj_files st @ somes [offered_file fetch r]"
    "map (\<lambda>(i, p). (i, pdf_availability p)) (pj_inputs st1) =
        map (\<lambda>(i, p). (i, pdf_availability p)) (pj_inputs st) @ map (\<lambda>f. (jf_identifier f, Available)) (somes [offered_file fetch r])"
    "map (\<lambda>x. (rj_identifier x, rj_file_name x)) (pj_rejected st1) =
        map (\<lambda>x. (rj_identifier x, rj_file_name x)) (pj_rejected st) @ (if offered_file fetch r = None then [r] else [])"
    using prepare_file_result [of fetched r d fetch st, OF d] by blast
  obtain st2 where 2: "prepare_files fetched rs st1 = Some (Inr st2)"
    "pj_files st2 = pj_files st1 @ somes (map (offered_file fetch) rs)"
    "map (\<lambda>(i, p). (i, pdf_availability p)) (pj_inputs st2) =
        map (\<lambda>(i, p). (i, pdf_availability p)) (pj_inputs st1)
          @ map (\<lambda>f. (jf_identifier f, Available)) (somes (map (offered_file fetch) rs))"
    "map (\<lambda>x. (rj_identifier x, rj_file_name x)) (pj_rejected st2) =
        map (\<lambda>x. (rj_identifier x, rj_file_name x)) (pj_rejected st1)
          @ filter (\<lambda>r. offered_file fetch r = None) rs"
    using Cons.IH [of st1] Cons.prems by auto
  show ?case
    using 1 2 by (intro exI [of _ st2]) (cases "offered_file fetch r"; simp)
qed simp

lemma offered_keys:
  "map file_key (somes (map (offered_file fetch) rs)) = filter (\<lambda>r. offered_file fetch r \<noteq> None) rs"
  by (induction rs) (auto dest: offered_file_key split: option.split simp: offered_file_key)

lemma create_job_result:
  assumes "is_valid_job_id (job_id job)"
  shows "create_job job tree = (if jget tree (job_id job) \<noteq> None then (Some (JobExists (job_id job)), tree)
    else save_job job tree)"
  using assms by (auto simp: create_job_def save_job_def check_job_id_def)

lemma save_new_job:
  "is_valid_job_id (job_id job) \<Longrightarrow> jget tree (job_id job) = None \<Longrightarrow> fst (save_job job tree) = None"
  by (simp add: save_job_def check_job_id_def put_folder_def write_job_atomic_def)

lemma summarize_available:
  assumes "list_all (\<lambda>(i, p). pdf_availability p = Available) inputs"
  shows "ps_total_files (summarize inputs t l) = length inputs \<and> ps_restricted_files (summarize inputs t l) = 0"
  using assms
  by (simp add: summarize_def fold_counts count_of_def list_all_iff filter_empty_conv entry_of_def offered_def
      split_beta)

lemma first_repeated_offered:
  assumes "distinct rs"
  shows "first_repeated [] (somes (map (offered_file fetch) rs)) = None"
  using assms by (simp add: first_repeated_None offered_keys)

lemma prepare_import_result:
  fixes valid_id fetch open_provenance uuid now cid selections tree
  defines "result \<equiv> prepare_import valid_id fetch open_provenance uuid now cid selections tree"
  assumes "is_valid_job_id uuid"
  shows "(\<exists>e. result = Some (Inl e, tree)) \<or>
    (\<exists>r tree' job. result = Some (Inr r, tree') \<and> pz_job_id r = uuid \<and> jget tree uuid = None
      \<and> save_job job tree = (None, tree') \<and> job_id job = uuid \<and> job_schema job = job_schema_version
      \<and> job_state job = Draft \<and> job_target job = ExistingCollection cid
      \<and> job_files job = somes (map (offered_file fetch) (requested selections)) \<and> job_files job \<noteq> []
      \<and> map (\<lambda>x. (rj_identifier x, rj_file_name x)) (pz_rejected r)
          = filter (\<lambda>q. offered_file fetch q = None) (requested selections)
      \<and> ps_total_files (pz_summary r) = length (job_files job) \<and> ps_restricted_files (pz_summary r) = 0
      \<and> distinct (requested selections) \<and> length (requested selections) \<le> 1000)"
proof -
  let ?ids = "first_seen [] (map sel_identifier selections)"
  consider (refused) "\<exists>e. result = Some (Inl e, tree)"
    | sp fetched where "request_is_valid valid_id selections" "open_provenance ?ids = Some sp"
        "sp_collection_exists sp" "fetch_all fetch ?ids = Inr fetched"
  proof (cases "request_is_valid valid_id selections \<and>
      (\<exists>sp ds. open_provenance ?ids = Some sp \<and> sp_collection_exists sp \<and> fetch_all fetch ?ids = Inr ds)")
    case True
    then show ?thesis using that(2) by blast
  next
    case False
    then have "\<exists>e. result = Some (Inl e, tree)"
      by (auto simp: result_def prepare_import_def Let_def split: option.split sum.split)
    then show ?thesis by (rule that(1))
  qed
  then show ?thesis
  proof cases
    case (2 sp fetched)
    have "\<exists>d. map_of fetched (fst r) = Some d \<and> fetch (fst r) = Inr d" if "r \<in> set (requested selections)" for r
    proof -
      have "fst r \<in> set ?ids" using that by (auto simp: requested_def set_first_seen)
      then show ?thesis using fetched_one [OF 2(4)] by metis
    qed
    from prepare_files_result [of "requested selections" fetched fetch no_files, OF this]
    obtain st where st: "prepare_files fetched (requested selections) no_files = Some (Inr st)"
      "pj_files st = somes (map (offered_file fetch) (requested selections))"
      "map (\<lambda>(i, p). (i, pdf_availability p)) (pj_inputs st) = map (\<lambda>f. (jf_identifier f, Available)) (pj_files st)"
      "map (\<lambda>x. (rj_identifier x, rj_file_name x)) (pj_rejected st)
        = filter (\<lambda>q. offered_file fetch q = None) (requested selections)"
      by (auto simp: no_files_def)
    have res: "result = Some (store_prepared uuid now cid (sp_provenance sp) st tree)"
      using 2 st(1) by (simp add: result_def prepare_import_def Let_def)
    have dist: "distinct (requested selections)" "length (requested selections) \<le> 1000"
      using 2(1) by (auto simp: request_is_valid_def max_prepare_files_def split: if_splits)
    have inputs: "list_all (\<lambda>(i, p). pdf_availability p = Available) (pj_inputs st)" "length (pj_inputs st) = length (pj_files st)"
    proof -
      have "snd ` (\<lambda>(i, p). (i, pdf_availability p)) ` set (pj_inputs st) \<subseteq> {Available}"
        using arg_cong [OF st(3), of "\<lambda>xs. snd ` set xs"] by (auto simp: image_image)
      then show "list_all (\<lambda>(i, p). pdf_availability p = Available) (pj_inputs st)"
        by (auto simp: list_all_iff image_image split_beta)
      show "length (pj_inputs st) = length (pj_files st)" using arg_cong [OF st(3), of length] by simp
    qed
    show ?thesis
    proof (cases "pj_files st = [] \<or> jget tree uuid \<noteq> None")
      case True
      then show ?thesis
        using assms(2) first_repeated_offered [OF dist(1), of fetch]
        by (auto simp: res store_prepared_def Let_def new_job_def new_job_id_def create_job_result st(2))
    next
      case False
      define job where "job = \<lparr>job_schema = job_schema_version, job_id = uuid, job_created_at = now,
          job_updated_at = now, job_target = ExistingCollection cid, job_state = Draft,
          job_files = pj_files st, job_items = pj_items st\<rparr>"
      obtain tree' where saved: "save_job job tree = (None, tree')"
        using save_new_job [of job tree] assms(2) False
        by (cases "save_job job tree") (auto simp: job_def)
      have "create_job job tree = (None, tree')"
        using create_job_result [of job tree] assms(2) False saved by (simp add: job_def)
      then have r: "result = Some (Inr \<lparr>pz_job_id = uuid, pz_summary =
          summarize (pj_inputs st) (ExistingCollection cid) (find_records (sp_provenance sp)),
          pz_rejected = pj_rejected st\<rparr>, tree')"
        using False first_repeated_offered [OF dist(1), of fetch]
        by (simp add: res store_prepared_def Let_def new_job_def new_job_id_def st(2) job_def)
      have j: "job_id job = uuid" "job_schema job = job_schema_version" "job_state job = Draft"
        "job_target job = ExistingCollection cid" "job_files job = pj_files st"
        by (simp_all add: job_def)
      show ?thesis
        by (rule disjI2, rule exI, rule exI [of _ tree'], rule exI [of _ job], intro conjI, rule r)
          (use saved False dist st(2,4) j summarize_available [OF inputs(1)] inputs(2) in simp_all)
    qed
  qed blast
qed

section \<open>The index finds every record\<close>

lemma set_load_records:
  "set (load_records from_str extract db identifiers) =
     {r. \<exists>row \<in> set (co_items db). record_of_row from_str row = Some r
        \<and> (\<exists>i \<in> set identifiers. Option.bind (ci_metadata row) extract = Some i)}"
proof -
  have "set (concat (chunks in_chunk_size (first_seen [] identifiers))) = set identifiers"
    by (subst concat_chunks) (simp_all add: in_chunk_size_def set_first_seen)
  then have ids: "(\<exists>c \<in> set (chunks in_chunk_size (first_seen [] identifiers)). i \<in> set c) \<longleftrightarrow> i \<in> set identifiers" for i
    by (auto simp: set_concat)
  have "r \<in> set (load_records from_str extract db identifiers) \<longleftrightarrow>
      (\<exists>c \<in> set (chunks in_chunk_size (first_seen [] identifiers)). \<exists>row \<in> set (co_items db).
        row_matches extract c row \<and> record_of_row from_str row = Some r)" for r
    by (auto simp: load_records_def load_chunk_def somes_names)
  then show ?thesis
    using ids by (fastforce simp: row_matches_def split: option.splits)
qed

section \<open>Starting, cancelling and discarding\<close>

text \<open>
  The state shared by the commands: the store as the runner sees it, and the active run with its
  cancel flag. The lock \<open>active\<close> is held for the whole of each command below, so each is one step.
\<close>

record ia_state =
  ia_world :: run_world
  ia_active :: "(str \<times> bool) option"

datatype command_error = JobRunning | NotDraft | RunError run_error | LoadError store_error

definition start_job_section :: "nat \<Rightarrow> unit critical" where
  "start_job_section now job tree =
     (case decide_start (job_state job) of
        Some _ \<Rightarrow> (Inl StartRefused, tree)
      | None \<Rightarrow>
          (case job_state job of
             Draft \<Rightarrow>
               (case set_job_state Ready now job of
                  Inl _ \<Rightarrow> (Inl StartRefused, tree)
                | Inr job1 \<Rightarrow>
                    (case set_job_state Running now job1 of
                       Inl _ \<Rightarrow> (Inl StartRefused, tree)
                     | Inr job2 \<Rightarrow> (Inr ((), job2), tree)))
           | Ready \<Rightarrow>
               (case set_job_state Running now job of
                  Inl _ \<Rightarrow> (Inl StartRefused, tree)
                | Inr job1 \<Rightarrow> (Inr ((), job1), tree))
           | Running \<Rightarrow> (Inr ((), job), tree)
           | _ \<Rightarrow> (Inl StartRefused, tree)))"

definition start_import :: "run_env \<Rightarrow> str \<Rightarrow> nat \<Rightarrow> ia_state \<Rightarrow> command_error option \<times> ia_state" where
  "start_import env jid now s =
     (if ia_active s \<noteq> None then (Some JobRunning, s)
      else
        (case update env jid (start_job_section now) (ia_world s) of
           (Inl e, w) \<Rightarrow> (Some (RunError e), s\<lparr>ia_world := w\<rparr>)
         | (Inr _, w) \<Rightarrow> (None, s\<lparr>ia_world := w, ia_active := Some (jid, False)\<rparr>)))"

definition cancel_import :: "run_env \<Rightarrow> str \<Rightarrow> nat \<Rightarrow> ia_state \<Rightarrow> command_error option \<times> ia_state" where
  "cancel_import env jid now s =
     (if map_option fst (ia_active s) = Some jid then (None, s\<lparr>ia_active := Some (jid, True)\<rparr>)
      else
        (case apply_end_of_run_cancel env jid True now (ia_world s) of
           (Inl e, w) \<Rightarrow> (Some (RunError e), s\<lparr>ia_world := w\<rparr>)
         | (Inr _, w) \<Rightarrow> (None, s\<lparr>ia_world := w\<rparr>)))"

text \<open>The end of the task \<open>ia_start_import\<close> spawns: a cancel that came too late is applied now.\<close>

definition end_run :: "run_env \<Rightarrow> str \<Rightarrow> nat \<Rightarrow> ia_state \<Rightarrow> ia_state" where
  "end_run env jid now s =
     (let s1 = (if ia_active s = Some (jid, True)
                then s\<lparr>ia_world := snd (apply_end_of_run_cancel env jid True now (ia_world s))\<rparr> else s)
      in if map_option fst (ia_active s1) = Some jid then s1\<lparr>ia_active := None\<rparr> else s1)"

definition discard_draft_logic :: "run_env \<Rightarrow> str \<Rightarrow> store_root \<Rightarrow> command_error option \<times> store_root" where
  "discard_draft_logic env jid tree =
     (case load_job (re_linked env) jid tree of
        Inl e \<Rightarrow> (Some (LoadError e), tree)
      | Inr job \<Rightarrow>
          if job_state job \<noteq> Draft then (Some NotDraft, tree)
          else (case remove_job jid tree of
                  (Some e, tree') \<Rightarrow> (Some (LoadError e), tree')
                | (None, tree') \<Rightarrow> (None, tree')))"

definition discard_draft :: "run_env \<Rightarrow> str \<Rightarrow> ia_state \<Rightarrow> command_error option \<times> ia_state" where
  "discard_draft env jid s =
     (if map_option fst (ia_active s) = Some jid then (Some JobRunning, s)
      else
        (let w = tick env (ia_world s); (e, tree) = discard_draft_logic env jid (rw_tree w)
         in (e, s\<lparr>ia_world := w\<lparr>rw_tree := tree\<rparr>\<rparr>)))"

section \<open>What the frontend reads\<close>

record job_file_status =
  js_index :: nat
  js_identifier :: str
  js_file_name :: str
  js_display_file_name :: str
  js_state :: file_state
  js_attempts :: nat
  js_error :: "str option"
  js_expected_size :: "nat option"
  js_page_count :: "nat option"

record job_status =
  jt_id :: str
  jt_state :: job_state
  jt_target :: "str option"
  jt_files :: "job_file_status list"
  jt_running :: bool

definition job_to_status :: "job \<Rightarrow> bool \<Rightarrow> job_status" where
  "job_to_status job running =
     \<lparr>jt_id = job_id job, jt_state = job_state job, jt_target = target_collection_id job,
      jt_files = map (\<lambda>(index, f). \<lparr>js_index = index, js_identifier = jf_identifier f,
        js_file_name = jf_file_name f,
        js_display_file_name = display_file_name (jf_file_name f) (jf_identifier f),
        js_state = jf_state f, js_attempts = jf_attempts f, js_error = jf_error f,
        js_expected_size = jf_expected_size f, js_page_count = jf_page_count f\<rparr>)
        (List.enumerate 0 (job_files job)),
      jt_running = running\<rparr>"

record job_summary =
  jy_id :: str
  jy_state :: job_state
  jy_target :: "str option"
  jy_total_files :: nat
  jy_verified_files :: nat

definition summary_of_job :: "job \<Rightarrow> job_summary" where
  "summary_of_job job =
     \<lparr>jy_id = job_id job, jy_state = job_state job, jy_target = target_collection_id job,
      jy_total_files = length (job_files job),
      jy_verified_files = length (filter (\<lambda>f. jf_state f = Verified) (job_files job))\<rparr>"

text \<open>The loadable jobs of the root, in the order of their names.\<close>

definition loadable_jobs :: "(str \<Rightarrow> node option) \<Rightarrow> store_root \<Rightarrow> job list" where
  "loadable_jobs linked tree =
     somes (map (\<lambda>jid. case load_job linked jid tree of Inl _ \<Rightarrow> None | Inr job \<Rightarrow> Some job)
       (sort (filter is_valid_job_id (jkeys tree))))"

definition list_jobs_logic :: "(str \<Rightarrow> node option) \<Rightarrow> store_root \<Rightarrow> job_summary list" where
  "list_jobs_logic linked tree =
     map summary_of_job (filter (\<lambda>job. \<not> job_is_terminal (job_state job)) (loadable_jobs linked tree))"

record verified_file =
  vf_index :: nat
  vf_identifier :: str
  vf_file_name :: str
  vf_display_file_name :: str
  vf_item_title :: str
  vf_staging_path :: "str \<times> str"
  vf_page_count :: nat
  vf_sha256 :: str
  vf_extra_metadata :: json

text \<open>What building a provenance value takes from outside the crate.\<close>

record provenance_env =
  pe_encoded_len :: "provenance_doc \<Rightarrow> nat option"
  pe_item_url :: "str \<Rightarrow> str option"
  pe_download_url :: "str \<Rightarrow> str \<Rightarrow> str option"

definition strip_pdf :: "str \<Rightarrow> str" where
  "strip_pdf name = (if ends_with (tx ''.pdf'') name then take (length name - 4) name else name)"

definition verified_file_entry ::
  "provenance_env \<Rightarrow> job \<Rightarrow> nat \<Rightarrow> job_file \<Rightarrow> nat \<Rightarrow> verified_file option" where
  "verified_file_entry pe job index file now =
     Option.bind (jf_staging_name file) (\<lambda>staging.
     Option.bind (opt_filter (\<lambda>h. trim h \<noteq> []) (jf_sha256 file)) (\<lambda>sha256.
     Option.bind (jf_page_count file) (\<lambda>pages.
     case staging_path (job_id job) staging of
       Inl _ \<Rightarrow> None
     | Inr dest \<Rightarrow>
         (let display = display_file_name (jf_file_name file) (jf_identifier file);
              title = unwrap_or (strip_pdf display)
                (Option.bind (job_item job (jf_identifier file)) sn_title)
          in case build_provenance (pe_encoded_len pe) (pe_item_url pe) (pe_download_url pe) file
               (job_item job (jf_identifier file)) now of
               Inl _ \<Rightarrow> None
             | Inr provenance \<Rightarrow>
                 Some \<lparr>vf_index = index, vf_identifier = jf_identifier file,
                   vf_file_name = jf_file_name file, vf_display_file_name = display,
                   vf_item_title = title, vf_staging_path = dest, vf_page_count = pages,
                   vf_sha256 = sha256, vf_extra_metadata = JObject [(provenance_key, provenance)]\<rparr>))))"

fun verified_entries ::
  "provenance_env \<Rightarrow> job \<Rightarrow> nat \<Rightarrow> nat \<Rightarrow> job_file list \<Rightarrow> verified_file list option" where
  "verified_entries pe job now index [] = Some []"
| "verified_entries pe job now index (f # fs) =
     (if jf_state f \<noteq> Verified then verified_entries pe job now (index + 1) fs
      else (case verified_file_entry pe job index f now of
              None \<Rightarrow> None
            | Some v \<Rightarrow> map_option ((#) v) (verified_entries pe job now (index + 1) fs)))"

definition verified_files_logic :: "provenance_env \<Rightarrow> job \<Rightarrow> nat \<Rightarrow> verified_file list option" where
  "verified_files_logic pe job now = verified_entries pe job now 0 (job_files job)"

section \<open>Properties\<close>

text \<open>
  Preparing an import never panics. When it fails nothing is stored. When it succeeds a new
  job is stored, which \<open>load_job\<close> reads back as a draft for the chosen collection: its files are
  exactly the requested files that Internet Archive offers, in the order asked, every other
  requested file is listed as rejected, nothing is counted as restricted, and no other job changes.
\<close>

theorem prepared_job_is_what_was_asked:
  assumes "is_valid_job_id uuid"
  shows "case prepare_import valid_id fetch open_provenance uuid now cid selections tree of
      None \<Rightarrow> False
    | Some (Inl _, tree') \<Rightarrow> tree' = tree
    | Some (Inr r, tree') \<Rightarrow> pz_job_id r = uuid \<and> jget tree uuid = None
        \<and> (\<exists>job. load_job linked uuid tree' = Inr job \<and> job_state job = Draft
            \<and> job_target job = ExistingCollection cid \<and> job_files job \<noteq> []
            \<and> job_files job = somes (map (offered_file fetch) (requested selections))
            \<and> ps_total_files (pz_summary r) = length (job_files job))
        \<and> ps_restricted_files (pz_summary r) = 0
        \<and> map (\<lambda>x. (rj_identifier x, rj_file_name x)) (pz_rejected r)
            = filter (\<lambda>q. offered_file fetch q = None) (requested selections)
        \<and> (\<forall>jid. jid = uuid \<or> load_job linked jid tree' = load_job linked jid tree)"
  using prepare_import_result [OF assms, of valid_id fetch open_provenance now cid selections tree]
proof (elim disjE exE conjE)
  fix r tree' job
  assume job: "prepare_import valid_id fetch open_provenance uuid now cid selections tree = Some (Inr r, tree')"
    "save_job job tree = (None, tree')" "job_id job = uuid" "job_schema job = job_schema_version"
    "pz_job_id r = uuid" "jget tree uuid = None" "job_state job = Draft"
    "job_target job = ExistingCollection cid"
    "job_files job = somes (map (offered_file fetch) (requested selections))" "job_files job \<noteq> []"
    "map (\<lambda>x. (rj_identifier x, rj_file_name x)) (pz_rejected r) =
       filter (\<lambda>q. offered_file fetch q = None) (requested selections)"
    "ps_total_files (pz_summary r) = length (job_files job)" "ps_restricted_files (pz_summary r) = 0"
  have "load_job linked uuid tree' = Inr job"
    using load_after_save [OF job(2)] job(3,4) by simp
  moreover have "jid = uuid \<or> load_job linked jid tree' = load_job linked jid tree" for jid
    using load_other_after_save [OF job(2)] job(3) by blast
  ultimately show ?thesis using job by auto
qed simp

text \<open>
  C18: the index that \<open>load_records\<close> reads in pieces of five hundred identifiers judges a
  requested file as if every row of the corpus had been read: the status is the specified one over
  all records with the identifier and the name of the file. The hypothesis states what SQLite's
  \<open>json_extract\<close> answers for metadata in which the crate finds a record.
\<close>

theorem preparation_sees_every_import:
  assumes agree: "\<And>row m r. row \<in> set (co_items db) \<Longrightarrow> ci_metadata row = Some m \<Longrightarrow>
      record_of_row from_str row = Some r \<Longrightarrow> extract m = Some (pr_identifier r)"
    and "identifier \<in> set identifiers"
  shows "classify candidate identifier target (find_records (load_records from_str extract db identifiers)) =
    classify_spec candidate target
      {r. \<exists>row \<in> set (co_items db). record_of_row from_str row = Some r
        \<and> pr_identifier r = identifier \<and> pr_file_name r = pdf_name candidate}"
proof -
  have "Option.bind (ci_metadata row) extract = Some (pr_identifier r)"
    if "row \<in> set (co_items db)" "record_of_row from_str row = Some r" for row r
    using that agree by (cases "ci_metadata row") (auto simp: record_of_row_def)
  then have "set (find_records (load_records from_str extract db identifiers) identifier (pdf_name candidate)) =
      {r. \<exists>row \<in> set (co_items db). record_of_row from_str row = Some r
        \<and> pr_identifier r = identifier \<and> pr_file_name r = pdf_name candidate}"
    using assms(2) by (fastforce simp: find_records_def set_load_records)
  then show ?thesis by (simp only: classify_is_spec)
qed

text \<open>Witnesses.\<close>

definition sample_details :: item_details where
  "sample_details = \<lparr>it_identifier = tx ''item'', it_title = None, it_creators = [], it_date = None,
     it_languages = [], it_collections = [], it_rights = None, it_license_url = None,
     it_mediatype = None, it_restricted = False, it_pdfs = [sample_pdf], it_truncated = False\<rparr>"

definition sample_selection :: selection where
  "sample_selection = \<lparr>sel_identifier = tx ''item'', sel_file_names = [tx ''a.pdf'']\<rparr>"

definition sample_row :: corpus_item where
  "sample_row = \<lparr>ci_id = tx ''i'', ci_collection = tx ''c'', ci_metadata = Some []\<rparr>"

lemma prepared_job_is_what_was_asked_witness:
  "case prepare_import (\<lambda>_. True) (\<lambda>_. Inr sample_details)
      (\<lambda>_. Some \<lparr>sp_collection_exists = True, sp_provenance = []\<rparr>) sample_id 5 (tx ''c'')
      [sample_selection] [] of
    None \<Rightarrow> False
  | Some (Inl _, tree') \<Rightarrow> False
  | Some (Inr r, tree') \<Rightarrow>
      (\<exists>job. load_job (\<lambda>_. None) sample_id tree' = Inr job \<and> job_files job = [sample_queued])"
proof -
  let ?f = "\<lambda>_::str. Inr sample_details :: ia_error + item_details"
  let ?p = "prepare_import (\<lambda>_. True) ?f (\<lambda>_. Some \<lparr>sp_collection_exists = True, sp_provenance = []\<rparr>)
      sample_id 5 (tx ''c'') [sample_selection] []"
  have req: "requested [sample_selection] = [(tx ''item'', tx ''a.pdf'')]"
    by (simp add: requested_def sample_selection_def)
  have pdf: "from_pdf (tx ''item'') sample_pdf = Inr sample_queued"
    by (simp add: from_pdf_def sample_pdf_def sample_queued_def sample_file_def)
  have off: "somes (map (offered_file ?f) (requested [sample_selection])) = [sample_queued]"
    using pdf by (simp add: req offered_file_def sample_details_def) (simp add: sample_pdf_def)
  have valid: "request_is_valid (\<lambda>_. True) [sample_selection]"
    using req
    by (simp add: request_is_valid_def max_prepare_selections_def max_prepare_files_def)
      (simp add: sample_selection_def)
  have files: "prepare_files [(tx ''item'', sample_details)] [(tx ''item'', tx ''a.pdf'')] no_files =
      Some (Inr \<lparr>pj_files = [sample_queued], pj_inputs = [(tx ''item'', sample_pdf)], pj_rejected = [],
        pj_items = [snapshot_of_details sample_details], pj_seen = [tx ''item'']\<rparr>)"
    using pdf by (simp add: prepare_file_def no_files_def sample_details_def) (simp add: sample_pdf_def)
  have ids: "first_seen [] (map sel_identifier [sample_selection]) = [tx ''item'']"
    by (simp add: sample_selection_def)
  let ?st = "\<lparr>pj_files = [sample_queued], pj_inputs = [(tx ''item'', sample_pdf)], pj_rejected = [],
        pj_items = [snapshot_of_details sample_details], pj_seen = [tx ''item'']\<rparr>"
  have step: "?p = Some (store_prepared sample_id 5 (tx ''c'') [] ?st [])"
    unfolding prepare_import_def ids req using valid files
    by (simp add: Let_def del: prepare_files.simps)
  have "\<exists>r t. ?p = Some (Inr r, t)"
    unfolding step
    using save_new_job [of "\<lparr>job_schema = job_schema_version, job_id = sample_id,
        job_created_at = 5, job_updated_at = 5, job_target = ExistingCollection (tx ''c''), job_state = Draft,
        job_files = [sample_queued], job_items = [snapshot_of_details sample_details]\<rparr>" "[]"] sample_id_valid
    by (auto simp: Let_def store_prepared_def new_job_def new_job_id_def create_job_result jget_def
        split: prod.split)
  then obtain r t where p: "?p = Some (Inr r, t)" by blast
  from prepared_job_is_what_was_asked [OF sample_id_valid, where valid_id = "\<lambda>_. True" and fetch = ?f
      and open_provenance = "\<lambda>_. Some \<lparr>sp_collection_exists = True, sp_provenance = []\<rparr>" and now = 5
      and cid = "tx ''c''" and selections = "[sample_selection]" and tree = "[]" and linked = "\<lambda>_. None"]
  show ?thesis by (simp only: p off option.case prod.case sum.case) blast
qed

lemma preparation_sees_every_import_witness:
  "\<exists>m r. from_row (\<lambda>_. Some (JObject m)) (tx ''i'') (tx ''c'') [] = Some r
     \<and> classify sample_pdf (tx ''item'') (ExistingCollection (tx ''c''))
         (find_records (load_records (\<lambda>_. Some (JObject m)) (\<lambda>_. Some (tx ''item''))
           \<lparr>co_collections = [tx ''c''], co_items = [sample_row], co_assets = []\<rparr> [tx ''item'']))
       = classify_spec sample_pdf (ExistingCollection (tx ''c'')) {r}"
proof -
  obtain d where b: "build_provenance sample_len (\<lambda>_. Some []) (\<lambda>_ _. Some []) sample_verified None 0 = Inr (doc_value d)"
    by (rule sample_provenance)
  let ?m = "[(provenance_key, doc_value d)]"
  have m: "jget ?m provenance_key = Some (doc_value d)" by (simp add: jget_def)
  obtain r where r: "from_row (\<lambda>_. Some (JObject ?m)) (tx ''i'') (tx ''c'') [] = Some r"
    "pr_identifier r = tx ''item''" "pr_file_name r = tx ''a.pdf''"
    using built_provenance_read_back [OF b, of "\<lambda>_. Some (JObject ?m)" "[]" ?m] m
    by (simp add: sample_verified_def sample_file_def u32_max_def)
  let ?db = "\<lparr>co_collections = [tx ''c''], co_items = [sample_row], co_assets = []\<rparr>"
  have row: "record_of_row (\<lambda>_. Some (JObject ?m)) sample_row = Some r"
    using r(1) by (simp add: record_of_row_def sample_row_def)
  have "classify sample_pdf (tx ''item'') (ExistingCollection (tx ''c''))
         (find_records (load_records (\<lambda>_. Some (JObject ?m)) (\<lambda>_. Some (tx ''item'')) ?db [tx ''item'']))
       = classify_spec sample_pdf (ExistingCollection (tx ''c''))
          {s. \<exists>row \<in> set (co_items ?db). record_of_row (\<lambda>_. Some (JObject ?m)) row = Some s
            \<and> pr_identifier s = tx ''item'' \<and> pr_file_name s = pdf_name sample_pdf}"
    by (rule preparation_sees_every_import) (use row r(2) in auto)
  moreover have "{s. \<exists>row \<in> set (co_items ?db). record_of_row (\<lambda>_. Some (JObject ?m)) row = Some s
            \<and> pr_identifier s = tx ''item'' \<and> pr_file_name s = pdf_name sample_pdf} = {r}"
    using row r by (auto simp: sample_pdf_def)
  ultimately show ?thesis using r(1) by (intro exI [of _ ?m] exI [of _ r]) simp
qed

end
