(* ===== verification/IaImport.thy ===== *)
theory IaImport
  imports IaCommands "HOL-Library.Multiset"
begin

text \<open>
  The hand-off of verified files to the frontend importer and its confirmation
  (\<open>internet_archive/import.rs\<close>): what the corpus already holds of a file, beginning, confirming and
  failing its import, and the recovery leftovers.

  The corpus is read at one point of each command, under the lock of the database; the job is read
  before and written after it, with other commands in between (\<open>re_others\<close> of the environment).
  Parameters: whether a query of the items or of the assets of an item fails, the identifier SQLite extracts
  from metadata, the JSON parser, and whether the file of an asset path exists.
\<close>

section \<open>What the corpus already holds\<close>

record import_env =
  ie_from_str :: "str \<Rightarrow> json option"
  ie_extract :: "str \<Rightarrow> str option"
  ie_on_disk :: "str \<Rightarrow> bool"
  ie_rows_fail :: bool
  ie_assets_fail :: "str \<Rightarrow> bool"

datatype existing = NothingThere | Whole str | Remnant str

definition parents_of :: "corpus \<Rightarrow> str \<Rightarrow> corpus_asset list" where
  "parents_of db item_id =
     filter (\<lambda>a. ca_item a = item_id \<and> ca_type a = tx ''pdf'' \<and> ca_parent a = None) (co_assets db)"

definition children_of :: "corpus \<Rightarrow> str \<Rightarrow> corpus_asset list" where
  "children_of db parent_id = filter (\<lambda>a. ca_parent a = Some parent_id) (co_assets db)"

text \<open>The loop over the children: the page numbers, unless one has none or its file is gone.\<close>

fun page_numbers :: "(str \<Rightarrow> bool) \<Rightarrow> corpus_asset list \<Rightarrow> int list option" where
  "page_numbers on_disk [] = Some []"
| "page_numbers on_disk (a # as) =
     (case ca_page a of
        None \<Rightarrow> None
      | Some page \<Rightarrow>
          if \<not> on_disk (ca_path a) then None else map_option ((#) page) (page_numbers on_disk as))"

definition whole_item :: "import_env \<Rightarrow> corpus \<Rightarrow> str \<Rightarrow> nat \<Rightarrow> bool" where
  "whole_item ie db item_id page_count =
     (case parents_of db item_id of
        [parent] \<Rightarrow>
          if \<not> ie_on_disk ie (ca_path parent) then False
          else if length (children_of db (ca_id parent)) \<noteq> page_count then False
          else (case page_numbers (ie_on_disk ie) (children_of db (ca_id parent)) of
                  None \<Rightarrow> False
                | Some pages \<Rightarrow> sort pages = [1..int page_count])
      | _ \<Rightarrow> False)"

definition is_complete :: "import_env \<Rightarrow> corpus \<Rightarrow> str \<Rightarrow> nat \<Rightarrow> bool option" where
  "is_complete ie db item_id page_count =
     (if ie_assets_fail ie item_id then None else Some (whole_item ie db item_id page_count))"

definition candidate_rows :: "import_env \<Rightarrow> corpus \<Rightarrow> str \<Rightarrow> str \<Rightarrow> corpus_item list" where
  "candidate_rows ie db cid identifier =
     sort_key ci_id (filter (\<lambda>r. ci_collection r = cid
       \<and> Option.bind (ci_metadata r) (ie_extract ie) = Some identifier) (co_items db))"

definition is_version :: "import_env \<Rightarrow> str \<Rightarrow> str \<Rightarrow> corpus_item \<Rightarrow> bool" where
  "is_version ie file_name sha256 row =
     (case record_of_row (ie_from_str ie) row of
        None \<Rightarrow> False
      | Some r \<Rightarrow> pr_file_name r = file_name \<and> pr_sha256_local r = Some sha256)"

text \<open>The loop over the rows with the first remnant seen so far.\<close>

fun scan_rows ::
  "import_env \<Rightarrow> corpus \<Rightarrow> str \<Rightarrow> str \<Rightarrow> nat \<Rightarrow> str option \<Rightarrow> corpus_item list \<Rightarrow> existing option" where
  "scan_rows ie db file_name sha256 page_count partial [] =
     Some (case partial of Some item_id \<Rightarrow> Remnant item_id | None \<Rightarrow> NothingThere)"
| "scan_rows ie db file_name sha256 page_count partial (row # rows) =
     (if \<not> is_version ie file_name sha256 row
      then scan_rows ie db file_name sha256 page_count partial rows
      else
        (case is_complete ie db (ci_id row) page_count of
           None \<Rightarrow> None
         | Some True \<Rightarrow> Some (Whole (ci_id row))
         | Some False \<Rightarrow> scan_rows ie db file_name sha256 page_count
             (if partial = None then Some (ci_id row) else partial) rows))"

definition existing_import ::
  "import_env \<Rightarrow> corpus \<Rightarrow> str \<Rightarrow> str \<Rightarrow> str \<Rightarrow> str \<Rightarrow> nat \<Rightarrow> existing option" where
  "existing_import ie db cid identifier file_name sha256 page_count =
     (if ie_rows_fail ie then None
      else scan_rows ie db file_name sha256 page_count None (candidate_rows ie db cid identifier))"

section \<open>Errors\<close>

text \<open>The strings of the code by their codes.\<close>

datatype import_error =
    ImportRun run_error
  | StagingMissing
  | NoTarget
  | NoHash
  | NoPageCount
  | DbError
  | NoEntry
  | ItemNotFound
  | WrongCollection
  | LostFingerprint
  | ProvenanceMismatch
  | IncompleteImport
  | PartialRemains

definition job_load_error :: "store_error \<Rightarrow> run_error" where
  "job_load_error e =
     (case e of JobNotFound _ \<Rightarrow> JobMissing | InvalidId _ \<Rightarrow> BadJobId | _ \<Rightarrow> LocalStorage)"

definition load_stored :: "run_env \<Rightarrow> str \<Rightarrow> run_world \<Rightarrow> (run_error + job) \<times> run_world" where
  "load_stored env jid w =
     (let w1 = tick env w in
      if re_load_fails env (rw_time w) then (Inl LocalStorage, w1)
      else (case load_job (re_linked env) jid (rw_tree w1) of
              Inl e \<Rightarrow> (Inl (job_load_error e), w1)
            | Inr job \<Rightarrow> (Inr job, w1)))"

definition hash_of :: "job_file \<Rightarrow> str option" where
  "hash_of file = opt_filter (\<lambda>h. trim h \<noteq> []) (jf_sha256 file)"

section \<open>Beginning an import\<close>

datatype begin_action = ImportFile verified_file | ConfirmExisting str | DiscardPartial str

definition staging_present :: "store_root \<Rightarrow> str \<Rightarrow> job_file \<Rightarrow> bool" where
  "staging_present tree jid file =
     (case jf_staging_name file of
        None \<Rightarrow> False
      | Some name \<Rightarrow>
          (case staging_path jid name of
             Inl _ \<Rightarrow> False
           | Inr (d, n) \<Rightarrow> (case node_at tree d n of Some (FileNode _) \<Rightarrow> True | _ \<Rightarrow> False)))"

definition importing_section :: "nat \<Rightarrow> nat \<Rightarrow> unit critical" where
  "importing_section index now job tree =
     (case get_at (job_files job) index of
        None \<Rightarrow> (Inl (WrongFileState index), tree)
      | Some file \<Rightarrow>
          if jf_state file \<noteq> Verified then (Inl (WrongFileState index), tree)
          else
            (case set_file_state index Importing now job of
               Inl _ \<Rightarrow> (Inl (WrongFileState index), tree)
             | Inr job' \<Rightarrow> (Inr ((), job'), tree)))"

definition begin_move ::
  "run_env \<Rightarrow> str \<Rightarrow> nat \<Rightarrow> nat \<Rightarrow> begin_action \<Rightarrow> run_world \<Rightarrow> (import_error + begin_action) \<times> run_world" where
  "begin_move env jid index now action w =
     (case notified (update env jid (importing_section index now) w) of
        (Inl e, w1) \<Rightarrow> (Inl (ImportRun e), w1)
      | (Inr _, w1) \<Rightarrow> (Inr action, w1))"

definition begin_file_import ::
  "run_env \<Rightarrow> import_env \<Rightarrow> provenance_env \<Rightarrow> corpus \<Rightarrow> str \<Rightarrow> nat \<Rightarrow> nat \<Rightarrow> run_world \<Rightarrow>
   (import_error + begin_action) \<times> run_world" where
  "begin_file_import env ie pe db jid index now w =
     (case load_stored env jid w of
        (Inl e, w1) \<Rightarrow> (Inl (ImportRun e), w1)
      | (Inr job, w1) \<Rightarrow>
          (case get_at (job_files job) index of
             None \<Rightarrow> (Inl (ImportRun (UnknownIndex index)), w1)
           | Some file \<Rightarrow>
               if jf_state file \<noteq> Verified then (Inl (ImportRun (WrongFileState index)), w1)
               else if \<not> staging_present (rw_tree w1) jid file then (Inl StagingMissing, w1)
               else
                 (case target_collection_id job of
                    None \<Rightarrow> (Inl NoTarget, w1)
                  | Some cid \<Rightarrow>
                      (case hash_of file of
                         None \<Rightarrow> (Inl NoHash, w1)
                       | Some sha256 \<Rightarrow>
                           (case jf_page_count file of
                              None \<Rightarrow> (Inl NoPageCount, w1)
                            | Some pages \<Rightarrow>
                                (case existing_import ie db cid (jf_identifier file) (jf_file_name file) sha256 pages of
                                   None \<Rightarrow> (Inl DbError, w1)
                                 | Some (Whole item_id) \<Rightarrow> begin_move env jid index now (ConfirmExisting item_id) w1
                                 | Some (Remnant item_id) \<Rightarrow> (Inr (DiscardPartial item_id), w1)
                                 | Some NothingThere \<Rightarrow>
                                     (case verified_file_entry pe job index file now of
                                        None \<Rightarrow> (Inl NoEntry, w1)
                                      | Some entry \<Rightarrow> begin_move env jid index now (ImportFile entry) w1)))))))"

section \<open>Confirming an import\<close>

text \<open>The errors of a validation; \<open>DbError\<close> is the infrastructure error.\<close>

definition validate_confirm ::
  "import_env \<Rightarrow> corpus \<Rightarrow> str \<Rightarrow> str \<Rightarrow> str \<Rightarrow> str option \<Rightarrow> nat option \<Rightarrow> str \<Rightarrow> import_error option" where
  "validate_confirm ie db cid identifier file_name sha256 page_count item_id =
     (if ie_rows_fail ie then Some DbError
      else
        (case find (\<lambda>r. ci_id r = item_id) (co_items db) of
           None \<Rightarrow> Some ItemNotFound
         | Some row \<Rightarrow>
             if ci_collection row \<noteq> cid then Some WrongCollection
             else
               (case (sha256, page_count) of
                  (Some hash, Some pages) \<Rightarrow>
                    (case record_of_row (ie_from_str ie) row of
                       None \<Rightarrow> Some ProvenanceMismatch
                     | Some r \<Rightarrow>
                         if \<not> (pr_identifier r = identifier \<and> pr_file_name r = file_name
                             \<and> pr_sha256_local r = Some hash)
                         then Some ProvenanceMismatch
                         else
                           (case is_complete ie db item_id pages of
                              None \<Rightarrow> Some DbError
                            | Some True \<Rightarrow> None
                            | Some False \<Rightarrow> Some IncompleteImport))
                | _ \<Rightarrow> Some LostFingerprint)))"

text \<open>The staging is dropped after the move; a leftover does not fail the confirmation.\<close>

definition drop_staging :: "str \<Rightarrow> str option \<Rightarrow> store_root \<Rightarrow> store_root" where
  "drop_staging jid staging tree =
     (case staging of None \<Rightarrow> tree | Some name \<Rightarrow> snd (delete_staging jid name tree))"

definition imported_section :: "str \<Rightarrow> nat \<Rightarrow> str \<Rightarrow> nat \<Rightarrow> unit critical" where
  "imported_section jid index item_id now job tree =
     (case get_at (job_files job) index of
        None \<Rightarrow> (Inl (WrongFileState index), tree)
      | Some file \<Rightarrow>
          if jf_state file \<noteq> Importing then (Inl (WrongFileState index), tree)
          else
            (case set_file_state index Imported now
                (update_file index (\<lambda>f. f\<lparr>jf_staging_name := None, jf_item_id := Some item_id, jf_error := None\<rparr>) job) of
               Inl _ \<Rightarrow> (Inl (WrongFileState index), tree)
             | Inr job' \<Rightarrow>
                 (Inr ((), snd (settle_job now job')), drop_staging jid (jf_staging_name file) tree)))"

definition revert_section :: "nat \<Rightarrow> nat \<Rightarrow> unit critical" where
  "revert_section index now job tree =
     (case get_at (job_files job) index of
        None \<Rightarrow> (Inr ((), job), tree)
      | Some file \<Rightarrow>
          if jf_state file \<noteq> Importing then (Inr ((), job), tree)
          else
            (case set_file_state index Verified now job of
               Inl _ \<Rightarrow> (Inl (WrongFileState index), tree)
             | Inr job' \<Rightarrow> (Inr ((), job'), tree)))"

definition confirm_file_imported ::
  "run_env \<Rightarrow> import_env \<Rightarrow> corpus \<Rightarrow> str \<Rightarrow> nat \<Rightarrow> str \<Rightarrow> nat \<Rightarrow> run_world \<Rightarrow>
   import_error option \<times> run_world" where
  "confirm_file_imported env ie db jid index item_id now w =
     (case load_stored env jid w of
        (Inl e, w1) \<Rightarrow> (Some (ImportRun e), w1)
      | (Inr job, w1) \<Rightarrow>
          (case get_at (job_files job) index of
             None \<Rightarrow> (Some (ImportRun (UnknownIndex index)), w1)
           | Some file \<Rightarrow>
               if jf_state file \<noteq> Importing then (Some (ImportRun (WrongFileState index)), w1)
               else
                 (case target_collection_id job of
                    None \<Rightarrow> (Some NoTarget, w1)
                  | Some cid \<Rightarrow>
                      (case validate_confirm ie db cid (jf_identifier file) (jf_file_name file)
                          (hash_of file) (jf_page_count file) item_id of
                         None \<Rightarrow>
                           (case notified (update env jid (imported_section jid index item_id now) w1) of
                              (Inl e, w2) \<Rightarrow> (Some (ImportRun e), w2)
                            | (Inr _, w2) \<Rightarrow> (None, w2))
                       | Some DbError \<Rightarrow> (Some DbError, w1)
                       | Some code \<Rightarrow>
                           (case notified (update env jid (revert_section index now) w1) of
                              (Inl e, w2) \<Rightarrow> (Some (ImportRun e), w2)
                            | (Inr _, w2) \<Rightarrow> (Some code, w2))))))"

definition failed_section :: "str \<Rightarrow> nat \<Rightarrow> nat \<Rightarrow> unit critical" where
  "failed_section jid index now job tree =
     (case get_at (job_files job) index of
        None \<Rightarrow> (Inl (UnknownIndex index), tree)
      | Some file \<Rightarrow>
          if jf_state file \<noteq> Importing then (Inl (WrongFileState index), tree)
          else
            (case set_file_state index FileFailed now
                (update_file index (\<lambda>f. f\<lparr>jf_staging_name := None, jf_error := Some (tx ''import_failed'')\<rparr>) job) of
               Inl _ \<Rightarrow> (Inl (WrongFileState index), tree)
             | Inr job' \<Rightarrow>
                 (Inr ((), snd (settle_job now job')), drop_staging jid (jf_staging_name file) tree)))"

definition fail_file_import ::
  "run_env \<Rightarrow> str \<Rightarrow> nat \<Rightarrow> nat \<Rightarrow> run_world \<Rightarrow> run_error option \<times> run_world" where
  "fail_file_import env jid index now w =
     (case notified (update env jid (failed_section jid index now) w) of
        (Inl e, w1) \<Rightarrow> (Some e, w1)
      | (Inr _, w1) \<Rightarrow> (None, w1))"

section \<open>The hand-off beside a run\<close>

text \<open>
  What a run needs of the commands that interleave with it: the sections of the hand-off and of a
  cancel keep \<open>run_kept\<close>. A confirmation, which writes the item of its file, is one of them.
\<close>

lemma run_kept_settled: "run_kept job job' \<Longrightarrow> run_kept job (snd (settle_job now job'))"
  by (rule run_kept_trans [OF _ runner_step_kept [OF runner_step.settle]])

lemma run_kept_move:
  assumes "set_file_state i to now (update_file i g job) = Inr job'" and "to \<noteq> Queued" and "\<And>f. remote_of (g f) = remote_of f"
  shows "run_kept job job'"
proof -
  have job': "job' = (update_file i (\<lambda>f. f\<lparr>jf_state := to\<rparr>) (update_file i g job))\<lparr>job_updated_at := now\<rparr>"
    using assms(1) by (simp add: set_file_state_Inr_iff)
  have "file_kept f ((g f)\<lparr>jf_state := to\<rparr>)" for f
    using assms(2,3) by (simp add: file_kept_def remote_of_def)
  then have "list_all2 file_kept (job_files job) (job_files job')"
    unfolding job' by (cases "i < length (job_files job)") (auto intro!: file_kept_update simp: list.rel_refl)
  then show ?thesis by (intro run_keptI) (auto simp: job' update_file_def stopped_def)
qed

lemma update_file_same: "update_file i (\<lambda>f. f) job = job"
  by (simp add: update_file_def)

lemma import_sections_keep_run:
  "section_keeps run_kept (importing_section index now)"
  "section_keeps run_kept (imported_section jid index item_id now)"
  "section_keeps run_kept (revert_section index now)"
  "section_keeps run_kept (failed_section jid index now)"
proof -
  have move: "run_kept job job'" if "set_file_state i to now job = Inr job'" "to \<noteq> Queued" for i to now job job'
    using run_kept_move [of i to now "\<lambda>f. f" job job'] that by (simp add: update_file_same)
  show "section_keeps run_kept (importing_section index now)" "section_keeps run_kept (revert_section index now)"
    by (auto simp: section_keeps_def importing_section_def revert_section_def run_kept_refl move
        split: option.split sum.split)
  show "section_keeps run_kept (imported_section jid index item_id now)" "section_keeps run_kept (failed_section jid index now)"
    by (auto simp: section_keeps_def imported_section_def failed_section_def remote_of_def
        intro!: run_kept_settled run_kept_move split: option.split sum.split)
qed

section \<open>Recovery leftovers\<close>

datatype reconcile_action = Keep str | Discard str | NoAction

record reconcile_entry_dto =
  rd_job_id :: str
  rd_index :: nat
  rd_identifier :: str
  rd_file_name :: str
  rd_action :: reconcile_action

record durable_entry =
  de_job_id :: str
  de_index :: nat
  de_identifier :: str
  de_file_name :: str
  de_collection :: "str option"
  de_sha256 :: "str option"
  de_page_count :: "nat option"
  de_staging_name :: str

definition durable_of :: "job \<Rightarrow> nat \<times> job_file \<Rightarrow> durable_entry option" where
  "durable_of job entry =
     (case entry of (index, file) \<Rightarrow>
        if jf_state file \<noteq> FileCancelled then None
        else map_option (\<lambda>staging.
          \<lparr>de_job_id = job_id job, de_index = index, de_identifier = jf_identifier file,
           de_file_name = jf_file_name file, de_collection = target_collection_id job,
           de_sha256 = hash_of file, de_page_count = jf_page_count file, de_staging_name = staging\<rparr>)
          (jf_staging_name file))"

text \<open>The loadable jobs in the order of their identifiers.\<close>

definition durable_entries :: "(str \<Rightarrow> node option) \<Rightarrow> store_root \<Rightarrow> durable_entry list" where
  "durable_entries linked tree =
     concat (map (\<lambda>jid. case load_job linked jid tree of
         Inl _ \<Rightarrow> []
       | Inr job \<Rightarrow> somes (map (durable_of job) (List.enumerate 0 (job_files job))))
       (sort (filter is_valid_job_id (jkeys tree))))"

definition classify_durable :: "import_env \<Rightarrow> corpus \<Rightarrow> durable_entry \<Rightarrow> existing option" where
  "classify_durable ie db e =
     (case (de_collection e, de_sha256 e, de_page_count e) of
        (Some cid, Some sha256, Some pages) \<Rightarrow>
          existing_import ie db cid (de_identifier e) (de_file_name e) sha256 pages
      | _ \<Rightarrow> Some NothingThere)"

definition reconcile_dto :: "durable_entry \<Rightarrow> existing \<Rightarrow> reconcile_entry_dto" where
  "reconcile_dto e x =
     \<lparr>rd_job_id = de_job_id e, rd_index = de_index e, rd_identifier = de_identifier e,
      rd_file_name = de_file_name e,
      rd_action = (case x of Whole i \<Rightarrow> Keep i | Remnant i \<Rightarrow> Discard i | NothingThere \<Rightarrow> NoAction)\<rparr>"

fun reconcile_dtos :: "import_env \<Rightarrow> corpus \<Rightarrow> durable_entry list \<Rightarrow> reconcile_entry_dto list option" where
  "reconcile_dtos ie db [] = Some []"
| "reconcile_dtos ie db (e # es) =
     (case classify_durable ie db e of
        None \<Rightarrow> None
      | Some x \<Rightarrow> map_option ((#) (reconcile_dto e x)) (reconcile_dtos ie db es))"

definition list_reconcile ::
  "run_env \<Rightarrow> import_env \<Rightarrow> corpus \<Rightarrow> run_world \<Rightarrow>
   (import_error + reconcile_entry_dto list) \<times> run_world" where
  "list_reconcile env ie db w =
     (let w1 = tick env w in
      if re_load_fails env (rw_time w) then (Inl (ImportRun LocalStorage), w1)
      else (case reconcile_dtos ie db (durable_entries (re_linked env) (rw_tree w1)) of
              None \<Rightarrow> (Inl DbError, w1)
            | Some dtos \<Rightarrow> (Inr dtos, w1)))"

definition delete_reconcile_staging :: "str \<Rightarrow> str \<Rightarrow> store_root \<Rightarrow> store_root" where
  "delete_reconcile_staging = delete_dest_and_partial"

definition release_section :: "nat \<Rightarrow> str \<Rightarrow> unit critical" where
  "release_section index staging job tree =
     (case get_at (job_files job) index of
        None \<Rightarrow> (Inl ReconcileMissing, tree)
      | Some file \<Rightarrow>
          if jf_state file \<noteq> FileCancelled \<or> jf_staging_name file \<noteq> Some staging
          then (Inl ReconcileMissing, tree)
          else (Inr ((), update_file index (\<lambda>f. f\<lparr>jf_staging_name := None\<rparr>) job), tree))"

definition finish_reconcile ::
  "run_env \<Rightarrow> import_env \<Rightarrow> corpus \<Rightarrow> str \<Rightarrow> nat \<Rightarrow> run_world \<Rightarrow> import_error option \<times> run_world" where
  "finish_reconcile env ie db jid index w =
     (case load_stored env jid w of
        (Inl _, w1) \<Rightarrow> (Some (ImportRun ReconcileMissing), w1)
      | (Inr job, w1) \<Rightarrow>
          (case Option.bind (get_at (job_files job) index) (\<lambda>file. durable_of job (index, file)) of
             None \<Rightarrow> (Some (ImportRun ReconcileMissing), w1)
           | Some entry \<Rightarrow>
               (case classify_durable ie db entry of
                  None \<Rightarrow> (Some DbError, w1)
                | Some (Remnant _) \<Rightarrow> (Some PartialRemains, w1)
                | Some _ \<Rightarrow>
                    (case update env jid (release_section index (de_staging_name entry)) w1 of
                       (Inl e, w2) \<Rightarrow> (Some (ImportRun e), w2)
                     | (Inr _, w2) \<Rightarrow>
                         (None, w2\<lparr>rw_tree :=
                            delete_reconcile_staging jid (de_staging_name entry) (rw_tree w2)\<rparr>)))))"

section \<open>A whole import\<close>

lemma page_numbers_Some:
  "page_numbers on_disk cs = Some pages \<longleftrightarrow>
     map ca_page cs = map Some pages \<and> (\<forall>c \<in> set cs. on_disk (ca_path c))"
  by (induction cs arbitrary: pages) (auto split: option.splits)

text \<open>
  The specification of a whole import: one parent PDF on disk, and children on disk that carry
  each page from the first to the last exactly once.
\<close>

definition whole_import :: "(str \<Rightarrow> bool) \<Rightarrow> corpus \<Rightarrow> str \<Rightarrow> nat \<Rightarrow> bool" where
  "whole_import on_disk db item_id n \<longleftrightarrow>
     (\<exists>parent. parents_of db item_id = [parent] \<and> on_disk (ca_path parent)
        \<and> (\<forall>c \<in> set (children_of db (ca_id parent)). on_disk (ca_path c))
        \<and> mset (map ca_page (children_of db (ca_id parent))) = mset (map Some [1..int n]))"

lemma sorted_pages_iff: "sort pages = [1..int n] \<longleftrightarrow> mset pages = mset [1..int n]"
  by (metis mset_sort sorted_sort_id sorted_upto sorted_list_of_multiset_mset)

lemma mset_map_Some: "mset xs = mset (map Some ys) \<longleftrightarrow> (\<exists>zs. xs = map Some zs \<and> mset zs = mset ys)"
proof
  assume m: "mset xs = mset (map Some ys)"
  have "set xs = Some ` set ys" using mset_eq_setD [OF m] by simp
  then have "map (\<lambda>x. Some (the x)) xs = xs" by (intro map_idI) auto
  then have "xs = map Some (map the xs)" by (simp add: comp_def)
  moreover have "mset (map the xs) = mset ys"
    using arg_cong [OF m, of "image_mset the"] by (simp add: image_mset.compositionality comp_def)
  ultimately show "\<exists>zs. xs = map Some zs \<and> mset zs = mset ys" by blast
qed auto

lemma whole_item_iff: "whole_item ie db item_id n \<longleftrightarrow> whole_import (ie_on_disk ie) db item_id n"
proof (cases "parents_of db item_id")
  case (Cons parent rest)
  let ?cs = "children_of db (ca_id parent)"
  have len: "length ?cs = n" if "map ca_page ?cs = map Some pages" "mset pages = mset [1..int n]" for pages
    using arg_cong [OF that(1), of length] mset_eq_length [OF that(2)] by simp
  show ?thesis
  proof (cases "page_numbers (ie_on_disk ie) ?cs")
    case None
    then have "\<not> (map ca_page ?cs = map Some pages \<and> (\<forall>c \<in> set ?cs. ie_on_disk ie (ca_path c)))" for pages
      by (metis option.distinct(1) page_numbers_Some)
    with None Cons show ?thesis
      by (auto simp: whole_item_def whole_import_def mset_map_Some simp del: mset_map split: list.split)
  next
    case (Some pages)
    then have "map ca_page ?cs = map Some pages" "\<forall>c \<in> set ?cs. ie_on_disk ie (ca_path c)"
      by (simp_all add: page_numbers_Some)
    moreover from this len have "mset pages = mset [1..int n] \<Longrightarrow> length ?cs = n" by blast
    ultimately show ?thesis using Some Cons
      by (auto simp: whole_item_def whole_import_def mset_map_Some sorted_pages_iff inj_map_eq_map simp del: mset_map split: list.split)
  qed
qed (simp add: whole_item_def whole_import_def)

section \<open>The scan finds the lowest item\<close>

lemma scan_rows_find:
  assumes "\<And>i. \<not> ie_assets_fail ie i"
  shows "scan_rows ie db file_name sha256 n partial rows = Some
    (case find (\<lambda>r. is_version ie file_name sha256 r \<and> whole_item ie db (ci_id r) n) rows of
       Some r \<Rightarrow> Whole (ci_id r)
     | None \<Rightarrow>
        (case partial of Some i \<Rightarrow> Remnant i
         | None \<Rightarrow> (case find (is_version ie file_name sha256) rows of Some r \<Rightarrow> Remnant (ci_id r) | None \<Rightarrow> NothingThere)))"
  using assms
  by (induction rows arbitrary: partial) (auto simp: is_complete_def split: option.split)

lemma find_sorted_ids:
  "(case find P (sort_key ci_id rows) of Some r \<Rightarrow> f (ci_id r) | None \<Rightarrow> d) =
     (let A = ci_id ` {r \<in> set rows. P r} in if A = {} then d else f (Min A))"
proof (cases "find P (sort_key ci_id rows)")
  case (Some r)
  with find_sorted_Min [OF Some] show ?thesis by (auto simp: Let_def)
next
  case None
  with find_sorted_None [THEN iffD1, OF None] show ?thesis by (simp only: Let_def option.case image_empty simp_thms if_True)
qed

lemma if_unequal: "(if a \<noteq> b then x else y) = (if a = b then y else x)"
  by simp

text \<open>The rows a confirmation can accept, and those it finds incomplete.\<close>

lemma find_row:
  assumes "distinct (map ci_id rows)" and "row \<in> set rows"
  shows "find (\<lambda>r. ci_id r = ci_id row) rows = Some row"
  using assms by (induction rows) (auto simp: rev_image_eqI)

lemma validated_ids:
  assumes "distinct (map ci_id (co_items db))" and "\<not> ie_rows_fail ie" and "\<And>i. \<not> ie_assets_fail ie i"
    and "e = (if whole then None else Some IncompleteImport)"
  shows "{i. validate_confirm ie db cid identifier file_name (Some sha256) (Some n) i = e} =
    ci_id ` {row \<in> set (co_items db). ci_collection row = cid \<and> is_version ie file_name sha256 row
      \<and> map_option pr_identifier (record_of_row (ie_from_str ie) row) = Some identifier
      \<and> whole_item ie db (ci_id row) n = whole}" (is "?A = ci_id ` ?R")
proof (intro set_eqI iffI)
  fix i
  assume "i \<in> ?A"
  then obtain row where f: "find (\<lambda>r. ci_id r = i) (co_items db) = Some row"
    and v: "validate_confirm ie db cid identifier file_name (Some sha256) (Some n) i = e"
    using assms(2,4) by (cases "find (\<lambda>r. ci_id r = i) (co_items db)") (auto simp: validate_confirm_def split: if_splits)
  from f have "row \<in> set (co_items db)" "ci_id row = i" by (auto simp: find_Some_iff)
  with f v assms(2-4) show "i \<in> ci_id ` ?R"
    by (intro image_eqI [of _ _ row])
      (auto simp: validate_confirm_def is_version_def is_complete_def split: if_splits option.splits bool.splits)
next
  fix i
  assume "i \<in> ci_id ` ?R"
  then obtain row where r: "row \<in> ?R" "i = ci_id row" by blast
  with find_row [OF assms(1)] have "find (\<lambda>r. ci_id r = i) (co_items db) = Some row" by simp
  with r assms(2-4) show "i \<in> ?A"
    by (auto simp: validate_confirm_def is_version_def is_complete_def split: option.splits)
qed

section \<open>Properties\<close>

text \<open>
  Beginning and confirming an import judge the corpus alike. What \<open>existing_import\<close> answers is
  determined by what \<open>validate_confirm\<close> says of each item: the lowest item it accepts is the whole
  import, else the lowest item it calls incomplete is the remnant, else nothing is there. So an
  import that is whole is confirmed when begun again, and a remnant is never taken for an import.
\<close>

theorem begin_and_confirm_agree:
  assumes "distinct (map ci_id (co_items db))" and "\<not> ie_rows_fail ie" and "\<And>i. \<not> ie_assets_fail ie i"
    and agree: "\<And>row m r. row \<in> set (co_items db) \<Longrightarrow> ci_metadata row = Some m \<Longrightarrow>
      record_of_row (ie_from_str ie) row = Some r \<Longrightarrow> ie_extract ie m = Some (pr_identifier r)"
  shows "existing_import ie db cid identifier file_name sha256 n =
    (let says = (\<lambda>e. {i. validate_confirm ie db cid identifier file_name (Some sha256) (Some n) i = e})
     in Some (if says None \<noteq> {} then Whole (Min (says None))
              else if says (Some IncompleteImport) \<noteq> {} then Remnant (Min (says (Some IncompleteImport)))
              else NothingThere))"
proof -
  let ?rows = "filter (\<lambda>r. ci_collection r = cid
       \<and> Option.bind (ci_metadata r) (ie_extract ie) = Some identifier) (co_items db)"
  let ?V = "\<lambda>r. is_version ie file_name sha256 r"
  let ?W = "\<lambda>r. whole_item ie db (ci_id r) n"
  let ?id = "\<lambda>row. map_option pr_identifier (record_of_row (ie_from_str ie) row) = Some identifier"
  have named: "Option.bind (ci_metadata row) (ie_extract ie) = Some identifier \<longleftrightarrow> ?id row"
    if "row \<in> set (co_items db)" "?V row" for row
    using that agree [of row] by (cases "ci_metadata row") (auto simp: is_version_def record_of_row_def split: option.splits)
  have whole: "ci_id ` {r \<in> set ?rows. ?V r \<and> ?W r} =
      {i. validate_confirm ie db cid identifier file_name (Some sha256) (Some n) i = None}" (is "?w = ?says")
    using validated_ids [OF assms(1-3), of None True] named by auto
  have remnant: "ci_id ` {r \<in> set ?rows. ?V r} = ?says \<union>
      {i. validate_confirm ie db cid identifier file_name (Some sha256) (Some n) i = Some IncompleteImport}"
    using validated_ids [OF assms(1-3), of None True] validated_ids [OF assms(1-3), of "Some IncompleteImport" False]
      named by auto
  have "existing_import ie db cid identifier file_name sha256 n = Some
      (case find (\<lambda>r. ?V r \<and> ?W r) (sort_key ci_id ?rows) of
         Some r \<Rightarrow> Whole (ci_id r)
       | None \<Rightarrow> (case find ?V (sort_key ci_id ?rows) of Some r \<Rightarrow> Remnant (ci_id r) | None \<Rightarrow> NothingThere))"
    using scan_rows_find [OF assms(3), of db file_name sha256 n None "sort_key ci_id ?rows"]
    by (simp only: existing_import_def candidate_rows_def assms(2) if_False option.case)
  then show ?thesis
    unfolding find_sorted_ids whole remnant Let_def
    by (cases "?says = {}") (simp_all only: Un_empty_left simp_thms if_unequal if_True if_False)
qed

text \<open>
  C31: a confirmation that succeeds is justified. The file was being imported, the item it names
  sits in the target collection of the job and carries the identifier, the name and the hash of the
  file, and it is whole: one parent PDF on disk and each page of the file exactly once, on disk.
  Afterwards the stored file is imported as that item and names no staging any more.
\<close>

theorem confirmed_import_is_whole:
  assumes "confirm_file_imported env ie db jid index item_id now w = (None, w')"
  shows "\<exists>job file pages job' file' row r.
      load_job (re_linked env) jid (rw_tree (tick env w)) = Inr job
    \<and> get_at (job_files job) index = Some file \<and> jf_state file = Importing
    \<and> row \<in> set (co_items db) \<and> ci_id row = item_id
    \<and> job_target job = ExistingCollection (ci_collection row)
    \<and> record_of_row (ie_from_str ie) row = Some r \<and> pr_identifier r = jf_identifier file
    \<and> pr_file_name r = jf_file_name file \<and> pr_sha256_local r = jf_sha256 file
    \<and> jf_page_count file = Some pages \<and> whole_import (ie_on_disk ie) db item_id pages
    \<and> load_job (re_linked env) (job_id job') (rw_tree w') = Inr job'
    \<and> get_at (job_files job') index = Some file' \<and> jf_state file' = Imported
    \<and> jf_item_id file' = Some item_id \<and> jf_staging_name file' = None"
proof -
  obtain x w1 where l: "load_stored env jid w = (x, w1)" by fastforce
  with assms obtain job f cid where job: "x = Inr job" "get_at (job_files job) index = Some f"
    "jf_state f = Importing" "target_collection_id job = Some cid"
    and v: "validate_confirm ie db cid (jf_identifier f) (jf_file_name f) (hash_of f)
       (jf_page_count f) item_id = None"
    and u: "\<exists>r. notified (update env jid (imported_section jid index item_id now) w1) = (Inr r, w')"
    by (auto simp: confirm_file_imported_def split: sum.splits option.splits if_splits import_error.splits prod.splits)
  have load: "load_job (re_linked env) jid (rw_tree (tick env w)) = Inr job"
    using l job(1) by (auto simp: load_stored_def Let_def split: if_splits sum.splits)
  have target: "job_target job = ExistingCollection cid"
    using job(4) by (auto simp: target_collection_id_def split: import_target.splits)
  obtain row where "find (\<lambda>r. ci_id r = item_id) (co_items db) = Some row"
    using v by (cases "find (\<lambda>r. ci_id r = item_id) (co_items db)") (auto simp: validate_confirm_def split: if_splits)
  moreover from this have "row \<in> set (co_items db)" "ci_id row = item_id" by (auto simp: find_Some_iff)
  ultimately obtain r hash pages where row: "row \<in> set (co_items db)" "ci_id row = item_id" "ci_collection row = cid"
    "record_of_row (ie_from_str ie) row = Some r" "pr_identifier r = jf_identifier f"
    "pr_file_name r = jf_file_name f" "pr_sha256_local r = Some hash" "hash_of f = Some hash"
    "jf_page_count f = Some pages" "whole_item ie db item_id pages"
    using v by (auto simp: validate_confirm_def is_complete_def split: if_splits option.splits bool.splits)
  have hash: "jf_sha256 f = Some hash" using row(8) by (simp add: hash_of_def)
  obtain job' w2 where upd: "update env jid (imported_section jid index item_id now) w1 = (Inr ((), job'), w2)"
    "rw_tree w' = rw_tree w2"
    using u by (auto simp: notified_def on_update_def split: sum.splits prod.splits)
  obtain job1 tree where now: "load_job (re_linked env) jid (rw_tree (tick env w1)) = Inr job1"
    "imported_section jid index item_id now job1 (rw_tree (tick env w1)) = (Inr ((), job'), tree)"
    "save_job job' tree = (None, rw_tree w2)"
    using update_Inr [OF upd(1)] by blast
  have after: "\<exists>f. get_at (job_files job') index = Some f \<and> jf_state f = Imported
      \<and> jf_item_id f = Some item_id \<and> jf_staging_name f = None" "job_schema job' = job_schema job1"
    using now(2) by (auto simp: imported_section_def get_at_def set_file_state_Inr_iff settle_job_def Let_def
        update_file_def split: option.splits if_splits sum.splits)
  have "load_job (re_linked env) (job_id job') (rw_tree w') = Inr job'"
    using load_after_save [OF now(3)] load_schema [OF now(1)] after(2) upd(2) by simp
  with load job(2,3) target row hash after(1) show ?thesis
    by (metis whole_item_iff)
qed

text \<open>
  A file that finishes its import while its job is being cancelled leaves the job cancelling. The
  confirmation settles the job, which is about running jobs only; \<open>finish_cancel_if_idle\<close>, which would
  end the job now that nothing is busy, is not called.
\<close>

lemma confirmed_job_stays_cancelling:
  assumes "imported_section jid index item_id now job tree = (Inr ((), job'), tree')"
    and "job_state job = Cancelling"
    and "\<And>i. i < length (job_files job) \<Longrightarrow> i \<noteq> index \<Longrightarrow> file_is_terminal (jf_state (job_files job ! i))"
  shows "job_state job' = Cancelling" and "list_all (\<lambda>f. file_is_terminal (jf_state f)) (job_files job')"
    and "job_state (snd (finish_cancel_if_idle later job')) = JobCancelled"
proof -
  have j: "index < length (job_files job)" "job_state job' = Cancelling"
    "job_files job' = (job_files job)[index := (job_files job ! index)\<lparr>jf_staging_name := None,
        jf_item_id := Some item_id, jf_error := None, jf_state := Imported\<rparr>]"
    using assms(1,2) by (auto simp: imported_section_def get_at_def set_file_state_Inr_iff settle_job_def Let_def
        update_file_def split: option.splits if_splits sum.splits)
  then show "job_state job' = Cancelling" by simp
  show t: "list_all (\<lambda>f. file_is_terminal (jf_state f)) (job_files job')"
    using assms(3) j by (auto simp: list_all_length nth_list_update)
  show "job_state (snd (finish_cancel_if_idle later job')) = JobCancelled"
    using t terminal_not_busy j(2) by (auto simp: finish_cancel_if_idle_def list_ex_iff list_all_iff)
qed

text \<open>Witnesses: an item with three pages, imported from a file with that provenance.\<close>

definition sample_asset :: "string \<Rightarrow> string option \<Rightarrow> int option \<Rightarrow> corpus_asset" where
  "sample_asset name parent page =
     \<lparr>ca_id = tx name, ca_item = tx ''i'', ca_path = tx name,
      ca_type = (if parent = None then tx ''pdf'' else tx ''image''),
      ca_parent = map_option tx parent, ca_page = page\<rparr>"

definition sample_corpus :: corpus where
  "sample_corpus = \<lparr>co_collections = [tx ''c''], co_items = [sample_row],
     co_assets = [sample_asset ''p'' None None, sample_asset ''p2'' (Some ''p'') (Some 2),
       sample_asset ''p1'' (Some ''p'') (Some 1), sample_asset ''p3'' (Some ''p'') (Some 3)]\<rparr>"

definition sample_import :: "(str \<times> json) list \<Rightarrow> import_env" where
  "sample_import m = \<lparr>ie_from_str = (\<lambda>_. Some (JObject m)), ie_extract = (\<lambda>_. Some (tx ''item'')),
     ie_on_disk = (\<lambda>_. True), ie_rows_fail = False, ie_assets_fail = (\<lambda>_. False)\<rparr>"

definition importing_job :: job where
  "importing_job = stored_job Running [sample_verified\<lparr>jf_state := Importing, jf_staging_name := Some sample_staging\<rparr>]"

definition importing_world :: run_world where
  "importing_world = \<lparr>rw_tree = [(sample_id, Folder [(job_json, FileNode (JobText importing_job))])],
     rw_time = 0, rw_seen = [], rw_waits = []\<rparr>"

lemma sample_whole: "whole_item (sample_import m) sample_corpus (tx ''i'') 3"
  by code_simp

lemma sample_record:
  obtains m r where "record_of_row (\<lambda>_. Some (JObject m)) sample_row = Some r" "pr_identifier r = tx ''item''"
    "pr_file_name r = tx ''a.pdf''" "pr_sha256_local r = Some (tx ''00ff'')"
proof -
  obtain d where b: "build_provenance sample_len (\<lambda>_. Some []) (\<lambda>_ _. Some []) sample_verified None 0 = Inr (doc_value d)"
    by (rule sample_provenance)
  let ?m = "[(provenance_key, doc_value d)]"
  have m: "jget ?m provenance_key = Some (doc_value d)" by (simp add: jget_def)
  show ?thesis
    using built_provenance_read_back [OF b, of "\<lambda>_. Some (JObject ?m)" "[]" ?m] m
    by (intro that [of ?m]) (auto simp: sample_verified_def sample_file_def u32_max_def record_of_row_def sample_row_def)
qed

lemma update_succeeds:
  "read_stored env jid w = (Inr job, w1) \<Longrightarrow> f job (rw_tree w1) = (Inr (r, job'), tree) \<Longrightarrow>
     \<not> re_save_fails env (rw_time w) \<Longrightarrow> fst (save_job job' tree) = None \<Longrightarrow>
     \<exists>w'. update env jid f w = (Inr (r, job'), w')"
  by (auto simp: update_def write_stored_def split: prod.splits option.splits)

lemma confirmed_import_is_whole_witness:
  "\<exists>m w' job' file'. confirm_file_imported sample_env (sample_import m) sample_corpus sample_id 0 (tx ''i'') 7 importing_world = (None, w')
     \<and> load_job (\<lambda>_. None) (job_id job') (rw_tree w') = Inr job'
     \<and> get_at (job_files job') 0 = Some file' \<and> jf_state file' = Imported"
proof -
  obtain m r where r: "record_of_row (\<lambda>_. Some (JObject m)) sample_row = Some r" "pr_identifier r = tx ''item''"
    "pr_file_name r = tx ''a.pdf''" "pr_sha256_local r = Some (tx ''00ff'')" by (rule sample_record)
  let ?g = "sample_verified\<lparr>jf_state := Importing, jf_staging_name := Some sample_staging\<rparr>"
  let ?w1 = "importing_world\<lparr>rw_time := 1\<rparr>"
  have job: "job_files importing_job = [?g]" "job_target importing_job = ExistingCollection (tx ''c'')"
    "job_id importing_job = sample_id" "job_state importing_job = Running" "job_schema importing_job = 1"
    by (simp_all add: importing_job_def stored_job_def sample_job_def)
  have load: "load_job (re_linked sample_env) sample_id (rw_tree importing_world) = Inr importing_job"
    using sample_id_valid job
    by (simp add: load_job_def check_job_id_def importing_world_def jget_def read_job_def job_schema_version_def)
  have stored: "load_stored sample_env sample_id importing_world = (Inr importing_job, ?w1)"
    using load by (simp add: load_stored_def tick_def sample_env_def importing_world_def)
  have valid: "validate_confirm (sample_import m) sample_corpus (tx ''c'') (jf_identifier ?g) (jf_file_name ?g)
      (hash_of ?g) (jf_page_count ?g) (tx ''i'') = None"
  proof -
    have "hash_of ?g = Some (tx ''00ff'')" "jf_page_count ?g = Some 3"
      using sample_trim by (simp_all add: hash_of_def sample_verified_def)
    with r sample_whole [of m] show ?thesis
      by (simp add: validate_confirm_def sample_import_def sample_corpus_def sample_row_def is_complete_def
          sample_verified_def sample_file_def)
  qed
  have upd: "\<exists>x w'. update sample_env sample_id (imported_section sample_id 0 (tx ''i'') 7) ?w1 = (Inr x, w')"
  proof -
    let ?t = "rw_tree importing_world"
    let ?f = "[(job_json, FileNode (JobText importing_job))]"
    have f: "jget ?t sample_id = Some (Folder ?f)" "jget ?f k \<noteq> Some DirNode" for k
      by (simp_all add: importing_world_def jget_def)
    have path: "staging_path sample_id sample_staging = Inr (sample_id, sample_staging)"
      using sample_id_valid sample_staging_valid by (simp add: staging_path_def check_job_id_def check_staging_name_def)
    have dropped: "drop_staging sample_id (Some sample_staging) ?t = in_folder sample_id (remove_file sample_staging) ?t"
      using f path by (simp add: drop_staging_def delete_staging_def)
    let ?f' = "remove_file sample_staging ?f"
    have f': "jget (drop_staging sample_id (Some sample_staging) ?t) sample_id = Some (Folder ?f')"
      using f unfolding dropped by (simp add: in_folder_def jget_jinsert_iff)
    have nodir: "jget ?f' k \<noteq> Some DirNode" for k
      using f(2) by (simp add: jget_remove_file)
    have save: "fst (save_job j (drop_staging sample_id (Some sample_staging) ?t)) = None" if "job_id j = sample_id" for j
      using f' nodir that sample_id_valid by (simp add: save_job_def check_job_id_def put_folder_def write_job_atomic_def)
    have own: "job_id (snd (settle_job 7 j)) = job_id j" for j by (simp add: settle_job_def Let_def)
    have allowed: "is_file_transition_allowed Importing Imported" by code_simp
    obtain j where sec: "imported_section sample_id 0 (tx ''i'') 7 importing_job ?t =
        (Inr ((), j), drop_staging sample_id (Some sample_staging) ?t)" "job_id j = sample_id"
      using job allowed own by (simp add: imported_section_def get_at_def set_file_state_def update_file_def)
    have read: "\<exists>w2. read_stored sample_env sample_id ?w1 = (Inr importing_job, w2) \<and> rw_tree w2 = ?t"
      using load by (simp add: read_stored_def tick_def sample_env_def)
    show ?thesis
      using read sec save [OF sec(2)] update_succeeds [of sample_env sample_id ?w1 importing_job]
      by (fastforce simp: sample_env_def)
  qed
  then have "\<exists>w'. confirm_file_imported sample_env (sample_import m) sample_corpus sample_id 0 (tx ''i'') 7 importing_world
      = (None, w')"
    using stored job valid
    by (auto simp: confirm_file_imported_def get_at_def target_collection_id_def notified_def split: prod.splits)
  then obtain w' where w': "confirm_file_imported sample_env (sample_import m) sample_corpus sample_id 0 (tx ''i'') 7
      importing_world = (None, w')" by blast
  from confirmed_import_is_whole [OF this] obtain job' file' where
    "load_job (re_linked sample_env) (job_id job') (rw_tree w') = Inr job'"
    "get_at (job_files job') 0 = Some file'" "jf_state file' = Imported" by blast
  with w' show ?thesis by (auto simp: sample_env_def)
qed

lemma begin_and_confirm_agree_witness:
  "\<exists>m. existing_import (sample_import m) sample_corpus (tx ''c'') (tx ''item'') (tx ''a.pdf'') (tx ''00ff'') 3
     = Some (Whole (tx ''i''))"
proof -
  obtain m r where r: "record_of_row (\<lambda>_. Some (JObject m)) sample_row = Some r" "pr_identifier r = tx ''item''"
    "pr_file_name r = tx ''a.pdf''" "pr_sha256_local r = Some (tx ''00ff'')" by (rule sample_record)
  have says: "{i. validate_confirm (sample_import m) sample_corpus (tx ''c'') (tx ''item'') (tx ''a.pdf'')
      (Some (tx ''00ff'')) (Some 3) i = None} = {tx ''i''}"
    using r sample_whole [of m]
    by (auto simp: validate_confirm_def sample_import_def sample_corpus_def sample_row_def is_complete_def
        split: if_splits)
  have "existing_import (sample_import m) sample_corpus (tx ''c'') (tx ''item'') (tx ''a.pdf'') (tx ''00ff'') 3 =
    (let says = (\<lambda>e. {i. validate_confirm (sample_import m) sample_corpus (tx ''c'') (tx ''item'') (tx ''a.pdf'')
          (Some (tx ''00ff'')) (Some 3) i = e})
     in Some (if says None \<noteq> {} then Whole (Min (says None))
              else if says (Some IncompleteImport) \<noteq> {} then Remnant (Min (says (Some IncompleteImport)))
              else NothingThere))"
    by (rule begin_and_confirm_agree) (use r in \<open>auto simp: sample_import_def sample_corpus_def\<close>)
  then show ?thesis by (intro exI [of _ m]) (simp add: Let_def says)
qed

end
