(* ===== verification/QueueEffects.thy ===== *)
theory QueueEffects
  imports QueueSamples
begin

text \<open>
  What one statement does to the rows it names: the end of a single unit with its trigger, the
  units settled without an engine, and a lease that is never refused. The properties of the work
  of the queue rest on these.
\<close>

section \<open>Updated rows\<close>

lemma update_whereE:
  assumes "x \<in> set (update_where p f xs)"
  obtains y where "y \<in> set xs" and "p y" and "x = f y" | "x \<in> set xs" and "\<not> p x"
proof -
  from assms have "x \<in> (\<lambda>y. if p y then f y else y) ` set xs" by (simp only: update_where_def set_map)
  then obtain y where y: "x = (if p y then f y else y)" "y \<in> set xs" by (rule imageE)
  show thesis
  proof (cases "p y")
    case True
    with y show thesis using that(1) by simp
  next
    case False
    with y show thesis using that(2) by simp
  qed
qed

lemma find_appended:
  "find p (xs @ [x]) = (case find p xs of None \<Rightarrow> if p x then Some x else None | Some y \<Rightarrow> Some y)"
  by (induction xs) auto

section \<open>The end of one unit\<close>

lemma matching_one:
  assumes "tasks_ok q" and "t \<in> set (q_tasks q)"
  shows "matching_ids (\<lambda>u. tk_id u = tk_id t) q = [tk_id t]"
proof -
  have "filter (\<lambda>u. tk_id u = tk_id t) (q_tasks q) = filter (\<lambda>u. u = t) (q_tasks q)"
    using task_unique [OF assms(1) _ assms(2)] by (intro filter_cong) auto
  also have "\<dots> = [t]" using assms by (intro filter_single) (auto simp: tasks_ok_def distinct_map)
  finally show ?thesis by (simp add: matching_ids_def)
qed

lemma update_one:
  assumes "tasks_ok q" and "t \<in> set (q_tasks q)" and "tk_state (f t) \<noteq> tk_state t"
  shows "update_tasks (\<lambda>u. tk_id u = tk_id t) f q
    = settle_dependents (tk_id t) (tk_state (f t)) (map_tasks (\<lambda>u. tk_id u = tk_id t) f q)"
  using assms
  by (simp add: update_tasks_def matching_one update_row_def find_task_unique Let_def)

lemma settle_rows: "q_tasks (settle_dependents tid s q) = map (\<lambda>u.
    if is_blocked_dependent tid q u \<and> s = TSucceeded then release_dependent u
    else if is_blocked_dependent tid q u \<and> (s = TFailed \<or> s = TCancelled) then fail_dependency tid s u
    else u) (q_tasks q)"
  by (auto simp: settle_dependents_def map_tasks_def update_where_def is_blocked_dependent_def
      dependents_def)

text \<open>The rows after one unit \<open>t\<close> ended.\<close>

lemma ended_rows:
  assumes "tasks_ok q" and "t \<in> set (q_tasks q)" and "tk_state t = TRunning"
    and "tk_state (f t) \<noteq> TRunning" and "tk_state (f t) \<noteq> TBlocked" and "tk_id (f t) = tk_id t"
    and "r = update_tasks (\<lambda>u. tk_id u = tk_id t) f q"
  shows "f t \<in> set (q_tasks r)"
    and "\<And>u. u \<in> set (q_tasks q) \<Longrightarrow> is_blocked_dependent (tk_id t) q u \<Longrightarrow>
      (tk_state (f t) = TSucceeded \<longrightarrow> release_dependent u \<in> set (q_tasks r))
      \<and> (tk_state (f t) = TFailed \<longrightarrow> fail_dependency (tk_id t) TFailed u \<in> set (q_tasks r))"
proof -
  let ?q1 = "map_tasks (\<lambda>u. tk_id u = tk_id t) f q"
  have r: "r = settle_dependents (tk_id t) (tk_state (f t)) ?q1"
    using assms update_one [OF assms(1,2), of f] by simp
  have f: "f t \<in> set (q_tasks ?q1)" using assms(2) by (force simp: map_tasks_def update_where_def)
  have not_dep: "\<not> is_blocked_dependent (tk_id t) ?q1 (f t)" using assms(5) by (simp add: is_blocked_dependent_def)
  show "f t \<in> set (q_tasks r)"
    unfolding r settle_rows using f not_dep by (auto intro: rev_image_eqI)
  fix u assume u: "u \<in> set (q_tasks q)" "is_blocked_dependent (tk_id t) q u"
  have "tk_state u = TBlocked" using u(2) by (simp add: is_blocked_dependent_def)
  then have "tk_id u \<noteq> tk_id t" using task_unique [OF assms(1) u(1) assms(2)] assms(3) by auto
  then have "u \<in> set (q_tasks ?q1)" using u(1) by (force simp: map_tasks_def update_where_def)
  moreover have "is_blocked_dependent (tk_id t) ?q1 u"
    using u(2) by (simp add: is_blocked_dependent_def dependents_def)
  ultimately show "(tk_state (f t) = TSucceeded \<longrightarrow> release_dependent u \<in> set (q_tasks r))
      \<and> (tk_state (f t) = TFailed \<longrightarrow> fail_dependency (tk_id t) TFailed u \<in> set (q_tasks r))"
    unfolding r settle_rows by (auto intro: rev_image_eqI)
qed

section \<open>Units settled by the claim\<close>

lemma pin_input_attempts: "tasks_ok q \<Longrightarrow> q_attempts (pin_input tid revision fingerprint q) = q_attempts q"
  unfolding pin_input_def by (subst update_tasks_quiet) (auto simp: tasks_ok_def)

lemma updated_row:
  assumes "tasks_ok q" and "t \<in> set (q_tasks q)" and "is_quiet (tk_state (f t))" and "tk_id (f t) = tk_id t"
  shows "f t \<in> set (q_tasks (update_tasks (\<lambda>u. tk_id u = tk_id t) f q))"
proof (cases "tk_state (f t) = tk_state t")
  case True
  then have "update_tasks (\<lambda>u. tk_id u = tk_id t) f q = map_tasks (\<lambda>u. tk_id u = tk_id t) f q"
    using assms by (simp add: update_tasks_def matching_one update_row_def find_task_unique)
  then show ?thesis using assms(2) by (force simp: map_tasks_def update_where_def)
next
  case False
  then show ?thesis using assms update_one [OF assms(1,2), of f]
    by (force simp: map_tasks_def update_where_def)
qed

lemma settled_row:
  assumes "tasks_ok q" and "t \<in> set (q_tasks q)" and "validate_claim_input e a t q = Settled r"
  shows "\<exists>u \<in> set (q_tasks r). tk_id u = tk_id t \<and> tk_state u \<in> {TSkipped, TBlocked}"
proof -
  have skipped: "\<exists>u \<in> set (q_tasks (mark_skipped (tk_id t) outcome q)). tk_id u = tk_id t \<and> tk_state u \<in> {TSkipped, TBlocked}"
    for outcome
  proof -
    let ?f = "\<lambda>t. t\<lparr>tk_state := TSkipped, tk_outcome := outcome, tk_owner := None, tk_next_retry := None\<rparr>"
    let ?q1 = "delete_task_checkpoints (tk_id t) (update_tasks (\<lambda>u. tk_id u = tk_id t) ?f q)"
    let ?q2 = "update_tasks (is_blocked_dependent (tk_id t) ?q1) release_dependent ?q1"
    have row: "?f t \<in> set (q_tasks ?q1)"
      using updated_row [OF assms(1,2), of ?f] by (simp add: is_quiet_def)
    have "tasks_ok (update_tasks (\<lambda>u. tk_id u = tk_id t) ?f q)"
      using assms(1) by (rule advances_tasks_ok [rotated])
        (rule advances_update_tasks_quiet; auto simp: row_simps is_quiet_def)
    then have "tasks_ok ?q1" by (simp add: tasks_ok_def)
    then have "?q2 = map_tasks (is_blocked_dependent (tk_id t) ?q1) release_dependent ?q1"
      by (intro update_tasks_quiet) (auto simp: tasks_ok_def release_dependent_def is_quiet_def)
    moreover have "\<not> is_blocked_dependent (tk_id t) ?q1 (?f t)" by (simp add: is_blocked_dependent_def)
    ultimately have "?f t \<in> set (q_tasks ?q2)" using row by (force simp: map_tasks_def update_where_def)
    then show ?thesis unfolding mark_skipped_def Let_def by (rule bexI [rotated]) simp
  qed
  moreover have "\<exists>u \<in> set (q_tasks (mark_blocked (tk_id t) outcome message q)). tk_id u = tk_id t \<and> tk_state u \<in> {TSkipped, TBlocked}"
    for outcome message
    unfolding mark_blocked_def
    by (rule bexI [OF _ updated_row [OF assms(1,2)]]) (simp_all add: is_quiet_def)
  ultimately show ?thesis
    using assms(3)
    by (auto simp: validate_claim_input_def validate_corpus_claim_input_def validate_item_claim_input_def
        validate_attachment_claim_input_def validate_library_claim_input_def validate_ocr_def
        validate_correction_def validate_extraction_def validate_embedding_def skip_def Let_def
        split: domain.splits subject_kind.splits task_kind.splits if_splits option.splits
          ocr_decision.splits correction_decision.splits extraction_decision.splits
          embedding_decision.splits prod.splits)
qed

end
