(* ===== verification/QueueWork.thy ===== *)
theory QueueWork
  imports QueueProps QueueEffects
begin

text \<open>
  The properties of the work of the queue: which unit is claimed and under which lease, when a
  result is published, how an attempt ends and what becomes of the units that wait for it, and for
  how long a retry waits.
\<close>

section \<open>Claims\<close>

text \<open>
  C5: The scan of claim_next over priority levels, with its two access paths and the exception for
  profiles, picks the same unit as the reference: of the due and runnable units those of the highest
  level, of these the smallest identifier, an extraction behind a profile of its level.
\<close>

theorem claim_follows_reference:
  assumes "queue_ok q"
  shows "claim_candidate kinds now q = claim_reference kinds now q"
  using assms by (intro claim_candidate_reference) (simp add: queue_ok_def)

lemma claim_follows_reference_witness:
  "claim_candidate [KOcr] 9 waiting_queue = Some (sample_unit ''o'' KOcr)"
proof -
  have "claim_reference [KOcr] 9 waiting_queue = Some (sample_unit ''o'' KOcr)" by code_simp
  with claim_follows_reference [OF sample_queues_ok(1)] show ?thesis by simp
qed

text \<open>The row a claim leaves.\<close>

lemma claimed_row:
  assumes "queue_ok q" and "claim_next e a session kinds now q = Inr (Some c, r)"
  obtains t where "t \<in> set (q_tasks q)" and "is_due now t" and "is_runnable kinds q t"
    and "claim_candidate kinds now q = Some t" and "cl_task c = tk_id t"
    and "cl_epoch c = tk_epoch t + 1" and "cl_attempt c = tk_attempts t + 1"
    and "held (cl_task c) (cl_epoch c) r"
    and "q_attempts r = q_attempts q @ [open_attempt (cl_task c) (cl_attempt c) (cl_epoch c)]"
  using assms(1)
proof (rule claim_next_cases [OF _ assms(2)])
  fix t revision fingerprint
  assume t: "claim_candidate kinds now q = Some t" "t \<in> set (q_tasks q)"
      "tk_state t \<in> {TPending, TRetryWait}" "is_due now t" "is_runnable kinds q t"
    and lease: "take_lease session now t revision fingerprint q = Inr (Some c, r)"
  show thesis
  proof (rule take_lease_value [OF assms(1) t(2,3) lease])
    fix t1 q1
    assume t1: "t1 = t\<lparr>tk_revision := revision, tk_fingerprint := fingerprint\<rparr>" "t1 \<in> set (q_tasks q1)"
      and q1: "q1 = pin_input (tk_id t) revision fingerprint q"
      and r: "r = q1\<lparr>q_tasks := map (\<lambda>u. if u = t1 then lease_task session now u else u) (q_tasks q1),
           q_attempts := q_attempts q1 @ [open_attempt (tk_id t) (tk_attempts t + 1) (tk_epoch t + 1)]\<rparr>"
      and c: "Some c = Some (claim_of t revision fingerprint)"
    have "lease_task session now t1 \<in> set (q_tasks r)" using t1(2) by (force simp: r)
    then have "held (tk_id t) (tk_epoch t + 1) r"
      unfolding held_iff by (rule bexI [rotated]) (simp add: lease_task_def t1(1))
    moreover have "q_attempts q1 = q_attempts q" using assms(1) by (simp add: q1 pin_input_attempts queue_ok_def)
    ultimately show thesis using t c r by (intro that [of t]) (auto simp: claim_of_def)
  qed
qed simp

text \<open>
  C9: A claimed unit was waiting, due and runnable, nobody held it, and afterwards it runs under the
  next epoch with one new open attempt; every earlier attempt of the unit has a smaller epoch and
  number.
\<close>

theorem claim_starts_fresh_lease:
  assumes "queue_ok q" and "claim_next e a session kinds now q = Inr (Some c, r)"
  shows "(\<exists>t \<in> set (q_tasks q). tk_id t = cl_task c \<and> is_due now t \<and> is_runnable kinds q t
      \<and> cl_epoch c = tk_epoch t + 1)
    \<and> \<not> held (cl_task c) epoch q \<and> held (cl_task c) (cl_epoch c) r
    \<and> q_attempts r = q_attempts q @ [open_attempt (cl_task c) (cl_attempt c) (cl_epoch c)]
    \<and> (\<forall>x \<in> set (q_attempts q). at_task x = cl_task c \<longrightarrow>
         at_epoch x < cl_epoch c \<and> at_number x < cl_attempt c)"
proof (rule claimed_row [OF assms])
  fix t
  assume t: "t \<in> set (q_tasks q)" "is_due now t" "is_runnable kinds q t" "cl_task c = tk_id t"
      "cl_epoch c = tk_epoch t + 1" "cl_attempt c = tk_attempts t + 1"
    and r: "held (cl_task c) (cl_epoch c) r"
      "q_attempts r = q_attempts q @ [open_attempt (cl_task c) (cl_attempt c) (cl_epoch c)]"
  have ok: "tasks_ok q" using assms(1) by (simp add: queue_ok_def)
  have "\<not> held (cl_task c) epoch q" using held_row [OF ok t(1)] due_waits [OF t(2)] t(4) by auto
  moreover have "at_epoch x < cl_epoch c \<and> at_number x < cl_attempt c"
    if "x \<in> set (q_attempts q)" "at_task x = cl_task c" for x
  proof -
    from assms(1) that(1) obtain u where u: "u \<in> set (q_tasks q)" "tk_id u = at_task x"
        "at_number x \<le> tk_attempts u" "at_epoch x \<le> tk_epoch u"
      by (auto simp: queue_ok_def attempts_ok_but_def list_all_iff attempt_ok_def)
    have "u = t" using task_unique [OF ok u(1) t(1)] u(2) that(2) t(4) by simp
    with u t(5,6) show ?thesis by simp
  qed
  ultimately show ?thesis using t r by auto
qed

definition claim_of_sample :: "queue_error + claimed_task option \<times> queue" where
  "claim_of_sample = claim_next sample_env sample_archive (tx ''s'') [KOcr] 9 waiting_queue"

lemma claim_starts_fresh_lease_witness:
  "case claim_of_sample of Inr (Some c, r) \<Rightarrow> cl_task c = tx ''o'' \<and> held (tx ''o'') 1 r | _ \<Rightarrow> False"
proof -
  have "case claim_of_sample of Inr (Some c, r) \<Rightarrow> cl_task c = tx ''o'' \<and> cl_epoch c = 1 | _ \<Rightarrow> False"
    by code_simp
  then obtain c r where c: "claim_of_sample = Inr (Some c, r)" "cl_task c = tx ''o''" "cl_epoch c = 1"
    by (auto split: sum.splits prod.splits option.splits)
  from c(1) have "claim_next sample_env sample_archive (tx ''s'') [KOcr] 9 waiting_queue = Inr (Some c, r)"
    by (simp add: claim_of_sample_def)
  from claim_starts_fresh_lease [OF sample_queues_ok(1) this] c(2,3) have "held (tx ''o'') 1 r" by simp
  then show ?thesis unfolding c(1) using c(2) by simp
qed

lemma reference_finds_due:
  assumes "t \<in> set (due_units kinds now q)"
  shows "claim_reference kinds now q \<noteq> None"
proof -
  have "\<exists>u \<in> set (due_units kinds now q). unit_level q u = top_level kinds now q"
  proof (cases "0 < top_level kinds now q")
    case False
    then have "unit_level q t = top_level kinds now q"
      using top_level_ge [OF assms] unit_level_nonneg [of q t] by simp
    with assms show ?thesis by blast
  qed (rule top_level_in)
  then show ?thesis unfolding claim_reference_def by (intro prefer_profile_Some) (auto simp: filter_empty_conv)
qed

text \<open>
  C11: A claim makes progress while a unit is due and runnable: it leases one, or it settles a due
  unit as skipped or blocked without an engine, or it reports why the input of a due unit could not
  be validated. In particular a lease is never refused for a lost race or a taken attempt number.
\<close>

theorem due_unit_makes_progress:
  assumes "queue_ok q" and "t \<in> set (q_tasks q)" and "is_due now t" and "is_runnable kinds q t"
  shows "case claim_next e a session kinds now q of
      Inr (Some c, r) \<Rightarrow> held (cl_task c) (cl_epoch c) r
    | Inr (None, r) \<Rightarrow> (\<exists>u \<in> set (q_tasks q). is_due now u \<and> is_runnable kinds q u
        \<and> (\<exists>v \<in> set (q_tasks r). tk_id v = tk_id u \<and> tk_state v \<in> {TSkipped, TBlocked}))
    | Inl err \<Rightarrow> (\<exists>u \<in> set (q_tasks q). is_due now u \<and> is_runnable kinds q u
        \<and> validate_claim_input e a u q = Refused err)"
proof -
  have ok: "tasks_ok q" using assms(1) by (simp add: queue_ok_def)
  have "t \<in> set (due_units kinds now q)" using assms(2-4) by (simp add: due_units_def)
  then obtain u where u: "claim_candidate kinds now q = Some u"
    using reference_finds_due claim_candidate_reference [OF ok] by (metis option.exhaust)
  from claim_candidate_due [OF ok u] have due: "u \<in> set (q_tasks q)" "is_due now u" "is_runnable kinds q u"
    by blast+
  have arms: "kinds \<noteq> []" "is_claimable_subject u" using assms(4) due(3) by (auto simp: is_runnable_def)
  show ?thesis
  proof (cases "validate_claim_input e a u q")
    case (Pinned revision fingerprint)
    then have lease: "claim_next e a session kinds now q = take_lease session now u revision fingerprint q"
      using u arms by (simp add: claim_next_def)
    obtain c r where "take_lease session now u revision fingerprint q = Inr (Some c, r)"
      using take_lease_succeeds [OF assms(1) due(1) due_waits [OF due(2)]] by blast
    with lease have value_: "claim_next e a session kinds now q = Inr (Some c, r)" by simp
    have "held (cl_task c) (cl_epoch c) r" by (rule claimed_row [OF assms(1) value_])
    with value_ show ?thesis by simp
  next
    case (Settled r)
    then have "claim_next e a session kinds now q = Inr (None, r)" using u arms by (simp add: claim_next_def)
    then show ?thesis using due settled_row [OF ok due(1) Settled] by auto
  next
    case (Refused err)
    then have "claim_next e a session kinds now q = Inl err" using u arms by (simp add: claim_next_def)
    then show ?thesis using due Refused by auto
  qed
qed

lemma due_unit_makes_progress_witness:
  "case claim_of_sample of Inl err \<Rightarrow> False | Inr (None, r) \<Rightarrow> False
   | Inr (Some c, r) \<Rightarrow> held (cl_task c) (cl_epoch c) r"
proof -
  have "case claim_of_sample of Inr (Some c, r) \<Rightarrow> True | _ \<Rightarrow> False" by code_simp
  moreover have due: "sample_unit ''o'' KOcr \<in> set (q_tasks waiting_queue)" "is_due 9 (sample_unit ''o'' KOcr)"
    by (simp_all add: sample_simps is_due_def)
  moreover have "is_runnable [KOcr] waiting_queue (sample_unit ''o'' KOcr)" by code_simp
  ultimately show ?thesis
    using due_unit_makes_progress [OF sample_queues_ok(1) due, of "[KOcr]" sample_env sample_archive "tx ''s''"]
    by (auto simp: claim_of_sample_def split: sum.splits prod.splits option.splits)
qed

section \<open>Publication\<close>

lemma settle_success_tables:
  "q_tasks (settle_success tid kind aid revision outcome receipt q) = q_tasks (update_tasks (\<lambda>t. tk_id t = tid)
     (\<lambda>t. t\<lparr>tk_state := TSucceeded, tk_outcome := outcome, tk_receipt := Some receipt,
        tk_error_code := None, tk_error_message := None, tk_owner := None\<rparr>) q)"
  "q_checkpoints (settle_success tid kind aid revision outcome receipt q)
     = filter (\<lambda>c. cp_task c \<noteq> tid) (q_checkpoints q)"
  by (simp_all add: settle_success_def Let_def bump_revisions_def stamp_completion_def map_batches_def
      close_open_attempt_def map_attempts_def delete_task_checkpoints_def)

lemma closed_attempts:
  assumes "x \<in> set (q_attempts (close_open_attempt tid outcome q))" and "at_task x = tid"
    and "outcome \<noteq> AOpen"
  shows "at_outcome x \<noteq> AOpen"
proof -
  from assms(1) have "x \<in> set (update_where (\<lambda>y. at_task y = tid \<and> at_outcome y = AOpen)
      (\<lambda>y. y\<lparr>at_outcome := outcome\<rparr>) (q_attempts q))"
    by (simp add: close_open_attempt_def map_attempts_def)
  then show ?thesis by (rule update_whereE) (use assms(2,3) in auto)
qed

lemma settle_success_closes:
  "x \<in> set (q_attempts (settle_success tid kind aid revision outcome receipt q)) \<Longrightarrow> at_task x = tid \<Longrightarrow>
   at_outcome x \<noteq> AOpen"
  unfolding settle_success_def Let_def bump_revisions_def q_attempts_other by (erule closed_attempts) simp_all

text \<open>
  C7: A result is published only under the current lease, while some batch wants the unit and while
  its source is the one the claim pinned. Afterwards the unit has succeeded without an owner, its
  checkpoints are deleted, its attempts are closed, and every unit blocked on it is pending. (The
  publisher writes canonical rows and keeps the lease and the soundness of the tables.)
\<close>

theorem published_unit_is_done:
  assumes "commit_success_with e tid epoch kind outcome receipt publish db = Inr (a1, r)"
    and "\<And>a2 q2. publish db = Inr (a2, q2) \<Longrightarrow> queue_ok q2 \<and> held tid epoch q2"
  shows "held tid epoch (snd db) \<and> execution_wanted tid (snd db)
    \<and> (\<exists>t \<in> set (q_tasks (snd db)). tk_id t = tid \<and> check_source e db t = None)
    \<and> (\<exists>q1. publish db = Inr (a1, q1)
        \<and> (\<forall>u \<in> set (q_tasks q1). is_blocked_dependent tid q1 u \<longrightarrow> release_dependent u \<in> set (q_tasks r)))
    \<and> (\<exists>u \<in> set (q_tasks r). tk_id u = tid \<and> tk_state u = TSucceeded \<and> tk_owner u = None
        \<and> tk_receipt u = Some receipt)
    \<and> (\<forall>c \<in> set (q_checkpoints r). cp_task c \<noteq> tid)
    \<and> (\<forall>x \<in> set (q_attempts r). at_task x = tid \<longrightarrow> at_outcome x \<noteq> AOpen)"
proof -
  from assms(1) obtain t q1 where t: "find (\<lambda>t. tk_id t = tid \<and> tk_epoch t = epoch) (q_tasks (snd db)) = Some t"
      "tk_state t = TRunning" "execution_wanted tid (snd db)" "check_source e db t = None"
      "publish db = Inr (a1, q1)"
      "r = settle_success tid kind (tk_asset t) (tk_revision t) outcome receipt q1"
    by (auto simp: commit_success_with_def try_then_Inr_iff split: option.splits if_splits)
  from t(1) have mem: "t \<in> set (q_tasks (snd db))" "tk_id t = tid" "tk_epoch t = epoch"
    by (auto simp: find_Some_iff)
  from assms(2) [OF t(5)] have ok: "tasks_ok q1" and "held tid epoch q1" by (auto simp: queue_ok_def)
  then obtain t1 where t1: "t1 \<in> set (q_tasks q1)" "tk_id t1 = tid" "tk_state t1 = TRunning"
    by (auto simp: held_iff)
  let ?f = "\<lambda>t. t\<lparr>tk_state := TSucceeded, tk_outcome := outcome, tk_receipt := Some receipt,
        tk_error_code := None, tk_error_message := None, tk_owner := None\<rparr>"
  note rows = ended_rows [OF ok t1(1,3), of ?f, OF _ _ _ refl]
  have ended: "?f t1 \<in> set (q_tasks r)" using rows(1) t1(2) by (simp add: t(6) settle_success_tables)
  from ended have "\<exists>u \<in> set (q_tasks r). tk_id u = tid \<and> tk_state u = TSucceeded \<and> tk_owner u = None
      \<and> tk_receipt u = Some receipt" by (rule bexI [rotated]) (simp add: t1(2))
  moreover have "release_dependent u \<in> set (q_tasks r)"
    if "u \<in> set (q_tasks q1)" "is_blocked_dependent tid q1 u" for u
    using rows(2) [of u] that t1(2) by (simp add: t(6) settle_success_tables)
  moreover have "held tid epoch (snd db)" using mem t(2) by (auto simp: held_iff)
  moreover have "\<forall>c \<in> set (q_checkpoints r). cp_task c \<noteq> tid" by (simp add: t(6) settle_success_tables)
  ultimately show ?thesis using t mem settle_success_closes by (auto simp: t(6))
qed

definition claimed_queue :: queue where
  "claimed_queue = (case claim_of_sample of Inr (Some c, r) \<Rightarrow> r | _ \<Rightarrow> empty_queue)"

lemma claimed_queue_ok: "queue_ok claimed_queue" "held (tx ''o'') 1 claimed_queue"
proof -
  have held: "case claim_of_sample of Inr (Some c, r) \<Rightarrow> held (tx ''o'') 1 r | _ \<Rightarrow> False" by code_simp
  then obtain c r where "claim_of_sample = Inr (Some c, r)"
    by (auto split: sum.splits prod.splits option.splits)
  with held claim_next_ok [OF sample_queues_ok(1), of sample_env sample_archive "tx ''s''" "[KOcr]" 9]
  show "queue_ok claimed_queue" "held (tx ''o'') 1 claimed_queue"
    by (auto simp: claimed_queue_def claim_of_sample_def)
qed

definition published_sample :: "queue_error + db" where
  "published_sample = commit_success_with sample_env (tx ''o'') 1 KOcr (tx ''done'') (tx ''receipt'') Inr
     (sample_archive, claimed_queue)"

lemma published_unit_is_done_witness:
  "case published_sample of Inr (a, r) \<Rightarrow>
     (\<exists>u \<in> set (q_tasks r). tk_id u = tx ''o'' \<and> tk_state u = TSucceeded) | Inl err \<Rightarrow> False"
proof -
  have "case published_sample of Inr (a, r) \<Rightarrow> True | Inl err \<Rightarrow> False" by code_simp
  then obtain a r where db: "published_sample = Inr (a, r)" by (auto split: sum.splits prod.splits)
  then have commit: "commit_success_with sample_env (tx ''o'') 1 KOcr (tx ''done'') (tx ''receipt'') Inr
      (sample_archive, claimed_queue) = Inr (a, r)" by (simp add: published_sample_def)
  have "\<exists>u \<in> set (q_tasks r). tk_id u = tx ''o'' \<and> tk_state u = TSucceeded"
    using published_unit_is_done [OF commit] claimed_queue_ok by auto
  then show ?thesis unfolding db by simp
qed

section \<open>The end of an attempt\<close>

text \<open>
  C17: An attempt fails for good only when it is not retryable, or when it was the third of its cycle
  and not turned away by a rate limit. Then the unit has failed without an owner under the given
  code, every unit blocked on it has failed as dependency_failed, and its checkpoints are deleted
  unless they are the paid pages of an extraction.
\<close>

theorem failed_unit_fails_its_dependents:
  assumes "queue_ok q"
    and "fail_attempt bytes tid epoch number code message retryable provider now q = Inr (FailFailed, r)"
  shows "held tid epoch q
    \<and> (\<exists>t \<in> set (q_tasks q). tk_id t = tid
        \<and> (retryable \<longrightarrow> code \<noteq> rate_limited_code \<and> max_attempts_per_cycle \<le> tk_retries t + 1)
        \<and> q_checkpoints r = filter (\<lambda>c. cp_task c \<noteq> tid \<or> tk_kind t = KBibliographyExtract) (q_checkpoints q))
    \<and> (\<exists>u \<in> set (q_tasks r). tk_id u = tid \<and> tk_state u = TFailed \<and> tk_owner u = None
        \<and> tk_error_code u = Some code)
    \<and> (\<forall>u \<in> set (q_tasks q). is_blocked_dependent tid q u \<longrightarrow> fail_dependency tid TFailed u \<in> set (q_tasks r))"
proof -
  let ?f = "\<lambda>r. r\<lparr>tk_state := TFailed, tk_error_code := Some code,
      tk_error_message := Some message, tk_owner := None, tk_next_retry := None\<rparr>"
  let ?q1 = "map_attempts (\<lambda>a. at_task a = tid \<and> at_number a = number)
      (\<lambda>a. a\<lparr>at_outcome := AFailed, at_retryable := retryable, at_code := Some code,
         at_message := Some message, at_provider := provider\<rparr>) q"
  from assms(2) obtain t where t: "find_task tid q = Some t" "tk_state t = TRunning" "tk_epoch t = epoch"
      "retryable \<longrightarrow> code \<noteq> rate_limited_code \<and> max_attempts_per_cycle \<le> tk_retries t + 1"
      "r = delete_checkpoints_unless_paid_extraction tid (tk_kind t)
         (update_tasks (\<lambda>r. tk_id r = tid) ?f ?q1)"
    by (fastforce simp: fail_attempt_def Let_def split: option.splits if_splits)
  from find_task_SomeD [OF t(1)] have mem: "t \<in> set (q_tasks ?q1)" "tk_id t = tid" by simp_all
  have ok: "tasks_ok ?q1" using assms(1) by (simp add: queue_ok_def tasks_ok_def)
  have dep: "is_blocked_dependent tid ?q1 u = is_blocked_dependent tid q u" for u
    by (simp add: is_blocked_dependent_def dependents_def)
  note rows = ended_rows [OF ok mem(1) t(2), of ?f, OF _ _ _ refl]
  have "?f t \<in> set (q_tasks r)" using rows(1) mem(2) by (simp add: t(5))
  then have failed: "\<exists>u \<in> set (q_tasks r). tk_id u = tid \<and> tk_state u = TFailed \<and> tk_owner u = None
      \<and> tk_error_code u = Some code" by (rule bexI [rotated]) (simp add: mem(2))
  have deps: "fail_dependency tid TFailed u \<in> set (q_tasks r)"
    if "u \<in> set (q_tasks q)" "is_blocked_dependent tid q u" for u
    using rows(2) [of u] that mem(2) by (simp add: t(5) dep)
  have "q_checkpoints r = filter (\<lambda>c. cp_task c \<noteq> tid \<or> tk_kind t = KBibliographyExtract) (q_checkpoints q)"
    by (simp add: t(5) delete_checkpoints_unless_paid_extraction_def delete_task_checkpoints_def map_attempts_def)
  with failed deps t mem show ?thesis by (auto simp: held_iff)
qed

lemma failed_unit_fails_its_dependents_witness:
  "case fail_attempt (\<lambda>_. []) (tx ''o'') 1 1 (tx ''bad'') [] False None 9 chain_queue of
     Inr (FailFailed, r) \<Rightarrow> held (tx ''o'') 1 chain_queue | _ \<Rightarrow> False"
proof -
  let ?r = "fail_attempt (\<lambda>_. []) (tx ''o'') 1 1 (tx ''bad'') [] False None 9 chain_queue"
  have "case ?r of Inr (FailFailed, r) \<Rightarrow> True | _ \<Rightarrow> False" by code_simp
  then obtain r where r: "?r = Inr (FailFailed, r)"
    by (auto split: sum.splits prod.splits fail_outcome.splits)
  from failed_unit_fails_its_dependents [OF sample_queues_ok(3) r] have "held (tx ''o'') 1 chain_queue" by blast
  then show ?thesis unfolding r by simp
qed

section \<open>Delays\<close>

lemma sdiv_between:
  fixes base permille :: int
  assumes "0 \<le> base" and "- 200 \<le> permille" and "permille \<le> 200"
  shows "- (base div 5) \<le> (base * permille) sdiv 1000 \<and> (base * permille) sdiv 1000 \<le> base div 5"
proof -
  have upper: "(base * m) div 1000 \<le> base div 5" if "0 \<le> m" "m \<le> 200" for m :: int
  proof -
    have "(base * m) div 1000 \<le> (base * 200) div 1000" using assms(1) that by (intro zdiv_mono1 mult_left_mono) auto
    also have "\<dots> = base div 5" by (simp add: div_mult_mult2 [of 200 base 5, simplified])
    finally show ?thesis .
  qed
  have nonneg: "0 \<le> (base * m) div 1000" if "0 \<le> m" for m :: int
    using assms(1) that by (simp add: pos_imp_zdiv_nonneg_iff)
  have "0 \<le> base div 5" using assms(1) by (simp add: pos_imp_zdiv_nonneg_iff)
  show ?thesis
  proof (cases "0 \<le> permille")
    case True
    then have "(base * permille) sdiv 1000 = (base * permille) div 1000"
      using assms(1) by (simp add: signed_divide_int_def sgn_if zero_le_mult_iff split: if_splits)
    then show ?thesis using True assms(3) upper nonneg \<open>0 \<le> base div 5\<close> by force
  next
    case False
    then have "base * permille \<le> 0" using assms(1) by (simp add: mult_nonneg_nonpos)
    then have "(base * permille) sdiv 1000 = - ((base * (- permille)) div 1000)"
      by (auto simp: signed_divide_int_def sgn_if)
    then show ?thesis using False assms(2) upper [of "- permille"] nonneg [of "- permille"] \<open>0 \<le> base div 5\<close> by simp
  qed
qed

lemma jitter_between:
  assumes "0 \<le> base"
  shows "base - base div 5 \<le> jitter_ms ids number base \<and> jitter_ms ids number base \<le> base + base div 5"
proof -
  let ?m = "unat (jitter_hash ids number mod 401)"
  have "?m < 401" by (simp add: unat_mod)
  then have "- 200 \<le> int ?m - 200" "int ?m - 200 \<le> 200" by linarith+
  from sdiv_between [OF assms this] show ?thesis by (simp add: jitter_ms_def Let_def)
qed

lemma retry_delay_between:
  "4000 \<le> retry_delay_with_jitter_ms ids number retries"
  "retry_delay_with_jitter_ms ids number retries \<le> 36000"
  using jitter_between [of "retry_delay_ms retries" ids number]
  by (auto simp: retry_delay_with_jitter_ms_def retry_delay_ms_def split: if_splits)

lemma rate_limited_delay_between:
  "12000 \<le> rate_limited_delay_with_jitter_ms ids number retries"
  "rate_limited_delay_with_jitter_ms ids number retries \<le> 720000"
proof -
  have "15000 \<le> rate_limited_delay_ms retries" "rate_limited_delay_ms retries \<le> 600000"
    by (simp_all add: rate_limited_delay_ms_def)
  then show "12000 \<le> rate_limited_delay_with_jitter_ms ids number retries"
      "rate_limited_delay_with_jitter_ms ids number retries \<le> 720000"
    using jitter_between [of "rate_limited_delay_ms retries" ids number]
    by (auto simp: rate_limited_delay_with_jitter_ms_def)
qed

text \<open>
  C33: A unit put aside for a retry waits at least four seconds, at least as long as the provider
  asked, and without such a demand at most twelve minutes; its wake time is a 64-bit integer even
  when the provider asks for more than fits.
\<close>

theorem retry_waits_within_bounds:
  assumes "fail_attempt bytes tid epoch number code message retryable provider now q = Inr (FailRetryWait wake, r)"
    and "0 \<le> now" and "now < 2 ^ 62"
  shows "now + 4000 \<le> wake \<and> wake < 2 ^ 63
    \<and> (case provider_retry_after_ms message of
         None \<Rightarrow> wake \<le> now + 720000
       | Some d \<Rightarrow> min (now + d) (2 ^ 63 - 1) \<le> wake)"
proof -
  let ?delay = "\<lambda>t. if code = rate_limited_code
     then rate_limited_delay_with_jitter_ms (bytes tid) number (tk_retries t)
     else retry_delay_with_jitter_ms (bytes tid) number (tk_retries t)"
  from assms(1) obtain t where t: "find_task tid q = Some t"
    by (auto simp: fail_attempt_def split: option.splits)
  with assms(1) have wake: "wake = sat_add_i64 now (case provider_retry_after_ms message of
      Some d \<Rightarrow> max d (?delay t) | None \<Rightarrow> ?delay t)"
    by (auto simp: fail_attempt_def Let_def split: option.splits if_splits)
  define delay where "delay = ?delay t"
  have delay: "4000 \<le> delay" "delay \<le> 720000"
    using retry_delay_between [of "bytes tid" number "tk_retries t"]
      rate_limited_delay_between [of "bytes tid" number "tk_retries t"]
    by (simp_all add: delay_def)
  note wake = wake [folded delay_def]
  show ?thesis using assms(2,3) delay unfolding wake
    by (auto simp: sat_add_i64_def split: option.split)
qed

lemma retry_waits_within_bounds_witness:
  "case fail_attempt (\<lambda>_. []) (tx ''o'') 1 1 (tx ''busy'') [] True None 9 running_queue of
     Inr (FailRetryWait wake, r) \<Rightarrow> 4009 \<le> wake \<and> wake \<le> 720009 | _ \<Rightarrow> False"
proof -
  let ?r = "fail_attempt (\<lambda>_. []) (tx ''o'') 1 1 (tx ''busy'') [] True None 9 running_queue"
  have "\<exists>wake r. ?r = Inr (FailRetryWait wake, r)"
    by (simp add: fail_attempt_def Let_def find_task_def sample_simps max_attempts_per_cycle_def)
  then obtain wake r where r: "?r = Inr (FailRetryWait wake, r)" by blast
  have "provider_retry_after_ms [] = None" by code_simp
  with retry_waits_within_bounds [OF r] have "4009 \<le> wake \<and> wake \<le> 720009" by simp
  then show ?thesis unfolding r by simp
qed

end
