(* ===== verification/QueueControl.thy ===== *)
theory QueueControl
  imports QueueWork
begin

text \<open>
  The properties of control: what a cancelled or a paused batch leaves behind, and the replay of a
  request.
\<close>

section \<open>Cancelling\<close>

text \<open>An update to an ending state: a row that still waits is untouched and was not named.\<close>

lemma update_row_waiting:
  assumes "\<And>t. tk_state (f t) = TCancelled" and "t \<in> set (q_tasks (update_row f tid q))"
    and "\<not> is_terminal_task (tk_state t)"
  shows "t \<in> set (q_tasks q) \<and> tk_id t \<noteq> tid"
proof (cases "find_task tid q")
  case None
  then have "q_tasks (update_row f tid q) = q_tasks q" by (simp add: update_row_def)
  moreover from None have "\<And>u. u \<in> set (q_tasks q) \<Longrightarrow> tk_id u \<noteq> tid"
    by (auto simp: find_task_def find_None_iff)
  ultimately show ?thesis using assms(2) by simp
next
  case (Some old)
  let ?q1 = "map_tasks (\<lambda>t. tk_id t = tid) f q"
  have "t \<in> set (q_tasks ?q1)"
  proof (cases "tk_state (f old) = tk_state old")
    case True
    with Some assms(2) show ?thesis by (simp add: update_row_def)
  next
    case False
    with Some assms(2) have "t \<in> set (q_tasks (settle_dependents tid TCancelled ?q1))"
      by (simp add: update_row_def assms(1))
    then obtain u where u: "u \<in> set (q_tasks ?q1)" "t = (if is_blocked_dependent tid ?q1 u
        then fail_dependency tid TCancelled u else u)"
      unfolding settle_rows by auto
    with assms(3) have "t = u" by (auto simp: fail_dependency_def is_terminal_task_def split: if_splits)
    with u show ?thesis by simp
  qed
  then have "t \<in> set (update_where (\<lambda>t. tk_id t = tid) f (q_tasks q))" by (simp add: map_tasks_def)
  then show ?thesis by (rule update_whereE) (use assms(1,3) in \<open>auto simp: is_terminal_task_def\<close>)
qed

lemma update_rows_waiting:
  assumes "\<And>t. tk_state (f t) = TCancelled" and "t \<in> set (q_tasks (fold (update_row f) ids q))"
    and "\<not> is_terminal_task (tk_state t)"
  shows "t \<in> set (q_tasks q) \<and> tk_id t \<notin> set ids"
  using assms(2)
proof (induction ids arbitrary: q)
  case (Cons tid ids)
  then have "t \<in> set (q_tasks (update_row f tid q)) \<and> tk_id t \<notin> set ids" by simp
  with update_row_waiting [of f t tid q] assms(1,3) show ?case by auto
qed simp

lemma no_orphan_left: "t \<in> set (q_tasks (cancel_orphaned_tasks q)) \<Longrightarrow> \<not> is_orphan (cancel_orphaned_tasks q) t"
proof
  let ?f = "\<lambda>t. t\<lparr>tk_state := TCancelled, tk_owner := None, tk_next_retry := None\<rparr>"
  let ?q1 = "update_tasks (is_orphan q) ?f q"
  assume t: "t \<in> set (q_tasks (cancel_orphaned_tasks q))" "is_orphan (cancel_orphaned_tasks q) t"
  have deletes: "q_tasks (fold (\<lambda>(tid, kind). delete_checkpoints_unless_paid_extraction tid kind) xs q2) = q_tasks q2"
      "q_links (fold (\<lambda>(tid, kind). delete_checkpoints_unless_paid_extraction tid kind) xs q2) = q_links q2" for xs q2
    by (induction xs arbitrary: q2) (simp_all add: split_beta)
  have same: "q_tasks (cancel_orphaned_tasks q) = q_tasks ?q1" "q_links (cancel_orphaned_tasks q) = q_links q"
    by (simp_all add: cancel_orphaned_tasks_def Let_def deletes)
  have waits: "\<not> is_terminal_task (tk_state t)" using t(2) by (auto simp: is_orphan_def is_terminal_task_def)
  have row: "t \<in> set (q_tasks ?q1)" using t(1) by (simp add: same)
  have "t \<in> set (q_tasks q) \<and> tk_id t \<notin> set (matching_ids (is_orphan q) q)"
    by (rule update_rows_waiting [OF _ row [unfolded update_tasks_def] waits]) simp
  then have "\<not> is_orphan q t" by (auto simp: matching_ids_def)
  with t(2) show False by (simp add: is_orphan_def links_of_task_def same(2))
qed

lemma maybe_finalize_rows:
  assumes "maybe_finalize_batch bid q = Inr (b, r)"
  shows "q_tasks r = q_tasks q" and "q_links r = q_links q"
  using assms by (auto simp: maybe_finalize_batch_def Let_def observe_paused_batches_def set_batch_state_def
      split: option.splits if_splits)

text \<open>
  C19: Cancelling a batch turns all its links to cancelled and lowers its priority, and leaves no
  orphan: no unit waits (pending, blocked, in retry wait or interrupted) that no batch wants, also
  where the end of one unit has ended others through the trigger.
\<close>

theorem cancelled_batch_leaves_no_orphan:
  assumes "control_batch bid ACancel expected q = Inr r"
  shows "(\<forall>t \<in> set (q_tasks r). \<not> is_orphan r t)
    \<and> (\<forall>l \<in> set (q_links r). ln_batch l = bid \<longrightarrow> ln_request l = RCancelled)"
proof -
  from assms obtain q1 where "cancel_batch bid q1 = Inr r"
    by (auto simp: control_batch_def Let_def split: option.splits if_splits)
  then obtain q2 b where last: "maybe_finalize_batch bid (cancel_orphaned_tasks
      (map_batches (\<lambda>b. bt_id b = bid) (\<lambda>b. b\<lparr>bt_priority := 0\<rparr>)
        (map_links (\<lambda>l. ln_batch l = bid) (\<lambda>l. l\<lparr>ln_request := RCancelled\<rparr>) q2))) = Inr (b, r)"
    unfolding cancel_batch_def Let_def map_sum_Inr_iff by auto
  define q4 where "q4 = map_batches (\<lambda>b. bt_id b = bid) (\<lambda>b. b\<lparr>bt_priority := 0\<rparr>)
        (map_links (\<lambda>l. ln_batch l = bid) (\<lambda>l. l\<lparr>ln_request := RCancelled\<rparr>) q2)"
  have rows: "q_links q4 = update_where (\<lambda>l. ln_batch l = bid) (\<lambda>l. l\<lparr>ln_request := RCancelled\<rparr>) (q_links q2)"
    by (simp add: q4_def map_links_def)
  have links: "ln_batch l = bid \<longrightarrow> ln_request l = RCancelled" if "l \<in> set (q_links q4)" for l
    using that unfolding rows by (rule update_whereE) simp_all
  note done_ = last [folded q4_def]
  note rows = maybe_finalize_rows [OF done_]
  have "q_links (cancel_orphaned_tasks q4) = q_links q4"
  proof -
    have "q_links (fold (\<lambda>(tid, kind). delete_checkpoints_unless_paid_extraction tid kind) xs q2) = q_links q2" for xs q2
      by (induction xs arbitrary: q2) (simp_all add: split_beta)
    then show ?thesis by (simp add: cancel_orphaned_tasks_def Let_def)
  qed
  moreover have "\<not> is_orphan r t" if "t \<in> set (q_tasks r)" for t
    using no_orphan_left [of t q4] that rows by (simp add: is_orphan_def links_of_task_def)
  ultimately show ?thesis using links rows by simp
qed

lemma cancelled_batch_leaves_no_orphan_witness:
  "case control_batch (tx ''b'') ACancel None waiting_queue of
     Inr r \<Rightarrow> list_all (\<lambda>t. \<not> is_orphan r t) (q_tasks r) | Inl err \<Rightarrow> False"
proof -
  have "case control_batch (tx ''b'') ACancel None waiting_queue of Inr r \<Rightarrow> True | Inl err \<Rightarrow> False"
    by code_simp
  then obtain r where r: "control_batch (tx ''b'') ACancel None waiting_queue = Inr r"
    by (auto split: sum.splits)
  from cancelled_batch_leaves_no_orphan [OF r] have "list_all (\<lambda>t. \<not> is_orphan r t) (q_tasks r)"
    by (simp add: list_all_iff)
  then show ?thesis unfolding r by simp
qed

section \<open>Pausing\<close>

text \<open>
  C34: Once a batch is paused no unit is claimed on its behalf: a unit claimed from the tables the
  pause leaves has an active link of another batch that runs and is meant to run.
\<close>

theorem paused_batch_claims_nothing:
  assumes "queue_ok q" and "control_batch bid APause expected q = Inr q1"
    and "claim_next e a session kinds now q1 = Inr (Some c, r)"
  shows "\<exists>l \<in> set (q_links q1). ln_task l = cl_task c \<and> ln_request l = RActive \<and> ln_batch l \<noteq> bid
    \<and> (\<exists>b \<in> set (q_batches q1). bt_id b = ln_batch l \<and> bt_state b = BRunning \<and> bt_desired b = DRun)"
proof -
  have ok: "queue_ok q1" using assms(1) control_batch_moves [OF assms(2)] by (rule queue_ok_keeps)
  from assms(2) obtain q2 where "q1 = pause_links bid q2"
    by (auto simp: control_batch_def Let_def split: option.splits if_splits)
  then have links: "q_links q1 = update_where (\<lambda>l. ln_batch l = bid) (\<lambda>l. l\<lparr>ln_request := RPaused\<rparr>) (q_links q2)"
    by (simp add: pause_links_def map_links_def map_batches_def)
  from claimed_row [OF ok assms(3)] obtain t where t: "is_runnable kinds q1 t" "cl_task c = tk_id t" by blast
  from t obtain l where l: "l \<in> set (q_links q1)" "is_live_link {BRunning} q1 (cl_task c) l"
    by (auto simp: is_runnable_def list_ex_iff)
  from l(2) have live: "ln_task l = cl_task c" "ln_request l = RActive"
      "\<exists>b \<in> set (q_batches q1). bt_id b = ln_batch l \<and> bt_state b = BRunning \<and> bt_desired b = DRun"
    by (auto simp: is_live_link_def)
  from l(1) have "ln_batch l \<noteq> bid" unfolding links by (rule update_whereE) (use live(2) in auto)
  with l(1) live show ?thesis by blast
qed

text \<open>A second batch that wants the unit too.\<close>

definition shared_queue :: queue where
  "shared_queue = waiting_queue\<lparr>
     q_batches := q_batches waiting_queue @ [sample_batch\<lparr>bt_id := tx ''b2'', bt_request := tx ''r2''\<rparr>],
     q_links := q_links waiting_queue @ [(sample_link ''o'' KOcr None)\<lparr>ln_batch := tx ''b2''\<rparr>]\<rparr>"

lemma shared_queue_ok: "queue_ok shared_queue"
  by (simp add: shared_queue_def sample_simps queue_ok_def tasks_ok_def batches_ok_def links_ok_def link_ok_def
      attempts_ok_but_def task_key_def is_live_def row_ok_def is_terminal_task_def)

definition claim_while_paused :: "queue_error + queue \<times> claimed_task" where
  "claim_while_paused = try_then (control_batch (tx ''b2'') APause None shared_queue) (\<lambda>q1.
     try_then (claim_next sample_env sample_archive (tx ''s'') [KOcr] 9 q1) (\<lambda>(c, _).
       case c of None \<Rightarrow> Inl RowMissing | Some c1 \<Rightarrow> Inr (q1, c1)))"

lemma paused_batch_claims_nothing_witness:
  "case claim_while_paused of
     Inr (q1, c) \<Rightarrow> (\<exists>l \<in> set (q_links q1). ln_task l = cl_task c \<and> ln_request l = RActive \<and> ln_batch l \<noteq> tx ''b2'')
   | Inl err \<Rightarrow> False"
proof -
  have "case claim_while_paused of Inr (q1, c) \<Rightarrow> True | Inl err \<Rightarrow> False" by code_simp
  then obtain q1 c where claim: "claim_while_paused = Inr (q1, c)" by (auto split: sum.splits prod.splits)
  then obtain r where "control_batch (tx ''b2'') APause None shared_queue = Inr q1"
      "claim_next sample_env sample_archive (tx ''s'') [KOcr] 9 q1 = Inr (Some c, r)"
    by (auto simp: claim_while_paused_def try_then_Inr_iff split: option.splits)
  from paused_batch_claims_nothing [OF shared_queue_ok this] show ?thesis unfolding claim by auto
qed

section \<open>Replays\<close>

text \<open>
  C35: A prepare request is idempotent: sent again with the same parameters, whatever the time, the
  archive and the fresh identifier are by then, it answers the same batch and number of members,
  says that nothing was created, and changes nothing.
\<close>

theorem prepare_request_is_replayed:
  assumes "prepare_batch a digest collections schemas new_id now request collection_ids item_ids operations q
      = Inr (response, r)"
  shows "prepare_batch a2 digest collections2 schemas2 new_id2 now2 request collection_ids item_ids operations r
      = Inr (response\<lparr>pr_created := False\<rparr>, r)"
proof -
  let ?ops = "selected_operations operations"
  let ?payload = "digest (prepare_payload (sorted_dedup collection_ids) (sorted_dedup item_ids) ?ops)"
  have valid: "\<not> (trim request = [] \<or> collection_ids = [] \<and> item_ids = [] \<or> ?ops = [])"
    using assms by (auto simp: prepare_batch_def Let_def split: if_splits)
  show ?thesis
  proof (cases "find_request request q")
    case None
    with assms valid obtain members q3 where
      response: "response = \<lparr>pr_batch = new_id, pr_created = True, pr_members = members\<rparr>"
      and recorded: "record_request \<lparr>rq_id = request, rq_action = tx ''prepare'', rq_batch = Some new_id,
        rq_payload = ?payload, rq_response = members\<rparr> q3 = Inr r"
      by (auto simp: prepare_batch_def Let_def try_then_Inr_iff map_sum_Inr_iff split: if_splits)
    then have "find_request request r = Some \<lparr>rq_id = request, rq_action = tx ''prepare'', rq_batch = Some new_id,
        rq_payload = ?payload, rq_response = members\<rparr>"
      by (auto simp: record_request_def find_request_def find_appended split: if_splits)
    with valid show ?thesis by (simp add: prepare_batch_def Let_def replay_prepare_def response)
  next
    case (Some previous)
    with assms valid have "r = q" "replay_prepare previous ?payload = Inr response"
      by (auto simp: prepare_batch_def Let_def map_sum_Inr_iff split: if_splits)
    moreover from this(2) have "pr_created response = False"
      by (auto simp: replay_prepare_def split: if_splits option.splits)
    then have "response\<lparr>pr_created := False\<rparr> = response" by (cases response) simp
    ultimately show ?thesis using valid Some by (simp add: prepare_batch_def Let_def)
  qed
qed

definition prepared_sample :: "nat list \<Rightarrow> queue \<Rightarrow> queue_error + prepare_response \<times> queue" where
  "prepared_sample new_id = prepare_batch sample_archive concat [tx ''k''] [] new_id 5 (tx ''r9'') [tx ''k''] [] [tx ''ocr'']"

lemma prepare_request_is_replayed_witness:
  "case prepared_sample (tx ''n1'') empty_queue of
     Inr (response, r) \<Rightarrow> prepared_sample (tx ''n2'') r = Inr (response\<lparr>pr_created := False\<rparr>, r) | Inl err \<Rightarrow> False"
proof -
  have "case prepared_sample (tx ''n1'') empty_queue of Inr (response, r) \<Rightarrow> True | Inl err \<Rightarrow> False" by code_simp
  then obtain response r where "prepared_sample (tx ''n1'') empty_queue = Inr (response, r)"
    by (auto split: sum.splits prod.splits)
  then show ?thesis
    using prepare_request_is_replayed [of sample_archive concat "[tx ''k'']" "[]" "tx ''n1''" 5 "tx ''r9''"
        "[tx ''k'']" "[]" "[tx ''ocr'']" empty_queue]
    by (simp add: prepared_sample_def)
qed

end
