(* ===== verification/QueueUpkeep.thy ===== *)
theory QueueUpkeep
  imports QueueEffects
begin

text \<open>
  The properties of maintenance: the purge of checkpoints, the chunk counter of the eligibility
  rule, and two behaviours that leave work stranded, a failure that reaches only its direct
  dependents and a draft whose asset was deleted.
\<close>

section \<open>The purge of checkpoints\<close>

lemma purge_page_rows:
  "q_tasks (purge_page n q) = q_tasks q"
  "q_checkpoints (purge_page n q) = filter (\<lambda>c. cp_task c \<notin> set (take n (remdups (map cp_task
     (filter (is_dead_checkpoint q) (q_checkpoints q)))))) (q_checkpoints q)"
proof -
  have "q_tasks (fold delete_task_checkpoints ids q1) = q_tasks q1" for ids q1
    by (induction ids arbitrary: q1) simp_all
  then show "q_tasks (purge_page n q) = q_tasks q" by (simp add: purge_page_def)
qed (simp add: purge_page_def delete_checkpoints_of)

lemma dead_checkpoint_cong:
  "q_tasks r = q_tasks q \<Longrightarrow> cp_task c = cp_task d \<Longrightarrow> is_dead_checkpoint r c = is_dead_checkpoint q d"
  by (simp add: is_dead_checkpoint_def find_task_def)

text \<open>
  C36: The purge ends, whatever the size of its pages, and deletes exactly the checkpoints of units
  that are gone or ended, except the paid pages of failed and cancelled extractions; it touches no
  unit.
\<close>

theorem purge_keeps_live_checkpoints:
  "q_checkpoints (purge_terminal_checkpoints tasks_per_batch q)
     = filter (\<lambda>c. \<not> is_dead_checkpoint q c) (q_checkpoints q)
   \<and> q_tasks (purge_terminal_checkpoints tasks_per_batch q) = q_tasks q"
proof (induction tasks_per_batch q rule: purge_terminal_checkpoints.induct)
  case (1 n q)
  show ?case
  proof (cases "list_ex (is_dead_checkpoint q) (q_checkpoints q)")
    case False
    then have "filter (\<lambda>c. \<not> is_dead_checkpoint q c) (q_checkpoints q) = q_checkpoints q"
      by (simp add: filter_id_conv list_ex_iff)
    with False show ?thesis by (simp add: purge_terminal_checkpoints.simps [of n])
  next
    case True
    let ?q1 = "purge_page (max 1 n) q"
    have dead: "is_dead_checkpoint ?q1 c = is_dead_checkpoint q c" for c
      by (rule dead_checkpoint_cong) (simp_all add: purge_page_rows)
    have gone: "is_dead_checkpoint q c" if "cp_task c \<in> set (take m (remdups (map cp_task
        (filter (is_dead_checkpoint q) (q_checkpoints q)))))" for c m
    proof -
      from set_take_subset that have "cp_task c \<in> set (remdups (map cp_task
        (filter (is_dead_checkpoint q) (q_checkpoints q))))" by (rule subsetD)
      then obtain d where "is_dead_checkpoint q d" "cp_task d = cp_task c" by auto
      then show ?thesis using dead_checkpoint_cong [of q q c d] by simp
    qed
    have live: "filter (\<lambda>c. \<not> is_dead_checkpoint ?q1 c) (q_checkpoints ?q1)
        = filter (\<lambda>c. \<not> is_dead_checkpoint q c) (q_checkpoints q)"
      unfolding dead purge_page_rows filter_filter by (intro filter_cong [OF refl]) (use gone in blast)
    have step: "purge_terminal_checkpoints n q = purge_terminal_checkpoints n ?q1"
      using True by (subst purge_terminal_checkpoints.simps) simp
    show ?thesis unfolding step using 1 [OF True] unfolding live purge_page_rows(1) .
  qed
qed

section \<open>The chunk counter\<close>

text \<open>
  For a text of n characters, expected_chunk_count is the least number of windows of 800
  characters, each starting 700 after the one before, that reach its end.
\<close>

theorem chunk_count_is_least_cover:
  "expected_chunk_count n = (if n = 0 then 0 else LEAST k. 0 < k \<and> n \<le> 700 * (k - 1) + 800)"
proof (cases "n = 0")
  case False
  let ?k = "chunks_from 0 n"
  have closed: "?k = (if n \<le> 800 then 1 else 1 + (n - 800 + 699) div 700)"
    using chunks_from_closed [of 0 n] by simp
  have "(LEAST k. 0 < k \<and> n \<le> 700 * (k - 1) + 800) = ?k"
  proof (rule Least_equality)
    show "0 < ?k \<and> n \<le> 700 * (?k - 1) + 800"
    proof (cases "n \<le> 800")
      case False
      have "n - 800 \<le> 700 * ((n - 800 + 699) div 700)"
        using div_mod_decomp [of "n - 800 + 699" 700] by (simp add: mult.commute)
      with False show ?thesis by (simp add: closed)
    qed (simp add: closed)
  next
    fix k :: nat assume k: "0 < k \<and> n \<le> 700 * (k - 1) + 800"
    show "?k \<le> k"
    proof (cases "n \<le> 800")
      case False
      with k have "n - 800 + 699 < 700 * (k - 1) + 700" by linarith
      then have "(n - 800 + 699) div 700 < k - 1 + 1"
        by (simp add: less_mult_imp_div_less mult.commute algebra_simps)
      with False k show ?thesis by (simp add: closed)
    qed (use k in \<open>simp add: closed\<close>)
  qed
  with False show ?thesis by (simp add: expected_chunk_count_def)
qed (simp add: expected_chunk_count_def)

section \<open>Stranded work\<close>

text \<open>
  A failure reaches only the units blocked on the failed one. A unit blocked on such a unit, as
  an embedding is on the correction of a failed OCR, stays blocked although what it waits for has
  failed; its batch then keeps an open unit and is not finalized.
\<close>

theorem failure_stops_at_direct_dependents:
  assumes "queue_ok q"
    and "fail_attempt bytes tid epoch number code message retryable provider now q = Inr (FailFailed, r)"
    and "c \<in> set (q_tasks q)" and "is_blocked_dependent tid q c"
    and "d \<in> set (q_tasks q)" and "is_blocked_dependent (tk_id c) q d" and "\<not> is_blocked_dependent tid q d"
    and "l \<in> set (q_links q)" and "ln_batch l = bid" and "ln_task l = tk_id d" and "ln_request l \<noteq> RCancelled"
  shows "fail_dependency tid TFailed c \<in> set (q_tasks r) \<and> d \<in> set (q_tasks r)
    \<and> (case maybe_finalize_batch bid r of Inr (finished, _) \<Rightarrow> \<not> finished | Inl _ \<Rightarrow> True)"
proof -
  let ?f = "\<lambda>r. r\<lparr>tk_state := TFailed, tk_error_code := Some code,
      tk_error_message := Some message, tk_owner := None, tk_next_retry := None\<rparr>"
  let ?q1 = "map_attempts (\<lambda>a. at_task a = tid \<and> at_number a = number)
      (\<lambda>a. a\<lparr>at_outcome := AFailed, at_retryable := retryable, at_code := Some code,
         at_message := Some message, at_provider := provider\<rparr>) q"
  let ?q2 = "map_tasks (\<lambda>u. tk_id u = tid) ?f ?q1"
  from assms(2) obtain t where t: "find_task tid q = Some t" "tk_state t = TRunning"
      "r = delete_checkpoints_unless_paid_extraction tid (tk_kind t) (update_tasks (\<lambda>r. tk_id r = tid) ?f ?q1)"
    by (fastforce simp: fail_attempt_def Let_def split: option.splits if_splits)
  from find_task_SomeD [OF t(1)] have mem: "t \<in> set (q_tasks ?q1)" "tk_id t = tid" by simp_all
  have ok: "tasks_ok ?q1" "tasks_ok q" using assms(1) by (simp_all add: queue_ok_def tasks_ok_def)
  have rows: "q_tasks r = q_tasks (settle_dependents tid TFailed ?q2)"
    using update_one [OF ok(1) mem(1), of ?f] t(2) mem(2) by (simp add: t(3))
  have links: "q_links r = q_links q" by (simp add: t(3))
  have dep: "is_blocked_dependent i ?q2 u = is_blocked_dependent i q u" for i u
    by (simp add: is_blocked_dependent_def dependents_def)
  have stays: "u \<in> set (q_tasks ?q2)" if "u \<in> set (q_tasks q)" "tk_state u = TBlocked" for u
  proof -
    have "tk_id u \<noteq> tid" using task_unique [OF ok(2) that(1), of t] mem t(2) that(2) by auto
    with that(1) show ?thesis by (force simp: map_tasks_def update_where_def)
  qed
  have blocked: "tk_state c = TBlocked" "tk_state d = TBlocked"
    using assms(4,6) by (simp_all add: is_blocked_dependent_def)
  have "fail_dependency tid TFailed c \<in> set (q_tasks r)"
    unfolding rows settle_rows using stays [OF assms(3) blocked(1)] assms(4)
    by (auto simp: dep intro: rev_image_eqI)
  moreover have d: "d \<in> set (q_tasks r)"
    unfolding rows settle_rows using stays [OF assms(5) blocked(2)] assms(7)
    by (auto simp: dep intro: rev_image_eqI)
  moreover have "0 < open_units bid r"
  proof -
    have "advances ?q1 (update_tasks (\<lambda>r. tk_id r = tid) ?f ?q1)"
      by (rule advances_update_tasks_any) (simp add: row_simps)
    then have "tasks_ok (update_tasks (\<lambda>r. tk_id r = tid) ?f ?q1)" using ok(1) by (rule advances_tasks_ok)
    then have "tasks_ok r" by (simp add: t(3) tasks_ok_def)
    from find_task_unique [OF this d] have "find_task (ln_task l) r = Some d" by (simp add: assms(10))
    then have "Some TBlocked = map_option tk_state (find_task (ln_task l) r)" by (simp add: blocked(2))
    moreover have "l \<in> set (filter is_open_link (links_of_batch bid r))"
      using assms(8,9,11) by (simp add: links_of_batch_def links is_open_link_def)
    ultimately have "TBlocked \<in> set (unit_states is_open_link bid r)"
      unfolding unit_states_def set_somes set_map by blast
    then show ?thesis by (auto simp: open_units_def is_open_task_def filter_empty_conv)
  qed
  then have "case maybe_finalize_batch bid r of Inr (finished, _) \<Rightarrow> \<not> finished | Inl _ \<Rightarrow> True"
    by (simp add: maybe_finalize_batch_def Let_def split: option.split)
  ultimately show ?thesis by blast
qed

lemma failure_stops_at_direct_dependents_witness:
  "case fail_attempt (\<lambda>_. []) (tx ''o'') 1 1 (tx ''bad'') [] False None 9 chain_queue of
     Inr (FailFailed, r) \<Rightarrow> blocked_unit ''d'' KEmbedding \<in> set (q_tasks r) | _ \<Rightarrow> False"
proof -
  let ?r = "fail_attempt (\<lambda>_. []) (tx ''o'') 1 1 (tx ''bad'') [] False None 9 chain_queue"
  let ?c = "blocked_unit ''c'' KOcrCorrection" and ?d = "blocked_unit ''d'' KEmbedding"
  let ?l = "sample_link ''d'' KEmbedding (Some (tx ''c''))"
  have "case ?r of Inr (FailFailed, r) \<Rightarrow> True | _ \<Rightarrow> False" by code_simp
  then obtain r where r: "?r = Inr (FailFailed, r)" by (auto split: sum.splits prod.splits fail_outcome.splits)
  have rows: "?c \<in> set (q_tasks chain_queue)" "?d \<in> set (q_tasks chain_queue)" "?l \<in> set (q_links chain_queue)"
    by (simp_all add: chain_queue_def)
  have blocked: "is_blocked_dependent (tx ''o'') chain_queue ?c" "is_blocked_dependent (tk_id ?c) chain_queue ?d"
      "\<not> is_blocked_dependent (tx ''o'') chain_queue ?d"
    by (simp_all add: is_blocked_dependent_def dependents_def sample_simps)
  have link: "ln_batch ?l = tx ''b''" "ln_task ?l = tk_id ?d" "ln_request ?l \<noteq> RCancelled"
    by (simp_all add: sample_simps)
  have "?d \<in> set (q_tasks r)"
    using failure_stops_at_direct_dependents [OF sample_queues_ok(3) r rows(1) blocked(1) rows(2) blocked(2,3)
        rows(3) link] by blast
  then show ?thesis unfolding r by simp
qed

text \<open>
  The first draft in planning asks for OCR and the page it plans next holds a file that was deleted.
\<close>

definition stalled_draft :: "archive \<Rightarrow> queue \<Rightarrow> bool" where
  "stalled_draft a q =
     (case planning_batches q of
        [] \<Rightarrow> False
      | bid # _ \<Rightarrow>
          (case find_batch bid q of
             None \<Rightarrow> False
           | Some b \<Rightarrow> \<not> bt_planning_done b \<and> op_ocr (operations_of (bt_operations b))
               \<and> list_ex (\<lambda>m. find_asset (mb_asset m) a = None) (next_page b 200 q)))"

lemma stalled_draft_cong:
  "q_batches r = q_batches q \<Longrightarrow> q_members r = q_members q \<Longrightarrow> stalled_draft a r = stalled_draft a q"
proof -
  assume rows: "q_batches r = q_batches q" "q_members r = q_members q"
  have "planning_batches r = planning_batches q" by (simp add: planning_batches_def rows)
  moreover have "find_batch bid r = find_batch bid q" "next_page b n r = next_page b n q" for bid b n
    by (simp_all add: find_batch_def next_page_def rows)
  ultimately show ?thesis by (simp only: stalled_draft_def)
qed

lemma plan_members_fails:
  "m \<in> set ms \<Longrightarrow> f (mb_ordinal m) (mb_asset m) = Inl err \<Longrightarrow> \<exists>e. plan_members f ms = Inl e"
  by (induction ms) (auto simp: try_then_def split: sum.split)

lemma deleted_member_fails:
  "find_asset aid a = None \<Longrightarrow> op_ocr ops \<Longrightarrow> plan_member e a q ops mode n aid = Inl AssetMissing"
  by (simp add: plan_member_def plan_ocr_def decide_ocr_def)

lemma stalled_page_fails:
  assumes "find_batch bid q = Some b" and "\<not> bt_planning_done b" and "op_ocr (operations_of (bt_operations b))"
    and "list_ex (\<lambda>m. find_asset (mb_asset m) a = None) (next_page b 200 q)"
  obtains err where "\<And>fresh. advance_planning e a fresh now bid 1 200 q = Inl err"
proof -
  let ?ops = "operations_of (bt_operations b)"
  from assms(4) obtain m where m: "m \<in> set (next_page b 200 q)" "find_asset (mb_asset m) a = None"
    by (auto simp: list_ex_iff)
  obtain err where err: "plan_members (plan_member e a q ?ops (resolve_batch_ocr_mode a)) (next_page b 200 q) = Inl err"
    using plan_members_fails [of m _ "plan_member e a q ?ops (resolve_batch_ocr_mode a)"]
      m(1) deleted_member_fails [OF m(2) assms(3)] by blast
  have "next_page b 200 q \<noteq> []" using m(1) by auto
  then have "classify_batch_page e a f now bid 200 q = Inl err" for f
    using assms(1,2) err by (simp add: classify_batch_page_def classify_page_def)
  then show thesis by (intro that [of err]) (simp add: advance_planning_def)
qed

lemma update_row_attempts: "(\<And>t. tk_state (f t) = TBlocked) \<Longrightarrow> q_attempts (update_row f tid q) = q_attempts q"
  by (simp add: update_row_def Let_def map_tasks_def settle_dependents_def split: option.split)

lemma update_tasks_attempts:
  assumes "\<And>t. tk_state (f t) = TBlocked"
  shows "q_attempts (update_tasks p f q) = q_attempts q"
proof -
  have "q_attempts (fold (update_row f) ids q) = q_attempts q" for ids
    using assms by (induction ids arbitrary: q) (simp_all add: update_row_attempts)
  then show ?thesis by (simp add: update_tasks_def)
qed

lemma reconcile_tables:
  "reconcile_contracts e a q = Inr r \<Longrightarrow> q_batches r = q_batches q \<and> q_members r = q_members q
     \<and> q_links r = q_links q \<and> q_attempts r = q_attempts q"
  by (auto simp: reconcile_contracts_def update_tasks_attempts split: option.splits)

text \<open>
  C37: A deleted file stops all work. While the first draft in planning asks for OCR and the page it
  plans next holds a file whose asset is gone, a tick of the scheduler ends with an error, whatever
  units are due and whatever the engines are; it has opened no attempt, so it claimed nothing, its
  batches, members and links are as before, and the draft is stalled as before, so the next tick
  ends the same way.
\<close>

theorem deleted_file_stalls_every_tick:
  assumes "stalled_draft a q"
  shows "\<exists>err r. scheduler_tick e publish bytes wording fresh engine meanwhile session kinds now (a, q) = (Inl err, (a, r))
    \<and> q_attempts r = q_attempts q \<and> q_links r = q_links q \<and> q_batches r = q_batches q \<and> q_members r = q_members q
    \<and> stalled_draft a r"
proof (cases "reconcile_contracts e a q")
  case (Inl err)
  with assms show ?thesis by (auto simp: scheduler_tick_def run_step_def)
next
  case (Inr r)
  note same = reconcile_tables [OF Inr]
  have stalled: "stalled_draft a r" using assms same stalled_draft_cong [of r q a] by simp
  then obtain bid rest b where planning: "planning_batches r = bid # rest" and b: "find_batch bid r = Some b"
      "\<not> bt_planning_done b" "op_ocr (operations_of (bt_operations b))"
      "list_ex (\<lambda>m. find_asset (mb_asset m) a = None) (next_page b 200 r)"
    by (auto simp: stalled_draft_def split: list.splits option.splits)
  obtain err where "\<And>fresh. advance_planning e a fresh now bid 1 200 r = Inl err"
    using stalled_page_fails [OF b, of e now] by metis
  then have "scheduler_tick e publish bytes wording fresh engine meanwhile session kinds now (a, q) = (Inl err, (a, r))"
    by (simp add: scheduler_tick_def run_step_def Inr planning)
  with same stalled show ?thesis by blast
qed

text \<open>A draft whose only file was deleted, beside a batch with a unit that is due.\<close>

definition stalled_queue :: queue where
  "stalled_queue = waiting_queue\<lparr>
     q_batches := [sample_batch, sample_batch\<lparr>bt_id := tx ''b2'', bt_request := tx ''r2'',
       bt_state := BPreparing, bt_planning_done := False\<rparr>],
     q_members := [\<lparr>mb_batch = tx ''b2'', mb_ordinal = 0, mb_asset = tx ''gone'', mb_item = tx ''i'',
       mb_collection = tx ''k'', mb_title = [], mb_classification = tx ''unclassified'', mb_reason = None\<rparr>]\<rparr>"

lemma deleted_file_stalls_every_tick_witness:
  "is_due 9 (sample_unit ''o'' KOcr) \<and> is_runnable [KOcr] stalled_queue (sample_unit ''o'' KOcr)
   \<and> (\<exists>err r. scheduler_tick sample_env (\<lambda>_ _ db. Inr db) (\<lambda>_. []) (\<lambda>_. []) (\<lambda>_ _ _. []) (\<lambda>_. None :: unit exec_result option)
        id (tx ''s'') [KOcr] 9 (sample_archive, stalled_queue) = (Inl err, (sample_archive, r))
      \<and> q_attempts r = q_attempts stalled_queue \<and> q_links r = q_links stalled_queue
      \<and> q_batches r = q_batches stalled_queue \<and> q_members r = q_members stalled_queue \<and> stalled_draft sample_archive r)"
proof (intro conjI)
  show "is_due 9 (sample_unit ''o'' KOcr)" by (simp add: is_due_def sample_simps)
  show "is_runnable [KOcr] stalled_queue (sample_unit ''o'' KOcr)" by code_simp
qed (rule deleted_file_stalls_every_tick, code_simp)

end
