(* ===== verification/Spec2Isabelle.thy ===== *)
theory Spec2Isabelle
  imports AgentProps AnnProps AnnRunProps IaName IaPolicy IaVerify IaImport QueueControl QueueUpkeep
begin

text \<open>
  A verification development for EntropIA, a desktop program for research on document archives
  (Rust back end under \<open>apps/desktop/src-tauri/src\<close>, crates under \<open>crates\<close>, SQLite schema under
  \<open>packages/store/src/migrations\<close>). Four subsystems that keep durable state and run concurrently
  with their user are modelled: the processing queue, the sync of Zotero annotations, the import
  from the Internet Archive, and the endpoint through which assistants work on the archive, with
  the services of the archive behind it.

  \<^bold>\<open>Common ground.\<close> \<open>Prelude\<close> fixes the model of the program's data: a string is the list of its
  Unicode scalar values (\<open>tx\<close> turns a literal into one), an unbounded or in-range integer is an
  \<open>int\<close> or \<open>nat\<close>, arithmetic that wraps or saturates is written out or kept on words. A fallible call
  returns \<open>error + result\<close>; where a failed call may leave changes behind, it returns the state
  beside the error. \<open>Json\<close> models \<open>serde_json::Value\<close> with ordered object maps; its locale
  \<open>object_map\<close> states what reading an object after a write returns, and is interpreted on JSON objects
  and on the table of annotation rows.

  \<^bold>\<open>The processing queue\<close> (\<open>processing/*.rs\<close>) runs OCR, corrections, embeddings, extractions and
  bibliography work in the background. Its state is a set of SQL tables, modelled as the record
  \<open>queue\<close> of lists of rows, beside the part of the archive it reads.
  \<^item> \<open>QueueArchive\<close>: the archive's tables and the eligibility rules (\<open>eligibility.rs\<close>).
  \<^item> \<open>QueueTables\<close>: rows, statements, and the trigger \<open>processing_tasks_settle_dependents\<close>, which
    settles blocked dependents when a unit ends and does not fire from within itself.
  \<^item> \<open>QueueTasks\<close>: the fenced writes of a worker, checkpoints, delays, the end of an attempt.
  \<^item> \<open>QueueAdmit\<close>, \<open>QueueBatches\<close>, \<open>QueuePlan\<close>: admission of units, control and end of batches,
    retries, system batches, planning of a batch page by page (\<open>repository.rs\<close>).
  \<^item> \<open>QueueClaim\<close>: \<open>claim_next\<close>, from the scan by priority over the revalidation to the lease.
  \<^item> \<open>QueueRun\<close>: publication, \<open>run_one\<close>, \<open>scheduler_tick\<close> (\<open>scheduler.rs\<close>), \<open>recover_session\<close>
    (\<open>recovery.rs\<close>). A worker runs its engine outside any transaction: \<open>begin_unit\<close> and
    \<open>finish_unit\<close> are two steps with any other operations between them.
  \<^item> \<open>QueueCommands\<close>: the services behind the user's commands (\<open>commands.rs\<close>).
  The lemmas: \<open>QueueInv\<close> states the invariant \<open>queue_ok\<close> and the relation \<open>moves\<close> that carries it
  through a statement; \<open>QueueSteps\<close>, \<open>QueueReach\<close>, \<open>QueueMachine\<close> and \<open>QueueReachable\<close> prove that every
  operation keeps it and define the step relation \<open>queue_step\<close> over all of them; \<open>QueueOrder\<close> shows the
  scan equal to a reference; \<open>QueueFence\<close> states the contract of a leased write as the locales
  \<open>leased_write\<close> and \<open>leased_end\<close> and interprets them on every write of a worker; \<open>QueueEffects\<close> says
  what one statement does to rows. The properties are in \<open>QueueProps\<close> (reachable states, leases,
  recovery), \<open>QueueWork\<close> (claims, publication, failures, delays), \<open>QueueControl\<close> (cancel, pause,
  replays) and \<open>QueueUpkeep\<close> (purge, chunk counter, stranded work), on the tables of \<open>QueueSamples\<close>.

  \<^bold>\<open>The annotation sync\<close> (\<open>bibliography/annotations\<close>) keeps a local copy of Zotero annotations,
  lets the user edit it while requests are out, and merges three ways. \<open>AnnWire\<close> (\<open>wire.rs\<close>),
  \<open>AnnModel\<close> (\<open>model.rs\<close>), \<open>AnnMachine\<close> (\<open>machine.rs\<close>, every transition of one row), \<open>AnnRepo\<close> (\<open>repo.rs\<close>,
  the table as a map) and \<open>AnnEngine\<close> (\<open>engine.rs\<close>, a whole run against an API that may answer anything)
  are the model. \<open>AnnInvariant\<close> and \<open>AnnSteps\<close> prove the row invariant for every transition and
  reachable row; \<open>AnnRun\<close> proves that a run keeps the table sound under any local commands in
  between. The properties are in \<open>AnnProps\<close> and \<open>AnnRunProps\<close>, on the rows of \<open>AnnSamples\<close>.

  \<^bold>\<open>The Internet Archive import\<close> (\<open>crates/internet-archive\<close>, \<open>internet_archive/*.rs\<close>) searches,
  prepares, downloads, verifies and hands over PDFs. The crate: \<open>IaError\<close>, \<open>IaItem\<close>, \<open>IaSearch\<close>,
  \<open>IaPolicy\<close> (which addresses may be fetched), \<open>IaName\<close>, \<open>IaVerify\<close> (with its SHA-1), \<open>IaProvenance\<close>,
  \<open>IaPrepare\<close>, \<open>IaJob\<close> (the two state machines; locale \<open>machine\<close>, interpreted on files and on jobs) and
  \<open>IaStore\<close> (the files of the job store). The desktop side: \<open>IaRunner\<close> (the downloader loop in an
  environment that interleaves other commands, faults and the network), \<open>IaRun\<close> (what every run
  guarantees; locale \<open>run_relation\<close>, interpreted on reachability by job operations and on what a run
  keeps), \<open>IaCommands\<close> and \<open>IaImport\<close>.

  \<^bold>\<open>The agent endpoint\<close> (\<open>automation/*.rs\<close>, \<open>crates/entropia-agent-connector\<close>) lets a paired assistant
  call tools over a loopback connection. What a call may do at once it does; what spends money,
  replaces a text, imports or deletes becomes a request that the person answers.
  \<^item> \<open>AgentAccess\<close> (\<open>access.rs\<close>) and \<open>AgentGuard\<close> (\<open>server.rs\<close>, \<open>proof.rs\<close>, the connector): pairing, grants,
    revocation, the guard of a request, and the proof the connector wants before it sends a token.
    \<open>AgentWho\<close> proves what the file and the memory of the access state agree on and defines the step
    relation \<open>access_step\<close>.
  \<^item> \<open>CorpusItems\<close>, \<open>CorpusDelete\<close>, \<open>CorpusImport\<close> (\<open>corpus/commands.rs\<close>, \<open>delete.rs\<close>, \<open>ingest.rs\<close>): the services
    on collections, items, page texts, deletions with their fence, and imports. \<open>CorpusKept\<close> states
    the invariant \<open>corpus_ok\<close> (every row names rows that exist) and that equal fences mean equal counts.
  \<^item> \<open>AgentApprovals\<close> (\<open>approvals.rs\<close>), \<open>AgentTools\<close> (\<open>jobs.rs\<close>, \<open>corpus_tools.rs\<close>), \<open>AgentCalls\<close> (requests of
    \<open>corpus_tools.rs\<close>, dispatch of \<open>mcp.rs\<close>, answers of \<open>commands.rs\<close>): the store of requests, what an approved
    request runs, and every call that may change something.
  The lemmas: \<open>AgentDesk\<close> defines the runs \<open>desk_steps\<close> of calls, answers and approved actions in any
  order and proves their invariant; \<open>AgentEffects\<close> says what calls and approved job actions do to the
  queue, \<open>AgentTables\<close> what they do to the archive. The properties are in \<open>AgentProps\<close>, on the archive
  and the clients of \<open>AgentSamples\<close>.

  \<^bold>\<open>Recursion and fuel.\<close> Loops over data are structural or have a termination proof by a measure.
  Two loops take fuel: the pull loop of the annotation sync runs as often as the code allows (its
  retries are a constant of the code) and the runner's loop over queued files takes the number of
  queued files plus one, which is shown to be enough for every environment. The purge of checkpoints
  terminates because each page deletes a row.

  \<^bold>\<open>Parameters.\<close> Code outside the program is an argument: digests (other than the crate's own SHA-1
  and the FNV hash of the jitter), the page count of a PDF, the JSON text parser, the engines and the
  publishers of their results, the network, the wall clock and fresh identifiers, the catalogue of the
  bibliography, the keyring, the disk an import reads, and what other connections commit between two
  transactions of a service. Hypotheses on them are stated where they are used: a publisher keeps the invariant
  of the queue; other commands on a stored job are its operations; other connections keep the tables of
  the archive sound; the digest of a fence does not confuse the two texts it is compared on. UTF-8 is an argument where only
  its bytes matter.

  \<^bold>\<open>Not modelled.\<close> Read-only listings, snapshots and estimates of the queue, its columns that are
  only displayed, and the admission of stale profile and extraction demands, which read the
  bibliography catalogue; the tools of an assistant that only read, its audit log and the protocol
  around a call; the files that follow a delete and the search index; the threads, stop flags, operating system locks and log sinks around the
  modelled steps; the HTTP clients and the conversion of values to their serialized form; SQL errors
  other than constraint violations (a failed statement ends its call and is rolled back where the code
  opens a transaction). The other subsystems of the program (OCR engines, language models,
  retrieval, cloud sync, the writing workspace, transcription, the browser, installers and the user
  interface) are not modelled: they are separate programs of their own size, mostly input and output.
\<close>

end
